(* ===== verification/Prelude.thy ===== *)
theory Prelude
  imports Main "HOL-Library.Word"
begin

text \<open>
  Shared vocabulary of the PMROS2 development: the fixed-width integer types of the C++
  sources, exceptions and undefined behaviour as values (\<open>cpp_error\<close>, results of type
  \<open>'a res\<close>), checked signed 64-bit arithmetic, decimal printing of integers as
  \<open>std::ostream\<close> does it, and the generic list, option and word lemmas the component
  theories use.
\<close>

unbundle bit_operations_syntax

named_theorems res_simps \<open>rewrite rules of the result monad\<close>

section \<open>Machine integers\<close>

type_synonym u8 = "8 word"
type_synonym u32 = "32 word"
type_synonym u64 = "64 word"

text \<open>
  Signed 64-bit values (\<open>int64_t\<close>, \<open>rcl_time_point_value_t\<close>, \<open>rcl_duration_value_t\<close>) are
  integers in the range below; an operation that leaves the range is undefined behaviour
  in C++ and an error value here.
\<close>

abbreviation INT64_MAX :: int where "INT64_MAX \<equiv> 9223372036854775807"
abbreviation INT64_MIN :: int where "INT64_MIN \<equiv> - 9223372036854775808"
abbreviation INT32_MAX :: int where "INT32_MAX \<equiv> 2147483647"
abbreviation INT32_MIN :: int where "INT32_MIN \<equiv> - 2147483648"

definition in_i64 :: "int \<Rightarrow> bool" where
  "in_i64 x \<longleftrightarrow> INT64_MIN \<le> x \<and> x \<le> INT64_MAX"

definition in_i32 :: "int \<Rightarrow> bool" where
  "in_i32 x \<longleftrightarrow> INT32_MIN \<le> x \<and> x \<le> INT32_MAX"

definition in_u32 :: "int \<Rightarrow> bool" where
  "in_u32 x \<longleftrightarrow> 0 \<le> x \<and> x \<le> 4294967295"

text \<open>Conversion to an \<open>n\<close>-bit unsigned and to a 32-bit signed value (modulo \<open>2 ^ n\<close>).\<close>

definition to_u64 :: "int \<Rightarrow> int" where
  "to_u64 x = x mod 18446744073709551616"

definition to_u32 :: "int \<Rightarrow> int" where
  "to_u32 x = x mod 4294967296"

definition to_i32 :: "int \<Rightarrow> int" where
  "to_i32 x = (x + 2147483648) mod 4294967296 - 2147483648"

lemma to_u64_id: "0 \<le> x \<Longrightarrow> x < 18446744073709551616 \<Longrightarrow> to_u64 x = x"
  by (simp add: to_u64_def)

lemma to_u32_id: "in_u32 x \<Longrightarrow> to_u32 x = x"
  by (simp add: to_u32_def in_u32_def)

lemma to_i32_id: "in_i32 x \<Longrightarrow> to_i32 x = x"
  by (simp add: to_i32_def in_i32_def)

lemma to_i32_range: "in_i32 (to_i32 x)"
proof -
  have "0 \<le> (x + 2147483648) mod 4294967296" "(x + 2147483648) mod 4294967296 < 4294967296"
    by simp_all
  then show ?thesis unfolding to_i32_def in_i32_def by linarith
qed

section \<open>Exceptions and undefined behaviour as values\<close>

text \<open>
  The return codes of the C libraries (\<open>rcl_ret_t\<close>) that the modelled operations produce.
\<close>

datatype rcl_ret =
    RCL_RET_OK
  | RCL_RET_ERROR
  | RCL_RET_BAD_ALLOC
  | RCL_RET_INVALID_ARGUMENT
  | RCL_RET_ALREADY_INIT
  | RCL_RET_SERVICE_INVALID
  | RCL_RET_SERVICE_TAKE_FAILED
  | RCL_RET_TIMER_INVALID
  | RCL_RET_TIMER_CANCELED
  | RCL_RET_ACTION_SERVER_INVALID
  | RCL_RET_ACTION_SERVER_TAKE_FAILED
  | RCL_RET_ACTION_GOAL_HANDLE_INVALID
  | RCL_RET_ACTION_GOAL_EVENT_INVALID
  | RCL_RET_TOPIC_NAME_INVALID
  | RCL_RET_UNKNOWN_SUBSTITUTION
  | RCL_RET_NODE_INVALID_NAME
  | RCL_RET_NODE_INVALID_NAMESPACE
  | RCL_RET_INVALID_REMAP_RULE
  | RCL_RET_WRONG_LEXEME
  | RCL_RET_INVALID_PARAM_RULE
  | RCL_RET_INVALID_LOG_LEVEL_RULE
  | RCL_RET_TIMEOUT
  | RCL_RET_NOT_INIT
  | RCL_RET_SUBSCRIPTION_TAKE_FAILED
  | RCL_RET_CLIENT_TAKE_FAILED
  | RCL_RET_WAIT_SET_INVALID
  | RCL_RET_WAIT_SET_EMPTY
  | RCL_RET_WAIT_SET_FULL

text \<open>
  One constructor per exception class the modelled sources throw, with the message of the
  \<open>throw\<close>; \<open>RCLError\<close> is also the result of a C function that returns a code other than
  \<open>RCL_RET_OK\<close>, with the text it passes to \<open>RCL_SET_ERROR_MSG\<close>; \<open>Other_exception\<close> is an exception of user code
  that is not a \<open>std::exception\<close>; \<open>Std_terminate\<close> is the end of the process by an exception that leaves a destructor;
  \<open>Undefined_behaviour\<close> marks an execution the language gives no meaning to
  (signed overflow, an out-of-range index, a null dereference).
\<close>

datatype cpp_error =
    Runtime_error string
  | Invalid_argument string
  | Overflow_error string
  | Underflow_error string
  | Length_error string
  | Out_of_range string
  | Rcl_error int string
  | RCLError rcl_ret string
  | RCLBadAlloc
  | RCLInvalidArgument string
  | InvalidParametersException string
  | InvalidParameterValueException string
  | ParameterAlreadyDeclaredException string
  | ParameterNotDeclaredException string
  | ParameterImmutableException string
  | ParameterTypeException string
  | Other_exception string
  | Std_terminate cpp_error
  | Undefined_behaviour string

type_synonym 'a res = "cpp_error + 'a"

abbreviation Ok :: "'a \<Rightarrow> 'a res" where "Ok \<equiv> Inr"
abbreviation Err :: "cpp_error \<Rightarrow> 'a res" where "Err \<equiv> Inl"

definition bindR :: "'a res \<Rightarrow> ('a \<Rightarrow> 'b res) \<Rightarrow> 'b res" where
  "bindR m f = (case m of Inl e \<Rightarrow> Inl e | Inr x \<Rightarrow> f x)"

lemma bindR_simps [simp, res_simps]:
  "bindR (Inr x) f = f x"
  "bindR (Inl e) f = Inl e"
  by (simp_all add: bindR_def)

lemma bindR_Inr_iff [res_simps]:
  "bindR m f = Inr y \<longleftrightarrow> (\<exists>x. m = Inr x \<and> f x = Inr y)"
  by (cases m) simp_all

lemma bindR_Inl_iff [res_simps]:
  "bindR m f = Inl e \<longleftrightarrow> m = Inl e \<or> (\<exists>x. m = Inr x \<and> f x = Inl e)"
  by (cases m) simp_all

lemma bindR_assoc [res_simps]: "bindR (bindR m f) g = bindR m (\<lambda>x. bindR (f x) g)"
  by (cases m) simp_all

lemma bindR_cong [fundef_cong]:
  "m = m' \<Longrightarrow> (\<And>x. m' = Inr x \<Longrightarrow> f x = f' x) \<Longrightarrow> bindR m f = bindR m' f'"
  by (cases m') simp_all

text \<open>
  The exception \<open>throw_from_rcl_error\<close> throws for a return code: the text of the C error state
  is left out, the prefix is kept.
\<close>

definition throw_from_rcl_error :: "rcl_ret \<Rightarrow> string \<Rightarrow> cpp_error" where
  "throw_from_rcl_error ret prefix =
     (let formatted_prefix = (if prefix = [] then prefix else prefix @ '': '')
      in case ret of
           RCL_RET_OK \<Rightarrow> Invalid_argument ''ret is RCL_RET_OK''
         | RCL_RET_BAD_ALLOC \<Rightarrow> RCLBadAlloc
         | RCL_RET_INVALID_ARGUMENT \<Rightarrow> RCLInvalidArgument formatted_prefix
         | _ \<Rightarrow> RCLError ret formatted_prefix)"

definition throw_unless :: "bool \<Rightarrow> cpp_error \<Rightarrow> unit res" where
  "throw_unless b e = (if b then Inr () else Inl e)"

definition is_ok :: "'a res \<Rightarrow> bool" where
  "is_ok r \<longleftrightarrow> (case r of Inl _ \<Rightarrow> False | Inr _ \<Rightarrow> True)"

lemma is_ok_simps [simp]: "is_ok (Inr x)" "\<not> is_ok (Inl e)"
  by (simp_all add: is_ok_def)

lemma is_ok_iff: "is_ok r \<longleftrightarrow> (\<exists>x. r = Inr x)"
  by (cases r) simp_all

subsection \<open>Checked signed 64-bit arithmetic\<close>

definition i64_result :: "int \<Rightarrow> int res" where
  "i64_result x = (if in_i64 x then Ok x else Err (Undefined_behaviour ''int64_t overflow''))"

definition i64_add :: "int \<Rightarrow> int \<Rightarrow> int res" where "i64_add a b = i64_result (a + b)"
definition i64_sub :: "int \<Rightarrow> int \<Rightarrow> int res" where "i64_sub a b = i64_result (a - b)"
definition i64_mul :: "int \<Rightarrow> int \<Rightarrow> int res" where "i64_mul a b = i64_result (a * b)"

lemma i64_result_Ok [simp]: "in_i64 x \<Longrightarrow> i64_result x = Ok x"
  by (simp add: i64_result_def)

lemma i64_result_iff [res_simps]: "i64_result x = Ok y \<longleftrightarrow> in_i64 x \<and> y = x"
  by (auto simp: i64_result_def)

text \<open>\<open>std::div\<close> and C++'s \<open>/\<close>, \<open>%\<close> truncate towards zero.\<close>

definition cdiv :: "int \<Rightarrow> int \<Rightarrow> int" where
  "cdiv a b = sgn a * sgn b * (\<bar>a\<bar> div \<bar>b\<bar>)"

definition cmod :: "int \<Rightarrow> int \<Rightarrow> int" where
  "cmod a b = a - cdiv a b * b"

lemma cdiv_nonneg: "0 \<le> a \<Longrightarrow> 0 < b \<Longrightarrow> cdiv a b = a div b"
  by (cases "a = 0") (simp_all add: cdiv_def)

lemma cdiv_neg: "a < 0 \<Longrightarrow> 0 < b \<Longrightarrow> cdiv a b = - ((- a) div b)"
  by (simp add: cdiv_def)

lemma cmod_nonneg: "0 \<le> a \<Longrightarrow> 0 < b \<Longrightarrow> cmod a b = a mod b"
  by (simp add: cmod_def cdiv_nonneg minus_div_mult_eq_mod)

lemma cmod_neg: "a < 0 \<Longrightarrow> 0 < b \<Longrightarrow> cmod a b = - ((- a) mod b)"
proof -
  assume a: "a < 0" "0 < b"
  have "- a = (- a) div b * b + (- a) mod b" by (rule div_mult_mod_eq [symmetric])
  with a show ?thesis unfolding cmod_def cdiv_neg [OF a] by linarith
qed

section \<open>Generic lemmas\<close>

lemma option_eqI_Some: "(\<And>p. x = Some p \<longleftrightarrow> y = Some p) \<Longrightarrow> x = y"
  by (cases x; cases y) auto

lemma less_succ: "(x :: 'a :: len word) + 1 \<noteq> 0 \<Longrightarrow> x < x + 1"
  by unat_arith

end
