(* ===== verification/Mmh3.thy ===== *)
theory Mmh3
  imports Prelude
begin

text \<open>
  MurmurHash3 (\<open>rclcpp/src/rclcpp/hashing/mmh3.cpp\<close>), the hash PMROS2 stamps on every
  message as its publisher's identity. A key is the list of its \<open>len\<close> bytes; block reads
  are little-endian, as on the platforms the framework targets. The three public
  functions follow the source: the block loop, the fall-through \<open>switch\<close> on the tail
  and the finalization mix.
\<close>

section \<open>Rotations, block reads and finalization\<close>

definition rotl32 :: "u32 \<Rightarrow> nat \<Rightarrow> u32" where
  "rotl32 x r = push_bit r x OR drop_bit (32 - r) x"

definition rotl64 :: "u64 \<Rightarrow> nat \<Rightarrow> u64" where
  "rotl64 x r = push_bit r x OR drop_bit (64 - r) x"

text \<open>The byte at an offset; the callers read only below the length of the key.\<close>

definition byte_at :: "u8 list \<Rightarrow> nat \<Rightarrow> u8" where
  "byte_at data i = (if i < length data then data ! i else 0)"

definition getblock32 :: "u8 list \<Rightarrow> int \<Rightarrow> int \<Rightarrow> u32" where
  "getblock32 data p i =
     (let o4 = nat (p + 4 * i) in
      ucast (byte_at data o4) OR push_bit 8 (ucast (byte_at data (o4 + 1)))
      OR push_bit 16 (ucast (byte_at data (o4 + 2))) OR push_bit 24 (ucast (byte_at data (o4 + 3))))"

definition getblock64 :: "u8 list \<Rightarrow> int \<Rightarrow> int \<Rightarrow> u64" where
  "getblock64 data p i =
     (let o8 = nat (p + 8 * i) in
      ucast (byte_at data o8) OR push_bit 8 (ucast (byte_at data (o8 + 1)))
      OR push_bit 16 (ucast (byte_at data (o8 + 2))) OR push_bit 24 (ucast (byte_at data (o8 + 3)))
      OR push_bit 32 (ucast (byte_at data (o8 + 4))) OR push_bit 40 (ucast (byte_at data (o8 + 5)))
      OR push_bit 48 (ucast (byte_at data (o8 + 6))) OR push_bit 56 (ucast (byte_at data (o8 + 7))))"

definition fmix32 :: "u32 \<Rightarrow> u32" where
  "fmix32 h =
     (let h = h XOR drop_bit 16 h;
          h = h * 0x85ebca6b;
          h = h XOR drop_bit 13 h;
          h = h * 0xc2b2ae35;
          h = h XOR drop_bit 16 h
      in h)"

definition fmix64 :: "u64 \<Rightarrow> u64" where
  "fmix64 k =
     (let k = k XOR drop_bit 33 k;
          k = k * 0xff51afd7ed558ccd;
          k = k XOR drop_bit 33 k;
          k = k * 0xc4ceb9fe1a85ec53;
          k = k XOR drop_bit 33 k
      in k)"

section \<open>MurmurHash3\_x86\_32\<close>

definition x86_32_k1 :: "u32 \<Rightarrow> u32" where
  "x86_32_k1 k1 = rotl32 (k1 * 0xcc9e2d51) 15 * 0x1b873593"

definition x86_32_mix :: "u32 \<Rightarrow> u32 \<Rightarrow> u32" where
  "x86_32_mix h1 k1 = rotl32 (h1 XOR x86_32_k1 k1) 13 * 5 + 0xe6546b64"

text \<open>
  The body loop \<open>for (int i = -nblocks; i; i++)\<close>: its third argument is \<open>-i\<close>, counting
  down to zero, and \<open>blocks\<close> points behind the last whole block.
\<close>

fun x86_32_body :: "u8 list \<Rightarrow> int \<Rightarrow> nat \<Rightarrow> u32 \<Rightarrow> u32" where
  "x86_32_body data blocks 0 h1 = h1"
| "x86_32_body data blocks (Suc n) h1 =
     x86_32_body data blocks n (x86_32_mix h1 (getblock32 data blocks (- int (Suc n))))"

definition x86_32_tail_word :: "u8 list \<Rightarrow> nat \<Rightarrow> nat \<Rightarrow> u32" where
  "x86_32_tail_word data tail r =
     (let k1 = 0;
          k1 = (if 3 \<le> r then k1 XOR push_bit 16 (ucast (byte_at data (tail + 2))) else k1);
          k1 = (if 2 \<le> r then k1 XOR push_bit 8 (ucast (byte_at data (tail + 1))) else k1);
          k1 = (if 1 \<le> r then k1 XOR ucast (byte_at data tail) else k1)
      in k1)"

definition x86_32_tail :: "u8 list \<Rightarrow> nat \<Rightarrow> nat \<Rightarrow> u32 \<Rightarrow> u32" where
  "x86_32_tail data tail r h1 =
     (if 1 \<le> r then h1 XOR x86_32_k1 (x86_32_tail_word data tail r) else h1)"

definition MurmurHash3_x86_32 :: "u8 list \<Rightarrow> u32 \<Rightarrow> u32" where
  "MurmurHash3_x86_32 key seed =
     (let len = length key; nblocks = len div 4;
          h1 = x86_32_body key (int (nblocks * 4)) nblocks seed;
          h1 = x86_32_tail key (nblocks * 4) (len mod 4) h1;
          h1 = h1 XOR of_nat len
      in fmix32 h1)"

section \<open>MurmurHash3\_x86\_128\<close>

type_synonym state4 = "u32 \<times> u32 \<times> u32 \<times> u32"

definition x86_128_k :: "u32 \<Rightarrow> u32 \<Rightarrow> nat \<Rightarrow> u32 \<Rightarrow> u32" where
  "x86_128_k ca cb r k = rotl32 (k * ca) r * cb"

definition x86_128_mix :: "state4 \<Rightarrow> u32 \<Rightarrow> u32 \<Rightarrow> u32 \<Rightarrow> u32 \<Rightarrow> state4" where
  "x86_128_mix s k1 k2 k3 k4 =
     (let (h1, h2, h3, h4) = s;
          c1 = 0x239b961b; c2 = 0xab0e9789; c3 = 0x38b34ae5; c4 = 0xa1e38b93;
          h1 = h1 XOR x86_128_k c1 c2 15 k1;
          h1 = (rotl32 h1 19 + h2) * 5 + 0x561ccd1b;
          h2 = h2 XOR x86_128_k c2 c3 16 k2;
          h2 = (rotl32 h2 17 + h3) * 5 + 0x0bcaa747;
          h3 = h3 XOR x86_128_k c3 c4 17 k3;
          h3 = (rotl32 h3 15 + h4) * 5 + 0x96cd1c35;
          h4 = h4 XOR x86_128_k c4 c1 18 k4;
          h4 = (rotl32 h4 13 + h1) * 5 + 0x32ac3b17
      in (h1, h2, h3, h4))"

fun x86_128_body :: "u8 list \<Rightarrow> int \<Rightarrow> nat \<Rightarrow> state4 \<Rightarrow> state4" where
  "x86_128_body data blocks 0 s = s"
| "x86_128_body data blocks (Suc n) s =
     (let i = - int (Suc n) in
      x86_128_body data blocks n
        (x86_128_mix s (getblock32 data blocks (i * 4 + 0)) (getblock32 data blocks (i * 4 + 1))
           (getblock32 data blocks (i * 4 + 2)) (getblock32 data blocks (i * 4 + 3))))"

text \<open>
  One arm of the fall-through \<open>switch\<close>: the bytes \<open>tail[b] .. tail[b + 3]\<close> below \<open>r\<close>
  are folded into a word, the highest offset first.
\<close>

definition tail_group32 :: "u8 list \<Rightarrow> nat \<Rightarrow> nat \<Rightarrow> nat \<Rightarrow> u32" where
  "tail_group32 data tail b r =
     (let k = 0;
          k = (if b + 4 \<le> r then k XOR push_bit 24 (ucast (byte_at data (tail + b + 3))) else k);
          k = (if b + 3 \<le> r then k XOR push_bit 16 (ucast (byte_at data (tail + b + 2))) else k);
          k = (if b + 2 \<le> r then k XOR push_bit 8 (ucast (byte_at data (tail + b + 1))) else k);
          k = (if b + 1 \<le> r then k XOR push_bit 0 (ucast (byte_at data (tail + b))) else k)
      in k)"

definition x86_128_tail :: "u8 list \<Rightarrow> nat \<Rightarrow> nat \<Rightarrow> state4 \<Rightarrow> state4" where
  "x86_128_tail data tail r s =
     (let (h1, h2, h3, h4) = s;
          c1 = 0x239b961b; c2 = 0xab0e9789; c3 = 0x38b34ae5; c4 = 0xa1e38b93;
          h4 = (if 13 \<le> r then h4 XOR x86_128_k c4 c1 18 (tail_group32 data tail 12 r) else h4);
          h3 = (if 9 \<le> r then h3 XOR x86_128_k c3 c4 17 (tail_group32 data tail 8 r) else h3);
          h2 = (if 5 \<le> r then h2 XOR x86_128_k c2 c3 16 (tail_group32 data tail 4 r) else h2);
          h1 = (if 1 \<le> r then h1 XOR x86_128_k c1 c2 15 (tail_group32 data tail 0 r) else h1)
      in (h1, h2, h3, h4))"

definition x86_128_spread :: "state4 \<Rightarrow> state4" where
  "x86_128_spread s =
     (let (h1, h2, h3, h4) = s;
          h1 = h1 + h2; h1 = h1 + h3; h1 = h1 + h4;
          h2 = h2 + h1; h3 = h3 + h1; h4 = h4 + h1
      in (h1, h2, h3, h4))"

definition MurmurHash3_x86_128 :: "u8 list \<Rightarrow> u32 \<Rightarrow> state4" where
  "MurmurHash3_x86_128 key seed =
     (let len = length key; nblocks = len div 16;
          s = x86_128_body key (int (nblocks * 16)) nblocks (seed, seed, seed, seed);
          (h1, h2, h3, h4) = x86_128_tail key (nblocks * 16) (len mod 16) s;
          l = of_nat len;
          (h1, h2, h3, h4) = x86_128_spread (h1 XOR l, h2 XOR l, h3 XOR l, h4 XOR l)
      in x86_128_spread (fmix32 h1, fmix32 h2, fmix32 h3, fmix32 h4))"

section \<open>MurmurHash3\_x64\_128\<close>

definition x64_k :: "u64 \<Rightarrow> u64 \<Rightarrow> nat \<Rightarrow> u64 \<Rightarrow> u64" where
  "x64_k ca cb r k = rotl64 (k * ca) r * cb"

definition x64_mix :: "u64 \<times> u64 \<Rightarrow> u64 \<Rightarrow> u64 \<Rightarrow> u64 \<times> u64" where
  "x64_mix s k1 k2 =
     (let (h1, h2) = s; c1 = 0x87c37b91114253d5; c2 = 0x4cf5ad432745937f;
          h1 = h1 XOR x64_k c1 c2 31 k1;
          h1 = (rotl64 h1 27 + h2) * 5 + 0x52dce729;
          h2 = h2 XOR x64_k c2 c1 33 k2;
          h2 = (rotl64 h2 31 + h1) * 5 + 0x38495ab5
      in (h1, h2))"

text \<open>The loop \<open>for (int i = 0; i < nblocks; i++)\<close>; the second argument is \<open>i\<close>.\<close>

function x64_body :: "u8 list \<Rightarrow> nat \<Rightarrow> nat \<Rightarrow> u64 \<times> u64 \<Rightarrow> u64 \<times> u64" where
  "x64_body data i nblocks s =
     (if i < nblocks then
        x64_body data (i + 1) nblocks
          (x64_mix s (getblock64 data 0 (int i * 2 + 0)) (getblock64 data 0 (int i * 2 + 1)))
      else s)"
  by pat_completeness auto
termination
  by (relation "measure (\<lambda>(data, i, nblocks, s). nblocks - i)") auto

declare x64_body.simps [simp del]

definition tail_group64 :: "u8 list \<Rightarrow> nat \<Rightarrow> nat \<Rightarrow> nat \<Rightarrow> u64" where
  "tail_group64 data tail b r =
     (let at = (\<lambda>j. ucast (byte_at data (tail + b + j)));
          k = 0;
          k = (if b + 8 \<le> r then k XOR push_bit 56 (at 7) else k);
          k = (if b + 7 \<le> r then k XOR push_bit 48 (at 6) else k);
          k = (if b + 6 \<le> r then k XOR push_bit 40 (at 5) else k);
          k = (if b + 5 \<le> r then k XOR push_bit 32 (at 4) else k);
          k = (if b + 4 \<le> r then k XOR push_bit 24 (at 3) else k);
          k = (if b + 3 \<le> r then k XOR push_bit 16 (at 2) else k);
          k = (if b + 2 \<le> r then k XOR push_bit 8 (at 1) else k);
          k = (if b + 1 \<le> r then k XOR push_bit 0 (at 0) else k)
      in k)"

definition x64_tail :: "u8 list \<Rightarrow> nat \<Rightarrow> nat \<Rightarrow> u64 \<times> u64 \<Rightarrow> u64 \<times> u64" where
  "x64_tail data tail r s =
     (let (h1, h2) = s; c1 = 0x87c37b91114253d5; c2 = 0x4cf5ad432745937f;
          h2 = (if 9 \<le> r then h2 XOR x64_k c2 c1 33 (tail_group64 data tail 8 r) else h2);
          h1 = (if 1 \<le> r then h1 XOR x64_k c1 c2 31 (tail_group64 data tail 0 r) else h1)
      in (h1, h2))"

definition MurmurHash3_x64_128 :: "u8 list \<Rightarrow> u32 \<Rightarrow> u64 \<times> u64" where
  "MurmurHash3_x64_128 key seed =
     (let len = length key; nblocks = len div 16;
          s = x64_body key 0 nblocks (ucast seed, ucast seed);
          (h1, h2) = x64_tail key (nblocks * 16) (len mod 16) s;
          h1 = h1 XOR of_nat len; h2 = h2 XOR of_nat len;
          h1 = h1 + h2; h2 = h2 + h1;
          h1 = fmix64 h1; h2 = fmix64 h2;
          h1 = h1 + h2; h2 = h2 + h1
      in (h1, h2))"

section \<open>Every mixing step is invertible\<close>

lemma xorshift_inj:
  fixes x y :: "'a::len word"
  assumes "0 < n" and eq: "x XOR drop_bit n x = y XOR drop_bit n y"
  shows "x = y"
proof -
  have "bit x i = bit y i" for i
  proof (induction "LENGTH('a) - i" arbitrary: i rule: less_induct)
    case less
    show ?case
    proof (cases "i < LENGTH('a)")
      case True
      then have "bit x (n + i) = bit y (n + i)"
        using less [of "n + i"] \<open>0 < n\<close> by simp
      moreover have "bit (x XOR drop_bit n x) i = bit (y XOR drop_bit n y) i"
        by (simp add: eq)
      ultimately show ?thesis
        by (auto simp: bit_xor_iff bit_drop_bit_eq)
    next
      case False
      then show ?thesis by (auto dest: bit_imp_le_length)
    qed
  qed
  then show ?thesis by (simp add: bit_eq_iff)
qed

lemma mult_unit_inj:
  fixes x y c c' :: "'a::len word"
  assumes "c * c' = 1" and "x * c = y * c"
  shows "x = y"
proof -
  have "x * c * c' = y * c * c'" using assms(2) by simp
  then show ?thesis by (simp add: mult.assoc assms(1))
qed

lemma rotl32_word_rotl:
  assumes "0 < r" and "r < 32"
  shows "rotl32 x r = word_rotl r x"
proof (rule bit_word_eqI)
  fix i
  assume "i < LENGTH(32)"
  then have i: "i < 32" by simp
  have "(i + (32 - r)) mod 32 = (if r \<le> i then i - r else 32 - r + i)"
    using assms i by (auto simp: mod_if)
  then have "bit (word_rotl r x) i = bit x (if r \<le> i then i - r else 32 - r + i)"
    using assms i by (simp add: bit_word_rotl_iff)
  moreover have "bit (rotl32 x r) i = (r \<le> i \<and> bit x (i - r) \<or> bit x (32 - r + i))"
    using i by (simp add: rotl32_def bit_or_iff bit_push_bit_iff bit_drop_bit_eq)
  moreover have "\<not> bit x (32 - r + i)" if "r \<le> i"
    using that assms bit_imp_le_length [of x "32 - r + i"] by auto
  ultimately show "bit (rotl32 x r) i = bit (word_rotl r x) i" by auto
qed

lemma rotl32_inj: "0 < r \<Longrightarrow> r < 32 \<Longrightarrow> rotl32 x r = rotl32 y r \<Longrightarrow> x = y"
  by (metis rotl32_word_rotl word_rot_lr)

lemma xor_cancel_left: "(a :: 'a::len word) XOR b = a XOR c \<longleftrightarrow> b = c"
  by (metis xor.left_neutral xor.assoc xor_self_eq)

lemma xor_cancel_right: "(b :: 'a::len word) XOR a = c XOR a \<longleftrightarrow> b = c"
  by (metis xor_cancel_left xor.commute)

lemma fmix32_inj: "fmix32 x = fmix32 y \<Longrightarrow> x = y"
  unfolding fmix32_def Let_def
  by (drule xorshift_inj [rotated], simp,
      drule mult_unit_inj [of _ "0x7ed1b41d", rotated], simp,
      drule xorshift_inj [rotated], simp,
      drule mult_unit_inj [of _ "0xa5cb9243", rotated], simp,
      drule xorshift_inj [rotated], simp)

lemma fmix64_inj: "fmix64 x = fmix64 y \<Longrightarrow> x = y"
  unfolding fmix64_def Let_def
  by (drule xorshift_inj [rotated], simp,
      drule mult_unit_inj [of _ "0x9cb4b2f8129337db", rotated], simp,
      drule xorshift_inj [rotated], simp,
      drule mult_unit_inj [of _ "0x4f74430c22a54005", rotated], simp,
      drule xorshift_inj [rotated], simp)

lemma x86_32_k1_inj: "x86_32_k1 a = x86_32_k1 b \<Longrightarrow> a = b"
  unfolding x86_32_k1_def
  by (drule mult_unit_inj [of _ "0x56ed309b", rotated], simp,
      drule rotl32_inj [rotated 2], simp, simp,
      drule mult_unit_inj [of _ "0xdee13bb1", rotated], simp)

lemma x86_32_mix_inj_rot: "x86_32_mix h a = x86_32_mix h' b \<Longrightarrow> h XOR x86_32_k1 a = h' XOR x86_32_k1 b"
  unfolding x86_32_mix_def
  by (drule add_right_imp_eq,
      drule mult_unit_inj [of _ "0xcccccccd", rotated], simp,
      drule rotl32_inj [rotated 2], simp, simp)

lemma x86_32_mix_inj_state: "x86_32_mix h a = x86_32_mix h' a \<Longrightarrow> h = h'"
  by (drule x86_32_mix_inj_rot) (simp add: xor_cancel_right)

lemma x86_32_mix_inj_block: "x86_32_mix h a = x86_32_mix h b \<Longrightarrow> a = b"
  by (drule x86_32_mix_inj_rot) (simp add: xor_cancel_left x86_32_k1_inj)

section \<open>The block loop reads every block once, in order\<close>

definition le32 :: "u8 \<Rightarrow> u8 \<Rightarrow> u8 \<Rightarrow> u8 \<Rightarrow> u32" where
  "le32 a b c d = ucast a OR push_bit 8 (ucast b) OR push_bit 16 (ucast c) OR push_bit 24 (ucast d)"

fun words32 :: "u8 list \<Rightarrow> u32 list" where
  "words32 (a # b # c # d # rest) = le32 a b c d # words32 rest"
| "words32 _ = []"

definition tail_bytes :: "u8 list \<Rightarrow> u8 list" where
  "tail_bytes key = drop (length key div 4 * 4) key"

text \<open>The specification: fold the mix over the little-endian words, then the tail.\<close>

definition mmh3_spec :: "u8 list \<Rightarrow> u32 \<Rightarrow> u32" where
  "mmh3_spec key seed =
     (let h1 = foldl x86_32_mix seed (words32 key);
          h1 = x86_32_tail (tail_bytes key) 0 (length (tail_bytes key)) h1
      in fmix32 (h1 XOR of_nat (length key)))"

lemma length_words32: "length (words32 key) = length key div 4"
  by (induction key rule: words32.induct) auto

lemma words32_nth: "i < length key div 4 \<Longrightarrow>
    words32 key ! i = le32 (key ! (4 * i)) (key ! (4 * i + 1)) (key ! (4 * i + 2)) (key ! (4 * i + 3))"
proof (induction key arbitrary: i rule: words32.induct)
  case (1 a b c d rest)
  then show ?case by (cases i) (auto simp: add.commute)
qed auto

lemma getblock32_words32:
  assumes "n < length key div 4"
  shows "getblock32 key (int (length key div 4 * 4)) (- int (Suc n))
       = words32 key ! (length key div 4 - Suc n)"
proof -
  let ?m = "length key div 4"
  let ?j = "?m - Suc n"
  have off: "nat (int (?m * 4) + 4 * - int (Suc n)) = 4 * ?j"
    using assms by (simp add: nat_diff_distrib' algebra_simps nat_eq_iff)
  have "4 * ?j + 3 < length key" using assms by linarith
  then show ?thesis
    using assms unfolding getblock32_def off Let_def
    by (simp add: words32_nth byte_at_def le32_def)
qed

lemma x86_32_body_foldl:
  "n \<le> length key div 4 \<Longrightarrow>
   x86_32_body key (int (length key div 4 * 4)) n h
   = foldl x86_32_mix h (drop (length key div 4 - n) (words32 key))"
proof (induction n arbitrary: h)
  case 0
  then show ?case by (simp add: length_words32)
next
  case (Suc n)
  let ?j = "length key div 4 - Suc n"
  from Suc.prems have "?j < length (words32 key)" by (simp add: length_words32)
  then have "drop ?j (words32 key) = words32 key ! ?j # drop (Suc ?j) (words32 key)"
    by (rule Cons_nth_drop_Suc [symmetric])
  moreover have "Suc ?j = length key div 4 - n" using Suc.prems by simp
  ultimately show ?case
    using Suc getblock32_words32 [of n key] by (simp del: of_nat_Suc)
qed

lemma x86_32_tail_drop:
  "k \<le> length key \<Longrightarrow> x86_32_tail key k r h = x86_32_tail (drop k key) 0 r h"
  unfolding x86_32_tail_def x86_32_tail_word_def byte_at_def Let_def
  by (simp add: add.commute less_diff_conv)

lemma length_tail_bytes: "length (tail_bytes key) = length key mod 4"
  by (simp add: tail_bytes_def minus_div_mult_eq_mod)

lemma x86_32_eq_spec: "MurmurHash3_x86_32 key seed = mmh3_spec key seed"
proof -
  let ?k = "length key div 4 * 4"
  have body: "x86_32_body key (int ?k) (length key div 4) seed = foldl x86_32_mix seed (words32 key)"
    using x86_32_body_foldl [of "length key div 4" key seed] by simp
  have tail: "x86_32_tail key ?k r h = x86_32_tail (tail_bytes key) 0 r h" for r h
    unfolding tail_bytes_def by (rule x86_32_tail_drop) simp
  show ?thesis
    unfolding MurmurHash3_x86_32_def mmh3_spec_def Let_def body tail length_tail_bytes ..
qed

section \<open>Keys that differ in one block or only in the tail do not collide\<close>

lemma foldl_mix_inj: "foldl x86_32_mix h ws = foldl x86_32_mix h' ws \<Longrightarrow> h = h'"
  by (induction ws arbitrary: h h') (auto dest: x86_32_mix_inj_state)

lemma foldl_mix_block_inj:
  assumes "i < length ws" and "foldl x86_32_mix h (ws[i := v]) = foldl x86_32_mix h ws"
  shows "v = ws ! i"
proof -
  have split: "ws = take i ws @ ws ! i # drop (Suc i) ws"
    using assms(1) by (rule id_take_nth_drop)
  have "ws[i := v] = take i ws @ v # drop (Suc i) ws"
    using assms(1) by (rule upd_conv_take_nth_drop)
  with assms(2) have "foldl x86_32_mix (x86_32_mix (foldl x86_32_mix h (take i ws)) v) (drop (Suc i) ws)
      = foldl x86_32_mix (x86_32_mix (foldl x86_32_mix h (take i ws)) (ws ! i)) (drop (Suc i) ws)"
    by (subst (asm) (2) split) simp
  then show ?thesis by (blast dest: foldl_mix_inj x86_32_mix_inj_block)
qed

lemma mmh3_same_length_eq:
  assumes "length k = length k'" and "MurmurHash3_x86_32 k seed = MurmurHash3_x86_32 k' seed"
  shows "x86_32_tail (tail_bytes k) 0 (length k mod 4) (foldl x86_32_mix seed (words32 k))
       = x86_32_tail (tail_bytes k') 0 (length k mod 4) (foldl x86_32_mix seed (words32 k'))"
  using assms
  by (auto simp: x86_32_eq_spec mmh3_spec_def Let_def length_tail_bytes xor_cancel_right dest!: fmix32_inj)

lemma x86_32_tail_inj_state: "x86_32_tail t k r h = x86_32_tail t k r h' \<Longrightarrow> h = h'"
  by (auto simp: x86_32_tail_def xor_cancel_right split: if_splits)

lemma bit_le32:
  "bit (le32 a b c d) i =
     (if i < 8 then bit a i else if i < 16 then bit b (i - 8)
      else if i < 24 then bit c (i - 16) else i < 32 \<and> bit d (i - 24))"
  unfolding le32_def
  by (auto simp: bit_or_iff bit_push_bit_iff bit_ucast_iff dest: bit_imp_le_length)

lemma le32_inj: "le32 a b c d = le32 a' b' c' d' \<longleftrightarrow> a = a' \<and> b = b' \<and> c = c' \<and> d = d'"
proof
  assume eq: "le32 a b c d = le32 a' b' c' d'"
  have "bit a i = bit a' i \<and> bit b i = bit b' i \<and> bit c i = bit c' i \<and> bit d i = bit d' i" if "i < 8" for i
  proof -
    have "bit (le32 a b c d) j = bit (le32 a' b' c' d') j" for j using eq by simp
    from this [of i] this [of "i + 8"] this [of "i + 16"] this [of "i + 24"] that
    show ?thesis by (simp add: bit_le32)
  qed
  then show "a = a' \<and> b = b' \<and> c = c' \<and> d = d'"
    by (auto intro!: bit_word_eqI)
qed simp

lemma tail_word_le32:
  "x86_32_tail_word [a] 0 1 = le32 a 0 0 0"
  "x86_32_tail_word [a, b] 0 2 = le32 a b 0 0"
  "x86_32_tail_word [a, b, c] 0 3 = le32 a b c 0"
  by (rule bit_word_eqI, auto simp: x86_32_tail_word_def byte_at_def bit_le32 bit_xor_iff
       bit_push_bit_iff bit_ucast_iff dest: bit_imp_le_length)+

lemma length_123:
  "length t = 1 \<longleftrightarrow> (\<exists>a. t = [a])"
  "length t = 2 \<longleftrightarrow> (\<exists>a b. t = [a, b])"
  "length t = 3 \<longleftrightarrow> (\<exists>a b c. t = [a, b, c])"
  by (auto simp: length_Suc_conv numeral_eq_Suc)

lemma tail_word_inj:
  assumes len: "length t' = length t" and "0 < length t" and "length t < 4"
    and eq: "x86_32_tail_word t 0 (length t) = x86_32_tail_word t' 0 (length t)"
  shows "t = t'"
proof -
  consider "length t = 1" | "length t = 2" | "length t = 3" using assms(2,3) by linarith
  then show ?thesis
  proof cases
    case 1
    with eq len show ?thesis
      by (metis length_123(1) tail_word_le32(1) le32_inj)
  next
    case 2
    with eq len show ?thesis
      by (metis length_123(2) tail_word_le32(2) le32_inj)
  next
    case 3
    with eq len show ?thesis
      by (metis length_123(3) tail_word_le32(3) le32_inj)
  qed
qed

lemma words32_append4: "length p mod 4 = 0 \<Longrightarrow> words32 (p @ q) = words32 p @ words32 q"
  by (induction p rule: words32.induct) (auto simp: )

lemma tail_bytes_append4: "length p mod 4 = 0 \<Longrightarrow> tail_bytes (p @ q) = tail_bytes q"
  by (auto simp: tail_bytes_def mod_eq_0_iff_dvd elim!: dvdE)

lemma words32_one: "length b = 4 \<Longrightarrow> words32 b = [le32 (b ! 0) (b ! 1) (b ! 2) (b ! 3)]"
  by (auto simp: length_Suc_conv numeral_eq_Suc)

lemma words32_one_inj: "length b = 4 \<Longrightarrow> length b' = 4 \<Longrightarrow> words32 b = words32 b' \<Longrightarrow> b = b'"
  by (auto simp: length_Suc_conv numeral_eq_Suc le32_inj)

lemma words32_short: "length t < 4 \<Longrightarrow> words32 t = []"
  by (cases t rule: words32.cases) auto

lemma tail_bytes_short: "length t < 4 \<Longrightarrow> tail_bytes t = t"
  by (simp add: tail_bytes_def)

section \<open>A reference on natural numbers\<close>

text \<open>
  The published algorithm on numbers below \<open>2 ^ 32\<close>: products and sums are taken modulo \<open>2 ^ 32\<close>, a rotation
  multiplies and divides by powers of two, and a group of at most four bytes is a number to the base 256.
\<close>

definition ref_rotate :: "nat \<Rightarrow> nat \<Rightarrow> nat" where
  "ref_rotate r x = x * 2 ^ r mod 2 ^ 32 + x div 2 ^ (32 - r)"

definition ref_scramble :: "nat \<Rightarrow> nat" where
  "ref_scramble k = ref_rotate 15 (k * 3432918353 mod 2 ^ 32) * 461845907 mod 2 ^ 32"

definition ref_avalanche :: "nat \<Rightarrow> nat" where
  "ref_avalanche h =
     (let a = (h XOR h div 2 ^ 16) * 2246822507 mod 2 ^ 32;
          b = (a XOR a div 2 ^ 13) * 3266489909 mod 2 ^ 32
      in b XOR b div 2 ^ 16)"

fun ref_number :: "u8 list \<Rightarrow> nat" where
  "ref_number [] = 0"
| "ref_number (b # bs) = unat b + 256 * ref_number bs"

fun ref_absorb :: "nat \<Rightarrow> u8 list \<Rightarrow> nat" where
  "ref_absorb h (a # b # c # d # rest) =
     ref_absorb ((ref_rotate 13 (h XOR ref_scramble (ref_number [a, b, c, d])) * 5 + 3864292196) mod 2 ^ 32) rest"
| "ref_absorb h rest = h XOR ref_scramble (ref_number rest)"

definition mmh3_reference :: "u8 list \<Rightarrow> nat \<Rightarrow> nat" where
  "mmh3_reference key seed = ref_avalanche (ref_absorb seed key XOR (length key mod 2 ^ 32))"

lemma unat_mult32: "unat (x * y :: u32) = unat x * unat y mod 2 ^ 32"
  by (simp add: unat_word_ariths)

lemma unat_shift: "unat (drop_bit n x :: u32) = unat x div 2 ^ n"
  by (subst unat_drop_bit_eq) (simp only: drop_bit_eq_div)

lemma unat_less_power: "unat (x :: u32) < 2 ^ 32"
proof -
  have "(unsigned x :: nat) < 2 ^ LENGTH(32)" by (rule unsigned_less)
  then show ?thesis by simp
qed

lemma unat_rotl32:
  assumes "0 < r" "r < 32"
  shows "unat (rotl32 x r) = ref_rotate r (unat x)"
proof -
  have "push_bit r x OR drop_bit (32 - r) x = push_bit r x + drop_bit (32 - r) x"
  proof (rule disjunctive_add_eq_or [symmetric], rule bit_word_eqI)
    fix i assume "i < LENGTH(32)"
    show "bit (push_bit r x AND drop_bit (32 - r) x) i = bit (0 :: u32) i"
      using assms bit_imp_le_length [of x "32 - r + i"] by (auto simp: bit_and_iff bit_push_bit_iff bit_drop_bit_eq)
  qed
  moreover have p: "unat (push_bit r x) = unat x * 2 ^ r mod 2 ^ 32"
    by (simp only: unsigned_push_bit_eq) (simp add: take_bit_eq_mod push_bit_eq_mult)
  moreover have "unat x * 2 ^ r mod 2 ^ 32 + unat x div 2 ^ (32 - r) < 2 ^ 32"
  proof -
    have s: "(2 :: nat) ^ 32 = 2 ^ r * 2 ^ (32 - r)" using assms by (simp flip: power_add)
    then have "unat x * 2 ^ r mod 2 ^ 32 = 2 ^ r * (unat x mod 2 ^ (32 - r))" by (simp add: mult.commute mult_mod_right)
    moreover have "unat x mod 2 ^ (32 - r) < 2 ^ (32 - r)" by simp
    then have "2 ^ r * (unat x mod 2 ^ (32 - r)) + 2 ^ r \<le> 2 ^ 32" unfolding s by (metis Suc_leI mult_Suc_right mult_le_mono2 add.commute)
    moreover have "unat x div 2 ^ (32 - r) < 2 ^ r"
      by (rule less_mult_imp_div_less) (use unat_less_power [of x] s in simp)
    ultimately show ?thesis by linarith
  qed
  ultimately show ?thesis
    by (simp add: rotl32_def ref_rotate_def unat_word_ariths unat_shift)
qed

lemma unat_k1: "unat (x86_32_k1 k) = ref_scramble (unat k)"
  by (simp add: x86_32_k1_def ref_scramble_def unat_mult32 unat_rotl32)

lemma unat_mix: "unat (x86_32_mix h k) = (ref_rotate 13 (unat h XOR ref_scramble (unat k)) * 5 + 3864292196) mod 2 ^ 32"
  by (simp add: x86_32_mix_def unat_word_ariths unat_rotl32 unsigned_xor_eq unat_k1 mod_simps)

lemma unat_fmix32: "unat (fmix32 h) = ref_avalanche (unat h)"
  by (simp add: fmix32_def ref_avalanche_def Let_def unsigned_xor_eq unat_mult32 unat_shift)

lemma unat_le32: "unat (le32 a b c d) = ref_number [a, b, c, d]"
proof -
  let ?u = "\<lambda>x :: u8. (ucast x :: u32)"
  have byte: "n < 8" if "bit (x :: u8) n" for x n using bit_imp_le_length [OF that] by simp
  let ?cd = "push_bit 16 (?u c) OR push_bit 24 (?u d)"
  have "?cd = push_bit 16 (?u c) + push_bit 24 (?u d)"
    by (rule disjunctive_add_eq_or [symmetric], rule bit_word_eqI) (auto simp: bit_and_iff bit_push_bit_iff bit_ucast_iff dest!: byte)
  moreover have "push_bit 8 (?u b) OR ?cd = push_bit 8 (?u b) + ?cd"
    by (rule disjunctive_add_eq_or [symmetric], rule bit_word_eqI) (auto simp: bit_and_iff bit_or_iff bit_push_bit_iff bit_ucast_iff dest!: byte)
  moreover have "?u a OR (push_bit 8 (?u b) OR ?cd) = ?u a + (push_bit 8 (?u b) OR ?cd)"
    by (rule disjunctive_add_eq_or [symmetric], rule bit_word_eqI) (auto simp: bit_and_iff bit_or_iff bit_push_bit_iff bit_ucast_iff dest!: byte)
  ultimately have "le32 a b c d = ?u a + (push_bit 8 (?u b) + (push_bit 16 (?u c) + push_bit 24 (?u d)))"
    by (simp add: le32_def or.assoc)
  moreover have "unat a < 256" "unat b < 256" "unat c < 256" "unat d < 256"
    using unsigned_less [of a] unsigned_less [of b] unsigned_less [of c] unsigned_less [of d] by simp_all
  ultimately show ?thesis by (simp add: push_bit_eq_mult unat_word_ariths unsigned_ucast_eq take_bit_nat_eq_self)
qed

lemma unat_tail: "length t < 4 \<Longrightarrow> unat (x86_32_tail t 0 (length t) h) = unat h XOR ref_scramble (ref_number t)"
proof -
  assume "length t < 4"
  then consider (0) "t = []" | (1) a where "t = [a]" | (2) a b where "t = [a, b]" | (3) a b c where "t = [a, b, c]"
    by (cases t rule: words32.cases) auto
  then show ?thesis
  proof cases
    case 0
    then show ?thesis by (simp add: x86_32_tail_def ref_scramble_def ref_rotate_def)
  next
    case 1
    then show ?thesis using tail_word_le32(1) [of a] by (simp add: x86_32_tail_def unsigned_xor_eq unat_k1 unat_le32)
  next
    case 2
    then show ?thesis using tail_word_le32(2) [of a b] by (simp add: x86_32_tail_def unsigned_xor_eq unat_k1 unat_le32 numeral_eq_Suc)
  next
    case 3
    then show ?thesis using tail_word_le32(3) [of a b c] by (simp add: x86_32_tail_def unsigned_xor_eq unat_k1 unat_le32 numeral_eq_Suc)
  qed
qed

lemma absorb_short:
  assumes "length t < 4"
  shows "unat (x86_32_tail (tail_bytes t) 0 (length (tail_bytes t)) (foldl x86_32_mix h (words32 t))) = ref_absorb (unat h) t"
proof -
  have "ref_absorb (unat h) t = unat h XOR ref_scramble (ref_number t)" using assms by (cases t rule: words32.cases) auto
  then show ?thesis using assms by (simp add: tail_bytes_short words32_short unat_tail)
qed

lemma unat_absorb:
  "unat (x86_32_tail (tail_bytes key) 0 (length (tail_bytes key)) (foldl x86_32_mix h (words32 key))) = ref_absorb (unat h) key"
proof (induction key arbitrary: h rule: words32.induct)
  case (1 a b c d rest)
  have "tail_bytes (a # b # c # d # rest) = tail_bytes rest" using tail_bytes_append4 [of "[a, b, c, d]" rest] by simp
  then show ?case using 1 [of "x86_32_mix h (le32 a b c d)"] by (simp add: unat_mix unat_le32)
qed (rule absorb_short, simp)+

section \<open>Properties\<close>

text \<open>Two node names of equal length that differ only inside one aligned four-byte block,
  or only in the trailing bytes after the last whole block, never get the same 32-bit
  publisher hash, whatever the seed and whatever surrounds the difference.\<close>

theorem mmh3_local_change_no_collision:
  assumes "length p mod 4 = 0" and "length b = length b'" and "b \<noteq> b'"
    and "length b = 4 \<or> length b < 4 \<and> s = []"
  shows "MurmurHash3_x86_32 (p @ b @ s) seed \<noteq> MurmurHash3_x86_32 (p @ b' @ s) seed"
proof
  assume eq: "MurmurHash3_x86_32 (p @ b @ s) seed = MurmurHash3_x86_32 (p @ b' @ s) seed"
  let ?h = "foldl x86_32_mix seed (words32 p)"
  from mmh3_same_length_eq [OF _ eq] assms(2)
  have tails: "x86_32_tail (tail_bytes (b @ s)) 0 (length (p @ b @ s) mod 4) (foldl x86_32_mix ?h (words32 (b @ s)))
     = x86_32_tail (tail_bytes (b' @ s)) 0 (length (p @ b @ s) mod 4) (foldl x86_32_mix ?h (words32 (b' @ s)))"
    by (simp add: words32_append4 tail_bytes_append4 assms(1))
  from assms(4) show False
  proof
    assume b4: "length b = 4"
    then have "x86_32_tail (tail_bytes s) 0 (length (p @ b @ s) mod 4) (foldl x86_32_mix ?h (words32 (b @ s)))
     = x86_32_tail (tail_bytes s) 0 (length (p @ b @ s) mod 4) (foldl x86_32_mix ?h (words32 (b' @ s)))"
      using tails assms(2) by (simp add: tail_bytes_append4)
    then have "foldl x86_32_mix (foldl x86_32_mix ?h (words32 b)) (words32 s)
             = foldl x86_32_mix (foldl x86_32_mix ?h (words32 b')) (words32 s)"
      using b4 assms(2) by (auto simp: words32_append4 dest!: x86_32_tail_inj_state)
    then have "words32 b = words32 b'"
      using b4 assms(2) by (auto simp: words32_one dest!: foldl_mix_inj x86_32_mix_inj_block)
    then show False using b4 assms(2,3) words32_one_inj by metis
  next
    assume short: "length b < 4 \<and> s = []"
    then have "0 < length b" using assms(2,3) by auto
    moreover have "length (p @ b @ s) mod 4 = length b"
      using short assms(1) by (simp add: mod_add_left_eq [symmetric])
    ultimately have "x86_32_tail_word b 0 (length b) = x86_32_tail_word b' 0 (length b)"
      using tails short assms(2)
      by (auto simp: words32_short Suc_le_eq tail_bytes_short x86_32_tail_def xor_cancel_left dest!: x86_32_k1_inj)
    then show False using tail_word_inj [of b' b] short assms(2,3) \<open>0 < length b\<close> by metis
  qed
qed

theorem mmh3_local_change_no_collision_witness:
  "MurmurHash3_x86_32 ([0x2f, 0x61, 0x62, 0x63] @ [0x64] @ []) 0
   \<noteq> MurmurHash3_x86_32 ([0x2f, 0x61, 0x62, 0x63] @ [0x65] @ []) 0"
  by (rule mmh3_local_change_no_collision) simp_all

text \<open>The finalization mixes lose no information: both are bijections on their words.\<close>

theorem fmix_bijective: "bij fmix32 \<and> bij fmix64"
proof -
  have "inj fmix32" "inj fmix64" by (auto intro!: injI dest: fmix32_inj fmix64_inj)
  then show ?thesis by (simp add: bij_def finite_UNIV_inj_surj)
qed

lemma mmh3_test_vectors:
  "MurmurHash3_x86_32 [] 0 = 0 \<and>
   MurmurHash3_x86_32 [0x68,0x65,0x6c,0x6c,0x6f] 0 = 0x248bfa47 \<and>
   MurmurHash3_x86_128 [0x2f,0x73,0x65,0x6e,0x73,0x6f,0x72,0x73,0x2f,0x6c,0x69,0x64,0x61,0x72,0x2f,0x74,0x61,0x6c,0x6b,0x65,0x72] 0
     = (0x5322037c, 0x51b378d0, 0xf8883582, 0x9be06e4e) \<and>
   MurmurHash3_x64_128 [0x2f,0x73,0x65,0x6e,0x73,0x6f,0x72,0x73,0x2f,0x6c,0x69,0x64,0x61,0x72,0x2f,0x74,0x61,0x6c,0x6b,0x65,0x72] 0
     = (0xc00e8c9d33e4483c, 0xfa258cbbaa0be269)"
  by (intro conjI; code_simp)

text \<open>C20. The implementation, which walks a pointer placed behind the last whole block with negative indices and falls
  through a \<open>switch\<close> on the tail, computes the published algorithm, written on natural numbers: groups of four bytes are
  scrambled and absorbed in order, then the one to three bytes that are left, the length and the avalanche.\<close>

theorem mmh3_x86_32_refines_spec: "unat (MurmurHash3_x86_32 key seed) = mmh3_reference key (unat seed)"
  by (simp add: x86_32_eq_spec mmh3_spec_def mmh3_reference_def Let_def unat_fmix32 unsigned_xor_eq unat_absorb
      unsigned_of_nat take_bit_eq_mod)

end
