(* ===== verification/RosTime.thy ===== *)
theory RosTime
  imports Prelude
begin

text \<open>
  \<open>rclcpp::Duration\<close> (\<open>duration.cpp\<close>), \<open>rclcpp::Time\<close> (\<open>time.cpp\<close>), the overflow predicates
  of \<open>utilities.hpp\<close> and \<open>GenericRate\<close> (\<open>rate.hpp\<close>). Nanosecond counts are integers kept
  in the \<open>int64_t\<close> range by checked arithmetic, so every signed overflow of the source would
  show as \<open>Undefined_behaviour\<close>. The floating-point members (\<open>operator*\<close>, \<open>seconds\<close>) are
  left out.
\<close>

abbreviation NS_PER_S :: int where "NS_PER_S \<equiv> 1000000000"

text \<open>\<open>std::abs\<close> on \<open>int64_t\<close> is undefined at the most negative value.\<close>

definition abs_i64 :: "int \<Rightarrow> int res" where
  "abs_i64 x = i64_result \<bar>x\<bar>"

section \<open>Duration\<close>

record duration =
  dur_ns :: int

text \<open>The message \<open>builtin_interfaces/msg/Duration\<close>: \<open>int32 sec\<close>, \<open>uint32 nanosec\<close>.\<close>

record stamp_msg =
  sec :: int
  nanosec :: int

definition Duration_of_sec_nsec :: "int \<Rightarrow> int \<Rightarrow> duration res" where
  "Duration_of_sec_nsec seconds nanoseconds =
     bindR (i64_mul seconds NS_PER_S) (\<lambda>ns.
     bindR (i64_add ns nanoseconds) (\<lambda>ns.
     Ok \<lparr>dur_ns = ns\<rparr>))"

definition Duration_of_ns :: "int \<Rightarrow> duration" where
  "Duration_of_ns nanoseconds = \<lparr>dur_ns = nanoseconds\<rparr>"

definition Duration_of_msg :: "stamp_msg \<Rightarrow> duration res" where
  "Duration_of_msg m =
     bindR (i64_mul (sec m) NS_PER_S) (\<lambda>ns.
     bindR (i64_add ns (nanosec m)) (\<lambda>ns.
     Ok \<lparr>dur_ns = ns\<rparr>))"

definition ns_to_msg :: "int \<Rightarrow> stamp_msg" where
  "ns_to_msg ns =
     (let quot = cdiv ns NS_PER_S; rem = cmod ns NS_PER_S in
      if rem \<ge> 0 then \<lparr>sec = to_i32 quot, nanosec = to_u32 rem\<rparr>
      else \<lparr>sec = to_i32 (quot - 1), nanosec = to_u32 (NS_PER_S + rem)\<rparr>)"

definition Duration_to_msg :: "duration \<Rightarrow> stamp_msg" where
  "Duration_to_msg d = ns_to_msg (dur_ns d)"

definition Duration_eq :: "duration \<Rightarrow> duration \<Rightarrow> bool" where
  "Duration_eq l r \<longleftrightarrow> dur_ns l = dur_ns r"
definition Duration_ne :: "duration \<Rightarrow> duration \<Rightarrow> bool" where
  "Duration_ne l r \<longleftrightarrow> dur_ns l \<noteq> dur_ns r"
definition Duration_lt :: "duration \<Rightarrow> duration \<Rightarrow> bool" where
  "Duration_lt l r \<longleftrightarrow> dur_ns l < dur_ns r"
definition Duration_le :: "duration \<Rightarrow> duration \<Rightarrow> bool" where
  "Duration_le l r \<longleftrightarrow> dur_ns l \<le> dur_ns r"
definition Duration_ge :: "duration \<Rightarrow> duration \<Rightarrow> bool" where
  "Duration_ge l r \<longleftrightarrow> dur_ns l \<ge> dur_ns r"
definition Duration_gt :: "duration \<Rightarrow> duration \<Rightarrow> bool" where
  "Duration_gt l r \<longleftrightarrow> dur_ns l > dur_ns r"

definition bounds_check_duration_sum :: "int \<Rightarrow> int \<Rightarrow> int \<Rightarrow> unit res" where
  "bounds_check_duration_sum lhsns rhsns maxv =
     bindR (abs_i64 lhsns) (\<lambda>al.
     bindR (abs_i64 rhsns) (\<lambda>ar.
     let abs_lhs = to_u64 al; abs_rhs = to_u64 ar in
     if lhsns > 0 \<and> rhsns > 0 then
       (if to_u64 (abs_lhs + abs_rhs) > maxv
        then Err (Overflow_error ''addition leads to int64_t overflow'') else Ok ())
     else if lhsns < 0 \<and> rhsns < 0 then
       (if to_u64 (abs_lhs + abs_rhs) > maxv
        then Err (Underflow_error ''addition leads to int64_t underflow'') else Ok ())
     else Ok ()))"

definition Duration_plus :: "duration \<Rightarrow> duration \<Rightarrow> duration res" where
  "Duration_plus l r =
     bindR (bounds_check_duration_sum (dur_ns l) (dur_ns r) INT64_MAX) (\<lambda>_.
     bindR (i64_add (dur_ns l) (dur_ns r)) (\<lambda>s. Ok (Duration_of_ns s)))"

definition bounds_check_duration_difference :: "int \<Rightarrow> int \<Rightarrow> int \<Rightarrow> unit res" where
  "bounds_check_duration_difference lhsns rhsns maxv =
     bindR (abs_i64 lhsns) (\<lambda>al.
     bindR (abs_i64 rhsns) (\<lambda>ar.
     let abs_lhs = to_u64 al; abs_rhs = to_u64 ar in
     if lhsns > 0 \<and> rhsns < 0 then
       (if to_u64 (abs_lhs + abs_rhs) > maxv
        then Err (Overflow_error ''duration subtraction leads to int64_t overflow'') else Ok ())
     else if lhsns < 0 \<and> rhsns > 0 then
       (if to_u64 (abs_lhs + abs_rhs) > maxv
        then Err (Underflow_error ''duration subtraction leads to int64_t underflow'') else Ok ())
     else Ok ()))"

definition Duration_minus :: "duration \<Rightarrow> duration \<Rightarrow> duration res" where
  "Duration_minus l r =
     bindR (bounds_check_duration_difference (dur_ns l) (dur_ns r) INT64_MAX) (\<lambda>_.
     bindR (i64_sub (dur_ns l) (dur_ns r)) (\<lambda>s. Ok (Duration_of_ns s)))"

definition Duration_max :: "duration res" where
  "Duration_max = Duration_of_sec_nsec INT32_MAX 999999999"

text \<open>\<open>rmw_time_t\<close> has two unsigned 64-bit fields.\<close>

definition Duration_to_rmw_time :: "duration \<Rightarrow> (int \<times> int) res" where
  "Duration_to_rmw_time d =
     (if dur_ns d < 0 then Err (Runtime_error ''rmw_time_t cannot be negative'')
      else let m = Duration_to_msg d in Ok (to_u64 (sec m), to_u64 (nanosec m)))"

section \<open>Time\<close>

datatype rcl_clock_type = RCL_CLOCK_UNINITIALIZED | RCL_ROS_TIME | RCL_SYSTEM_TIME | RCL_STEADY_TIME

record time =
  time_ns :: int
  clock_type :: rcl_clock_type

definition Time_of_sec_nsec :: "int \<Rightarrow> int \<Rightarrow> rcl_clock_type \<Rightarrow> time res" where
  "Time_of_sec_nsec seconds nanoseconds ct =
     (if seconds < 0 then Err (Runtime_error ''cannot store a negative time point in rclcpp::Time'')
      else bindR (i64_mul seconds NS_PER_S) (\<lambda>ns.
           bindR (i64_add ns nanoseconds) (\<lambda>ns.
           Ok \<lparr>time_ns = ns, clock_type = ct\<rparr>)))"

definition Time_of_ns :: "int \<Rightarrow> rcl_clock_type \<Rightarrow> time" where
  "Time_of_ns nanoseconds ct = \<lparr>time_ns = nanoseconds, clock_type = ct\<rparr>"

definition Time_of_msg :: "stamp_msg \<Rightarrow> rcl_clock_type \<Rightarrow> time res" where
  "Time_of_msg m ct =
     (if sec m < 0 then Err (Runtime_error ''cannot store a negative time point in rclcpp::Time'')
      else bindR (i64_mul (sec m) NS_PER_S) (\<lambda>ns.
           bindR (i64_add ns (nanosec m)) (\<lambda>ns.
           Ok \<lparr>time_ns = ns, clock_type = ct\<rparr>)))"

definition Time_to_msg :: "time \<Rightarrow> stamp_msg" where
  "Time_to_msg t = ns_to_msg (time_ns t)"

definition time_compare :: "(int \<Rightarrow> int \<Rightarrow> bool) \<Rightarrow> time \<Rightarrow> time \<Rightarrow> bool res" where
  "time_compare rel l r =
     (if clock_type l \<noteq> clock_type r
      then Err (Runtime_error ''can't compare times with different time sources'')
      else Ok (rel (time_ns l) (time_ns r)))"

definition Time_eq :: "time \<Rightarrow> time \<Rightarrow> bool res" where "Time_eq = time_compare (=)"
definition Time_ne :: "time \<Rightarrow> time \<Rightarrow> bool res" where
  "Time_ne l r = bindR (Time_eq l r) (\<lambda>b. Ok (\<not> b))"
definition Time_lt :: "time \<Rightarrow> time \<Rightarrow> bool res" where "Time_lt = time_compare (<)"
definition Time_le :: "time \<Rightarrow> time \<Rightarrow> bool res" where "Time_le = time_compare (\<le>)"
definition Time_ge :: "time \<Rightarrow> time \<Rightarrow> bool res" where "Time_ge = time_compare (\<ge>)"
definition Time_gt :: "time \<Rightarrow> time \<Rightarrow> bool res" where "Time_gt = time_compare (>)"

definition add_will_overflow :: "int \<Rightarrow> int \<Rightarrow> bool" where
  "add_will_overflow x y \<longleftrightarrow> y > 0 \<and> x > INT64_MAX - y"
definition add_will_underflow :: "int \<Rightarrow> int \<Rightarrow> bool" where
  "add_will_underflow x y \<longleftrightarrow> y < 0 \<and> x < INT64_MIN - y"
definition sub_will_overflow :: "int \<Rightarrow> int \<Rightarrow> bool" where
  "sub_will_overflow x y \<longleftrightarrow> y < 0 \<and> x > INT64_MAX + y"
definition sub_will_underflow :: "int \<Rightarrow> int \<Rightarrow> bool" where
  "sub_will_underflow x y \<longleftrightarrow> y > 0 \<and> x < INT64_MIN + y"

definition Time_plus_Duration :: "time \<Rightarrow> duration \<Rightarrow> time res" where
  "Time_plus_Duration t d =
     (if add_will_overflow (dur_ns d) (time_ns t)
      then Err (Overflow_error ''addition leads to int64_t overflow'')
      else if add_will_underflow (dur_ns d) (time_ns t)
      then Err (Underflow_error ''addition leads to int64_t underflow'')
      else bindR (i64_add (time_ns t) (dur_ns d)) (\<lambda>s. Ok (Time_of_ns s (clock_type t))))"

definition Time_minus_Time :: "time \<Rightarrow> time \<Rightarrow> duration res" where
  "Time_minus_Time l r =
     (if clock_type l \<noteq> clock_type r
      then Err (Runtime_error ''can't subtract times with different time sources'')
      else if sub_will_overflow (time_ns l) (time_ns r)
      then Err (Overflow_error ''time subtraction leads to int64_t overflow'')
      else if sub_will_underflow (time_ns l) (time_ns r)
      then Err (Underflow_error ''time subtraction leads to int64_t underflow'')
      else bindR (i64_sub (time_ns l) (time_ns r)) (\<lambda>s. Ok (Duration_of_ns s)))"

definition Time_minus_Duration :: "time \<Rightarrow> duration \<Rightarrow> time res" where
  "Time_minus_Duration t d =
     (if sub_will_overflow (time_ns t) (dur_ns d)
      then Err (Overflow_error ''time subtraction leads to int64_t overflow'')
      else if sub_will_underflow (time_ns t) (dur_ns d)
      then Err (Underflow_error ''time subtraction leads to int64_t underflow'')
      else bindR (i64_sub (time_ns t) (dur_ns d)) (\<lambda>s. Ok (Time_of_ns s (clock_type t))))"

definition Duration_plus_Time :: "duration \<Rightarrow> time \<Rightarrow> time res" where
  "Duration_plus_Time d t =
     (if add_will_overflow (time_ns t) (dur_ns d)
      then Err (Overflow_error ''addition leads to int64_t overflow'')
      else if add_will_underflow (time_ns t) (dur_ns d)
      then Err (Underflow_error ''addition leads to int64_t underflow'')
      else bindR (i64_add (dur_ns d) (time_ns t)) (\<lambda>s. Ok (Time_of_ns s (clock_type t))))"

definition Time_max :: "time res" where
  "Time_max = Time_of_sec_nsec INT32_MAX 999999999 RCL_SYSTEM_TIME"

section \<open>GenericRate\<close>

record generic_rate =
  period :: int
  last_interval :: int

definition rate_init :: "int \<Rightarrow> int \<Rightarrow> generic_rate" where
  "rate_init p now = \<lparr>period = p, last_interval = now\<rparr>"

text \<open>
  \<open>sleep\<close> with the clock reading \<open>now\<close>: the new state and the time handed to
  \<open>rclcpp::sleep_for\<close> (\<open>None\<close>: it returns \<open>false\<close> without sleeping).
\<close>

definition rate_sleep :: "generic_rate \<Rightarrow> int \<Rightarrow> (generic_rate \<times> int option) res" where
  "rate_sleep r now =
     bindR (i64_add (last_interval r) (period r)) (\<lambda>next0.
     bindR (if now < last_interval r then i64_add now (period r) else Ok next0) (\<lambda>next.
     bindR (i64_sub next now) (\<lambda>time_to_sleep.
     let r1 = r\<lparr>last_interval := next0\<rparr> in
     if time_to_sleep \<le> 0 then
       bindR (i64_add next (period r)) (\<lambda>limit.
       if now > limit then
         bindR (i64_add now (period r)) (\<lambda>l. Ok (r1\<lparr>last_interval := l\<rparr>, None))
       else Ok (r1, None))
     else Ok (r1, Some time_to_sleep))))"

definition rate_reset :: "generic_rate \<Rightarrow> int \<Rightarrow> generic_rate" where
  "rate_reset r now = r\<lparr>last_interval := now\<rparr>"

section \<open>Lemmas\<close>

lemmas duration_defs = Duration_plus_def Duration_minus_def bounds_check_duration_sum_def
  bounds_check_duration_difference_def abs_i64_def i64_add_def i64_sub_def Duration_of_ns_def

lemmas time_defs = Time_plus_Duration_def Time_minus_Duration_def Time_minus_Time_def
  Duration_plus_Time_def add_will_overflow_def add_will_underflow_def sub_will_overflow_def
  sub_will_underflow_def i64_add_def i64_sub_def Time_of_ns_def Duration_of_ns_def

lemma ns_to_msg_floor:
  "ns_to_msg ns = \<lparr>sec = to_i32 (ns div NS_PER_S), nanosec = ns mod NS_PER_S\<rparr>"
proof (cases "0 \<le> ns")
  case True
  then show ?thesis
    by (simp add: ns_to_msg_def cdiv_nonneg cmod_nonneg Let_def to_u32_def)
next
  case False
  let ?q = "(- ns) div NS_PER_S" and ?r = "(- ns) mod NS_PER_S"
  have r: "0 \<le> ?r" "?r < NS_PER_S" and ns: "- ns = ?q * NS_PER_S + ?r" by simp_all
  have q: "cdiv ns NS_PER_S = - ?q" "cmod ns NS_PER_S = - ?r"
    using False by (simp_all add: cdiv_neg cmod_neg)
  show ?thesis
  proof (cases "?r = 0")
    case True
    have e: "ns = NS_PER_S * (- ?q) + 0" using ns True by linarith
    have "ns div NS_PER_S = - ?q" "ns mod NS_PER_S = 0"
      using int_div_pos_eq [OF e] int_mod_pos_eq [OF e] by simp_all
    then show ?thesis using q True by (simp add: ns_to_msg_def Let_def to_u32_def)
  next
    case False
    have e: "ns = NS_PER_S * (- ?q - 1) + (NS_PER_S - ?r)"
      unfolding right_diff_distrib using ns by linarith
    have "ns div NS_PER_S = - ?q - 1" "ns mod NS_PER_S = NS_PER_S - ?r"
      using int_div_pos_eq [OF e] int_mod_pos_eq [OF e] r False by simp_all
    then show ?thesis
      using q r False by (simp add: ns_to_msg_def Let_def to_u32_def)
  qed
qed

lemma msg_ns_exact:
  "in_i32 s \<Longrightarrow> 0 \<le> n \<Longrightarrow> n < 4294967296 \<Longrightarrow> in_i64 (s * NS_PER_S) \<and> in_i64 (s * NS_PER_S + n)"
  by (simp add: in_i32_def in_i64_def)

section \<open>Properties\<close>

text \<open>Conversion of a duration to its message and back gives the duration exactly
  whenever its whole seconds fit into \<open>int32_t\<close>, for negative durations too; the
  nanoseconds field is always below one second.\<close>

theorem Duration_msg_roundtrip:
  assumes "in_i32 (dur_ns d div NS_PER_S)"
  shows "Duration_of_msg (Duration_to_msg d) = Ok d \<and>
         0 \<le> nanosec (Duration_to_msg d) \<and> nanosec (Duration_to_msg d) < NS_PER_S"
  using assms msg_ns_exact [OF assms, of "dur_ns d mod NS_PER_S"]
  by (simp add: Duration_of_msg_def Duration_to_msg_def ns_to_msg_floor to_i32_id i64_mul_def
      i64_add_def)

theorem Duration_msg_roundtrip_witness:
  "Duration_of_msg (Duration_to_msg \<lparr>dur_ns = - 1500000000\<rparr>) = Ok \<lparr>dur_ns = - 1500000000\<rparr> \<and>
   0 \<le> nanosec (Duration_to_msg \<lparr>dur_ns = - 1500000000\<rparr>) \<and>
   nanosec (Duration_to_msg \<lparr>dur_ns = - 1500000000\<rparr>) < NS_PER_S"
  by (rule Duration_msg_roundtrip) (simp add: in_i32_def)

text \<open>Addition of durations, for every pair of operands but the most negative value:
  the exact sum where its magnitude is at most \<open>INT64_MAX\<close>, else the overflow or
  underflow exception; the signed addition behind the check never overflows.\<close>

theorem Duration_plus_exact:
  assumes "in_i64 (dur_ns l)" "in_i64 (dur_ns r)" "dur_ns l \<noteq> INT64_MIN" "dur_ns r \<noteq> INT64_MIN"
  shows "Duration_plus l r =
    (if dur_ns l + dur_ns r > INT64_MAX then Err (Overflow_error ''addition leads to int64_t overflow'')
     else if dur_ns l + dur_ns r < - INT64_MAX then Err (Underflow_error ''addition leads to int64_t underflow'')
     else Ok \<lparr>dur_ns = dur_ns l + dur_ns r\<rparr>)"
  using assms
  by (auto simp: duration_defs in_i64_def to_u64_id Let_def i64_result_def)

theorem Duration_plus_exact_witness:
  "Duration_plus \<lparr>dur_ns = INT64_MAX\<rparr> \<lparr>dur_ns = 1\<rparr> =
    Err (Overflow_error ''addition leads to int64_t overflow'')"
  using Duration_plus_exact [of "\<lparr>dur_ns = INT64_MAX\<rparr>" "\<lparr>dur_ns = 1\<rparr>"] by (simp add: in_i64_def)

text \<open>The bounds check takes \<open>std::abs\<close> of its operands first, so with the most
  negative duration on the left the addition runs into undefined behaviour whatever the
  right operand is, even when the sum is representable.\<close>

theorem Duration_plus_min_undefined:
  "Duration_plus \<lparr>dur_ns = INT64_MIN\<rparr> r = Err (Undefined_behaviour ''int64_t overflow'')"
  by (simp add: duration_defs i64_result_def in_i64_def)

text \<open>Subtraction of durations is exact in the same way.\<close>

theorem Duration_minus_exact:
  assumes "in_i64 (dur_ns l)" "in_i64 (dur_ns r)" "dur_ns l \<noteq> INT64_MIN" "dur_ns r \<noteq> INT64_MIN"
  shows "Duration_minus l r =
    (if dur_ns l - dur_ns r > INT64_MAX then Err (Overflow_error ''duration subtraction leads to int64_t overflow'')
     else if dur_ns l - dur_ns r < - INT64_MAX then Err (Underflow_error ''duration subtraction leads to int64_t underflow'')
     else Ok \<lparr>dur_ns = dur_ns l - dur_ns r\<rparr>)"
  using assms
  by (auto simp: duration_defs in_i64_def to_u64_id Let_def i64_result_def)

theorem Duration_minus_exact_witness:
  "Duration_minus \<lparr>dur_ns = 5\<rparr> \<lparr>dur_ns = 7\<rparr> = Ok \<lparr>dur_ns = - 2\<rparr>"
  using Duration_minus_exact [of "\<lparr>dur_ns = 5\<rparr>" "\<lparr>dur_ns = 7\<rparr>"] by (simp add: in_i64_def)

text \<open>Adding a duration to a time point throws exactly when the exact sum leaves the
  64-bit range, is the exact sum otherwise, keeps the clock type, and is the same from
  either side.\<close>

theorem Time_plus_Duration_exact:
  assumes "in_i64 (time_ns t)" "in_i64 (dur_ns d)"
  shows "Time_plus_Duration t d = Duration_plus_Time d t \<and>
    Time_plus_Duration t d =
    (if time_ns t + dur_ns d > INT64_MAX then Err (Overflow_error ''addition leads to int64_t overflow'')
     else if time_ns t + dur_ns d < INT64_MIN then Err (Underflow_error ''addition leads to int64_t underflow'')
     else Ok \<lparr>time_ns = time_ns t + dur_ns d, clock_type = clock_type t\<rparr>)"
  using assms
  by (auto simp: time_defs in_i64_def i64_result_def)

theorem Time_plus_Duration_exact_witness:
  "Time_plus_Duration \<lparr>time_ns = 5, clock_type = RCL_ROS_TIME\<rparr> \<lparr>dur_ns = 7\<rparr>
    = Ok \<lparr>time_ns = 12, clock_type = RCL_ROS_TIME\<rparr>"
  using Time_plus_Duration_exact [of "\<lparr>time_ns = 5, clock_type = RCL_ROS_TIME\<rparr>" "\<lparr>dur_ns = 7\<rparr>"]
  by (auto simp: in_i64_def)

text \<open>Subtracting what was added restores the time point, and the difference of the two
  time points is the duration added.\<close>

theorem Time_add_sub_roundtrip:
  assumes "in_i64 (time_ns t)" "in_i64 (dur_ns d)" "Time_plus_Duration t d = Ok t'"
  shows "Time_minus_Duration t' d = Ok t \<and> Time_minus_Time t' t = Ok d"
  using assms
  by (cases t; cases d) (auto simp: time_defs in_i64_def i64_result_def split: if_splits)

theorem Time_add_sub_roundtrip_witness:
  "Time_minus_Duration \<lparr>time_ns = 12, clock_type = RCL_ROS_TIME\<rparr> \<lparr>dur_ns = 7\<rparr>
     = Ok \<lparr>time_ns = 5, clock_type = RCL_ROS_TIME\<rparr> \<and>
   Time_minus_Time \<lparr>time_ns = 12, clock_type = RCL_ROS_TIME\<rparr> \<lparr>time_ns = 5, clock_type = RCL_ROS_TIME\<rparr>
     = Ok \<lparr>dur_ns = 7\<rparr>"
  by (rule Time_add_sub_roundtrip) (simp_all add: time_defs in_i64_def i64_result_def)

text \<open>A rate never asks for more than one period of sleep, and when it sleeps the wake-up
  time is the next interval boundary, or one period from now after the clock ran backwards.\<close>

theorem rate_sleep_bounded:
  assumes "rate_sleep r now = Ok (r', Some t)"
  shows "0 < t \<and> t \<le> period r \<and> last_interval r' = last_interval r + period r \<and>
         now + t = (if now < last_interval r then now else last_interval r) + period r"
  using assms
  by (auto simp: rate_sleep_def i64_add_def i64_sub_def Let_def res_simps split: if_splits)

theorem rate_sleep_bounded_witness:
  "(0::int) < 7 \<and> (7::int) \<le> period (rate_init 10 100) \<and>
   last_interval ((rate_init 10 100)\<lparr>last_interval := 110\<rparr>) = last_interval (rate_init 10 100) + period (rate_init 10 100) \<and>
   (103::int) + 7 = (if 103 < last_interval (rate_init 10 100) then 103 else last_interval (rate_init 10 100)) + period (rate_init 10 100)"
  by (rule rate_sleep_bounded [where now = 103])
    (simp add: rate_sleep_def rate_init_def i64_add_def i64_sub_def in_i64_def i64_result_def)

end
