(* ===== verification/Measuring_Base.thy ===== *)
theory Measuring_Base
  imports Mmh3
begin

text \<open>
  The data the measuring framework shares (\<open>rclcpp/include/rclcpp/measuring/\<close>): the hidden
  message variables, the layout test that guards the cast to them, the tracker and writer
  enumerations with their conversion through the C options struct, the hexadecimal
  publisher name and the hash of a node's full name. \<open>show_int\<close> is the decimal text
  \<open>std::ostream\<close> writes for an integer.
\<close>

section \<open>Decimal text\<close>

definition digit_char :: "nat \<Rightarrow> char" where
  "digit_char d = char_of (48 + d)"

fun show_nat :: "nat \<Rightarrow> string" where
  "show_nat n = (if n < 10 then [digit_char n] else show_nat (n div 10) @ [digit_char (n mod 10)])"

declare show_nat.simps [simp del]

definition show_int :: "int \<Rightarrow> string" where
  "show_int i = (if i < 0 then CHR ''-'' # show_nat (nat (- i)) else show_nat (nat i))"

definition digit_val :: "char \<Rightarrow> nat" where
  "digit_val c = of_char c - 48"

definition read_nat :: "string \<Rightarrow> nat" where
  "read_nat s = foldl (\<lambda>n c. n * 10 + digit_val c) 0 s"

definition read_int :: "string \<Rightarrow> int" where
  "read_int s = (case s of c # cs \<Rightarrow> if c = CHR ''-'' then - int (read_nat cs) else int (read_nat s) | [] \<Rightarrow> 0)"

lemma digit_val_char: "d < 10 \<Longrightarrow> digit_val (digit_char d) = d"
  by (simp add: digit_val_def digit_char_def)

lemma read_show_nat [simp]: "read_nat (show_nat n) = n"
proof (induction n rule: show_nat.induct)
  case (1 n)
  show ?case
    by (cases "n < 10")
      (use 1 in \<open>simp_all add: show_nat.simps [of n] read_nat_def digit_val_char\<close>)
qed

lemma show_nat_chars: "set (show_nat n) \<subseteq> digit_char ` {0..<10}"
proof (induction n rule: show_nat.induct)
  case (1 n)
  show ?case
    by (cases "n < 10") (use 1 in \<open>auto simp: show_nat.simps [of n]\<close>)
qed

lemma show_nat_nonempty [simp]: "show_nat n \<noteq> []"
  by (subst show_nat.simps) simp

lemma digit_char_not_minus: "d < 10 \<Longrightarrow> digit_char d \<noteq> CHR ''-''"
proof
  assume "d < 10" "digit_char d = CHR ''-''"
  then have "of_char (digit_char d) = (45::nat)" by simp
  with \<open>d < 10\<close> show False by (simp add: digit_char_def)
qed

lemma read_show_int [simp]: "read_int (show_int i) = i"
proof (cases "i < 0")
  case False
  obtain c cs where s: "show_nat (nat i) = c # cs"
    using show_nat_nonempty by (cases "show_nat (nat i)") auto
  then have "c \<in> digit_char ` {0..<10}" using show_nat_chars [of "nat i"] by auto
  then have "c \<noteq> CHR ''-''" using digit_char_not_minus by auto
  then show ?thesis using False s read_show_nat [of "nat i"] by (simp add: show_int_def read_int_def)
qed (simp add: show_int_def read_int_def)

lemma show_int_inj [simp]: "show_int i = show_int j \<longleftrightarrow> i = j"
  by (metis read_show_int)

section \<open>Hidden message variables\<close>

text \<open>\<open>struct MessageTrackingVariables\<close>: two \<open>int64_t\<close> and one \<open>int32_t\<close>.\<close>

record MessageTrackingVariables =
  vandenhoven_timestamp :: int
  vandenhoven_identifier :: int
  vandenhoven_publisher_hash :: int

text \<open>
  The layout of a message type: the C++ type and byte offset of each member, by name.
  \<open>HasRequiredFields<T>::value\<close> compares the three hidden members of \<open>T\<close> with those of
  \<open>MessageTrackingVariables\<close>; a missing member makes the substitution fail.
\<close>

type_synonym layout = "string \<Rightarrow> (string \<times> nat) option"

definition tracking_layout :: layout where
  "tracking_layout = [''vandenhoven_timestamp'' \<mapsto> (''int64_t'', 0),
                      ''vandenhoven_identifier'' \<mapsto> (''int64_t'', 8),
                      ''vandenhoven_publisher_hash'' \<mapsto> (''int32_t'', 16)]"

definition HasRequiredFields :: "layout \<Rightarrow> bool" where
  "HasRequiredFields U \<longleftrightarrow>
     U ''vandenhoven_timestamp'' = tracking_layout ''vandenhoven_timestamp'' \<and>
     U ''vandenhoven_identifier'' = tracking_layout ''vandenhoven_identifier'' \<and>
     U ''vandenhoven_publisher_hash'' = tracking_layout ''vandenhoven_publisher_hash''"

section \<open>Enumerations and their conversion through C\<close>

datatype MessageTrackerEnum = MTE_SUBSCRIBER | MTE_PUBLISHER | MTE_TRACING_PUBLISHER | MTE_NONE
datatype MeasurementWriterEnum = MWE_INFLUXDB | MWE_FILE | MWE_PRINT | MWE_NONE

definition mwe_to_u8 :: "MeasurementWriterEnum \<Rightarrow> u8" where
  "mwe_to_u8 e = (case e of MWE_INFLUXDB \<Rightarrow> 0 | MWE_FILE \<Rightarrow> 1 | MWE_PRINT \<Rightarrow> 2 | MWE_NONE \<Rightarrow> 3)"

definition mte_to_u8 :: "MessageTrackerEnum \<Rightarrow> u8" where
  "mte_to_u8 e = (case e of MTE_SUBSCRIBER \<Rightarrow> 0 | MTE_PUBLISHER \<Rightarrow> 1 | MTE_TRACING_PUBLISHER \<Rightarrow> 2 | MTE_NONE \<Rightarrow> 3)"

definition intToMWE :: "u8 \<Rightarrow> MeasurementWriterEnum res" where
  "intToMWE x =
     (if x = mwe_to_u8 MWE_INFLUXDB then Ok MWE_INFLUXDB
      else if x = mwe_to_u8 MWE_FILE then Ok MWE_FILE
      else if x = mwe_to_u8 MWE_PRINT then Ok MWE_PRINT
      else if x = mwe_to_u8 MWE_NONE then Ok MWE_NONE
      else Err (Invalid_argument (''Unknown input for intToMWE: '' @ show_nat (unat x))))"

definition intToMTE :: "u8 \<Rightarrow> MessageTrackerEnum res" where
  "intToMTE x =
     (if x = mte_to_u8 MTE_SUBSCRIBER then Ok MTE_SUBSCRIBER
      else if x = mte_to_u8 MTE_PUBLISHER then Ok MTE_PUBLISHER
      else if x = mte_to_u8 MTE_TRACING_PUBLISHER then Ok MTE_TRACING_PUBLISHER
      else if x = mte_to_u8 MTE_NONE then Ok MTE_NONE
      else Err (Invalid_argument (''Unknown input for intToMTE: '' @ show_nat (unat x))))"

record MessageTrackerOptions =
  tracker_result_writing_option :: MeasurementWriterEnum
  tracker_option :: MessageTrackerEnum

text \<open>\<open>rcl_message_tracker_options_t\<close>, the C struct the options travel through.\<close>

record rcl_message_tracker_options =
  message_tracker_opt :: u8
  measurement_writer_opt :: u8

definition MessageTrackerOptions_of_rcl :: "rcl_message_tracker_options \<Rightarrow> MessageTrackerOptions res" where
  "MessageTrackerOptions_of_rcl c =
     bindR (intToMWE (measurement_writer_opt c)) (\<lambda>w.
     bindR (intToMTE (message_tracker_opt c)) (\<lambda>t.
     Ok \<lparr>tracker_result_writing_option = w, tracker_option = t\<rparr>))"

definition to_rcl_message_tracker_options :: "MessageTrackerOptions \<Rightarrow> rcl_message_tracker_options" where
  "to_rcl_message_tracker_options opt =
     \<lparr>message_tracker_opt = mte_to_u8 (tracker_option opt),
      measurement_writer_opt = mwe_to_u8 (tracker_result_writing_option opt)\<rparr>"

section \<open>Hexadecimal publisher names\<close>

definition to_char :: "nat \<Rightarrow> char" where
  "to_char d = ''0123456789ABCDEF'' ! d"

text \<open>
  The constructor's loop \<open>for (j = 0, i = 7; i >= 0; --i, ++j)\<close>: \<open>n\<close> is \<open>i + 1\<close>, and the
  character of the step is appended at \<open>string_[j]\<close>.
\<close>

fun hex_loop :: "nat \<Rightarrow> u32 \<Rightarrow> string" where
  "hex_loop 0 input = []"
| "hex_loop (Suc i) input = to_char (unat (drop_bit (i * 4) input AND 15)) # hex_loop i input"

definition hex_char_array :: "u32 \<Rightarrow> string" where
  "hex_char_array input = hex_loop 8 input"

section \<open>The host of a tracker\<close>

record MessageTrackerHostInfo =
  topic_name :: string
  node_name :: string
  node_namespace :: string

definition bytes_of :: "string \<Rightarrow> u8 list" where
  "bytes_of s = map of_char s"

text \<open>C strings end at their first zero byte; \<open>strcpy\<close> and \<open>strcat\<close> join the two names.\<close>

definition hash_full_node_name :: "MessageTrackerHostInfo \<Rightarrow> u32" where
  "hash_full_node_name h =
     MurmurHash3_x86_32 (bytes_of (node_namespace h @ node_name h)) 0"

section \<open>Lemmas\<close>

lemma intToMWE_roundtrip [simp]: "intToMWE (mwe_to_u8 e) = Ok e"
  by (cases e) (simp_all add: intToMWE_def mwe_to_u8_def)

lemma intToMTE_roundtrip [simp]: "intToMTE (mte_to_u8 e) = Ok e"
  by (cases e) (simp_all add: intToMTE_def mte_to_u8_def)

definition hex_val :: "char \<Rightarrow> nat" where
  "hex_val c = (if c \<in> set ''0123456789'' then of_char c - 48 else of_char c - 55)"

definition read_hex :: "string \<Rightarrow> nat" where
  "read_hex s = foldl (\<lambda>n c. n * 16 + hex_val c) 0 s"

lemma hex_val_to_char: "d < 16 \<Longrightarrow> hex_val (to_char d) = d"
proof -
  have "\<forall>d \<in> set [0..<16]. hex_val (to_char d) = d" by code_simp
  then show "d < 16 \<Longrightarrow> ?thesis" by simp
qed

lemma nibble_unat: "unat (drop_bit (i * 4) (x :: u32) AND 15) = unat x div 16 ^ i mod 16"
proof -
  have "drop_bit (i * 4) x AND 15 = take_bit 4 (drop_bit (i * 4) x)"
    by (simp add: take_bit_eq_mask mask_eq_exp_minus_1)
  then have "unat (drop_bit (i * 4) x AND 15) = take_bit 4 (drop_bit (i * 4) (unat x))"
    by (simp add: unat_drop_bit_eq unsigned_take_bit_eq)
  moreover have "(2::nat) ^ (i * 4) = 16 ^ i"
    using power_mult [of "2::nat" 4 i] by (simp add: mult.commute)
  ultimately show ?thesis
    by (simp add: drop_bit_eq_div [of _ "unat x"] take_bit_eq_mod)
qed

lemma read_hex_loop:
  "foldl (\<lambda>n c. n * 16 + hex_val c) a (hex_loop n x) = a * 16 ^ n + unat x mod 16 ^ n"
proof (induction n arbitrary: a)
  case (Suc n)
  have "hex_val (to_char (unat (drop_bit (n * 4) x AND 15))) = unat x div 16 ^ n mod 16"
    by (simp add: nibble_unat hex_val_to_char)
  moreover have "unat x mod 16 ^ Suc n = 16 ^ n * (unat x div 16 ^ n mod 16) + unat x mod 16 ^ n"
    using mod_mult2_eq [of "unat x" "16 ^ n" 16] by (simp add: mult.commute)
  ultimately show ?case
    unfolding hex_loop.simps foldl.simps Suc.IH by (simp add: algebra_simps)
qed simp

lemma length_hex_loop: "length (hex_loop n x) = n"
  by (induction n) auto

lemma read_hex_char_array: "read_hex (hex_char_array x) = unat x"
proof -
  have "unat x < 16 ^ 8" using unsigned_less [of x] by simp
  then show ?thesis by (simp add: read_hex_def hex_char_array_def read_hex_loop)
qed

lemma hex_char_array_inj: "hex_char_array x = hex_char_array y \<longleftrightarrow> x = y"
  by (metis read_hex_char_array word_unat_eq_iff)

section \<open>Properties\<close>

text \<open>The tracker options survive the trip through the C options struct, and every byte
  that is no enumerator of its class is refused with \<open>std::invalid_argument\<close>.\<close>

theorem tracker_options_roundtrip:
  "MessageTrackerOptions_of_rcl (to_rcl_message_tracker_options opt) = Ok opt \<and>
   ((\<exists>o'. MessageTrackerOptions_of_rcl c = Ok o') = (measurement_writer_opt c < 4 \<and> message_tracker_opt c < 4))"
proof
  show "MessageTrackerOptions_of_rcl (to_rcl_message_tracker_options opt) = Ok opt"
    by (simp add: MessageTrackerOptions_of_rcl_def to_rcl_message_tracker_options_def)
  have lt4: "x < 4 \<longleftrightarrow> x = 0 \<or> x = 1 \<or> x = 2 \<or> x = 3" for x :: u8 by unat_arith
  show "(\<exists>o'. MessageTrackerOptions_of_rcl c = Ok o') = (measurement_writer_opt c < 4 \<and> message_tracker_opt c < 4)"
    by (auto simp: MessageTrackerOptions_of_rcl_def intToMWE_def intToMTE_def mwe_to_u8_def
        mte_to_u8_def lt4 res_simps split: if_splits)
qed

text \<open>The eight hexadecimal characters of a publisher hash read back as the hash, so two
  publishers have the same name exactly when they have the same hash.\<close>

theorem hex_char_array_roundtrip:
  "length (hex_char_array x) = 8 \<and> read_hex (hex_char_array x) = unat x \<and>
   (hex_char_array x = hex_char_array y \<longleftrightarrow> x = y)"
  by (simp add: read_hex_char_array hex_char_array_inj) (simp add: hex_char_array_def length_hex_loop)

end
