(* ===== verification/Influx.thy ===== *)
theory Influx
  imports Measuring_Base "HOL-Library.Sublist"
begin

text \<open>
  The bundled InfluxDB client (\<open>rclcpp/include/rclcpp/influxdb/influxdb.hpp\<close>): the line
  protocol builder and URL encoding. The builder's string stream is the string written so
  far (its put position is always the end).
\<close>

abbreviation backslash :: char where "backslash \<equiv> CHR 0x5C"
abbreviation newline :: char where "newline \<equiv> CHR 0x0A"
abbreviation dquote :: char where "dquote \<equiv> CHR 0x22"
abbreviation crlf :: string where "crlf \<equiv> [CHR 0x0D, CHR 0x0A]"

section \<open>Escaping\<close>

definition find_first_of :: "string \<Rightarrow> string \<Rightarrow> nat \<Rightarrow> nat option" where
  "find_first_of src chars start = find (\<lambda>i. src ! i \<in> set chars) [start..<length src]"

lemma find_upt_Some:
  assumes "find P [a..<b] = Some i"
  shows "a \<le> i \<and> i < b \<and> P i \<and> (\<forall>j. a \<le> j \<longrightarrow> j < i \<longrightarrow> \<not> P j)"
  using assms by (auto simp: find_Some_iff nth_upt) (metis add.commute le_Suc_ex less_diff_conv nat_add_left_cancel_less)

lemma find_upt_None: "find P [a..<b] = None \<Longrightarrow> a \<le> i \<Longrightarrow> i < b \<Longrightarrow> \<not> P i"
  by (simp add: find_None_iff)

text \<open>The loop of \<open>_escape\<close>, with \<open>out\<close> the text written by it so far.\<close>

function escape_loop :: "string \<Rightarrow> string \<Rightarrow> nat \<Rightarrow> string \<Rightarrow> string" where
  "escape_loop src esc start out =
     (case find_first_of src esc start of
        None \<Rightarrow> out @ drop start src
      | Some pos \<Rightarrow>
          escape_loop src esc (pos + 1)
            (out @ take (pos - start) (drop start src) @ [backslash, src ! pos]))"
  by pat_completeness auto
termination
  by (relation "measure (\<lambda>(src, esc, start, out). length src - start)")
    (auto simp: find_first_of_def dest!: find_upt_Some)

declare escape_loop.simps [simp del]

definition escape :: "string \<Rightarrow> string \<Rightarrow> string \<Rightarrow> string" where
  "escape lines src esc = escape_loop src esc 0 lines"

section \<open>The line protocol builder\<close>

definition builder_m :: "string \<Rightarrow> string \<Rightarrow> string" where
  "builder_m lines name = escape lines name '', ''"

definition meas :: "string \<Rightarrow> string \<Rightarrow> string" where
  "meas lines name = (if lines = [] then builder_m lines name else builder_m (lines @ [newline]) name)"

definition builder_t :: "string \<Rightarrow> string \<Rightarrow> string \<Rightarrow> string" where
  "builder_t lines k v = escape (escape (lines @ '','') k '',= '' @ ''='') v '',= ''"

definition builder_t_hex :: "string \<Rightarrow> string \<Rightarrow> u32 \<Rightarrow> string" where
  "builder_t_hex lines k v = escape (lines @ '','') k '',= '' @ ''='' @ hex_char_array v"

definition builder_f_s :: "char \<Rightarrow> string \<Rightarrow> string \<Rightarrow> string \<Rightarrow> string" where
  "builder_f_s delim lines k v =
     escape (escape (lines @ [delim]) k '',= '' @ [CHR ''='', dquote]) v [dquote] @ [dquote]"

definition builder_f_h :: "char \<Rightarrow> string \<Rightarrow> string \<Rightarrow> u32 \<Rightarrow> string" where
  "builder_f_h delim lines k v =
     escape (lines @ [delim]) k '',= '' @ [CHR ''='', dquote] @ hex_char_array v @ [dquote]"

definition builder_f_i :: "char \<Rightarrow> string \<Rightarrow> string \<Rightarrow> int \<Rightarrow> string" where
  "builder_f_i delim lines k v = escape (lines @ [delim]) k '',= '' @ ''='' @ show_int v @ ''i''"

definition builder_f_b :: "char \<Rightarrow> string \<Rightarrow> string \<Rightarrow> bool \<Rightarrow> string" where
  "builder_f_b delim lines k v = escape (lines @ [delim]) k '',= '' @ ''='' @ (if v then ''t'' else ''f'')"

definition builder_ts :: "string \<Rightarrow> int \<Rightarrow> string" where
  "builder_ts lines v = lines @ '' '' @ show_int v"

text \<open>\<open>timestamp(unsigned long long)\<close> hands its argument to \<open>_ts(long long)\<close>.\<close>

definition i64_of_u64 :: "int \<Rightarrow> int" where
  "i64_of_u64 x = (if x > INT64_MAX then x - 18446744073709551616 else x)"

definition builder_timestamp :: "string \<Rightarrow> int \<Rightarrow> string" where
  "builder_timestamp lines v = builder_ts lines (i64_of_u64 (to_u64 v))"

definition getBufferSize :: "string \<Rightarrow> nat" where
  "getBufferSize lines = length lines"

definition builder_clear :: "string \<Rightarrow> string" where
  "builder_clear lines = []"

section \<open>URL encoding\<close>

definition url_safe :: string where
  "url_safe = ''abcdefghijklmnopqrstuvwxyqABCDEFGHIJKLMNOPQRSTUVWXYZ0123456789-_.~''"

definition to_hex :: "nat \<Rightarrow> char" where
  "to_hex x = (if x > 9 then char_of (x + 55) else char_of (x + 48))"

function url_encode_loop :: "string \<Rightarrow> nat \<Rightarrow> string \<Rightarrow> string" where
  "url_encode_loop src start out =
     (case find (\<lambda>i. src ! i \<notin> set url_safe) [start..<length src] of
        None \<Rightarrow> out @ drop start src
      | Some pos \<Rightarrow>
          (let out1 = out @ take (pos - start) (drop start src);
               c = src ! pos;
               out2 = (if c = CHR '' '' then out1 @ ''+''
                       else out1 @ ''%'' @ [to_hex (of_char c div 16), to_hex (of_char c mod 16)])
           in url_encode_loop src (pos + 1) out2))"
  by pat_completeness auto
termination
  by (relation "measure (\<lambda>(src, start, out). length src - start)") (auto dest!: find_upt_Some)

declare url_encode_loop.simps [simp del]

definition url_encode :: "string \<Rightarrow> string \<Rightarrow> string" where
  "url_encode out src = url_encode_loop src 0 out"

section \<open>Escaping against its specification\<close>

definition escape_spec :: "string \<Rightarrow> string \<Rightarrow> string" where
  "escape_spec esc s = concat (map (\<lambda>c. if c \<in> set esc then [backslash, c] else [c]) s)"

lemma escape_spec_simps [simp]:
  "escape_spec esc [] = []"
  "escape_spec esc (c # s) = (if c \<in> set esc then backslash # c # escape_spec esc s else c # escape_spec esc s)"
  by (simp_all add: escape_spec_def)

lemma escape_spec_append [simp]: "escape_spec esc (s @ s') = escape_spec esc s @ escape_spec esc s'"
  by (simp add: escape_spec_def)

lemma escape_spec_id: "\<forall>c \<in> set s. c \<notin> set esc \<Longrightarrow> escape_spec esc s = s"
  by (induction s) auto

lemma escape_loop_spec: "escape_loop src esc start out = out @ escape_spec esc (drop start src)"
proof (induction src esc start out rule: escape_loop.induct)
  case (1 src esc start out)
  show ?case
  proof (cases "find_first_of src esc start")
    case None
    then have "\<forall>c \<in> set (drop start src). c \<notin> set esc"
      by (fastforce simp: find_first_of_def in_set_conv_nth [of _ "drop start src"] find_None_iff)
    then show ?thesis using None by (simp add: escape_loop.simps [of src] escape_spec_id)
  next
    case (Some pos)
    then have pos: "start \<le> pos" "pos < length src" "src ! pos \<in> set esc"
      and before: "\<And>j. start \<le> j \<Longrightarrow> j < pos \<Longrightarrow> src ! j \<notin> set esc"
      by (auto simp: find_first_of_def dest!: find_upt_Some)
    let ?pre = "take (pos - start) (drop start src)"
    have "drop start src = ?pre @ drop pos src"
      using pos(1) by (metis append_take_drop_id drop_drop le_add_diff_inverse2)
    also have "drop pos src = src ! pos # drop (Suc pos) src"
      using pos(2) by (rule Cons_nth_drop_Suc [symmetric])
    finally have split: "drop start src = ?pre @ src ! pos # drop (Suc pos) src" .
    have "\<forall>c \<in> set ?pre. c \<notin> set esc"
    proof
      fix c assume "c \<in> set ?pre"
      then obtain i where "i < pos - start" "start + i < length src" "c = src ! (start + i)"
        by (auto simp: in_set_conv_nth less_diff_conv add.commute) blast
      then show "c \<notin> set esc" using before [of "start + i"] by simp
    qed
    then have "escape_spec esc ?pre = ?pre" by (rule escape_spec_id)
    then have "escape_spec esc (drop start src)
        = ?pre @ [backslash, src ! pos] @ escape_spec esc (drop (Suc pos) src)"
      using pos(3) by (subst split) simp
    then show ?thesis
      using 1 [OF Some] Some by (simp add: escape_loop.simps [of src esc start out])
  qed
qed

lemma escape_eq: "escape lines src esc = lines @ escape_spec esc src"
  by (simp add: escape_def escape_loop_spec)

lemma i64_u64_roundtrip: "in_i64 v \<Longrightarrow> i64_of_u64 (to_u64 v) = v"
proof (cases "0 \<le> v")
  case False
  assume "in_i64 v"
  have "v = 18446744073709551616 * (- 1) + (v + 18446744073709551616)" by simp
  from int_mod_pos_eq [OF this] have "to_u64 v = v + 18446744073709551616"
    using False \<open>in_i64 v\<close> by (simp add: to_u64_def in_i64_def)
  with False \<open>in_i64 v\<close> show ?thesis by (simp add: i64_of_u64_def in_i64_def)
qed (auto simp: i64_of_u64_def to_u64_id in_i64_def)

section \<open>Reading a line back\<close>

text \<open>
  The reader of the line protocol: a token ends at an unescaped stop character, a
  backslash escapes a comma, an equals sign or a space and is literal elsewhere.
\<close>

fun scan :: "string \<Rightarrow> string \<Rightarrow> string \<times> string" where
  "scan stops [] = ([], [])"
| "scan stops (c # cs) =
     (if c = backslash then
        (case cs of
           [] \<Rightarrow> ([c], [])
         | e # es \<Rightarrow>
             (if e \<in> set '',= '' then map_prod ((#) e) id (scan stops es)
              else map_prod ((#) c) id (scan stops cs)))
      else if c \<in> set stops then ([], c # cs)
      else map_prod ((#) c) id (scan stops cs))"

fun parse_kvs :: "nat \<Rightarrow> string \<Rightarrow> (string \<times> string) list \<times> string" where
  "parse_kvs 0 r = ([], r)"
| "parse_kvs (Suc n) r =
     (case r of
        [] \<Rightarrow> ([], [])
      | d # r1 \<Rightarrow>
          if d = CHR '','' then
            (let (k, r2) = scan ''='' r1; (v, r3) = scan '', '' (tl r2);
                 (kvs, r4) = parse_kvs n r3
             in ((k, v) # kvs, r4))
          else ([], r))"

definition parse_line :: "string \<Rightarrow> string \<times> (string \<times> string) list \<times> (string \<times> string) list \<times> int" where
  "parse_line line =
     (let (name, r1) = scan '', '' line;
          (tags, r2) = parse_kvs (length r1) r1;
          (flds, r3) = parse_kvs (length r2) (CHR '','' # tl r2)
      in (name, tags, flds, read_int (tl r3)))"

definition plain :: "string \<Rightarrow> bool" where
  "plain s \<longleftrightarrow> backslash \<notin> set s"

definition kvs_text :: "(string \<times> string) list \<Rightarrow> string" where
  "kvs_text kvs = concat (map (\<lambda>(k, v). '','' @ escape_spec '',= '' k @ ''='' @ escape_spec '',= '' v) kvs)"

definition line_text :: "string \<Rightarrow> (string \<times> string) list \<Rightarrow> (string \<times> string) list \<Rightarrow> int \<Rightarrow> string" where
  "line_text name tags flds t =
     escape_spec '', '' name @ kvs_text tags @ '' '' @ tl (kvs_text flds) @ '' '' @ show_int t"

lemma scan_escape:
  assumes "plain s" and "set esc \<subseteq> set '',= ''" and "set stops \<subseteq> set esc" and "c \<in> set stops"
  shows "scan stops (escape_spec esc s @ c # rest) = (s, c # rest)"
  using assms(1)
proof (induction s)
  case Nil
  have "c \<noteq> backslash" using assms(2-4) by auto
  then show ?case using assms(4) by simp
next
  case (Cons x s)
  then have IH: "scan stops (escape_spec esc s @ c # rest) = (s, c # rest)" and x: "x \<noteq> backslash"
    by (auto simp: plain_def)
  show ?case
  proof (cases "x \<in> set esc")
    case True
    then have "x \<in> set '',= ''" using assms(2) by auto
    with True IH show ?thesis by simp
  next
    case False
    then have "x \<notin> set stops" using assms(3) by auto
    with False IH x show ?thesis by simp
  qed
qed

lemma kvs_text_simps [simp]:
  "kvs_text [] = []"
  "kvs_text ((k, v) # kvs) = '','' @ escape_spec '',= '' k @ ''='' @ escape_spec '',= '' v @ kvs_text kvs"
  by (simp_all add: kvs_text_def)

lemma kvs_text_start: "kvs \<noteq> [] \<Longrightarrow> \<exists>r. kvs_text kvs = CHR '','' # r"
  by (cases kvs) auto

lemma length_kvs_text: "length kvs \<le> length (kvs_text kvs)"
  by (induction kvs) auto

lemma parse_kvs_text:
  assumes "\<forall>(k, v) \<in> set kvs. plain k \<and> plain v" and "length kvs < n"
  shows "parse_kvs n (kvs_text kvs @ CHR '' '' # rest) = (kvs, CHR '' '' # rest)"
  using assms
proof (induction kvs arbitrary: n)
  case Nil
  then show ?case by (cases n) simp_all
next
  case (Cons kv kvs)
  obtain k v where kv: "kv = (k, v)" by (cases kv)
  obtain n' where n: "n = Suc n'" using Cons.prems(2) by (cases n) auto
  have plain: "plain k" "plain v" using Cons.prems(1) kv by auto
  obtain d r where tail: "kvs_text kvs @ CHR '' '' # rest = d # r" and d: "d \<in> set '', ''"
    using kvs_text_start [of kvs] by (cases kvs) auto
  have "scan ''='' (escape_spec '',= '' k @ CHR ''='' # q) = (k, CHR ''='' # q)" for q
    by (rule scan_escape [OF plain(1)]) auto
  moreover have "scan '', '' (escape_spec '',= '' v @ d # r) = (v, d # r)"
    by (rule scan_escape [OF plain(2)]) (use d in auto)
  moreover have "parse_kvs n' (d # r) = (kvs, CHR '' '' # rest)"
    using Cons.IH [of n'] Cons.prems n unfolding tail by simp
  ultimately show ?case by (simp add: kv n tail)
qed

lemma parse_line_text:
  assumes "plain name" and "\<forall>(k, v) \<in> set tags. plain k \<and> plain v"
    and "\<forall>(k, v) \<in> set flds. plain k \<and> plain v" and "flds \<noteq> []"
  shows "parse_line (line_text name tags flds t) = (name, tags, flds, t)"
proof -
  let ?rf = "tl (kvs_text flds) @ '' '' @ show_int t"
  obtain d r where tail: "kvs_text tags @ CHR '' '' # ?rf = d # r" and d: "d \<in> set '', ''"
    using kvs_text_start [of tags] by (cases tags) auto
  have name: "scan '', '' (escape_spec '', '' name @ d # r) = (name, d # r)"
    by (rule scan_escape [OF assms(1)]) (use d in auto)
  have "length tags < length (kvs_text tags @ CHR '' '' # ?rf)"
    using length_kvs_text [of tags] by simp
  from parse_kvs_text [OF assms(2) this, of ?rf]
  have tags: "parse_kvs (length (d # r)) (d # r) = (tags, CHR '' '' # ?rf)"
    unfolding tail .
  have ft: "CHR '','' # tl (kvs_text flds) = kvs_text flds"
    using kvs_text_start [OF assms(4)] by auto
  have "length flds < length (CHR '' '' # ?rf)"
    using length_kvs_text [of flds] kvs_text_start [OF assms(4)] by auto
  then have flds: "parse_kvs (length (CHR '' '' # ?rf)) (CHR '','' # ?rf) = (flds, CHR '' '' # show_int t)"
    using parse_kvs_text [OF assms(3), of _ "show_int t"] ft by (metis append_Cons append_Nil)
  show ?thesis
    unfolding line_text_def parse_line_def
    using tail name tags flds by (simp add: Let_def)
qed

end
