(* ===== verification/InfluxHttp.thy ===== *)
theory InfluxHttp
  imports Influx
begin

text \<open>
  The HTTP side of the bundled InfluxDB client (\<open>inner::http_request\<close> in
  \<open>rclcpp/include/rclcpp/influxdb/influxdb.hpp\<close>): the request header, the loop that hands
  header and body to \<open>writev\<close>, and the reader of the response. The kernel's \<open>writev\<close> and
  \<open>recv\<close> are parameters: functions from the number of the call to its outcome. Header
  texts stay below \<open>2 ^ 30\<close> characters, so the \<open>int\<close> that doubles as the buffer length
  does not overflow.
\<close>

section \<open>The request\<close>

record server_info =
  si_host :: string
  si_port :: int
  si_await_post_response :: bool
  si_org :: string
  si_bkt :: string
  si_tkn :: string

text \<open>
  The constructor assigns every member but \<open>host_\<close>, which stays the empty string; the
  address resolution it also does has no effect on these members.
\<close>

definition server_info_init :: "string \<Rightarrow> int \<Rightarrow> string \<Rightarrow> string \<Rightarrow> string \<Rightarrow> bool \<Rightarrow> server_info" where
  "server_info_init host_arg port_arg org_arg token bucket await_arg =
     \<lparr>si_host = [], si_port = port_arg, si_await_post_response = await_arg,
      si_org = org_arg, si_bkt = bucket, si_tkn = token\<rparr>"

definition http_header :: "string \<Rightarrow> string \<Rightarrow> string \<Rightarrow> nat \<Rightarrow> server_info \<Rightarrow> string" where
  "http_header meth uri querystring body_length si =
     meth @ '' /api/v2/'' @ uri @ ''?org='' @ si_org si @ ''&bucket='' @ si_bkt si @ querystring
     @ '' HTTP/1.1'' @ crlf @ ''Host: '' @ si_host si @ crlf @ ''Authorization:Token '' @ si_tkn si
     @ crlf @ ''Content-Length: '' @ show_int (to_i32 (int body_length)) @ crlf @ crlf"

text \<open>
  \<open>snprintf\<close> writes at most \<open>len - 1\<close> characters and returns the full length; the buffer
  is doubled until the text fits.
\<close>

function header_len :: "nat \<Rightarrow> nat \<Rightarrow> nat" where
  "header_len needed len =
     (if len = 0 then 0 else if needed \<ge> len then header_len needed (len * 2) else len)"
  by pat_completeness auto
termination
  by (relation "measure (\<lambda>(needed, len). needed + 1 - len)") auto

declare header_len.simps [simp del]

definition snprintf :: "nat \<Rightarrow> string \<Rightarrow> string" where
  "snprintf len text = take (len - 1) text"

text \<open>Skip \<open>off\<close> bytes over the buffers; past the last one the source reads out of bounds.\<close>

fun advance :: "string list \<Rightarrow> nat \<Rightarrow> string list res" where
  "advance [] off = Err (Undefined_behaviour ''iovec index out of range'')"
| "advance (b # bs) off = (if off \<ge> length b then advance bs (off - length b) else Ok (drop off b # bs))"

text \<open>
  The write loop: \<open>wr k n\<close> is what the \<open>k\<close>-th call of \<open>writev\<close> returns when \<open>n\<close> bytes are
  offered. The result is \<open>None\<close> when the fuel runs out, else the return code (0 or -6) and
  everything put on the socket.
\<close>

fun write_loop :: "nat \<Rightarrow> (nat \<Rightarrow> nat \<Rightarrow> int) \<Rightarrow> nat \<Rightarrow> int \<Rightarrow> string list \<Rightarrow> int \<Rightarrow> string \<Rightarrow> (int \<times> string) res option" where
  "write_loop 0 wr k total_bytes buffers total_written sent = None"
| "write_loop (Suc fuel) wr k total_bytes buffers total_written sent =
     (let result = wr k (length (concat buffers)) in
      if result < 0 then Some (Ok (- 6, sent))
      else
        let sent' = sent @ take (nat result) (concat buffers);
            total_written' = total_written + result
        in if total_written' \<ge> total_bytes then Some (Ok (0, sent'))
           else case advance buffers (nat result) of
                  Inl e \<Rightarrow> Some (Err e)
                | Inr buffers' \<Rightarrow> write_loop fuel wr (Suc k) total_bytes buffers' total_written' sent')"

section \<open>The response\<close>

text \<open>
  The reader's state: the buffer \<open>header\<close>, the read position \<open>len\<close>, the number of bytes
  \<open>iv[0].iov_len\<close> the last \<open>recv\<close> delivered and how often \<open>recv\<close> was called. A \<open>recv\<close> of a
  closed connection delivers no byte.
\<close>

datatype recv_result = Received string | Recv_error

record conn =
  hdr_buf :: string
  rpos :: int
  avail :: int
  calls :: nat

definition no_more :: "(nat \<Rightarrow> recv_result) \<Rightarrow> conn \<Rightarrow> bool \<times> conn" where
  "no_more rcv c =
     (if rpos c \<ge> avail c then
        (case rcv (calls c) of
           Recv_error \<Rightarrow> (True, c\<lparr>rpos := 0, avail := - 1, calls := Suc (calls c)\<rparr>)
         | Received bs \<Rightarrow>
             (let d = take (length (hdr_buf c)) bs
              in (False, c\<lparr>hdr_buf := d @ drop (length d) (hdr_buf c), rpos := 0,
                           avail := int (length d), calls := Suc (calls c)\<rparr>)))
      else (False, c))"

text \<open>
  A reader step ends with a value, with a \<open>goto END\<close> and the return code, with undefined
  behaviour, or runs out of fuel.
\<close>

type_synonym 'a reader = "conn \<Rightarrow> ((int + 'a) \<times> conn) res option"

definition ret_val :: "'a \<Rightarrow> 'a reader" where "ret_val x = (\<lambda>c. Some (Ok (Inr x, c)))"
definition goto_end :: "int \<Rightarrow> 'a reader" where "goto_end code = (\<lambda>c. Some (Ok (Inl code, c)))"
definition no_fuel :: "'a reader" where "no_fuel = (\<lambda>c. None)"
definition int_overflow :: "'a reader" where
  "int_overflow = (\<lambda>c. Some (Err (Undefined_behaviour ''int overflow'')))"

definition bindP :: "'a reader \<Rightarrow> ('a \<Rightarrow> 'b reader) \<Rightarrow> 'b reader" where
  "bindP m f = (\<lambda>c. case m c of
      None \<Rightarrow> None
    | Some (Inl e) \<Rightarrow> Some (Inl e)
    | Some (Inr (Inl code, c1)) \<Rightarrow> Some (Inr (Inl code, c1))
    | Some (Inr (Inr x, c1)) \<Rightarrow> f x c1)"

definition get_next_char :: "(nat \<Rightarrow> recv_result) \<Rightarrow> char reader" where
  "get_next_char rcv = (\<lambda>c.
     let (stop, c1) = no_more rcv c
     in if stop then ret_val (CHR 0x00) c1
        else ret_val (hdr_buf c1 ! nat (rpos c1)) (c1\<lparr>rpos := rpos c1 + 1\<rparr>))"

definition resp_digit :: "char \<Rightarrow> int option" where
  "resp_digit ch = (if of_char ch \<ge> (48::int) \<and> of_char ch \<le> (57::int) then Some (of_char ch - 48) else None)"

definition resp_hex :: "char \<Rightarrow> int option" where
  "resp_hex ch =
     (case resp_digit ch of
        Some d \<Rightarrow> Some d
      | None \<Rightarrow>
          if of_char ch \<ge> (65::int) \<and> of_char ch \<le> (70::int) then Some (of_char ch - 65 + 10)
          else if of_char ch \<ge> (97::int) \<and> of_char ch \<le> (102::int) then Some (of_char ch - 97 + 10)
          else None)"

primrec until :: "nat \<Rightarrow> (nat \<Rightarrow> recv_result) \<Rightarrow> char \<Rightarrow> char reader" where
  "until 0 rcv t = no_fuel"
| "until (Suc fuel) rcv t =
     bindP (get_next_char rcv) (\<lambda>ch.
       if ch = CHR 0x00 then goto_end (- 7) else if ch = t then ret_val ch else until fuel rcv t)"

text \<open>\<open>_GET_NUMBER\<close> returns the number and the character that ended it.\<close>

primrec get_number :: "nat \<Rightarrow> (nat \<Rightarrow> recv_result) \<Rightarrow> int \<Rightarrow> (int \<times> char) reader" where
  "get_number 0 rcv n = no_fuel"
| "get_number (Suc fuel) rcv n =
     bindP (get_next_char rcv) (\<lambda>ch.
       if ch = CHR 0x00 then goto_end (- 7)
       else case resp_digit ch of
              Some d \<Rightarrow> if in_i32 (n * 10 + d) then get_number fuel rcv (n * 10 + d) else int_overflow
            | None \<Rightarrow> ret_val (n, ch))"

primrec get_chunked_len :: "nat \<Rightarrow> (nat \<Rightarrow> recv_result) \<Rightarrow> int \<Rightarrow> char \<Rightarrow> int reader" where
  "get_chunked_len 0 rcv n t = no_fuel"
| "get_chunked_len (Suc fuel) rcv n t =
     bindP (get_next_char rcv) (\<lambda>ch.
       if ch = CHR 0x00 then goto_end (- 7)
       else case resp_hex ch of
              Some d \<Rightarrow> if in_i32 (n * 16 + d) then get_chunked_len fuel rcv (n * 16 + d) t else int_overflow
            | None \<Rightarrow> if ch \<noteq> t then goto_end (- 8) else ret_val n)"

text \<open>A run of \<open>_(c)\<close>: stops at the first mismatch, yielding the last character read.\<close>

primrec literal :: "(nat \<Rightarrow> recv_result) \<Rightarrow> string \<Rightarrow> char \<Rightarrow> (bool \<times> char) reader" where
  "literal rcv [] prev = ret_val (True, prev)"
| "literal rcv (x # xs) prev =
     bindP (get_next_char rcv) (\<lambda>ch. if ch \<noteq> x then ret_val (False, ch) else literal rcv xs ch)"

text \<open>A run of \<open>__(c)\<close>.\<close>

primrec expect :: "(nat \<Rightarrow> recv_result) \<Rightarrow> string \<Rightarrow> unit reader" where
  "expect rcv [] = ret_val ()"
| "expect rcv (x # xs) =
     bindP (get_next_char rcv) (\<lambda>ch. if ch \<noteq> x then goto_end (- 9) else expect rcv xs)"

primrec skip_body :: "nat \<Rightarrow> (nat \<Rightarrow> recv_result) \<Rightarrow> int \<Rightarrow> int reader" where
  "skip_body 0 rcv content_length = no_fuel"
| "skip_body (Suc fuel) rcv content_length = (\<lambda>c.
     if content_length > 0 then
       (let (stop, c1) = no_more rcv c
        in if stop then ret_val content_length c1
           else let n = min content_length (avail c1 - rpos c1)
                in skip_body fuel rcv (content_length - n) (c1\<lparr>rpos := rpos c1 + n\<rparr>))
     else ret_val content_length c)"

primrec chunks :: "nat \<Rightarrow> (nat \<Rightarrow> recv_result) \<Rightarrow> int \<Rightarrow> int \<Rightarrow> unit reader" where
  "chunks 0 rcv ret_code content_length = no_fuel"
| "chunks (Suc fuel) rcv ret_code content_length =
     bindP (get_chunked_len fuel rcv content_length (CHR 0x0D)) (\<lambda>n.
     bindP (expect rcv [newline]) (\<lambda>_.
       if n = 0 then bindP (expect rcv crlf) (\<lambda>_. goto_end ret_code)
       else
         bindP (skip_body fuel rcv n) (\<lambda>n'.
         bindP (expect rcv crlf) (\<lambda>_. chunks fuel rcv ret_code n'))))"

primrec headers :: "nat \<Rightarrow> (nat \<Rightarrow> recv_result) \<Rightarrow> int \<Rightarrow> int \<Rightarrow> bool \<Rightarrow> unit reader" where
  "headers 0 rcv ret_code content_length chunked = no_fuel"
| "headers (Suc fuel) rcv ret_code content_length chunked =
     bindP (until fuel rcv newline) (\<lambda>_.
     bindP (get_next_char rcv) (\<lambda>ch.
       if ch = CHR ''C'' then
         bindP (literal rcv ''ontent-Length: '' ch) (\<lambda>(matched, ch1).
           if matched then
             bindP (get_number fuel rcv content_length) (\<lambda>(n, ch2).
               if ch2 = CHR 0x00 then goto_end (- 10) else headers fuel rcv ret_code n chunked)
           else if ch1 = CHR 0x00 then goto_end (- 10)
           else headers fuel rcv ret_code content_length chunked)
       else if ch = CHR ''T'' then
         bindP (literal rcv ''ransfer-Encoding: chunked'' ch) (\<lambda>(matched, ch1).
           if matched then headers fuel rcv ret_code content_length True
           else if ch1 = CHR 0x00 then goto_end (- 10)
           else headers fuel rcv ret_code content_length chunked)
       else if ch = CHR 0x0D then
         bindP (expect rcv [newline]) (\<lambda>_.
           if chunked then chunks fuel rcv ret_code content_length
           else bindP (skip_body fuel rcv content_length) (\<lambda>_. goto_end ret_code))
       else if ch = CHR 0x00 then goto_end (- 10)
       else headers fuel rcv ret_code content_length chunked))"

definition read_response :: "nat \<Rightarrow> (nat \<Rightarrow> recv_result) \<Rightarrow> unit reader" where
  "read_response fuel rcv =
     bindP (until fuel rcv (CHR '' '')) (\<lambda>_.
     bindP (get_number fuel rcv 0) (\<lambda>(ret_code, _). headers fuel rcv ret_code 0 False))"

text \<open>The whole request; the buffer holds the header text, its terminator and padding.\<close>

definition http_request :: "nat \<Rightarrow> (nat \<Rightarrow> nat \<Rightarrow> int) \<Rightarrow> (nat \<Rightarrow> recv_result) \<Rightarrow> string \<Rightarrow> string \<Rightarrow> string \<Rightarrow> string
    \<Rightarrow> server_info \<Rightarrow> (int \<times> string) res option" where
  "http_request fuel wr rcv meth uri querystring body si =
     (let text = http_header meth uri querystring (length body) si;
          len = header_len (length text) 256;
          header = snprintf len text;
          buf = header @ replicate (len - length header) (CHR 0x00);
          total = to_i32 (int (length header) + int (length body));
          finish = (\<lambda>ret_code. if cdiv ret_code 100 = 2 then 0 else ret_code)
      in case write_loop fuel wr 0 total [header, body] 0 [] of
           None \<Rightarrow> None
         | Some (Inl e) \<Rightarrow> Some (Err e)
         | Some (Inr (code, sent)) \<Rightarrow>
             if code < 0 then Some (Ok (finish code, sent))
             else if \<not> si_await_post_response si then Some (Ok (finish 0, sent))
             else case read_response fuel rcv \<lparr>hdr_buf = buf, rpos = int len, avail = int len, calls = 0\<rparr> of
                    None \<Rightarrow> None
                  | Some (Inl e) \<Rightarrow> Some (Err e)
                  | Some (Inr (r, _)) \<Rightarrow> Some (Ok (case r of Inl ret_code \<Rightarrow> finish ret_code | Inr _ \<Rightarrow> finish (- 11), sent)))"

definition post_http :: "nat \<Rightarrow> (nat \<Rightarrow> nat \<Rightarrow> int) \<Rightarrow> (nat \<Rightarrow> recv_result) \<Rightarrow> string \<Rightarrow> server_info \<Rightarrow> (int \<times> string) res option" where
  "post_http fuel wr rcv lines si = http_request fuel wr rcv ''POST'' ''write'' [] lines si"

section \<open>Sending\<close>

lemma header_len_fits: "0 < len \<Longrightarrow> needed < header_len needed len"
  by (induction needed len rule: header_len.induct) (subst header_len.simps, simp)

lemma header_len_ge: "0 < len \<Longrightarrow> len \<le> header_len needed len"
proof (induction needed len rule: header_len.induct)
  case (1 needed len)
  then show ?case by (subst header_len.simps) (fastforce intro: order.trans [of len "len * 2"])
qed

lemma snprintf_fits: "snprintf (header_len (length text) 256) text = text"
  using header_len_fits [of 256 "length text"] by (simp add: snprintf_def)

lemma advance_ok:
  "off < length (concat bs) \<Longrightarrow> \<exists>bs'. advance bs off = Ok bs' \<and> concat bs' = drop off (concat bs)"
  by (induction bs arbitrary: off) (auto simp: not_less)

lemma strict_prefix_append: "strict_prefix (xs @ ys) (xs @ zs) \<longleftrightarrow> strict_prefix ys zs"
  by (auto simp: strict_prefix_def)

text \<open>
  What the loop relies on of the kernel: \<open>writev\<close> accepts no more than it is offered, and
  on a blocking socket it fails or makes progress.
\<close>

definition writev_ok :: "(nat \<Rightarrow> nat \<Rightarrow> int) \<Rightarrow> bool" where
  "writev_ok wr \<longleftrightarrow> (\<forall>k n. wr k n \<le> int n \<and> (0 < n \<longrightarrow> wr k n \<noteq> 0))"

lemma write_loop_ok:
  assumes "writev_ok wr" and "tot = tw + int (length (concat bs))"
    and "concat bs \<noteq> []" and "length (concat bs) \<le> fuel"
  shows "\<exists>code out. write_loop fuel wr k tot bs tw sent = Some (Ok (code, sent @ out)) \<and>
           (code = 0 \<and> out = concat bs \<or> code = - 6 \<and> strict_prefix out (concat bs))"
  using assms(2-)
proof (induction fuel arbitrary: k bs tw sent)
  case 0
  then show ?case by simp
next
  case (Suc fuel)
  let ?n = "length (concat bs)" let ?r = "wr k ?n"
  have r: "?r \<le> int ?n" "?r \<noteq> 0" using assms(1) Suc.prems(2) by (simp_all add: writev_ok_def)
  consider "?r < 0" | "?r = int ?n" | "0 < ?r" "nat ?r < ?n" using r by linarith
  then show ?case
  proof cases
    case 1
    then have "write_loop (Suc fuel) wr k tot bs tw sent = Some (Ok (- 6, sent @ []))" by simp
    then show ?thesis using Suc.prems(2) by (metis strict_prefix_simps(2) neq_Nil_conv)
  next
    case 2
    then have "write_loop (Suc fuel) wr k tot bs tw sent = Some (Ok (0, sent @ concat bs))"
      using Suc.prems(1) by simp
    then show ?thesis by blast
  next
    case 3
    let ?rest = "drop (nat ?r) (concat bs)"
    obtain bs' where bs': "advance bs (nat ?r) = Ok bs'" "concat bs' = ?rest"
      using advance_ok [OF 3(2)] by blast
    let ?sent = "sent @ take (nat ?r) (concat bs)"
    have step: "write_loop (Suc fuel) wr k tot bs tw sent
        = write_loop fuel wr (Suc k) tot bs' (tw + ?r) ?sent"
    proof -
      have "\<not> int ?n \<le> ?r" using 3 by linarith
      then show ?thesis using 3(1) Suc.prems(1) bs'(1) by (simp add: Let_def)
    qed
    have "length (concat bs') = ?n - nat ?r" using bs'(2) by simp
    then obtain code out where IH: "write_loop fuel wr (Suc k) tot bs' (tw + ?r) ?sent = Some (Ok (code, ?sent @ out))"
        "code = 0 \<and> out = ?rest \<or> code = - 6 \<and> strict_prefix out ?rest"
      using Suc.IH [of "tw + ?r" bs' "Suc k" ?sent] Suc.prems 3 bs'(2) by fastforce
    have "strict_prefix (take (nat ?r) (concat bs) @ out) (take (nat ?r) (concat bs) @ ?rest)
        \<longleftrightarrow> strict_prefix out ?rest" by (rule strict_prefix_append)
    with IH(2) have "code = 0 \<and> take (nat ?r) (concat bs) @ out = concat bs \<or>
        code = - 6 \<and> strict_prefix (take (nat ?r) (concat bs) @ out) (concat bs)" by auto
    then show ?thesis using step IH(1) by auto
  qed
qed

lemma write_loop_nonneg:
  assumes "\<And>k n. wr k n \<ge> 0"
  shows "write_loop fuel wr k tot bs tw sent = Some (Ok (code, out)) \<Longrightarrow> 0 \<le> code"
  using assms
  by (induction fuel arbitrary: k bs tw sent)
    (auto simp: Let_def not_less [symmetric] split: if_splits sum.splits)

lemma write_loop_mono:
  "write_loop fuel wr k tot bs tw sent = Some r \<Longrightarrow> fuel \<le> fuel' \<Longrightarrow>
   write_loop fuel' wr k tot bs tw sent = Some r"
proof (induction fuel arbitrary: fuel' k bs tw sent)
  case (Suc fuel)
  then show ?case by (cases fuel') (auto simp: Let_def split: if_splits sum.splits)
qed simp

lemma write_loop_safe:
  assumes "writev_ok wr" and "tot = tw + int (length (concat bs))" and "concat bs \<noteq> []"
    and "write_loop fuel wr k tot bs tw sent = Some r"
  shows "is_ok r"
proof -
  let ?f = "max fuel (length (concat bs))"
  have "write_loop ?f wr k tot bs tw sent = Some r"
    using write_loop_mono [OF assms(4), of ?f] by simp
  then show ?thesis
    using write_loop_ok [OF assms(1,2,3), of ?f k sent] by (auto simp: is_ok_iff)
qed

lemma http_request_send:
  fixes body meth uri querystring :: string and si :: server_info
  defines "header \<equiv> http_header meth uri querystring (length body) si"
  assumes "writev_ok wr" and "in_i32 (int (length (header @ body)))"
    and "length (header @ body) \<le> fuel" and "\<not> si_await_post_response si"
  shows "\<exists>code sent. http_request fuel wr rcv meth uri querystring body si = Some (Ok (code, sent)) \<and>
      (code = 0 \<and> sent = header @ body \<or> code = - 6 \<and> strict_prefix sent (header @ body))"
proof -
  have total: "to_i32 (int (length header) + int (length body)) = int (length (header @ body))"
    using assms(3) by (simp add: to_i32_id)
  have "concat [header, body] \<noteq> []" by (simp add: header_def http_header_def)
  with assms(2,4) obtain code sent where
    "write_loop fuel wr 0 (int (length (header @ body))) [header, body] 0 [] = Some (Ok (code, sent))"
    "code = 0 \<and> sent = header @ body \<or> code = - 6 \<and> strict_prefix sent (header @ body)"
    using write_loop_ok [of wr "int (length (header @ body))" 0 "[header, body]" fuel 0 "[]"]
    by auto
  then show ?thesis
    using total assms(5) unfolding http_request_def header_def [symmetric]
    by (auto simp: Let_def snprintf_fits cdiv_def)
qed

text \<open>
  C7. Posting a batch of lines without awaiting the answer puts, however \<open>writev\<close> splits
  the transfer, exactly the request header followed by the batch on the socket and returns
  0, or reports a failed \<open>writev\<close> as -6 with a proper prefix sent; it never indexes past the
  two buffers, and fuel of one unit per byte is enough, so the loop ends.
\<close>

theorem post_http_sends_exactly:
  assumes "writev_ok wr" and "\<not> si_await_post_response si"
    and "request = http_header ''POST'' ''write'' [] (length lines) si @ lines"
    and "in_i32 (int (length request))" and "length request \<le> fuel"
  shows "\<exists>code sent. post_http fuel wr rcv lines si = Some (Ok (code, sent)) \<and>
      (code = 0 \<and> sent = request \<or> code = - 6 \<and> strict_prefix sent request)"
  unfolding post_http_def assms(3)
  by (rule http_request_send) (use assms in simp_all)

definition demo_writev :: "nat \<Rightarrow> nat \<Rightarrow> int" where
  "demo_writev k n = min 7 (int n)"

definition demo_lines :: string where "demo_lines = ''m,a=b c=1i 5''"

definition demo_server :: "bool \<Rightarrow> server_info" where
  "demo_server = server_info_init ''127.0.0.1'' 8086 ''o'' ''t'' ''b''"

definition demo_request :: "bool \<Rightarrow> string" where
  "demo_request b = http_header ''POST'' ''write'' [] (length demo_lines) (demo_server b) @ demo_lines"

lemma demo_facts:
  "writev_ok demo_writev" "0 \<le> demo_writev k n"
  "si_await_post_response (demo_server b) = b"
  by (auto simp: writev_ok_def demo_writev_def demo_server_def server_info_init_def min_def)

lemma demo_request_length: "length (demo_request True) = 109" "length (demo_request False) = 109"
  by code_simp+

theorem post_http_sends_exactly_witness:
  "\<exists>code sent. post_http 109 demo_writev (\<lambda>_. Recv_error) demo_lines (demo_server False) = Some (Ok (code, sent)) \<and>
     (code = 0 \<and> sent = demo_request False \<or> code = - 6 \<and> strict_prefix sent (demo_request False))"
  by (rule post_http_sends_exactly)
    (simp_all add: demo_facts demo_request_length in_i32_def demo_request_def [symmetric])

section \<open>Reading the response\<close>

lemma bindP_simps [simp]:
  "m c = None \<Longrightarrow> bindP m f c = None"
  "m c = Some (Inl e) \<Longrightarrow> bindP m f c = Some (Inl e)"
  "m c = Some (Inr (Inl code, c1)) \<Longrightarrow> bindP m f c = Some (Inr (Inl code, c1))"
  "m c = Some (Inr (Inr x, c1)) \<Longrightarrow> bindP m f c = f x c1"
  by (simp_all add: bindP_def)

lemma until_closed:
  assumes "\<And>k. rcv k = Received []" and "hdr_buf c \<noteq> []"
    and "hd (hdr_buf c) \<noteq> CHR 0x00" and "hd (hdr_buf c) \<noteq> t" and "rpos c \<ge> avail c"
  shows "until fuel rcv t c = None"
  using assms(2-)
proof (induction fuel arbitrary: c)
  case 0
  then show ?case by (simp add: no_fuel_def)
next
  case (Suc fuel)
  let ?c = "c\<lparr>rpos := 1, avail := 0, calls := Suc (calls c)\<rparr>"
  have next_char: "get_next_char rcv c = Some (Ok (Inr (hd (hdr_buf c)), ?c))"
    using Suc.prems assms(1) by (simp add: get_next_char_def no_more_def ret_val_def hd_conv_nth)
  have "until fuel rcv t ?c = None" by (rule Suc.IH) (use Suc.prems in simp_all)
  then show ?case using next_char Suc.prems by simp
qed

text \<open>
  When the server closes the connection before it answers, the reader of the response
  never returns: \<open>recv\<close> then yields 0, which \<open>_NO_MORE\<close> does not take for the end, and the
  first byte of the old buffer (the \<open>P\<close> of \<open>POST\<close>) is read over and over. No amount of fuel
  gives a result once the request has been sent.
\<close>

theorem post_http_closed_never_returns:
  fixes rcv :: "nat \<Rightarrow> recv_result" and si :: server_info and lines :: string
  assumes "writev_ok wr" and "si_await_post_response si" and "\<And>k. rcv k = Received []"
    and "\<And>k n. wr k n \<ge> 0"
    and "request = http_header ''POST'' ''write'' [] (length lines) si @ lines"
    and "in_i32 (int (length request))"
  shows "post_http fuel wr rcv lines si = None"
proof (cases "write_loop fuel wr 0 (int (length request))
    [http_header ''POST'' ''write'' [] (length lines) si, lines] 0 []")
  case None
  then show ?thesis using assms(5,6)
    by (simp add: post_http_def http_request_def Let_def snprintf_fits to_i32_id)
next
  case (Some r)
  let ?h = "http_header ''POST'' ''write'' [] (length lines) si"
  have pos: "\<And>k b. r = Ok (k, b) \<Longrightarrow> 0 \<le> k" and ok: "is_ok r"
    using Some write_loop_nonneg [OF assms(4)] write_loop_safe [OF assms(1) _ _ Some] assms(5)
    by (auto simp: http_header_def)
  let ?c = "\<lambda>l. \<lparr>hdr_buf = ?h @ replicate (l - length ?h) (CHR 0x00), rpos = int l, avail = int l, calls = 0\<rparr>"
  have "until fuel rcv (CHR '' '') (?c l) = None" for l
    by (rule until_closed [OF assms(3)]) (simp_all add: http_header_def)
  then have "read_response fuel rcv (?c l) = None" for l by (simp add: read_response_def)
  with Some pos ok assms(2,5,6) show ?thesis
    by (cases r) (auto simp: post_http_def http_request_def Let_def snprintf_fits to_i32_id)
qed

theorem post_http_closed_never_returns_witness:
  "post_http 1000 demo_writev (\<lambda>_. Received []) demo_lines (demo_server True) = None"
  by (rule post_http_closed_never_returns [OF _ _ _ _ demo_request_def])
    (simp_all add: demo_facts demo_request_length in_i32_def)

end
