(* ===== verification/Writers.thy ===== *)
theory Writers
  imports InfluxHttp
begin

text \<open>
  The measurement writers (\<open>rclcpp/src/rclcpp/measuring/*_measurement_writer.cpp\<close>) behind
  the interface \<open>IMeasurementWriter\<close>, stated as the locale \<open>measurement_writer\<close> and
  interpreted on all four of them. A file is the text written to its stream, standard
  output is the text printed, and the InfluxDB writer logs every batch it posts with the
  await flag of the request. Indexing a vector of measurement classes with a key that was
  not handed out is undefined behaviour. The steady clock is a function from the number of
  the reading to nanoseconds.
\<close>

section \<open>The interface\<close>

datatype record_op =
    Use_timestamp int
  | Record_latency MessageTrackingVariables u32 int
  | Record_arrival MessageTrackingVariables u32
  | Record_jitter int

locale measurement_writer =
  fixes register_class :: "string \<Rightarrow> string list \<Rightarrow> 's \<Rightarrow> u32 \<times> 's"
    and do_op :: "u32 \<Rightarrow> record_op \<Rightarrow> 's \<Rightarrow> 's res"
    and valid_key :: "u32 \<Rightarrow> 's \<Rightarrow> bool"
    and room :: "'s \<Rightarrow> bool"
  assumes register_valid: "room s \<Longrightarrow> valid_key (fst (register_class name cols s)) (snd (register_class name cols s))"
    and register_keeps: "valid_key k s \<Longrightarrow> valid_key k (snd (register_class name cols s))"
    and op_defined: "valid_key k s \<Longrightarrow> \<exists>s'. do_op k oper s = Ok s'"
    and op_keeps: "do_op k oper s = Ok s' \<Longrightarrow> valid_key j s \<Longrightarrow> valid_key j s'"
begin

primrec run_ops :: "(u32 \<times> record_op) list \<Rightarrow> 's \<Rightarrow> 's res" where
  "run_ops [] s = Ok s"
| "run_ops (p # ps) s = bindR (do_op (fst p) (snd p) s) (run_ops ps)"

lemma run_ops_defined:
  "\<forall>p \<in> set ps. valid_key (fst p) s \<Longrightarrow> \<exists>s'. run_ops ps s = Ok s'"
proof (induction ps arbitrary: s)
  case (Cons p ps)
  then obtain s1 where s1: "do_op (fst p) (snd p) s = Ok s1" using op_defined by fastforce
  with Cons show ?case using op_keeps by fastforce
qed simp

lemma run_ops_keeps: "run_ops ps s = Ok s' \<Longrightarrow> valid_key j s \<Longrightarrow> valid_key j s'"
  by (induction ps arbitrary: s) (auto simp: res_simps dest: op_keeps)

lemma register_then_run:
  assumes "room s" and "(k, s1) = register_class name cols s" and "\<forall>p \<in> set ps. fst p = k \<or> valid_key (fst p) s"
  shows "\<exists>s'. run_ops ps s1 = Ok s' \<and> valid_key k s'"
proof -
  have k: "valid_key k s1" using register_valid [OF assms(1)] assms(2) by (metis fst_conv snd_conv)
  have "\<forall>p \<in> set ps. valid_key (fst p) s1"
    using assms(3) k register_keeps assms(2) by (metis snd_conv)
  then show ?thesis using run_ops_defined run_ops_keeps k by blast
qed

end

definition out_of_range :: cpp_error where
  "out_of_range = Undefined_behaviour ''measurement key out of range''"

definition key_in :: "u32 \<Rightarrow> 'a list \<Rightarrow> bool" where
  "key_in k xs \<longleftrightarrow> unat k < length xs"

definition has_room :: "'a list \<Rightarrow> bool" where
  "has_room xs \<longleftrightarrow> length xs < 4294967296"

definition new_key :: "'a list \<Rightarrow> u32" where
  "new_key xs = of_nat (length xs - 1)"

lemma new_key_in: "has_room xs \<Longrightarrow> unat (new_key (xs @ [x])) = length xs"
  by (simp add: has_room_def new_key_def unat_of_nat)

lemma key_in_append: "key_in k xs \<Longrightarrow> key_in k (xs @ [x])"
  by (simp add: key_in_def)

section \<open>The file writer\<close>

text \<open>A stream is the file's name and the text written to it.\<close>

record file_writer =
  fw_timestamp :: int
  fw_host_full_name :: string
  fw_classes :: "(string \<times> string) list"

definition FileMeasurementWriter :: "MessageTrackerHostInfo \<Rightarrow> file_writer res" where
  "FileMeasurementWriter h =
     (if node_namespace h = [] then Err (Out_of_range ''basic_string::substr'')
      else let ns = tl (node_namespace h)
           in Ok \<lparr>fw_timestamp = 0,
                  fw_host_full_name = topic_name h @ ''->'' @ (if ns \<noteq> [] then ns @ ''::'' else []) @ node_name h,
                  fw_classes = []\<rparr>)"

definition csv_header :: "string list \<Rightarrow> string" where
  "csv_header columns = ''unix_time'' @ concat (map (\<lambda>v. '','' @ v) columns) @ [newline]"

definition file_register :: "string \<Rightarrow> string list \<Rightarrow> file_writer \<Rightarrow> u32 \<times> file_writer" where
  "file_register name columns w =
     (let classes = fw_classes w @ [(fw_host_full_name w @ ''_['' @ name @ ''].txt'', csv_header columns)]
      in (new_key classes, w\<lparr>fw_classes := classes\<rparr>))"

definition file_append :: "u32 \<Rightarrow> string \<Rightarrow> file_writer \<Rightarrow> file_writer res" where
  "file_append key text w =
     (if unat key < length (fw_classes w) then
        (let (name, old) = fw_classes w ! unat key
         in Ok (w\<lparr>fw_classes := (fw_classes w)[unat key := (name, old @ text)]\<rparr>))
      else Err out_of_range)"

definition latency_row :: "int \<Rightarrow> MessageTrackingVariables \<Rightarrow> u32 \<Rightarrow> int \<Rightarrow> string" where
  "latency_row stamp msg publisher arrival =
     show_int stamp @ '','' @ hex_char_array publisher @ '','' @ show_int (vandenhoven_timestamp msg)
     @ '','' @ show_int arrival @ [newline]"

definition arrival_row :: "int \<Rightarrow> MessageTrackingVariables \<Rightarrow> u32 \<Rightarrow> string" where
  "arrival_row stamp msg publisher =
     show_int stamp @ '','' @ hex_char_array publisher @ '','' @ show_int (vandenhoven_timestamp msg) @ [newline]"

definition jitter_row :: "int \<Rightarrow> int \<Rightarrow> string" where
  "jitter_row stamp jitter = show_int stamp @ '','' @ show_int jitter @ [newline]"

definition file_record_latency :: "u32 \<Rightarrow> MessageTrackingVariables \<Rightarrow> u32 \<Rightarrow> int \<Rightarrow> file_writer \<Rightarrow> file_writer res" where
  "file_record_latency key msg publisher arrival_time w =
     file_append key (latency_row (fw_timestamp w) msg publisher arrival_time) w"

definition file_record_arrival :: "u32 \<Rightarrow> MessageTrackingVariables \<Rightarrow> u32 \<Rightarrow> file_writer \<Rightarrow> file_writer res" where
  "file_record_arrival key msg publisher w = file_append key (arrival_row (fw_timestamp w) msg publisher) w"

definition file_record_activation_jitter :: "u32 \<Rightarrow> int \<Rightarrow> file_writer \<Rightarrow> file_writer res" where
  "file_record_activation_jitter key jitter w = file_append key (jitter_row (fw_timestamp w) jitter) w"

fun file_op :: "u32 \<Rightarrow> record_op \<Rightarrow> file_writer \<Rightarrow> file_writer res" where
  "file_op key (Use_timestamp t) w = Ok (w\<lparr>fw_timestamp := t\<rparr>)"
| "file_op key (Record_latency msg p a) w = file_record_latency key msg p a w"
| "file_op key (Record_arrival msg p) w = file_record_arrival key msg p w"
| "file_op key (Record_jitter j) w = file_record_activation_jitter key j w"

section \<open>The print writer\<close>

record print_writer =
  pw_timestamp :: int
  pw_classes :: "string list"
  pw_stdout :: string

definition PrintMeasurementWriter :: print_writer where
  "PrintMeasurementWriter = \<lparr>pw_timestamp = 0, pw_classes = [], pw_stdout = []\<rparr>"

definition print_register :: "string \<Rightarrow> string list \<Rightarrow> print_writer \<Rightarrow> u32 \<times> print_writer" where
  "print_register name columns w =
     (let classes = pw_classes w @ [name] in (new_key classes, w\<lparr>pw_classes := classes\<rparr>))"

definition print_record_latency :: "u32 \<Rightarrow> MessageTrackingVariables \<Rightarrow> u32 \<Rightarrow> int \<Rightarrow> print_writer \<Rightarrow> print_writer res" where
  "print_record_latency key msg publisher arrival_time w =
     (if unat key < length (pw_classes w) then
        Ok (w\<lparr>pw_stdout := pw_stdout w @ ''[ '' @ hex_char_array publisher @ ''->'' @ pw_classes w ! unat key
              @ '' ]: ('' @ show_int (vandenhoven_timestamp msg) @ '', '' @ show_int arrival_time @ '')'' @ [newline]\<rparr>)
      else Err out_of_range)"

definition print_record_arrival :: "u32 \<Rightarrow> MessageTrackingVariables \<Rightarrow> u32 \<Rightarrow> print_writer \<Rightarrow> print_writer res" where
  "print_record_arrival key msg publisher w =
     (if unat key < length (pw_classes w) then
        Ok (w\<lparr>pw_stdout := pw_stdout w @ ''[ '' @ hex_char_array publisher @ ''->'' @ pw_classes w ! unat key
              @ '' ]: ('' @ show_int (vandenhoven_identifier msg) @ '')'' @ [newline]\<rparr>)
      else Err out_of_range)"

definition print_record_activation_jitter :: "u32 \<Rightarrow> int \<Rightarrow> print_writer \<Rightarrow> print_writer res" where
  "print_record_activation_jitter key jitter w =
     (if unat key < length (pw_classes w) then
        Ok (w\<lparr>pw_stdout := pw_stdout w @ ''[ '' @ pw_classes w ! unat key @ '' ]: ('' @ show_int jitter @ '')'' @ [newline]\<rparr>)
      else Err out_of_range)"

fun print_op :: "u32 \<Rightarrow> record_op \<Rightarrow> print_writer \<Rightarrow> print_writer res" where
  "print_op key (Use_timestamp t) w = Ok (w\<lparr>pw_timestamp := t\<rparr>)"
| "print_op key (Record_latency msg p a) w = print_record_latency key msg p a w"
| "print_op key (Record_arrival msg p) w = print_record_arrival key msg p w"
| "print_op key (Record_jitter j) w = print_record_activation_jitter key j w"

section \<open>The dummy writer\<close>

definition dummy_register :: "string \<Rightarrow> string list \<Rightarrow> unit \<Rightarrow> u32 \<times> unit" where
  "dummy_register name columns w = (0, w)"

definition dummy_op :: "u32 \<Rightarrow> record_op \<Rightarrow> unit \<Rightarrow> unit res" where
  "dummy_op key oper w = Ok w"

section \<open>The InfluxDB writer\<close>

record upload_heuristic =
  lastUploadTime :: int
  sizeConstraintBytes :: int
  timeConstraintMS :: int

record influx_writer =
  iw_timestamp :: int
  iw_server :: server_info
  iw_heuristic :: upload_heuristic
  iw_builder :: string
  iw_host :: string
  iw_topic :: string
  iw_measurements :: "string list"
  iw_ticks :: nat
  iw_posts :: "(bool \<times> string) list"

definition InfluxDBUploadHeuristic :: "int \<Rightarrow> int \<Rightarrow> upload_heuristic" where
  "InfluxDBUploadHeuristic timeMS sizeBytes =
     \<lparr>lastUploadTime = 0, sizeConstraintBytes = sizeBytes, timeConstraintMS = timeMS\<rparr>"

definition should_upload :: "int \<Rightarrow> string \<Rightarrow> upload_heuristic \<Rightarrow> bool" where
  "should_upload now candidate h =
     (if cdiv (now - lastUploadTime h * 1000000) 1000000 > timeConstraintMS h then True
      else if int (getBufferSize candidate) > sizeConstraintBytes h then True
      else False)"

definition set_last_upload_time :: "int \<Rightarrow> upload_heuristic \<Rightarrow> upload_heuristic" where
  "set_last_upload_time now h = h\<lparr>lastUploadTime := cdiv now 1000000\<rparr>"

definition updateHeuristic :: "bool \<times> int \<Rightarrow> bool \<times> int \<Rightarrow> upload_heuristic \<Rightarrow> upload_heuristic" where
  "updateHeuristic new_size new_time h =
     (let h1 = (if fst new_size then h\<lparr>sizeConstraintBytes := snd new_size\<rparr> else h)
      in if fst new_time then h1\<lparr>timeConstraintMS := snd new_time\<rparr> else h1)"

text \<open>
  Opening the connection to the database: what \<open>socket\<close> and \<open>connect\<close> return. The address is the constant
  127.0.0.1, whose lookup needs no name service.
\<close>

datatype connection = Connected | Socket_failed | Connect_failed

definition influx_socket :: "connection \<Rightarrow> unit res" where
  "influx_socket conn =
     (case conn of
        Socket_failed \<Rightarrow> Err (Invalid_argument ''influx_socket: socket() failed, the internal socket was closed.'')
      | Connect_failed \<Rightarrow> Err (Invalid_argument ''influx_socket: connect() failed, the internal socket was closed.'')
      | Connected \<Rightarrow> Ok ())"

text \<open>The members of a writer whose socket is open.\<close>

definition connected_writer :: "(nat \<Rightarrow> int) \<Rightarrow> MessageTrackerHostInfo \<Rightarrow> influx_writer" where
  "connected_writer clk h =
     \<lparr>iw_timestamp = 0,
      iw_server = server_info_init ''127.0.0.1'' 8086 [] [] [] False,
      iw_heuristic = set_last_upload_time (clk 0) (InfluxDBUploadHeuristic 0 0),
      iw_builder = [], iw_host = node_namespace h @ node_name h, iw_topic = topic_name h,
      iw_measurements = [], iw_ticks = 1, iw_posts = []\<rparr>"

definition InfluxDBMeasurementWriter :: "connection \<Rightarrow> (nat \<Rightarrow> int) \<Rightarrow> MessageTrackerHostInfo \<Rightarrow> influx_writer res" where
  "InfluxDBMeasurementWriter conn clk h = bindR (influx_socket conn) (\<lambda>_. Ok (connected_writer clk h))"

definition influx_register :: "string \<Rightarrow> string list \<Rightarrow> influx_writer \<Rightarrow> u32 \<times> influx_writer" where
  "influx_register name columns w =
     (let measurements = iw_measurements w @ [name]
      in (new_key measurements, w\<lparr>iw_measurements := measurements\<rparr>))"

definition maybe_upload :: "(nat \<Rightarrow> int) \<Rightarrow> influx_writer \<Rightarrow> influx_writer" where
  "maybe_upload clk w =
     (let w0 = w\<lparr>iw_ticks := Suc (iw_ticks w)\<rparr>
      in if should_upload (clk (iw_ticks w)) (iw_builder w) (iw_heuristic w) then
           (let w1 = w0\<lparr>iw_heuristic := set_last_upload_time (clk (iw_ticks w0)) (iw_heuristic w0),
                        iw_ticks := Suc (iw_ticks w0)\<rparr>;
                w2 = w1\<lparr>iw_posts := iw_posts w1 @ [(si_await_post_response (iw_server w1), iw_builder w1)]\<rparr>;
                w3 = w2\<lparr>iw_builder := builder_clear (iw_builder w2)\<rparr>
            in w3\<lparr>iw_heuristic := updateHeuristic (True, 64000) (True, 15000) (iw_heuristic w3)\<rparr>)
         else w0)"

definition latency_line :: "string \<Rightarrow> string \<Rightarrow> MessageTrackingVariables \<Rightarrow> u32 \<Rightarrow> int \<Rightarrow> influx_writer \<Rightarrow> string" where
  "latency_line lines measurement msg publisher arrival_time w =
     (let l1 = meas lines measurement;
          l2 = builder_t_hex l1 ''publisher'' publisher;
          l3 = builder_t l2 ''topic'' (iw_topic w);
          l4 = builder_t l3 ''node_full_name'' (iw_host w);
          l5 = builder_f_i (CHR '' '') l4 ''sent_time'' (vandenhoven_timestamp msg);
          l6 = builder_f_i (CHR '','') l5 ''arrive_time'' arrival_time;
          l7 = builder_f_i (CHR '','') l6 ''msg_id'' (vandenhoven_identifier msg)
      in builder_timestamp l7 (iw_timestamp w))"

definition arrival_line :: "string \<Rightarrow> string \<Rightarrow> MessageTrackingVariables \<Rightarrow> u32 \<Rightarrow> influx_writer \<Rightarrow> string" where
  "arrival_line lines measurement msg publisher w =
     (let l1 = meas lines measurement;
          l2 = builder_t_hex l1 ''publisher'' publisher;
          l3 = builder_t l2 ''topic'' (iw_topic w);
          l4 = builder_t l3 ''node_full_name'' (iw_host w);
          l5 = builder_f_i (CHR '' '') l4 ''msg_id'' (vandenhoven_identifier msg)
      in builder_timestamp l5 (iw_timestamp w))"

definition jitter_line :: "string \<Rightarrow> string \<Rightarrow> int \<Rightarrow> influx_writer \<Rightarrow> string" where
  "jitter_line lines measurement jitter w =
     (let l1 = meas lines measurement;
          l2 = builder_t l1 ''timer'' (iw_host w);
          l3 = builder_f_i (CHR '' '') l2 ''activation_jitter'' jitter
      in builder_timestamp l3 (iw_timestamp w))"

definition influx_record_latency :: "(nat \<Rightarrow> int) \<Rightarrow> u32 \<Rightarrow> MessageTrackingVariables \<Rightarrow> u32 \<Rightarrow> int \<Rightarrow> influx_writer \<Rightarrow> influx_writer res" where
  "influx_record_latency clk key msg publisher arrival_time w =
     (if unat key < length (iw_measurements w) then
        Ok (maybe_upload clk (w\<lparr>iw_builder :=
              latency_line (iw_builder w) (iw_measurements w ! unat key) msg publisher arrival_time w\<rparr>))
      else Err out_of_range)"

definition influx_record_arrival :: "(nat \<Rightarrow> int) \<Rightarrow> u32 \<Rightarrow> MessageTrackingVariables \<Rightarrow> u32 \<Rightarrow> influx_writer \<Rightarrow> influx_writer res" where
  "influx_record_arrival clk key msg publisher w =
     (if unat key < length (iw_measurements w) then
        Ok (maybe_upload clk (w\<lparr>iw_builder :=
              arrival_line (iw_builder w) (iw_measurements w ! unat key) msg publisher w\<rparr>))
      else Err out_of_range)"

definition influx_record_activation_jitter :: "(nat \<Rightarrow> int) \<Rightarrow> u32 \<Rightarrow> int \<Rightarrow> influx_writer \<Rightarrow> influx_writer res" where
  "influx_record_activation_jitter clk key jitter w =
     (if unat key < length (iw_measurements w) then
        Ok (maybe_upload clk (w\<lparr>iw_builder :=
              jitter_line (iw_builder w) (iw_measurements w ! unat key) jitter w\<rparr>))
      else Err out_of_range)"

fun influx_op :: "(nat \<Rightarrow> int) \<Rightarrow> u32 \<Rightarrow> record_op \<Rightarrow> influx_writer \<Rightarrow> influx_writer res" where
  "influx_op clk key (Use_timestamp t) w = Ok (w\<lparr>iw_timestamp := t\<rparr>)"
| "influx_op clk key (Record_latency msg p a) w = influx_record_latency clk key msg p a w"
| "influx_op clk key (Record_arrival msg p) w = influx_record_arrival clk key msg p w"
| "influx_op clk key (Record_jitter j) w = influx_record_activation_jitter clk key j w"

definition influx_destroy :: "influx_writer \<Rightarrow> influx_writer" where
  "influx_destroy w =
     (if getBufferSize (iw_builder w) > 0 then
        (let w1 = w\<lparr>iw_server := (iw_server w)\<lparr>si_await_post_response := True\<rparr>\<rparr>
         in w1\<lparr>iw_posts := iw_posts w1 @ [(si_await_post_response (iw_server w1), iw_builder w1)]\<rparr>)
      else w)"

section \<open>All four writers keep the interface's contract\<close>

interpretation file_w: measurement_writer file_register file_op
  "\<lambda>k w. key_in k (fw_classes w)" "\<lambda>w. has_room (fw_classes w)"
proof unfold_locales
  fix k oper j and s s' :: file_writer
  show "key_in k (fw_classes s) \<Longrightarrow> \<exists>s'. file_op k oper s = Ok s'"
    by (cases oper) (auto simp: key_in_def file_append_def file_record_latency_def
        file_record_arrival_def file_record_activation_jitter_def split: prod.splits)
  show "file_op k oper s = Ok s' \<Longrightarrow> key_in j (fw_classes s) \<Longrightarrow> key_in j (fw_classes s')"
    by (cases oper) (auto simp: key_in_def file_append_def file_record_latency_def Let_def
        file_record_arrival_def file_record_activation_jitter_def split: prod.splits if_splits)
qed (auto simp: file_register_def key_in_append Let_def key_in_def new_key_in)

interpretation print_w: measurement_writer print_register print_op
  "\<lambda>k w. key_in k (pw_classes w)" "\<lambda>w. has_room (pw_classes w)"
proof unfold_locales
  fix k oper j and s s' :: print_writer
  show "key_in k (pw_classes s) \<Longrightarrow> \<exists>s'. print_op k oper s = Ok s'"
    by (cases oper) (auto simp: key_in_def print_record_latency_def print_record_arrival_def
        print_record_activation_jitter_def)
  show "print_op k oper s = Ok s' \<Longrightarrow> key_in j (pw_classes s) \<Longrightarrow> key_in j (pw_classes s')"
    by (cases oper) (auto simp: print_record_latency_def print_record_arrival_def
        print_record_activation_jitter_def split: if_splits)
qed (auto simp: print_register_def key_in_append Let_def key_in_def new_key_in)

interpretation dummy_w: measurement_writer dummy_register dummy_op "\<lambda>k w. True" "\<lambda>w. True"
  by unfold_locales (auto simp: dummy_op_def)

lemma maybe_upload_measurements [simp]: "iw_measurements (maybe_upload clk w) = iw_measurements w"
  by (simp add: maybe_upload_def Let_def)

interpretation influx_w: measurement_writer influx_register "influx_op clk"
  "\<lambda>k w. key_in k (iw_measurements w)" "\<lambda>w. has_room (iw_measurements w)"
  for clk
proof unfold_locales
  fix k oper j and s s' :: influx_writer
  show "key_in k (iw_measurements s) \<Longrightarrow> \<exists>s'. influx_op clk k oper s = Ok s'"
    by (cases oper) (auto simp: key_in_def influx_record_latency_def influx_record_arrival_def
        influx_record_activation_jitter_def)
  show "influx_op clk k oper s = Ok s' \<Longrightarrow> key_in j (iw_measurements s) \<Longrightarrow> key_in j (iw_measurements s')"
    by (cases oper) (auto simp: influx_record_latency_def influx_record_arrival_def
        influx_record_activation_jitter_def split: if_splits)
qed (auto simp: influx_register_def key_in_append Let_def key_in_def new_key_in)

section \<open>Lines and batches of the InfluxDB writer\<close>

lemma builder_unfold:
  "builder_m l n = l @ escape_spec '', '' n"
  "builder_t l k v = l @ '','' @ escape_spec '',= '' k @ ''='' @ escape_spec '',= '' v"
  "builder_t_hex l k h = l @ '','' @ escape_spec '',= '' k @ ''='' @ hex_char_array h"
  "builder_f_i d l k i = l @ [d] @ escape_spec '',= '' k @ ''='' @ show_int i @ ''i''"
  by (simp_all add: builder_m_def builder_t_def builder_t_hex_def builder_f_i_def escape_eq)

lemma hex_chars: "set (hex_char_array h) \<subseteq> set ''0123456789ABCDEF''"
proof -
  have d: "d < 16 \<Longrightarrow> to_char d \<in> set ''0123456789ABCDEF''" for d
    unfolding to_char_def by (rule nth_mem) simp
  have "set (hex_loop n h) \<subseteq> set ''0123456789ABCDEF''" for n
    by (induction n) (use d nibble_unat [of _ h] in auto)
  then show ?thesis by (simp add: hex_char_array_def)
qed

lemma show_nat_digits: "set (show_nat n) \<subseteq> set ''0123456789''"
proof -
  have "\<forall>d \<in> set [0..<10]. digit_char d \<in> set ''0123456789''" by code_simp
  then have "digit_char ` {0..<10} \<subseteq> set ''0123456789''" by auto
  then show ?thesis using show_nat_chars by blast
qed

lemma show_chars: "set (show_int i) \<subseteq> insert (CHR ''-'') (set ''0123456789'')"
proof (cases "i < 0")
  case True
  then have "set (show_int i) = insert (CHR ''-'') (set (show_nat (nat (- i))))" by (simp add: show_int_def)
  then show ?thesis using show_nat_digits [of "nat (- i)"] by blast
next
  case False
  then have "set (show_int i) = set (show_nat (nat i))" by (simp add: show_int_def)
  then show ?thesis using show_nat_digits [of "nat i"] by blast
qed

lemma plain_hex: "plain (hex_char_array h)"
  using hex_chars [of h] by (auto simp: plain_def)

lemma escape_hex: "escape_spec '',= '' (hex_char_array h) = hex_char_array h"
  using hex_chars [of h] by (intro escape_spec_id) auto

lemma plain_show: "plain (show_int i @ ''i'')"
  using show_chars [of i] by (auto simp: plain_def)

lemma escape_show: "escape_spec '',= '' (show_int i) = show_int i"
  using show_chars [of i] by (intro escape_spec_id) auto

lemma meas_eq: "meas l n = (if l = [] then [] else l @ [newline]) @ meas [] n"
  by (simp add: meas_def builder_unfold)

lemma line_append:
  "latency_line l m msg p a w = (if l = [] then [] else l @ [newline]) @ latency_line [] m msg p a w"
  "arrival_line l m msg p w = (if l = [] then [] else l @ [newline]) @ arrival_line [] m msg p w"
  "jitter_line l m j w = (if l = [] then [] else l @ [newline]) @ jitter_line [] m j w"
  by (simp_all add: latency_line_def arrival_line_def jitter_line_def Let_def builder_unfold
      builder_timestamp_def builder_ts_def meas_eq [of l])

lemma line_nonempty [simp]:
  "latency_line l m msg p a w \<noteq> []" "arrival_line l m msg p w \<noteq> []" "jitter_line l m j w \<noteq> []"
  by (simp_all add: latency_line_def arrival_line_def jitter_line_def Let_def builder_timestamp_def builder_ts_def)

text \<open>The line an operation adds, and the lines of a sequence of operations.\<close>

fun influx_lines :: "(u32 \<times> record_op) list \<Rightarrow> influx_writer \<Rightarrow> string list" where
  "influx_lines [] w = []"
| "influx_lines ((k, Use_timestamp t) # ps) w = influx_lines ps (w\<lparr>iw_timestamp := t\<rparr>)"
| "influx_lines ((k, Record_latency msg p a) # ps) w =
     latency_line [] (iw_measurements w ! unat k) msg p a w # influx_lines ps w"
| "influx_lines ((k, Record_arrival msg p) # ps) w =
     arrival_line [] (iw_measurements w ! unat k) msg p w # influx_lines ps w"
| "influx_lines ((k, Record_jitter j) # ps) w =
     jitter_line [] (iw_measurements w ! unat k) j w # influx_lines ps w"

definition newlined :: "string list \<Rightarrow> string" where
  "newlined ls = concat (map (\<lambda>l. l @ [newline]) ls)"

lemma newlined_simps [simp]:
  "newlined [] = []" "newlined (l # ls) = l @ [newline] @ newlined ls"
  "newlined (ls @ ls') = newlined ls @ newlined ls'"
  by (simp_all add: newlined_def)

definition posted :: "influx_writer \<Rightarrow> string list" where
  "posted w = map snd (iw_posts w)"

definition written :: "influx_writer \<Rightarrow> string" where
  "written w = newlined (posted w) @ (if iw_builder w = [] then [] else newlined [iw_builder w])"

lemma maybe_upload_written:
  assumes "iw_builder w \<noteq> []"
  shows "written (maybe_upload clk w) = written w"
  using assms by (simp add: maybe_upload_def Let_def written_def posted_def builder_clear_def)

text \<open>What the lines depend on.\<close>

definition same_host :: "influx_writer \<Rightarrow> influx_writer \<Rightarrow> bool" where
  "same_host v w \<longleftrightarrow> iw_timestamp v = iw_timestamp w \<and> iw_topic v = iw_topic w \<and>
     iw_host v = iw_host w \<and> iw_measurements v = iw_measurements w"

lemma maybe_upload_same_host: "same_host (maybe_upload clk (w\<lparr>iw_builder := b\<rparr>)) w"
  by (simp add: same_host_def maybe_upload_def Let_def)

lemma line_cong:
  assumes "same_host v w"
  shows "latency_line l m msg p a v = latency_line l m msg p a w"
    "arrival_line l m msg p v = arrival_line l m msg p w" "jitter_line l m j v = jitter_line l m j w"
    "iw_measurements v = iw_measurements w"
    "same_host (v\<lparr>iw_timestamp := t\<rparr>) (w\<lparr>iw_timestamp := t\<rparr>)"
  using assms by (simp_all add: same_host_def latency_line_def arrival_line_def jitter_line_def)

lemma influx_lines_cong: "same_host v w \<Longrightarrow> influx_lines ps v = influx_lines ps w"
proof (induction ps arbitrary: v w)
  case (Cons p ps)
  obtain k oper where p: "p = (k, oper)" by (cases p)
  note IH = Cons.IH [OF Cons.prems] Cons.IH [OF line_cong(5) [OF Cons.prems]]
  show ?case unfolding p by (cases oper) (simp_all only: influx_lines.simps IH line_cong [OF Cons.prems])
qed simp

lemma written_add:
  assumes "l \<noteq> []" and "b = (if iw_builder w = [] then [] else iw_builder w @ [newline]) @ l"
  shows "written (maybe_upload clk (w\<lparr>iw_builder := b\<rparr>)) = written w @ newlined [l]"
  using assms by (subst maybe_upload_written) (simp_all add: written_def posted_def)

lemmas line_written = written_add [OF line_nonempty(1) line_append(1)]
  written_add [OF line_nonempty(2) line_append(2)] written_add [OF line_nonempty(3) line_append(3)]

lemma influx_op_written:
  assumes "influx_op clk k oper w = Ok w'"
  shows "written w' = written w @ newlined (influx_lines [(k, oper)] w)"
proof (cases oper)
  case (Use_timestamp t)
  then show ?thesis using assms by (auto simp: written_def posted_def)
qed (use assms in \<open>auto simp: influx_record_latency_def influx_record_arrival_def
    influx_record_activation_jitter_def line_written split: if_splits\<close>)

lemma influx_op_same_host:
  assumes "influx_op clk k oper w = Ok w'"
  shows "influx_lines ((k, oper) # ps) w = influx_lines [(k, oper)] w @ influx_lines ps w'"
  using assms
proof (cases oper)
  case (Use_timestamp t)
  then show ?thesis using assms by auto
qed (auto simp: influx_record_latency_def influx_record_arrival_def influx_record_activation_jitter_def
    influx_lines_cong [OF maybe_upload_same_host] split: if_splits)

lemma run_written:
  "influx_w.run_ops clk ps w = Ok w' \<Longrightarrow> written w' = written w @ newlined (influx_lines ps w)"
proof (induction ps arbitrary: w)
  case (Cons p ps)
  obtain k oper where p: "p = (k, oper)" by (cases p)
  from Cons.prems obtain w1 where w1: "influx_op clk k oper w = Ok w1" "influx_w.run_ops clk ps w1 = Ok w'"
    by (auto simp: p res_simps)
  show ?case
    using Cons.IH [OF w1(2)] influx_op_written [OF w1(1)] influx_op_same_host [OF w1(1), of ps]
    by (simp add: p)
qed simp

text \<open>The batching invariant: the buffer respects the size constraint, which is 0 until the
  first upload and 64000 afterwards, and no steady-state upload awaits its answer.\<close>

definition batch_inv :: "influx_writer \<Rightarrow> bool" where
  "batch_inv w \<longleftrightarrow>
     int (getBufferSize (iw_builder w)) \<le> sizeConstraintBytes (iw_heuristic w) \<and>
     sizeConstraintBytes (iw_heuristic w) = (if iw_posts w = [] then 0 else 64000) \<and>
     \<not> si_await_post_response (iw_server w) \<and> (\<forall>p \<in> set (iw_posts w). \<not> fst p)"

lemma batch_inv_init: "batch_inv (connected_writer clk h)"
  by (simp add: batch_inv_def connected_writer_def getBufferSize_def server_info_init_def
      set_last_upload_time_def InfluxDBUploadHeuristic_def)

lemma batch_inv_register: "batch_inv w \<Longrightarrow> batch_inv (snd (influx_register name cols w))"
  by (simp add: batch_inv_def influx_register_def Let_def)

lemma batch_inv_upload:
  "batch_inv w \<Longrightarrow> batch_inv (maybe_upload clk (w\<lparr>iw_builder := b\<rparr>))"
  by (auto simp: batch_inv_def maybe_upload_def Let_def updateHeuristic_def builder_clear_def
      getBufferSize_def set_last_upload_time_def should_upload_def split: if_splits)

lemma batch_inv_timestamp: "batch_inv w \<Longrightarrow> batch_inv (w\<lparr>iw_timestamp := t\<rparr>)"
  by (simp add: batch_inv_def)

lemma batch_inv_op: "influx_op clk k oper w = Ok w' \<Longrightarrow> batch_inv w \<Longrightarrow> batch_inv w'"
  by (cases oper) (auto simp: influx_record_latency_def influx_record_arrival_def
      influx_record_activation_jitter_def batch_inv_upload batch_inv_timestamp split: if_splits)

lemma batch_inv_run: "influx_w.run_ops clk ps w = Ok w' \<Longrightarrow> batch_inv w \<Longrightarrow> batch_inv w'"
  by (induction ps arbitrary: w) (auto simp: res_simps dest: batch_inv_op)

section \<open>Reading the lines back\<close>

lemma plain_keys:
  "plain ''publisher''" "plain ''topic''" "plain ''node_full_name''" "plain ''timer''" "plain ''sent_time''"
  "plain ''arrive_time''" "plain ''msg_id''" "plain ''activation_jitter''"
  by (simp_all add: plain_def)

text \<open>
  The line written for a latency measurement reads back, under the rules of the line
  protocol, as the measurement, the publisher, topic and node tags, the two times and the
  message id, and the timestamp, when no name holds a backslash (no ROS name does).
\<close>

lemma latency_line_parse:
  assumes "plain m" and "plain (iw_topic w)" and "plain (iw_host w)" and "in_i64 (iw_timestamp w)"
  shows "parse_line (latency_line [] m msg publisher arrival w) =
    (m,
     [(''publisher'', hex_char_array publisher), (''topic'', iw_topic w), (''node_full_name'', iw_host w)],
     [(''sent_time'', show_int (vandenhoven_timestamp msg) @ ''i''), (''arrive_time'', show_int arrival @ ''i''),
      (''msg_id'', show_int (vandenhoven_identifier msg) @ ''i'')],
     iw_timestamp w)"
proof -
  let ?tags = "[(''publisher'', hex_char_array publisher), (''topic'', iw_topic w), (''node_full_name'', iw_host w)]"
  let ?flds = "[(''sent_time'', show_int (vandenhoven_timestamp msg) @ ''i''), (''arrive_time'', show_int arrival @ ''i''),
      (''msg_id'', show_int (vandenhoven_identifier msg) @ ''i'')]"
  have "latency_line [] m msg publisher arrival w = line_text m ?tags ?flds (iw_timestamp w)"
    using assms(4)
    by (simp add: latency_line_def line_text_def builder_unfold meas_def builder_timestamp_def builder_ts_def
        i64_u64_roundtrip escape_hex escape_show)
  moreover have "\<forall>(k, v) \<in> set ?tags. plain k \<and> plain v" and "\<forall>(k, v) \<in> set ?flds. plain k \<and> plain v"
    using assms by (simp_all add: plain_hex plain_show plain_keys)
  ultimately show ?thesis using assms(1) parse_line_text by simp
qed

lemma arrival_line_parse:
  assumes "plain m" and "plain (iw_topic w)" and "plain (iw_host w)" and "in_i64 (iw_timestamp w)"
  shows "parse_line (arrival_line [] m msg publisher w) =
    (m,
     [(''publisher'', hex_char_array publisher), (''topic'', iw_topic w), (''node_full_name'', iw_host w)],
     [(''msg_id'', show_int (vandenhoven_identifier msg) @ ''i'')],
     iw_timestamp w)"
proof -
  let ?tags = "[(''publisher'', hex_char_array publisher), (''topic'', iw_topic w), (''node_full_name'', iw_host w)]"
  let ?flds = "[(''msg_id'', show_int (vandenhoven_identifier msg) @ ''i'')]"
  have "arrival_line [] m msg publisher w = line_text m ?tags ?flds (iw_timestamp w)"
    using assms(4)
    by (simp add: arrival_line_def line_text_def builder_unfold meas_def builder_timestamp_def builder_ts_def
        i64_u64_roundtrip escape_hex escape_show)
  moreover have "\<forall>(k, v) \<in> set ?tags. plain k \<and> plain v" and "\<forall>(k, v) \<in> set ?flds. plain k \<and> plain v"
    using assms by (simp_all add: plain_hex plain_show plain_keys)
  ultimately show ?thesis using assms(1) parse_line_text by simp
qed

lemma jitter_line_parse:
  assumes "plain m" and "plain (iw_host w)" and "in_i64 (iw_timestamp w)"
  shows "parse_line (jitter_line [] m j w) =
    (m, [(''timer'', iw_host w)], [(''activation_jitter'', show_int j @ ''i'')], iw_timestamp w)"
proof -
  let ?tags = "[(''timer'', iw_host w)]" and ?flds = "[(''activation_jitter'', show_int j @ ''i'')]"
  have "jitter_line [] m j w = line_text m ?tags ?flds (iw_timestamp w)"
    using assms(3)
    by (simp add: jitter_line_def line_text_def builder_unfold meas_def builder_timestamp_def builder_ts_def
        i64_u64_roundtrip escape_show)
  moreover have "\<forall>(k, v) \<in> set ?tags. plain k \<and> plain v" and "\<forall>(k, v) \<in> set ?flds. plain k \<and> plain v"
    using assms by (simp_all add: plain_show plain_keys)
  ultimately show ?thesis using assms(1) parse_line_text by simp
qed

section \<open>Properties\<close>

text \<open>
  C3. Batching neither loses, duplicates nor reorders a measurement: after any sequence of
  writer calls, the batches posted so far followed by the pending buffer are exactly the
  line-protocol lines of the calls in order, and once the destructor has run everything is
  in the posted batches.
\<close>

theorem influx_batching_conserves:
  assumes "influx_w.run_ops clk ps w = Ok w'"
  shows "written w' = written w @ newlined (influx_lines ps w) \<and>
         newlined (posted (influx_destroy w')) = written w @ newlined (influx_lines ps w)"
proof -
  have "newlined (posted (influx_destroy w')) = written w'"
    by (auto simp: influx_destroy_def written_def posted_def getBufferSize_def Let_def)
  then show ?thesis using run_written [OF assms] by simp
qed

definition demo_host :: MessageTrackerHostInfo where
  "demo_host = \<lparr>topic_name = ''/chatter'', node_name = ''talker'', node_namespace = ''/''\<rparr>"

definition demo_msg :: MessageTrackingVariables where
  "demo_msg = \<lparr>vandenhoven_timestamp = 5, vandenhoven_identifier = 1, vandenhoven_publisher_hash = 7\<rparr>"

definition demo_clock :: "nat \<Rightarrow> int" where "demo_clock k = int k"

definition demo_writer :: influx_writer where
  "demo_writer = snd (influx_register ''message_latency'' [] (connected_writer demo_clock demo_host))"

definition demo_ops :: "(u32 \<times> record_op) list" where
  "demo_ops = [(0, Record_latency demo_msg 7 9), (0, Use_timestamp 3), (0, Record_arrival demo_msg 7)]"

lemma demo_run: "\<exists>w'. influx_w.run_ops demo_clock demo_ops demo_writer = Ok w'"
  by (rule influx_w.run_ops_defined)
    (simp add: demo_ops_def demo_writer_def influx_register_def Let_def key_in_def)

theorem influx_batching_conserves_witness:
  "\<exists>w'. influx_w.run_ops demo_clock demo_ops demo_writer = Ok w' \<and>
     written w' = written demo_writer @ newlined (influx_lines demo_ops demo_writer) \<and>
     newlined (posted (influx_destroy w')) = written demo_writer @ newlined (influx_lines demo_ops demo_writer)"
  using demo_run influx_batching_conserves by blast

text \<open>
  From construction on, whatever is recorded, the pending buffer stays within 64000
  bytes between calls; it is empty until the first batch has been posted (the very first
  measurement is uploaded at once), and no such upload waits for an HTTP answer.
\<close>

theorem influx_buffer_bounded:
  assumes "influx_w.run_ops clk ps (snd (influx_register n2 c2 (snd (influx_register n1 c1
      (connected_writer clk0 h))))) = Ok w"
  shows "getBufferSize (iw_builder w) \<le> 64000 \<and> (iw_posts w = [] \<longrightarrow> iw_builder w = []) \<and>
         (\<forall>p \<in> set (iw_posts w). \<not> fst p)"
proof -
  have "batch_inv w"
    using batch_inv_run [OF assms] batch_inv_register batch_inv_init by blast
  then show ?thesis by (auto simp: batch_inv_def getBufferSize_def split: if_splits)
qed

theorem influx_buffer_bounded_witness:
  "\<exists>w. influx_w.run_ops demo_clock demo_ops (snd (influx_register ''b'' [] (snd (influx_register ''a'' []
      (connected_writer demo_clock demo_host))))) = Ok w \<and>
   getBufferSize (iw_builder w) \<le> 64000 \<and> (iw_posts w = [] \<longrightarrow> iw_builder w = []) \<and>
   (\<forall>p \<in> set (iw_posts w). \<not> fst p)"
proof -
  let ?w = "snd (influx_register ''b'' [] (snd (influx_register ''a'' [] (connected_writer demo_clock demo_host))))"
  have "\<exists>w. influx_w.run_ops demo_clock demo_ops ?w = Ok w"
    by (rule influx_w.run_ops_defined)
      (simp add: demo_ops_def influx_register_def Let_def key_in_def)
  then show ?thesis using influx_buffer_bounded by blast
qed

end
