(* ===== verification/Trackers.thy ===== *)
theory Trackers
  imports Writers
begin

text \<open>
  The message and jitter trackers (\<open>rclcpp/src/rclcpp/measuring/*_tracker.cpp\<close>) and the
  factories that build them. A writer held through the interface pointer is a value of the
  datatype \<open>writer\<close>, and a virtual call is a case distinction on it. The steady and the
  system clock are arguments of the calls that read them.
\<close>

section \<open>A writer behind the interface pointer\<close>

datatype writer =
    W_influx influx_writer
  | W_file file_writer
  | W_print print_writer
  | W_dummy

fun writer_register :: "string \<Rightarrow> string list \<Rightarrow> writer \<Rightarrow> u32 \<times> writer" where
  "writer_register n c (W_influx w) = map_prod id W_influx (influx_register n c w)"
| "writer_register n c (W_file w) = map_prod id W_file (file_register n c w)"
| "writer_register n c (W_print w) = map_prod id W_print (print_register n c w)"
| "writer_register n c W_dummy = map_prod id (\<lambda>_. W_dummy) (dummy_register n c ())"

fun writer_op :: "(nat \<Rightarrow> int) \<Rightarrow> u32 \<Rightarrow> record_op \<Rightarrow> writer \<Rightarrow> writer res" where
  "writer_op clk k oper (W_influx w) = map_sum id W_influx (influx_op clk k oper w)"
| "writer_op clk k oper (W_file w) = map_sum id W_file (file_op k oper w)"
| "writer_op clk k oper (W_print w) = map_sum id W_print (print_op k oper w)"
| "writer_op clk k oper W_dummy = map_sum id (\<lambda>_. W_dummy) (dummy_op k oper ())"

fun writer_valid :: "u32 \<Rightarrow> writer \<Rightarrow> bool" where
  "writer_valid k (W_influx w) = key_in k (iw_measurements w)"
| "writer_valid k (W_file w) = key_in k (fw_classes w)"
| "writer_valid k (W_print w) = key_in k (pw_classes w)"
| "writer_valid k W_dummy = True"

fun writer_room :: "writer \<Rightarrow> bool" where
  "writer_room (W_influx w) = has_room (iw_measurements w)"
| "writer_room (W_file w) = has_room (fw_classes w)"
| "writer_room (W_print w) = has_room (pw_classes w)"
| "writer_room W_dummy = True"

lemma map_sum_ok: "\<exists>y. r = Ok y \<Longrightarrow> \<exists>y. map_sum id f r = Ok y"
  by auto

interpretation any_w: measurement_writer writer_register "writer_op clk" writer_valid writer_room
  for clk
proof unfold_locales
  fix name cols k oper j and s s' :: writer
  show "writer_room s \<Longrightarrow> writer_valid (fst (writer_register name cols s)) (snd (writer_register name cols s))"
    by (cases s) (simp_all add: influx_w.register_valid file_w.register_valid print_w.register_valid)
  show "writer_valid k s \<Longrightarrow> writer_valid k (snd (writer_register name cols s))"
    by (cases s) (simp_all add: influx_w.register_keeps file_w.register_keeps print_w.register_keeps)
  show "writer_valid k s \<Longrightarrow> \<exists>s'. writer_op clk k oper s = Ok s'"
    by (cases s) (auto intro!: map_sum_ok influx_w.op_defined file_w.op_defined print_w.op_defined
        simp: dummy_op_def)
  show "writer_op clk k oper s = Ok s' \<Longrightarrow> writer_valid j s \<Longrightarrow> writer_valid j s'"
    by (cases s) (auto simp: map_sum_def split: sum.splits
        dest: influx_w.op_keeps file_w.op_keeps print_w.op_keeps)
qed

section \<open>Message trackers\<close>

record publisher_tracker =
  pt_writer :: writer
  current_msg_id :: int
  host_hash :: u32

definition PublisherMessageTracker :: "writer \<Rightarrow> u32 \<Rightarrow> publisher_tracker" where
  "PublisherMessageTracker w h = \<lparr>pt_writer = w, current_msg_id = 1, host_hash = h\<rparr>"

text \<open>Assigning the \<open>uint32_t\<close> hash to the \<open>int32_t\<close> message member, and reading it back.\<close>

definition i32_of_u32 :: "u32 \<Rightarrow> int" where "i32_of_u32 h = to_i32 (uint h)"
definition u32_of_i32 :: "int \<Rightarrow> u32" where "u32_of_i32 i = of_int i"

definition publisher_track_message :: "int \<Rightarrow> MessageTrackingVariables \<Rightarrow> publisher_tracker
    \<Rightarrow> (MessageTrackingVariables \<times> publisher_tracker) res" where
  "publisher_track_message monotonic msg t =
     (let m1 = msg\<lparr>vandenhoven_timestamp := monotonic\<rparr>;
          m2 = m1\<lparr>vandenhoven_identifier := current_msg_id t\<rparr>
      in bindR (i64_add (current_msg_id t) 1) (\<lambda>next_id.
         Ok (m2\<lparr>vandenhoven_publisher_hash := i32_of_u32 (host_hash t)\<rparr>, t\<lparr>current_msg_id := next_id\<rparr>)))"

definition tracing_track_message :: "int \<Rightarrow> MessageTrackingVariables \<Rightarrow> publisher_tracker
    \<Rightarrow> (MessageTrackingVariables \<times> publisher_tracker) res" where
  "tracing_track_message monotonic msg t =
     (let m1 = msg\<lparr>vandenhoven_timestamp := monotonic\<rparr>
      in bindR (if vandenhoven_identifier m1 = 0
                then bindR (i64_add (current_msg_id t) 1) (\<lambda>next_id.
                  Ok (m1\<lparr>vandenhoven_identifier := current_msg_id t\<rparr>, t\<lparr>current_msg_id := next_id\<rparr>))
                else Ok (m1, t)) (\<lambda>(m2, t').
         Ok (m2\<lparr>vandenhoven_publisher_hash := i32_of_u32 (host_hash t')\<rparr>, t')))"

record subscriber_tracker =
  st_writer :: writer
  latencyKey :: u32
  arrivalKey :: u32

definition SubscriberMessageTracker :: "writer \<Rightarrow> subscriber_tracker" where
  "SubscriberMessageTracker w =
     (let (lk, w1) = writer_register ''message_latency'' [''publisher_hash'', ''send_time'', ''receive_time''] w;
          (ak, w2) = writer_register ''message_arrival'' [''publisher_hash'', ''msg_id''] w1
      in \<lparr>st_writer = w2, latencyKey = lk, arrivalKey = ak\<rparr>)"

definition subscriber_track_message :: "(nat \<Rightarrow> int) \<Rightarrow> int \<Rightarrow> int \<Rightarrow> MessageTrackingVariables
    \<Rightarrow> subscriber_tracker \<Rightarrow> subscriber_tracker res" where
  "subscriber_track_message clk monotonic unix msg t =
     (let hexString = u32_of_i32 (vandenhoven_publisher_hash msg)
      in bindR (writer_op clk 0 (Use_timestamp unix) (st_writer t)) (\<lambda>w1.
         bindR (writer_op clk (latencyKey t) (Record_latency msg hexString monotonic) w1) (\<lambda>w2.
         bindR (writer_op clk (arrivalKey t) (Record_arrival msg hexString) w2) (\<lambda>w3.
         Ok (t\<lparr>st_writer := w3\<rparr>)))))"

datatype tracker =
    T_subscriber subscriber_tracker
  | T_publisher publisher_tracker
  | T_tracing publisher_tracker
  | T_dummy writer

fun track_message :: "(nat \<Rightarrow> int) \<Rightarrow> int \<Rightarrow> int \<Rightarrow> MessageTrackingVariables \<Rightarrow> tracker
    \<Rightarrow> (MessageTrackingVariables \<times> tracker) res" where
  "track_message clk monotonic unix msg (T_subscriber t) =
     bindR (subscriber_track_message clk monotonic unix msg t) (\<lambda>t'. Ok (msg, T_subscriber t'))"
| "track_message clk monotonic unix msg (T_publisher t) =
     bindR (publisher_track_message monotonic msg t) (\<lambda>(m, t'). Ok (m, T_publisher t'))"
| "track_message clk monotonic unix msg (T_tracing t) =
     bindR (tracing_track_message monotonic msg t) (\<lambda>(m, t'). Ok (m, T_tracing t'))"
| "track_message clk monotonic unix msg (T_dummy w) = Ok (msg, T_dummy w)"

text \<open>The member template: only a message whose layout starts with the hidden variables is
  cast and tracked, every other one is left alone.\<close>

definition track_message_any :: "layout \<Rightarrow> (nat \<Rightarrow> int) \<Rightarrow> int \<Rightarrow> int \<Rightarrow> MessageTrackingVariables \<Rightarrow> tracker
    \<Rightarrow> (MessageTrackingVariables \<times> tracker) res" where
  "track_message_any U clk monotonic unix msg t =
     (if HasRequiredFields U then track_message clk monotonic unix msg t else Ok (msg, t))"

section \<open>Factories\<close>

definition create_result_writer :: "connection \<Rightarrow> (nat \<Rightarrow> int) \<Rightarrow> MeasurementWriterEnum \<Rightarrow> MessageTrackerHostInfo \<Rightarrow> writer res" where
  "create_result_writer conn clk mwe h =
     (case mwe of
        MWE_INFLUXDB \<Rightarrow> map_sum id W_influx (InfluxDBMeasurementWriter conn clk h)
      | MWE_FILE \<Rightarrow> map_sum id W_file (FileMeasurementWriter h)
      | MWE_PRINT \<Rightarrow> Ok (W_print PrintMeasurementWriter)
      | MWE_NONE \<Rightarrow> Ok W_dummy)"

definition create_message_tracker :: "connection \<Rightarrow> (nat \<Rightarrow> int) \<Rightarrow> MessageTrackerEnum \<Rightarrow> MeasurementWriterEnum
    \<Rightarrow> MessageTrackerHostInfo \<Rightarrow> tracker res" where
  "create_message_tracker conn clk mte mwe h =
     bindR (create_result_writer conn clk mwe h) (\<lambda>w.
       Ok (case mte of
             MTE_SUBSCRIBER \<Rightarrow> T_subscriber (SubscriberMessageTracker w)
           | MTE_PUBLISHER \<Rightarrow> T_publisher (PublisherMessageTracker w (hash_full_node_name h))
           | MTE_TRACING_PUBLISHER \<Rightarrow> T_tracing (PublisherMessageTracker w (hash_full_node_name h))
           | MTE_NONE \<Rightarrow> T_dummy w))"

section \<open>Jitter trackers\<close>

datatype JitterTrackerEnum = JTE_ACTIVATION_JITTER | JTE_NONE

record jitter_tracker =
  jt_writer :: writer
  activation_jitter_key :: u32

datatype any_jitter_tracker = J_activation jitter_tracker | J_dummy writer

definition ActivationJitterTracker :: "writer \<Rightarrow> jitter_tracker" where
  "ActivationJitterTracker w =
     (let (k, w1) = writer_register ''timer_activation_jitter'' [''activation_jitter''] w
      in \<lparr>jt_writer = w1, activation_jitter_key = k\<rparr>)"

definition activation_track_jitter :: "(nat \<Rightarrow> int) \<Rightarrow> int \<Rightarrow> int \<Rightarrow> int \<Rightarrow> jitter_tracker \<Rightarrow> jitter_tracker res" where
  "activation_track_jitter clk now unix intended_activation_time t =
     bindR (i64_sub now intended_activation_time) (\<lambda>activation_jitter.
     bindR (writer_op clk 0 (Use_timestamp unix) (jt_writer t)) (\<lambda>w1.
     bindR (writer_op clk (activation_jitter_key t) (Record_jitter activation_jitter) w1) (\<lambda>w2.
     Ok (t\<lparr>jt_writer := w2\<rparr>))))"

fun track_jitter :: "(nat \<Rightarrow> int) \<Rightarrow> int \<Rightarrow> int \<Rightarrow> int \<Rightarrow> int \<Rightarrow> any_jitter_tracker \<Rightarrow> any_jitter_tracker res" where
  "track_jitter clk now unix since_last intended (J_activation t) =
     map_sum id J_activation (activation_track_jitter clk now unix intended t)"
| "track_jitter clk now unix since_last intended (J_dummy w) = Ok (J_dummy w)"

text \<open>The timer's name is read from its second character on: an empty name is read past its
  terminator.\<close>

definition jitter_result_writer :: "connection \<Rightarrow> (nat \<Rightarrow> int) \<Rightarrow> MeasurementWriterEnum \<Rightarrow> string \<Rightarrow> writer res" where
  "jitter_result_writer conn clk mwe timer_name =
     (if timer_name = [] then Err (Undefined_behaviour ''read past the end of timer_name'')
      else create_result_writer conn clk mwe
             \<lparr>topic_name = ''__rclcpp_timer_activation_jitter'', node_name = tl timer_name, node_namespace = ''/''\<rparr>)"

definition create_jitter_tracker :: "connection \<Rightarrow> (nat \<Rightarrow> int) \<Rightarrow> JitterTrackerEnum \<Rightarrow> MeasurementWriterEnum \<Rightarrow> string
    \<Rightarrow> any_jitter_tracker res" where
  "create_jitter_tracker conn clk jte mwe timer_name =
     bindR (jitter_result_writer conn clk mwe timer_name) (\<lambda>w.
       Ok (case jte of JTE_ACTIVATION_JITTER \<Rightarrow> J_activation (ActivationJitterTracker w)
                     | JTE_NONE \<Rightarrow> J_dummy w))"

section \<open>Identifiers\<close>

text \<open>Track a sequence of messages, each with the clock reading of its call.\<close>

fun track_all :: "(int \<Rightarrow> MessageTrackingVariables \<Rightarrow> 't \<Rightarrow> (MessageTrackingVariables \<times> 't) res)
    \<Rightarrow> (int \<times> MessageTrackingVariables) list \<Rightarrow> 't \<Rightarrow> (MessageTrackingVariables list \<times> 't) res" where
  "track_all f [] t = Ok ([], t)"
| "track_all f ((now, msg) # ms) t =
     bindR (f now msg t) (\<lambda>(m, t1). bindR (track_all f ms t1) (\<lambda>(out, t2). Ok (m # out, t2)))"

lemma i64_add_one: "1 \<le> i \<Longrightarrow> i < INT64_MAX \<Longrightarrow> i64_add i 1 = Ok (i + 1)"
  by (simp add: i64_add_def i64_result_def in_i64_def)

definition stamped :: "u32 \<Rightarrow> (int \<times> MessageTrackingVariables) list \<Rightarrow> MessageTrackingVariables list \<Rightarrow> bool" where
  "stamped h ms out \<longleftrightarrow> map vandenhoven_timestamp out = map fst ms \<and>
     (\<forall>m \<in> set out. vandenhoven_publisher_hash m = i32_of_u32 h)"

lemma publisher_track_all:
  assumes "1 \<le> current_msg_id t" and "current_msg_id t + int (length ms) \<le> INT64_MAX"
  shows "\<exists>out t'. track_all publisher_track_message ms t = Ok (out, t') \<and>
     map vandenhoven_identifier out = [current_msg_id t..current_msg_id t + int (length ms) - 1] \<and>
     stamped (host_hash t) ms out"
  using assms
proof (induction ms arbitrary: t)
  case (Cons p ms)
  obtain now msg where p: "p = (now, msg)" by (cases p)
  let ?t = "t\<lparr>current_msg_id := current_msg_id t + 1\<rparr>"
  let ?m = "msg\<lparr>vandenhoven_timestamp := now, vandenhoven_identifier := current_msg_id t,
    vandenhoven_publisher_hash := i32_of_u32 (host_hash t)\<rparr>"
  have step: "publisher_track_message now msg t = Ok (?m, ?t)"
    using Cons.prems by (simp add: publisher_track_message_def i64_add_one)
  obtain out t' where IH: "track_all publisher_track_message ms ?t = Ok (out, t')"
      "map vandenhoven_identifier out = [current_msg_id t + 1..current_msg_id t + int (length ms)]"
      "stamped (host_hash t) ms out"
    using Cons.IH [of ?t] Cons.prems by auto
  have "[current_msg_id t..current_msg_id t + int (length (p # ms)) - 1]
      = current_msg_id t # [current_msg_id t + 1..current_msg_id t + int (length ms)]"
    by (subst upto.simps) simp
  with step IH show ?case by (simp add: p stamped_def)
qed (simp add: stamped_def)

text \<open>The ids a tracing publisher gives: fresh ones, from \<open>i\<close> on, to the messages without one.\<close>

fun traced_ids :: "int \<Rightarrow> int list \<Rightarrow> int list" where
  "traced_ids i [] = []"
| "traced_ids i (x # xs) = (if x = 0 then i # traced_ids (i + 1) xs else x # traced_ids i xs)"

lemma tracing_track_all:
  assumes "1 \<le> current_msg_id t" and "current_msg_id t + int (length ms) \<le> INT64_MAX"
  shows "\<exists>out t'. track_all tracing_track_message ms t = Ok (out, t') \<and>
     map vandenhoven_identifier out = traced_ids (current_msg_id t) (map (\<lambda>p. vandenhoven_identifier (snd p)) ms) \<and>
     stamped (host_hash t) ms out"
  using assms
proof (induction ms arbitrary: t)
  case (Cons p ms)
  obtain now msg where p: "p = (now, msg)" by (cases p)
  let ?fresh = "vandenhoven_identifier msg = 0"
  let ?t = "if ?fresh then t\<lparr>current_msg_id := current_msg_id t + 1\<rparr> else t"
  let ?m = "msg\<lparr>vandenhoven_timestamp := now,
    vandenhoven_identifier := if ?fresh then current_msg_id t else vandenhoven_identifier msg,
    vandenhoven_publisher_hash := i32_of_u32 (host_hash t)\<rparr>"
  have step: "tracing_track_message now msg t = Ok (?m, ?t)"
    using Cons.prems by (simp add: tracing_track_message_def i64_add_one)
  have pre: "1 \<le> current_msg_id ?t" "current_msg_id ?t + int (length ms) \<le> INT64_MAX"
    and host: "host_hash ?t = host_hash t" using Cons.prems by simp_all
  obtain out t' where IH: "track_all tracing_track_message ms ?t = Ok (out, t')"
      "map vandenhoven_identifier out = traced_ids (current_msg_id ?t) (map (\<lambda>p. vandenhoven_identifier (snd p)) ms)"
      "stamped (host_hash t) ms out"
    using Cons.IH [OF pre] unfolding host by blast
  with step show ?case by (auto simp: p stamped_def)
qed (simp add: stamped_def)

lemma traced_ids_nonzero: "1 \<le> i \<Longrightarrow> 0 \<notin> set (traced_ids i xs)"
  by (induction xs arbitrary: i) auto

lemma traced_ids_zeros: "traced_ids i (replicate n 0) = [i..i + int n - 1]"
proof (induction n arbitrary: i)
  case (Suc n)
  have "[i..i + int (Suc n) - 1] = i # [i + 1..i + int n]" by (subst upto.simps) simp
  then show ?case using Suc [of "i + 1"] by simp
qed simp

lemma traced_ids_idem: "0 \<notin> set xs \<Longrightarrow> traced_ids i xs = xs"
  by (induction xs) auto

section \<open>The publisher's name\<close>

lemma hash_through_message: "u32_of_i32 (i32_of_u32 h) = h"
proof -
  have "to_i32 (uint h) = uint h - (if uint h < 2147483648 then 0 else 4294967296)"
  proof -
    have u: "0 \<le> uint h" "uint h < 4294967296" using uint_range_size [of h] by (simp_all add: word_size)
    show ?thesis
    proof (cases "uint h < 2147483648")
      case False
      have "uint h + 2147483648 = 4294967296 * 1 + (uint h - 2147483648)" by simp
      from int_mod_pos_eq [OF this] show ?thesis using u False by (simp add: to_i32_def)
    qed (use u in \<open>simp add: to_i32_def\<close>)
  qed
  moreover have "(of_int 4294967296 :: u32) = 0" by simp
  ultimately show ?thesis by (simp add: u32_of_i32_def i32_of_u32_def)
qed

section \<open>Trackers never misuse their writer\<close>

definition subscriber_ok :: "subscriber_tracker \<Rightarrow> bool" where
  "subscriber_ok t \<longleftrightarrow> writer_valid (latencyKey t) (st_writer t) \<and> writer_valid (arrivalKey t) (st_writer t)"

lemma use_timestamp_ok: "\<exists>w'. writer_op clk k (Use_timestamp u) w = Ok w'"
  by (cases w) (simp_all add: dummy_op_def)

lemma subscriber_track_ok:
  assumes "subscriber_ok t"
  shows "\<exists>t'. subscriber_track_message clk now unix msg t = Ok t' \<and> subscriber_ok t'"
proof -
  let ?h = "u32_of_i32 (vandenhoven_publisher_hash msg)"
  obtain w1 where w1: "writer_op clk 0 (Use_timestamp unix) (st_writer t) = Ok w1"
    using use_timestamp_ok by blast
  have v1: "writer_valid (latencyKey t) w1" "writer_valid (arrivalKey t) w1"
    using assms any_w.op_keeps [OF w1] by (auto simp: subscriber_ok_def)
  obtain w2 where w2: "writer_op clk (latencyKey t) (Record_latency msg ?h now) w1 = Ok w2"
    using any_w.op_defined [OF v1(1)] by blast
  have v2: "writer_valid (latencyKey t) w2" "writer_valid (arrivalKey t) w2"
    using v1 any_w.op_keeps [OF w2] by auto
  obtain w3 where w3: "writer_op clk (arrivalKey t) (Record_arrival msg ?h) w2 = Ok w3"
    using any_w.op_defined [OF v2(2)] by blast
  then show ?thesis
    using w1 w2 v2 any_w.op_keeps [OF w3]
    by (simp add: subscriber_track_message_def subscriber_ok_def)
qed

lemma fresh_writer_room:
  "create_result_writer conn clk mwe h = Ok w \<Longrightarrow> writer_room w \<and> writer_room (snd (writer_register n c w))"
  by (cases mwe; cases conn) (auto simp: influx_socket_def create_result_writer_def InfluxDBMeasurementWriter_def connected_writer_def has_room_def res_simps
      PrintMeasurementWriter_def FileMeasurementWriter_def influx_register_def file_register_def
      print_register_def Let_def split: if_splits)

lemma SubscriberMessageTracker_ok:
  assumes "create_result_writer conn clk mwe h = Ok w"
  shows "subscriber_ok (SubscriberMessageTracker w)"
proof -
  let ?c1 = "[''publisher_hash'', ''send_time'', ''receive_time'']" let ?c2 = "[''publisher_hash'', ''msg_id'']"
  obtain lk w1 where r1: "writer_register ''message_latency'' ?c1 w = (lk, w1)" by force
  obtain ak w2 where r2: "writer_register ''message_arrival'' ?c2 w1 = (ak, w2)" by force
  have "writer_valid lk w1" and "writer_room w1"
    using any_w.register_valid [of w "''message_latency''" ?c1] fresh_writer_room [OF assms] r1
    by (force, metis snd_conv)
  then have "writer_valid lk w2" "writer_valid ak w2"
    using any_w.register_keeps [of lk w1 "''message_arrival''" ?c2]
      any_w.register_valid [of w1 "''message_arrival''" ?c2] r2 by simp_all
  then show ?thesis by (simp add: SubscriberMessageTracker_def r1 r2 subscriber_ok_def)
qed

fun track_sequence :: "(nat \<Rightarrow> int) \<Rightarrow> (int \<times> int \<times> MessageTrackingVariables) list \<Rightarrow> tracker \<Rightarrow> tracker res" where
  "track_sequence clk [] t = Ok t"
| "track_sequence clk ((now, unix, msg) # ms) t =
     bindR (track_message clk now unix msg t) (\<lambda>(_, t'). track_sequence clk ms t')"

fun tracker_ok :: "nat \<Rightarrow> tracker \<Rightarrow> bool" where
  "tracker_ok n (T_subscriber t) = subscriber_ok t"
| "tracker_ok n (T_publisher t) = (1 \<le> current_msg_id t \<and> current_msg_id t + int n \<le> INT64_MAX)"
| "tracker_ok n (T_tracing t) = (1 \<le> current_msg_id t \<and> current_msg_id t + int n \<le> INT64_MAX)"
| "tracker_ok n (T_dummy w) = True"

lemma track_message_ok:
  assumes "tracker_ok (Suc n) t"
  shows "\<exists>m t'. track_message clk now unix msg t = Ok (m, t') \<and> tracker_ok n t'"
proof (cases t)
  case (T_subscriber s)
  then show ?thesis using assms subscriber_track_ok [of s clk now unix msg] by auto
qed (use assms in \<open>auto simp: publisher_track_message_def tracing_track_message_def i64_add_one Let_def\<close>)

lemma track_sequence_ok: "tracker_ok (length ms) t \<Longrightarrow> \<exists>t'. track_sequence clk ms t = Ok t'"
proof (induction ms arbitrary: t)
  case (Cons p ms)
  obtain now unix msg where p: "p = (now, unix, msg)" by (cases p)
  obtain m t' where "track_message clk now unix msg t = Ok (m, t')" "tracker_ok (length ms) t'"
    using track_message_ok Cons.prems by fastforce
  then show ?case using Cons.IH [of t'] by (simp add: p)
qed simp

section \<open>Properties\<close>

text \<open>
  A publisher's tracker numbers its messages 1, 2, 3 and so on without gap or repetition,
  stamps each with the clock reading of its own call and marks all of them with the hash of
  the publishing node.
\<close>

theorem publisher_numbers_messages:
  assumes "int (length ms) < INT64_MAX"
  shows "\<exists>out t'. track_all publisher_track_message ms (PublisherMessageTracker w h) = Ok (out, t') \<and>
     map vandenhoven_identifier out = [1..int (length ms)] \<and> distinct (map vandenhoven_identifier out) \<and>
     stamped h ms out"
  using publisher_track_all [of "PublisherMessageTracker w h" ms] assms
  by (auto simp: PublisherMessageTracker_def)

theorem publisher_numbers_messages_witness:
  "\<exists>out t'. track_all publisher_track_message [(10, demo_msg), (20, demo_msg)] (PublisherMessageTracker W_dummy 5) = Ok (out, t') \<and>
     map vandenhoven_identifier out = [1..2] \<and> distinct (map vandenhoven_identifier out) \<and>
     stamped 5 [(10, demo_msg), (20, demo_msg)] out"
  using publisher_numbers_messages [of "[(10, demo_msg), (20, demo_msg)]" W_dummy 5] by simp

text \<open>
  A tracing publisher keeps an id that is already there and gives the next fresh id to a
  message that carries none; so a second tracing hop changes no id at all, which is what
  joining the hops of a trace on the id needs, and no message leaves without an id.
\<close>

theorem tracing_preserves_ids:
  assumes "int (length ms) < INT64_MAX"
  shows "\<exists>out t'. track_all tracing_track_message ms (PublisherMessageTracker w h) = Ok (out, t') \<and>
     map vandenhoven_identifier out = traced_ids 1 (map (\<lambda>p. vandenhoven_identifier (snd p)) ms) \<and>
     0 \<notin> set (map vandenhoven_identifier out) \<and> stamped h ms out \<and>
     (\<exists>out2 t2. track_all tracing_track_message (map (Pair later) out) (PublisherMessageTracker w2 h2) = Ok (out2, t2) \<and>
        map vandenhoven_identifier out2 = map vandenhoven_identifier out)"
proof -
  obtain out t' where out: "track_all tracing_track_message ms (PublisherMessageTracker w h) = Ok (out, t')"
      "map vandenhoven_identifier out = traced_ids 1 (map (\<lambda>p. vandenhoven_identifier (snd p)) ms)" "stamped h ms out"
    using tracing_track_all [of "PublisherMessageTracker w h" ms] assms
    by (auto simp: PublisherMessageTracker_def)
  then have nz: "0 \<notin> set (map vandenhoven_identifier out)" using traced_ids_nonzero [of 1] by simp
  have "length out = length ms" using out(3) by (metis stamped_def length_map)
  then obtain out2 t2 where "track_all tracing_track_message (map (Pair later) out) (PublisherMessageTracker w2 h2) = Ok (out2, t2)"
      "map vandenhoven_identifier out2 = traced_ids 1 (map vandenhoven_identifier out)"
    using tracing_track_all [of "PublisherMessageTracker w2 h2" "map (Pair later) out"] assms
    by (auto simp: PublisherMessageTracker_def comp_def)
  then show ?thesis using out nz traced_ids_idem [OF nz] by metis
qed

theorem tracing_preserves_ids_witness:
  "\<exists>out t'. track_all tracing_track_message [(10, demo_msg), (20, demo_msg\<lparr>vandenhoven_identifier := 0\<rparr>)]
       (PublisherMessageTracker W_dummy 5) = Ok (out, t') \<and>
     map vandenhoven_identifier out = traced_ids 1 [1, 0] \<and>
     0 \<notin> set (map vandenhoven_identifier out) \<and>
     stamped 5 [(10, demo_msg), (20, demo_msg\<lparr>vandenhoven_identifier := 0\<rparr>)] out \<and>
     (\<exists>out2 t2. track_all tracing_track_message (map (Pair 30) out) (PublisherMessageTracker W_dummy 6) = Ok (out2, t2) \<and>
        map vandenhoven_identifier out2 = map vandenhoven_identifier out)"
proof -
  have "vandenhoven_identifier demo_msg = 1" by (simp add: demo_msg_def)
  then show ?thesis
    using tracing_preserves_ids [of "[(10, demo_msg), (20, demo_msg\<lparr>vandenhoven_identifier := 0\<rparr>)]" W_dummy 5 30 W_dummy 6]
    by simp
qed

text \<open>
  C39. Whatever tracker and writer the options select, for a host with a namespace: when the writer is the InfluxDB writer
  and its socket cannot be opened or connected, creating the tracker throws, and nothing else makes it fail; the tracker
  then handles any sequence of messages (below the range of its 64-bit counter) without
  an exception or undefined behaviour, because every key it uses was handed out by its writer.
\<close>

theorem trackers_never_fail:
  assumes "node_namespace h \<noteq> []" and "int (length ms) < INT64_MAX"
  shows "if mwe = MWE_INFLUXDB \<and> conn \<noteq> Connected then \<exists>msg. create_message_tracker conn clk mte mwe h = Err (Invalid_argument msg)
    else \<exists>t t'. create_message_tracker conn clk mte mwe h = Ok t \<and> track_sequence clk ms t = Ok t'"
proof (cases "mwe = MWE_INFLUXDB \<and> conn \<noteq> Connected")
  case True
  then show ?thesis
    by (cases conn) (simp_all add: create_message_tracker_def create_result_writer_def InfluxDBMeasurementWriter_def influx_socket_def)
next
  case False
  then obtain w where w: "create_result_writer conn clk mwe h = Ok w"
    using assms(1) by (cases mwe) (auto simp: create_result_writer_def FileMeasurementWriter_def InfluxDBMeasurementWriter_def influx_socket_def Let_def)
  then obtain t where "create_message_tracker conn clk mte mwe h = Ok t" "tracker_ok (length ms) t"
    using SubscriberMessageTracker_ok [OF w] assms(2)
    by (cases mte) (simp_all add: create_message_tracker_def PublisherMessageTracker_def)
  then show ?thesis using False track_sequence_ok by auto
qed

theorem trackers_never_fail_witness:
  "\<exists>t t'. create_message_tracker Connected demo_clock MTE_SUBSCRIBER MWE_INFLUXDB demo_host = Ok t \<and>
     track_sequence demo_clock [(1, 2, demo_msg), (3, 4, demo_msg)] t = Ok t'"
  using trackers_never_fail [of demo_host "[(1, 2, demo_msg), (3, 4, demo_msg)]" MWE_INFLUXDB Connected demo_clock MTE_SUBSCRIBER]
  by (simp add: demo_host_def)

section \<open>From the publisher to the database\<close>

text \<open>
  Deliveries: the number of the published message, the arrival time and the system time of each. A message may be
  delivered late, repeatedly or not at all.
\<close>

type_synonym delivery = "nat \<times> int \<times> int"

definition tracking_ops :: "MessageTrackingVariables list \<Rightarrow> delivery list \<Rightarrow> (u32 \<times> record_op) list" where
  "tracking_ops out ds = concat (map (\<lambda>(i, arrival, unix).
     [(0, Use_timestamp unix), (0, Record_latency (out ! i) (u32_of_i32 (vandenhoven_publisher_hash (out ! i))) arrival),
      (1, Record_arrival (out ! i) (u32_of_i32 (vandenhoven_publisher_hash (out ! i))))]) ds)"

abbreviation tracking_writer :: "influx_writer \<Rightarrow> subscriber_tracker" where
  "tracking_writer w \<equiv> \<lparr>st_writer = W_influx w, latencyKey = 0, arrivalKey = 1\<rparr>"

lemma track_deliveries:
  assumes "iw_measurements w = [''message_latency'', ''message_arrival'']"
  shows "\<exists>w'. track_sequence clk (map (\<lambda>(i, arrival, unix). (arrival, unix, out ! i)) ds) (T_subscriber (tracking_writer w)) = Ok (T_subscriber (tracking_writer w')) \<and>
    influx_w.run_ops clk (tracking_ops out ds) w = Ok w'"
  using assms
proof (induction ds arbitrary: w)
  case Nil
  then show ?case by (simp add: tracking_ops_def)
next
  case (Cons d ds)
  obtain i arrival unix where d: "d = (i, arrival, unix)" by (cases d)
  let ?m = "out ! i" let ?h = "u32_of_i32 (vandenhoven_publisher_hash ?m)" let ?v = "w\<lparr>iw_timestamp := unix\<rparr>"
  obtain w2 where w2: "influx_op clk 0 (Record_latency ?m ?h arrival) ?v = Ok w2" "iw_measurements w2 = iw_measurements w"
    using Cons.prems by (auto simp: influx_record_latency_def)
  obtain w3 where w3: "influx_op clk 1 (Record_arrival ?m ?h) w2 = Ok w3" "iw_measurements w3 = iw_measurements w"
    using Cons.prems w2(2) by (auto simp: influx_record_arrival_def)
  obtain w' where w': "track_sequence clk (map (\<lambda>(i, arrival, unix). (arrival, unix, out ! i)) ds) (T_subscriber (tracking_writer w3)) = Ok (T_subscriber (tracking_writer w'))"
      "influx_w.run_ops clk (tracking_ops out ds) w3 = Ok w'"
    using Cons.IH [of w3] Cons.prems w3(2) by auto
  have "track_message clk arrival unix ?m (T_subscriber (tracking_writer w)) = Ok (?m, T_subscriber (tracking_writer w3))"
    using w2(1) w3(1) by (simp add: subscriber_track_message_def del: influx_op.simps) (simp del: influx_op.simps(2-4))
  moreover have "influx_w.run_ops clk (tracking_ops out (d # ds)) w = Ok w'"
    using w2(1) w3(1) w'(2) by (simp add: d tracking_ops_def del: influx_op.simps(2-4))
  ultimately show ?case using w'(1) by (auto simp: d)
qed

text \<open>The two entries of the database for a delivery, with tags \<open>tags\<close>, of the message sent as the \<open>i\<close>-th, at \<open>sent\<close>.\<close>

definition delivery_entries :: "(string \<times> string) list \<Rightarrow> (int \<times> MessageTrackingVariables) list \<Rightarrow> delivery \<Rightarrow>
    (string \<times> (string \<times> string) list \<times> (string \<times> string) list \<times> int) list" where
  "delivery_entries tags ms d =
     (case d of (i, arrival, unix) \<Rightarrow>
        [(''message_latency'', tags,
          [(''sent_time'', show_int (fst (ms ! i)) @ ''i''), (''arrive_time'', show_int arrival @ ''i''), (''msg_id'', show_int (int i + 1) @ ''i'')], unix),
         (''message_arrival'', tags, [(''msg_id'', show_int (int i + 1) @ ''i'')], unix)])"

lemma lines_of_deliveries:
  assumes "iw_measurements w = [''message_latency'', ''message_arrival'']" "plain (iw_topic w)" "plain (iw_host w)"
    and "\<forall>d \<in> set ds. fst d < length ms \<and> in_i64 (snd (snd d))"
    and "map vandenhoven_identifier out = [1..int (length ms)]" "stamped h ms out"
  shows "map parse_line (influx_lines (tracking_ops out ds) w) =
    concat (map (delivery_entries [(''publisher'', hex_char_array h), (''topic'', iw_topic w), (''node_full_name'', iw_host w)] ms) ds)"
  using assms(1-4)
proof (induction ds arbitrary: w)
  case Nil
  then show ?case by (simp add: tracking_ops_def)
next
  case (Cons d ds)
  obtain i arrival unix where d: "d = (i, arrival, unix)" by (cases d)
  have i: "i < length ms" "in_i64 unix" using Cons.prems(4) d by auto
  have len: "length out = length ms" using assms(6) by (metis stamped_def length_map)
  have "map vandenhoven_identifier out ! i = int i + 1" using i(1) assms(5) by (simp add: nth_upto)
  moreover have "map vandenhoven_timestamp out ! i = fst (ms ! i)" using i(1) assms(6) by (simp add: stamped_def)
  moreover have "vandenhoven_publisher_hash (out ! i) = i32_of_u32 h" using i(1) len assms(6) by (auto simp: stamped_def)
  ultimately have m: "vandenhoven_identifier (out ! i) = int i + 1" "vandenhoven_timestamp (out ! i) = fst (ms ! i)"
      "u32_of_i32 (vandenhoven_publisher_hash (out ! i)) = h"
    using i(1) len by (simp_all add: hash_through_message)
  have p: "plain ''message_latency''" "plain ''message_arrival''" by (simp_all add: plain_def)
  let ?v = "w\<lparr>iw_timestamp := unix\<rparr>"
  have "map parse_line (influx_lines (tracking_ops out ds) ?v) =
      concat (map (delivery_entries [(''publisher'', hex_char_array h), (''topic'', iw_topic w), (''node_full_name'', iw_host w)] ms) ds)"
    using Cons.IH [of ?v] Cons.prems by simp
  then show ?case
    using Cons.prems(1-3) i(2) latency_line_parse [OF p(1), of ?v "out ! i" h arrival] arrival_line_parse [OF p(2), of ?v "out ! i" h]
    by (simp add: d tracking_ops_def m delivery_entries_def [of _ _ "(i, arrival, unix)"])
qed

text \<open>
  C1. End to end: the messages that a publisher of a node stamps, delivered in any order and number to a
  subscriber with an InfluxDB writer, yield exactly two lines per delivery, which read back as the
  latency measurement (with the name of the publishing node's hash, the subscriber's topic
  and node, the time that very message was sent, its arrival time and its number) and the arrival
  measurement.
\<close>

theorem latency_end_to_end:
  assumes "int (length ms) < INT64_MAX"
    and "\<forall>d \<in> set ds. fst d < length ms \<and> in_i64 (snd (snd d))"
    and "plain (topic_name hs)" and "plain (node_namespace hs @ node_name hs)"
  shows "\<exists>out pt t st iw ls.
    track_all publisher_track_message ms (PublisherMessageTracker pw (hash_full_node_name hp)) = Ok (out, pt) \<and>
    create_message_tracker Connected clk MTE_SUBSCRIBER MWE_INFLUXDB hs = Ok t \<and>
    track_sequence clk (map (\<lambda>(i, arrival, unix). (arrival, unix, out ! i)) ds) t = Ok (T_subscriber st) \<and>
    st_writer st = W_influx iw \<and> written iw = newlined ls \<and>
    map parse_line ls = concat (map (delivery_entries
      [(''publisher'', hex_char_array (hash_full_node_name hp)), (''topic'', topic_name hs), (''node_full_name'', node_namespace hs @ node_name hs)] ms) ds)"
proof -
  let ?h = "hash_full_node_name hp"
  let ?w = "(connected_writer clk hs)\<lparr>iw_measurements := [''message_latency'', ''message_arrival'']\<rparr>"
  obtain out pt where out: "track_all publisher_track_message ms (PublisherMessageTracker pw ?h) = Ok (out, pt)"
      "map vandenhoven_identifier out = [1..int (length ms)]" "stamped ?h ms out"
    using publisher_track_all [of "PublisherMessageTracker pw ?h" ms] assms(1) by (auto simp: PublisherMessageTracker_def)
  have t: "create_message_tracker Connected clk MTE_SUBSCRIBER MWE_INFLUXDB hs = Ok (T_subscriber (tracking_writer ?w))"
    by (simp add: create_message_tracker_def create_result_writer_def InfluxDBMeasurementWriter_def influx_socket_def
        SubscriberMessageTracker_def influx_register_def new_key_def connected_writer_def)
  obtain iw where run: "track_sequence clk (map (\<lambda>(i, arrival, unix). (arrival, unix, out ! i)) ds) (T_subscriber (tracking_writer ?w)) =
      Ok (T_subscriber (tracking_writer iw))" "influx_w.run_ops clk (tracking_ops out ds) ?w = Ok iw"
    using track_deliveries [of ?w clk out ds] by auto
  have "written ?w = []" "iw_topic ?w = topic_name hs" "iw_host ?w = node_namespace hs @ node_name hs"
    by (simp_all add: written_def posted_def connected_writer_def)
  then have "written iw = newlined (influx_lines (tracking_ops out ds) ?w)"
      "map parse_line (influx_lines (tracking_ops out ds) ?w) = concat (map (delivery_entries
        [(''publisher'', hex_char_array ?h), (''topic'', topic_name hs), (''node_full_name'', node_namespace hs @ node_name hs)] ms) ds)"
    using run_written [OF run(2)] lines_of_deliveries [OF _ _ _ assms(2) out(2,3), of ?w] assms(3,4) by simp_all
  then show ?thesis using out(1) t run(1) by fastforce
qed

text \<open>Three messages are sent; the third and then the first arrive.\<close>

theorem latency_end_to_end_witness:
  "\<exists>out pt t st iw ls.
    track_all publisher_track_message [(100, demo_msg), (110, demo_msg), (120, demo_msg)] (PublisherMessageTracker W_dummy (hash_full_node_name demo_host)) = Ok (out, pt) \<and>
    create_message_tracker Connected demo_clock MTE_SUBSCRIBER MWE_INFLUXDB demo_host = Ok t \<and>
    track_sequence demo_clock [(150, 7, out ! 2), (160, 8, out ! 0)] t = Ok (T_subscriber st) \<and>
    st_writer st = W_influx iw \<and> written iw = newlined ls \<and> length ls = 4 \<and>
    map (\<lambda>l. fst (snd (snd (parse_line l)))) ls =
      [[(''sent_time'', show_int 120 @ ''i''), (''arrive_time'', show_int 150 @ ''i''), (''msg_id'', show_int 3 @ ''i'')], [(''msg_id'', show_int 3 @ ''i'')],
       [(''sent_time'', show_int 100 @ ''i''), (''arrive_time'', show_int 160 @ ''i''), (''msg_id'', show_int 1 @ ''i'')], [(''msg_id'', show_int 1 @ ''i'')]]"
proof -
  have "plain (topic_name demo_host)" "plain (node_namespace demo_host @ node_name demo_host)"
    by (simp_all add: demo_host_def plain_def)
  moreover have "\<forall>d \<in> set [(2, 150, 7), (0, 160, 8)]. fst d < length [(100, demo_msg), (110, demo_msg), (120, demo_msg)] \<and> in_i64 (snd (snd d))"
    by (simp add: in_i64_def)
  ultimately obtain out pt t st iw ls where
      r: "track_all publisher_track_message [(100, demo_msg), (110, demo_msg), (120, demo_msg)] (PublisherMessageTracker W_dummy (hash_full_node_name demo_host)) = Ok (out, pt)"
      "create_message_tracker Connected demo_clock MTE_SUBSCRIBER MWE_INFLUXDB demo_host = Ok t"
      "track_sequence demo_clock [(150, 7, out ! 2), (160, 8, out ! 0)] t = Ok (T_subscriber st)" "st_writer st = W_influx iw" "written iw = newlined ls"
    and ls: "map parse_line ls = concat (map (delivery_entries
        [(''publisher'', hex_char_array (hash_full_node_name demo_host)), (''topic'', topic_name demo_host), (''node_full_name'', node_namespace demo_host @ node_name demo_host)]
        [(100, demo_msg), (110, demo_msg), (120, demo_msg)]) [(2, 150, 7), (0, 160, 8)])"
    using latency_end_to_end [of "[(100, demo_msg), (110, demo_msg), (120, demo_msg)]" "[(2, 150, 7), (0, 160, 8)]" demo_host W_dummy demo_host demo_clock] by auto
  have "length ls = length (map parse_line ls)" by simp
  moreover have "map (\<lambda>l. fst (snd (snd (parse_line l)))) ls = map (\<lambda>x. fst (snd (snd x))) (map parse_line ls)" by simp
  ultimately show ?thesis using r by (intro exI conjI) (assumption | simp add: ls delivery_entries_def)+
qed

end
