(* ===== verification/Timer.thy ===== *)
theory Timer
  imports Trackers RosTime
begin

text \<open>
  Timers: the C timer (\<open>rcl/src/rcl/timer.c\<close>) with its call, readiness, cancel, reset and
  clock-jump operations, and the C++ class on top of it (\<open>rclcpp/src/rclcpp/timer.cpp\<close>,
  \<open>timer.hpp\<close>), which reports every activation to the jitter tracker. What
  \<open>rcl_clock_get_now\<close> yields is an argument of each operation: a return code or a time.
  The atomics are read and written one operation at a time; signed overflow is undefined
  behaviour. Guard conditions are counted triggers.
\<close>

section \<open>The C timer\<close>

type_synonym clock_reading = "rcl_ret + int"

record rcl_timer_impl =
  tm_clock_type :: rcl_clock_type
  bound_instance :: int
  guard_triggers :: nat
  has_callback :: bool
  period :: int
  last_call_time :: int
  next_call_time :: int
  time_credit :: int
  canceled :: bool

datatype rcl_clock_change =
    RCL_ROS_TIME_NO_CHANGE | RCL_ROS_TIME_ACTIVATED | RCL_ROS_TIME_DEACTIVATED | RCL_SYSTEM_TIME_NO_CHANGE

definition clock_switched :: "rcl_clock_change \<Rightarrow> bool" where
  "clock_switched c \<longleftrightarrow> c = RCL_ROS_TIME_ACTIVATED \<or> c = RCL_ROS_TIME_DEACTIVATED"

definition rcl_timer_time_jump :: "rcl_clock_change \<Rightarrow> bool \<Rightarrow> clock_reading \<Rightarrow> rcl_timer_impl \<Rightarrow> rcl_timer_impl res" where
  "rcl_timer_time_jump change before_jump reading tm =
     (if before_jump then
        (if clock_switched change then
           (case reading of
              Inl _ \<Rightarrow> Ok tm
            | Inr now \<Rightarrow>
                if now = 0 then Ok tm
                else bindR (i64_sub (next_call_time tm) now) (\<lambda>credit. Ok (tm\<lparr>time_credit := credit\<rparr>)))
         else Ok tm)
      else
        (case reading of
           Inl _ \<Rightarrow> Ok tm
         | Inr now \<Rightarrow>
             if clock_switched change then
               (if now = 0 then Ok tm
                else let credit = time_credit tm; tm1 = tm\<lparr>time_credit := 0\<rparr>
                     in if credit \<noteq> 0 then
                          bindR (i64_sub now credit) (\<lambda>base.
                          bindR (i64_add base (period tm)) (\<lambda>nxt.
                          Ok (tm1\<lparr>next_call_time := nxt, last_call_time := base\<rparr>)))
                        else Ok tm1)
             else if next_call_time tm \<le> now then
               Ok (tm\<lparr>guard_triggers := Suc (guard_triggers tm)\<rparr>)
             else if now < last_call_time tm then
               bindR (i64_add now (period tm)) (\<lambda>nxt.
               Ok (tm\<lparr>next_call_time := nxt, last_call_time := now\<rparr>))
             else Ok tm))"

text \<open>
  \<open>rcl_timer_init\<close> on a timer whose \<open>impl\<close> is \<open>tm\<close>; \<open>gc\<close> and \<open>jc\<close> are what creating the
  guard condition and adding the jump callback return, \<open>alloc_ok\<close> whether the allocator
  delivers.
\<close>

definition rcl_timer_init :: "rcl_clock_type \<Rightarrow> clock_reading \<Rightarrow> rcl_ret \<Rightarrow> rcl_ret \<Rightarrow> bool \<Rightarrow> int \<Rightarrow> bool
    \<Rightarrow> rcl_timer_impl option \<Rightarrow> (rcl_ret \<times> rcl_timer_impl option) res" where
  "rcl_timer_init ctype reading gc jc alloc_ok p cb tm =
     (if p < 0 then Ok (RCL_RET_INVALID_ARGUMENT, tm)
      else if tm \<noteq> None then Ok (RCL_RET_ALREADY_INIT, tm)
      else case reading of
             Inl ret \<Rightarrow> Ok (ret, tm)
           | Inr now \<Rightarrow>
               if ctype = RCL_ROS_TIME \<and> gc \<noteq> RCL_RET_OK then Ok (gc, tm)
               else if ctype = RCL_ROS_TIME \<and> jc \<noteq> RCL_RET_OK then Ok (jc, tm)
               else bindR (i64_add now p) (\<lambda>nxt.
                 if \<not> alloc_ok then Ok (RCL_RET_BAD_ALLOC, None)
                 else Ok (RCL_RET_OK, Some
                   \<lparr>tm_clock_type = ctype, bound_instance = 0, guard_triggers = 0, has_callback = cb,
                    period = p, last_call_time = now, next_call_time = nxt, time_credit = 0, canceled = False\<rparr>)))"

definition rcl_timer_cancel :: "rcl_timer_impl option \<Rightarrow> rcl_ret \<times> rcl_timer_impl option" where
  "rcl_timer_cancel tm =
     (case tm of None \<Rightarrow> (RCL_RET_TIMER_INVALID, None)
      | Some t \<Rightarrow> (RCL_RET_OK, Some (t\<lparr>canceled := True\<rparr>)))"

definition rcl_timer_fini :: "rcl_timer_impl option \<Rightarrow> rcl_ret \<times> rcl_timer_impl option" where
  "rcl_timer_fini tm =
     (case tm of None \<Rightarrow> (RCL_RET_OK, None) | Some t \<Rightarrow> (fst (rcl_timer_cancel tm), None))"

definition rcl_timer_bind_instance :: "int \<Rightarrow> rcl_timer_impl \<Rightarrow> rcl_timer_impl" where
  "rcl_timer_bind_instance inst tm = tm\<lparr>bound_instance := inst\<rparr>"

text \<open>The next call time after the call at \<open>now\<close> that was due at \<open>nxt\<close>.\<close>

definition advance_next_call :: "int \<Rightarrow> int \<Rightarrow> int \<Rightarrow> int res" where
  "advance_next_call now per nxt =
     bindR (i64_add nxt per) (\<lambda>next1.
       if next1 < now then
         (if per = 0 then Ok now
          else bindR (i64_sub now next1) (\<lambda>now_ahead.
               bindR (i64_sub now_ahead 1) (\<lambda>a1.
               bindR (i64_add 1 (cdiv a1 per)) (\<lambda>periods_ahead.
               bindR (i64_mul periods_ahead per) (\<lambda>prod. i64_add next1 prod)))))
       else Ok next1)"

text \<open>\<open>rcl_timer_call\<close>: the second component of the result is the invocation of the
  callback, if any: time since the last call, intended activation time, bound instance.\<close>

definition rcl_timer_call :: "clock_reading \<Rightarrow> rcl_timer_impl option
    \<Rightarrow> (rcl_ret \<times> (int \<times> int \<times> int) option \<times> rcl_timer_impl option) res" where
  "rcl_timer_call reading tm =
     (case tm of
        None \<Rightarrow> Err (Undefined_behaviour ''null timer impl'')
      | Some t \<Rightarrow>
          if canceled t then Ok (RCL_RET_TIMER_CANCELED, None, tm)
          else case reading of
                 Inl ret \<Rightarrow> Ok (ret, None, tm)
               | Inr now \<Rightarrow>
                   if now < 0 then Ok (RCL_RET_ERROR, None, tm)
                   else let previous_ns = last_call_time t
                        in bindR (advance_next_call now (period t) (next_call_time t)) (\<lambda>nxt.
                           let intended = next_call_time t;
                               t' = t\<lparr>last_call_time := now, next_call_time := nxt\<rparr>
                           in if has_callback t then
                                bindR (i64_sub now previous_ns) (\<lambda>since.
                                  Ok (RCL_RET_OK, Some (since, intended, bound_instance t), Some t'))
                              else Ok (RCL_RET_OK, None, Some t')))"

definition rcl_timer_get_time_until_next_call :: "clock_reading \<Rightarrow> rcl_timer_impl option \<Rightarrow> (rcl_ret + int) res" where
  "rcl_timer_get_time_until_next_call reading tm =
     (case tm of
        None \<Rightarrow> Err (Undefined_behaviour ''null timer impl'')
      | Some t \<Rightarrow> (case reading of
            Inl ret \<Rightarrow> Ok (Inl ret)
          | Inr now \<Rightarrow> bindR (i64_sub (next_call_time t) now) (\<lambda>d. Ok (Inr d))))"

definition rcl_timer_get_time_since_last_call :: "clock_reading \<Rightarrow> rcl_timer_impl option \<Rightarrow> (rcl_ret + int) res" where
  "rcl_timer_get_time_since_last_call reading tm =
     (case tm of
        None \<Rightarrow> Err (Undefined_behaviour ''null timer impl'')
      | Some t \<Rightarrow> (case reading of
            Inl ret \<Rightarrow> Ok (Inl ret)
          | Inr now \<Rightarrow> bindR (i64_sub now (last_call_time t)) (\<lambda>d. Ok (Inr d))))"

definition rcl_timer_is_ready :: "clock_reading \<Rightarrow> rcl_timer_impl option \<Rightarrow> (rcl_ret + bool) res" where
  "rcl_timer_is_ready reading tm =
     bindR (rcl_timer_get_time_until_next_call reading tm) (\<lambda>r. case r of
        Inl ret \<Rightarrow> Ok (Inl ret)
      | Inr d \<Rightarrow> Ok (Inr (d \<le> 0 \<and> \<not> (case tm of None \<Rightarrow> False | Some t \<Rightarrow> canceled t))))"

definition rcl_timer_exchange_period :: "int \<Rightarrow> rcl_timer_impl \<Rightarrow> int \<times> rcl_timer_impl" where
  "rcl_timer_exchange_period new_period tm = (period tm, tm\<lparr>period := new_period\<rparr>)"

definition rcl_timer_is_canceled :: "rcl_timer_impl \<Rightarrow> bool" where
  "rcl_timer_is_canceled tm = canceled tm"

definition rcl_timer_reset :: "clock_reading \<Rightarrow> rcl_timer_impl option \<Rightarrow> (rcl_ret \<times> rcl_timer_impl option) res" where
  "rcl_timer_reset reading tm =
     (case tm of
        None \<Rightarrow> Ok (RCL_RET_TIMER_INVALID, None)
      | Some t \<Rightarrow> (case reading of
            Inl ret \<Rightarrow> Ok (ret, tm)
          | Inr now \<Rightarrow> bindR (i64_add now (period t)) (\<lambda>nxt.
              Ok (RCL_RET_OK, Some (t\<lparr>next_call_time := nxt, canceled := False\<rparr>)))))"

section \<open>The C++ timer\<close>

record timer_base =
  tb_handle :: "rcl_timer_impl option"
  tb_jitter :: any_jitter_tracker
  tb_user_calls :: nat

text \<open>A failed \<open>rcl_timer_init\<close> is only logged; \<open>this_ptr\<close> is the address bound on success.\<close>

definition TimerBase_init :: "connection \<Rightarrow> (nat \<Rightarrow> int) \<Rightarrow> JitterTrackerEnum \<Rightarrow> MeasurementWriterEnum \<Rightarrow> string
    \<Rightarrow> rcl_clock_type \<Rightarrow> clock_reading \<Rightarrow> rcl_ret \<Rightarrow> rcl_ret \<Rightarrow> bool \<Rightarrow> int \<Rightarrow> int \<Rightarrow> timer_base res" where
  "TimerBase_init conn clk jte mwe name ctype reading gc jc alloc_ok p this_ptr =
     bindR (create_jitter_tracker conn clk jte mwe name) (\<lambda>jt.
     bindR (rcl_timer_init ctype reading gc jc alloc_ok p True None) (\<lambda>(ret, h).
       Ok \<lparr>tb_handle = (if ret \<noteq> RCL_RET_OK then h else map_option (rcl_timer_bind_instance this_ptr) h),
           tb_jitter = jt, tb_user_calls = 0\<rparr>))"

definition timer_activate_callback :: "(nat \<Rightarrow> int) \<Rightarrow> int \<Rightarrow> int \<Rightarrow> int \<Rightarrow> int \<Rightarrow> timer_base \<Rightarrow> timer_base res" where
  "timer_activate_callback clk now unix since intended tb =
     bindR (track_jitter clk now unix since intended (tb_jitter tb)) (\<lambda>jt. Ok (tb\<lparr>tb_jitter := jt\<rparr>))"

text \<open>
  \<open>execute_callback\<close>: \<open>now2\<close> and \<open>unix\<close> are the readings the jitter tracker makes inside the
  C callback. The user's callback runs after it and is counted.
\<close>

definition execute_callback :: "(nat \<Rightarrow> int) \<Rightarrow> clock_reading \<Rightarrow> int \<Rightarrow> int \<Rightarrow> timer_base \<Rightarrow> timer_base res" where
  "execute_callback clk reading now2 unix tb =
     bindR (rcl_timer_call reading (tb_handle tb)) (\<lambda>(ret, invoked, h).
       let tb1 = tb\<lparr>tb_handle := h\<rparr>
       in bindR (case invoked of
                   None \<Rightarrow> Ok tb1
                 | Some (since, intended, inst) \<Rightarrow>
                     if inst = 0 then Err (Undefined_behaviour ''null timer instance'')
                     else timer_activate_callback clk now2 unix since intended tb1) (\<lambda>tb2.
          if ret = RCL_RET_TIMER_CANCELED then Ok tb2
          else if ret \<noteq> RCL_RET_OK then Err (Runtime_error ''Failed to notify timer that callback occurred'')
          else Ok (tb2\<lparr>tb_user_calls := Suc (tb_user_calls tb2)\<rparr>)))"

definition TimerBase_cancel :: "timer_base \<Rightarrow> timer_base res" where
  "TimerBase_cancel tb =
     (let (ret, h) = rcl_timer_cancel (tb_handle tb)
      in if ret \<noteq> RCL_RET_OK then Err (Runtime_error ''Couldn't cancel timer: '')
         else Ok (tb\<lparr>tb_handle := h\<rparr>))"

definition TimerBase_reset :: "clock_reading \<Rightarrow> timer_base \<Rightarrow> timer_base res" where
  "TimerBase_reset reading tb =
     bindR (rcl_timer_reset reading (tb_handle tb)) (\<lambda>(ret, h).
       if ret \<noteq> RCL_RET_OK then Err (Runtime_error ''Couldn't reset timer: '')
       else Ok (tb\<lparr>tb_handle := h\<rparr>))"

definition TimerBase_is_ready :: "clock_reading \<Rightarrow> timer_base \<Rightarrow> bool res" where
  "TimerBase_is_ready reading tb =
     bindR (rcl_timer_is_ready reading (tb_handle tb)) (\<lambda>r. case r of
        Inl _ \<Rightarrow> Err (Runtime_error ''Failed to check timer: '')
      | Inr b \<Rightarrow> Ok b)"

definition time_until_trigger :: "clock_reading \<Rightarrow> timer_base \<Rightarrow> int res" where
  "time_until_trigger reading tb =
     bindR (rcl_timer_get_time_until_next_call reading (tb_handle tb)) (\<lambda>r. case r of
        Inl _ \<Rightarrow> Err (Runtime_error ''Timer could not get time until next call: '')
      | Inr d \<Rightarrow> Ok d)"

section \<open>Advancing the next call time\<close>

lemma ceil_periods:
  fixes a p :: int
  assumes "0 < p" and "0 < a"
  shows "a \<le> (1 + (a - 1) div p) * p" and "(1 + (a - 1) div p) * p < a + p" and "1 \<le> 1 + (a - 1) div p"
proof -
  have "(a - 1) div p * p + (a - 1) mod p = a - 1" by simp
  moreover have "0 \<le> (a - 1) mod p" "(a - 1) mod p < p" using assms by simp_all
  ultimately show "a \<le> (1 + (a - 1) div p) * p" "(1 + (a - 1) div p) * p < a + p"
    unfolding distrib_right mult_1 by linarith+
  show "1 \<le> 1 + (a - 1) div p" using assms by (simp add: pos_imp_zdiv_nonneg_iff)
qed

lemma advance_next_call_ok:
  assumes "0 < per" and "0 \<le> nxt" and "0 \<le> now" and "nxt + per \<le> INT64_MAX" and "now + per \<le> INT64_MAX"
  shows "\<exists>k\<ge>1. advance_next_call now per nxt = Ok (nxt + k * per) \<and> now \<le> nxt + k * per \<and>
           (k = 1 \<or> nxt + k * per < now + per)"
proof (cases "nxt + per < now")
  case False
  then have "advance_next_call now per nxt = Ok (nxt + 1 * per)"
    using assms by (simp add: advance_next_call_def i64_add_def i64_result_def in_i64_def)
  then show ?thesis using False by (intro exI [of _ 1]) simp
next
  case True
  define a where "a = now - (nxt + per)"
  define q where "q = 1 + (a - 1) div per"
  have a: "0 < a" using True by (simp add: a_def)
  note c = ceil_periods [OF assms(1) a, folded q_def]
  have "q * 1 \<le> q * per" using assms(1) c(3) by (intro mult_left_mono) linarith+
  then have q: "q \<le> q * per" by simp
  have div: "cdiv (a - 1) per = q - 1" using a assms(1) by (simp add: cdiv_nonneg q_def)
  have range: "in_i64 (nxt + per)" "in_i64 a" "in_i64 (a - 1)" "in_i64 q" "in_i64 (q * per)"
    "in_i64 (nxt + per + q * per)"
    using assms a a_def q c unfolding in_i64_def by linarith+
  have "advance_next_call now per nxt = Ok (nxt + per + q * per)"
    using True assms(1) range div a_def
    unfolding advance_next_call_def i64_add_def i64_sub_def i64_mul_def by simp
  moreover have "nxt + per + q * per = nxt + (1 + q) * per" by (simp add: distrib_right)
  ultimately show ?thesis using c a_def by (intro exI [of _ "1 + q"]) (auto simp: algebra_simps)
qed

section \<open>The timer as a state machine\<close>

text \<open>
  What the executor and the user do to a timer of positive period on a clock that does not
  run backwards: time passes, a ready timer is called, the timer is canceled or reset. The
  state pairs the clock's time with the timer.
\<close>

inductive timer_step :: "int \<times> rcl_timer_impl \<Rightarrow> int \<times> rcl_timer_impl \<Rightarrow> bool" where
  tick: "now \<le> now' \<Longrightarrow> timer_step (now, t) (now', t)"
| call: "rcl_timer_is_ready (Inr now) (Some t) = Ok (Inr True) \<Longrightarrow>
    rcl_timer_call (Inr now) (Some t) = Ok (RCL_RET_OK, invoked, Some t') \<Longrightarrow> timer_step (now, t) (now, t')"
| cancel: "rcl_timer_cancel (Some t) = (RCL_RET_OK, Some t') \<Longrightarrow> timer_step (now, t) (now, t')"
| reset: "rcl_timer_reset (Inr now) (Some t) = Ok (RCL_RET_OK, Some t') \<Longrightarrow> timer_step (now, t) (now, t')"

inductive_cases timer_stepE: "timer_step (now, t) s'"

inductive timer_reach :: "int \<times> rcl_timer_impl \<Rightarrow> int \<times> rcl_timer_impl \<Rightarrow> bool" for s0 where
  start: "timer_reach s0 s0"
| step: "timer_reach s0 s \<Longrightarrow> timer_step s s' \<Longrightarrow> timer_reach s0 s'"

definition timer_inv :: "int \<Rightarrow> int \<times> rcl_timer_impl \<Rightarrow> bool" where
  "timer_inv p s = (case s of (now, t) \<Rightarrow>
     period t = p \<and> has_callback t \<and> 0 \<le> last_call_time t \<and> last_call_time t \<le> now \<and>
     last_call_time t \<le> next_call_time t \<and> next_call_time t \<le> now + p)"

lemma call_cases:
  assumes "rcl_timer_call (Inr now) (Some t) = Ok (RCL_RET_OK, invoked, Some t')" and "has_callback t"
  shows "\<not> canceled t \<and> 0 \<le> now \<and> advance_next_call now (period t) (next_call_time t) = Ok (next_call_time t') \<and>
     t' = t\<lparr>last_call_time := now, next_call_time := next_call_time t'\<rparr> \<and>
     invoked = Some (now - last_call_time t, next_call_time t, bound_instance t)"
  using assms by (auto simp: rcl_timer_call_def Let_def res_simps i64_sub_def split: if_splits)

lemma ready_iff:
  "rcl_timer_is_ready (Inr now) (Some t) = Ok (Inr b) \<longleftrightarrow>
     in_i64 (next_call_time t - now) \<and> b = (next_call_time t \<le> now \<and> \<not> canceled t)"
  by (auto simp: rcl_timer_is_ready_def rcl_timer_get_time_until_next_call_def i64_sub_def res_simps)

lemma timer_step_inv:
  assumes "timer_step (now, t) (now', t')" and "timer_inv p (now, t)" and "0 < p" and "now' + p \<le> INT64_MAX"
  shows "timer_inv p (now', t')"
  using assms(1)
proof (cases rule: timer_step.cases)
  case tick
  then show ?thesis using assms(2) by (simp add: timer_inv_def)
next
  case (call invoked)
  have inv: "period t = p" "has_callback t" "0 \<le> last_call_time t" "last_call_time t \<le> now"
    "last_call_time t \<le> next_call_time t" using assms(2) by (auto simp: timer_inv_def)
  have due: "next_call_time t \<le> now" using call(2) by (simp add: ready_iff)
  note c = call_cases [OF call(3) inv(2)]
  obtain k where "next_call_time t' = next_call_time t + k * p" "now \<le> next_call_time t + k * p"
      "k = 1 \<or> next_call_time t + k * p < now + p"
    using advance_next_call_ok [of p "next_call_time t" now] c inv due assms(3,4) call(1) by auto
  then have "now \<le> next_call_time t'" "next_call_time t' \<le> now + p" using due by auto
  moreover have "last_call_time t' = now" "period t' = p" "has_callback t'"
    using c inv by (metis rcl_timer_impl.select_convs rcl_timer_impl.surjective rcl_timer_impl.update_convs)+
  ultimately show ?thesis using call(1) c by (simp add: timer_inv_def)
next
  case cancel
  then show ?thesis using assms(2) by (auto simp: timer_inv_def rcl_timer_cancel_def)
next
  case reset
  then show ?thesis using assms(2,3) by (auto simp: timer_inv_def rcl_timer_reset_def res_simps i64_add_def)
qed

lemma timer_step_mono: "timer_step (now, t) (now', t') \<Longrightarrow> now \<le> now'"
  by (cases rule: timer_step.cases) auto

lemma timer_reach_inv:
  assumes "timer_reach s0 s" and "timer_inv p s0" and "0 < p" and "fst s + p \<le> INT64_MAX"
  shows "timer_inv p s"
  using assms(1,4)
proof (induction rule: timer_reach.induct)
  case (step s s')
  obtain now t now' t' where s: "s = (now, t)" "s' = (now', t')" by (cases s, cases s')
  have "now \<le> now'" using step.hyps(2) s timer_step_mono by simp
  then have "timer_inv p s" using step.IH step.prems s by simp
  then show ?case using timer_step_inv step.hyps(2) step.prems assms(3) s by simp
qed (use assms in simp)

lemma rcl_timer_init_inv:
  assumes "rcl_timer_init ctype (Inr now) gc jc alloc_ok p True None = Ok (RCL_RET_OK, Some t)" and "0 \<le> now"
  shows "timer_inv p (now, t) \<and> \<not> canceled t"
  using assms
  by (auto simp: rcl_timer_init_def timer_inv_def i64_add_def res_simps split: if_splits)

lemma ready_call_ok:
  assumes "timer_inv p (now, t)" and "0 < p" and "now + p \<le> INT64_MAX" and "next_call_time t \<le> now" and "\<not> canceled t"
  shows "\<exists>t'. rcl_timer_call (Inr now) (Some t) =
           Ok (RCL_RET_OK, Some (now - last_call_time t, next_call_time t, bound_instance t), Some t')"
proof -
  have i: "period t = p" "has_callback t" "0 \<le> last_call_time t" "last_call_time t \<le> now" "0 \<le> next_call_time t" "0 \<le> now"
    using assms(1) by (auto simp: timer_inv_def)
  obtain nxt where "advance_next_call now p (next_call_time t) = Ok nxt"
    using advance_next_call_ok [of p "next_call_time t" now] i assms(2-4) by auto
  moreover have "in_i64 (now - last_call_time t)" using i assms(2,3) by (simp add: in_i64_def)
  ultimately show ?thesis using i assms(5) by (simp add: rcl_timer_call_def i64_sub_def)
qed

section \<open>Properties\<close>

text \<open>
  C32. Calling a live timer moves its next call time forward by the least positive number of
  whole periods that is not in the past: the phase is kept however late the call comes, no
  period is scheduled twice, and the callback is told the time the call was meant for.
\<close>

theorem timer_call_keeps_phase:
  assumes "period t = p" and "0 < p" and "\<not> canceled t" and "has_callback t"
    and "0 \<le> last_call_time t" and "0 \<le> next_call_time t" and "0 \<le> now"
    and "next_call_time t + p \<le> INT64_MAX" and "now + p \<le> INT64_MAX" and "last_call_time t \<le> INT64_MAX"
  shows "\<exists>k t'. rcl_timer_call (Inr now) (Some t) =
      Ok (RCL_RET_OK, Some (now - last_call_time t, next_call_time t, bound_instance t), Some t') \<and>
    t' = t\<lparr>last_call_time := now, next_call_time := next_call_time t + k * p\<rparr> \<and>
    1 \<le> k \<and> now \<le> next_call_time t + k * p \<and> (\<forall>j. 1 \<le> j \<and> now \<le> next_call_time t + j * p \<longrightarrow> k \<le> j)"
proof -
  obtain k where k: "1 \<le> k" "advance_next_call now p (next_call_time t) = Ok (next_call_time t + k * p)"
      "now \<le> next_call_time t + k * p" "k = 1 \<or> next_call_time t + k * p < now + p"
    using advance_next_call_ok [of p "next_call_time t" now] assms by auto
  have "in_i64 (now - last_call_time t)" using assms by (simp add: in_i64_def)
  then have "rcl_timer_call (Inr now) (Some t) =
      Ok (RCL_RET_OK, Some (now - last_call_time t, next_call_time t, bound_instance t),
          Some (t\<lparr>last_call_time := now, next_call_time := next_call_time t + k * p\<rparr>))"
    using assms k(2) by (simp add: rcl_timer_call_def i64_sub_def)
  moreover have "k \<le> j" if "1 \<le> j" "now \<le> next_call_time t + j * p" for j
  proof (rule ccontr)
    assume "\<not> k \<le> j"
    then have "(j + 1) * p \<le> k * p" using assms(2) by (intro mult_right_mono) auto
    then have "next_call_time t + j * p + p \<le> next_call_time t + k * p" by (simp add: distrib_right)
    with that k(1,4) \<open>\<not> k \<le> j\<close> show False by linarith
  qed
  ultimately show ?thesis using k by blast
qed

definition demo_timer :: rcl_timer_impl where
  "demo_timer = \<lparr>tm_clock_type = RCL_STEADY_TIME, bound_instance = 1, guard_triggers = 0, has_callback = True,
     period = 10, last_call_time = 0, next_call_time = 10, time_credit = 0, canceled = False\<rparr>"

theorem timer_call_keeps_phase_witness:
  "\<exists>k t'. rcl_timer_call (Inr 37) (Some demo_timer) = Ok (RCL_RET_OK, Some (37, 10, 1), Some t') \<and>
    t' = demo_timer\<lparr>last_call_time := 37, next_call_time := 10 + k * 10\<rparr> \<and>
    1 \<le> k \<and> 37 \<le> 10 + k * 10 \<and> (\<forall>j. 1 \<le> j \<and> 37 \<le> 10 + j * 10 \<longrightarrow> k \<le> j)"
  using timer_call_keeps_phase [of demo_timer 10 37] by (simp add: demo_timer_def)

text \<open>
  C6. In every state a timer of positive period reaches from its initialisation (time passing,
  ready calls, cancels and resets in any order) it is due within one period, the time until
  the next call is computed without overflow, and a due timer that is not canceled is called
  successfully, with a time since the last call and a lateness that are not negative.
\<close>

theorem timer_due_within_period:
  assumes "rcl_timer_init ctype (Inr start) gc jc alloc_ok p True None = Ok (RCL_RET_OK, Some t0)"
    and "0 \<le> start" and "0 < p" and "timer_reach (start, t0) (now, t)" and "now + p \<le> INT64_MAX"
  shows "(\<exists>d. rcl_timer_get_time_until_next_call (Inr now) (Some t) = Ok (Inr d) \<and> d \<le> p) \<and>
    (rcl_timer_is_ready (Inr now) (Some t) = Ok (Inr True) \<longrightarrow>
      (\<exists>since intended t'. rcl_timer_call (Inr now) (Some t) = Ok (RCL_RET_OK, Some (since, intended, bound_instance t), Some t') \<and>
         0 \<le> since \<and> intended \<le> now))"
proof -
  have inv: "timer_inv p (now, t)"
    using timer_reach_inv [OF assms(4)] rcl_timer_init_inv [OF assms(1,2)] assms(3,5) by simp
  then have "in_i64 (next_call_time t - now)" "next_call_time t - now \<le> p" "last_call_time t \<le> now"
    using assms(3,5) by (auto simp: timer_inv_def in_i64_def)
  then show ?thesis
    using ready_call_ok [OF inv assms(3,5)]
    by (fastforce simp: rcl_timer_get_time_until_next_call_def i64_sub_def ready_iff)
qed

lemma demo_timer_init:
  "rcl_timer_init RCL_STEADY_TIME (Inr 0) RCL_RET_OK RCL_RET_OK True 10 True None
     = Ok (RCL_RET_OK, Some (demo_timer\<lparr>bound_instance := 0\<rparr>))"
  by (simp add: rcl_timer_init_def demo_timer_def i64_add_def in_i64_def)

theorem timer_due_within_period_witness:
  "(\<exists>d. rcl_timer_get_time_until_next_call (Inr 12) (Some (demo_timer\<lparr>bound_instance := 0\<rparr>)) = Ok (Inr d) \<and> d \<le> 10) \<and>
   (\<exists>since intended t'. rcl_timer_call (Inr 12) (Some (demo_timer\<lparr>bound_instance := 0\<rparr>)) =
      Ok (RCL_RET_OK, Some (since, intended, 0), Some t') \<and> 0 \<le> since \<and> intended \<le> 12)"
proof -
  have "timer_reach (0, demo_timer\<lparr>bound_instance := 0\<rparr>) (12, demo_timer\<lparr>bound_instance := 0\<rparr>)"
    by (rule timer_reach.step [OF timer_reach.start]) (simp add: timer_step.tick)
  moreover have "rcl_timer_is_ready (Inr 12) (Some (demo_timer\<lparr>bound_instance := 0\<rparr>)) = Ok (Inr True)"
    by (simp add: ready_iff demo_timer_def in_i64_def)
  ultimately show ?thesis
    using timer_due_within_period [OF demo_timer_init, of 12 "demo_timer\<lparr>bound_instance := 0\<rparr>"] by simp
qed

text \<open>
  When ROS time is switched on or off, the timer does not wait the remainder of its
  period in the new epoch, as the comments say: it waits the part of the period that had
  already elapsed (period minus remainder).
\<close>

theorem time_jump_waits_elapsed_part:
  assumes "clock_switched change" and "before \<noteq> 0" and "after \<noteq> 0" and "next_call_time t \<noteq> before"
    and "in_i64 (next_call_time t - before)" and "in_i64 (after - (next_call_time t - before))"
    and "in_i64 (after - (next_call_time t - before) + period t)"
  shows "\<exists>t1 t2. rcl_timer_time_jump change True (Inr before) t = Ok t1 \<and>
     rcl_timer_time_jump change False (Inr after) t1 = Ok t2 \<and>
     next_call_time t2 - after = period t - (next_call_time t - before) \<and>
     last_call_time t2 = next_call_time t2 - period t"
  using assms by (simp add: rcl_timer_time_jump_def i64_sub_def i64_add_def Let_def)

theorem time_jump_waits_elapsed_part_witness:
  "\<exists>t1 t2. rcl_timer_time_jump RCL_ROS_TIME_ACTIVATED True (Inr 2) demo_timer = Ok t1 \<and>
     rcl_timer_time_jump RCL_ROS_TIME_ACTIVATED False (Inr 1000) t1 = Ok t2 \<and>
     next_call_time t2 - 1000 = 2 \<and> last_call_time t2 = next_call_time t2 - 10"
  using time_jump_waits_elapsed_part [of RCL_ROS_TIME_ACTIVATED 2 1000 demo_timer]
  by (simp add: demo_timer_def clock_switched_def in_i64_def)

text \<open>
  A canceled timer is never ready, a call leaves it untouched and runs no callback, and a
  reset revives it with one full period to wait.
\<close>

theorem canceled_timer_inert:
  assumes "TimerBase_cancel tb = Ok tb1" and "tb_handle tb = Some t"
    and "in_i64 (next_call_time t - now)" and "in_i64 (now + period t)"
  shows "TimerBase_is_ready (Inr now) tb1 = Ok False \<and>
     execute_callback clk (Inr now) now2 unix tb1 = Ok tb1 \<and>
     (\<exists>tb2. TimerBase_reset (Inr now) tb1 = Ok tb2 \<and> time_until_trigger (Inr now) tb2 = i64_result (period t) \<and>
        map_option canceled (tb_handle tb2) = Some False)"
  using assms
  by (auto simp: TimerBase_cancel_def rcl_timer_cancel_def TimerBase_is_ready_def rcl_timer_is_ready_def
      rcl_timer_get_time_until_next_call_def i64_sub_def execute_callback_def rcl_timer_call_def
      TimerBase_reset_def rcl_timer_reset_def i64_add_def time_until_trigger_def i64_result_def)

definition demo_timer_base :: timer_base where
  "demo_timer_base = \<lparr>tb_handle = Some demo_timer, tb_jitter = J_dummy W_dummy, tb_user_calls = 0\<rparr>"

theorem canceled_timer_inert_witness:
  "\<exists>tb1. TimerBase_cancel demo_timer_base = Ok tb1 \<and> TimerBase_is_ready (Inr 50) tb1 = Ok False \<and>
     execute_callback demo_clock (Inr 50) 51 52 tb1 = Ok tb1"
proof -
  obtain tb1 where tb1: "TimerBase_cancel demo_timer_base = Ok tb1"
    by (simp add: TimerBase_cancel_def rcl_timer_cancel_def demo_timer_base_def)
  have "tb_handle demo_timer_base = Some demo_timer" by (simp add: demo_timer_base_def)
  from canceled_timer_inert [OF tb1 this, of 50 demo_clock 51 52] tb1 show ?thesis
    by (simp add: demo_timer_def in_i64_def)
qed

text \<open>
  A timer constructed with a negative period is not refused: the constructor logs the
  failed initialisation and returns, and the first readiness check or call dereferences the
  null \<open>impl\<close> pointer.
\<close>

theorem negative_period_timer_unusable:
  assumes "p < 0" and "name \<noteq> []"
  shows "\<exists>tb e1 e2. TimerBase_init Connected clk jte mwe name ctype reading gc jc alloc_ok p this_ptr = Ok tb \<and>
     TimerBase_is_ready reading tb = Err (Undefined_behaviour e1) \<and>
     execute_callback clk reading now2 unix tb = Err (Undefined_behaviour e2)"
proof -
  obtain w where "jitter_result_writer Connected clk mwe name = Ok w"
    using assms(2) by (cases mwe) (simp_all add: jitter_result_writer_def create_result_writer_def FileMeasurementWriter_def InfluxDBMeasurementWriter_def influx_socket_def Let_def)
  then obtain jt where "create_jitter_tracker Connected clk jte mwe name = Ok jt" by (simp add: create_jitter_tracker_def)
  then show ?thesis
    using assms(1)
    by (simp add: TimerBase_init_def rcl_timer_init_def TimerBase_is_ready_def rcl_timer_is_ready_def
        rcl_timer_get_time_until_next_call_def execute_callback_def rcl_timer_call_def)
qed

theorem negative_period_timer_unusable_witness:
  "\<exists>tb e1 e2. TimerBase_init Connected demo_clock JTE_NONE MWE_NONE ''/t'' RCL_STEADY_TIME (Inr 0) RCL_RET_OK RCL_RET_OK True (- 1) 1 = Ok tb \<and>
     TimerBase_is_ready (Inr 0) tb = Err (Undefined_behaviour e1) \<and>
     execute_callback demo_clock (Inr 0) 1 2 tb = Err (Undefined_behaviour e2)"
  by (rule negative_period_timer_unusable) simp_all

section \<open>The timer of a node as a state machine\<close>

text \<open>
  What the executor and the user do to the C++ timer: time passes, a ready timer is executed (the jitter tracker reads
  its clocks on the way), the timer is canceled or reset.
\<close>

inductive base_step :: "(nat \<Rightarrow> int) \<Rightarrow> int \<times> timer_base \<Rightarrow> int \<times> timer_base \<Rightarrow> bool" for clk where
  base_tick: "now \<le> now' \<Longrightarrow> base_step clk (now, tb) (now', tb)"
| base_execute: "TimerBase_is_ready (Inr now) tb = Ok True \<Longrightarrow> execute_callback clk (Inr now) now2 unix tb = Ok tb' \<Longrightarrow>
    base_step clk (now, tb) (now, tb')"
| base_cancel: "TimerBase_cancel tb = Ok tb' \<Longrightarrow> base_step clk (now, tb) (now, tb')"
| base_reset: "TimerBase_reset (Inr now) tb = Ok tb' \<Longrightarrow> base_step clk (now, tb) (now, tb')"

inductive base_reach :: "(nat \<Rightarrow> int) \<Rightarrow> int \<times> timer_base \<Rightarrow> int \<times> timer_base \<Rightarrow> bool" for clk s0 where
  base_start: "base_reach clk s0 s0"
| base_next: "base_reach clk s0 s \<Longrightarrow> base_step clk s s' \<Longrightarrow> base_reach clk s0 s'"

text \<open>The timer is bound, and its tracker holds the key of its own measurement.\<close>

definition jitter_wired :: "int \<Rightarrow> string \<Rightarrow> timer_base \<Rightarrow> bool" where
  "jitter_wired inst host tb \<longleftrightarrow>
     (\<exists>t w. tb_handle tb = Some t \<and> bound_instance t = inst \<and> tb_jitter tb = J_activation \<lparr>jt_writer = W_influx w, activation_jitter_key = 0\<rparr> \<and>
        iw_measurements w = [''timer_activation_jitter''] \<and> iw_host w = host)"

definition base_inv :: "int \<Rightarrow> int \<Rightarrow> string \<Rightarrow> int \<times> timer_base \<Rightarrow> bool" where
  "base_inv p inst host s = (case s of (now, tb) \<Rightarrow> jitter_wired inst host tb \<and> (\<forall>t. tb_handle tb = Some t \<longrightarrow> timer_inv p (now, t)))"

lemma tracked_jitter:
  assumes "activation_track_jitter clk now2 unix intended \<lparr>jt_writer = W_influx w, activation_jitter_key = 0\<rparr> = Ok jt"
    and "iw_measurements w = [''timer_activation_jitter'']"
  shows "\<exists>w'. jt = \<lparr>jt_writer = W_influx w', activation_jitter_key = 0\<rparr> \<and> iw_measurements w' = iw_measurements w \<and> iw_host w' = iw_host w \<and>
    written w' = written w @ newlined [jitter_line [] ''timer_activation_jitter'' (now2 - intended) (w\<lparr>iw_timestamp := unix\<rparr>)]"
proof -
  let ?j = "now2 - intended" let ?v = "w\<lparr>iw_timestamp := unix\<rparr>"
  obtain w' where w': "influx_op clk 0 (Record_jitter ?j) ?v = Ok w'" "jt = \<lparr>jt_writer = W_influx w', activation_jitter_key = 0\<rparr>"
    using assms(1) by (auto simp: activation_track_jitter_def res_simps i64_sub_def map_sum_def split: sum.splits simp del: influx_op.simps(4))
  have "written ?v = written w" by (simp add: written_def posted_def)
  then have "written w' = written w @ newlined [jitter_line [] ''timer_activation_jitter'' ?j ?v]"
    using influx_op_written [OF w'(1)] assms(2) by simp
  moreover have "iw_measurements w' = iw_measurements w" "iw_host w' = iw_host w"
    using w'(1) assms(2) by (auto simp: influx_record_activation_jitter_def maybe_upload_def Let_def)
  ultimately show ?thesis using w'(2) by blast
qed

lemma execute_cases:
  assumes "execute_callback clk (Inr now) now2 unix tb = Ok tb'" "tb_handle tb = Some t" "has_callback t" "\<not> canceled t"
    and "tb_jitter tb = J_activation jt"
  shows "\<exists>t' jt'. rcl_timer_call (Inr now) (Some t) = Ok (RCL_RET_OK, Some (now - last_call_time t, next_call_time t, bound_instance t), Some t') \<and>
    activation_track_jitter clk now2 unix (next_call_time t) jt = Ok jt' \<and>
    tb' = \<lparr>tb_handle = Some t', tb_jitter = J_activation jt', tb_user_calls = Suc (tb_user_calls tb)\<rparr>"
  using assms
  by (auto simp: execute_callback_def rcl_timer_call_def timer_activate_callback_def res_simps Let_def i64_sub_def map_sum_def
      split: if_splits sum.splits)

lemma call_keeps_instance: "rcl_timer_call (Inr now) (Some t) = Ok (ret, invoked, Some t') \<Longrightarrow> bound_instance t' = bound_instance t"
  by (auto simp: rcl_timer_call_def Let_def res_simps split: if_splits)

lemma base_step_inv:
  assumes "base_step clk (now, tb) (now', tb')" "base_inv p inst host (now, tb)" "0 < p" "now' + p \<le> INT64_MAX"
  shows "base_inv p inst host (now', tb')"
proof -
  obtain t w where tb: "tb_handle tb = Some t" "bound_instance t = inst" "tb_jitter tb = J_activation \<lparr>jt_writer = W_influx w, activation_jitter_key = 0\<rparr>"
      "iw_measurements w = [''timer_activation_jitter'']" "iw_host w = host" and inv: "timer_inv p (now, t)"
    using assms(2) by (auto simp: base_inv_def jitter_wired_def)
  have keep: "base_inv p inst host (now', tb')"
    if "timer_step (now, t) (now', t')" "bound_instance t' = inst" "tb_handle tb' = Some t'"
       "tb_jitter tb' = J_activation \<lparr>jt_writer = W_influx w', activation_jitter_key = 0\<rparr>" "iw_measurements w' = iw_measurements w" "iw_host w' = host" for t' w'
    using that timer_step_inv [OF that(1) inv assms(3,4)] tb(4) by (auto simp: base_inv_def jitter_wired_def)
  show ?thesis using assms(1)
  proof (cases rule: base_step.cases)
    case base_tick
    then show ?thesis using keep [of t w] tb timer_step.tick by simp
  next
    case (base_execute now2 unix)
    have ready: "rcl_timer_is_ready (Inr now) (Some t) = Ok (Inr True)"
      using base_execute(2) tb(1) by (auto simp: TimerBase_is_ready_def bindR_def split: sum.split_asm)
    have "\<not> canceled t" "has_callback t" using ready inv by (auto simp: ready_iff timer_inv_def)
    from execute_cases [OF base_execute(3) tb(1) this(2,1) tb(3)] obtain t' jt' where
      c: "rcl_timer_call (Inr now) (Some t) = Ok (RCL_RET_OK, Some (now - last_call_time t, next_call_time t, bound_instance t), Some t')"
        "activation_track_jitter clk now2 unix (next_call_time t) \<lparr>jt_writer = W_influx w, activation_jitter_key = 0\<rparr> = Ok jt'"
        "tb' = \<lparr>tb_handle = Some t', tb_jitter = J_activation jt', tb_user_calls = Suc (tb_user_calls tb)\<rparr>" by blast
    from tracked_jitter [OF c(2) tb(4)] obtain w' where w': "jt' = \<lparr>jt_writer = W_influx w', activation_jitter_key = 0\<rparr>"
        "iw_measurements w' = iw_measurements w" "iw_host w' = iw_host w" by blast
    show ?thesis
      using keep [of t' w'] timer_step.call [OF ready c(1)] call_keeps_instance [OF c(1)] base_execute(1) c(3) w' tb(2,5) by simp
  next
    case base_cancel
    then have "tb' = tb\<lparr>tb_handle := Some (t\<lparr>canceled := True\<rparr>)\<rparr>" using tb(1) by (auto simp: TimerBase_cancel_def rcl_timer_cancel_def)
    then show ?thesis using keep [of "t\<lparr>canceled := True\<rparr>" w] timer_step.cancel [of t "t\<lparr>canceled := True\<rparr>" now] base_cancel(1) tb
      by (simp add: rcl_timer_cancel_def)
  next
    case base_reset
    then obtain t' where t': "rcl_timer_reset (Inr now) (Some t) = Ok (RCL_RET_OK, Some t')" "tb' = tb\<lparr>tb_handle := Some t'\<rparr>" "bound_instance t' = inst"
      using tb(1,2) by (auto simp: TimerBase_reset_def rcl_timer_reset_def res_simps)
    then show ?thesis using keep [of t' w] timer_step.reset [OF t'(1)] base_reset(1) tb by simp
  qed
qed

lemma base_step_mono: "base_step clk (now, tb) (now', tb') \<Longrightarrow> now \<le> now'"
  by (cases rule: base_step.cases) auto

lemma base_reach_inv:
  assumes "base_reach clk s0 s" "base_inv p inst host s0" "0 < p" "fst s + p \<le> INT64_MAX"
  shows "base_inv p inst host s"
  using assms(1,4)
proof (induction rule: base_reach.induct)
  case (base_next s s')
  obtain now tb now' tb' where s: "s = (now, tb)" "s' = (now', tb')" by (cases s, cases s')
  have "now \<le> now'" using base_next.hyps(2) s base_step_mono by simp
  then have "base_inv p inst host s" using base_next.IH base_next.prems s by simp
  then show ?case using base_step_inv base_next.hyps(2) base_next.prems assms(3) s by simp
qed (use assms in simp)

lemma TimerBase_init_inv:
  assumes "TimerBase_init conn clk JTE_ACTIVATION_JITTER MWE_INFLUXDB name ctype (Inr start) gc jc True p inst = Ok tb"
    and "tb_handle tb \<noteq> None" "0 \<le> start"
  shows "base_inv p inst (CHR ''/'' # tl name) (start, tb)"
  using assms
  by (auto simp: TimerBase_init_def create_jitter_tracker_def jitter_result_writer_def res_simps base_inv_def jitter_wired_def
      create_result_writer_def InfluxDBMeasurementWriter_def ActivationJitterTracker_def influx_register_def new_key_def
      connected_writer_def rcl_timer_init_def i64_add_def timer_inv_def rcl_timer_bind_instance_def map_sum_def split: if_splits sum.splits)

text \<open>
  C40. Executing a due timer whose activations are written to InfluxDB, in whatever state it is after executions, cancels and resets,
  records one further line that reads back as the lateness of the activation: the tracker's clock reading minus the time
  this call was scheduled for, tagged with the timer's name; then the user callback runs.
\<close>

theorem activation_jitter_recorded:
  assumes "TimerBase_init conn clk JTE_ACTIVATION_JITTER MWE_INFLUXDB name ctype (Inr start) gc jc True p this_ptr = Ok tb0" "tb_handle tb0 \<noteq> None"
    and "base_reach clk (start, tb0) (now, tb)" "tb_handle tb = Some t" "\<not> canceled t"
    and "this_ptr \<noteq> 0" and "0 \<le> start" and "0 < p" and "now + p \<le> INT64_MAX"
    and "next_call_time t \<le> now" and "now \<le> now2" and "now2 \<le> INT64_MAX" and "in_i64 unix" and "plain (tl name)"
  shows "\<exists>jt iw tb' jt' iw' l. tb_jitter tb = J_activation jt \<and> jt_writer jt = W_influx iw \<and>
     execute_callback clk (Inr now) now2 unix tb = Ok tb' \<and> tb_user_calls tb' = Suc (tb_user_calls tb) \<and>
     tb_jitter tb' = J_activation jt' \<and> jt_writer jt' = W_influx iw' \<and> written iw' = written iw @ newlined [l] \<and>
     parse_line l = (''timer_activation_jitter'', [(''timer'', CHR ''/'' # tl name)],
       [(''activation_jitter'', show_int (now2 - next_call_time t) @ ''i'')], unix) \<and>
     0 \<le> now2 - next_call_time t"
proof -
  have "base_inv p this_ptr (CHR ''/'' # tl name) (now, tb)"
    using base_reach_inv [OF assms(3) TimerBase_init_inv [OF assms(1,2,7)]] assms(8,9) by simp
  then obtain w where tb: "bound_instance t = this_ptr" "tb_jitter tb = J_activation \<lparr>jt_writer = W_influx w, activation_jitter_key = 0\<rparr>"
      "iw_measurements w = [''timer_activation_jitter'']" "iw_host w = CHR ''/'' # tl name" and inv: "timer_inv p (now, t)"
    using assms(4) by (auto simp: base_inv_def jitter_wired_def)
  obtain t' where call: "rcl_timer_call (Inr now) (Some t) =
      Ok (RCL_RET_OK, Some (now - last_call_time t, next_call_time t, this_ptr), Some t')"
    using ready_call_ok [OF inv assms(8,9,10,5)] tb(1) by auto
  have range: "in_i64 (now2 - next_call_time t)" using assms(9-12) inv by (auto simp: timer_inv_def in_i64_def)
  obtain jt' where jt': "activation_track_jitter clk now2 unix (next_call_time t) \<lparr>jt_writer = W_influx w, activation_jitter_key = 0\<rparr> = Ok jt'"
    using range tb(3) by (simp add: activation_track_jitter_def i64_sub_def influx_record_activation_jitter_def)
  from tracked_jitter [OF jt' tb(3)] obtain w' where w': "jt' = \<lparr>jt_writer = W_influx w', activation_jitter_key = 0\<rparr>"
      "written w' = written w @ newlined [jitter_line [] ''timer_activation_jitter'' (now2 - next_call_time t) (w\<lparr>iw_timestamp := unix\<rparr>)]" by blast
  have "plain ''timer_activation_jitter''" "plain (CHR ''/'' # tl name)" using assms(14) by (simp_all add: plain_def)
  then have "parse_line (jitter_line [] ''timer_activation_jitter'' (now2 - next_call_time t) (w\<lparr>iw_timestamp := unix\<rparr>))
      = (''timer_activation_jitter'', [(''timer'', CHR ''/'' # tl name)], [(''activation_jitter'', show_int (now2 - next_call_time t) @ ''i'')], unix)"
    using jitter_line_parse [of "''timer_activation_jitter''" "w\<lparr>iw_timestamp := unix\<rparr>"] assms(13) tb(4) by simp
  moreover have "execute_callback clk (Inr now) now2 unix tb = Ok (tb\<lparr>tb_handle := Some t', tb_jitter := J_activation jt', tb_user_calls := Suc (tb_user_calls tb)\<rparr>)"
    using call jt' assms(4,6) tb(2) by (simp add: execute_callback_def timer_activate_callback_def)
  ultimately show ?thesis using tb(2) w' assms(10,11) by (intro exI conjI) (assumption | simp)+
qed

text \<open>The second execution of a timer, at 25 for the call scheduled for 20.\<close>

theorem activation_jitter_recorded_witness:
  "\<exists>tb0 tb t jt iw tb' jt' iw' l.
     TimerBase_init Connected demo_clock JTE_ACTIVATION_JITTER MWE_INFLUXDB ''/blink'' RCL_STEADY_TIME (Inr 0) RCL_RET_OK RCL_RET_OK True 10 1 = Ok tb0 \<and>
     base_reach demo_clock (0, tb0) (25, tb) \<and> tb_handle tb = Some t \<and> next_call_time t = 20 \<and> tb_jitter tb = J_activation jt \<and> jt_writer jt = W_influx iw \<and>
     execute_callback demo_clock (Inr 25) 26 7 tb = Ok tb' \<and>
     tb_jitter tb' = J_activation jt' \<and> jt_writer jt' = W_influx iw' \<and> written iw' = written iw @ newlined [l] \<and>
     parse_line l = (''timer_activation_jitter'', [(''timer'', ''/blink'')], [(''activation_jitter'', show_int 6 @ ''i'')], 7)"
proof -
  obtain tb0 where tb0: "TimerBase_init Connected demo_clock JTE_ACTIVATION_JITTER MWE_INFLUXDB ''/blink'' RCL_STEADY_TIME (Inr 0) RCL_RET_OK RCL_RET_OK True 10 1 = Ok tb0"
    and h: "tb_handle tb0 = Some demo_timer"
    by (simp add: TimerBase_init_def create_jitter_tracker_def jitter_result_writer_def InfluxDBMeasurementWriter_def influx_socket_def
        create_result_writer_def demo_timer_init rcl_timer_bind_instance_def)
      (simp add: demo_timer_def)
  have plain: "plain (tl ''/blink'')" by (simp add: plain_def)
  have r12: "base_reach demo_clock (0, tb0) (12, tb0)" by (rule base_next [OF base_start base_tick]) simp
  from activation_jitter_recorded [OF tb0 _ r12 h, of 13 7] obtain tb1 where tb1: "execute_callback demo_clock (Inr 12) 13 7 tb0 = Ok tb1"
    using h plain by (auto simp: demo_timer_def in_i64_def)
  have ready: "TimerBase_is_ready (Inr 12) tb0 = Ok True" using h
    by (simp add: TimerBase_is_ready_def rcl_timer_is_ready_def rcl_timer_get_time_until_next_call_def i64_sub_def in_i64_def demo_timer_def)
  have "base_reach demo_clock (0, tb0) (12, tb1)" by (rule base_next [OF r12 base_execute [OF ready tb1]])
  then have r25: "base_reach demo_clock (0, tb0) (25, tb1)" by (rule base_next [OF _ base_tick]) simp
  obtain jt0 where "tb_jitter tb0 = J_activation jt0"
    using TimerBase_init_inv [OF tb0] h by (auto simp: base_inv_def jitter_wired_def)
  from execute_cases [OF tb1 h _ _ this] have t1: "tb_handle tb1 = Some (demo_timer\<lparr>last_call_time := 12, next_call_time := 20\<rparr>)"
    by (auto simp: demo_timer_def rcl_timer_call_def advance_next_call_def i64_add_def i64_sub_def in_i64_def)
  from activation_jitter_recorded [OF tb0 _ r25 t1, of 26 7] plain h tb0 r25 t1 show ?thesis
    by (fastforce simp: in_i64_def demo_timer_def)
qed

end
