(* ===== verification/Effects.thy ===== *)
theory Effects
  imports Prelude
begin

text \<open>
  Operations that change a state and may throw: a computation takes the state to a result and
  the state it leaves behind, which survives an exception. The locale \<open>step_relation\<close> carries a
  relation between the state before and the state after through the combinators; an invariant
  is the relation that preserves it.
\<close>

section \<open>Computations\<close>

type_synonym ('s, 'a) act = "'s \<Rightarrow> 'a res \<times> 's"

definition retA :: "'a \<Rightarrow> ('s, 'a) act" where
  "retA x = (\<lambda>s. (Ok x, s))"

definition throwA :: "cpp_error \<Rightarrow> ('s, 'a) act" where
  "throwA e = (\<lambda>s. (Err e, s))"

definition bindA :: "('s, 'a) act \<Rightarrow> ('a \<Rightarrow> ('s, 'b) act) \<Rightarrow> ('s, 'b) act" where
  "bindA m f = (\<lambda>s. case m s of (Inl e, s') \<Rightarrow> (Inl e, s') | (Inr x, s') \<Rightarrow> f x s')"

definition seqA :: "('s, 'a) act \<Rightarrow> ('s, 'b) act \<Rightarrow> ('s, 'b) act" where
  "seqA m n = bindA m (\<lambda>_. n)"

definition getA :: "('s \<Rightarrow> 'a) \<Rightarrow> ('s, 'a) act" where
  "getA f = (\<lambda>s. (Ok (f s), s))"

definition modA :: "('s \<Rightarrow> 's) \<Rightarrow> ('s, unit) act" where
  "modA f = (\<lambda>s. (Ok (), f s))"

definition liftA :: "'a res \<Rightarrow> ('s, 'a) act" where
  "liftA r = (\<lambda>s. (r, s))"

definition whenA :: "bool \<Rightarrow> ('s, unit) act \<Rightarrow> ('s, unit) act" where
  "whenA b m = (if b then m else retA ())"

fun mapA :: "('a \<Rightarrow> ('s, 'b) act) \<Rightarrow> 'a list \<Rightarrow> ('s, 'b list) act" where
  "mapA f [] = retA []"
| "mapA f (x # xs) = bindA (f x) (\<lambda>y. bindA (mapA f xs) (\<lambda>ys. retA (y # ys)))"

fun forA :: "('a \<Rightarrow> ('s, unit) act) \<Rightarrow> 'a list \<Rightarrow> ('s, unit) act" where
  "forA f [] = retA ()"
| "forA f (x # xs) = seqA (f x) (forA f xs)"

text \<open>The body of a destructor: an exception that would leave it ends the process.\<close>

definition noexceptA :: "('s, 'a) act \<Rightarrow> ('s, 'a) act" where
  "noexceptA m = (\<lambda>s. case m s of (Inl e, s') \<Rightarrow> (Inl (Std_terminate e), s') | (Inr x, s') \<Rightarrow> (Inr x, s'))"

named_theorems act_simps \<open>evaluation of computations on a state\<close>

lemma act_eval [act_simps]:
  "retA x s = (Ok x, s)"
  "throwA e s = (Err e, s)"
  "getA f s = (Ok (f s), s)"
  "liftA r s = (r, s)"
  "modA h s = (Ok (), h s)"
  "whenA b m s = (if b then m s else (Ok (), s))"
  by (simp_all add: retA_def throwA_def getA_def modA_def liftA_def whenA_def)

lemma bindA_eval [act_simps]:
  "bindA m f s = (case m s of (r, s') \<Rightarrow> (case r of Inl e \<Rightarrow> (Inl e, s') | Inr x \<Rightarrow> f x s'))"
  by (simp add: bindA_def split: prod.split sum.split)

lemma seqA_eval [act_simps]:
  "seqA m n s = (case m s of (r, s') \<Rightarrow> (case r of Inl e \<Rightarrow> (Inl e, s') | Inr x \<Rightarrow> n s'))"
  by (simp add: seqA_def bindA_eval)

lemma bindA_prim [simp, act_simps]:
  "bindA (retA x) f s = f x s"
  "bindA (throwA e) f s = (Inl e, s)"
  "bindA (getA g) f s = f (g s) s"
  "bindA (liftA (Inr x)) f s = f x s"
  "bindA (liftA (Inl e)) f s = (Inl e, s)"
  by (simp_all add: bindA_def act_eval)

lemma bindA_modA [simp, act_simps]: "bindA (modA h) f s = f () (h s)"
  by (simp add: bindA_def act_eval)

lemma seqA_prim [simp, act_simps]:
  "seqA (retA x) n s = n s"
  "seqA (throwA e) n s = (Inl e, s)"
  by (simp_all add: seqA_def)

lemma seqA_modA [simp, act_simps]: "seqA (modA h) n s = n (h s)"
  by (simp add: seqA_def)

lemma bindA_Ok: "bindA m f s = (Ok y, t) \<longleftrightarrow> (\<exists>x u. m s = (Ok x, u) \<and> f x u = (Ok y, t))"
  by (auto simp: bindA_def split: prod.splits sum.splits)

lemma seqA_Ok: "seqA m n s = (Ok y, t) \<longleftrightarrow> (\<exists>x u. m s = (Ok x, u) \<and> n u = (Ok y, t))"
  by (simp add: seqA_def bindA_Ok)

section \<open>Computations that stay defined\<close>

text \<open>\<open>safe J m\<close>: from a state in \<open>J\<close> the computation ends in \<open>J\<close>, whether it returns or
  throws, and does nothing undefined.\<close>

fun ub :: "cpp_error \<Rightarrow> bool" where
  "ub (Undefined_behaviour msg) = True"
| "ub (Std_terminate e) = ub e"
| "ub _ = False"

definition ub_result :: "'a res \<Rightarrow> bool" where
  "ub_result r = (case r of Inl e \<Rightarrow> ub e | Inr _ \<Rightarrow> False)"

lemma ub_result_simps [simp]: "ub_result (Inl e) = ub e" "\<not> ub_result (Inr x)"
  by (simp_all add: ub_result_def)

definition safe :: "('s \<Rightarrow> bool) \<Rightarrow> ('s, 'a) act \<Rightarrow> bool" where
  "safe J m \<longleftrightarrow> (\<forall>s. J s \<longrightarrow> \<not> ub_result (fst (m s)) \<and> J (snd (m s)))"

lemma safeI: "(\<And>s. J s \<Longrightarrow> \<not> ub_result (fst (m s)) \<and> J (snd (m s))) \<Longrightarrow> safe J m"
  by (simp add: safe_def)

lemma safeD: "safe J m \<Longrightarrow> J s \<Longrightarrow> \<not> ub_result (fst (m s)) \<and> J (snd (m s))"
  by (simp add: safe_def)

lemma safe_pure: "safe J (retA x)" "safe J (getA f)" "\<not> ub e \<Longrightarrow> safe J (throwA e)"
  by (simp_all add: safe_def act_eval)

lemma safe_mod: "(\<And>s. J s \<Longrightarrow> J (f s)) \<Longrightarrow> safe J (modA f)"
  by (simp add: safe_def act_eval)

lemma safe_bind: "safe J m \<Longrightarrow> (\<And>x. safe J (f x)) \<Longrightarrow> safe J (bindA m f)"
  unfolding safe_def bindA_def by (auto split: prod.split sum.split)

lemma safe_seq: "safe J m \<Longrightarrow> safe J n \<Longrightarrow> safe J (seqA m n)"
  by (simp add: seqA_def safe_bind)

lemma safe_when: "(b \<Longrightarrow> safe J m) \<Longrightarrow> safe J (whenA b m)"
  by (simp add: whenA_def safe_pure)

lemma safe_forA: "(\<And>x. safe J (f x)) \<Longrightarrow> safe J (forA f xs)"
  by (induction xs) (simp_all add: safe_pure safe_seq)

lemma safe_noexcept: "safe J m \<Longrightarrow> safe J (noexceptA m)"
  unfolding safe_def noexceptA_def by (auto split: prod.split sum.split)

text \<open>A computation that starts with a part whose outcome on the state is known.\<close>

lemma safe_bind_known:
  "(\<And>s. J s \<Longrightarrow> m s = (Inr (g s), s)) \<Longrightarrow> (\<And>s. J s \<Longrightarrow> \<not> ub_result (fst (f (g s) s)) \<and> J (snd (f (g s) s)))
     \<Longrightarrow> safe J (bindA m f)"
  by (rule safeI) (simp add: bindA_def)

text \<open>The last part of a sequence may give up more of the invariant.\<close>

lemma safe_seq_weaken:
  assumes "safe J m" and "\<And>t. J t \<Longrightarrow> \<not> ub_result (fst (n t)) \<and> K (snd (n t))" and "\<And>t. J t \<Longrightarrow> K t" and "J s"
  shows "\<not> ub_result (fst (seqA m n s)) \<and> K (snd (seqA m n s))"
  using safeD [OF assms(1,4)] assms(2,3) by (auto simp: seqA_eval split: prod.split sum.split)

lemmas safe_rules = safe_pure safe_bind safe_seq safe_when safe_forA safe_noexcept

section \<open>Relations carried through computations\<close>

locale step_relation =
  fixes R :: "'s \<Rightarrow> 's \<Rightarrow> bool"
  assumes R_refl: "R s s"
    and R_trans: "R s t \<Longrightarrow> R t u \<Longrightarrow> R s u"
begin

definition within :: "('s, 'a) act \<Rightarrow> bool" where
  "within m \<longleftrightarrow> (\<forall>s. R s (snd (m s)))"

lemma withinI: "(\<And>s. R s (snd (m s))) \<Longrightarrow> within m"
  by (simp add: within_def)

lemma withinD: "within m \<Longrightarrow> m s = (r, s') \<Longrightarrow> R s s'"
  unfolding within_def by (metis snd_conv)

lemma within_pure: "within (retA x)" "within (throwA e)" "within (getA f)" "within (liftA r)"
  by (simp_all add: within_def act_eval R_refl)

lemma within_mod: "(\<And>s. R s (f s)) \<Longrightarrow> within (modA f)"
  by (simp add: within_def act_eval)

lemma within_bind: "within m \<Longrightarrow> (\<And>x. within (f x)) \<Longrightarrow> within (bindA m f)"
  unfolding within_def bindA_def by (auto split: prod.split sum.split) (metis R_trans snd_conv)+

lemma within_seq: "within m \<Longrightarrow> within n \<Longrightarrow> within (seqA m n)"
  by (simp add: seqA_def within_bind)

lemma within_when: "within m \<Longrightarrow> within (whenA b m)"
  by (simp add: whenA_def within_pure)

lemma within_if: "within m \<Longrightarrow> within n \<Longrightarrow> within (if b then m else n)"
  by simp

lemma within_mapA: "(\<And>x. within (f x)) \<Longrightarrow> within (mapA f xs)"
  by (induction xs) (simp_all add: within_pure within_bind)

lemma within_forA: "(\<And>x. within (f x)) \<Longrightarrow> within (forA f xs)"
  by (induction xs) (simp_all add: within_pure within_seq)

lemma within_noexcept: "within m \<Longrightarrow> within (noexceptA m)"
  unfolding within_def noexceptA_def by (auto split: prod.split sum.split) (metis snd_conv)+

lemmas within_rules = within_pure within_bind within_seq within_when within_mapA within_forA within_noexcept

end

end
