(* ===== verification/WaitSet.thy ===== *)
theory WaitSet
  imports Timer Effects
begin

text \<open>
  Wait sets (\<open>rcl/src/rcl/wait.c\<close>): arrays of subscriptions, guard conditions, timers, clients,
  services and events with the handles of the middleware beside them, and \<open>rcl_wait\<close>, which waits
  until one of them is ready or a time is over and then sets the entries that are not ready to
  null. The middleware (\<open>rmw_wait\<close>, the handles of the entities) and the allocator are arguments.
\<close>

section \<open>Arrays\<close>

text \<open>A pointer to an array: null, dangling after the array was freed, or the array. Entities and
  handles of the middleware are numbers, null pointers among the elements \<open>None\<close>.\<close>

datatype 'a ptr = Null | Dangling | Array "'a list"

definition read_at :: "'a ptr \<Rightarrow> nat \<Rightarrow> 'a res" where
  "read_at p i = (case p of
      Array xs \<Rightarrow> if i < length xs then Ok (xs ! i) else Err (Undefined_behaviour ''array index'')
    | _ \<Rightarrow> Err (Undefined_behaviour ''no array''))"

definition write_at :: "'a ptr \<Rightarrow> nat \<Rightarrow> 'a \<Rightarrow> 'a ptr res" where
  "write_at p i x = (case p of
      Array xs \<Rightarrow> if i < length xs then Ok (Array (xs[i := x])) else Err (Undefined_behaviour ''array index'')
    | _ \<Rightarrow> Err (Undefined_behaviour ''no array''))"

text \<open>\<open>memset\<close> of the first \<open>n\<close> elements to null, and \<open>deallocate\<close>, which accepts null.\<close>

definition clear_first :: "nat \<Rightarrow> 'a option ptr \<Rightarrow> 'a option ptr res" where
  "clear_first n p = (case p of
      Array xs \<Rightarrow> if n \<le> length xs then Ok (Array (replicate n None @ drop n xs)) else Err (Undefined_behaviour ''array index'')
    | Null \<Rightarrow> if n = 0 then Ok Null else Err (Undefined_behaviour ''no array'')
    | Dangling \<Rightarrow> Err (Undefined_behaviour ''use of freed memory''))"

definition free_array :: "'a ptr \<Rightarrow> unit res" where
  "free_array p = (if p = Dangling then Err (Undefined_behaviour ''double free'') else Ok ())"

section \<open>Wait sets\<close>

datatype entity_kind = Subscriptions | Guard_conditions | Timers | Clients | Services | Events

text \<open>The array of a kind of entities, its size and the number of entities added, with the array of
  the middleware and its count.\<close>

record entity_set =
  items :: "nat option ptr"
  size_of :: nat
  index_of :: nat
  rmw_items :: "nat option ptr"
  rmw_count :: nat

definition empty_set :: entity_set where
  "empty_set = \<lparr> items = Null, size_of = 0, index_of = 0, rmw_items = Null, rmw_count = 0 \<rparr>"

text \<open>\<open>impl\<close> tells whether the implementation is allocated; \<open>allocations\<close> counts the calls of the
  allocator.\<close>

record rcl_wait_set_t =
  impl :: bool
  entities :: "entity_kind \<Rightarrow> entity_set"
  allocations :: nat

datatype rmw_ret = RMW_RET_OK | RMW_RET_TIMEOUT | RMW_RET_ERROR

text \<open>
  What is outside: whether the allocator delivers; the handle of the middleware for an entity and the
  data it points to; the guard condition of a timer; the state of the timers and of their clocks
  before and after waiting; and \<open>rmw_wait\<close>, which takes a time and the first entries of the arrays.
\<close>

record wait_env =
  context_valid :: bool
  rmw_wait_set_created :: bool
  rmw_wait_set_destroyed :: bool
  grants :: "nat \<Rightarrow> bool"
  rmw_handle :: "entity_kind \<Rightarrow> nat \<Rightarrow> (nat \<times> nat) option"
  timer_guard :: "nat \<Rightarrow> nat option"
  timer_state :: "bool \<Rightarrow> nat \<Rightarrow> rcl_timer_impl option"
  timer_clock :: "bool \<Rightarrow> nat \<Rightarrow> clock_reading"
  rmw_wait :: "(int \<times> int) option \<Rightarrow> (entity_kind \<Rightarrow> nat option list) \<Rightarrow> rmw_ret \<times> (entity_kind \<Rightarrow> nat option list)"

type_synonym 'a wait_act = "(rcl_wait_set_t, 'a) act"

definition rcl_get_zero_initialized_wait_set :: rcl_wait_set_t where
  "rcl_get_zero_initialized_wait_set = \<lparr> impl = False, entities = (\<lambda>_. empty_set), allocations = 0 \<rparr>"

definition get_set :: "entity_kind \<Rightarrow> rcl_wait_set_t \<Rightarrow> entity_set" where
  "get_set k ws = entities ws k"

definition put_set :: "entity_kind \<Rightarrow> entity_set \<Rightarrow> unit wait_act" where
  "put_set k e = modA (\<lambda>ws. ws\<lparr> entities := (entities ws)(k := e) \<rparr>)"

definition allocate :: "wait_env \<Rightarrow> bool wait_act" where
  "allocate env = bindA (getA allocations) (\<lambda>n. seqA (modA (\<lambda>ws. ws\<lparr> allocations := Suc n \<rparr>)) (retA (grants env n)))"

text \<open>The next statement is reached if a return code is \<open>RCL_RET_OK\<close>.\<close>

definition onward :: "rcl_ret wait_act \<Rightarrow> rcl_ret wait_act \<Rightarrow> rcl_ret wait_act" where
  "onward m n = bindA m (\<lambda>ret. if ret = RCL_RET_OK then n else retA ret)"

section \<open>Resizing and clearing\<close>

text \<open>\<open>SET_RESIZE\<close> with the parts for the arrays of the middleware (\<open>rmw\<close>). When the second
  allocation fails, the first array is freed, but the pointer to it stays.\<close>

definition set_resize :: "wait_env \<Rightarrow> bool \<Rightarrow> entity_kind \<Rightarrow> nat \<Rightarrow> rcl_ret wait_act" where
  "set_resize env rmw k n =
     bindA (getA (get_set k)) (\<lambda>e0. let e = e0\<lparr> size_of := 0, index_of := 0 \<rparr> in
     if n = 0 then
       bindA (liftA (free_array (items e))) (\<lambda>_.
       if rmw \<and> rmw_items e \<noteq> Null
       then bindA (liftA (free_array (rmw_items e))) (\<lambda>_.
         seqA (put_set k (e\<lparr> items := Null, rmw_items := Null, rmw_count := 0 \<rparr>)) (retA RCL_RET_OK))
       else seqA (put_set k (e\<lparr> items := Null \<rparr>)) (retA RCL_RET_OK))
     else
       bindA (liftA (free_array (items e))) (\<lambda>_.
       bindA (allocate env) (\<lambda>ok.
       if \<not> ok then seqA (put_set k (e\<lparr> items := Null \<rparr>)) (retA RCL_RET_BAD_ALLOC)
       else let e1 = e\<lparr> items := Array (replicate n None), size_of := n \<rparr> in
         if \<not> rmw then seqA (put_set k e1) (retA RCL_RET_OK)
         else
           bindA (liftA (free_array (rmw_items e1))) (\<lambda>_.
           bindA (allocate env) (\<lambda>ok2.
           if \<not> ok2 then seqA (put_set k (e1\<lparr> items := Dangling, size_of := 0, rmw_items := Null, rmw_count := 0 \<rparr>)) (retA RCL_RET_BAD_ALLOC)
           else seqA (put_set k (e1\<lparr> rmw_items := Array (replicate n None), rmw_count := 0 \<rparr>)) (retA RCL_RET_OK))))))"

text \<open>The array of the middleware for guard conditions has room for those of the timers.\<close>

definition resize_rmw_guards :: "wait_env \<Rightarrow> nat \<Rightarrow> rcl_ret wait_act" where
  "resize_rmw_guards env n =
     bindA (getA (get_set Guard_conditions)) (\<lambda>g0. let g = g0\<lparr> rmw_count := 0 \<rparr> in
     bindA (liftA (free_array (rmw_items g))) (\<lambda>_.
     if n = 0 then seqA (put_set Guard_conditions (g\<lparr> rmw_items := Null \<rparr>)) (retA RCL_RET_OK)
     else
       bindA (allocate env) (\<lambda>ok.
       if ok then seqA (put_set Guard_conditions (g\<lparr> rmw_items := Array (replicate n None) \<rparr>)) (retA RCL_RET_OK)
       else
         bindA (liftA (free_array (items g))) (\<lambda>_.
         seqA (put_set Guard_conditions (g\<lparr> rmw_items := Null, items := Null, size_of := 0 \<rparr>))
           (bindA (getA (get_set Timers)) (\<lambda>t.
            bindA (liftA (free_array (items t))) (\<lambda>_.
            seqA (put_set Timers (t\<lparr> items := Null, size_of := 0 \<rparr>)) (retA RCL_RET_BAD_ALLOC))))))))"

definition rcl_wait_set_resize :: "wait_env \<Rightarrow> (entity_kind \<Rightarrow> nat) \<Rightarrow> rcl_ret wait_act" where
  "rcl_wait_set_resize env n =
     bindA (getA impl) (\<lambda>valid.
     if \<not> valid then retA RCL_RET_WAIT_SET_INVALID
     else
       onward (set_resize env True Subscriptions (n Subscriptions))
       (onward (set_resize env False Guard_conditions (n Guard_conditions))
       (onward (resize_rmw_guards env (n Guard_conditions + n Timers))
       (onward (set_resize env False Timers (n Timers))
       (onward (set_resize env True Clients (n Clients))
       (onward (set_resize env True Services (n Services))
         (set_resize env True Events (n Events))))))))"

text \<open>\<open>SET_CLEAR\<close> and \<open>SET_CLEAR_RMW\<close>: of the middleware's array only the counted entries are
  cleared.\<close>

definition set_clear :: "entity_kind \<Rightarrow> unit wait_act" where
  "set_clear k =
     bindA (getA (get_set k)) (\<lambda>e.
       whenA (items e \<noteq> Null)
         (bindA (liftA (clear_first (size_of e) (items e))) (\<lambda>xs. put_set k (e\<lparr> items := xs, index_of := 0 \<rparr>))))"

definition set_clear_rmw :: "entity_kind \<Rightarrow> unit wait_act" where
  "set_clear_rmw k =
     bindA (getA (get_set k)) (\<lambda>e.
       whenA (rmw_items e \<noteq> Null)
         (bindA (liftA (clear_first (rmw_count e) (rmw_items e))) (\<lambda>xs. put_set k (e\<lparr> rmw_items := xs, rmw_count := 0 \<rparr>))))"

definition rcl_wait_set_clear :: "rcl_ret wait_act" where
  "rcl_wait_set_clear =
     bindA (getA impl) (\<lambda>valid.
     if \<not> valid then retA RCL_RET_WAIT_SET_INVALID
     else
       seqA (forA set_clear [Subscriptions, Guard_conditions, Clients, Services, Events, Timers])
       (seqA (forA set_clear_rmw [Subscriptions, Guard_conditions, Clients, Services, Events])
         (retA RCL_RET_OK)))"

section \<open>Setting up and tearing down\<close>

definition wait_set_clean_up :: "wait_env \<Rightarrow> unit wait_act" where
  "wait_set_clean_up env =
     bindA (rcl_wait_set_resize env (\<lambda>_. 0)) (\<lambda>_. modA (\<lambda>ws. ws\<lparr> impl := False \<rparr>))"

definition fail_init :: "wait_env \<Rightarrow> rcl_ret \<Rightarrow> rcl_ret wait_act" where
  "fail_init env ret =
     seqA (wait_set_clean_up env) (retA (if rmw_wait_set_destroyed env then ret else RCL_RET_WAIT_SET_INVALID))"

definition rcl_wait_set_init :: "wait_env \<Rightarrow> (entity_kind \<Rightarrow> nat) \<Rightarrow> rcl_ret wait_act" where
  "rcl_wait_set_init env n =
     bindA (getA impl) (\<lambda>valid.
     if valid then retA RCL_RET_ALREADY_INIT
     else if \<not> context_valid env then retA RCL_RET_NOT_INIT
     else
       bindA (allocate env) (\<lambda>ok.
       if \<not> ok then retA RCL_RET_BAD_ALLOC
       else
         seqA (modA (\<lambda>ws. ws\<lparr> impl := True, entities := (\<lambda>k. (entities ws k)\<lparr> index_of := 0, rmw_items := Null, rmw_count := 0 \<rparr>) \<rparr>))
         (if \<not> rmw_wait_set_created env then fail_init env RCL_RET_ERROR
          else bindA (rcl_wait_set_resize env n) (\<lambda>ret.
            if ret = RCL_RET_OK then retA RCL_RET_OK else fail_init env ret))))"

definition rcl_wait_set_fini :: "wait_env \<Rightarrow> rcl_ret wait_act" where
  "rcl_wait_set_fini env =
     bindA (getA impl) (\<lambda>valid.
     if valid
     then seqA (wait_set_clean_up env) (retA (if rmw_wait_set_destroyed env then RCL_RET_OK else RCL_RET_WAIT_SET_INVALID))
     else retA RCL_RET_OK)"

section \<open>Adding entities\<close>

text \<open>\<open>SET_ADD\<close> and \<open>SET_ADD_RMW\<close>; the result is an error or the index of the new entry.\<close>

definition set_add :: "entity_kind \<Rightarrow> nat option \<Rightarrow> (rcl_ret + nat) wait_act" where
  "set_add k h =
     bindA (getA (\<lambda>ws. (impl ws, get_set k ws))) (\<lambda>(valid, e).
     if \<not> valid then retA (Inl RCL_RET_WAIT_SET_INVALID)
     else if h = None then retA (Inl RCL_RET_INVALID_ARGUMENT)
     else if \<not> index_of e < size_of e then retA (Inl RCL_RET_WAIT_SET_FULL)
     else
       bindA (liftA (write_at (items e) (index_of e) h)) (\<lambda>xs.
       seqA (put_set k (e\<lparr> items := xs, index_of := Suc (index_of e) \<rparr>)) (retA (Inr (index_of e)))))"

definition set_add_rmw :: "entity_kind \<Rightarrow> nat option \<Rightarrow> nat \<Rightarrow> (rcl_ret + nat) wait_act" where
  "set_add_rmw k data i =
     (case data of
        None \<Rightarrow> retA (Inl RCL_RET_ERROR)
      | Some d \<Rightarrow>
          bindA (getA (get_set k)) (\<lambda>e.
          bindA (liftA (write_at (rmw_items e) i (Some d))) (\<lambda>xs.
          seqA (put_set k (e\<lparr> rmw_items := xs, rmw_count := Suc (rmw_count e) \<rparr>)) (retA (Inr i)))))"

definition set_add_both :: "wait_env \<Rightarrow> entity_kind \<Rightarrow> nat option \<Rightarrow> (rcl_ret + nat) wait_act" where
  "set_add_both env k h =
     bindA (set_add k h) (\<lambda>r.
       case r of Inl ret \<Rightarrow> retA (Inl ret)
       | Inr i \<Rightarrow> set_add_rmw k (Option.bind h (\<lambda>x. map_option (if k = Events then fst else snd) (rmw_handle env k x))) i)"

definition rcl_wait_set_add_subscription :: "wait_env \<Rightarrow> nat option \<Rightarrow> (rcl_ret + nat) wait_act" where
  "rcl_wait_set_add_subscription env = set_add_both env Subscriptions"
definition rcl_wait_set_add_guard_condition :: "wait_env \<Rightarrow> nat option \<Rightarrow> (rcl_ret + nat) wait_act" where
  "rcl_wait_set_add_guard_condition env = set_add_both env Guard_conditions"
definition rcl_wait_set_add_client :: "wait_env \<Rightarrow> nat option \<Rightarrow> (rcl_ret + nat) wait_act" where
  "rcl_wait_set_add_client env = set_add_both env Clients"
definition rcl_wait_set_add_service :: "wait_env \<Rightarrow> nat option \<Rightarrow> (rcl_ret + nat) wait_act" where
  "rcl_wait_set_add_service env = set_add_both env Services"
definition rcl_wait_set_add_event :: "wait_env \<Rightarrow> nat option \<Rightarrow> (rcl_ret + nat) wait_act" where
  "rcl_wait_set_add_event env = set_add_both env Events"

text \<open>The guard condition of a timer is put behind the room for the guard conditions.\<close>

definition rcl_wait_set_add_timer :: "wait_env \<Rightarrow> nat option \<Rightarrow> (rcl_ret + nat) wait_act" where
  "rcl_wait_set_add_timer env h =
     bindA (set_add Timers h) (\<lambda>r.
       case r of
         Inl ret \<Rightarrow> retA (Inl ret)
       | Inr i \<Rightarrow>
           (case Option.bind h (timer_guard env) of
              None \<Rightarrow> retA (Inr i)
            | Some gc \<Rightarrow>
                (case rmw_handle env Guard_conditions gc of
                   None \<Rightarrow> retA (Inl RCL_RET_ERROR)
                 | Some (_, d) \<Rightarrow>
                     bindA (getA (\<lambda>ws. (get_set Guard_conditions ws, index_of (get_set Timers ws)))) (\<lambda>(g, ti).
                     bindA (liftA (write_at (rmw_items g) (size_of g + (ti - 1)) (Some d))) (\<lambda>xs.
                     seqA (put_set Guard_conditions (g\<lparr> rmw_items := xs \<rparr>)) (retA (Inr i)))))))"

section \<open>Waiting\<close>

text \<open>The first loop over the timers: canceled ones are dropped, guard conditions are moved to the
  counted ones, and the least time until a call is found.\<close>

fun timers_before :: "wait_env \<Rightarrow> nat list \<Rightarrow> bool \<Rightarrow> int \<Rightarrow> (rcl_ret + bool \<times> int) wait_act" where
  "timers_before env [] is_timer_timeout min_timeout = retA (Inr (is_timer_timeout, min_timeout))"
| "timers_before env (i # is) is_timer_timeout min_timeout =
     bindA (getA (get_set Timers)) (\<lambda>t.
     bindA (liftA (read_at (items t) i)) (\<lambda>entry.
     case entry of
       None \<Rightarrow> timers_before env is is_timer_timeout min_timeout
     | Some h \<Rightarrow>
         (case timer_state env False h of
            None \<Rightarrow> throwA (Undefined_behaviour ''null timer impl'')
          | Some tm \<Rightarrow>
              if rcl_timer_is_canceled tm then
                bindA (liftA (write_at (items t) i None)) (\<lambda>xs.
                seqA (put_set Timers (t\<lparr> items := xs \<rparr>)) (timers_before env is is_timer_timeout min_timeout))
              else
                bindA (getA (get_set Guard_conditions)) (\<lambda>g.
                bindA (liftA (read_at (rmw_items g) (size_of g + i))) (\<lambda>gc.
                seqA (if gc \<noteq> None
                      then bindA (liftA (write_at (rmw_items g) (rmw_count g) gc)) (\<lambda>xs.
                        put_set Guard_conditions (g\<lparr> rmw_items := xs, rmw_count := Suc (rmw_count g) \<rparr>))
                      else retA ())
                  (bindA (liftA (rcl_timer_get_time_until_next_call (timer_clock env False h) (Some tm))) (\<lambda>r.
                   case r of
                     Inl ret \<Rightarrow> retA (Inl ret)
                   | Inr timer_timeout \<Rightarrow>
                       if timer_timeout < min_timeout then timers_before env is True timer_timeout
                       else timers_before env is is_timer_timeout min_timeout)))))))"

fun timers_after :: "wait_env \<Rightarrow> nat list \<Rightarrow> rcl_ret wait_act" where
  "timers_after env [] = retA RCL_RET_OK"
| "timers_after env (i # is) =
     bindA (getA (get_set Timers)) (\<lambda>t.
     bindA (liftA (read_at (items t) i)) (\<lambda>entry.
     case entry of
       None \<Rightarrow> timers_after env is
     | Some h \<Rightarrow>
         bindA (liftA (rcl_timer_is_ready (timer_clock env True h) (timer_state env True h))) (\<lambda>r.
         case r of
           Inl ret \<Rightarrow> retA ret
         | Inr ready \<Rightarrow>
             if ready then timers_after env is
             else bindA (liftA (write_at (items t) i None)) (\<lambda>xs.
               seqA (put_set Timers (t\<lparr> items := xs \<rparr>)) (timers_after env is)))))"

text \<open>The time for \<open>rmw_wait\<close>, in seconds and nanoseconds.\<close>

definition timeout_argument :: "int \<Rightarrow> bool \<Rightarrow> int \<Rightarrow> (int \<times> int) option" where
  "timeout_argument timeout is_timer_timeout min_timeout =
     (if timeout = 0 then Some (0, 0)
      else if timeout > 0 \<or> is_timer_timeout then
        let m = (if min_timeout < 0 then 0 else min_timeout) in Some (m div 1000000000, m mod 1000000000)
      else None)"

definition contents :: "'a ptr \<Rightarrow> 'a list" where
  "contents p = (case p of Array xs \<Rightarrow> xs | _ \<Rightarrow> [])"

text \<open>\<open>rmw_wait\<close> gets the counted entries and puts its own in their place.\<close>

definition call_rmw_wait :: "wait_env \<Rightarrow> (int \<times> int) option \<Rightarrow> rmw_ret wait_act" where
  "call_rmw_wait env timeout ws =
     (let seen = (\<lambda>k. take (rmw_count (get_set k ws)) (contents (rmw_items (get_set k ws))));
          (ret, out) = rmw_wait env timeout seen
      in (Ok ret, ws\<lparr> entities := (\<lambda>k. let e = entities ws k in
            case rmw_items e of
              Array xs \<Rightarrow> e\<lparr> rmw_items := Array (out k @ drop (rmw_count e) xs) \<rparr>
            | _ \<Rightarrow> e) \<rparr>))"

text \<open>A loop that sets the entries without a handle of the middleware to null.\<close>

fun drop_unready :: "entity_kind \<Rightarrow> nat list \<Rightarrow> unit wait_act" where
  "drop_unready k [] = retA ()"
| "drop_unready k (i # is) =
     bindA (getA (get_set k)) (\<lambda>e.
     bindA (liftA (read_at (rmw_items e) i)) (\<lambda>h.
     seqA (if h = None then bindA (liftA (write_at (items e) i None)) (\<lambda>xs. put_set k (e\<lparr> items := xs \<rparr>)) else retA ())
       (drop_unready k is)))"

definition drop_unready_all :: "entity_kind \<Rightarrow> unit wait_act" where
  "drop_unready_all k = bindA (getA (\<lambda>ws. size_of (get_set k ws))) (\<lambda>n. drop_unready k [0..<n])"

definition all_kinds :: "entity_kind list" where
  "all_kinds = [Subscriptions, Guard_conditions, Timers, Clients, Services, Events]"

definition rcl_wait :: "wait_env \<Rightarrow> int \<Rightarrow> rcl_ret wait_act" where
  "rcl_wait env timeout =
     bindA (getA (\<lambda>ws. ws)) (\<lambda>ws.
     if \<not> impl ws then retA RCL_RET_WAIT_SET_INVALID
     else if list_all (\<lambda>k. size_of (get_set k ws) = 0) all_kinds then retA RCL_RET_WAIT_SET_EMPTY
     else
       bindA (timers_before env [0..<index_of (get_set Timers ws)] False (if timeout > 0 then timeout else INT64_MAX)) (\<lambda>r.
       case r of
         Inl ret \<Rightarrow> retA ret
       | Inr (is_timer_timeout, min_timeout) \<Rightarrow>
           bindA (call_rmw_wait env (timeout_argument timeout is_timer_timeout min_timeout)) (\<lambda>rmw.
           onward (timers_after env [0..<index_of (get_set Timers ws)])
           (if rmw = RMW_RET_ERROR then retA RCL_RET_ERROR
            else seqA (forA drop_unready_all [Subscriptions, Guard_conditions, Clients, Services, Events])
              (retA (if rmw = RMW_RET_TIMEOUT \<and> \<not> is_timer_timeout then RCL_RET_TIMEOUT else RCL_RET_OK))))))"

section \<open>Filled wait sets\<close>

text \<open>What the middleware is given for an entity and for the guard condition of a timer.\<close>

definition rmw_data :: "wait_env \<Rightarrow> entity_kind \<Rightarrow> nat \<Rightarrow> nat option" where
  "rmw_data env k h = map_option (if k = Events then fst else snd) (rmw_handle env k h)"

definition timer_data :: "wait_env \<Rightarrow> nat \<Rightarrow> nat option" where
  "timer_data env h = Option.bind (timer_guard env h) (rmw_data env Guard_conditions)"

definition filled_array :: "nat \<Rightarrow> nat option list \<Rightarrow> nat option ptr" where
  "filled_array n xs = (if n = 0 then Null else Array (xs @ replicate (n - length xs) None))"

text \<open>The wait set of sizes \<open>n\<close> to which the entities \<open>hs\<close> have been added.\<close>

definition full_set :: "wait_env \<Rightarrow> (entity_kind \<Rightarrow> nat) \<Rightarrow> (entity_kind \<Rightarrow> nat list) \<Rightarrow> entity_kind \<Rightarrow> entity_set" where
  "full_set env n hs k =
     \<lparr> items = filled_array (n k) (map Some (hs k)), size_of = n k, index_of = length (hs k),
       rmw_items =
         (if k = Timers then Null
          else if k = Guard_conditions then
            filled_array (n Guard_conditions + n Timers)
              (map (rmw_data env k) (hs k) @ replicate (n k - length (hs k)) None @ map (timer_data env) (hs Timers))
          else filled_array (n k) (map (rmw_data env k) (hs k))),
       rmw_count = (if k = Timers then 0 else length (hs k)) \<rparr>"

definition filled_with :: "wait_env \<Rightarrow> (entity_kind \<Rightarrow> nat) \<Rightarrow> (entity_kind \<Rightarrow> nat list) \<Rightarrow> rcl_wait_set_t \<Rightarrow> bool" where
  "filled_with env n hs ws \<longleftrightarrow> impl ws \<and> entities ws = full_set env n hs \<and> (\<forall>k. length (hs k) \<le> n k)"

text \<open>A wait set that may be resized.\<close>

definition sound :: "rcl_wait_set_t \<Rightarrow> bool" where
  "sound ws \<longleftrightarrow> impl ws \<and> (\<forall>k. items (entities ws k) \<noteq> Dangling \<and> rmw_items (entities ws k) \<noteq> Dangling \<and>
       (rmw_items (entities ws k) = Null \<longrightarrow> rmw_count (entities ws k) = 0)) \<and> rmw_items (entities ws Timers) = Null"

lemma free_array_ok [simp]: "p \<noteq> Dangling \<Longrightarrow> free_array p = Ok ()"
  by (simp add: free_array_def)

definition resized :: "bool \<Rightarrow> nat \<Rightarrow> entity_set \<Rightarrow> entity_set" where
  "resized rmw n e =
     \<lparr> items = filled_array n [], size_of = n, index_of = 0,
       rmw_items = (if rmw then filled_array n [] else rmw_items e),
       rmw_count = (if rmw \<and> (n \<noteq> 0 \<or> rmw_items e \<noteq> Null) then 0 else rmw_count e) \<rparr>"

lemma allocate_ok: "grants env (allocations ws) \<Longrightarrow> allocate env ws = (Ok True, ws\<lparr> allocations := Suc (allocations ws) \<rparr>)"
  by (simp add: allocate_def act_eval)

lemma set_resize_ok:
  assumes "\<And>i. grants env i" "items (entities ws k) \<noteq> Dangling" "rmw_items (entities ws k) \<noteq> Dangling"
  shows "\<exists>ws'. set_resize env rmw k n ws = (Ok RCL_RET_OK, ws') \<and> impl ws' = impl ws \<and>
    entities ws' = (entities ws)(k := resized rmw n (entities ws k))"
proof -
  obtain p sz ix q c where "entities ws k = \<lparr> items = p, size_of = sz, index_of = ix, rmw_items = q, rmw_count = c \<rparr>"
    by (cases "entities ws k")
  with assms show ?thesis
    by (cases "n = 0"; cases rmw; cases "q = Null")
      (simp_all add: set_resize_def get_set_def put_set_def allocate_ok bindA_eval act_eval Let_def resized_def filled_array_def)
qed

lemma resize_rmw_guards_ok:
  assumes "\<And>i. grants env i" "rmw_items (entities ws Guard_conditions) \<noteq> Dangling"
  shows "\<exists>ws'. resize_rmw_guards env n ws = (Ok RCL_RET_OK, ws') \<and> impl ws' = impl ws \<and>
    entities ws' = (entities ws)(Guard_conditions := (entities ws Guard_conditions)\<lparr> rmw_items := filled_array n [], rmw_count := 0 \<rparr>)"
proof -
  obtain p sz ix q c where "entities ws Guard_conditions = \<lparr> items = p, size_of = sz, index_of = ix, rmw_items = q, rmw_count = c \<rparr>"
    by (cases "entities ws Guard_conditions")
  with assms show ?thesis
    by (cases "n = 0")
      (simp_all add: resize_rmw_guards_def get_set_def put_set_def allocate_ok bindA_eval act_eval Let_def filled_array_def)
qed

lemma onward_ok: "m s = (Ok RCL_RET_OK, t) \<Longrightarrow> onward m n s = n t"
  by (simp add: onward_def bindA_eval)

text \<open>A wait set that is resized with enough memory is empty and has the given sizes.\<close>

lemma resize_filled:
  assumes "\<And>i. grants env i" "sound ws"
  shows "\<exists>ws'. rcl_wait_set_resize env n ws = (Ok RCL_RET_OK, ws') \<and> filled_with env n (\<lambda>_. []) ws'"
proof -
  have nd: "items (entities ws k) \<noteq> Dangling" "rmw_items (entities ws k) \<noteq> Dangling" for k using assms(2) by (simp_all add: sound_def)
  note step = set_resize_ok [OF assms(1)]
  obtain w1 where w1: "set_resize env True Subscriptions (n Subscriptions) ws = (Ok RCL_RET_OK, w1)" "impl w1 = impl ws"
    "entities w1 = (entities ws)(Subscriptions := resized True (n Subscriptions) (entities ws Subscriptions))"
    using step [of ws Subscriptions True "n Subscriptions"] nd by auto
  obtain w2 where w2: "set_resize env False Guard_conditions (n Guard_conditions) w1 = (Ok RCL_RET_OK, w2)" "impl w2 = impl ws"
    "entities w2 = (entities w1)(Guard_conditions := resized False (n Guard_conditions) (entities ws Guard_conditions))"
    using step [of w1 Guard_conditions False "n Guard_conditions"] nd w1 by auto
  obtain w3 where w3: "resize_rmw_guards env (n Guard_conditions + n Timers) w2 = (Ok RCL_RET_OK, w3)" "impl w3 = impl ws"
    "entities w3 = (entities w2)(Guard_conditions := (entities w2 Guard_conditions)\<lparr> rmw_items := filled_array (n Guard_conditions + n Timers) [], rmw_count := 0 \<rparr>)"
    using resize_rmw_guards_ok [OF assms(1), of w2 "n Guard_conditions + n Timers"] nd w2 by (auto simp: resized_def)
  obtain w4 where w4: "set_resize env False Timers (n Timers) w3 = (Ok RCL_RET_OK, w4)" "impl w4 = impl ws"
    "entities w4 = (entities w3)(Timers := resized False (n Timers) (entities ws Timers))"
    using step [of w3 Timers False "n Timers"] nd w1 w2 w3 by auto
  obtain w5 where w5: "set_resize env True Clients (n Clients) w4 = (Ok RCL_RET_OK, w5)" "impl w5 = impl ws"
    "entities w5 = (entities w4)(Clients := resized True (n Clients) (entities ws Clients))"
    using step [of w4 Clients True "n Clients"] nd w1 w2 w3 w4 by auto
  obtain w6 where w6: "set_resize env True Services (n Services) w5 = (Ok RCL_RET_OK, w6)" "impl w6 = impl ws"
    "entities w6 = (entities w5)(Services := resized True (n Services) (entities ws Services))"
    using step [of w5 Services True "n Services"] nd w1 w2 w3 w4 w5 by auto
  obtain w7 where w7: "set_resize env True Events (n Events) w6 = (Ok RCL_RET_OK, w7)" "impl w7 = impl ws"
    "entities w7 = (entities w6)(Events := resized True (n Events) (entities ws Events))"
    using step [of w6 Events True "n Events"] nd w1 w2 w3 w4 w5 w6 by auto
  have "rcl_wait_set_resize env n ws = (Ok RCL_RET_OK, w7)"
    using assms(2) w1 w2 w3 w4 w5 w6 w7 by (simp add: rcl_wait_set_resize_def sound_def onward_ok act_eval)
  moreover have "entities w7 k = full_set env n (\<lambda>_. []) k" for k
    using assms(2) unfolding w7(3) w6(3) w5(3) w4(3) w3(3) w2(3) w1(3)
    by (cases k) (simp_all add: full_set_def resized_def filled_array_def sound_def flip: replicate_add)
  ultimately show ?thesis using assms(2) w7 by (auto simp: filled_with_def sound_def)
qed

section \<open>Adding to a filled_with wait set\<close>

lemma fill_next: "0 < m \<Longrightarrow> (xs @ replicate m a @ ys)[length xs := v] = xs @ v # replicate (m - 1) a @ ys"
  by (cases m) (simp_all add: list_update_append)

lemma filled_next: "length xs < n \<Longrightarrow> write_at (filled_array n xs) (length xs) v = Ok (filled_array n (xs @ [v]))"
  using fill_next [of "n - length xs" xs None "[]" v] by (simp add: filled_array_def write_at_def)

lemma filled_gap: "length xs < g \<Longrightarrow> length ys \<le> t \<Longrightarrow>
    write_at (filled_array (g + t) (xs @ replicate (g - length xs) None @ ys)) (length xs) v =
    Ok (filled_array (g + t) ((xs @ [v]) @ replicate (g - length (xs @ [v])) None @ ys))"
  using fill_next [of "g - length xs" xs None "ys @ replicate (t - length ys) None" v]
  by (simp add: filled_array_def write_at_def)

lemma filled_none: "length xs < n \<Longrightarrow> filled_array n (xs @ [None]) = filled_array n xs"
  by (cases "n - length xs") (auto simp: filled_array_def)

lemma full_set_simps [simp]: "size_of (full_set env n hs k) = n k" "index_of (full_set env n hs k) = length (hs k)"
  "k \<noteq> Timers \<Longrightarrow> rmw_count (full_set env n hs k) = length (hs k)"
  by (simp_all add: full_set_def)

lemma add_filled:
  assumes "filled_with env n hs ws" "length (hs k) < n k" "k \<noteq> Timers" "rmw_data env k h = Some d"
  shows "\<exists>ws'. set_add_both env k (Some h) ws = (Ok (Inr (length (hs k))), ws') \<and> filled_with env n (hs(k := hs k @ [h])) ws'"
proof -
  let ?e = "full_set env n hs k" and ?hs = "hs(k := hs k @ [h])"
  have e: "get_set k ws = ?e" "impl ws" using assms(1) by (simp_all add: filled_with_def get_set_def)
  have items: "write_at (items ?e) (length (hs k)) (Some h) = Ok (items (full_set env n ?hs k))"
    using filled_next [of "map Some (hs k)" "n k" "Some h"] assms(2) by (simp add: full_set_def)
  have rmw: "write_at (rmw_items ?e) (length (hs k)) (Some d) = Ok (rmw_items (full_set env n ?hs k))"
  proof (cases "k = Guard_conditions")
    case True
    with filled_gap [of "map (rmw_data env k) (hs k)" "n k" "map (timer_data env) (hs Timers)" "n Timers" "Some d"] assms
    show ?thesis by (simp add: full_set_def filled_with_def)
  next
    case False
    with filled_next [of "map (rmw_data env k) (hs k)" "n k" "Some d"] assms show ?thesis by (simp add: full_set_def)
  qed
  let ?e1 = "?e\<lparr> items := items (full_set env n ?hs k), index_of := Suc (length (hs k)) \<rparr>"
  let ?ws1 = "ws\<lparr> entities := (entities ws)(k := ?e1) \<rparr>"
  have "set_add k (Some h) ws = (Ok (Inr (length (hs k))), ?ws1)"
    using assms(2) e items by (simp add: set_add_def put_set_def act_eval bindA_eval)
  moreover have "set_add_rmw k (Some d) (length (hs k)) ?ws1 =
      (Ok (Inr (length (hs k))), ?ws1\<lparr> entities := (entities ws)(k := full_set env n ?hs k) \<rparr>)"
    using rmw assms(3) by (simp add: set_add_rmw_def get_set_def put_set_def act_eval bindA_eval) (simp add: full_set_def fun_upd_def)
  moreover have "(entities ws)(k := full_set env n ?hs k) = full_set env n ?hs"
    using assms(1,3) by (auto simp: filled_with_def full_set_def fun_eq_iff)
  ultimately show ?thesis using assms by (auto simp: set_add_both_def bindA_eval filled_with_def rmw_data_def)
qed

lemma add_timer_filled:
  assumes "filled_with env n hs ws" "length (hs Timers) < n Timers"
    and "\<And>g. timer_guard env h = Some g \<Longrightarrow> rmw_handle env Guard_conditions g \<noteq> None"
  shows "\<exists>ws'. rcl_wait_set_add_timer env (Some h) ws = (Ok (Inr (length (hs Timers))), ws') \<and> filled_with env n (hs(Timers := hs Timers @ [h])) ws'"
proof -
  let ?hs = "hs(Timers := hs Timers @ [h])" and ?i = "length (hs Timers)"
  let ?t = "full_set env n hs Timers" and ?g = "full_set env n hs Guard_conditions"
  have len: "length (hs Guard_conditions) \<le> n Guard_conditions" using assms(1) by (simp add: filled_with_def)
  have e: "get_set Timers ws = ?t" "impl ws" using assms(1) by (simp_all add: filled_with_def get_set_def)
  have items: "write_at (items ?t) ?i (Some h) = Ok (items (full_set env n ?hs Timers))"
    using filled_next [of "map Some (hs Timers)" "n Timers" "Some h"] assms(2) by (simp add: full_set_def)
  let ?ws1 = "ws\<lparr> entities := (entities ws)(Timers := full_set env n ?hs Timers) \<rparr>"
  have "?t\<lparr> items := items (full_set env n ?hs Timers), index_of := Suc ?i \<rparr> = full_set env n ?hs Timers" by (simp add: full_set_def)
  then have add: "set_add Timers (Some h) ws = (Ok (Inr ?i), ?ws1)"
    using assms(2) e items by (simp add: set_add_def put_set_def act_eval bindA_eval)
  let ?xs = "map (rmw_data env Guard_conditions) (hs Guard_conditions) @ replicate (n Guard_conditions - length (hs Guard_conditions)) None @
      map (timer_data env) (hs Timers)"
  have xs: "length ?xs = n Guard_conditions + ?i" using len by simp
  have rmw: "write_at (rmw_items ?g) (n Guard_conditions + ?i) (timer_data env h) = Ok (rmw_items (full_set env n ?hs Guard_conditions))"
    using filled_next [of ?xs "n Guard_conditions + n Timers" "timer_data env h"] assms(2) unfolding xs by (simp add: full_set_def)
  have other: "(entities ws)(Timers := full_set env n ?hs Timers, Guard_conditions := full_set env n ?hs Guard_conditions) = full_set env n ?hs"
    using assms(1) by (auto simp: filled_with_def full_set_def fun_eq_iff)
  show ?thesis
  proof (cases "timer_guard env h")
    case None
    then have "rmw_items (full_set env n ?hs Guard_conditions) = rmw_items ?g"
      using filled_none [of ?xs "n Guard_conditions + n Timers"] assms(2) unfolding xs by (simp add: timer_data_def full_set_def)
    then have "full_set env n ?hs Guard_conditions = ?g" by (simp add: full_set_def)
    with other have "(entities ws)(Timers := full_set env n ?hs Timers, Guard_conditions := ?g) = full_set env n ?hs" by simp
    moreover have "entities ws Guard_conditions = ?g" using assms(1) by (simp add: filled_with_def)
    ultimately have "entities ?ws1 = full_set env n ?hs" by (simp add: fun_upd_idem)
    then show ?thesis using None add assms by (auto simp: rcl_wait_set_add_timer_def bindA_eval act_eval filled_with_def)
  next
    case (Some gc)
    then obtain a d where d: "rmw_handle env Guard_conditions gc = Some (a, d)" using assms(3) by (metis not_None_eq prod.exhaust)
    then have "timer_data env h = Some d" using Some by (simp add: timer_data_def rmw_data_def)
    moreover have "?g\<lparr> rmw_items := rmw_items (full_set env n ?hs Guard_conditions) \<rparr> = full_set env n ?hs Guard_conditions"
      by (simp add: full_set_def)
    ultimately show ?thesis using Some d add rmw other assms
      by (simp add: rcl_wait_set_add_timer_def bindA_eval act_eval get_set_def put_set_def filled_with_def)
  qed
qed

section \<open>Waiting on a filled_with wait set\<close>

text \<open>The timers whose state and clock give a time until the next call.\<close>

definition until_next :: "wait_env \<Rightarrow> bool \<Rightarrow> nat \<Rightarrow> int" where
  "until_next env b h = (case (timer_state env b h, timer_clock env b h) of (Some tm, Inr now) \<Rightarrow> next_call_time tm - now | _ \<Rightarrow> 0)"

definition timer_readable :: "wait_env \<Rightarrow> bool \<Rightarrow> nat \<Rightarrow> bool" where
  "timer_readable env b h \<longleftrightarrow>
     (\<exists>tm now. timer_state env b h = Some tm \<and> timer_clock env b h = Inr now \<and> in_i64 (next_call_time tm - now))"

definition timer_live :: "wait_env \<Rightarrow> bool \<Rightarrow> nat \<Rightarrow> bool" where
  "timer_live env b h \<longleftrightarrow> (\<exists>tm. timer_state env b h = Some tm \<and> \<not> canceled tm)"

lemma readable_until: "timer_readable env b h \<Longrightarrow>
    rcl_timer_get_time_until_next_call (timer_clock env b h) (timer_state env b h) = Ok (Inr (until_next env b h))"
  by (auto simp: timer_readable_def until_next_def rcl_timer_get_time_until_next_call_def i64_sub_def i64_result_def)

lemma readable_ready: "timer_readable env b h \<Longrightarrow>
    rcl_timer_is_ready (timer_clock env b h) (timer_state env b h) = Ok (Inr (until_next env b h \<le> 0 \<and> timer_live env b h))"
  by (frule readable_until) (auto simp: rcl_timer_is_ready_def timer_readable_def timer_live_def)

text \<open>The state of the first loop when \<open>j\<close> timers have been looked at.\<close>

definition marked :: "wait_env \<Rightarrow> bool \<Rightarrow> nat \<Rightarrow> nat option" where
  "marked env b h = (if timer_live env b h then Some h else None)"

definition moved :: "wait_env \<Rightarrow> nat list \<Rightarrow> nat list" where
  "moved env hs = List.map_filter (\<lambda>h. if timer_live env False h then timer_data env h else None) hs"

definition before_inv :: "wait_env \<Rightarrow> (entity_kind \<Rightarrow> nat) \<Rightarrow> (entity_kind \<Rightarrow> nat list) \<Rightarrow> nat \<Rightarrow> rcl_wait_set_t \<Rightarrow> bool" where
  "before_inv env n hs j ws \<longleftrightarrow>
     impl ws \<and> (\<forall>k. k \<noteq> Timers \<longrightarrow> k \<noteq> Guard_conditions \<longrightarrow> entities ws k = full_set env n hs k) \<and>
     entities ws Timers = (full_set env n hs Timers)\<lparr> items :=
       filled_array (n Timers) (map (marked env False) (take j (hs Timers)) @ map Some (drop j (hs Timers))) \<rparr> \<and>
     (\<exists>ys. length ys = n Guard_conditions + n Timers \<and>
        entities ws Guard_conditions = (full_set env n hs Guard_conditions)\<lparr>
          rmw_items := (if ys = [] then Null else Array ys),
          rmw_count := length (hs Guard_conditions) + length (moved env (take j (hs Timers))) \<rparr> \<and>
        take (length (hs Guard_conditions) + length (moved env (take j (hs Timers)))) ys =
          map (rmw_data env Guard_conditions) (hs Guard_conditions) @ map Some (moved env (take j (hs Timers))) \<and>
        (\<forall>i. j \<le> i \<and> i < length (hs Timers) \<longrightarrow> ys ! (n Guard_conditions + i) = timer_data env (hs Timers ! i)))"

lemma moved_simps [simp]: "moved env [] = []"
  "moved env (hs @ [h]) = moved env hs @ (case (if timer_live env False h then timer_data env h else None) of None \<Rightarrow> [] | Some d \<Rightarrow> [d])"
  by (simp_all add: moved_def List.map_filter_def split: option.split)

lemma moved_length: "length (moved env hs) \<le> length hs"
  unfolding moved_def List.map_filter_def by (metis length_filter_le length_map)

lemma before_start:
  assumes "filled_with env n hs ws"
  shows "before_inv env n hs 0 ws"
proof -
  let ?g = "n Guard_conditions" and ?t = "n Timers"
  let ?gs = "map (rmw_data env Guard_conditions) (hs Guard_conditions) @ replicate (?g - length (hs Guard_conditions)) None"
  let ?ts = "map (timer_data env) (hs Timers) @ replicate (?t - length (hs Timers)) None"
  define ys where "ys = ?gs @ ?ts"
  have len: "length (hs Guard_conditions) \<le> ?g" "length (hs Timers) \<le> ?t" and ws: "impl ws" "entities ws = full_set env n hs"
    using assms by (simp_all add: filled_with_def)
  have gs: "length ?gs = ?g" using len by simp
  have ys: "length ys = ?g + ?t" using len by (simp add: ys_def)
  then have "ys = [] \<longleftrightarrow> ?g + ?t = 0" by (metis length_0_conv)
  then have rmw: "(if ys = [] then Null else Array ys) = rmw_items (full_set env n hs Guard_conditions)"
    using len by (simp add: full_set_def filled_array_def) (simp add: ys_def)
  have nth: "ys ! (?g + i) = timer_data env (hs Timers ! i)" if "i < length (hs Timers)" for i
    using nth_append_length_plus [of ?gs ?ts i] that unfolding ys_def gs by (simp add: nth_append)
  have "take (length (hs Guard_conditions)) ys = map (rmw_data env Guard_conditions) (hs Guard_conditions)"
    by (simp add: ys_def)
  then have "\<exists>ys. length ys = ?g + ?t \<and>
        entities ws Guard_conditions = (full_set env n hs Guard_conditions)\<lparr> rmw_items := (if ys = [] then Null else Array ys),
          rmw_count := length (hs Guard_conditions) + length (moved env (take 0 (hs Timers))) \<rparr> \<and>
        take (length (hs Guard_conditions) + length (moved env (take 0 (hs Timers)))) ys =
          map (rmw_data env Guard_conditions) (hs Guard_conditions) @ map Some (moved env (take 0 (hs Timers))) \<and>
        (\<forall>i. 0 \<le> i \<and> i < length (hs Timers) \<longrightarrow> ys ! (?g + i) = timer_data env (hs Timers ! i))"
    using ys nth ws(2) rmw by (intro exI [of _ ys]) (simp add: full_set_def)
  then show ?thesis using ws by (simp add: before_inv_def) (simp add: full_set_def)
qed

lemma filled_read: "i < length xs \<Longrightarrow> length xs \<le> n \<Longrightarrow> read_at (filled_array n xs) i = Ok (xs ! i)"
  by (auto simp: read_at_def filled_array_def nth_append)

lemma filled_write: "i < length xs \<Longrightarrow> length xs \<le> n \<Longrightarrow> write_at (filled_array n xs) i v = Ok (filled_array n (xs[i := v]))"
  by (auto simp: write_at_def filled_array_def list_update_append)

lemma mark_next:
  "j < length hs \<Longrightarrow> (map f (take j hs) @ map g (drop j hs))[j := f (hs ! j)] = map f (take (Suc j) hs) @ map g (drop (Suc j) hs)"
  by (simp add: take_Suc_conv_app_nth list_update_append min_def flip: Cons_nth_drop_Suc)

lemma mark_nth: "j < length hs \<Longrightarrow> (map f (take j hs) @ map g (drop j hs)) ! j = g (hs ! j)"
  by (simp add: nth_append min_def)

text \<open>How the loop accumulates the least time.\<close>

definition note_timer :: "wait_env \<Rightarrow> nat \<Rightarrow> bool \<times> int \<Rightarrow> bool \<times> int" where
  "note_timer env h = (\<lambda>(b, m). if timer_live env False h \<and> until_next env False h < m then (True, until_next env False h) else (b, m))"

lemma before_step:
  assumes "before_inv env n hs j ws" "j < length (hs Timers)" "length (hs Timers) \<le> n Timers"
    and "length (hs Guard_conditions) \<le> n Guard_conditions" "timer_readable env False (hs Timers ! j)"
  shows "\<exists>ws'. before_inv env n hs (Suc j) ws' \<and>
    timers_before env (j # is) b m ws = case_prod (timers_before env is) (note_timer env (hs Timers ! j) (b, m)) ws'"
proof -
  let ?h = "hs Timers ! j" and ?hs = "hs Timers" and ?gs = "hs Guard_conditions"
  let ?xs = "\<lambda>j. map (marked env False) (take j ?hs) @ map Some (drop j ?hs)"
  let ?c = "length ?gs + length (moved env (take j ?hs))"
  let ?t = "\<lambda>j. (full_set env n hs Timers)\<lparr> items := filled_array (n Timers) (?xs j) \<rparr>"
  obtain ys where ys: "length ys = n Guard_conditions + n Timers"
      "entities ws Guard_conditions = (full_set env n hs Guard_conditions)\<lparr> rmw_items := (if ys = [] then Null else Array ys), rmw_count := ?c \<rparr>"
      "take ?c ys = map (rmw_data env Guard_conditions) ?gs @ map Some (moved env (take j ?hs))"
      "\<forall>i. j \<le> i \<and> i < length ?hs \<longrightarrow> ys ! (n Guard_conditions + i) = timer_data env (?hs ! i)"
    using assms(1) unfolding before_inv_def by blast
  have t: "entities ws Timers = ?t j" "impl ws" and others: "\<And>k. k \<noteq> Timers \<Longrightarrow> k \<noteq> Guard_conditions \<Longrightarrow> entities ws k = full_set env n hs k"
    using assms(1) unfolding before_inv_def by blast+
  obtain tm now where tm: "timer_state env False ?h = Some tm" "timer_clock env False ?h = Inr now" "in_i64 (next_call_time tm - now)"
    using assms(5) by (auto simp: timer_readable_def)
  have c: "?c \<le> n Guard_conditions + j" "?c < length ys" "ys \<noteq> []"
    using moved_length [of env "take j ?hs"] assms(2-4) ys(1) by auto
  have rd: "read_at (items (?t j)) j = Ok (Some ?h)" using filled_read [of j "?xs j" "n Timers"] assms(2,3) by (simp add: mark_nth)
  have nextxs: "(?xs j)[j := marked env False ?h] = ?xs (Suc j)" using assms(2) by (rule mark_next)
  have take: "take (Suc j) ?hs = take j ?hs @ [?h]" using assms(2) by (simp add: take_Suc_conv_app_nth)
  show ?thesis
  proof (cases "canceled tm")
    case True
    then have nl: "\<not> timer_live env False ?h" using tm by (simp add: timer_live_def)
    have wr: "write_at (items (?t j)) j None = Ok (items (?t (Suc j)))"
      using filled_write [of j "?xs j" "n Timers" None] nextxs nl assms(2,3) by (simp add: marked_def)
    let ?ws = "ws\<lparr> entities := (entities ws)(Timers := ?t (Suc j)) \<rparr>"
    have "before_inv env n hs (Suc j) ?ws"
      unfolding before_inv_def using t others ys nl by (intro conjI exI [of _ ys]) (simp_all add: take)
    moreover have "timers_before env (j # is) b m ws = timers_before env is b m ?ws"
      using rd wr tm True t by (simp add: get_set_def put_set_def bindA_eval act_eval rcl_timer_is_canceled_def)
    ultimately show ?thesis using nl by (auto simp: note_timer_def)
  next
    case False
    then have live: "timer_live env False ?h" using tm by (simp add: timer_live_def)
    have "marked env False ?h = (?xs j) ! j" using live mark_nth [OF assms(2), of "marked env False" Some] by (simp add: marked_def)
    then have "?xs j = ?xs (Suc j)" using nextxs by (metis list_update_id)
    then have same: "?t j = ?t (Suc j)" by (simp only:)
    have gd: "read_at (rmw_items (entities ws Guard_conditions)) (n Guard_conditions + j) = Ok (timer_data env ?h)"
      using ys c assms(2,3) by (simp add: read_at_def)
    define ws' where "ws' = (case timer_data env ?h of None \<Rightarrow> ws | Some d \<Rightarrow> ws\<lparr> entities := (entities ws)(Guard_conditions :=
        (entities ws Guard_conditions)\<lparr> rmw_items := Array (ys[?c := Some d]), rmw_count := Suc ?c \<rparr>) \<rparr>)"
    have inv: "before_inv env n hs (Suc j) ws'"
    proof (cases "timer_data env ?h")
      case None
      then show ?thesis unfolding before_inv_def ws'_def using t others ys live same by (intro conjI exI [of _ ys]) (simp_all add: take)
    next
      case (Some d)
      have "take (Suc ?c) (ys[?c := Some d]) = take ?c ys @ [Some d]" using c by (simp add: take_Suc_conv_app_nth)
      moreover have "\<forall>i. Suc j \<le> i \<and> i < length ?hs \<longrightarrow> ys[?c := Some d] ! (n Guard_conditions + i) = timer_data env (?hs ! i)"
        using ys(4) c(1) by (simp add: nth_list_update)
      ultimately show ?thesis unfolding before_inv_def ws'_def using t others ys live same c(3) Some
        by (intro conjI exI [of _ "ys[?c := Some d]"]) (simp_all add: take)
    qed
    have "timers_before env (j # is) b m ws = case_prod (timers_before env is) (note_timer env ?h (b, m)) ws'"
    proof (cases "timer_data env ?h")
      case None
      then show ?thesis using rd tm False t gd ys(2) live readable_until [OF assms(5)]
        by (simp add: ws'_def get_set_def bindA_eval seqA_eval act_eval rcl_timer_is_canceled_def note_timer_def)
    next
      case (Some d)
      have "write_at (rmw_items (entities ws Guard_conditions)) ?c (Some d) = Ok (Array (ys[?c := Some d]))"
        using ys c by (simp add: write_at_def)
      with Some show ?thesis using rd tm False t gd ys(2) live readable_until [OF assms(5)]
        by (simp add: ws'_def get_set_def put_set_def bindA_eval seqA_eval act_eval rcl_timer_is_canceled_def note_timer_def)
    qed
    with inv show ?thesis by blast
  qed
qed

lemma before_loop:
  assumes "before_inv env n hs j ws" "j \<le> length (hs Timers)" "\<And>k. length (hs k) \<le> n k" "\<forall>h \<in> set (hs Timers). timer_readable env False h"
  shows "\<exists>ws'. timers_before env [j..<length (hs Timers)] b m ws = (Ok (Inr (fold (note_timer env) (drop j (hs Timers)) (b, m))), ws') \<and>
    before_inv env n hs (length (hs Timers)) ws'"
  using assms(1,2)
proof (induction "length (hs Timers) - j" arbitrary: j b m ws)
  case 0
  then show ?case by (simp add: act_eval)
next
  case (Suc l)
  then have j: "j < length (hs Timers)" by simp
  let ?bm = "note_timer env (hs Timers ! j) (b, m)"
  obtain ws1 where ws1: "before_inv env n hs (Suc j) ws1"
      "timers_before env (j # [Suc j..<length (hs Timers)]) b m ws = case_prod (timers_before env [Suc j..<length (hs Timers)]) ?bm ws1"
    using before_step [OF Suc.prems(1) j assms(3) assms(3)] assms(4) nth_mem [OF j] by blast
  have "l = length (hs Timers) - Suc j" using Suc.hyps(2) by simp
  from Suc.hyps(1) [OF this ws1(1), of "fst ?bm" "snd ?bm"] j ws1(2) show ?case
    by (simp add: upt_conv_Cons split_beta flip: Cons_nth_drop_Suc [OF j])
qed

text \<open>What the middleware is shown.\<close>

definition shown :: "wait_env \<Rightarrow> (entity_kind \<Rightarrow> nat list) \<Rightarrow> entity_kind \<Rightarrow> nat option list" where
  "shown env hs k =
     (if k = Timers then []
      else map (rmw_data env k) (hs k) @ (if k = Guard_conditions then map Some (moved env (hs Timers)) else []))"

lemma shown_length: "k \<noteq> Timers \<Longrightarrow> length (hs k) \<le> length (shown env hs k)"
  by (simp add: shown_def)

lemma before_end:
  assumes "before_inv env n hs (length (hs Timers)) ws" "\<And>k. length (hs k) \<le> n k"
  shows "take (rmw_count (get_set k ws)) (contents (rmw_items (get_set k ws))) = shown env hs k"
    and "k \<noteq> Timers \<Longrightarrow> 0 < n k \<Longrightarrow> \<exists>ys. rmw_items (entities ws k) = Array ys \<and> n k \<le> length ys \<and> length (shown env hs k) \<le> length ys \<and>
      rmw_count (entities ws k) = length (shown env hs k)"
    and "k \<noteq> Timers \<Longrightarrow> items (entities ws k) = filled_array (n k) (map Some (hs k)) \<and> size_of (entities ws k) = n k"
proof -
  obtain ys where ys: "length ys = n Guard_conditions + n Timers"
      "entities ws Guard_conditions = (full_set env n hs Guard_conditions)\<lparr> rmw_items := (if ys = [] then Null else Array ys),
         rmw_count := length (hs Guard_conditions) + length (moved env (hs Timers)) \<rparr>"
      "take (length (hs Guard_conditions) + length (moved env (hs Timers))) ys = shown env hs Guard_conditions"
    using assms(1) unfolding before_inv_def shown_def by auto
  have plain: "k \<noteq> Timers \<Longrightarrow> k \<noteq> Guard_conditions \<Longrightarrow> entities ws k = full_set env n hs k"
    and t: "rmw_count (entities ws Timers) = 0"
    using assms(1) unfolding before_inv_def by (auto simp: full_set_def)
  have c: "length (hs Guard_conditions) + length (moved env (hs Timers)) \<le> length ys"
    using moved_length [of env "hs Timers"] assms(2) [of Timers] assms(2) [of Guard_conditions] ys(1) by linarith
  show "take (rmw_count (get_set k ws)) (contents (rmw_items (get_set k ws))) = shown env hs k"
  proof (cases "k = Timers \<or> k = Guard_conditions")
    case True
    then show ?thesis using t ys by (auto simp: get_set_def shown_def contents_def)
  next
    case False
    then show ?thesis using plain assms(2) [of k] by (auto simp: get_set_def shown_def full_set_def contents_def filled_array_def)
  qed
  show "\<exists>ys. rmw_items (entities ws k) = Array ys \<and> n k \<le> length ys \<and> length (shown env hs k) \<le> length ys \<and>
      rmw_count (entities ws k) = length (shown env hs k)" if "k \<noteq> Timers" "0 < n k"
  proof (cases "k = Guard_conditions")
    case True
    then have "ys \<noteq> []" using ys(1) that by auto
    then show ?thesis using ys(1,2) c True by (intro exI [of _ ys]) (simp add: shown_def)
  next
    case False
    then show ?thesis using plain assms(2) [of k] that by (auto simp: full_set_def filled_array_def shown_def)
  qed
  show "items (entities ws k) = filled_array (n k) (map Some (hs k)) \<and> size_of (entities ws k) = n k" if "k \<noteq> Timers"
    using that plain ys(2) by (cases "k = Guard_conditions") (simp_all add: full_set_def)
qed

text \<open>The second loop over the timers keeps those that are ready.\<close>

definition kept_timer :: "wait_env \<Rightarrow> nat \<Rightarrow> nat option" where
  "kept_timer env h = (if timer_live env False h \<and> timer_live env True h \<and> until_next env True h \<le> 0 then Some h else None)"

lemma after_loop:
  assumes "items (entities ws Timers) = filled_array m (map (kept_timer env) (take j hs) @ map (marked env False) (drop j hs))"
    and "j \<le> length hs" "length hs \<le> m" "\<forall>h \<in> set hs. timer_readable env True h"
  shows "timers_after env [j..<length hs] ws =
    (Ok RCL_RET_OK, ws\<lparr> entities := (entities ws)(Timers := (entities ws Timers)\<lparr> items := filled_array m (map (kept_timer env) hs) \<rparr>) \<rparr>)"
  using assms(1,2)
proof (induction "length hs - j" arbitrary: j ws)
  case 0
  then show ?case by (simp add: act_eval fun_upd_idem)
next
  case (Suc l)
  then have j: "j < length hs" by simp
  let ?xs = "\<lambda>j. map (kept_timer env) (take j hs) @ map (marked env False) (drop j hs)" and ?h = "hs ! j"
  have rd: "read_at (items (entities ws Timers)) j = Ok (marked env False ?h)"
    using filled_read [of j "?xs j" m] Suc.prems(1) j assms(3) by (simp add: mark_nth)
  have nextxs: "(?xs j)[j := kept_timer env ?h] = ?xs (Suc j)" using j by (rule mark_next)
  have l: "l = length hs - Suc j" using Suc.hyps(2) by simp
  note ready = readable_ready [of env True ?h]
  have up: "[j..<length hs] = j # [Suc j..<length hs]" using j by (simp add: upt_conv_Cons)
  show ?case
  proof (cases "kept_timer env ?h = marked env False ?h")
    case True
    then have "(?xs j)[j := (?xs j) ! j] = ?xs (Suc j)" using nextxs mark_nth [OF j, of "kept_timer env" "marked env False"] by simp
    then have same: "?xs j = ?xs (Suc j)" by (metis list_update_id)
    then have "items (entities ws Timers) = filled_array m (?xs (Suc j))" using Suc.prems(1) by simp
    from Suc.hyps(1) [OF l this] j True rd ready assms(4) nth_mem [OF j] show ?thesis unfolding up
      by (auto simp: get_set_def bindA_eval act_eval kept_timer_def marked_def split: if_splits)
  next
    case False
    then have h: "timer_live env False ?h" "kept_timer env ?h = None" by (auto simp: kept_timer_def marked_def split: if_splits)
    let ?ws = "ws\<lparr> entities := (entities ws)(Timers := (entities ws Timers)\<lparr> items := filled_array m (?xs (Suc j)) \<rparr>) \<rparr>"
    have wr: "write_at (items (entities ws Timers)) j None = Ok (filled_array m (?xs (Suc j)))"
      using filled_write [of j "?xs j" m None] Suc.prems(1) nextxs h(2) j assms(3) by simp
    have "timers_after env [Suc j..<length hs] ?ws = (Ok RCL_RET_OK, ?ws\<lparr> entities := (entities ?ws)(Timers := (entities ?ws Timers)\<lparr> items := filled_array m (map (kept_timer env) hs) \<rparr>) \<rparr>)"
      using Suc.hyps(1) [OF l, of ?ws] j by simp
    moreover have "(until_next env True ?h \<le> 0 \<and> timer_live env True ?h) = False" using h by (auto simp: kept_timer_def split: if_splits)
    then have "rcl_timer_is_ready (timer_clock env True ?h) (timer_state env True ?h) = Ok (Inr False)"
      using ready assms(4) nth_mem [OF j] by (metis (full_types))
    ultimately show ?thesis using rd wr h(1) unfolding up
      by (simp add: get_set_def put_set_def bindA_eval act_eval marked_def)
  qed
qed

lemma drop_unready_ok:
  assumes "items (entities ws k) = Array xs" "rmw_items (entities ws k) = Array zs" "\<forall>i \<in> set is. i < length xs \<and> i < length zs"
  shows "drop_unready k is ws = (Ok (), ws\<lparr> entities := (entities ws)(k := (entities ws k)\<lparr> items :=
    Array (map (\<lambda>i. if i \<in> set is \<and> zs ! i = None then None else xs ! i) [0..<length xs]) \<rparr>) \<rparr>)"
  using assms
proof (induction "is" arbitrary: ws xs)
  case Nil
  then have "map ((!) xs) [0..<length xs] = xs" "entities ws k = (entities ws k)\<lparr> items := Array xs \<rparr>" by (simp_all add: map_nth)
  then show ?case by (simp add: act_eval fun_upd_idem)
next
  case (Cons i "is")
  define ys where "ys = (if zs ! i = None then xs[i := None] else xs)"
  let ?ws = "ws\<lparr> entities := (entities ws)(k := (entities ws k)\<lparr> items := Array ys \<rparr>) \<rparr>"
  have eval: "drop_unready k (i # is) ws = drop_unready k is ?ws"
  proof (cases "zs ! i = None")
    case True
    with Cons.prems show ?thesis by (simp add: ys_def get_set_def put_set_def bindA_eval seqA_eval act_eval read_at_def write_at_def)
  next
    case False
    then obtain y where "zs ! i = Some y" by blast
    moreover from this Cons.prems(1) have "?ws = ws" by (simp add: ys_def fun_upd_idem)
    ultimately show ?thesis using Cons.prems by (simp add: get_set_def bindA_eval seqA_eval act_eval read_at_def)
  qed
  have len: "length ys = length xs" by (simp add: ys_def)
  have "map (\<lambda>j. if j \<in> set is \<and> zs ! j = None then None else ys ! j) [0..<length ys] =
      map (\<lambda>j. if j \<in> set (i # is) \<and> zs ! j = None then None else xs ! j) [0..<length xs]"
    by (auto simp: ys_def nth_list_update) (metis nth_list_update_neq option.distinct(1))
  moreover have "items (entities ?ws k) = Array ys" "rmw_items (entities ?ws k) = Array zs" "\<forall>i \<in> set is. i < length ys \<and> i < length zs"
    using Cons.prems len by simp_all
  note Cons.IH [OF this]
  ultimately show ?case unfolding eval by (simp add: fun_upd_def cong: if_cong)
qed

lemma drop_unready_all_ok:
  assumes "items (entities ws k) = filled_array m (map Some hs)" "size_of (entities ws k) = m" "length hs \<le> m"
    and "0 < m \<Longrightarrow> \<exists>zs. rmw_items (entities ws k) = Array zs \<and> m \<le> length zs \<and> (\<forall>i < length hs. zs ! i = out ! i)"
  shows "drop_unready_all k ws = (Ok (), ws\<lparr> entities := (entities ws)(k := (entities ws k)\<lparr> items :=
    filled_array m (map (\<lambda>i. if out ! i = None then None else Some (hs ! i)) [0..<length hs]) \<rparr>) \<rparr>)"
proof (cases "m = 0")
  case True
  with assms(1,3) have "items (entities ws k) = filled_array m (map (\<lambda>i. if out ! i = None then None else Some (hs ! i)) [0..<length hs])"
    by (simp add: filled_array_def)
  with True show ?thesis using assms(2) by (simp add: drop_unready_all_def get_set_def act_eval fun_upd_idem)
next
  case False
  then obtain zs where zs: "rmw_items (entities ws k) = Array zs" "m \<le> length zs" "\<forall>i < length hs. zs ! i = out ! i"
    using assms(4) by auto
  let ?xs = "map Some hs @ replicate (m - length hs) None"
  have xs: "items (entities ws k) = Array ?xs" "length ?xs = m" using assms(1,3) False by (simp_all add: filled_array_def)
  have "map (\<lambda>i. if i \<in> set [0..<m] \<and> zs ! i = None then None else ?xs ! i) [0..<m] =
      map (\<lambda>i. if out ! i = None then None else Some (hs ! i)) [0..<length hs] @ replicate (m - length hs) None"
    using assms(3) zs(3) by (intro nth_equalityI) (auto simp: nth_append)
  then show ?thesis using drop_unready_ok [OF xs(1) zs(1), of "[0..<m]"] xs(2) zs(2) assms(2) False
    by (simp add: drop_unready_all_def get_set_def act_eval filled_array_def)
qed

text \<open>The time the middleware may wait.\<close>

definition least_time :: "wait_env \<Rightarrow> int \<Rightarrow> nat list \<Rightarrow> bool \<times> int" where
  "least_time env timeout hs = fold (note_timer env) hs (False, if timeout > 0 then timeout else INT64_MAX)"

definition wait_time :: "wait_env \<Rightarrow> int \<Rightarrow> nat list \<Rightarrow> (int \<times> int) option" where
  "wait_time env timeout hs = (case least_time env timeout hs of (b, m) \<Rightarrow> timeout_argument timeout b m)"

lemma note_fold:
  "case fold (note_timer env) hs (b, m) of (b', m') \<Rightarrow>
     m' \<le> m \<and> (\<forall>h \<in> set hs. timer_live env False h \<longrightarrow> m' \<le> until_next env False h) \<and> (b \<longrightarrow> b') \<and> (m' < m \<longrightarrow> b')"
proof (induction hs arbitrary: b m)
  case (Cons h hs)
  obtain b1 m1 where n: "note_timer env h (b, m) = (b1, m1)" by fastforce
  then have "m1 \<le> m" "timer_live env False h \<longrightarrow> m1 \<le> until_next env False h" "b \<longrightarrow> b1" "m1 < m \<longrightarrow> b1"
    by (auto simp: note_timer_def split: if_splits)
  with Cons.IH [of m1 b1] n show ?case by (fastforce split: prod.splits)
qed simp

text \<open>The entries of a kind when waiting is over; \<open>out\<close> is what the middleware has left.\<close>

definition ready_items :: "wait_env \<Rightarrow> (entity_kind \<Rightarrow> nat list) \<Rightarrow> (entity_kind \<Rightarrow> nat option list) \<Rightarrow> entity_kind \<Rightarrow> nat option list" where
  "ready_items env hs out k =
     (if k = Timers then map (kept_timer env) (hs k)
      else map (\<lambda>i. if out k ! i = None then None else Some (hs k ! i)) [0..<length (hs k)])"

lemma drop_step:
  assumes "k \<noteq> Timers" "items (entities ws k) = filled_array (n k) (map Some (hs k))" "size_of (entities ws k) = n k" "length (hs k) \<le> n k"
    and "0 < n k \<Longrightarrow> \<exists>zs. rmw_items (entities ws k) = Array zs \<and> n k \<le> length zs \<and> (\<forall>i < length (hs k). zs ! i = out k ! i)"
  shows "\<exists>ws'. drop_unready_all k ws = (Ok (), ws') \<and> (\<forall>j. j \<noteq> k \<longrightarrow> entities ws' j = entities ws j) \<and>
    items (entities ws' k) = filled_array (n k) (ready_items env hs out k)"
  using drop_unready_all_ok [OF assms(2-5)] assms(1) by (auto simp: ready_items_def)

lemma drop_all_kinds:
  assumes "\<And>k. k \<noteq> Timers \<Longrightarrow> items (entities ws k) = filled_array (n k) (map Some (hs k)) \<and> size_of (entities ws k) = n k"
    and "\<And>k. length (hs k) \<le> n k"
    and "\<And>k. k \<noteq> Timers \<Longrightarrow> 0 < n k \<Longrightarrow> \<exists>zs. rmw_items (entities ws k) = Array zs \<and> n k \<le> length zs \<and> (\<forall>i < length (hs k). zs ! i = out k ! i)"
  shows "\<lbrakk> distinct ks; Timers \<notin> set ks \<rbrakk> \<Longrightarrow> \<exists>ws'. forA drop_unready_all ks ws = (Ok (), ws') \<and>
    (\<forall>k \<in> set ks. items (entities ws' k) = filled_array (n k) (ready_items env hs out k)) \<and> (\<forall>k. k \<notin> set ks \<longrightarrow> entities ws' k = entities ws k)"
  using assms
proof (induction ks arbitrary: ws rule: rev_induct)
  case Nil
  then show ?case by (simp add: act_eval)
next
  case (snoc k ks)
  obtain ws1 where ws1: "forA drop_unready_all ks ws = (Ok (), ws1)"
      "\<forall>k \<in> set ks. items (entities ws1 k) = filled_array (n k) (ready_items env hs out k)" "\<forall>k. k \<notin> set ks \<longrightarrow> entities ws1 k = entities ws k"
    using snoc.IH [of ws] snoc.prems by auto
  have k: "k \<noteq> Timers" "k \<notin> set ks" "entities ws1 k = entities ws k" using snoc.prems(1,2) ws1(3) by auto
  obtain ws2 where ws2: "drop_unready_all k ws1 = (Ok (), ws2)" "\<forall>j. j \<noteq> k \<longrightarrow> entities ws2 j = entities ws1 j"
      "items (entities ws2 k) = filled_array (n k) (ready_items env hs out k)"
    using drop_step [of k ws1 n hs out env] snoc.prems(3-5) k by auto
  have "forA drop_unready_all (ks @ [k]) ws = (Ok (), ws2)"
  proof -
    have "forA f (xs @ ys) s = seqA (forA f xs) (forA f ys) s" for f :: "entity_kind \<Rightarrow> unit wait_act" and xs ys s
      by (induction xs arbitrary: s) (auto simp: seqA_eval act_eval split: prod.splits sum.splits)
    then show ?thesis using ws1(1) ws2(1) by (simp add: seqA_eval act_eval)
  qed
  moreover have "\<forall>j \<in> set (ks @ [k]). items (entities ws2 j) = filled_array (n j) (ready_items env hs out j)"
    using ws1(2) ws2(2,3) k(2) by auto
  ultimately show ?case using ws1(3) ws2(2) by auto
qed

lemma rcl_wait_filled:
  assumes "filled_with env n hs ws" "n k0 \<noteq> 0" "\<forall>h \<in> set (hs Timers). timer_readable env False h \<and> timer_readable env True h"
    and rmw: "rmw_wait env (wait_time env timeout (hs Timers)) (shown env hs) = (r, out)" "r \<noteq> RMW_RET_ERROR"
    and lens: "\<And>k. length (out k) = length (shown env hs k)"
  shows "\<exists>ws'. rcl_wait env timeout ws =
      (Ok (if r = RMW_RET_TIMEOUT \<and> \<not> fst (least_time env timeout (hs Timers)) then RCL_RET_TIMEOUT else RCL_RET_OK), ws') \<and>
    (\<forall>k. items (entities ws' k) = filled_array (n k) (ready_items env hs out k))"
proof -
  have len: "\<And>k. length (hs k) \<le> n k" and ws: "impl ws" "entities ws = full_set env n hs" using assms(1) by (simp_all add: filled_with_def)
  obtain b m where bm: "least_time env timeout (hs Timers) = (b, m)" by fastforce
  obtain ws1 where ws1: "timers_before env [0..<length (hs Timers)] False (if timeout > 0 then timeout else INT64_MAX) ws = (Ok (Inr (b, m)), ws1)"
      "before_inv env n hs (length (hs Timers)) ws1"
    using before_loop [OF before_start [OF assms(1)], of False "if timeout > 0 then timeout else INT64_MAX"] len assms(3) bm by (auto simp: least_time_def)
  note e = before_end [OF ws1(2) len]
  define ws2 where "ws2 = snd (call_rmw_wait env (timeout_argument timeout b m) ws1)"
  have call: "call_rmw_wait env (timeout_argument timeout b m) ws1 = (Ok r, ws2)"
    using rmw(1) by (simp add: call_rmw_wait_def ws2_def e(1) wait_time_def bm Let_def)
  have ent: "entities ws2 k = (case rmw_items (entities ws1 k) of
        Array xs \<Rightarrow> (entities ws1 k)\<lparr> rmw_items := Array (out k @ drop (rmw_count (entities ws1 k)) xs) \<rparr> | _ \<Rightarrow> entities ws1 k)" for k
    using rmw(1) by (simp add: call_rmw_wait_def ws2_def e(1) wait_time_def bm Let_def)
  have tm: "items (entities ws2 Timers) = filled_array (n Timers) (map (marked env False) (hs Timers))"
    using ws1(2) by (simp add: ent before_inv_def full_set_def)
  define ws3 where "ws3 = ws2\<lparr> entities := (entities ws2)(Timers := (entities ws2 Timers)\<lparr> items := filled_array (n Timers) (map (kept_timer env) (hs Timers)) \<rparr>) \<rparr>"
  have after: "timers_after env [0..<length (hs Timers)] ws2 = (Ok RCL_RET_OK, ws3)"
    using after_loop [of ws2 "n Timers" env 0 "hs Timers"] tm len assms(3) by (simp add: ws3_def)
  have plain: "items (entities ws3 k) = filled_array (n k) (map Some (hs k)) \<and> size_of (entities ws3 k) = n k" if "k \<noteq> Timers" for k
    using e(3) [OF that] that by (simp add: ws3_def ent split: ptr.split)
  have zs: "\<exists>zs. rmw_items (entities ws3 k) = Array zs \<and> n k \<le> length zs \<and> (\<forall>i < length (hs k). zs ! i = out k ! i)" if "k \<noteq> Timers" "0 < n k" for k
    using e(2) [OF that] that lens [of k] shown_length [OF that(1), of hs env] by (auto simp: ws3_def ent nth_append)
  let ?ks = "[Subscriptions, Guard_conditions, Clients, Services, Events]"
  obtain ws4 where ws4: "forA drop_unready_all ?ks ws3 = (Ok (), ws4)"
      "\<forall>k \<in> set ?ks. items (entities ws4 k) = filled_array (n k) (ready_items env hs out k)" "\<forall>k. k \<notin> set ?ks \<longrightarrow> entities ws4 k = entities ws3 k"
    using drop_all_kinds [OF plain len zs, where ks = ?ks and env = env] by auto
  have "items (entities ws4 k) = filled_array (n k) (ready_items env hs out k)" for k
    using ws4(2,3) by (cases k) (auto simp: ws3_def ready_items_def)
  moreover have "\<not> list_all (\<lambda>k. size_of (get_set k ws) = 0) all_kinds"
    using assms(2) ws(2) by (cases k0) (auto simp: all_kinds_def get_set_def)
  then have "rcl_wait env timeout ws = (Ok (if r = RMW_RET_TIMEOUT \<and> \<not> b then RCL_RET_TIMEOUT else RCL_RET_OK), ws4)"
    using ws ws1(1) call after ws4(1) rmw(2)
    by (simp add: rcl_wait_def get_set_def onward_ok bindA_eval seqA_eval act_eval del: forA.simps)
  ultimately show ?thesis by (auto simp: bm)
qed

section \<open>Properties\<close>

lemma timers_before_rmw: "timers_before (env\<lparr> rmw_wait := w \<rparr>) is b m ws = timers_before env is b m ws"
proof (induction "is" arbitrary: b m ws)
  case (Cons i "is")
  have ih: "timers_before (env\<lparr> rmw_wait := w \<rparr>) is = timers_before env is" using Cons by (intro ext)
  have sel: "timer_state (env\<lparr> rmw_wait := w \<rparr>) = timer_state env" "timer_clock (env\<lparr> rmw_wait := w \<rparr>) = timer_clock env" by simp_all
  show ?case unfolding timers_before.simps ih sel ..
qed simp

lemma timers_after_rmw: "timers_after (env\<lparr> rmw_wait := w \<rparr>) is ws = timers_after env is ws"
proof (induction "is" arbitrary: ws)
  case (Cons i "is")
  have ih: "timers_after (env\<lparr> rmw_wait := w \<rparr>) is = timers_after env is" using Cons by (intro ext)
  have sel: "timer_state (env\<lparr> rmw_wait := w \<rparr>) = timer_state env" "timer_clock (env\<lparr> rmw_wait := w \<rparr>) = timer_clock env" by simp_all
  show ?case unfolding timers_after.simps ih sel ..
qed simp

lemma timers_rmw: "timers_before (env\<lparr> rmw_wait := w \<rparr>) = timers_before env" "timers_after (env\<lparr> rmw_wait := w \<rparr>) = timers_after env"
  by (intro ext timers_before_rmw timers_after_rmw)+

lemma wait_time_bound:
  assumes "h \<in> set hs" "timer_live env False h" "until_next env False h < INT64_MAX"
  shows "\<exists>s ns. wait_time env timeout hs = Some (s, ns) \<and> 0 \<le> ns \<and> ns < 1000000000 \<and> s * 1000000000 + ns \<le> max 0 (until_next env False h)"
proof -
  obtain b m where bm: "least_time env timeout hs = (b, m)" by fastforce
  have m: "m \<le> until_next env False h" "\<not> timeout > 0 \<longrightarrow> b"
    using note_fold [where env = env and hs = hs and b = False and m = "if timeout > 0 then timeout else INT64_MAX"] assms bm by (auto simp: least_time_def split: if_splits)
  let ?m = "if m < 0 then 0 else m"
  have "?m div 1000000000 * 1000000000 + ?m mod 1000000000 = ?m" by simp
  then show ?thesis using bm m by (auto simp: wait_time_def timeout_argument_def Let_def)
qed

text \<open>
  C28. Waiting never sleeps longer than until the next call of a timer of the wait set: what the
  middleware would do if it was told to wait longer than the time until any uncanceled timer is
  due makes no difference, whatever timeout is given and whatever other entities there are.
\<close>

theorem rcl_wait_never_oversleeps:
  assumes "filled_with env n hs ws" "\<forall>t \<in> set (hs Timers). timer_readable env False t"
    and "h \<in> set (hs Timers)" "timer_live env False h" "until_next env False h < INT64_MAX"
    and "\<And>s ns x. 0 \<le> ns \<Longrightarrow> s * 1000000000 + ns \<le> max 0 (until_next env False h) \<Longrightarrow> w (Some (s, ns)) x = rmw_wait env (Some (s, ns)) x"
  shows "rcl_wait (env\<lparr> rmw_wait := w \<rparr>) timeout ws = rcl_wait env timeout ws"
proof -
  have len: "\<And>k. length (hs k) \<le> n k" and ws: "impl ws" "entities ws = full_set env n hs" using assms(1) by (simp_all add: filled_with_def)
  obtain b m where bm: "least_time env timeout (hs Timers) = (b, m)" by fastforce
  obtain ws1 where ws1: "timers_before env [0..<length (hs Timers)] False (if timeout > 0 then timeout else INT64_MAX) ws = (Ok (Inr (b, m)), ws1)"
    using before_loop [OF before_start [OF assms(1)], of False "if timeout > 0 then timeout else INT64_MAX"] len assms(2) bm by (auto simp: least_time_def)
  have "call_rmw_wait (env\<lparr> rmw_wait := w \<rparr>) (timeout_argument timeout b m) ws1 = call_rmw_wait env (timeout_argument timeout b m) ws1"
    using wait_time_bound [OF assms(3-5), of timeout] assms(6) by (auto simp: call_rmw_wait_def wait_time_def bm)
  then show ?thesis using ws ws1
    by (simp add: rcl_wait_def get_set_def timers_rmw bindA_eval act_eval onward_def)
qed

text \<open>An example: one timer with a guard condition, due in two seconds, and one subscription.\<close>

definition wait_timer :: rcl_timer_impl where
  "wait_timer = \<lparr> tm_clock_type = RCL_ROS_TIME, bound_instance = 1, guard_triggers = 0, has_callback = True, period = 5000000000,
     last_call_time = 0, next_call_time = 5000000000, time_credit = 0, canceled = False \<rparr>"

definition demo_wait :: wait_env where
  "demo_wait = \<lparr> context_valid = True, rmw_wait_set_created = True, rmw_wait_set_destroyed = True, grants = (\<lambda>_. True),
     rmw_handle = (\<lambda>k h. Some (h, h + 100)), timer_guard = (\<lambda>h. Some (h + 50)),
     timer_state = (\<lambda>_ _. Some wait_timer), timer_clock = (\<lambda>b _. Inr (if b then 5000000000 else 3000000000)),
     rmw_wait = (\<lambda>t shown. (RMW_RET_TIMEOUT, \<lambda>k. map (\<lambda>_. None) (shown k))) \<rparr>"

definition demo_handles :: "entity_kind \<Rightarrow> nat list" where
  "demo_handles k = (if k = Timers then [7] else if k = Subscriptions then [1] else [])"

definition demo_set :: rcl_wait_set_t where
  "demo_set = \<lparr> impl = True, entities = full_set demo_wait (\<lambda>k. length (demo_handles k)) demo_handles, allocations = 0 \<rparr>"

lemma demo_filled: "filled_with demo_wait (\<lambda>k. length (demo_handles k)) demo_handles demo_set"
  by (simp add: filled_with_def demo_set_def)

lemma rcl_wait_never_oversleeps_witness:
  "rcl_wait (demo_wait\<lparr> rmw_wait := (\<lambda>t x. case t of Some (s, ns) \<Rightarrow> if s \<le> 2 then rmw_wait demo_wait t x else (RMW_RET_ERROR, x) | None \<Rightarrow> (RMW_RET_ERROR, x)) \<rparr>) (- 1) demo_set =
     rcl_wait demo_wait (- 1) demo_set \<and> fst (rcl_wait demo_wait (- 1) demo_set) = Ok RCL_RET_OK"
proof -
  let ?w = "\<lambda>t x. case t of Some (s, ns) \<Rightarrow> if s \<le> 2 then rmw_wait demo_wait t x else (RMW_RET_ERROR, x) | None \<Rightarrow> (RMW_RET_ERROR, x)"
  have t: "timer_readable demo_wait b 7" "timer_live demo_wait b 7" "until_next demo_wait False 7 = 2000000000" "until_next demo_wait True 7 = 0" for b
    by (auto simp: timer_readable_def timer_live_def until_next_def demo_wait_def wait_timer_def in_i64_def)
  have short: "?w (Some (s, ns)) x = rmw_wait demo_wait (Some (s, ns)) x" if "s * 1000000000 + ns \<le> max 0 (until_next demo_wait False 7)" "0 \<le> ns" for s ns x
    using that t by auto
  have same: "rcl_wait (demo_wait\<lparr> rmw_wait := ?w \<rparr>) (- 1) demo_set = rcl_wait demo_wait (- 1) demo_set"
    by (rule rcl_wait_never_oversleeps [OF demo_filled, of 7]) (use t short in \<open>auto simp: demo_handles_def\<close>)
  have "fst (least_time demo_wait (- 1) (demo_handles Timers))"
    using t by (simp add: least_time_def note_timer_def demo_handles_def)
  then have "\<exists>ws'. rcl_wait demo_wait (- 1) demo_set = (Ok RCL_RET_OK, ws')"
    using rcl_wait_filled [OF demo_filled, of Timers "- 1" RMW_RET_TIMEOUT "\<lambda>k. map (\<lambda>_. None) (shown demo_wait demo_handles k)"] t
    by (auto simp: demo_handles_def demo_wait_def)
  then show ?thesis using same by auto
qed

text \<open>A round of waiting as its users have it: the set is resized and entities are added to it.\<close>

definition add_entity :: "wait_env \<Rightarrow> entity_kind \<times> nat \<Rightarrow> unit wait_act" where
  "add_entity env = (\<lambda>(k, h). bindA
     (case k of
        Subscriptions \<Rightarrow> rcl_wait_set_add_subscription env (Some h)
      | Guard_conditions \<Rightarrow> rcl_wait_set_add_guard_condition env (Some h)
      | Timers \<Rightarrow> rcl_wait_set_add_timer env (Some h)
      | Clients \<Rightarrow> rcl_wait_set_add_client env (Some h)
      | Services \<Rightarrow> rcl_wait_set_add_service env (Some h)
      | Events \<Rightarrow> rcl_wait_set_add_event env (Some h)) (\<lambda>_. retA ()))"

definition of_kind :: "(entity_kind \<times> nat) list \<Rightarrow> entity_kind \<Rightarrow> nat list" where
  "of_kind es k = map snd (filter (\<lambda>e. fst e = k) es)"

definition known_entity :: "wait_env \<Rightarrow> entity_kind \<times> nat \<Rightarrow> bool" where
  "known_entity env = (\<lambda>(k, h).
     if k = Timers then (\<forall>g. timer_guard env h = Some g \<longrightarrow> rmw_handle env Guard_conditions g \<noteq> None)
     else rmw_handle env k h \<noteq> None)"

definition wait_round :: "wait_env \<Rightarrow> (entity_kind \<times> nat) list \<Rightarrow> int \<Rightarrow> rcl_ret wait_act" where
  "wait_round env es timeout =
     onward (rcl_wait_set_resize env (\<lambda>k. length (of_kind es k)))
       (seqA (forA (add_entity env) es) (rcl_wait env timeout))"

lemma add_entity_filled:
  assumes "filled_with env n hs ws" "length (hs k) < n k" "known_entity env (k, h)"
  shows "\<exists>ws'. add_entity env (k, h) ws = (Ok (), ws') \<and> filled_with env n (hs(k := hs k @ [h])) ws'"
proof (cases "k = Timers")
  case True
  then show ?thesis using add_timer_filled [of env n hs ws h] assms by (auto simp: add_entity_def known_entity_def bindA_eval act_eval)
next
  case False
  then obtain d where "rmw_data env k h = Some d" using assms(3) by (cases "rmw_handle env k h") (auto simp: known_entity_def rmw_data_def)
  from add_filled [OF assms(1,2) False this] False show ?thesis
    by (cases k) (auto simp: add_entity_def rcl_wait_set_add_subscription_def rcl_wait_set_add_guard_condition_def rcl_wait_set_add_client_def
        rcl_wait_set_add_service_def rcl_wait_set_add_event_def bindA_eval act_eval)
qed

lemma add_all_filled:
  "\<lbrakk> filled_with env n hs ws; \<And>k. length (hs k) + length (of_kind es k) \<le> n k; list_all (known_entity env) es \<rbrakk> \<Longrightarrow>
    \<exists>ws'. forA (add_entity env) es ws = (Ok (), ws') \<and> filled_with env n (\<lambda>k. hs k @ of_kind es k) ws'"
proof (induction es arbitrary: hs ws)
  case Nil
  then show ?case by (simp add: act_eval of_kind_def)
next
  case (Cons e es)
  obtain k h where e: "e = (k, h)" by fastforce
  have room: "length (hs k) < n k" using Cons.prems(2) [of k] by (simp add: e of_kind_def)
  obtain ws1 where ws1: "add_entity env e ws = (Ok (), ws1)" "filled_with env n (hs(k := hs k @ [h])) ws1"
    using add_entity_filled [OF Cons.prems(1) room] Cons.prems(3) e by auto
  have eq: "(hs(k := hs k @ [h])) k' @ of_kind es k' = hs k' @ of_kind (e # es) k'" for k' by (simp add: e of_kind_def)
  have "length ((hs(k := hs k @ [h])) k') + length (of_kind es k') \<le> n k'" for k'
    using Cons.prems(2) [of k'] eq [of k'] by (metis length_append)
  then obtain ws2 where "forA (add_entity env) es ws1 = (Ok (), ws2)" "filled_with env n (\<lambda>k'. (hs(k := hs k @ [h])) k' @ of_kind es k') ws2"
    using Cons.IH [OF ws1(2)] Cons.prems(3) by auto
  with ws1(1) show ?case unfolding eq by (simp add: seqA_eval)
qed

text \<open>
  C27. A round of waiting reports exactly what is ready: with memory to be had, entities the middleware
  knows and timers whose clocks can be read, resizing, adding the entities in any order and waiting
  ends in every array with the entities in the order of adding, those not ready replaced by null; a
  timer is ready if it was not canceled and is due after waiting, another entity if the middleware
  left its entry. Only a timeout with no timer behind it is reported as one.
\<close>

theorem wait_round_reports_ready:
  assumes "\<And>i. grants env i" "sound ws" "es \<noteq> []" "list_all (known_entity env) es"
    and "\<forall>h \<in> set (of_kind es Timers). timer_readable env False h \<and> timer_readable env True h"
    and "rmw_wait env (wait_time env timeout (of_kind es Timers)) (shown env (of_kind es)) = (r, out)" "r \<noteq> RMW_RET_ERROR"
    and "\<And>k. length (out k) = length (shown env (of_kind es) k)"
  shows "\<exists>ws'. wait_round env es timeout ws =
      (Ok (if r = RMW_RET_TIMEOUT \<and> \<not> fst (least_time env timeout (of_kind es Timers)) then RCL_RET_TIMEOUT else RCL_RET_OK), ws') \<and>
    (\<forall>k. items (entities ws' k) = (if of_kind es k = [] then Null else Array (ready_items env (of_kind es) out k)))"
proof -
  let ?n = "\<lambda>k. length (of_kind es k)"
  obtain ws1 where ws1: "rcl_wait_set_resize env ?n ws = (Ok RCL_RET_OK, ws1)" "filled_with env ?n (\<lambda>_. []) ws1"
    using resize_filled [OF assms(1,2)] by blast
  obtain ws2 where ws2: "forA (add_entity env) es ws1 = (Ok (), ws2)" "filled_with env ?n (of_kind es) ws2"
    using add_all_filled [OF ws1(2), of es] assms(4) by auto
  obtain k h es' where "es = (k, h) # es'" using assms(3) by (cases es) auto
  then have "?n k \<noteq> 0" by (simp add: of_kind_def)
  from rcl_wait_filled [OF ws2(2) this assms(5-8)] obtain ws3 where ws3: "rcl_wait env timeout ws2 =
      (Ok (if r = RMW_RET_TIMEOUT \<and> \<not> fst (least_time env timeout (of_kind es Timers)) then RCL_RET_TIMEOUT else RCL_RET_OK), ws3)"
      "\<forall>k. items (entities ws3 k) = filled_array (?n k) (ready_items env (of_kind es) out k)" by blast
  have "length (ready_items env (of_kind es) out k) = ?n k" for k by (simp add: ready_items_def)
  then have "filled_array (?n k) (ready_items env (of_kind es) out k) = (if of_kind es k = [] then Null else Array (ready_items env (of_kind es) out k))" for k
    by (simp add: filled_array_def)
  moreover have "wait_round env es timeout ws = rcl_wait env timeout ws2"
    using ws1(1) ws2(1) by (simp add: wait_round_def onward_ok seqA_eval)
  ultimately show ?thesis using ws3 by auto
qed

lemma demo_wait_rmw: "grants demo_wait i" "rmw_wait demo_wait t x = (RMW_RET_TIMEOUT, \<lambda>k. map (\<lambda>_. None) (x k))"
  by (simp_all add: demo_wait_def)

lemma wait_round_reports_ready_witness:
  "\<exists>ws'. wait_round demo_wait [(Timers, 7), (Subscriptions, 3)] (- 1) (rcl_get_zero_initialized_wait_set\<lparr> impl := True \<rparr>) = (Ok RCL_RET_OK, ws') \<and>
    items (entities ws' Timers) = Array [Some 7] \<and> items (entities ws' Subscriptions) = Array [None] \<and> items (entities ws' Events) = Null"
proof -
  let ?es = "[(Timers, 7), (Subscriptions, 3)] :: (entity_kind \<times> nat) list" and ?ws = "rcl_get_zero_initialized_wait_set\<lparr> impl := True \<rparr>"
  have k: "of_kind ?es Timers = [7]" "of_kind ?es Subscriptions = [3]" "of_kind ?es Events = []" by (simp_all add: of_kind_def)
  have t: "timer_readable demo_wait b 7" "timer_live demo_wait b 7" "until_next demo_wait False 7 = 2000000000" "until_next demo_wait True 7 = 0" for b
    by (auto simp: timer_readable_def timer_live_def until_next_def demo_wait_def wait_timer_def in_i64_def)
  have l: "fst (least_time demo_wait (- 1) [7])" using t by (simp add: least_time_def note_timer_def)
  have "list_all (known_entity demo_wait) ?es" by (simp add: known_entity_def demo_wait_def)
  moreover have "sound ?ws" by (simp add: sound_def rcl_get_zero_initialized_wait_set_def empty_set_def)
  ultimately obtain ws' where ws': "wait_round demo_wait ?es (- 1) ?ws = (Ok RCL_RET_OK, ws')"
      "\<forall>k. items (entities ws' k) = (if of_kind ?es k = [] then Null
         else Array (ready_items demo_wait (of_kind ?es) (\<lambda>k. map (\<lambda>_. None) (shown demo_wait (of_kind ?es) k)) k))"
    using wait_round_reports_ready [of demo_wait ?ws ?es "- 1", OF demo_wait_rmw(1) _ _ _ _ demo_wait_rmw(2)] t l by (auto simp: k)
  have "items (entities ws' Timers) = Array [Some 7]" "items (entities ws' Subscriptions) = Array [None]" "items (entities ws' Events) = Null"
    using ws'(2) t by (simp_all add: k ready_items_def kept_timer_def shown_def)
  with ws'(1) show ?thesis by auto
qed

text \<open>
  A timeout of zero is not reported as one when there is a timer: if nothing at all is ready, not
  even the timer, waiting still ends with \<open>RCL_RET_OK\<close> and no entity left in any array.
\<close>

theorem rcl_wait_zero_timeout_with_timer:
  assumes "filled_with env n hs ws" "\<forall>h \<in> set (hs Timers). timer_readable env False h \<and> timer_readable env True h \<and> until_next env True h > 0"
    and "t \<in> set (hs Timers)" "timer_live env False t" "until_next env False t < INT64_MAX"
    and "rmw_wait env (Some (0, 0)) (shown env hs) = (RMW_RET_TIMEOUT, out)" "\<And>k. out k = replicate (length (shown env hs k)) None"
  shows "\<exists>ws'. rcl_wait env 0 ws = (Ok RCL_RET_OK, ws') \<and> (\<forall>k. items (entities ws' k) = filled_array (n k) [])"
proof -
  obtain b m where bm: "least_time env 0 (hs Timers) = (b, m)" by fastforce
  then have b: "b" using note_fold [where env = env and hs = "hs Timers" and b = False and m = INT64_MAX] assms(3-5) by (auto simp: least_time_def)
  have nz: "n Timers \<noteq> 0" using assms(1,3) by (cases "hs Timers") (auto simp: filled_with_def dest: spec [of _ Timers])
  have "ready_items env hs out k = replicate (length (hs k)) None" for k
    using assms(2) shown_length [of k hs env] by (auto simp: ready_items_def kept_timer_def assms(7) map_replicate_const[symmetric] intro!: nth_equalityI)
  moreover have "filled_array (n k) (replicate (length (hs k)) None) = filled_array (n k) []" for k
    using assms(1) by (auto simp: filled_with_def filled_array_def simp flip: replicate_add)
  moreover have "rmw_wait env (wait_time env 0 (hs Timers)) (shown env hs) = (RMW_RET_TIMEOUT, out)"
    using assms(6) by (simp add: wait_time_def bm timeout_argument_def)
  ultimately show ?thesis using rcl_wait_filled [OF assms(1) nz, of 0 RMW_RET_TIMEOUT out] assms(2,7) b bm by simp
qed

lemma rcl_wait_zero_timeout_with_timer_witness:
  "\<exists>ws'. rcl_wait (demo_wait\<lparr> timer_clock := (\<lambda>_ _. Inr 3000000000) \<rparr>) 0 demo_set = (Ok RCL_RET_OK, ws') \<and>
    (\<forall>k. items (entities ws' k) = filled_array (length (demo_handles k)) [])"
proof (rule rcl_wait_zero_timeout_with_timer [where t = 7 and hs = demo_handles])
  let ?env = "demo_wait\<lparr> timer_clock := (\<lambda>_ _. Inr 3000000000) \<rparr>"
  have "full_set ?env n hs = full_set demo_wait n hs" for n hs
    by (intro ext) (simp add: full_set_def rmw_data_def [abs_def] timer_data_def [abs_def])
  then show "filled_with ?env (\<lambda>k. length (demo_handles k)) demo_handles demo_set" using demo_filled by (simp add: filled_with_def)
  show "rmw_wait ?env (Some (0, 0)) (shown ?env demo_handles) = (RMW_RET_TIMEOUT, \<lambda>k. replicate (length (shown ?env demo_handles k)) None)"
    by (simp add: demo_wait_rmw map_replicate_const)
qed (auto simp: demo_handles_def timer_readable_def timer_live_def until_next_def demo_wait_def wait_timer_def in_i64_def)

text \<open>
  When the second array for the first subscriptions cannot be allocated, initialising a wait set frees the
  first one twice: the pointer to it is not reset before the clean-up, which frees what it finds.
\<close>

theorem rcl_wait_set_init_double_free:
  assumes "context_valid env" "rmw_wait_set_created env" "0 < n Subscriptions"
    and "grants env 0" "grants env 1" "\<not> grants env 2"
  shows "fst (rcl_wait_set_init env n rcl_get_zero_initialized_wait_set) = Err (Undefined_behaviour ''double free'')"
  using assms
  by (simp add: rcl_wait_set_init_def rcl_get_zero_initialized_wait_set_def empty_set_def rcl_wait_set_resize_def set_resize_def fail_init_def
      wait_set_clean_up_def allocate_def get_set_def put_set_def free_array_def onward_def bindA_eval seqA_eval act_eval Let_def numeral_2_eq_2)

lemma rcl_wait_set_init_double_free_witness:
  "fst (rcl_wait_set_init (demo_wait\<lparr> grants := (\<lambda>i. i \<noteq> 2) \<rparr>) (\<lambda>_. 1) rcl_get_zero_initialized_wait_set) = Err (Undefined_behaviour ''double free'')"
  by (rule rcl_wait_set_init_double_free) (simp_all add: demo_wait_def)


end
