(* ===== verification/Executor.thy ===== *)
theory Executor
  imports WaitSet
begin

text \<open>
  Executors (\<open>rclcpp/src/rclcpp/executor.cpp\<close>), callback groups (\<open>callback_group.cpp\<close>), the memory
  strategy (\<open>memory_strategy.cpp\<close>, \<open>allocator_memory_strategy.hpp\<close>) and the single-threaded executor:
  the nodes of an executor, the handles it waits for, the choice of the next callback and its
  execution. Weak pointers are identifiers that are looked up; what callbacks do, what the middleware
  delivers and the readings of the clocks are arguments.
\<close>

section \<open>Callback groups\<close>

datatype CallbackGroupType = MutuallyExclusive | Reentrant

record CallbackGroup =
  group_type :: CallbackGroupType
  can_be_taken_from :: bool
  subscription_ptrs :: "nat list"
  timer_ptrs :: "nat list"
  service_ptrs :: "nat list"
  client_ptrs :: "nat list"
  waitable_ptrs :: "nat list"

definition CallbackGroup_init :: "CallbackGroupType \<Rightarrow> CallbackGroup" where
  "CallbackGroup_init t = \<lparr> group_type = t, can_be_taken_from = True, subscription_ptrs = [], timer_ptrs = [],
     service_ptrs = [], client_ptrs = [], waitable_ptrs = [] \<rparr>"

definition CallbackGroup_add_subscription :: "nat \<Rightarrow> CallbackGroup \<Rightarrow> CallbackGroup" where
  "CallbackGroup_add_subscription p g = g\<lparr> subscription_ptrs := subscription_ptrs g @ [p] \<rparr>"
definition CallbackGroup_add_timer :: "nat \<Rightarrow> CallbackGroup \<Rightarrow> CallbackGroup" where
  "CallbackGroup_add_timer p g = g\<lparr> timer_ptrs := timer_ptrs g @ [p] \<rparr>"
definition CallbackGroup_add_service :: "nat \<Rightarrow> CallbackGroup \<Rightarrow> CallbackGroup" where
  "CallbackGroup_add_service p g = g\<lparr> service_ptrs := service_ptrs g @ [p] \<rparr>"
definition CallbackGroup_add_client :: "nat \<Rightarrow> CallbackGroup \<Rightarrow> CallbackGroup" where
  "CallbackGroup_add_client p g = g\<lparr> client_ptrs := client_ptrs g @ [p] \<rparr>"
definition CallbackGroup_add_waitable :: "nat \<Rightarrow> CallbackGroup \<Rightarrow> CallbackGroup" where
  "CallbackGroup_add_waitable p g = g\<lparr> waitable_ptrs := waitable_ptrs g @ [p] \<rparr>"

text \<open>An expired pointer is equal to a null pointer.\<close>

fun erase_first :: "('a \<Rightarrow> bool) \<Rightarrow> 'a list \<Rightarrow> 'a list" where
  "erase_first f [] = []"
| "erase_first f (x # xs) = (if f x then xs else x # erase_first f xs)"

definition remove_waitable :: "(nat \<Rightarrow> bool) \<Rightarrow> nat option \<Rightarrow> CallbackGroup \<Rightarrow> CallbackGroup" where
  "remove_waitable live p g = g\<lparr> waitable_ptrs := erase_first (\<lambda>q. (if live q then Some q else None) = p) (waitable_ptrs g) \<rparr>"

section \<open>Nodes, entities and the executor\<close>

record node_base =
  callback_groups :: "nat list"
  notify_guard_condition :: nat
  associated_with_executor :: bool

record subscription_base =
  subscription_handle :: nat
  intra_process_subscription_handle :: "nat option"
  is_serialized :: bool

text \<open>The objects that exist; services, clients and timers are given by their handles.\<close>

record ros_world =
  nodes :: "nat \<Rightarrow> node_base option"
  groups :: "nat \<Rightarrow> CallbackGroup option"
  subscriptions :: "nat \<Rightarrow> subscription_base option"
  services :: "nat \<Rightarrow> nat option"
  clients :: "nat \<Rightarrow> nat option"
  timers :: "nat \<Rightarrow> nat option"
  waitables :: "nat \<Rightarrow> bool"

record memory_strategy =
  strategy_guards :: "nat list"
  subscription_handles :: "nat list"
  service_handles :: "nat list"
  client_handles :: "nat list"
  timer_handles :: "nat list"
  waitable_handles :: "nat list"

record executor_state =
  spinning :: bool
  weak_nodes :: "nat list"
  guard_conditions :: "nat list"
  interrupt_guard_condition :: nat
  strategy :: memory_strategy
  wait_set :: rcl_wait_set_t
  ros :: ros_world

type_synonym 'a exec_act = "(executor_state, 'a) act"

record AnyExecutable =
  ae_subscription :: "nat option"
  ae_subscription_intra_process :: "nat option"
  ae_timer :: "nat option"
  ae_service :: "nat option"
  ae_client :: "nat option"
  ae_waitable :: "nat option"
  ae_callback_group :: "nat option"
  ae_node_base :: "nat option"

definition AnyExecutable_init :: AnyExecutable where
  "AnyExecutable_init = \<lparr> ae_subscription = None, ae_subscription_intra_process = None, ae_timer = None, ae_service = None,
     ae_client = None, ae_waitable = None, ae_callback_group = None, ae_node_base = None \<rparr>"

text \<open>
  What is outside in one round of an executor: the wait set's own environment; the context and the
  guard conditions; timers before (\<open>False\<close>) and after waiting; what taking a message returns; the
  callbacks; and the waitables, classes of the user behind an interface.
\<close>

record exec_env =
  waiting :: wait_env
  context_ok :: bool
  trigger_ok :: bool
  timer_object :: "bool \<Rightarrow> nat \<Rightarrow> timer_base"
  timer_now :: "bool \<Rightarrow> nat \<Rightarrow> clock_reading"
  take_result :: "nat \<Rightarrow> rcl_ret"
  on_timer :: "nat \<Rightarrow> unit exec_act"
  on_message :: "nat \<Rightarrow> unit exec_act"
  on_intra_process_message :: "nat \<Rightarrow> unit exec_act"
  on_request :: "nat \<Rightarrow> unit exec_act"
  on_response :: "nat \<Rightarrow> unit exec_act"
  on_waitable :: "nat \<Rightarrow> unit exec_act"
  waitable_needs :: "nat \<Rightarrow> entity_kind \<Rightarrow> nat"
  waitable_adds :: "nat \<Rightarrow> bool wait_act"
  waitable_is_ready :: "nat \<Rightarrow> rcl_wait_set_t \<Rightarrow> bool"

text \<open>A scope with a destructor at its end, which also runs when an exception leaves the scope.\<close>

definition finallyA :: "'a exec_act \<Rightarrow> unit exec_act \<Rightarrow> 'a exec_act" where
  "finallyA m d = (\<lambda>s. case m s of (r, s') \<Rightarrow> (r, snd (d s')))"

definition on_wait_set :: "'a wait_act \<Rightarrow> 'a exec_act" where
  "on_wait_set m = (\<lambda>s. case m (wait_set s) of (r, w) \<Rightarrow> (r, s\<lparr> wait_set := w \<rparr>))"

definition store_taken :: "nat \<Rightarrow> bool \<Rightarrow> ros_world \<Rightarrow> ros_world" where
  "store_taken g b w = w\<lparr> groups := (groups w)(g := map_option (\<lambda>grp. grp\<lparr> can_be_taken_from := b \<rparr>) (groups w g)) \<rparr>"

definition store_can_be_taken_from :: "nat \<Rightarrow> bool \<Rightarrow> unit exec_act" where
  "store_can_be_taken_from g b = modA (\<lambda>s. s\<lparr> ros := store_taken g b (ros s) \<rparr>)"

definition trigger_guard_condition :: "exec_env \<Rightarrow> unit exec_act" where
  "trigger_guard_condition env = (if trigger_ok env then retA () else throwA (Runtime_error ''rcl_trigger_guard_condition''))"

section \<open>Searching nodes and groups\<close>

text \<open>The loops over the nodes that exist and their groups that exist.\<close>

definition group_list :: "ros_world \<Rightarrow> nat list \<Rightarrow> (nat \<times> nat \<times> CallbackGroup) list" where
  "group_list w ns = concat (map (\<lambda>n. case nodes w n of
       None \<Rightarrow> []
     | Some nd \<Rightarrow> List.map_filter (\<lambda>g. map_option (\<lambda>grp. (n, g, grp)) (groups w g)) (callback_groups nd)) ns)"

fun find_first :: "('a \<Rightarrow> 'b option) \<Rightarrow> 'a list \<Rightarrow> 'b option" where
  "find_first f [] = None"
| "find_first f (x # xs) = (case f x of None \<Rightarrow> find_first f xs | Some y \<Rightarrow> Some y)"

definition get_subscription_by_handle :: "ros_world \<Rightarrow> nat list \<Rightarrow> nat \<Rightarrow> nat option" where
  "get_subscription_by_handle w ns h =
     find_first (\<lambda>(n, g, grp). find_first (\<lambda>p. case subscriptions w p of
         None \<Rightarrow> None
       | Some sub \<Rightarrow> if subscription_handle sub = h then Some p
           else if intra_process_subscription_handle sub = Some h then Some p else None) (subscription_ptrs grp)) (group_list w ns)"

definition get_service_by_handle :: "ros_world \<Rightarrow> nat list \<Rightarrow> nat \<Rightarrow> nat option" where
  "get_service_by_handle w ns h =
     find_first (\<lambda>(n, g, grp). find_first (\<lambda>p. if services w p = Some h then Some p else None) (service_ptrs grp)) (group_list w ns)"

definition get_client_by_handle :: "ros_world \<Rightarrow> nat list \<Rightarrow> nat \<Rightarrow> nat option" where
  "get_client_by_handle w ns h =
     find_first (\<lambda>(n, g, grp). find_first (\<lambda>p. if clients w p = Some h then Some p else None) (client_ptrs grp)) (group_list w ns)"

definition get_node_by_group :: "ros_world \<Rightarrow> nat list \<Rightarrow> nat \<Rightarrow> nat option" where
  "get_node_by_group w ns g = find_first (\<lambda>(n, g', grp). if g' = g then Some n else None) (group_list w ns)"

definition get_group_by_subscription :: "ros_world \<Rightarrow> nat list \<Rightarrow> nat \<Rightarrow> nat option" where
  "get_group_by_subscription w ns p =
     find_first (\<lambda>(n, g, grp). if list_ex (\<lambda>q. subscriptions w q \<noteq> None \<and> q = p) (subscription_ptrs grp) then Some g else None) (group_list w ns)"

definition get_group_by_service :: "ros_world \<Rightarrow> nat list \<Rightarrow> nat \<Rightarrow> nat option" where
  "get_group_by_service w ns p =
     find_first (\<lambda>(n, g, grp). if list_ex (\<lambda>q. services w q \<noteq> None \<and> q = p) (service_ptrs grp) then Some g else None) (group_list w ns)"

definition get_group_by_client :: "ros_world \<Rightarrow> nat list \<Rightarrow> nat \<Rightarrow> nat option" where
  "get_group_by_client w ns p =
     find_first (\<lambda>(n, g, grp). if list_ex (\<lambda>q. clients w q \<noteq> None \<and> q = p) (client_ptrs grp) then Some g else None) (group_list w ns)"

definition get_group_by_waitable :: "ros_world \<Rightarrow> nat list \<Rightarrow> nat \<Rightarrow> nat option" where
  "get_group_by_waitable w ns p =
     find_first (\<lambda>(n, g, grp). if list_ex (\<lambda>q. waitables w q \<and> q = p) (waitable_ptrs grp) then Some g else None) (group_list w ns)"

definition get_group_by_timer :: "ros_world \<Rightarrow> nat list \<Rightarrow> nat \<Rightarrow> nat option" where
  "get_group_by_timer w ns p =
     find_first (\<lambda>(n, g, grp). if list_ex (\<lambda>q. timers w q \<noteq> None \<and> q = p) (timer_ptrs grp) then Some g else None) (group_list w ns)"
section \<open>The memory strategy\<close>

definition add_guard_condition :: "nat \<Rightarrow> memory_strategy \<Rightarrow> memory_strategy" where
  "add_guard_condition gc ms =
     (if gc \<in> set (strategy_guards ms) then ms else ms\<lparr> strategy_guards := strategy_guards ms @ [gc] \<rparr>)"

definition remove_guard_condition :: "nat \<Rightarrow> memory_strategy \<Rightarrow> memory_strategy" where
  "remove_guard_condition gc ms = ms\<lparr> strategy_guards := erase_first (\<lambda>x. x = gc) (strategy_guards ms) \<rparr>"

definition clear_handles :: "memory_strategy \<Rightarrow> memory_strategy" where
  "clear_handles ms = ms\<lparr> subscription_handles := [], service_handles := [], client_handles := [], timer_handles := [], waitable_handles := [] \<rparr>"

definition subscription_handles_of :: "ros_world \<Rightarrow> nat \<Rightarrow> nat list" where
  "subscription_handles_of w p = (case subscriptions w p of
      None \<Rightarrow> []
    | Some sub \<Rightarrow> subscription_handle sub # (case intra_process_subscription_handle sub of None \<Rightarrow> [] | Some h \<Rightarrow> [h]))"

definition collect_group :: "ros_world \<Rightarrow> CallbackGroup \<Rightarrow> memory_strategy \<Rightarrow> memory_strategy" where
  "collect_group w grp ms =
     (if \<not> can_be_taken_from grp then ms
      else ms\<lparr> subscription_handles := subscription_handles ms @ concat (map (subscription_handles_of w) (subscription_ptrs grp)),
               service_handles := service_handles ms @ List.map_filter (services w) (service_ptrs grp),
               client_handles := client_handles ms @ List.map_filter (clients w) (client_ptrs grp),
               timer_handles := timer_handles ms @ List.map_filter (timers w) (timer_ptrs grp),
               waitable_handles := waitable_handles ms @ filter (waitables w) (waitable_ptrs grp) \<rparr>)"

definition collect_entities :: "ros_world \<Rightarrow> nat list \<Rightarrow> memory_strategy \<Rightarrow> bool \<times> memory_strategy" where
  "collect_entities w ns ms =
     (list_ex (\<lambda>n. nodes w n = None) ns, fold (\<lambda>(n, g, grp). collect_group w grp) (group_list w ns) ms)"

text \<open>The number of entities of a kind, those of the waitables included.\<close>

definition number_of_ready :: "exec_env \<Rightarrow> memory_strategy \<Rightarrow> entity_kind \<Rightarrow> nat" where
  "number_of_ready env ms k =
     (case k of
        Subscriptions \<Rightarrow> length (subscription_handles ms)
      | Guard_conditions \<Rightarrow> length (strategy_guards ms)
      | Timers \<Rightarrow> length (timer_handles ms)
      | Clients \<Rightarrow> length (client_handles ms)
      | Services \<Rightarrow> length (service_handles ms)
      | Events \<Rightarrow> 0) + sum_list (map (\<lambda>p. waitable_needs env p k) (waitable_handles ms))"

fun add_each :: "(nat \<Rightarrow> (rcl_ret + nat) wait_act) \<Rightarrow> nat list \<Rightarrow> bool wait_act" where
  "add_each f [] = retA True"
| "add_each f (h # hs) = bindA (f h) (\<lambda>r. case r of Inl _ \<Rightarrow> retA False | Inr _ \<Rightarrow> add_each f hs)"

fun add_waitables :: "exec_env \<Rightarrow> nat list \<Rightarrow> bool wait_act" where
  "add_waitables env [] = retA True"
| "add_waitables env (p # ps) = bindA (waitable_adds env p) (\<lambda>ok. if ok then add_waitables env ps else retA False)"

definition andA :: "('s, bool) act \<Rightarrow> ('s, bool) act \<Rightarrow> ('s, bool) act" where
  "andA m n = bindA m (\<lambda>b. if b then n else retA False)"

definition add_handles_to_wait_set :: "exec_env \<Rightarrow> memory_strategy \<Rightarrow> bool wait_act" where
  "add_handles_to_wait_set env ms =
     andA (add_each (\<lambda>h. rcl_wait_set_add_subscription (waiting env) (Some h)) (subscription_handles ms))
     (andA (add_each (\<lambda>h. rcl_wait_set_add_client (waiting env) (Some h)) (client_handles ms))
     (andA (add_each (\<lambda>h. rcl_wait_set_add_service (waiting env) (Some h)) (service_handles ms))
     (andA (add_each (\<lambda>h. rcl_wait_set_add_timer (waiting env) (Some h)) (timer_handles ms))
     (andA (add_each (\<lambda>h. rcl_wait_set_add_guard_condition (waiting env) (Some h)) (strategy_guards ms))
       (add_waitables env (waitable_handles ms))))))"

text \<open>The handles whose entry in the array of the wait set is not null.\<close>

fun keep_set :: "nat option ptr \<Rightarrow> nat \<Rightarrow> nat list \<Rightarrow> nat list res" where
  "keep_set p i [] = Ok []"
| "keep_set p i (h # hs) =
     bindR (read_at p i) (\<lambda>x. bindR (keep_set p (Suc i) hs) (\<lambda>hs'. Ok (if x = None then hs' else h # hs')))"

definition remove_null_handles :: "exec_env \<Rightarrow> rcl_wait_set_t \<Rightarrow> memory_strategy \<Rightarrow> memory_strategy res" where
  "remove_null_handles env ws ms =
     bindR (keep_set (items (get_set Subscriptions ws)) 0 (subscription_handles ms)) (\<lambda>subs.
     bindR (keep_set (items (get_set Services ws)) 0 (service_handles ms)) (\<lambda>servs.
     bindR (keep_set (items (get_set Clients ws)) 0 (client_handles ms)) (\<lambda>clis.
     bindR (keep_set (items (get_set Timers ws)) 0 (timer_handles ms)) (\<lambda>tims.
     Ok (ms\<lparr> subscription_handles := subs, service_handles := servs, client_handles := clis, timer_handles := tims,
             waitable_handles := filter (\<lambda>p. waitable_is_ready env p ws) (waitable_handles ms) \<rparr>)))))"

text \<open>
  The loop all \<open>get_next_\<close> functions share: handles without an entity or without a group are erased,
  those of a group that is in use are left, and the first other one is erased and returned with its
  entity and its group.
\<close>

definition group_free :: "ros_world \<Rightarrow> nat \<Rightarrow> bool" where
  "group_free w g = (case groups w g of None \<Rightarrow> False | Some grp \<Rightarrow> can_be_taken_from grp)"

fun next_handle :: "ros_world \<Rightarrow> (nat \<Rightarrow> nat option) \<Rightarrow> (nat \<Rightarrow> nat option) \<Rightarrow> nat list \<Rightarrow> (nat \<times> nat \<times> nat) option \<times> nat list" where
  "next_handle w entity group_of [] = (None, [])"
| "next_handle w entity group_of (h # hs) =
     (case entity h of
        None \<Rightarrow> next_handle w entity group_of hs
      | Some e \<Rightarrow>
          (case group_of e of
             None \<Rightarrow> next_handle w entity group_of hs
           | Some g \<Rightarrow>
               if \<not> group_free w g then (case next_handle w entity group_of hs of (r, hs') \<Rightarrow> (r, h # hs'))
               else (Some (h, e, g), hs)))"

definition in_group :: "ros_world \<Rightarrow> nat list \<Rightarrow> nat \<Rightarrow> AnyExecutable" where
  "in_group w ns g = AnyExecutable_init\<lparr> ae_callback_group := Some g, ae_node_base := get_node_by_group w ns g \<rparr>"

definition get_next_subscription :: "ros_world \<Rightarrow> nat list \<Rightarrow> memory_strategy \<Rightarrow> AnyExecutable option \<times> memory_strategy" where
  "get_next_subscription w ns ms =
     (case next_handle w (get_subscription_by_handle w ns) (get_group_by_subscription w ns) (subscription_handles ms) of
        (r, hs) \<Rightarrow>
          (map_option (\<lambda>(h, p, g).
             if Option.bind (subscriptions w p) intra_process_subscription_handle = Some h
             then (in_group w ns g)\<lparr> ae_subscription_intra_process := Some p \<rparr>
             else (in_group w ns g)\<lparr> ae_subscription := Some p \<rparr>) r,
           ms\<lparr> subscription_handles := hs \<rparr>))"

definition get_next_service :: "ros_world \<Rightarrow> nat list \<Rightarrow> memory_strategy \<Rightarrow> AnyExecutable option \<times> memory_strategy" where
  "get_next_service w ns ms =
     (case next_handle w (get_service_by_handle w ns) (get_group_by_service w ns) (service_handles ms) of
        (r, hs) \<Rightarrow> (map_option (\<lambda>(h, p, g). (in_group w ns g)\<lparr> ae_service := Some p \<rparr>) r, ms\<lparr> service_handles := hs \<rparr>))"

definition get_next_client :: "ros_world \<Rightarrow> nat list \<Rightarrow> memory_strategy \<Rightarrow> AnyExecutable option \<times> memory_strategy" where
  "get_next_client w ns ms =
     (case next_handle w (get_client_by_handle w ns) (get_group_by_client w ns) (client_handles ms) of
        (r, hs) \<Rightarrow> (map_option (\<lambda>(h, p, g). (in_group w ns g)\<lparr> ae_client := Some p \<rparr>) r, ms\<lparr> client_handles := hs \<rparr>))"

definition get_next_waitable :: "ros_world \<Rightarrow> nat list \<Rightarrow> memory_strategy \<Rightarrow> AnyExecutable option \<times> memory_strategy" where
  "get_next_waitable w ns ms =
     (case next_handle w Some (get_group_by_waitable w ns) (waitable_handles ms) of
        (r, hs) \<Rightarrow> (map_option (\<lambda>(h, p, g). (in_group w ns g)\<lparr> ae_waitable := Some p \<rparr>) r, ms\<lparr> waitable_handles := hs \<rparr>))"

section \<open>The next executable\<close>

definition candidate_timers :: "ros_world \<Rightarrow> nat list \<Rightarrow> (nat \<times> nat) list" where
  "candidate_timers w ns = concat (map (\<lambda>(n, g, grp).
     if can_be_taken_from grp then map (\<lambda>p. (p, g)) (filter (\<lambda>p. timers w p \<noteq> None) (timer_ptrs grp)) else []) (group_list w ns))"

fun first_ready :: "(nat \<Rightarrow> bool res) \<Rightarrow> (nat \<times> nat) list \<Rightarrow> (nat \<times> nat) option res" where
  "first_ready ready [] = Ok None"
| "first_ready ready ((p, g) # ts) = bindR (ready p) (\<lambda>b. if b then Ok (Some (p, g)) else first_ready ready ts)"

definition timer_is_ready :: "exec_env \<Rightarrow> bool \<Rightarrow> nat \<Rightarrow> bool res" where
  "timer_is_ready env b p = TimerBase_is_ready (timer_now env b p) (timer_object env b p)"

definition get_next_timer :: "exec_env \<Rightarrow> bool \<Rightarrow> ros_world \<Rightarrow> nat list \<Rightarrow> AnyExecutable option res" where
  "get_next_timer env b w ns =
     bindR (first_ready (timer_is_ready env b) (candidate_timers w ns)) (\<lambda>r.
       Ok (map_option (\<lambda>(p, g). AnyExecutable_init\<lparr> ae_timer := Some p, ae_callback_group := Some g \<rparr>) r))"

text \<open>A search that goes on with the next one if it finds nothing.\<close>

definition orElse :: "AnyExecutable option exec_act \<Rightarrow> AnyExecutable option exec_act \<Rightarrow> AnyExecutable option exec_act" where
  "orElse m n = bindA m (\<lambda>r. if r = None then n else retA r)"

definition from_strategy :: "(ros_world \<Rightarrow> nat list \<Rightarrow> memory_strategy \<Rightarrow> AnyExecutable option \<times> memory_strategy) \<Rightarrow> AnyExecutable option exec_act" where
  "from_strategy f = (\<lambda>s. case f (ros s) (weak_nodes s) (strategy s) of (r, ms) \<Rightarrow> (Ok r, s\<lparr> strategy := ms \<rparr>))"

definition get_next_ready_executable :: "exec_env \<Rightarrow> bool \<Rightarrow> AnyExecutable option exec_act" where
  "get_next_ready_executable env b =
     orElse (bindA (getA (\<lambda>s. (ros s, weak_nodes s))) (\<lambda>(w, ns). liftA (get_next_timer env b w ns)))
     (orElse (from_strategy get_next_subscription)
     (orElse (from_strategy get_next_service)
     (orElse (from_strategy get_next_client)
       (from_strategy get_next_waitable))))"

section \<open>Waiting for work\<close>

fun drop_expired :: "ros_world \<Rightarrow> nat list \<Rightarrow> nat list \<Rightarrow> memory_strategy \<Rightarrow> nat list \<times> nat list \<times> memory_strategy" where
  "drop_expired w (n # ns) (gc # gcs) ms =
     (if nodes w n = None then drop_expired w ns gcs (remove_guard_condition gc ms)
      else case drop_expired w ns gcs ms of (ns', gcs', ms') \<Rightarrow> (n # ns', gc # gcs', ms'))"
| "drop_expired w ns gcs ms = (ns, gcs, ms)"

definition collect_work :: "executor_state \<Rightarrow> executor_state" where
  "collect_work s =
     (case collect_entities (ros s) (weak_nodes s) (clear_handles (strategy s)) of
        (has_invalid_weak_nodes, ms) \<Rightarrow>
          if has_invalid_weak_nodes
          then (case drop_expired (ros s) (weak_nodes s) (guard_conditions s) ms of
              (ns, gcs, ms') \<Rightarrow> s\<lparr> weak_nodes := ns, guard_conditions := gcs, strategy := ms' \<rparr>)
          else s\<lparr> strategy := ms \<rparr>)"

definition wait_for_work :: "exec_env \<Rightarrow> int \<Rightarrow> unit exec_act" where
  "wait_for_work env timeout =
     seqA (modA collect_work)
     (bindA (on_wait_set rcl_wait_set_clear) (\<lambda>ret.
      if ret \<noteq> RCL_RET_OK then throwA (Runtime_error ''Couldn't clear wait set'')
      else bindA (getA strategy) (\<lambda>ms.
      bindA (on_wait_set (rcl_wait_set_resize (waiting env) (number_of_ready env ms))) (\<lambda>ret.
      if ret \<noteq> RCL_RET_OK then throwA (Runtime_error ''Couldn't resize the wait set'')
      else bindA (on_wait_set (add_handles_to_wait_set env ms)) (\<lambda>filled.
      if \<not> filled then throwA (Runtime_error ''Couldn't fill wait set'')
      else bindA (on_wait_set (rcl_wait (waiting env) timeout)) (\<lambda>status.
      if status \<notin> {RCL_RET_WAIT_SET_EMPTY, RCL_RET_OK, RCL_RET_TIMEOUT} then throwA (throw_from_rcl_error status ''rcl_wait() failed'')
      else bindA (getA wait_set) (\<lambda>ws.
      bindA (liftA (remove_null_handles env ws ms)) (\<lambda>ms'. modA (\<lambda>s. s\<lparr> strategy := ms' \<rparr>)))))))))"

definition get_next_executable :: "exec_env \<Rightarrow> int \<Rightarrow> AnyExecutable option exec_act" where
  "get_next_executable env timeout =
     bindA (get_next_ready_executable env False) (\<lambda>r.
     bindA (if r = None
            then seqA (wait_for_work env timeout) (bindA (getA spinning) (\<lambda>sp.
              if \<not> sp then retA None else get_next_ready_executable env True))
            else retA r) (\<lambda>r.
     bindA (getA ros) (\<lambda>w.
     seqA (case Option.bind r ae_callback_group of
             None \<Rightarrow> retA ()
           | Some g \<Rightarrow> whenA (map_option group_type (groups w g) = Some MutuallyExclusive) (store_can_be_taken_from g False))
       (retA r))))"
section \<open>Execution\<close>

definition execute_timer :: "exec_env \<Rightarrow> nat \<Rightarrow> unit exec_act" where
  "execute_timer env p = on_timer env p"

text \<open>An executable has shared pointers, so that its entity exists while it is executed.
  Taking what has arrived: when nothing can be taken, at most an error is logged.\<close>

definition taken :: "exec_env \<Rightarrow> nat \<Rightarrow> unit exec_act \<Rightarrow> unit exec_act" where
  "taken env h handle = whenA (take_result env h = RCL_RET_OK) handle"

definition execute_subscription :: "exec_env \<Rightarrow> nat \<Rightarrow> unit exec_act" where
  "execute_subscription env p =
     bindA (getA (\<lambda>s. subscriptions (ros s) p)) (\<lambda>sub. case sub of
       None \<Rightarrow> throwA (Undefined_behaviour ''null subscription'')
     | Some sb \<Rightarrow> taken env (subscription_handle sb) (on_message env p))"

definition execute_intra_process_subscription :: "exec_env \<Rightarrow> nat \<Rightarrow> unit exec_act" where
  "execute_intra_process_subscription env p =
     bindA (getA (\<lambda>s. Option.bind (subscriptions (ros s) p) intra_process_subscription_handle)) (\<lambda>h. case h of
       None \<Rightarrow> throwA (Undefined_behaviour ''null subscription'')
     | Some h \<Rightarrow> taken env h (on_intra_process_message env p))"

definition execute_service :: "exec_env \<Rightarrow> nat \<Rightarrow> unit exec_act" where
  "execute_service env p =
     bindA (getA (\<lambda>s. services (ros s) p)) (\<lambda>h. case h of
       None \<Rightarrow> throwA (Undefined_behaviour ''null service'')
     | Some h \<Rightarrow> taken env h (on_request env p))"

definition execute_client :: "exec_env \<Rightarrow> nat \<Rightarrow> unit exec_act" where
  "execute_client env p =
     bindA (getA (\<lambda>s. clients (ros s) p)) (\<lambda>h. case h of
       None \<Rightarrow> throwA (Undefined_behaviour ''null client'')
     | Some h \<Rightarrow> taken env h (on_response env p))"

definition if_set :: "nat option \<Rightarrow> (nat \<Rightarrow> unit exec_act) \<Rightarrow> unit exec_act" where
  "if_set p f = (case p of None \<Rightarrow> retA () | Some x \<Rightarrow> f x)"

definition execute_entities :: "exec_env \<Rightarrow> AnyExecutable \<Rightarrow> unit exec_act" where
  "execute_entities env any_exec =
     seqA (if_set (ae_timer any_exec) (execute_timer env))
     (seqA (if_set (ae_subscription any_exec) (execute_subscription env))
     (seqA (if_set (ae_subscription_intra_process any_exec) (execute_intra_process_subscription env))
     (seqA (if_set (ae_service any_exec) (execute_service env))
     (seqA (if_set (ae_client any_exec) (execute_client env))
       (if_set (ae_waitable any_exec) (on_waitable env))))))"

text \<open>The group is given back, and waiting is interrupted because there may be new work.\<close>

definition finish_execution :: "exec_env \<Rightarrow> AnyExecutable \<Rightarrow> unit exec_act" where
  "finish_execution env any_exec = (case ae_callback_group any_exec of
      None \<Rightarrow> throwA (Undefined_behaviour ''null callback group'')
    | Some g \<Rightarrow> seqA (store_can_be_taken_from g True) (trigger_guard_condition env))"

definition execute_any_executable :: "exec_env \<Rightarrow> AnyExecutable \<Rightarrow> unit exec_act" where
  "execute_any_executable env any_exec =
     bindA (getA spinning) (\<lambda>sp.
     if \<not> sp then retA ()
     else seqA (execute_entities env any_exec) (finish_execution env any_exec))"

definition AnyExecutable_destroy :: "AnyExecutable \<Rightarrow> unit exec_act" where
  "AnyExecutable_destroy any_exec = if_set (ae_callback_group any_exec) (\<lambda>g. store_can_be_taken_from g True)"

section \<open>Spinning\<close>

definition spin_once_impl :: "exec_env \<Rightarrow> int \<Rightarrow> unit exec_act" where
  "spin_once_impl env timeout =
     bindA (get_next_executable env timeout) (\<lambda>r. case r of
       None \<Rightarrow> retA ()
     | Some any_exec \<Rightarrow> finallyA (execute_any_executable env any_exec) (AnyExecutable_destroy any_exec))"

text \<open>\<open>spinning.exchange(true)\<close> with the scope exit that stores false.\<close>

definition while_spinning :: "string \<Rightarrow> 'a exec_act \<Rightarrow> 'a exec_act" where
  "while_spinning msg m =
     bindA (getA spinning) (\<lambda>sp.
     if sp then throwA (Runtime_error msg)
     else seqA (modA (\<lambda>s. s\<lparr> spinning := True \<rparr>)) (finallyA m (modA (\<lambda>s. s\<lparr> spinning := False \<rparr>))))"

definition spin_once :: "exec_env \<Rightarrow> int \<Rightarrow> unit exec_act" where
  "spin_once env timeout = while_spinning ''spin_once() called while already spinning'' (spin_once_impl env timeout)"

text \<open>
  The loops go through the environments of their rounds and return whether they have ended by
  themselves; a round of \<open>spin_some\<close> comes with whether the maximal duration is not over, one of
  \<open>spin_until_future_complete\<close> with whether the future is ready after it and with the time.
\<close>

fun spin_some_loop :: "(exec_env \<times> bool) list \<Rightarrow> bool exec_act" where
  "spin_some_loop [] = retA False"
| "spin_some_loop ((env, not_elapsed) # rounds) =
     bindA (getA spinning) (\<lambda>sp.
     if \<not> (context_ok env \<and> sp \<and> not_elapsed) then retA True
     else bindA (get_next_executable env 0) (\<lambda>r. case r of
         None \<Rightarrow> retA True
       | Some any_exec \<Rightarrow>
           seqA (finallyA (execute_any_executable env any_exec) (AnyExecutable_destroy any_exec)) (spin_some_loop rounds)))"

definition spin_some :: "(exec_env \<times> bool) list \<Rightarrow> bool exec_act" where
  "spin_some rounds = while_spinning ''spin_some() called while already spinning'' (spin_some_loop rounds)"

fun spin_loop :: "exec_env list \<Rightarrow> bool exec_act" where
  "spin_loop [] = retA False"
| "spin_loop (env # rounds) =
     bindA (getA spinning) (\<lambda>sp.
     if \<not> (context_ok env \<and> sp) then retA True
     else seqA (spin_once_impl env (- 1)) (spin_loop rounds))"

definition SingleThreadedExecutor_spin :: "exec_env list \<Rightarrow> bool exec_act" where
  "SingleThreadedExecutor_spin rounds = while_spinning ''spin() called while already spinning'' (spin_loop rounds)"

datatype FutureReturnCode = SUCCESS | INTERRUPTED | TIMEOUT

text \<open>Times are nanoseconds without bounds: \<open>start + timeout_ns\<close> is a time point of 64 bits in the code,
  which overflows only for a timeout of nearly three centuries.\<close>

fun until_future_loop :: "int \<Rightarrow> int \<Rightarrow> (exec_env \<times> bool \<times> int) list \<Rightarrow> int \<Rightarrow> FutureReturnCode option exec_act" where
  "until_future_loop timeout_ns end_time [] timeout_left = retA None"
| "until_future_loop timeout_ns end_time ((env, ready, now) # rounds) timeout_left =
     bindA (getA spinning) (\<lambda>sp.
     if \<not> (context_ok env \<and> sp) then retA (Some INTERRUPTED)
     else seqA (spin_once_impl env timeout_left)
       (if ready then retA (Some SUCCESS)
        else if timeout_ns < 0 then until_future_loop timeout_ns end_time rounds timeout_left
        else if now \<ge> end_time then retA (Some TIMEOUT)
        else until_future_loop timeout_ns end_time rounds (end_time - now)))"

definition spin_until_future_complete :: "bool \<Rightarrow> int \<Rightarrow> int \<Rightarrow> (exec_env \<times> bool \<times> int) list \<Rightarrow> FutureReturnCode option exec_act" where
  "spin_until_future_complete ready_before start timeout_ns rounds =
     (if ready_before then retA (Some SUCCESS)
      else while_spinning ''spin_until_future_complete() called while already spinning''
        (until_future_loop timeout_ns (if timeout_ns > 0 then start + timeout_ns else start) rounds timeout_ns))"

definition cancel :: "exec_env \<Rightarrow> unit exec_act" where
  "cancel env = seqA (modA (\<lambda>s. s\<lparr> spinning := False \<rparr>)) (trigger_guard_condition env)"

definition set_memory_strategy :: "memory_strategy option \<Rightarrow> unit exec_act" where
  "set_memory_strategy ms = (case ms of
      None \<Rightarrow> throwA (Runtime_error ''Received NULL memory strategy in executor.'')
    | Some m \<Rightarrow> modA (\<lambda>s. s\<lparr> strategy := m \<rparr>))"

section \<open>Nodes of an executor\<close>

definition associate :: "nat \<Rightarrow> bool \<Rightarrow> unit exec_act" where
  "associate n b = modA (\<lambda>s. s\<lparr> ros := (ros s)\<lparr> nodes := (nodes (ros s))(n := map_option (\<lambda>nd. nd\<lparr> associated_with_executor := b \<rparr>) (nodes (ros s) n)) \<rparr> \<rparr>)"

definition add_node :: "exec_env \<Rightarrow> nat \<Rightarrow> bool \<Rightarrow> unit exec_act" where
  "add_node env n notify =
     bindA (getA (\<lambda>s. nodes (ros s) n)) (\<lambda>node. case node of
       None \<Rightarrow> throwA (Undefined_behaviour ''null node'')
     | Some nd \<Rightarrow>
         seqA (associate n True)
         (if associated_with_executor nd then throwA (Runtime_error ''Node has already been added to an executor.'')
          else bindA (getA weak_nodes) (\<lambda>ns.
            if n \<in> set ns then throwA (Runtime_error ''Cannot add node to executor, node already added.'')
            else
              seqA (modA (\<lambda>s. s\<lparr> weak_nodes := weak_nodes s @ [n], guard_conditions := guard_conditions s @ [notify_guard_condition nd] \<rparr>))
              (seqA (whenA notify (trigger_guard_condition env))
                (modA (\<lambda>s. s\<lparr> strategy := add_guard_condition (notify_guard_condition nd) (strategy s) \<rparr>))))))"

fun drop_node :: "nat \<Rightarrow> nat list \<Rightarrow> nat list \<Rightarrow> nat list \<times> nat list" where
  "drop_node n (m # ns) (gc # gcs) =
     (if m = n then drop_node n ns gcs else case drop_node n ns gcs of (ns', gcs') \<Rightarrow> (m # ns', gc # gcs'))"
| "drop_node n ns gcs = (ns, gcs)"

definition remove_node :: "exec_env \<Rightarrow> nat \<Rightarrow> bool \<Rightarrow> unit exec_act" where
  "remove_node env n notify =
     bindA (getA (\<lambda>s. nodes (ros s) n)) (\<lambda>node. case node of
       None \<Rightarrow> throwA (Undefined_behaviour ''null node'')
     | Some nd \<Rightarrow>
         bindA (getA (\<lambda>s. n \<in> set (weak_nodes s))) (\<lambda>node_removed.
         seqA (modA (\<lambda>s. case drop_node n (weak_nodes s) (guard_conditions s) of (ns, gcs) \<Rightarrow> s\<lparr> weak_nodes := ns, guard_conditions := gcs \<rparr>))
         (seqA (associate n False)
         (seqA (whenA (notify \<and> node_removed) (trigger_guard_condition env))
           (modA (\<lambda>s. s\<lparr> strategy := remove_guard_condition (notify_guard_condition nd) (strategy s) \<rparr>))))))"

definition spin_node_once_nanoseconds :: "exec_env \<Rightarrow> nat \<Rightarrow> int \<Rightarrow> unit exec_act" where
  "spin_node_once_nanoseconds env n timeout =
     seqA (add_node env n False) (seqA (spin_once env timeout) (remove_node env n False))"

definition spin_node_some :: "exec_env \<Rightarrow> nat \<Rightarrow> (exec_env \<times> bool) list \<Rightarrow> unit exec_act" where
  "spin_node_some env n rounds =
     seqA (add_node env n False) (seqA (spin_some rounds) (remove_node env n False))"

text \<open>The constructor: \<open>guard_ok\<close> tells whether the guard condition of the executor can be created,
  \<open>ctx_guard\<close> is the interrupt guard condition of the context for this wait set.\<close>

definition Executor_init :: "wait_env \<Rightarrow> bool \<Rightarrow> nat \<Rightarrow> nat \<Rightarrow> memory_strategy \<Rightarrow> ros_world \<Rightarrow> executor_state res" where
  "Executor_init wenv guard_ok ctx_guard interrupt_guard ms w =
     (if \<not> guard_ok then Err (throw_from_rcl_error RCL_RET_ERROR ''Failed to create interrupt guard condition in Executor constructor'')
      else case rcl_wait_set_init wenv (\<lambda>k. if k = Guard_conditions then 2 else 0) rcl_get_zero_initialized_wait_set of
        (Inl e, _) \<Rightarrow> Err e
      | (Inr ret, ws) \<Rightarrow>
          if ret \<noteq> RCL_RET_OK then Err (Runtime_error ''Failed to create wait set in Executor constructor'')
          else Ok \<lparr> spinning = False, weak_nodes = [], guard_conditions = [], interrupt_guard_condition = interrupt_guard,
            strategy = add_guard_condition interrupt_guard (add_guard_condition ctx_guard ms), wait_set = ws, ros = w \<rparr>)"

definition Executor_destroy :: "wait_env \<Rightarrow> nat \<Rightarrow> unit exec_act" where
  "Executor_destroy wenv ctx_guard =
     bindA (getA (\<lambda>s. (weak_nodes s, guard_conditions s))) (\<lambda>(ns, gcs).
     seqA (forA (\<lambda>n. associate n False) ns)
     (seqA (modA (\<lambda>s. s\<lparr> weak_nodes := [], strategy := fold remove_guard_condition gcs (strategy s), guard_conditions := [] \<rparr>))
     (seqA (on_wait_set (rcl_wait_set_fini wenv))
       (modA (\<lambda>s. s\<lparr> strategy := remove_guard_condition ctx_guard (strategy s) \<rparr>)))))"

text \<open>\<open>rclcpp::spin_some\<close> and \<open>rclcpp::spin\<close> with an executor of their own.\<close>

definition rclcpp_spin_some :: "exec_env \<Rightarrow> nat \<Rightarrow> nat \<Rightarrow> (exec_env \<times> bool) list \<Rightarrow> unit exec_act" where
  "rclcpp_spin_some env ctx_guard n rounds =
     finallyA (spin_node_some env n rounds) (Executor_destroy (waiting env) ctx_guard)"

definition rclcpp_spin :: "exec_env \<Rightarrow> nat \<Rightarrow> nat \<Rightarrow> exec_env list \<Rightarrow> unit exec_act" where
  "rclcpp_spin env ctx_guard n rounds =
     finallyA (seqA (add_node env n True) (seqA (SingleThreadedExecutor_spin rounds) (remove_node env n True)))
       (Executor_destroy (waiting env) ctx_guard)"
section \<open>The choice of the next executable\<close>

lemma find_first_Some: "find_first f xs = Some y \<Longrightarrow> \<exists>x \<in> set xs. f x = Some y"
  by (induction xs) (auto split: option.splits)

lemma find_first_None: "find_first f xs = None \<longleftrightarrow> (\<forall>x \<in> set xs. f x = None)"
  by (induction xs) (auto split: option.splits)

lemma map_filter_mem: "x \<in> set (List.map_filter f ys) \<longleftrightarrow> (\<exists>y \<in> set ys. f y = Some x)"
  by (induction ys) (force simp: List.map_filter_def)+

lemma group_list_mem:
  "(n, g, grp) \<in> set (group_list w ns) \<longleftrightarrow>
     n \<in> set ns \<and> (\<exists>nd. nodes w n = Some nd \<and> g \<in> set (callback_groups nd)) \<and> groups w g = Some grp"
proof -
  have "(n, g, grp) \<in> set (case nodes w m of None \<Rightarrow> [] | Some nd \<Rightarrow>
      List.map_filter (\<lambda>g. map_option (\<lambda>grp. (m, g, grp)) (groups w g)) (callback_groups nd)) \<longleftrightarrow>
    m = n \<and> (\<exists>nd. nodes w n = Some nd \<and> g \<in> set (callback_groups nd)) \<and> groups w g = Some grp" for m
    by (cases "nodes w m") (auto simp: map_filter_mem)
  then show ?thesis by (auto simp: group_list_def)
qed

lemma next_handle_found:
  "next_handle w E G hs = (Some (h, e, g), hs') \<Longrightarrow> h \<in> set hs \<and> E h = Some e \<and> G e = Some g \<and> group_free w g"
  by (induction hs arbitrary: hs') (auto split: option.splits if_splits prod.splits)

lemma next_handle_none:
  "next_handle w E G hs = (None, hs') \<Longrightarrow>
     hs' = filter (\<lambda>h. \<exists>e g. E h = Some e \<and> G e = Some g) hs \<and> (\<forall>h e g. h \<in> set hs \<longrightarrow> E h = Some e \<longrightarrow> G e = Some g \<longrightarrow> \<not> group_free w g)"
  by (induction hs arbitrary: hs') (auto split: option.splits if_splits prod.splits)

lemma first_ready_found: "first_ready f ts = Ok (Some (p, g)) \<Longrightarrow> (p, g) \<in> set ts \<and> f p = Ok True"
  by (induction ts) (auto simp: bindR_def split: if_splits sum.splits)

lemma first_ready_none: "first_ready f ts = Ok None \<Longrightarrow> (p, g) \<in> set ts \<Longrightarrow> f p = Ok False"
  by (induction ts) (auto simp: bindR_def split: if_splits sum.splits)

lemma candidate_timers_mem:
  "(p, g) \<in> set (candidate_timers w ns) \<longleftrightarrow>
     (\<exists>n grp. (n, g, grp) \<in> set (group_list w ns) \<and> can_be_taken_from grp \<and> p \<in> set (timer_ptrs grp) \<and> timers w p \<noteq> None)"
  by (fastforce simp: candidate_timers_def split: if_splits prod.splits)

text \<open>An executable that may be run: one entity that exists, in a group that exists, is free and belongs
  to a node of the executor.\<close>

definition only :: "AnyExecutable \<Rightarrow> nat option list \<Rightarrow> bool" where
  "only any_exec fs \<longleftrightarrow> [ae_timer any_exec, ae_subscription any_exec, ae_subscription_intra_process any_exec, ae_service any_exec,
     ae_client any_exec, ae_waitable any_exec] = fs"

definition offered :: "ros_world \<Rightarrow> nat list \<Rightarrow> AnyExecutable \<Rightarrow> bool" where
  "offered w ns any_exec \<longleftrightarrow> (\<exists>n g grp p. (n, g, grp) \<in> set (group_list w ns) \<and> can_be_taken_from grp \<and> ae_callback_group any_exec = Some g \<and>
     (only any_exec [Some p, None, None, None, None, None] \<and> p \<in> set (timer_ptrs grp) \<and> timers w p \<noteq> None \<or>
      only any_exec [None, Some p, None, None, None, None] \<and> p \<in> set (subscription_ptrs grp) \<and> subscriptions w p \<noteq> None \<or>
      only any_exec [None, None, Some p, None, None, None] \<and> p \<in> set (subscription_ptrs grp) \<and>
        Option.bind (subscriptions w p) intra_process_subscription_handle \<noteq> None \<or>
      only any_exec [None, None, None, Some p, None, None] \<and> p \<in> set (service_ptrs grp) \<and> services w p \<noteq> None \<or>
      only any_exec [None, None, None, None, Some p, None] \<and> p \<in> set (client_ptrs grp) \<and> clients w p \<noteq> None \<or>
      only any_exec [None, None, None, None, None, Some p] \<and> p \<in> set (waitable_ptrs grp) \<and> waitables w p))"

lemmas group_by_defs = get_group_by_subscription_def get_group_by_service_def get_group_by_client_def get_group_by_waitable_def

lemma group_by_mem:
  "get_group_by_subscription w ns p = Some g \<Longrightarrow> \<exists>n grp. (n, g, grp) \<in> set (group_list w ns) \<and> p \<in> set (subscription_ptrs grp) \<and> subscriptions w p \<noteq> None"
  "get_group_by_service w ns p = Some g \<Longrightarrow> \<exists>n grp. (n, g, grp) \<in> set (group_list w ns) \<and> p \<in> set (service_ptrs grp) \<and> services w p \<noteq> None"
  "get_group_by_client w ns p = Some g \<Longrightarrow> \<exists>n grp. (n, g, grp) \<in> set (group_list w ns) \<and> p \<in> set (client_ptrs grp) \<and> clients w p \<noteq> None"
  "get_group_by_waitable w ns p = Some g \<Longrightarrow> \<exists>n grp. (n, g, grp) \<in> set (group_list w ns) \<and> p \<in> set (waitable_ptrs grp) \<and> waitables w p"
  unfolding group_by_defs by (drule find_first_Some, fastforce simp: list_ex_iff split: if_splits)+

lemma free_in_list: "group_free w g \<Longrightarrow> (n, g, grp) \<in> set (group_list w ns) \<Longrightarrow> can_be_taken_from grp"
  by (auto simp: group_list_mem group_free_def)

lemma in_group_fields [simp]:
  "ae_callback_group (in_group w ns g) = Some g" "ae_timer (in_group w ns g) = None" "ae_subscription (in_group w ns g) = None"
  "ae_subscription_intra_process (in_group w ns g) = None" "ae_service (in_group w ns g) = None" "ae_client (in_group w ns g) = None"
  "ae_waitable (in_group w ns g) = None"
  by (simp_all add: in_group_def AnyExecutable_init_def)

lemma offered_timer: "get_next_timer env b w ns = Ok (Some any_exec) \<Longrightarrow>
    offered w ns any_exec \<and> (\<exists>p. ae_timer any_exec = Some p \<and> timer_is_ready env b p = Ok True)"
  by (auto simp: get_next_timer_def res_simps offered_def only_def AnyExecutable_init_def candidate_timers_mem dest!: first_ready_found)

lemma offered_subscription: "get_next_subscription w ns ms = (Some any_exec, ms') \<Longrightarrow> offered w ns any_exec \<and> ae_timer any_exec = None"
  by (auto simp: get_next_subscription_def offered_def only_def split: prod.splits if_splits
      dest!: next_handle_found dest: free_in_list group_by_mem(1))
    (use free_in_list group_by_mem(1) in blast)+

lemma offered_service: "get_next_service w ns ms = (Some any_exec, ms') \<Longrightarrow> offered w ns any_exec \<and> ae_timer any_exec = None"
  by (auto simp: get_next_service_def offered_def only_def split: prod.splits dest!: next_handle_found)
    (use free_in_list group_by_mem(2) in blast)

lemma offered_client: "get_next_client w ns ms = (Some any_exec, ms') \<Longrightarrow> offered w ns any_exec \<and> ae_timer any_exec = None"
  by (auto simp: get_next_client_def offered_def only_def split: prod.splits dest!: next_handle_found)
    (use free_in_list group_by_mem(3) in blast)

lemma offered_waitable: "get_next_waitable w ns ms = (Some any_exec, ms') \<Longrightarrow> offered w ns any_exec \<and> ae_timer any_exec = None"
  by (auto simp: get_next_waitable_def offered_def only_def split: prod.splits dest!: next_handle_found)
    (use free_in_list group_by_mem(4) in blast)

lemmas offered_by = offered_subscription offered_service offered_client offered_waitable
lemma orElse_strategy:
  assumes "orElse (from_strategy f) n s = (Ok r, s')"
  obtains x ms where "f (ros s) (weak_nodes s) (strategy s) = (Some x, ms)" "r = Some x" "s' = s\<lparr> strategy := ms \<rparr>"
    | ms where "f (ros s) (weak_nodes s) (strategy s) = (None, ms)" "n (s\<lparr> strategy := ms \<rparr>) = (Ok r, s')"
  using assms by (auto simp: orElse_def from_strategy_def bindA_Ok act_eval split: prod.splits if_splits)

lemma orElse_Some:
  "orElse m n s = (Ok (Some x), s') \<longleftrightarrow> m s = (Ok (Some x), s') \<or> (\<exists>u. m s = (Ok None, u) \<and> n u = (Ok (Some x), s'))"
  by (auto simp: orElse_def bindA_Ok act_eval)

lemma orElse_None: "orElse m n s = (Ok None, s') \<longleftrightarrow> (\<exists>u. m s = (Ok None, u) \<and> n u = (Ok None, s'))"
  by (auto simp: orElse_def bindA_Ok act_eval)

lemma timer_part:
  "bindA (getA (\<lambda>s. (ros s, weak_nodes s))) (\<lambda>(w, ns). liftA (get_next_timer env b w ns)) s = (get_next_timer env b (ros s) (weak_nodes s), s)"
  by (simp add: act_eval)

text \<open>The searches behind the timers, from the state \<open>t\<close> that differs from \<open>s\<close> in the strategy only.\<close>

definition handle_searches :: "AnyExecutable option exec_act" where
  "handle_searches = orElse (from_strategy get_next_subscription) (orElse (from_strategy get_next_service)
     (orElse (from_strategy get_next_client) (from_strategy get_next_waitable)))"

lemma get_next_ready_executable_alt:
  "get_next_ready_executable env b s = (case get_next_timer env b (ros s) (weak_nodes s) of
     Inl e \<Rightarrow> (Err e, s) | Inr (Some x) \<Rightarrow> (Ok (Some x), s) | Inr None \<Rightarrow> handle_searches s)"
  by (auto simp: get_next_ready_executable_def handle_searches_def orElse_def [of "bindA _ _"] timer_part bindA_eval act_eval split: sum.splits option.splits)

lemma handle_searches_found:
  assumes "handle_searches s = (Ok (Some x), s')"
  shows "offered (ros s) (weak_nodes s) x \<and> ae_timer x = None \<and> (\<exists>ms. s' = s\<lparr> strategy := ms \<rparr>)"
  using assms unfolding handle_searches_def
proof (cases rule: orElse_strategy)
  case (2 ms)
  from 2(2) show ?thesis
  proof (cases rule: orElse_strategy)
    case (2 ms)
    from 2(2) show ?thesis
    proof (cases rule: orElse_strategy)
      case (2 ms)
      then show ?thesis using offered_waitable by (auto simp: from_strategy_def split: prod.splits)
    qed (use offered_client in auto)
  qed (use offered_service in auto)
qed (use offered_subscription in auto)

lemma ready_executable_found:
  assumes "get_next_ready_executable env b s = (Ok (Some any_exec), s')"
  shows "offered (ros s) (weak_nodes s) any_exec" "\<exists>ms. s' = s\<lparr> strategy := ms \<rparr>"
    and "case ae_timer any_exec of Some p \<Rightarrow> timer_is_ready env b p = Ok True
      | None \<Rightarrow> \<forall>(p, g) \<in> set (candidate_timers (ros s) (weak_nodes s)). timer_is_ready env b p = Ok False"
proof -
  have "offered (ros s) (weak_nodes s) any_exec \<and> (\<exists>ms. s' = s\<lparr> strategy := ms \<rparr>) \<and>
      ((\<exists>p. ae_timer any_exec = Some p \<and> timer_is_ready env b p = Ok True) \<or> ae_timer any_exec = None \<and> get_next_timer env b (ros s) (weak_nodes s) = Ok None)"
    using assms unfolding get_next_ready_executable_alt
    by (auto split: sum.splits option.splits dest: offered_timer handle_searches_found intro: exI [of _ "strategy s"])
  then show "offered (ros s) (weak_nodes s) any_exec" "\<exists>ms. s' = s\<lparr> strategy := ms \<rparr>"
    and "case ae_timer any_exec of Some p \<Rightarrow> timer_is_ready env b p = Ok True
      | None \<Rightarrow> \<forall>(p, g) \<in> set (candidate_timers (ros s) (weak_nodes s)). timer_is_ready env b p = Ok False"
    by (auto simp: get_next_timer_def res_simps dest: first_ready_none)
qed

text \<open>Nothing is found: whatever handle is left belongs to a group in use.\<close>

definition held_up :: "ros_world \<Rightarrow> (nat \<Rightarrow> nat option) \<Rightarrow> (nat \<Rightarrow> nat option) \<Rightarrow> nat list \<Rightarrow> bool" where
  "held_up w entity group_of hs \<longleftrightarrow> (\<forall>h \<in> set hs. \<forall>e g. entity h = Some e \<longrightarrow> group_of e = Some g \<longrightarrow> \<not> group_free w g)"

definition all_held_up :: "ros_world \<Rightarrow> nat list \<Rightarrow> memory_strategy \<Rightarrow> bool" where
  "all_held_up w ns ms \<longleftrightarrow>
     held_up w (get_subscription_by_handle w ns) (get_group_by_subscription w ns) (subscription_handles ms) \<and>
     held_up w (get_service_by_handle w ns) (get_group_by_service w ns) (service_handles ms) \<and>
     held_up w (get_client_by_handle w ns) (get_group_by_client w ns) (client_handles ms) \<and>
     held_up w Some (get_group_by_waitable w ns) (waitable_handles ms)"

lemma held_up_none: "next_handle w E G hs = (None, hs') \<Longrightarrow> held_up w E G hs"
  unfolding held_up_def by (blast dest: next_handle_none)

lemma next_none:
  "get_next_subscription w ns ms = (None, ms') \<Longrightarrow>
     held_up w (get_subscription_by_handle w ns) (get_group_by_subscription w ns) (subscription_handles ms) \<and> (\<exists>hs. ms' = ms\<lparr> subscription_handles := hs \<rparr>)"
  "get_next_service w ns ms = (None, ms') \<Longrightarrow>
     held_up w (get_service_by_handle w ns) (get_group_by_service w ns) (service_handles ms) \<and> (\<exists>hs. ms' = ms\<lparr> service_handles := hs \<rparr>)"
  "get_next_client w ns ms = (None, ms') \<Longrightarrow>
     held_up w (get_client_by_handle w ns) (get_group_by_client w ns) (client_handles ms) \<and> (\<exists>hs. ms' = ms\<lparr> client_handles := hs \<rparr>)"
  "get_next_waitable w ns ms = (None, ms') \<Longrightarrow> held_up w Some (get_group_by_waitable w ns) (waitable_handles ms)"
  unfolding get_next_subscription_def get_next_service_def get_next_client_def get_next_waitable_def
  by (auto split: prod.splits dest: held_up_none)

lemma handle_searches_none:
  assumes "handle_searches s = (Ok None, s')"
  shows "all_held_up (ros s) (weak_nodes s) (strategy s) \<and> (\<exists>ms. s' = s\<lparr> strategy := ms \<rparr>)"
  using assms unfolding handle_searches_def
proof (cases rule: orElse_strategy)
  case (2 m1)
  note sub = 2(1)
  from 2(2) show ?thesis
  proof (cases rule: orElse_strategy)
    case (2 m2)
    note serv = 2(1)
    from 2(2) show ?thesis
    proof (cases rule: orElse_strategy)
      case (2 m3)
      note cli = 2(1)
      obtain m4 where way: "get_next_waitable (ros s) (weak_nodes s) m3 = (None, m4)" "s' = s\<lparr> strategy := m4 \<rparr>"
        using 2(2) by (auto simp: from_strategy_def split: prod.splits)
      show ?thesis using next_none(1) [OF sub] next_none(2) [OF serv] next_none(3) [OF cli] next_none(4) [OF way(1)] way(2)
        by (auto simp: all_held_up_def)
    qed auto
  qed auto
qed auto

text \<open>
  C24. What \<open>get_next_ready_executable\<close> finds is one entity that exists, in a group that exists, may be
  taken from and belongs to a node of the executor; timers come first: something else is found
  only if no timer of a free group is ready. If nothing is found, no such timer is ready and every
  handle left that has an entity and a group belongs to a group in use.
\<close>

theorem next_executable_choice:
  assumes "get_next_ready_executable env b s = (Ok r, s')"
  shows "case r of
      Some any_exec \<Rightarrow> offered (ros s) (weak_nodes s) any_exec \<and>
        (case ae_timer any_exec of Some p \<Rightarrow> timer_is_ready env b p = Ok True
         | None \<Rightarrow> \<forall>(p, g) \<in> set (candidate_timers (ros s) (weak_nodes s)). timer_is_ready env b p = Ok False)
    | None \<Rightarrow> (\<forall>(p, g) \<in> set (candidate_timers (ros s) (weak_nodes s)). timer_is_ready env b p = Ok False) \<and>
        all_held_up (ros s) (weak_nodes s) (strategy s)"
proof (cases r)
  case (Some any_exec)
  then show ?thesis using ready_executable_found [of env b s any_exec s'] assms by simp
next
  case None
  then have "get_next_timer env b (ros s) (weak_nodes s) = Ok None" "handle_searches s = (Ok None, s')"
    using assms by (auto simp: get_next_ready_executable_alt split: sum.splits option.splits)
  then show ?thesis using None handle_searches_none [of s s'] by (auto simp: get_next_timer_def res_simps dest: first_ready_none)
qed

section \<open>Groups in use\<close>

definition blocked :: "executor_state \<Rightarrow> nat set" where
  "blocked s = {g. \<exists>grp. groups (ros s) g = Some grp \<and> \<not> can_be_taken_from grp}"

interpretation blk: step_relation "\<lambda>s s'. blocked s' \<subseteq> blocked s"
  by unfold_locales auto

interpretation same_ros: step_relation "\<lambda>s s'. ros s' = ros s \<and> spinning s' = spinning s"
  by unfold_locales auto

text \<open>Callbacks that do not take groups away from the executor themselves.\<close>

definition quiet :: "unit exec_act \<Rightarrow> bool" where
  "quiet m \<longleftrightarrow> (\<forall>s. blocked (snd (m s)) \<subseteq> blocked s)"

definition quiet_env :: "exec_env \<Rightarrow> bool" where
  "quiet_env env \<longleftrightarrow> (\<forall>p. quiet (on_timer env p) \<and> quiet (on_message env p) \<and> quiet (on_intra_process_message env p) \<and>
     quiet (on_request env p) \<and> quiet (on_response env p) \<and> quiet (on_waitable env p))"

lemma quiet_within: "quiet m \<longleftrightarrow> blk.within m"
  by (simp add: quiet_def blk.within_def)

lemma within_store: "blk.within (store_can_be_taken_from g True)"
  unfolding store_can_be_taken_from_def by (rule blk.within_mod) (auto simp: blocked_def store_taken_def split: if_splits)

lemma within_entities:
  assumes "quiet_env env"
  shows "blk.within (execute_entities env any_exec)"
  unfolding execute_entities_def if_set_def execute_timer_def execute_subscription_def execute_intra_process_subscription_def
    execute_service_def execute_client_def taken_def
  using assms by (auto simp: quiet_env_def quiet_within intro!: blk.within_rules split: option.split)

lemma within_execute: "quiet_env env \<Longrightarrow> blk.within (execute_any_executable env any_exec)"
  unfolding execute_any_executable_def finish_execution_def trigger_guard_condition_def
  by (auto intro!: blk.within_rules within_entities within_store split: option.split)

lemma same_on_wait_set: "same_ros.within (on_wait_set m)"
  by (auto simp: same_ros.within_def on_wait_set_def split: prod.splits)

lemma same_wait_for_work: "same_ros.within (wait_for_work env timeout)"
  unfolding wait_for_work_def
  by (intro same_ros.within_seq same_ros.within_bind same_ros.within_if same_ros.within_pure same_on_wait_set same_ros.within_mod)
    (auto simp: collect_work_def split: prod.split)

lemma same_from_strategy: "same_ros.within (from_strategy f)"
  by (auto simp: same_ros.within_def from_strategy_def split: prod.splits)

lemma same_next_ready: "same_ros.within (get_next_ready_executable env b)"
  unfolding get_next_ready_executable_def orElse_def case_prod_unfold
  by (intro same_ros.within_bind same_ros.within_if same_ros.within_pure same_from_strategy)
lemma blocked_store:
  "blocked (s\<lparr> ros := store_taken g True (ros s) \<rparr>) = blocked s - {g}"
  "blocked (s\<lparr> ros := store_taken g False (ros s) \<rparr>) \<subseteq> insert g (blocked s)"
  by (auto simp: blocked_def store_taken_def split: if_splits)

lemma blocked_same: "ros s' = ros s \<Longrightarrow> blocked s' = blocked s"
  by (simp add: blocked_def)

text \<open>The two attempts to find an executable, before the group is marked.\<close>

definition next_search :: "exec_env \<Rightarrow> int \<Rightarrow> AnyExecutable option exec_act" where
  "next_search env timeout =
     bindA (get_next_ready_executable env False) (\<lambda>r. if r = None
       then seqA (wait_for_work env timeout) (bindA (getA spinning) (\<lambda>sp. if \<not> sp then retA None else get_next_ready_executable env True))
       else retA r)"

lemma same_next_search: "next_search env timeout s = (r, t) \<Longrightarrow> ros t = ros s \<and> spinning t = spinning s"
proof -
  have "same_ros.within (next_search env timeout)" unfolding next_search_def
    by (intro same_ros.within_bind same_ros.within_seq same_ros.within_if same_ros.within_pure same_next_ready same_wait_for_work)
  then show "next_search env timeout s = (r, t) \<Longrightarrow> ros t = ros s \<and> spinning t = spinning s" by (rule same_ros.withinD)
qed

lemma next_search_found:
  assumes "next_search env timeout s = (Ok (Some x), t)"
  shows "offered (ros s) (weak_nodes t) x \<and> (\<exists>b. ae_timer x \<noteq> None \<longrightarrow> timer_is_ready env b (the (ae_timer x)) = Ok True)"
proof -
  obtain r u where r: "get_next_ready_executable env False s = (Ok r, u)"
      "(if r = None then seqA (wait_for_work env timeout) (bindA (getA spinning) (\<lambda>sp. if \<not> sp then retA None else get_next_ready_executable env True))
        else retA r) u = (Ok (Some x), t)"
    using assms unfolding next_search_def bindA_Ok by blast
  show ?thesis
  proof (cases r)
    case None
    then obtain v where v: "wait_for_work env timeout u = (Ok (), v)" "get_next_ready_executable env True v = (Ok (Some x), t)"
      using r(2) by (auto simp: seqA_Ok act_eval split: if_splits)
    have "ros u = ros s" "ros v = ros u" using same_ros.withinD [OF same_next_ready r(1)] same_ros.withinD [OF same_wait_for_work v(1)] by auto
    then show ?thesis using ready_executable_found [OF v(2)] by (auto split: option.splits)
  next
    case (Some y)
    then have "y = x" "u = t" using r(2) by (auto simp: act_eval)
    with Some r(1) show ?thesis using ready_executable_found [of env False s x t] by (auto split: option.splits)
  qed
qed

lemma get_next_executable_alt:
  "get_next_executable env timeout s = (case next_search env timeout s of
     (Inr (Some x), t) \<Rightarrow> (Ok (Some x), case ae_callback_group x of
         None \<Rightarrow> t
       | Some g \<Rightarrow> if map_option group_type (groups (ros t) g) = Some MutuallyExclusive then t\<lparr> ros := store_taken g False (ros t) \<rparr> else t)
   | (r, t) \<Rightarrow> (r, t))"
proof -
  have "get_next_executable env timeout s = bindA (next_search env timeout) (\<lambda>r. bindA (getA ros) (\<lambda>w.
      seqA (case Option.bind r ae_callback_group of None \<Rightarrow> retA ()
           | Some g \<Rightarrow> whenA (map_option group_type (groups w g) = Some MutuallyExclusive) (store_can_be_taken_from g False)) (retA r))) s"
    unfolding get_next_executable_def next_search_def by (simp add: bindA_eval split: prod.split sum.split)
  moreover obtain q t where "next_search env timeout s = (q, t)" by fastforce
  ultimately show ?thesis
    by (cases q) (auto simp: bindA_eval [of "next_search env timeout"] store_can_be_taken_from_def seqA_eval act_eval split: option.splits)
qed

lemma next_executable_blocks:
  assumes "get_next_executable env timeout s = (r, s')"
  shows "case r of Inr (Some any_exec) \<Rightarrow> (\<exists>g. ae_callback_group any_exec = Some g \<and> blocked s' \<subseteq> insert g (blocked s))
    | _ \<Rightarrow> blocked s' = blocked s"
proof -
  obtain q t where q: "next_search env timeout s = (q, t)" by fastforce
  then have b: "blocked t = blocked s" using same_next_search blocked_same by blast
  show ?thesis
  proof (cases "\<exists>x. q = Ok (Some x)")
    case True
    then obtain x g where x: "q = Ok (Some x)" "ae_callback_group x = Some g" using next_search_found q by (fastforce simp: offered_def)
    then show ?thesis using assms q b blocked_store(2) [where s = t and g = g] by (auto simp: get_next_executable_alt)
  next
    case False
    then show ?thesis using assms q b by (auto simp: get_next_executable_alt split: sum.splits option.splits)
  qed
qed

lemma scope_frees:
  assumes "quiet_env env" "get_next_executable env timeout s = (Ok (Some any_exec), s1)"
  shows "blocked (snd (finallyA (execute_any_executable env any_exec) (AnyExecutable_destroy any_exec) s1)) \<subseteq> blocked s"
proof -
  obtain r s2 where r: "execute_any_executable env any_exec s1 = (r, s2)" by fastforce
  have "blocked s2 \<subseteq> blocked s1" using within_execute [OF assms(1)] r by (rule blk.withinD)
  moreover obtain g where "ae_callback_group any_exec = Some g" "blocked s1 \<subseteq> insert g (blocked s)" using next_executable_blocks [OF assms(2)] by auto
  ultimately show ?thesis using r
    by (fastforce simp: finallyA_def AnyExecutable_destroy_def if_set_def store_can_be_taken_from_def act_eval blocked_store)
qed

lemma within_spin_once_impl: "quiet_env env \<Longrightarrow> blk.within (spin_once_impl env timeout)"
proof (rule blk.withinI)
  fix s assume env: "quiet_env env"
  obtain r s1 where r: "get_next_executable env timeout s = (r, s1)" by fastforce
  show "blocked (snd (spin_once_impl env timeout s)) \<subseteq> blocked s"
    using next_executable_blocks [OF r] scope_frees [OF env, of timeout s] r
    by (auto simp: spin_once_impl_def bindA_eval act_eval split: sum.splits option.splits)
qed

lemma within_finally_spinning: "blk.within m \<Longrightarrow> blk.within (while_spinning msg m)"
proof -
  assume m: "blk.within m"
  have set: "blk.within (modA (\<lambda>s. s\<lparr> spinning := b \<rparr>))" for b by (rule blk.within_mod) (simp add: blocked_def)
  have "blk.within (finallyA m (modA (\<lambda>s. s\<lparr> spinning := False \<rparr>)))"
  proof (rule blk.withinI)
    fix s
    obtain r t where r: "m s = (r, t)" by fastforce
    then have "blocked t \<subseteq> blocked s" using m by (rule blk.withinD [rotated])
    then show "blocked (snd (finallyA m (modA (\<lambda>s. s\<lparr> spinning := False \<rparr>)) s)) \<subseteq> blocked s" by (simp add: finallyA_def r act_eval blocked_def)
  qed
  then show ?thesis unfolding while_spinning_def by (intro blk.within_bind blk.within_if blk.within_pure blk.within_seq set)
qed

lemma within_spin_some_loop: "list_all (\<lambda>(env, _). quiet_env env) rounds \<Longrightarrow> blk.within (spin_some_loop rounds)"
proof (induction rounds)
  case Nil
  then show ?case by (simp add: blk.within_pure)
next
  case (Cons round rounds)
  obtain env b where round: "round = (env, b)" by fastforce
  show ?case
  proof (rule blk.withinI)
    fix s
    obtain r s1 where r: "get_next_executable env 0 s = (r, s1)" by fastforce
    have "blk.within (spin_some_loop rounds)" using Cons by simp
    then have rest: "blocked (snd (spin_some_loop rounds t)) \<subseteq> blocked t" for t by (simp add: blk.within_def)
    have scope: "blocked t \<subseteq> blocked s" if "r = Ok (Some x)" "finallyA (execute_any_executable env x) (AnyExecutable_destroy x) s1 = (q, t)" for x q t
      using scope_frees [of env 0 s x s1] Cons.prems r that by (simp add: round)
    show "blocked (snd (spin_some_loop (round # rounds) s)) \<subseteq> blocked s"
      using next_executable_blocks [OF r] r subset_trans [OF rest scope] scope
      by (auto simp: round bindA_eval seqA_eval act_eval split: sum.splits option.splits prod.splits; blast)
  qed
qed

lemma within_spin_loop: "list_all quiet_env rounds \<Longrightarrow> blk.within (spin_loop rounds)"
proof (induction rounds)
  case (Cons env rounds)
  then have "quiet_env env" "blk.within (spin_loop rounds)" by simp_all
  then show ?case unfolding spin_loop.simps
    by (intro blk.within_pure blk.within_bind blk.within_if blk.within_seq within_spin_once_impl)
qed (simp add: blk.within_pure)

lemma within_until_future: "list_all (\<lambda>(env, _). quiet_env env) rounds \<Longrightarrow> blk.within (until_future_loop timeout_ns end_time rounds timeout_left)"
proof (induction rounds arbitrary: timeout_left)
  case (Cons round rounds)
  obtain env ready now where round: "round = (env, ready, now)" by (cases round)
  have "quiet_env env" "\<And>left. blk.within (until_future_loop timeout_ns end_time rounds left)" using Cons by (auto simp: round)
  then show ?case unfolding round until_future_loop.simps
    by (intro blk.within_bind blk.within_if blk.within_seq blk.within_pure within_spin_once_impl)
qed (simp add: blk.within_pure)

text \<open>
  C25. No way of spinning in a single thread leaves a callback group blocked that was not blocked
  before, whatever the callbacks of the rounds do short of blocking groups themselves, whether the
  spinning ends, is canceled or is left by an exception of a callback, of the middleware or of a clock.
\<close>

theorem spinning_frees_groups:
  assumes "list_all (\<lambda>(env, _). quiet_env env) rounds" "list_all (\<lambda>(env, _, _). quiet_env env) future_rounds" "quiet_env env"
  shows "blocked (snd (spin_once env timeout s)) \<subseteq> blocked s \<and>
    blocked (snd (spin_some rounds s)) \<subseteq> blocked s \<and>
    blocked (snd (SingleThreadedExecutor_spin (map fst rounds) s)) \<subseteq> blocked s \<and>
    blocked (snd (spin_until_future_complete ready start timeout future_rounds s)) \<subseteq> blocked s"
proof -
  have f: "list_all (\<lambda>(env, _). quiet_env env) future_rounds" using assms(2) by (simp add: case_prod_unfold)
  have l: "list_all quiet_env (map fst rounds)" using assms(1) by (simp add: list.pred_map case_prod_unfold comp_def)
  note w = within_finally_spinning [OF within_spin_once_impl [OF assms(3)]] within_finally_spinning [OF within_spin_some_loop [OF assms(1)]]
    within_finally_spinning [OF within_spin_loop [OF l]] within_finally_spinning [OF within_until_future [OF f]]
  show ?thesis using w
    by (simp add: spin_once_def spin_some_def SingleThreadedExecutor_spin_def spin_until_future_complete_def blk.within_def act_eval)
qed

section \<open>An example\<close>

text \<open>A node with one mutually exclusive group of two timers and a subscription; in the environment
  \<open>k\<close> the timer \<open>k\<close> is ready. The callbacks do nothing.\<close>

definition demo_ros :: "bool \<Rightarrow> ros_world" where
  "demo_ros b = \<lparr> nodes = (\<lambda>n. if n = 0 then Some \<lparr> callback_groups = [0], notify_guard_condition = 9, associated_with_executor = True \<rparr> else None),
     groups = (\<lambda>g. if g = 0 then Some \<lparr> group_type = MutuallyExclusive, can_be_taken_from = b, subscription_ptrs = [5], timer_ptrs = [0, 1],
       service_ptrs = [], client_ptrs = [], waitable_ptrs = [] \<rparr> else None),
     subscriptions = (\<lambda>p. if p = 5 then Some \<lparr> subscription_handle = 50, intra_process_subscription_handle = None, is_serialized = False \<rparr> else None),
     services = (\<lambda>_. None), clients = (\<lambda>_. None), timers = (\<lambda>p. if p < 2 then Some (70 + p) else None), waitables = (\<lambda>_. False) \<rparr>"

definition demo_executor :: "bool \<Rightarrow> bool \<Rightarrow> executor_state" where
  "demo_executor b sp = \<lparr> spinning = sp, weak_nodes = [0], guard_conditions = [9], interrupt_guard_condition = 8,
     strategy = \<lparr> strategy_guards = [7, 8, 9], subscription_handles = [], service_handles = [], client_handles = [], timer_handles = [], waitable_handles = [] \<rparr>,
     wait_set = rcl_get_zero_initialized_wait_set\<lparr> impl := True \<rparr>, ros = demo_ros b \<rparr>"

definition demo_exec_env :: "nat \<Rightarrow> exec_env" where
  "demo_exec_env k = \<lparr> waiting = demo_wait, context_ok = True, trigger_ok = True,
     timer_object = (\<lambda>_ _. \<lparr> tb_handle = Some wait_timer, tb_jitter = J_dummy W_dummy, tb_user_calls = 0 \<rparr>),
     timer_now = (\<lambda>_ p. Inr (if p = k then 6000000000 else 0)), take_result = (\<lambda>_. RCL_RET_OK),
     on_timer = (\<lambda>_. retA ()), on_message = (\<lambda>_. retA ()), on_intra_process_message = (\<lambda>_. retA ()), on_request = (\<lambda>_. retA ()),
     on_response = (\<lambda>_. retA ()), on_waitable = (\<lambda>_. retA ()),
     waitable_needs = (\<lambda>_ _. 0), waitable_adds = (\<lambda>_. retA True), waitable_is_ready = (\<lambda>_ _. False) \<rparr>"

definition demo_timer_exec :: "nat \<Rightarrow> AnyExecutable" where
  "demo_timer_exec k = AnyExecutable_init\<lparr> ae_timer := Some k, ae_callback_group := Some 0 \<rparr>"

lemma demo_store [simp]: "store_taken 0 b (demo_ros c) = demo_ros b"
  by (auto simp: store_taken_def demo_ros_def)

lemma demo_group_list: "group_list (demo_ros b) [0] = [(0, 0, the (groups (demo_ros b) 0))]"
  by (simp add: group_list_def demo_ros_def List.map_filter_def)

lemma demo_ready: "timer_is_ready (demo_exec_env k) b p = Ok (p = k)"
  by (simp add: timer_is_ready_def demo_exec_env_def TimerBase_is_ready_def rcl_timer_is_ready_def rcl_timer_get_time_until_next_call_def wait_timer_def
      i64_sub_def i64_result_def in_i64_def)

lemma demo_next_ready: "k < 2 \<Longrightarrow> get_next_ready_executable (demo_exec_env k) b (demo_executor True sp) = (Ok (Some (demo_timer_exec k)), demo_executor True sp)"
proof -
  have c: "candidate_timers (demo_ros True) [0] = [(0, 0), (1, 0)]"
    unfolding candidate_timers_def demo_group_list by (simp add: demo_ros_def)
  assume "k < 2"
  then have "first_ready (timer_is_ready (demo_exec_env k) b) [(0, 0), (1, 0)] = Ok (Some (k, 0))" by (auto simp: demo_ready)
  then show ?thesis
    by (simp add: get_next_ready_executable_alt get_next_timer_def demo_executor_def c demo_timer_exec_def)
qed

lemma demo_next: "k < 2 \<Longrightarrow> get_next_executable (demo_exec_env k) timeout (demo_executor True sp) = (Ok (Some (demo_timer_exec k)), demo_executor False sp)"
proof -
  assume "k < 2"
  then have "next_search (demo_exec_env k) timeout (demo_executor True sp) = (Ok (Some (demo_timer_exec k)), demo_executor True sp)"
    by (simp add: next_search_def bindA_eval act_eval demo_next_ready)
  moreover have "map_option group_type (groups (ros (demo_executor True sp)) 0) = Some MutuallyExclusive" by (simp add: demo_executor_def demo_ros_def)
  ultimately show ?thesis by (simp add: get_next_executable_alt demo_timer_exec_def AnyExecutable_init_def) (simp add: demo_executor_def)
qed

lemma demo_quiet: "quiet_env (demo_exec_env k)"
  by (simp add: quiet_env_def quiet_within demo_exec_env_def blk.within_pure)

lemma next_executable_choice_witness:
  "get_next_ready_executable (demo_exec_env 1) True (demo_executor True True) = (Ok (Some (demo_timer_exec 1)), demo_executor True True) \<and>
   offered (demo_ros True) [0] (demo_timer_exec 1)"
  using next_executable_choice [OF demo_next_ready [of 1 True True]] demo_next_ready [of 1 True True] by (simp add: demo_executor_def)

lemma spinning_frees_groups_witness:
  "blocked (snd (spin_once (demo_exec_env 1) 0 (demo_executor True False))) \<subseteq> blocked (demo_executor True False)"
  using spinning_frees_groups [of "[(demo_exec_env 0, True)]" "[(demo_exec_env 0, True, 5)]" "demo_exec_env 1" 0 "demo_executor True False"] demo_quiet by simp


end
