(* ===== verification/ExecutorProps.thy ===== *)
theory ExecutorProps
  imports Executor
begin

text \<open>
  What an executor waits for and how it keeps its nodes: waiting leaves exactly the handles of the
  ready entities, the wait set stays usable from round to round, and what happens to a node that is
  added and removed.
\<close>

section \<open>Wait sets that stay usable\<close>

text \<open>Every array is there in its length: what clearing and resizing need.\<close>

fun array_ok :: "nat \<Rightarrow> 'a ptr \<Rightarrow> bool" where
  "array_ok n Null \<longleftrightarrow> n = 0"
| "array_ok n Dangling \<longleftrightarrow> False"
| "array_ok n (Array xs) \<longleftrightarrow> n \<le> length xs"

definition tidy_entity :: "entity_set \<Rightarrow> bool" where
  "tidy_entity e \<longleftrightarrow> array_ok (size_of e) (items e) \<and> array_ok (rmw_count e) (rmw_items e)"

definition tidy :: "rcl_wait_set_t \<Rightarrow> bool" where
  "tidy ws \<longleftrightarrow> impl ws \<and> rmw_items (entities ws Timers) = Null \<and> (\<forall>k. tidy_entity (entities ws k))"

lemma filled_tidy: "filled_with env n hs ws \<Longrightarrow> tidy ws"
proof -
  assume f: "filled_with env n hs ws"
  then have "length (hs k) \<le> n k" for k by (simp add: filled_with_def)
  from this this [of Guard_conditions] f show "tidy ws" by (auto simp: filled_with_def tidy_def tidy_entity_def full_set_def filled_array_def) (metis le_zero_eq length_0_conv)+
qed

lemma array_ok_write: "write_at p i x = Ok q \<Longrightarrow> array_ok n q = array_ok n p" "write_at p n x = Ok q \<Longrightarrow> array_ok (Suc n) q"
  by (auto simp: write_at_def split: ptr.splits if_splits)

lemma array_ok_writable: "write_at p i x = Ok q \<Longrightarrow> p \<noteq> Null"
  by (auto simp: write_at_def)

lemma tidy_update:
  "tidy ws \<Longrightarrow> tidy_entity e \<Longrightarrow> (k = Timers \<Longrightarrow> rmw_items e = Null) \<Longrightarrow> tidy (ws\<lparr> entities := (entities ws)(k := e) \<rparr>)"
  by (simp add: tidy_def)

lemma tidy_put_items:
  "\<lbrakk> tidy ws; write_at (items (entities ws k)) i x = Ok xs \<rbrakk> \<Longrightarrow> tidy (ws\<lparr> entities := (entities ws)(k := (entities ws k)\<lparr> items := xs \<rparr>) \<rparr>)"
  by (rule tidy_update) (auto simp: tidy_def tidy_entity_def array_ok_write(1))

lemma tidy_put_rmw:
  "\<lbrakk> tidy ws; write_at (rmw_items (entities ws k)) (rmw_count (entities ws k)) x = Ok xs \<rbrakk> \<Longrightarrow>
     tidy (ws\<lparr> entities := (entities ws)(k := (entities ws k)\<lparr> rmw_items := xs, rmw_count := Suc (rmw_count (entities ws k)) \<rparr>) \<rparr>)"
  by (rule tidy_update) (auto simp: tidy_def tidy_entity_def array_ok_write(2) dest: array_ok_writable)

lemmas tidy_eval = bindA_eval seqA_eval act_eval put_set_def get_set_def

lemma tidy_timers_before: "timers_before env is b m ws = (r, ws') \<Longrightarrow> tidy ws \<Longrightarrow> tidy ws'"
proof (induction "is" arbitrary: b m ws)
  case (Cons i "is")
  from Cons.prems show ?case
    by (auto simp: tidy_eval split: sum.splits prod.splits option.splits if_splits elim!: Cons.IH intro!: tidy_put_items tidy_put_rmw)
qed (simp add: act_eval)

lemma tidy_timers_after: "timers_after env is ws = (r, ws') \<Longrightarrow> tidy ws \<Longrightarrow> tidy ws'"
proof (induction "is" arbitrary: ws)
  case (Cons i "is")
  from Cons.prems show ?case
    by (auto simp: tidy_eval split: sum.splits prod.splits option.splits if_splits elim!: Cons.IH intro!: tidy_put_items)
qed (simp add: act_eval)

lemma tidy_drop_unready: "drop_unready k is ws = (r, ws') \<Longrightarrow> tidy ws \<Longrightarrow> tidy ws'"
proof (induction "is" arbitrary: ws)
  case (Cons i "is")
  from Cons.prems show ?case
    by (auto simp: tidy_eval split: sum.splits prod.splits option.splits if_splits elim!: Cons.IH intro!: tidy_put_items)
qed (simp add: act_eval)

lemma tidy_drop_kind: "drop_unready_all k ws = (r, ws') \<Longrightarrow> tidy ws \<Longrightarrow> tidy ws'"
  by (auto simp: drop_unready_all_def act_eval intro: tidy_drop_unready)

lemma tidy_drop_all: "forA drop_unready_all ks ws = (r, ws') \<Longrightarrow> tidy ws \<Longrightarrow> tidy ws'"
proof (induction ks arbitrary: ws)
  case (Cons k ks)
  from Cons.prems show ?case
    by (auto simp: seqA_eval split: sum.splits prod.splits elim!: Cons.IH intro: tidy_drop_kind)
qed (simp add: act_eval)

lemma tidy_call_rmw_wait:
  assumes "\<And>t x k. length (snd (rmw_wait env t x) k) = length (x k)" "tidy ws"
  shows "tidy (snd (call_rmw_wait env t ws))"
proof -
  let ?seen = "\<lambda>k. take (rmw_count (entities ws k)) (contents (rmw_items (entities ws k)))"
  have "rmw_count (entities ws k) \<le> length (contents (rmw_items (entities ws k)))" for k
    using assms(2) by (cases "rmw_items (entities ws k)") (auto simp: tidy_def tidy_entity_def contents_def dest: spec [of _ k])
  then have l: "length (snd (rmw_wait env t ?seen) k) = rmw_count (entities ws k)" for k by (simp add: assms(1))
  have "tidy_entity (case rmw_items (entities ws k) of
      Array xs \<Rightarrow> (entities ws k)\<lparr> rmw_items := Array (snd (rmw_wait env t ?seen) k @ drop (rmw_count (entities ws k)) xs) \<rparr> | _ \<Rightarrow> entities ws k)" for k
    using assms(2) l [of k] by (auto simp: tidy_def tidy_entity_def split: ptr.split dest: spec [of _ k])
  then show ?thesis using assms(2) by (simp add: call_rmw_wait_def case_prod_unfold Let_def get_set_def tidy_def)
qed

lemma tidy_rcl_wait:
  assumes "\<And>t x k. length (snd (rmw_wait env t x) k) = length (x k)" "tidy ws" "rcl_wait env timeout ws = (r, ws')"
  shows "tidy ws'"
proof -
  have call: "call_rmw_wait env t u = (q, v) \<Longrightarrow> tidy u \<Longrightarrow> tidy v" for t u q v
    using tidy_call_rmw_wait [OF assms(1), of u t] by simp
  show ?thesis using assms(2,3) unfolding rcl_wait_def onward_def
    by (auto simp: bindA_eval seqA_eval act_eval simp del: forA.simps split: sum.splits prod.splits if_splits
        dest!: tidy_timers_before tidy_timers_after tidy_drop_all call)
qed

section \<open>What waiting leaves to be done\<close>

lemma set_clear_ok:
  assumes "tidy ws"
  shows "\<exists>p i. set_clear k ws = (Ok (), ws\<lparr> entities := (entities ws)(k := (entities ws k)\<lparr> items := p, index_of := i \<rparr>) \<rparr>) \<and> array_ok (size_of (entities ws k)) p"
proof -
  have "array_ok (size_of (entities ws k)) (items (entities ws k))" using assms by (simp add: tidy_def tidy_entity_def)
  then show ?thesis
  proof (cases "items (entities ws k)")
    case Null
    have "ws = ws\<lparr> entities := (entities ws)(k := (entities ws k)\<lparr> items := items (entities ws k), index_of := index_of (entities ws k) \<rparr>) \<rparr>" by simp
    moreover have "set_clear k ws = (Ok (), ws)" using Null by (simp add: set_clear_def get_set_def act_eval)
    ultimately show ?thesis using \<open>array_ok _ _\<close> by metis
  qed (auto simp: set_clear_def get_set_def put_set_def act_eval clear_first_def)
qed

lemma set_clear_rmw_ok:
  assumes "tidy ws"
  shows "\<exists>p. set_clear_rmw k ws = (Ok (), ws\<lparr> entities := (entities ws)(k := (entities ws k)\<lparr> rmw_items := p, rmw_count := 0 \<rparr>) \<rparr>) \<and> array_ok 0 p \<and>
    (p = Null \<longleftrightarrow> rmw_items (entities ws k) = Null)"
proof -
  have a: "array_ok (rmw_count (entities ws k)) (rmw_items (entities ws k))" using assms by (simp add: tidy_def tidy_entity_def)
  have e: "(entities ws)(k := (entities ws k)\<lparr> rmw_items := Null, rmw_count := 0 \<rparr>) = entities ws" if "rmw_items (entities ws k) = Null"
    using a that by (cases "entities ws k") (simp add: fun_upd_idem)
  show ?thesis using a
  proof (cases "rmw_items (entities ws k)")
    case Null
    then show ?thesis using e by (auto simp: set_clear_rmw_def get_set_def act_eval intro!: exI [of _ Null])
  qed (auto simp: set_clear_rmw_def get_set_def put_set_def act_eval clear_first_def)
qed

lemma tidy_clears: "tidy ws \<Longrightarrow> \<exists>ws'. forA set_clear ks ws = (Ok (), ws') \<and> tidy ws'"
proof (induction ks arbitrary: ws)
  case (Cons k ks)
  obtain p i where p: "set_clear k ws = (Ok (), ws\<lparr> entities := (entities ws)(k := (entities ws k)\<lparr> items := p, index_of := i \<rparr>) \<rparr>)"
      "array_ok (size_of (entities ws k)) p" using set_clear_ok [OF Cons.prems] by blast
  have "tidy (ws\<lparr> entities := (entities ws)(k := (entities ws k)\<lparr> items := p, index_of := i \<rparr>) \<rparr>)"
    by (rule tidy_update [OF Cons.prems]) (use Cons.prems p(2) in \<open>auto simp: tidy_def tidy_entity_def\<close>)
  from Cons.IH [OF this] p(1) show ?case by (simp add: seqA_eval)
qed (simp add: act_eval)

lemma tidy_clears_rmw: "tidy ws \<Longrightarrow> Timers \<notin> set ks \<Longrightarrow> \<exists>ws'. forA set_clear_rmw ks ws = (Ok (), ws') \<and> tidy ws'"
proof (induction ks arbitrary: ws)
  case (Cons k ks)
  obtain p where p: "set_clear_rmw k ws = (Ok (), ws\<lparr> entities := (entities ws)(k := (entities ws k)\<lparr> rmw_items := p, rmw_count := 0 \<rparr>) \<rparr>)"
      "array_ok 0 p" using set_clear_rmw_ok [OF Cons.prems(1)] by blast
  have "tidy (ws\<lparr> entities := (entities ws)(k := (entities ws k)\<lparr> rmw_items := p, rmw_count := 0 \<rparr>) \<rparr>)"
    by (rule tidy_update [OF Cons.prems(1)]) (use Cons.prems p(2) in \<open>auto simp: tidy_def tidy_entity_def\<close>)
  from Cons.IH [OF this] Cons.prems(2) p(1) show ?case by (simp add: seqA_eval)
qed (simp add: act_eval)

lemma tidy_sound: "tidy ws \<Longrightarrow> sound ws"
  unfolding tidy_def sound_def tidy_entity_def by (metis array_ok.simps(1,2))

lemma clear_tidy: "tidy ws \<Longrightarrow> \<exists>ws'. rcl_wait_set_clear ws = (Ok RCL_RET_OK, ws') \<and> tidy ws'"
proof -
  assume t: "tidy ws"
  obtain ws1 where "forA set_clear [Subscriptions, Guard_conditions, Clients, Services, Events, Timers] ws = (Ok (), ws1)" "tidy ws1"
    using tidy_clears [OF t] by blast
  moreover obtain ws2 where "forA set_clear_rmw [Subscriptions, Guard_conditions, Clients, Services, Events] ws1 = (Ok (), ws2)" "tidy ws2"
    using tidy_clears_rmw [OF \<open>tidy ws1\<close>, of "[Subscriptions, Guard_conditions, Clients, Services, Events]"] by auto
  ultimately show ?thesis using t by (simp add: rcl_wait_set_clear_def tidy_def seqA_eval act_eval del: forA.simps)
qed

text \<open>The handles of a memory strategy by kind, and adding them.\<close>

definition handles_of :: "memory_strategy \<Rightarrow> entity_kind \<Rightarrow> nat list" where
  "handles_of ms k = (case k of
      Subscriptions \<Rightarrow> subscription_handles ms | Guard_conditions \<Rightarrow> strategy_guards ms | Timers \<Rightarrow> timer_handles ms
    | Clients \<Rightarrow> client_handles ms | Services \<Rightarrow> service_handles ms | Events \<Rightarrow> [])"

definition add_function :: "wait_env \<Rightarrow> entity_kind \<Rightarrow> nat \<Rightarrow> (rcl_ret + nat) wait_act" where
  "add_function env k h = (if k = Timers then rcl_wait_set_add_timer env (Some h) else set_add_both env k (Some h))"

lemma add_each_filled:
  "\<lbrakk> filled_with env n hs ws; length (hs k) + length xs \<le> n k; list_all (\<lambda>h. known_entity env (k, h)) xs \<rbrakk> \<Longrightarrow>
     \<exists>ws'. add_each (add_function env k) xs ws = (Ok True, ws') \<and> filled_with env n (hs(k := hs k @ xs)) ws'"
proof (induction xs arbitrary: hs ws)
  case (Cons h xs)
  have "\<exists>i ws1. add_function env k h ws = (Ok (Inr i), ws1) \<and> filled_with env n (hs(k := hs k @ [h])) ws1"
  proof (cases "k = Timers")
    case True
    then show ?thesis using add_timer_filled [OF Cons.prems(1), of h] Cons.prems(2,3) by (auto simp: add_function_def known_entity_def)
  next
    case False
    then obtain d where "rmw_data env k h = Some d" using Cons.prems(3) by (cases "rmw_handle env k h") (auto simp: known_entity_def rmw_data_def)
    then show ?thesis using add_filled [OF Cons.prems(1) _ False, of h d] Cons.prems(2) False by (auto simp: add_function_def)
  qed
  then obtain i ws1 where ws1: "add_function env k h ws = (Ok (Inr i), ws1)" "filled_with env n (hs(k := hs k @ [h])) ws1" by blast
  have eq: "(hs(k := hs k @ [h]))(k := (hs(k := hs k @ [h])) k @ xs) = hs(k := hs k @ h # xs)" by simp
  from Cons.IH [OF ws1(2)] Cons.prems(2,3) ws1(1) show ?case unfolding eq by (auto simp: bindA_eval)
qed (simp add: act_eval fun_upd_idem)
lemma andA_True: "m s = (Ok True, t) \<Longrightarrow> andA m n s = n t"
  by (simp add: andA_def bindA_eval)

lemma add_handles_filled:
  assumes "filled_with (waiting env) n (\<lambda>_. []) ws" "\<And>k. length (handles_of ms k) \<le> n k" "waitable_handles ms = []"
    and "\<And>k h. h \<in> set (handles_of ms k) \<Longrightarrow> known_entity (waiting env) (k, h)"
  shows "\<exists>ws'. add_handles_to_wait_set env ms ws = (Ok True, ws') \<and> filled_with (waiting env) n (handles_of ms) ws'"
proof -
  let ?w = "waiting env" and ?h = "handles_of ms"
  note step = add_each_filled [where env = ?w and n = n]
  have known: "list_all (\<lambda>h. known_entity ?w (k, h)) (?h k)" for k using assms(4) by (simp add: list_all_iff)
  have f: "(\<lambda>h. rcl_wait_set_add_subscription ?w (Some h)) = add_function ?w Subscriptions" "(\<lambda>h. rcl_wait_set_add_client ?w (Some h)) = add_function ?w Clients"
    "(\<lambda>h. rcl_wait_set_add_service ?w (Some h)) = add_function ?w Services" "(\<lambda>h. rcl_wait_set_add_timer ?w (Some h)) = add_function ?w Timers"
    "(\<lambda>h. rcl_wait_set_add_guard_condition ?w (Some h)) = add_function ?w Guard_conditions"
    by (auto simp: add_function_def rcl_wait_set_add_subscription_def rcl_wait_set_add_guard_condition_def rcl_wait_set_add_client_def rcl_wait_set_add_service_def)
  let ?h1 = "(\<lambda>_. [])(Subscriptions := ?h Subscriptions)" and ?ok = "\<lambda>k ws ws'. add_each (add_function ?w k) (?h k) ws = (Ok True, ws')"
  obtain w1 where w1: "?ok Subscriptions ws w1" "filled_with ?w n ?h1 w1" using step [OF assms(1) _ known] assms(2) by auto
  let ?h2 = "?h1(Clients := ?h Clients)"
  obtain w2 where w2: "?ok Clients w1 w2" "filled_with ?w n ?h2 w2" using step [OF w1(2) _ known [of Clients]] assms(2) by auto
  let ?h3 = "?h2(Services := ?h Services)"
  obtain w3 where w3: "?ok Services w2 w3" "filled_with ?w n ?h3 w3" using step [OF w2(2) _ known [of Services]] assms(2) by auto
  let ?h4 = "?h3(Timers := ?h Timers)"
  obtain w4 where w4: "?ok Timers w3 w4" "filled_with ?w n ?h4 w4" using step [OF w3(2) _ known [of Timers]] assms(2) by auto
  let ?h5 = "?h4(Guard_conditions := ?h Guard_conditions)"
  obtain w5 where w5: "?ok Guard_conditions w4 w5" "filled_with ?w n ?h5 w5" using step [OF w4(2) _ known [of Guard_conditions]] assms(2) by auto
  have "?h5 k = ?h k" for k by (cases k) (simp_all add: handles_of_def)
  then have "?h5 = ?h" by (rule ext)
  moreover have "add_handles_to_wait_set env ms ws = (Ok True, w5)"
    using w1(1) w2(1) w3(1) w4(1) w5(1) unfolding add_handles_to_wait_set_def f assms(3)
    by (simp add: handles_of_def andA_True act_eval)
  ultimately show ?thesis using w5(2) by auto
qed

fun somes :: "'a option list \<Rightarrow> 'a list" where
  "somes [] = []"
| "somes (None # xs) = somes xs"
| "somes (Some x # xs) = x # somes xs"

lemma keep_set_ready:
  "list_all2 (\<lambda>h x. x = None \<or> x = Some h) hs xs \<Longrightarrow> keep_set (Array (ys @ xs)) (length ys) hs = Ok (somes xs)"
proof (induction hs xs arbitrary: ys rule: list_all2_induct)
  case (Cons h hs x xs)
  have "keep_set (Array (ys @ x # xs)) (Suc (length ys)) hs = Ok (somes xs)" using Cons.IH [of "ys @ [x]"] by simp
  then show ?case using Cons.hyps by (auto simp: read_at_def)
qed simp

lemma keep_ready_items:
  "keep_set (filled_array (length (hs k)) (ready_items env hs out k)) 0 (hs k) = Ok (somes (ready_items env hs out k))"
proof (cases "hs k = []")
  case True
  then show ?thesis by (cases "k = Timers") (simp_all add: ready_items_def)
next
  case False
  have "list_all2 (\<lambda>h x. x = None \<or> x = Some h) (hs k) (ready_items env hs out k)"
    by (auto simp: ready_items_def kept_timer_def list_all2_conv_all_nth)
  moreover have "filled_array (length (hs k)) (ready_items env hs out k) = Array ([] @ ready_items env hs out k)"
    using False by (simp add: filled_array_def ready_items_def)
  ultimately show ?thesis using keep_set_ready [of "hs k" "ready_items env hs out k" "[]"] by simp
qed

text \<open>What is outside behaves as documented: memory is there, the middleware knows the entities and
  keeps the lengths of the arrays, the clocks of the timers can be read.\<close>

definition regular :: "exec_env \<Rightarrow> memory_strategy \<Rightarrow> bool" where
  "regular env ms \<longleftrightarrow> (\<forall>i. grants (waiting env) i) \<and> (\<forall>k. \<forall>h \<in> set (handles_of ms k). known_entity (waiting env) (k, h)) \<and>
     (\<forall>h \<in> set (timer_handles ms). timer_readable (waiting env) False h \<and> timer_readable (waiting env) True h) \<and>
     (\<forall>t x. fst (rmw_wait (waiting env) t x) \<noteq> RMW_RET_ERROR \<and> (\<forall>k. length (snd (rmw_wait (waiting env) t x) k) = length (x k)))"

text \<open>
  C26. Waiting for work in regular conditions, without waitables: all entities of free groups of the
  nodes that exist are waited for, and the handles left are exactly those of the ready ones, in
  their order; the wait set stays usable for the next round.
\<close>

theorem wait_for_work_ready:
  assumes "tidy (wait_set s)" "strategy (collect_work s) = ms" "waitable_handles ms = []" "strategy_guards ms \<noteq> []" "regular env ms"
    and "rmw_wait (waiting env) (wait_time (waiting env) timeout (timer_handles ms)) (shown (waiting env) (handles_of ms)) = (r, out)"
  shows "\<exists>s'. wait_for_work env timeout s = (Ok (), s') \<and> tidy (wait_set s') \<and> ros s' = ros s \<and>
    subscription_handles (strategy s') = somes (ready_items (waiting env) (handles_of ms) out Subscriptions) \<and>
    service_handles (strategy s') = somes (ready_items (waiting env) (handles_of ms) out Services) \<and>
    client_handles (strategy s') = somes (ready_items (waiting env) (handles_of ms) out Clients) \<and>
    timer_handles (strategy s') = somes (map (kept_timer (waiting env)) (timer_handles ms))"
proof -
  let ?w = "waiting env" and ?h = "handles_of ms" and ?n = "\<lambda>k. length (handles_of ms k)"
  have n: "number_of_ready env ms = ?n" using assms(3) by (intro ext) (simp add: number_of_ready_def handles_of_def split: entity_kind.split)
  have t0: "tidy (wait_set (collect_work s))" using assms(1) by (simp add: collect_work_def split: prod.split)
  obtain w1 where w1: "rcl_wait_set_clear (wait_set (collect_work s)) = (Ok RCL_RET_OK, w1)" "tidy w1" using clear_tidy [OF t0] by blast
  obtain w2 where w2: "rcl_wait_set_resize ?w ?n w1 = (Ok RCL_RET_OK, w2)" "filled_with ?w ?n (\<lambda>_. []) w2"
    using resize_filled [OF _ tidy_sound [OF w1(2)], of ?w ?n] assms(5) by (auto simp: regular_def)
  obtain w3 where w3: "add_handles_to_wait_set env ms w2 = (Ok True, w3)" "filled_with ?w ?n ?h w3"
    using add_handles_filled [OF w2(2) _ assms(3)] assms(5) by (auto simp: regular_def)
  have rmw: "rmw_wait ?w (wait_time ?w timeout (?h Timers)) (shown ?w ?h) = (r, out)" "r \<noteq> RMW_RET_ERROR" "\<And>k. length (out k) = length (shown ?w ?h k)"
    using assms(5,6) unfolding regular_def by (metis fst_conv snd_conv entity_kind.simps handles_of_def)+
  have "?n Guard_conditions \<noteq> 0" using assms(4) by (simp add: handles_of_def)
  from rcl_wait_filled [OF w3(2) this _ rmw] assms(5) obtain w4 x where
    w4: "rcl_wait ?w timeout w3 = (Ok x, w4)" "x = RCL_RET_TIMEOUT \<or> x = RCL_RET_OK"
      "\<forall>k. items (entities w4 k) = filled_array (?n k) (ready_items ?w ?h out k)"
    by (auto simp: regular_def handles_of_def split: if_splits)
  have t4: "tidy w4" using tidy_rcl_wait [OF _ filled_tidy [OF w3(2)] w4(1)] assms(5) by (auto simp: regular_def)
  let ?ms = "ms\<lparr> subscription_handles := somes (ready_items ?w ?h out Subscriptions), service_handles := somes (ready_items ?w ?h out Services),
      client_handles := somes (ready_items ?w ?h out Clients), timer_handles := somes (ready_items ?w ?h out Timers), waitable_handles := [] \<rparr>"
  have keep: "keep_set (items (get_set k w4)) 0 (?h k) = Ok (somes (ready_items ?w ?h out k))" for k
    using w4(3) keep_ready_items by (simp add: get_set_def)
  have rem: "remove_null_handles env w4 ms = Ok ?ms"
    using keep [of Subscriptions] keep [of Services] keep [of Clients] keep [of Timers] assms(3) by (simp add: remove_null_handles_def handles_of_def)
  have "wait_for_work env timeout s = (Ok (), (collect_work s)\<lparr> wait_set := w4, strategy := ?ms \<rparr>)"
    using w1(1) w2(1) w3(1) w4(1,2) rem assms(2) by (auto simp: wait_for_work_def on_wait_set_def bindA_eval act_eval n)
  moreover have "ros (collect_work s) = ros s" by (simp add: collect_work_def split: prod.split)
  ultimately show ?thesis using t4 by (simp add: ready_items_def handles_of_def)
qed

lemma wait_for_work_ready_witness:
  "\<exists>s'. wait_for_work (demo_exec_env 0) (- 1) (demo_executor True True) = (Ok (), s') \<and> tidy (wait_set s') \<and>
     subscription_handles (strategy s') = [] \<and> timer_handles (strategy s') = [70, 71]"
proof -
  let ?s = "demo_executor True True" and ?env = "demo_exec_env 0"
  define ms where "ms = strategy (collect_work ?s)"
  have ms: "ms = \<lparr> strategy_guards = [7, 8, 9], subscription_handles = [50], service_handles = [], client_handles = [], timer_handles = [70, 71], waitable_handles = [] \<rparr>"
    unfolding ms_def collect_work_def collect_entities_def demo_executor_def executor_state.simps demo_group_list
    by (simp add: demo_ros_def collect_group_def clear_handles_def subscription_handles_of_def List.map_filter_def)
  have w: "waiting ?env = demo_wait" by (simp add: demo_exec_env_def)
  have t: "timer_readable demo_wait b h" "timer_live demo_wait b h" "until_next demo_wait True h = 0" for b h
    by (auto simp: timer_readable_def timer_live_def until_next_def demo_wait_def wait_timer_def in_i64_def)
  have "regular ?env ms" unfolding regular_def w using t by (simp add: demo_wait_rmw) (auto simp: known_entity_def demo_wait_def)
  moreover have "tidy (wait_set ?s)"
    by (simp add: demo_executor_def tidy_def tidy_entity_def rcl_get_zero_initialized_wait_set_def empty_set_def)
  ultimately obtain s' where s': "wait_for_work ?env (- 1) ?s = (Ok (), s')" "tidy (wait_set s')"
      "subscription_handles (strategy s') = somes (ready_items demo_wait (handles_of ms) (\<lambda>k. map (\<lambda>_. None) (shown demo_wait (handles_of ms) k)) Subscriptions)"
      "timer_handles (strategy s') = somes (map (kept_timer demo_wait) (timer_handles ms))"
    using wait_for_work_ready [of ?s ms ?env "- 1", unfolded w, OF _ ms_def [symmetric] _ _ _ demo_wait_rmw(2)] by (auto simp: ms)
  have "subscription_handles (strategy s') = []" "timer_handles (strategy s') = [70, 71]"
    using s'(3,4) t by (simp_all add: ms ready_items_def handles_of_def shown_def kept_timer_def)
  with s'(1,2) show ?thesis by auto
qed

section \<open>Nodes of an executor\<close>

text \<open>\<open>weak_nodes_\<close> and \<open>guard_conditions_\<close> stay parallel, as the loops over both need it.\<close>

definition parallel :: "executor_state \<Rightarrow> bool" where
  "parallel s \<longleftrightarrow> length (weak_nodes s) = length (guard_conditions s)"

lemma drop_node_parallel: "length ns = length gcs \<Longrightarrow> drop_node n ns gcs = (ns', gcs') \<Longrightarrow> length ns' = length gcs' \<and> ns' = filter (\<lambda>m. m \<noteq> n) ns"
  by (induction n ns gcs arbitrary: ns' gcs' rule: drop_node.induct) (auto split: if_splits prod.splits)

lemma drop_expired_parallel:
  "length ns = length gcs \<Longrightarrow> drop_expired w ns gcs ms = (ns', gcs', ms') \<Longrightarrow> length ns' = length gcs' \<and> ns' = filter (\<lambda>n. nodes w n \<noteq> None) ns"
  by (induction w ns gcs ms arbitrary: ns' gcs' ms' rule: drop_expired.induct) (auto split: if_splits prod.splits)

interpretation par: step_relation "\<lambda>s s'. parallel s \<longrightarrow> parallel s'"
  by unfold_locales auto

lemma parallel_updates [simp]:
  "parallel (s\<lparr> ros := w \<rparr>) = parallel s" "parallel (s\<lparr> strategy := ms \<rparr>) = parallel s"
  "parallel (s\<lparr> weak_nodes := ns, guard_conditions := gcs \<rparr>) \<longleftrightarrow> length ns = length gcs"
  by (simp_all add: parallel_def)

lemma par_option: "par.within m \<Longrightarrow> (\<And>y. par.within (f y)) \<Longrightarrow> par.within (case x of None \<Rightarrow> m | Some y \<Rightarrow> f y)"
  by (cases x) auto

lemmas par_rules = par_option par.within_bind par.within_seq par.within_when par.within_if par.within_pure par.within_mod

lemma par_trigger: "par.within (trigger_guard_condition env)"
  by (simp add: trigger_guard_condition_def par.within_pure)

lemma parallel_collect_work: "parallel s \<Longrightarrow> parallel (collect_work s)"
  by (auto simp: collect_work_def parallel_def dest: drop_expired_parallel split: prod.split)

lemma par_add_node: "par.within (add_node env n notify)"
  unfolding add_node_def associate_def
  by (intro par_rules par_trigger) (simp_all add: parallel_def)

lemma par_remove_node: "par.within (remove_node env n notify)"
proof -
  have drop: "parallel s \<longrightarrow> parallel (case drop_node n (weak_nodes s) (guard_conditions s) of (ns, gcs) \<Rightarrow> s\<lparr> weak_nodes := ns, guard_conditions := gcs \<rparr>)" for s
  proof -
    obtain ns gcs where d: "drop_node n (weak_nodes s) (guard_conditions s) = (ns, gcs)" by (metis surj_pair)
    then show ?thesis using drop_node_parallel [OF _ d, THEN conjunct1] by (simp add: parallel_def)
  qed
  show ?thesis unfolding remove_node_def associate_def
    by (intro par_rules par_trigger drop) simp_all
qed

lemma waiting_drops_expired:
  "parallel s \<Longrightarrow> weak_nodes (collect_work s) = filter (\<lambda>n. nodes (ros s) n \<noteq> None) (weak_nodes s)"
proof -
  assume p: "parallel s"
  show ?thesis
  proof (cases "list_ex (\<lambda>n. nodes (ros s) n = None) (weak_nodes s)")
    case True
    obtain b ms where c: "collect_entities (ros s) (weak_nodes s) (clear_handles (strategy s)) = (b, ms)" by fastforce
    obtain ns gcs ms' where d: "drop_expired (ros s) (weak_nodes s) (guard_conditions s) ms = (ns, gcs, ms')" by (metis surj_pair)
    have "b" using c True by (simp add: collect_entities_def)
    then show ?thesis using c d drop_expired_parallel [OF _ d] p by (simp add: collect_work_def parallel_def)
  next
    case False
    then have "filter (\<lambda>n. nodes (ros s) n \<noteq> None) (weak_nodes s) = weak_nodes s" by (simp add: list_ex_iff filter_id_conv)
    with False show ?thesis by (simp add: collect_work_def collect_entities_def)
  qed
qed

text \<open>
  A node may end up in two executors: \<open>remove_node\<close> clears the mark of the node even if the node
  does not belong to this executor, so that it can be added here while another executor has it.
\<close>

theorem foreign_node_can_be_added:
  assumes "nodes (ros s) n = Some nd" "associated_with_executor nd" "n \<notin> set (weak_nodes s)" "parallel s"
  shows "fst (add_node env n False s) = Err (Runtime_error ''Node has already been added to an executor.'') \<and>
    (\<exists>s'. seqA (remove_node env n False) (add_node env n False) s = (Ok (), s') \<and> weak_nodes s' = weak_nodes s @ [n])"
proof -
  have add: "fst (add_node env n False s) = Err (Runtime_error ''Node has already been added to an executor.'')"
    using assms by (simp add: add_node_def associate_def seqA_eval act_eval)
  obtain ns gcs where d: "drop_node n (weak_nodes s) (guard_conditions s) = (ns, gcs)" by (metis surj_pair)
  have "filter (\<lambda>m. m \<noteq> n) (weak_nodes s) = weak_nodes s" using assms(3) by (intro filter_True) auto
  then have "ns = weak_nodes s" using drop_node_parallel [OF _ d] assms(4) by (simp add: parallel_def)
  then have "\<exists>s'. seqA (remove_node env n False) (add_node env n False) s = (Ok (), s') \<and> weak_nodes s' = weak_nodes s @ [n]"
    using assms(1-3) d by (simp add: remove_node_def add_node_def associate_def seqA_eval act_eval)
  with add show ?thesis by blast
qed

lemma foreign_node_can_be_added_witness:
  "\<exists>s'. seqA (remove_node (demo_exec_env 0) 0 False) (add_node (demo_exec_env 0) 0 False) ((demo_executor True False)\<lparr> weak_nodes := [], guard_conditions := [] \<rparr>) = (Ok (), s') \<and>
     weak_nodes s' = [0]"
proof -
  let ?s = "(demo_executor True False)\<lparr> weak_nodes := [], guard_conditions := [] \<rparr>"
  have "nodes (ros ?s) 0 = Some \<lparr> callback_groups = [0], notify_guard_condition = 9, associated_with_executor = True \<rparr>" "weak_nodes ?s = []"
    by (simp_all add: demo_executor_def demo_ros_def)
  with foreign_node_can_be_added [of ?s 0 _ "demo_exec_env 0"] show ?thesis by simp
qed

text \<open>When spinning a node throws, the node stays in the executor, and spinning it again is refused.\<close>

lemma spin_node_once_not_exception_safe:
  assumes "nodes (ros s) n = Some nd" "\<not> associated_with_executor nd" "n \<notin> set (weak_nodes s)"
    and "add_node env n False s = (Ok (), s1)" "spin_once env timeout s1 = (Err e, s2)" "nodes (ros s2) n = nodes (ros s1) n"
  shows "spin_node_once_nanoseconds env n timeout s = (Err e, s2) \<and>
    fst (spin_node_once_nanoseconds env n timeout s2) = Err (Runtime_error ''Node has already been added to an executor.'')"
proof -
  have "nodes (ros s1) n = Some (nd\<lparr> associated_with_executor := True \<rparr>)"
    using assms(1-4) by (auto simp: add_node_def associate_def seqA_eval act_eval split: if_splits)
  then show ?thesis using assms(4-6) by (simp add: spin_node_once_nanoseconds_def seqA_eval add_node_def associate_def act_eval)
qed


end
