(* ===== verification/MultiThreaded.thy ===== *)
theory MultiThreaded
  imports Executor
begin

text \<open>
  The multi-threaded executor (\<open>rclcpp/src/rclcpp/executors/multi_threaded_executor.cpp\<close>): the threads
  that execute \<open>run\<close> as a step relation. What a thread does under \<open>wait_mutex_\<close> is one step; between
  the steps of one thread the others go on. Callbacks take effect when they end, and the groups that
  callbacks create exist from the start, since a group is not seen before a node lists it.
\<close>

section \<open>The steps of a thread\<close>

text \<open>Where a thread is: before the lock; behind \<open>continue\<close> with an executable that is still to be
  destroyed; with an executable taken, executing it, or done with it; or returned from \<open>run\<close>.\<close>

datatype thread =
    Idle
  | Discarding AnyExecutable
  | Taken AnyExecutable
  | Executing AnyExecutable
  | Executed AnyExecutable
  | Finished

record MultiThreadedExecutor =
  base :: executor_state
  scheduled_timers :: "nat list"
  threads :: "nat \<Rightarrow> thread"

definition put_thread :: "nat \<Rightarrow> thread \<Rightarrow> MultiThreadedExecutor \<Rightarrow> MultiThreadedExecutor" where
  "put_thread i t st = st\<lparr> threads := (threads st)(i := t) \<rparr>"

definition release_group :: "AnyExecutable \<Rightarrow> executor_state \<Rightarrow> executor_state" where
  "release_group x s = snd (AnyExecutable_destroy x s)"

text \<open>Under the lock: the next executable, unless its timer is with another thread. An exception
  leaves the thread, which ends the process unless it is the thread that called \<open>spin\<close>; such a run is not followed further.\<close>

definition run_take :: "exec_env \<Rightarrow> nat \<Rightarrow> MultiThreadedExecutor \<Rightarrow> MultiThreadedExecutor option" where
  "run_take env i st =
     (if \<not> (context_ok env \<and> spinning (base st)) then Some (put_thread i Finished st)
      else case get_next_executable env (- 1) (base st) of
        (Inl e, s) \<Rightarrow> None
      | (Inr None, s) \<Rightarrow> Some (st\<lparr> base := s \<rparr>)
      | (Inr (Some x), s) \<Rightarrow>
          (case ae_timer x of
             Some p \<Rightarrow>
               if p \<in> set (scheduled_timers st) then Some (put_thread i (Discarding x) (st\<lparr> base := release_group x s \<rparr>))
               else Some (put_thread i (Taken x) (st\<lparr> base := s, scheduled_timers := p # scheduled_timers st \<rparr>))
           | None \<Rightarrow> Some (put_thread i (Taken x) (st\<lparr> base := s \<rparr>))))"

text \<open>The destructor behind \<open>continue\<close>, when the lock is no longer held.\<close>

definition run_discard :: "nat \<Rightarrow> AnyExecutable \<Rightarrow> MultiThreadedExecutor \<Rightarrow> MultiThreadedExecutor" where
  "run_discard i x st = put_thread i Idle (st\<lparr> base := release_group x (base st) \<rparr>)"

text \<open>\<open>execute_any_executable\<close> returns at once if the executor has been canceled.\<close>

definition run_begin :: "nat \<Rightarrow> AnyExecutable \<Rightarrow> MultiThreadedExecutor \<Rightarrow> MultiThreadedExecutor" where
  "run_begin i x st = put_thread i (if spinning (base st) then Executing x else Executed x) st"

definition run_end :: "exec_env \<Rightarrow> nat \<Rightarrow> AnyExecutable \<Rightarrow> MultiThreadedExecutor \<Rightarrow> MultiThreadedExecutor option" where
  "run_end env i x st =
     (case seqA (execute_entities env x) (finish_execution env x) (base st) of
        (Inl e, s) \<Rightarrow> None
      | (Inr _, s) \<Rightarrow> Some (put_thread i (Executed x) (st\<lparr> base := s \<rparr>)))"

text \<open>The timer is no longer scheduled; the pointer to the group is reset before the executable is
  destroyed.\<close>

definition run_unschedule :: "nat \<Rightarrow> AnyExecutable \<Rightarrow> MultiThreadedExecutor \<Rightarrow> MultiThreadedExecutor" where
  "run_unschedule i x st = put_thread i Idle (case ae_timer x of
      None \<Rightarrow> st
    | Some p \<Rightarrow> st\<lparr> scheduled_timers := filter (\<lambda>q. q \<noteq> p) (scheduled_timers st) \<rparr>)"

text \<open>\<open>spin\<close>: \<open>n\<close> threads are started, and when all have returned the executor is not spinning.\<close>

definition spin_start :: "nat \<Rightarrow> MultiThreadedExecutor \<Rightarrow> MultiThreadedExecutor" where
  "spin_start n st = st\<lparr> base := (base st)\<lparr> spinning := True \<rparr>, threads := (\<lambda>i. if i < n then Idle else Finished) \<rparr>"

definition spin_end :: "MultiThreadedExecutor \<Rightarrow> MultiThreadedExecutor" where
  "spin_end st = st\<lparr> base := (base st)\<lparr> spinning := False \<rparr> \<rparr>"

definition number_of_threads :: "nat \<Rightarrow> nat \<Rightarrow> nat" where
  "number_of_threads requested hardware = (let n = (if requested \<noteq> 0 then requested else hardware) in if n = 0 then 1 else n)"

section \<open>Runs\<close>

text \<open>Callbacks may do anything but change the flags and types of groups or make up groups.\<close>

definition keeps_groups :: "unit exec_act \<Rightarrow> bool" where
  "keeps_groups m \<longleftrightarrow> (\<forall>s g grp'. groups (ros (snd (m s))) g = Some grp' \<longrightarrow>
     (\<exists>grp. groups (ros s) g = Some grp \<and> group_type grp' = group_type grp \<and> can_be_taken_from grp' = can_be_taken_from grp))"

definition group_keeping :: "exec_env \<Rightarrow> bool" where
  "group_keeping env \<longleftrightarrow> (\<forall>x. keeps_groups (execute_entities env x))"

definition exclusive :: "executor_state \<Rightarrow> nat \<Rightarrow> bool" where
  "exclusive s g \<longleftrightarrow> map_option group_type (groups (ros s) g) = Some MutuallyExclusive"

definition exclusive_exec :: "MultiThreadedExecutor \<Rightarrow> AnyExecutable \<Rightarrow> bool" where
  "exclusive_exec st x \<longleftrightarrow> (\<exists>g. ae_callback_group x = Some g \<and> exclusive (base st) g)"

text \<open>The steps; without \<open>d\<close> no executable of a mutually exclusive group is discarded.\<close>

inductive mt_step :: "bool \<Rightarrow> MultiThreadedExecutor \<Rightarrow> MultiThreadedExecutor \<Rightarrow> bool" where
  take: "\<lbrakk> threads st i = Idle; run_take env i st = Some st'; \<And>x. threads st' i = Discarding x \<Longrightarrow> d \<or> \<not> exclusive_exec st x \<rbrakk> \<Longrightarrow> mt_step d st st'"
| discard: "threads st i = Discarding x \<Longrightarrow> mt_step d st (run_discard i x st)"
| start: "threads st i = Taken x \<Longrightarrow> mt_step d st (run_begin i x st)"
| finish: "\<lbrakk> threads st i = Executing x; group_keeping env; run_end env i x st = Some st' \<rbrakk> \<Longrightarrow> mt_step d st st'"
| unschedule: "threads st i = Executed x \<Longrightarrow> mt_step d st (run_unschedule i x st)"
| cancelled: "mt_step d st (st\<lparr> base := (base st)\<lparr> spinning := False \<rparr> \<rparr>)"
| spin: "\<lbrakk> \<not> spinning (base st); \<And>i. threads st i = Finished \<rbrakk> \<Longrightarrow> mt_step d st (spin_start n st)"
| returned: "(\<And>i. threads st i = Finished) \<Longrightarrow> mt_step d st (spin_end st)"

inductive mt_run :: "bool \<Rightarrow> MultiThreadedExecutor \<Rightarrow> MultiThreadedExecutor \<Rightarrow> bool" for d where
  none: "mt_run d st st"
| more: "mt_run d st st' \<Longrightarrow> mt_step d st' st'' \<Longrightarrow> mt_run d st st''"

text \<open>The executables a thread has taken from their groups, and those it has or may still release.\<close>

definition holding :: "thread \<Rightarrow> AnyExecutable option" where
  "holding t = (case t of Taken x \<Rightarrow> Some x | Executing x \<Rightarrow> Some x | _ \<Rightarrow> None)"

definition holds :: "MultiThreadedExecutor \<Rightarrow> nat \<Rightarrow> nat \<Rightarrow> bool" where
  "holds st i g \<longleftrightarrow> Option.bind (holding (threads st i)) ae_callback_group = Some g"

definition discards :: "MultiThreadedExecutor \<Rightarrow> nat \<Rightarrow> nat \<Rightarrow> bool" where
  "discards st i g \<longleftrightarrow> (\<exists>x. threads st i = Discarding x \<and> ae_callback_group x = Some g)"
lemma thread_simps [simp]:
  "holds (put_thread i t st) j g \<longleftrightarrow> (if j = i then Option.bind (holding t) ae_callback_group = Some g else holds st j g)"
  "discards (put_thread i t st) j g \<longleftrightarrow> (if j = i then \<exists>x. t = Discarding x \<and> ae_callback_group x = Some g else discards st j g)"
  "base (put_thread i t st) = base st" "threads (put_thread i t st) j = (if j = i then t else threads st j)"
  "holds (st\<lparr> base := s \<rparr>) j g \<longleftrightarrow> holds st j g" "discards (st\<lparr> base := s \<rparr>) j g \<longleftrightarrow> discards st j g"
  "holds (st\<lparr> scheduled_timers := ts \<rparr>) j g \<longleftrightarrow> holds st j g" "discards (st\<lparr> scheduled_timers := ts \<rparr>) j g \<longleftrightarrow> discards st j g"
  "holding Idle = None" "holding (Discarding x) = None" "holding (Taken x) = Some x" "holding (Executing x) = Some x"
  "holding (Executed x) = None" "holding Finished = None"
  by (simp_all add: holds_def discards_def put_thread_def holding_def)

lemma holds_at:
  "threads st i = Taken x \<Longrightarrow> holds st i g \<longleftrightarrow> ae_callback_group x = Some g"
  "threads st i = Executing x \<Longrightarrow> holds st i g \<longleftrightarrow> ae_callback_group x = Some g"
  "threads st i = Idle \<Longrightarrow> \<not> holds st i g" "threads st i = Discarding x \<Longrightarrow> \<not> holds st i g"
  by (simp_all add: holds_def)

lemma begin_holds:
  "threads st i = Taken x \<Longrightarrow> holds (run_begin i x st) j g \<Longrightarrow> holds st j g"
  "threads st i = Taken x \<Longrightarrow> discards (run_begin i x st) j g \<Longrightarrow> discards st j g" "base (run_begin i x st) = base st"
  by (auto simp: run_begin_def holds_def holding_def discards_def split: if_splits)

section \<open>What the steps do to the groups\<close>

lemma store_taken_groups:
  "exclusive (s\<lparr> ros := store_taken g b (ros s) \<rparr>) g' = exclusive s g'"
  "group_free (store_taken g b w) g' = (if g' = g then b \<and> groups w g \<noteq> None else group_free w g')"
  by (auto simp: exclusive_def store_taken_def group_free_def option.map_comp comp_def split: option.split)

lemma release_group_simps:
  "exclusive (release_group x s) g \<longleftrightarrow> exclusive s g"
  "group_free (ros (release_group x s)) g \<longleftrightarrow>
     (if ae_callback_group x = Some g then groups (ros s) g \<noteq> None else group_free (ros s) g)"
  "spinning (release_group x s) = spinning s"
  by (auto simp: release_group_def AnyExecutable_destroy_def if_set_def store_can_be_taken_from_def act_eval store_taken_groups split: option.split)

lemma exclusive_Some: "exclusive s g \<Longrightarrow> groups (ros s) g \<noteq> None"
  by (auto simp: exclusive_def)

lemma take_groups:
  assumes "get_next_executable env timeout s = (Ok r, s')"
  shows "exclusive s' g' \<longleftrightarrow> exclusive s g'"
    and "case r of None \<Rightarrow> ros s' = ros s
      | Some x \<Rightarrow> \<exists>g. ae_callback_group x = Some g \<and> group_free (ros s) g \<and>
          (\<forall>g'. group_free (ros s') g' \<longleftrightarrow> group_free (ros s) g' \<and> (g' = g \<longrightarrow> \<not> exclusive s g))"
proof -
  obtain q t where q: "next_search env timeout s = (q, t)" by fastforce
  then have t: "ros t = ros s" using same_next_search by blast
  have "(exclusive s' g' \<longleftrightarrow> exclusive s g') \<and> (case r of None \<Rightarrow> ros s' = ros s
      | Some x \<Rightarrow> \<exists>g. ae_callback_group x = Some g \<and> group_free (ros s) g \<and>
          (\<forall>g'. group_free (ros s') g' \<longleftrightarrow> group_free (ros s) g' \<and> (g' = g \<longrightarrow> \<not> exclusive s g)))"
  proof (cases r)
    case None
    then have "s' = t" using assms q by (auto simp: get_next_executable_alt split: sum.splits option.splits)
    then show ?thesis using t None by (simp add: exclusive_def)
  next
    case (Some x)
    then have "q = Ok (Some x)" using assms q by (auto simp: get_next_executable_alt split: sum.splits option.splits)
    then obtain g where g: "ae_callback_group x = Some g" "group_free (ros s) g"
      using next_search_found [of env timeout s x t] q by (auto simp: offered_def group_free_def group_list_mem)
    have s': "s' = (if exclusive s g then t\<lparr> ros := store_taken g False (ros t) \<rparr> else t)"
      using assms q \<open>q = _\<close> g(1) t by (auto simp: get_next_executable_alt exclusive_def)
    have "exclusive s' g' \<longleftrightarrow> exclusive s g'" for g' unfolding s' by (simp add: store_taken_groups) (simp add: exclusive_def t)
    moreover have "group_free (ros s') g' \<longleftrightarrow> group_free (ros s) g' \<and> (g' = g \<longrightarrow> \<not> exclusive s g)" for g'
      unfolding s' by (auto simp: store_taken_groups t)
    ultimately show ?thesis using g Some by auto
  qed
  then show "exclusive s' g' \<longleftrightarrow> exclusive s g'"
    and "case r of None \<Rightarrow> ros s' = ros s
      | Some x \<Rightarrow> \<exists>g. ae_callback_group x = Some g \<and> group_free (ros s) g \<and>
          (\<forall>g'. group_free (ros s') g' \<longleftrightarrow> group_free (ros s) g' \<and> (g' = g \<longrightarrow> \<not> exclusive s g))"
    by blast+
qed

lemma end_groups:
  assumes "group_keeping env" "run_end env i x st = Some st'"
  obtains s where "st' = put_thread i (Executed x) (st\<lparr> base := s \<rparr>)" "\<And>g. exclusive s g \<Longrightarrow> exclusive (base st) g"
    "\<And>g. group_free (ros s) g \<Longrightarrow> ae_callback_group x = Some g \<or> group_free (ros (base st)) g"
proof -
  obtain s1 s where s: "execute_entities env x (base st) = (Ok (), s1)" "finish_execution env x s1 = (Ok (), s)" "st' = put_thread i (Executed x) (st\<lparr> base := s \<rparr>)"
    using assms(2) by (auto simp: run_end_def seqA_eval split: prod.splits sum.splits)
  have keep: "\<exists>grp. groups (ros (base st)) g = Some grp \<and> group_type grp' = group_type grp \<and> can_be_taken_from grp' = can_be_taken_from grp"
    if "groups (ros s1) g = Some grp'" for g grp'
    using assms(1) s(1) that unfolding group_keeping_def keeps_groups_def by (metis snd_conv)
  obtain g where g: "ae_callback_group x = Some g" "s = s1\<lparr> ros := store_taken g True (ros s1) \<rparr>"
    using s(2) by (auto simp: finish_execution_def store_can_be_taken_from_def trigger_guard_condition_def seqA_eval act_eval split: option.splits if_splits)
  show ?thesis
  proof (rule that [OF s(3)])
    show "exclusive s h \<Longrightarrow> exclusive (base st) h" for h using keep [of h] by (auto simp: g(2) store_taken_groups) (auto simp: exclusive_def)
    have "group_free (ros s1) h \<Longrightarrow> group_free (ros (base st)) h" for h
      using keep [of h] by (auto simp: group_free_def split: option.splits)
    then show "group_free (ros s) h \<Longrightarrow> ae_callback_group x = Some h \<or> group_free (ros (base st)) h" for h
      using g by (auto simp: store_taken_groups split: if_splits)
  qed
qed

section \<open>Mutual exclusion\<close>

definition mutex_inv :: "MultiThreadedExecutor \<Rightarrow> bool" where
  "mutex_inv st \<longleftrightarrow> (\<forall>g. exclusive (base st) g \<longrightarrow>
     (\<forall>i. holds st i g \<longrightarrow> \<not> group_free (ros (base st)) g) \<and> (\<forall>i j. holds st i g \<longrightarrow> holds st j g \<longrightarrow> i = j) \<and> (\<forall>i. \<not> discards st i g))"

lemma mutex_take:
  assumes "mutex_inv st" "threads st i = Idle" "run_take env i st = Some st'" "\<And>x. threads st' i = Discarding x \<Longrightarrow> \<not> exclusive_exec st x"
  shows "mutex_inv st'"
proof (cases "context_ok env \<and> spinning (base st)")
  case False
  then have "st' = put_thread i Finished st" using assms(3) by (auto simp: run_take_def)
  then show ?thesis using assms(1) by (auto simp: mutex_inv_def)
next
  case True
  obtain r s where r: "get_next_executable env (- 1) (base st) = (r, s)" by fastforce
  with True assms(3) obtain y where y: "r = Ok y" by (auto simp: run_take_def split: sum.splits)
  note tg = take_groups [OF r [unfolded y]]
  show ?thesis
  proof (cases y)
    case None
    then show ?thesis using True assms(1,3) r y tg by (auto simp: run_take_def mutex_inv_def)
  next
    case (Some x)
    then obtain g where g: "ae_callback_group x = Some g" "group_free (ros (base st)) g"
        "\<And>g'. group_free (ros s) g' \<longleftrightarrow> group_free (ros (base st)) g' \<and> (g' = g \<longrightarrow> \<not> exclusive (base st) g)" using tg(2) by auto
    show ?thesis
    proof (cases "\<exists>x. threads st' i = Discarding x")
      case True
      then have st': "st' = put_thread i (Discarding x) (st\<lparr> base := release_group x s \<rparr>)"
        using \<open>context_ok env \<and> _\<close> assms(3) r y Some by (auto simp: run_take_def split: option.splits if_splits)
      then have "\<not> exclusive (base st) g" using assms(4) g(1) by (auto simp: exclusive_exec_def)
      then show ?thesis using assms(1,2) g tg(1) unfolding st' by (auto simp: mutex_inv_def release_group_simps holds_def discards_def)
    next
      case False
      then have st': "st' = put_thread i (Taken x) (st\<lparr> base := s, scheduled_timers := (case ae_timer x of None \<Rightarrow> [] | Some p \<Rightarrow> [p]) @ scheduled_timers st \<rparr>)"
        using \<open>context_ok env \<and> _\<close> assms(3) r y Some by (cases st; cases "ae_timer x") (auto simp: run_take_def split: if_splits)
      then show ?thesis using assms(1,2) g tg(1) unfolding st' by (auto simp: mutex_inv_def)
    qed
  qed
qed

lemma mutex_step:
  assumes "mt_step False st st'" "mutex_inv st"
  shows "mutex_inv st'"
  using assms(1)
proof cases
  case (take i env)
  then show ?thesis using mutex_take assms(2) by blast
next
  case (discard i x)
  then have "\<not> exclusive (base st) g" if "ae_callback_group x = Some g" for g
    using assms(2) that by (auto simp: mutex_inv_def discards_def)
  then show ?thesis using assms(2) discard by (auto simp: run_discard_def mutex_inv_def release_group_simps holds_def)
next
  case (start i x)
  show ?thesis using assms(2) begin_holds(1,2) [OF start(2)] by (simp add: start(1) begin_holds(3) mutex_inv_def) metis
next
  case (finish i x env)
  then obtain s where s: "st' = put_thread i (Executed x) (st\<lparr> base := s \<rparr>)" "\<And>g. exclusive s g \<Longrightarrow> exclusive (base st) g"
      "\<And>g. group_free (ros s) g \<Longrightarrow> ae_callback_group x = Some g \<or> group_free (ros (base st)) g"
    by (blast elim: end_groups)
  have "holds st i g" if "ae_callback_group x = Some g" for g using finish that by (simp add: holds_def)
  then show ?thesis using assms(2) s(2,3) unfolding s(1) mutex_inv_def by (simp split: if_splits) metis
next
  case (unschedule i x)
  then show ?thesis using assms(2) by (auto simp: run_unschedule_def mutex_inv_def split: option.split)
next
  case cancelled
  then show ?thesis using assms(2) by (simp add: mutex_inv_def exclusive_def)
next
  case (spin n)
  then show ?thesis by (simp add: spin_start_def mutex_inv_def holds_def discards_def)
next
  case returned
  then show ?thesis using assms(2) by (simp add: spin_end_def mutex_inv_def exclusive_def)
qed

lemma mutex_run: "mt_run False st st' \<Longrightarrow> mutex_inv st \<Longrightarrow> mutex_inv st'"
  by (induction rule: mt_run.induct) (auto intro: mutex_step)

text \<open>
  C21. Mutual exclusion: from a state in which no thread is at work, as long as no executable of a
  mutually exclusive group is discarded because its timer is scheduled already (there are none in
  groups without timers), never two threads execute callbacks of one mutually exclusive group, whatever
  the number of threads, their interleaving, cancellations and further spinning.
\<close>

theorem mutual_exclusion:
  assumes "mt_run False st st'" "\<And>i. threads st i = Finished"
    and "threads st' i = Executing x" "threads st' j = Executing y"
    and "ae_callback_group x = Some g" "ae_callback_group y = Some g" "exclusive (base st') g"
  shows "i = j"
proof -
  have "mutex_inv st" using assms(2) by (simp add: mutex_inv_def holds_def discards_def)
  then have "mutex_inv st'" by (rule mutex_run [OF assms(1)])
  then show ?thesis using holds_at(2) [OF assms(3)] holds_at(2) [OF assms(4)] assms(5-7) by (auto simp: mutex_inv_def)
qed

section \<open>Groups that are never given back\<close>

definition abandoned :: "MultiThreadedExecutor \<Rightarrow> nat \<Rightarrow> bool" where
  "abandoned st g \<longleftrightarrow> \<not> group_free (ros (base st)) g \<and> (\<forall>i. \<not> holds st i g \<and> \<not> discards st i g)"

lemma abandoned_take:
  assumes "abandoned st g" "threads st i = Idle" "run_take env i st = Some st'"
  shows "abandoned st' g"
proof (cases "context_ok env \<and> spinning (base st)")
  case False
  then have "st' = put_thread i Finished st" using assms(3) by (auto simp: run_take_def)
  then show ?thesis using assms(1) by (auto simp: abandoned_def)
next
  case True
  obtain r s where r: "get_next_executable env (- 1) (base st) = (r, s)" by fastforce
  with True assms(3) obtain y where y: "r = Ok y" by (auto simp: run_take_def split: sum.splits)
  note tg = take_groups [OF r [unfolded y]]
  show ?thesis
  proof (cases y)
    case None
    then show ?thesis using True assms(1,3) r y tg by (auto simp: run_take_def abandoned_def)
  next
    case (Some x)
    then obtain h where h: "ae_callback_group x = Some h" "group_free (ros (base st)) h"
        "\<And>g'. group_free (ros s) g' \<longleftrightarrow> group_free (ros (base st)) g' \<and> (g' = h \<longrightarrow> \<not> exclusive (base st) h)" using tg(2) by auto
    then have "h \<noteq> g" using assms(1) by (auto simp: abandoned_def)
    then show ?thesis using True assms(1-3) r y Some h
      by (auto simp: run_take_def abandoned_def release_group_simps split: option.splits if_splits)
  qed
qed

lemma abandoned_step:
  assumes "mt_step d st st'" "abandoned st g"
  shows "abandoned st' g"
  using assms(1)
proof cases
  case (take i env)
  then show ?thesis using abandoned_take assms(2) by blast
next
  case (discard i x)
  then have "ae_callback_group x \<noteq> Some g" using assms(2) by (auto simp: abandoned_def discards_def)
  then show ?thesis using assms(2) discard by (auto simp: run_discard_def abandoned_def release_group_simps)
next
  case (start i x)
  show ?thesis using assms(2) begin_holds(1,2) [OF start(2)] by (simp add: start(1) begin_holds(3) abandoned_def) metis
next
  case (finish i x env)
  then have "ae_callback_group x \<noteq> Some g" using assms(2) holds_at(2) [of st i x g] by (auto simp: abandoned_def)
  moreover obtain s where s: "st' = put_thread i (Executed x) (st\<lparr> base := s \<rparr>)"
      "\<And>g. group_free (ros s) g \<Longrightarrow> ae_callback_group x = Some g \<or> group_free (ros (base st)) g"
    using finish by (blast elim: end_groups)
  ultimately show ?thesis using assms(2) s(2) [of g] by (auto simp: s(1) abandoned_def)
next
  case (unschedule i x)
  then show ?thesis using assms(2) by (auto simp: run_unschedule_def abandoned_def split: option.split)
next
  case (spin n)
  then show ?thesis using assms(2) by (simp add: spin_start_def abandoned_def holds_def discards_def)
qed (use assms(2) in \<open>auto simp: spin_end_def abandoned_def\<close>)

lemma abandoned_run: "mt_run d st st' \<Longrightarrow> abandoned st g \<Longrightarrow> abandoned st' g"
  by (induction rule: mt_run.induct) (auto intro: abandoned_step)

text \<open>
  C23. Cancellation may block a group for ever: if the executor is canceled while a thread has taken an
  executable of a mutually exclusive group and not begun it, \<open>execute_any_executable\<close> returns without
  giving the group back and the pointer to the group is reset. If until then no executable of a mutually exclusive group
  was discarded because its timer is scheduled (a thread that is still to destroy such an executable would free the group), then
  from then on, whatever is done and discarded, no callback of the group is ever executed, not even when the executor is spun again.
\<close>

theorem canceled_group_blocked_for_ever:
  assumes "mt_run False st0 st" "\<And>i. threads st0 i = Finished"
    and "threads st i = Taken x" "ae_callback_group x = Some g" "exclusive (base st) g" "\<not> spinning (base st)"
    and "mt_run d (run_begin i x st) st'"
  shows "\<not> group_free (ros (base st')) g \<and> (\<forall>j y. threads st' j = Executing y \<longrightarrow> ae_callback_group y \<noteq> Some g)"
proof -
  have "mutex_inv st0" using assms(2) by (simp add: mutex_inv_def holds_def discards_def)
  then have inv: "mutex_inv st" by (rule mutex_run [OF assms(1)])
  have "holds st i g" using assms(3,4) by (simp add: holds_def)
  then have "abandoned (run_begin i x st) g" using inv assms(5,6) by (auto simp: run_begin_def abandoned_def mutex_inv_def)
  then have "abandoned st' g" by (rule abandoned_run [OF assms(7)])
  moreover have "holds st' j g" if "threads st' j = Executing y" "ae_callback_group y = Some g" for j y using that by (simp add: holds_def)
  ultimately show ?thesis by (auto simp: abandoned_def)
qed

section \<open>Exclusion is lost when a scheduled timer is discarded\<close>

text \<open>Runs of the example, with its group free or not, the timers scheduled and the threads.\<close>

definition demo_mt :: "bool \<Rightarrow> bool \<Rightarrow> nat list \<Rightarrow> (nat \<Rightarrow> thread) \<Rightarrow> MultiThreadedExecutor" where
  "demo_mt b sp ts th = \<lparr> base = demo_executor b sp, scheduled_timers = ts, threads = th \<rparr>"

lemma demo_release: "release_group (demo_timer_exec k) (demo_executor c sp) = demo_executor True sp"
  by (simp add: release_group_def demo_timer_exec_def AnyExecutable_init_def AnyExecutable_destroy_def if_set_def store_can_be_taken_from_def act_eval)
    (simp add: demo_executor_def)

lemma demo_take:
  "k < 2 \<Longrightarrow> k \<notin> set ts \<Longrightarrow> run_take (demo_exec_env k) i (demo_mt True True ts th) = Some (demo_mt False True (k # ts) (th(i := Taken (demo_timer_exec k))))"
  "k < 2 \<Longrightarrow> k \<in> set ts \<Longrightarrow> run_take (demo_exec_env k) i (demo_mt True True ts th) = Some (demo_mt True True ts (th(i := Discarding (demo_timer_exec k))))"
proof -
  have e: "context_ok (demo_exec_env k)" "spinning (demo_executor True True)" "ae_timer (demo_timer_exec k) = Some k"
    by (simp_all add: demo_exec_env_def demo_executor_def demo_timer_exec_def AnyExecutable_init_def)
  show "k < 2 \<Longrightarrow> k \<notin> set ts \<Longrightarrow> run_take (demo_exec_env k) i (demo_mt True True ts th) = Some (demo_mt False True (k # ts) (th(i := Taken (demo_timer_exec k))))"
    and "k < 2 \<Longrightarrow> k \<in> set ts \<Longrightarrow> run_take (demo_exec_env k) i (demo_mt True True ts th) = Some (demo_mt True True ts (th(i := Discarding (demo_timer_exec k))))"
    using e by (simp_all add: run_take_def demo_mt_def demo_next demo_release put_thread_def)
qed

lemma demo_begin: "run_begin i x (demo_mt b sp ts th) = demo_mt b sp ts (th(i := if sp then Executing x else Executed x))"
  by (simp add: run_begin_def demo_mt_def put_thread_def demo_executor_def)

lemma demo_end: "run_end (demo_exec_env k) i (demo_timer_exec p) (demo_mt b sp ts th) = Some (demo_mt True sp ts (th(i := Executed (demo_timer_exec p))))"
  by (simp add: run_end_def demo_mt_def execute_entities_def if_set_def demo_timer_exec_def AnyExecutable_init_def execute_timer_def finish_execution_def
      store_can_be_taken_from_def trigger_guard_condition_def demo_exec_env_def seqA_eval act_eval put_thread_def) (simp add: demo_executor_def)

lemma demo_unschedule: "run_unschedule i (demo_timer_exec k) (demo_mt b sp ts th) = demo_mt b sp (filter (\<lambda>q. q \<noteq> k) ts) (th(i := Idle))"
  by (simp add: run_unschedule_def demo_mt_def put_thread_def demo_timer_exec_def AnyExecutable_init_def)

lemma demo_discard: "run_discard i (demo_timer_exec k) (demo_mt b sp ts th) = demo_mt True sp ts (th(i := Idle))"
  by (simp add: run_discard_def demo_mt_def demo_release put_thread_def)

text \<open>Callbacks that return at once leave the state as it is.\<close>

interpretation same_state: step_relation "\<lambda>s s'. s' = s"
  by unfold_locales auto

lemma demo_keeping: "group_keeping (demo_exec_env k)"
proof -
  have "same_state.within (execute_entities (demo_exec_env k) x)" for x
    unfolding execute_entities_def if_set_def execute_timer_def execute_subscription_def execute_intra_process_subscription_def
      execute_service_def execute_client_def taken_def
    by (auto simp: demo_exec_env_def intro!: same_state.within_rules split: option.split)
  then show ?thesis by (simp add: group_keeping_def keeps_groups_def same_state.within_def)
qed

lemma demo_exec_group [simp]: "ae_callback_group (demo_timer_exec k) = Some 0"
  by (simp add: demo_timer_exec_def)

lemma demo_exclusive [simp]: "exclusive (base (demo_mt b sp ts th)) 0" "threads (demo_mt b sp ts th) = th"
  by (simp_all add: exclusive_def demo_mt_def demo_executor_def demo_ros_def)

lemma demo_steps:
  assumes "mt_run d st (demo_mt b True ts th)"
  shows "\<lbrakk> b; k < 2; k \<notin> set ts; th i = Idle \<rbrakk> \<Longrightarrow> mt_run d st (demo_mt False True (k # ts) (th(i := Taken (demo_timer_exec k))))"
    and "\<lbrakk> b; d; k < 2; k \<in> set ts; th i = Idle \<rbrakk> \<Longrightarrow> mt_run d st (demo_mt True True ts (th(i := Discarding (demo_timer_exec k))))"
    and "th i = Taken x \<Longrightarrow> mt_run d st (demo_mt b True ts (th(i := Executing x)))"
    and "th i = Executing (demo_timer_exec k) \<Longrightarrow> mt_run d st (demo_mt True True ts (th(i := Executed (demo_timer_exec k))))"
    and "th i = Executed (demo_timer_exec k) \<Longrightarrow> mt_run d st (demo_mt b True (filter (\<lambda>q. q \<noteq> k) ts) (th(i := Idle)))"
    and "th i = Discarding (demo_timer_exec k) \<Longrightarrow> mt_run d st (demo_mt True True ts (th(i := Idle)))"
    and "mt_run d st (demo_mt b False ts th)"
proof -
  show "\<lbrakk> b; k < 2; k \<notin> set ts; th i = Idle \<rbrakk> \<Longrightarrow> mt_run d st (demo_mt False True (k # ts) (th(i := Taken (demo_timer_exec k))))"
    by (rule mt_run.more [OF assms mt_step.take [of _ i "demo_exec_env k"]]) (simp_all add: demo_take)
  show "\<lbrakk> b; d; k < 2; k \<in> set ts; th i = Idle \<rbrakk> \<Longrightarrow> mt_run d st (demo_mt True True ts (th(i := Discarding (demo_timer_exec k))))"
    by (rule mt_run.more [OF assms mt_step.take [of _ i "demo_exec_env k"]]) (simp_all add: demo_take)
  show "th i = Taken x \<Longrightarrow> mt_run d st (demo_mt b True ts (th(i := Executing x)))"
    using mt_run.more [OF assms mt_step.start [of _ i x]] by (simp add: demo_begin)
  show "th i = Executing (demo_timer_exec k) \<Longrightarrow> mt_run d st (demo_mt True True ts (th(i := Executed (demo_timer_exec k))))"
    by (rule mt_run.more [OF assms mt_step.finish [OF _ demo_keeping demo_end]]) simp
  show "th i = Executed (demo_timer_exec k) \<Longrightarrow> mt_run d st (demo_mt b True (filter (\<lambda>q. q \<noteq> k) ts) (th(i := Idle)))"
    using mt_run.more [OF assms mt_step.unschedule [of _ i "demo_timer_exec k"]] by (simp add: demo_unschedule)
  show "th i = Discarding (demo_timer_exec k) \<Longrightarrow> mt_run d st (demo_mt True True ts (th(i := Idle)))"
    using mt_run.more [OF assms mt_step.discard [of _ i "demo_timer_exec k"]] by (simp add: demo_discard)
  show "mt_run d st (demo_mt b False ts th)"
    using mt_run.more [OF assms mt_step.cancelled] by (simp add: demo_mt_def demo_executor_def)
qed

lemma demo_start: "mt_run d (demo_mt True False [] (\<lambda>_. Finished)) (demo_mt True True [] (\<lambda>i. if i < n then Idle else Finished))"
proof -
  let ?st = "demo_mt True False [] (\<lambda>_. Finished)"
  have "mt_step d ?st (spin_start n ?st)" by (rule mt_step.spin) (simp_all add: demo_mt_def demo_executor_def)
  from mt_run.more [OF mt_run.none this] show ?thesis by (simp add: spin_start_def demo_mt_def demo_executor_def)
qed

text \<open>
  C22. With timers in it, a mutually exclusive group is not exclusive: in the example a thread ends the
  callback of a timer and has not yet removed it from the scheduled ones; a second thread takes the timer again,
  finds it scheduled and goes on with \<open>continue\<close>, which releases the lock before the destructor of the executable
  sets the flag of the group; in between the first thread takes the timer once more and executes it;
  the destructor then marks the group as free, and the second thread executes the other timer.
\<close>

theorem mutual_exclusion_lost:
  "\<exists>st. mt_run True (demo_mt True False [] (\<lambda>_. Finished)) st \<and> exclusive (base st) 0 \<and>
     threads st 0 = Executing (demo_timer_exec 0) \<and> threads st 1 = Executing (demo_timer_exec 1)"
proof -
  let ?e = demo_timer_exec
  note s0 = demo_start [of True 2]
  note s1 = demo_steps(1) [OF s0, of 0 0, simplified]
  note s2 = demo_steps(4) [OF demo_steps(3) [OF s1, of 0 "?e 0", simplified], of 0 0, simplified]
  note s3 = demo_steps(2) [OF s2, of 0 1, simplified]
  note s4 = demo_steps(5) [OF s3, of 0 0, simplified]
  note s5 = demo_steps(1) [OF s4, of 0 0, simplified]
  note s6 = demo_steps(3) [OF s5, of 0 "?e 0", simplified]
  note s7 = demo_steps(6) [OF s6, of 1 0, simplified]
  note s8 = demo_steps(1) [OF s7, of 1 1, simplified]
  note s9 = demo_steps(3) [OF s8, of 1 "?e 1", simplified]
  show ?thesis by (rule exI, rule conjI [OF s9]) simp
qed

lemma mutual_exclusion_witness:
  "\<exists>st. mt_run False (demo_mt True False [] (\<lambda>_. Finished)) st \<and> threads st 0 = Executing (demo_timer_exec 0) \<and>
     (\<forall>j y. threads st j = Executing y \<longrightarrow> ae_callback_group y = Some 0 \<longrightarrow> j = 0)"
proof -
  note s1 = demo_steps(1) [OF demo_start [of False 2], of 0 0, simplified]
  note s2 = demo_steps(3) [OF s1, of 0 "demo_timer_exec 0", simplified]
  show ?thesis
  proof (rule exI, intro conjI allI impI, rule s2)
    fix j y
    let ?st = "demo_mt False True [0] ((\<lambda>i. if i < 2 then Idle else Finished)(0 := Executing (demo_timer_exec 0)))"
    assume "threads ?st j = Executing y" "ae_callback_group y = Some 0"
    from mutual_exclusion [OF s2 _ this(1) _ this(2), of 0 "demo_timer_exec 0"] show "j = 0" by simp
  qed simp
qed

lemma canceled_group_blocked_for_ever_witness:
  "\<exists>st. mt_run False (demo_mt True False [] (\<lambda>_. Finished)) st \<and> threads st 0 = Taken (demo_timer_exec 0) \<and> \<not> spinning (base st) \<and>
     (\<forall>st'. mt_run True (run_begin 0 (demo_timer_exec 0) st) st' \<longrightarrow> \<not> group_free (ros (base st')) 0)"
proof -
  note s1 = demo_steps(1) [OF demo_start [of False 2], of 0 0, simplified]
  note s2 = demo_steps(7) [OF s1]
  let ?st = "demo_mt False False [0] ((\<lambda>i. if i < 2 then Idle else Finished)(0 := Taken (demo_timer_exec 0)))"
  have sp: "\<not> spinning (base ?st)" by (simp add: demo_mt_def demo_executor_def)
  show ?thesis
  proof (rule exI, intro conjI allI impI, rule s2)
    fix st' assume "mt_run True (run_begin 0 (demo_timer_exec 0) ?st) st'"
    from canceled_group_blocked_for_ever [OF s2 _ _ _ _ sp this, of 0] show "\<not> group_free (ros (base st')) 0" by simp
  qed (use sp in simp_all)
qed


end
