(* ===== verification/Clock.thy ===== *)
theory Clock
  imports Timer Effects
begin

text \<open>
  Clocks (\<open>rcl/src/rcl/time.c\<close>) with the override of ROS time and the callbacks for time jumps, and the
  class on top of them (\<open>rclcpp/src/rclcpp/clock.cpp\<close>). The callbacks of the repository are those of the
  timers and of the jump handlers; a clock is modelled with the timers and handlers that are registered
  with it. The system time and the steady time are arguments.
\<close>

section \<open>The C clock\<close>

text \<open>The time is stored as an unsigned integer and read back as the signed one that was written.\<close>

record rcl_ros_clock_storage =
  current_time :: int
  active :: bool

record rcl_jump_threshold =
  on_clock_change :: bool
  min_forward :: int
  min_backward :: int

datatype jump_callback = Timer_time_jump | Clock_on_time_jump

record rcl_jump_callback_info =
  jump_cb :: jump_callback
  threshold :: rcl_jump_threshold
  user_data :: nat

record rcl_time_jump =
  clock_change :: rcl_clock_change
  delta :: int

text \<open>A handler of the C++ class, by which of its two functions are set.\<close>

record JumpHandler =
  has_pre_callback :: bool
  has_post_callback :: bool

text \<open>\<open>ct_type\<close> and whether \<open>get_now\<close> is set, the storage if it is a ROS clock, the callbacks; the objects
  that user data points to, and the calls of functions of handlers.\<close>

record rcl_clock =
  ct_type :: rcl_clock_type
  has_get_now :: bool
  clock_data :: "rcl_ros_clock_storage option"
  jump_callbacks :: "rcl_jump_callback_info list"
  clock_timers :: "nat \<Rightarrow> rcl_timer_impl option"
  jump_handlers :: "nat \<Rightarrow> JumpHandler option"
  handler_calls :: "(nat \<times> rcl_time_jump option) list"

type_synonym 'a clock_act = "(rcl_clock, 'a) act"

text \<open>The readings of the system time and of the steady time.\<close>

record time_env =
  system_now :: clock_reading
  steady_now :: clock_reading

definition rcl_init_generic_clock :: "rcl_clock \<Rightarrow> rcl_clock" where
  "rcl_init_generic_clock c = c\<lparr> ct_type := RCL_CLOCK_UNINITIALIZED, jump_callbacks := [], has_get_now := False, clock_data := None \<rparr>"

definition rcl_get_ros_time :: "time_env \<Rightarrow> rcl_ros_clock_storage \<Rightarrow> clock_reading" where
  "rcl_get_ros_time env t = (if \<not> active t then system_now env else Inr (current_time t))"

definition rcl_clock_valid :: "rcl_clock \<Rightarrow> bool" where
  "rcl_clock_valid c \<longleftrightarrow> ct_type c \<noteq> RCL_CLOCK_UNINITIALIZED \<and> has_get_now c"

definition rcl_ros_clock_init :: "rcl_clock \<Rightarrow> rcl_clock" where
  "rcl_ros_clock_init c = (rcl_init_generic_clock c)\<lparr> clock_data := Some \<lparr> current_time = 0, active = False \<rparr>, has_get_now := True, ct_type := RCL_ROS_TIME \<rparr>"

definition rcl_steady_clock_init :: "rcl_clock \<Rightarrow> rcl_clock" where
  "rcl_steady_clock_init c = (rcl_init_generic_clock c)\<lparr> has_get_now := True, ct_type := RCL_STEADY_TIME \<rparr>"

definition rcl_system_clock_init :: "rcl_clock \<Rightarrow> rcl_clock" where
  "rcl_system_clock_init c = (rcl_init_generic_clock c)\<lparr> has_get_now := True, ct_type := RCL_SYSTEM_TIME \<rparr>"

text \<open>With \<open>alloc_ok\<close> false the storage of a ROS clock is written through a null pointer.\<close>

definition rcl_clock_init :: "bool \<Rightarrow> rcl_clock_type \<Rightarrow> rcl_ret clock_act" where
  "rcl_clock_init alloc_ok t =
     (case t of
        RCL_CLOCK_UNINITIALIZED \<Rightarrow> seqA (modA rcl_init_generic_clock) (retA RCL_RET_OK)
      | RCL_ROS_TIME \<Rightarrow>
          if \<not> alloc_ok then seqA (modA rcl_init_generic_clock) (throwA (Undefined_behaviour ''null clock storage''))
          else seqA (modA rcl_ros_clock_init) (retA RCL_RET_OK)
      | RCL_SYSTEM_TIME \<Rightarrow> seqA (modA rcl_system_clock_init) (retA RCL_RET_OK)
      | RCL_STEADY_TIME \<Rightarrow> seqA (modA rcl_steady_clock_init) (retA RCL_RET_OK))"

definition rcl_clock_generic_fini :: "rcl_clock \<Rightarrow> rcl_clock" where
  "rcl_clock_generic_fini c = c\<lparr> jump_callbacks := [] \<rparr>"

text \<open>The storage is freed, but the pointer to it stays.\<close>

definition rcl_ros_clock_fini :: "rcl_ret clock_act" where
  "rcl_ros_clock_fini =
     bindA (getA (\<lambda>c. (ct_type c, clock_data c))) (\<lambda>(t, d).
     if t \<noteq> RCL_ROS_TIME then retA RCL_RET_ERROR
     else seqA (modA rcl_clock_generic_fini) (retA (if d = None then RCL_RET_ERROR else RCL_RET_OK)))"

definition rcl_plain_clock_fini :: "rcl_clock_type \<Rightarrow> rcl_ret clock_act" where
  "rcl_plain_clock_fini t =
     bindA (getA ct_type) (\<lambda>t'. if t' \<noteq> t then retA RCL_RET_ERROR else seqA (modA rcl_clock_generic_fini) (retA RCL_RET_OK))"

definition rcl_clock_fini :: "rcl_ret clock_act" where
  "rcl_clock_fini =
     bindA (getA ct_type) (\<lambda>t. case t of
       RCL_ROS_TIME \<Rightarrow> rcl_ros_clock_fini
     | RCL_SYSTEM_TIME \<Rightarrow> rcl_plain_clock_fini RCL_SYSTEM_TIME
     | RCL_STEADY_TIME \<Rightarrow> rcl_plain_clock_fini RCL_STEADY_TIME
     | RCL_CLOCK_UNINITIALIZED \<Rightarrow> retA RCL_RET_INVALID_ARGUMENT)"

definition rcl_difference_times :: "time \<Rightarrow> time \<Rightarrow> (rcl_ret + int) res" where
  "rcl_difference_times start finish =
     (if clock_type start \<noteq> clock_type finish then Ok (Inl RCL_RET_ERROR)
      else if time_ns finish < time_ns start then
        bindR (i64_sub (time_ns start) (time_ns finish)) (\<lambda>intermediate. bindR (i64_mul (- 1) intermediate) (\<lambda>d. Ok (Inr d)))
      else bindR (i64_sub (time_ns finish) (time_ns start)) (\<lambda>d. Ok (Inr d)))"

definition rcl_clock_get_now :: "time_env \<Rightarrow> rcl_clock \<Rightarrow> clock_reading res" where
  "rcl_clock_get_now env c =
     (if has_get_now c then
        (case ct_type c of
           RCL_ROS_TIME \<Rightarrow> (case clock_data c of
               None \<Rightarrow> Err (Undefined_behaviour ''null clock storage'') | Some d \<Rightarrow> Ok (rcl_get_ros_time env d))
         | RCL_SYSTEM_TIME \<Rightarrow> Ok (system_now env)
         | RCL_STEADY_TIME \<Rightarrow> Ok (steady_now env)
         | RCL_CLOCK_UNINITIALIZED \<Rightarrow> Ok (Inl RCL_RET_ERROR))
      else Ok (Inl RCL_RET_ERROR))"

section \<open>Time jumps\<close>

text \<open>\<open>Clock::on_time_jump\<close>: the function for before the jump gets no argument. The user data is never
  null; it is dangling when the handler has been destroyed.\<close>

definition on_time_jump :: "rcl_time_jump \<Rightarrow> bool \<Rightarrow> nat \<Rightarrow> unit clock_act" where
  "on_time_jump jump before_jump u =
     bindA (getA (\<lambda>c. jump_handlers c u)) (\<lambda>h. case h of
       None \<Rightarrow> throwA (Undefined_behaviour ''dangling jump handler'')
     | Some handler \<Rightarrow>
         if before_jump \<and> has_pre_callback handler then modA (\<lambda>c. c\<lparr> handler_calls := handler_calls c @ [(u, None)] \<rparr>)
         else if \<not> before_jump \<and> has_post_callback handler then modA (\<lambda>c. c\<lparr> handler_calls := handler_calls c @ [(u, Some jump)] \<rparr>)
         else retA ())"

definition call_jump_callback :: "time_env \<Rightarrow> rcl_time_jump \<Rightarrow> bool \<Rightarrow> rcl_jump_callback_info \<Rightarrow> unit clock_act" where
  "call_jump_callback env jump before_jump info =
     (case jump_cb info of
        Clock_on_time_jump \<Rightarrow> on_time_jump jump before_jump (user_data info)
      | Timer_time_jump \<Rightarrow>
          bindA (getA (\<lambda>c. clock_timers c (user_data info))) (\<lambda>tm. case tm of
            None \<Rightarrow> throwA (Undefined_behaviour ''null timer'')
          | Some t \<Rightarrow>
              bindA (bindA (getA (\<lambda>c. c)) (\<lambda>c. liftA (rcl_clock_get_now env c))) (\<lambda>now.
              bindA (liftA (rcl_timer_time_jump (clock_change jump) before_jump now t)) (\<lambda>t'.
              modA (\<lambda>c. c\<lparr> clock_timers := (clock_timers c)(user_data info := Some t') \<rparr>)))))"

definition notices :: "rcl_time_jump \<Rightarrow> rcl_jump_threshold \<Rightarrow> bool" where
  "notices jump t \<longleftrightarrow> clock_switched (clock_change jump) \<and> on_clock_change t \<or>
     delta jump < 0 \<and> delta jump \<le> min_backward t \<or> delta jump > 0 \<and> delta jump \<ge> min_forward t"

definition rcl_clock_call_callbacks :: "time_env \<Rightarrow> rcl_time_jump \<Rightarrow> bool \<Rightarrow> unit clock_act" where
  "rcl_clock_call_callbacks env jump before_jump =
     bindA (getA jump_callbacks) (\<lambda>infos. forA (\<lambda>info. whenA (notices jump (threshold info)) (call_jump_callback env jump before_jump info)) infos)"

definition set_active :: "bool \<Rightarrow> unit clock_act" where
  "set_active b = modA (\<lambda>c. c\<lparr> clock_data := map_option (\<lambda>d. d\<lparr> active := b \<rparr>) (clock_data c) \<rparr>)"

text \<open>Switching the override on or off, with \<open>b\<close> for the new state.\<close>

definition switch_override :: "time_env \<Rightarrow> bool \<Rightarrow> rcl_ret clock_act" where
  "switch_override env b =
     bindA (getA (\<lambda>c. (ct_type c, clock_data c))) (\<lambda>(t, d).
     if t \<noteq> RCL_ROS_TIME then retA RCL_RET_ERROR
     else case d of
       None \<Rightarrow> retA RCL_RET_ERROR
     | Some storage \<Rightarrow>
         if active storage = b then retA RCL_RET_OK
         else let jump = \<lparr> clock_change = (if b then RCL_ROS_TIME_ACTIVATED else RCL_ROS_TIME_DEACTIVATED), delta = 0 \<rparr> in
           seqA (rcl_clock_call_callbacks env jump True)
           (seqA (set_active b)
           (seqA (rcl_clock_call_callbacks env jump False) (retA RCL_RET_OK))))"

definition rcl_enable_ros_time_override :: "time_env \<Rightarrow> rcl_ret clock_act" where
  "rcl_enable_ros_time_override env = switch_override env True"
definition rcl_disable_ros_time_override :: "time_env \<Rightarrow> rcl_ret clock_act" where
  "rcl_disable_ros_time_override env = switch_override env False"

definition rcl_is_enabled_ros_time_override :: "rcl_clock \<Rightarrow> rcl_ret + bool" where
  "rcl_is_enabled_ros_time_override c =
     (if ct_type c \<noteq> RCL_ROS_TIME then Inl RCL_RET_ERROR
      else case clock_data c of None \<Rightarrow> Inl RCL_RET_ERROR | Some d \<Rightarrow> Inr (active d))"

definition rcl_set_ros_time_override :: "time_env \<Rightarrow> int \<Rightarrow> rcl_ret clock_act" where
  "rcl_set_ros_time_override env time_value =
     bindA (getA (\<lambda>c. (ct_type c, clock_data c))) (\<lambda>(t, d).
     if t \<noteq> RCL_ROS_TIME then retA RCL_RET_ERROR
     else case d of
       None \<Rightarrow> throwA (Undefined_behaviour ''null clock storage'')
     | Some storage \<Rightarrow>
         let store = modA (\<lambda>c. c\<lparr> clock_data := map_option (\<lambda>d. d\<lparr> current_time := time_value \<rparr>) (clock_data c) \<rparr>) in
         if active storage then
           bindA (liftA (i64_sub time_value (current_time storage))) (\<lambda>dt.
           let jump = \<lparr> clock_change = RCL_ROS_TIME_NO_CHANGE, delta = dt \<rparr> in
           seqA (rcl_clock_call_callbacks env jump True)
           (seqA store (seqA (rcl_clock_call_callbacks env jump False) (retA RCL_RET_OK))))
         else seqA store (retA RCL_RET_OK))"

definition same_callback :: "jump_callback \<Rightarrow> nat \<Rightarrow> rcl_jump_callback_info \<Rightarrow> bool" where
  "same_callback cb u info \<longleftrightarrow> jump_cb info = cb \<and> user_data info = u"

definition rcl_clock_add_jump_callback :: "bool \<Rightarrow> rcl_jump_threshold \<Rightarrow> jump_callback \<Rightarrow> nat \<Rightarrow> rcl_ret clock_act" where
  "rcl_clock_add_jump_callback alloc_ok t cb u =
     (if min_forward t < 0 then retA RCL_RET_INVALID_ARGUMENT
      else if min_backward t > 0 then retA RCL_RET_INVALID_ARGUMENT
      else bindA (getA jump_callbacks) (\<lambda>infos.
        if list_ex (same_callback cb u) infos then retA RCL_RET_ERROR
        else if \<not> alloc_ok then retA RCL_RET_BAD_ALLOC
        else seqA (modA (\<lambda>c. c\<lparr> jump_callbacks := infos @ [\<lparr> jump_cb = cb, threshold = t, user_data = u \<rparr>] \<rparr>)) (retA RCL_RET_OK)))"

text \<open>The loop moves the callbacks behind the one that is found forward; the last one stays behind in
  the array, where it remains if the array cannot be made smaller.\<close>

fun move_back :: "jump_callback \<Rightarrow> nat \<Rightarrow> rcl_jump_callback_info list \<Rightarrow> rcl_jump_callback_info list option" where
  "move_back cb u [] = None"
| "move_back cb u (info # infos) =
     (if same_callback cb u info then Some (infos @ [last (info # infos)])
      else map_option ((#) info) (move_back cb u infos))"

definition rcl_clock_remove_jump_callback :: "bool \<Rightarrow> jump_callback \<Rightarrow> nat \<Rightarrow> rcl_ret clock_act" where
  "rcl_clock_remove_jump_callback alloc_ok cb u =
     bindA (getA jump_callbacks) (\<lambda>infos.
     case move_back cb u infos of
       None \<Rightarrow> retA RCL_RET_ERROR
     | Some moved \<Rightarrow>
         if length infos = 1 then seqA (modA (\<lambda>c. c\<lparr> jump_callbacks := [] \<rparr>)) (retA RCL_RET_OK)
         else if \<not> alloc_ok then seqA (modA (\<lambda>c. c\<lparr> jump_callbacks := moved \<rparr>)) (retA RCL_RET_BAD_ALLOC)
         else seqA (modA (\<lambda>c. c\<lparr> jump_callbacks := butlast moved \<rparr>)) (retA RCL_RET_OK))"

section \<open>The C++ class\<close>

definition Clock_init :: "bool \<Rightarrow> rcl_clock_type \<Rightarrow> unit clock_act" where
  "Clock_init alloc_ok t =
     bindA (rcl_clock_init alloc_ok t) (\<lambda>ret. if ret \<noteq> RCL_RET_OK then throwA (throw_from_rcl_error ret ''failed to initialize rcl clock'') else retA ())"

definition Clock_destroy :: "unit clock_act" where
  "Clock_destroy = bindA rcl_clock_fini (\<lambda>_. retA ())"

definition Clock_now :: "time_env \<Rightarrow> rcl_clock \<Rightarrow> time res" where
  "Clock_now env c =
     bindR (Time_of_sec_nsec 0 0 (ct_type c)) (\<lambda>now.
     bindR (rcl_clock_get_now env c) (\<lambda>r. case r of
        Inl ret \<Rightarrow> Err (throw_from_rcl_error ret ''could not get current time stamp'')
      | Inr ns \<Rightarrow> Ok (now\<lparr> time_ns := ns \<rparr>)))"

definition ros_time_is_active :: "rcl_clock \<Rightarrow> bool res" where
  "ros_time_is_active c =
     (if \<not> rcl_clock_valid c then Ok False
      else case rcl_is_enabled_ros_time_override c of
        Inl ret \<Rightarrow> Err (throw_from_rcl_error ret ''Failed to check ros_time_override_status'')
      | Inr b \<Rightarrow> Ok b)"

text \<open>The address \<open>u\<close> of the new handler is a fresh one.\<close>

definition create_jump_callback :: "bool \<Rightarrow> JumpHandler \<Rightarrow> rcl_jump_threshold \<Rightarrow> nat \<Rightarrow> nat clock_act" where
  "create_jump_callback alloc_ok handler t u =
     bindA (rcl_clock_add_jump_callback alloc_ok t Clock_on_time_jump u) (\<lambda>ret.
       if ret \<noteq> RCL_RET_OK then throwA (throw_from_rcl_error ret ''Failed to add time jump callback'')
       else seqA (modA (\<lambda>c. c\<lparr> jump_handlers := (jump_handlers c)(u := Some handler) \<rparr>)) (retA u))"

definition destroy_jump_handler :: "bool \<Rightarrow> nat \<Rightarrow> unit clock_act" where
  "destroy_jump_handler alloc_ok u =
     bindA (rcl_clock_remove_jump_callback alloc_ok Clock_on_time_jump u) (\<lambda>_.
       modA (\<lambda>c. c\<lparr> jump_handlers := (jump_handlers c)(u := None) \<rparr>))"
section \<open>Setting the time\<close>

text \<open>Callbacks that point to something, each pair of function and user data once.\<close>

definition wired :: "rcl_clock \<Rightarrow> bool" where
  "wired c \<longleftrightarrow> distinct (map (\<lambda>i. (jump_cb i, user_data i)) (jump_callbacks c)) \<and>
     (\<forall>i \<in> set (jump_callbacks c). case jump_cb i of
        Timer_time_jump \<Rightarrow> clock_timers c (user_data i) \<noteq> None
      | Clock_on_time_jump \<Rightarrow> jump_handlers c (user_data i) \<noteq> None)"

definition handler_call :: "rcl_clock \<Rightarrow> rcl_time_jump \<Rightarrow> bool \<Rightarrow> rcl_jump_callback_info \<Rightarrow> (nat \<times> rcl_time_jump option) list" where
  "handler_call c jump before_jump i =
     (if jump_cb i = Clock_on_time_jump \<and> notices jump (threshold i) then
        (case jump_handlers c (user_data i) of
           None \<Rightarrow> []
         | Some h \<Rightarrow> if before_jump then (if has_pre_callback h then [(user_data i, None)] else [])
             else (if has_post_callback h then [(user_data i, Some jump)] else []))
      else [])"

definition told :: "rcl_jump_callback_info list \<Rightarrow> rcl_time_jump \<Rightarrow> nat \<Rightarrow> bool" where
  "told is jump u \<longleftrightarrow> list_ex (\<lambda>i. jump_cb i = Timer_time_jump \<and> user_data i = u \<and> notices jump (threshold i)) is"

definition change_timers :: "(rcl_timer_impl \<Rightarrow> rcl_timer_impl) \<Rightarrow> (nat \<Rightarrow> bool) \<Rightarrow> (nat \<Rightarrow> rcl_timer_impl option) \<Rightarrow> nat \<Rightarrow> rcl_timer_impl option" where
  "change_timers f chosen ts u = (if chosen u then map_option f (ts u) else ts u)"

abbreviation call_all :: "time_env \<Rightarrow> rcl_time_jump \<Rightarrow> bool \<Rightarrow> rcl_jump_callback_info list \<Rightarrow> unit clock_act" where
  "call_all env jump before_jump \<equiv> forA (\<lambda>i. whenA (notices jump (threshold i)) (call_jump_callback env jump before_jump i))"

lemma handler_step:
  assumes "jump_cb i = Clock_on_time_jump" "jump_handlers c (user_data i) \<noteq> None"
  shows "whenA (notices jump (threshold i)) (call_jump_callback env jump b i) c =
    (Ok (), c\<lparr> handler_calls := handler_calls c @ handler_call c jump b i \<rparr>)"
  using assms by (auto simp: call_jump_callback_def on_time_jump_def handler_call_def act_eval)

lemma timer_step:
  assumes "jump_cb i = Timer_time_jump" "clock_timers c (user_data i) = Some t" "rcl_clock_get_now env c = Ok now"
    and "notices jump (threshold i) \<Longrightarrow> rcl_timer_time_jump (clock_change jump) b now t = Ok t'"
  shows "whenA (notices jump (threshold i)) (call_jump_callback env jump b i) c =
    (Ok (), c\<lparr> clock_timers := (clock_timers c)(user_data i := Some (if notices jump (threshold i) then t' else t)) \<rparr>)"
  using assms by (auto simp: call_jump_callback_def act_eval bindA_eval fun_upd_idem)

lemma get_now_cong:
  "has_get_now c' = has_get_now c \<Longrightarrow> ct_type c' = ct_type c \<Longrightarrow> clock_data c' = clock_data c \<Longrightarrow> rcl_clock_get_now env c' = rcl_clock_get_now env c"
  unfolding rcl_clock_get_now_def by presburger

lemma handler_call_cong: "jump_handlers c' = jump_handlers c \<Longrightarrow> handler_call c' jump b i = handler_call c jump b i"
  by (simp add: handler_call_def)

text \<open>All callbacks are called: the handlers are told in order, and a timer becomes \<open>f\<close> of itself.\<close>

lemma call_all_effect:
  assumes "rcl_clock_get_now env c = Ok now"
    and "\<And>i. i \<in> set is \<Longrightarrow> jump_cb i = Clock_on_time_jump \<Longrightarrow> jump_handlers c (user_data i) \<noteq> None"
    and "\<And>i. i \<in> set is \<Longrightarrow> jump_cb i = Timer_time_jump \<Longrightarrow> \<exists>t. clock_timers c (user_data i) = Some t \<and>
      (notices jump (threshold i) \<longrightarrow> rcl_timer_time_jump (clock_change jump) b now t = Ok (f t))"
    and "distinct (map (\<lambda>i. (jump_cb i, user_data i)) is)"
  shows "call_all env jump b is c = (Ok (), c\<lparr>
    handler_calls := handler_calls c @ concat (map (handler_call c jump b) is),
    clock_timers := change_timers f (told is jump) (clock_timers c) \<rparr>)"
  using assms
proof (induction "is" arbitrary: c)
  case Nil
  have "change_timers f (told [] jump) ts = ts" for ts by (intro ext) (simp add: change_timers_def told_def)
  then show ?case by (simp add: act_eval)
next
  case (Cons i "is")
  show ?case
  proof (cases "jump_cb i")
    case Clock_on_time_jump
    let ?c = "c\<lparr> handler_calls := handler_calls c @ handler_call c jump b i \<rparr>"
    have "handler_call ?c jump b = handler_call c jump b" by (intro ext handler_call_cong) simp
    moreover have "rcl_clock_get_now env ?c = Ok now" using Cons.prems(1) by (subst get_now_cong [of _ c]) simp_all
    moreover have "whenA (notices jump (threshold i)) (call_jump_callback env jump b i) c = (Ok (), ?c)"
      using handler_step Clock_on_time_jump Cons.prems(2) by simp
    moreover have "told (i # is) jump = told is jump" by (intro ext) (simp add: told_def Clock_on_time_jump)
    ultimately show ?thesis using Cons.IH [of ?c] Cons.prems Clock_on_time_jump by (simp add: seqA_eval)
  next
    case Timer_time_jump
    obtain t where t: "clock_timers c (user_data i) = Some t"
        "notices jump (threshold i) \<Longrightarrow> rcl_timer_time_jump (clock_change jump) b now t = Ok (f t)"
      using Cons.prems(3) Timer_time_jump by auto
    define ts where "ts = (clock_timers c)(user_data i := Some (if notices jump (threshold i) then f t else t))"
    let ?c = "c\<lparr> clock_timers := ts \<rparr>"
    have ne: "user_data j \<noteq> user_data i" if "j \<in> set is" "jump_cb j = Timer_time_jump" for j
      using Cons.prems(4) that Timer_time_jump by (force simp: image_iff)
    then have other: "ts (user_data j) = clock_timers c (user_data j)" if "j \<in> set is" "jump_cb j = Timer_time_jump" for j
      using that by (simp add: ts_def)
    have hc: "handler_call ?c jump b = handler_call c jump b" by (intro ext handler_call_cong) simp
    have none: "handler_call c jump b i = []" by (simp add: handler_call_def Timer_time_jump)
    have "rcl_clock_get_now env ?c = Ok now" using Cons.prems(1) by (subst get_now_cong [of _ c]) simp_all
    then have "call_all env jump b is ?c = (Ok (), ?c\<lparr> handler_calls := handler_calls c @ concat (map (handler_call c jump b) is),
        clock_timers := change_timers f (told is jump) ts \<rparr>)"
      using Cons.IH [of ?c] Cons.prems(2-4) other by (simp add: hc)
    moreover have "change_timers f (told is jump) ts = change_timers f (told (i # is) jump) (clock_timers c)"
    proof
      fix u
      have "\<not> told is jump (user_data i)" using ne by (auto simp: told_def list_ex_iff)
      then show "change_timers f (told is jump) ts u = change_timers f (told (i # is) jump) (clock_timers c) u"
        using t(1) Timer_time_jump by (auto simp: change_timers_def told_def ts_def)
    qed
    moreover have "whenA (notices jump (threshold i)) (call_jump_callback env jump b i) c = (Ok (), ?c)"
      using timer_step [OF Timer_time_jump t(1) Cons.prems(1) t(2)] by (simp add: ts_def)
    ultimately show ?thesis using none by (simp add: seqA_eval)
  qed
qed

definition overridden :: "rcl_clock \<Rightarrow> int \<Rightarrow> bool" where
  "overridden c v \<longleftrightarrow> ct_type c = RCL_ROS_TIME \<and> has_get_now c \<and> clock_data c = Some \<lparr> current_time = v, active = True \<rparr>"

lemma overridden_now: "overridden c v \<Longrightarrow> rcl_clock_get_now env c = Ok (Inr v)"
  by (simp add: overridden_def rcl_clock_get_now_def rcl_get_ros_time_def)

section \<open>What a jump should do\<close>

text \<open>A jump of \<open>d\<close> nanoseconds reaches a threshold; the timers and handlers it concerns; what becomes of a timer at the time \<open>v\<close>.\<close>

definition reaches :: "int \<Rightarrow> rcl_jump_threshold \<Rightarrow> bool" where
  "reaches d thr \<longleftrightarrow> (if 0 < d then min_forward thr \<le> d else d < 0 \<and> d \<le> min_backward thr)"

definition concerned :: "jump_callback \<Rightarrow> int \<Rightarrow> rcl_clock \<Rightarrow> nat list" where
  "concerned cb d c = map user_data (filter (\<lambda>i. jump_cb i = cb \<and> reaches d (threshold i)) (jump_callbacks c))"

definition timer_after_jump :: "int \<Rightarrow> rcl_timer_impl \<Rightarrow> rcl_timer_impl" where
  "timer_after_jump v t =
     (if next_call_time t \<le> v then t\<lparr> guard_triggers := guard_triggers t + 1 \<rparr>
      else if v < last_call_time t then t\<lparr> last_call_time := v, next_call_time := v + period t \<rparr>
      else t)"

lemma notices_reaches: "clock_change jump = RCL_ROS_TIME_NO_CHANGE \<Longrightarrow> notices jump thr = reaches (delta jump) thr"
  by (auto simp: notices_def reaches_def clock_switched_def)

lemma told_concerned: "clock_change jump = RCL_ROS_TIME_NO_CHANGE \<Longrightarrow> told (jump_callbacks c) jump u \<longleftrightarrow> u \<in> set (concerned Timer_time_jump (delta jump) c)"
  by (auto simp: told_def concerned_def notices_reaches list_ex_iff)

lemma concat_handler_calls:
  assumes "clock_change jump = RCL_ROS_TIME_NO_CHANGE" "\<And>i. i \<in> set is \<Longrightarrow> jump_cb i = Clock_on_time_jump \<Longrightarrow> jump_handlers c (user_data i) \<noteq> None"
  shows "concat (map (handler_call c jump b) is) =
    map (\<lambda>u. (u, if b then None else Some jump))
      (filter (\<lambda>u. \<exists>h. jump_handlers c u = Some h \<and> (if b then has_pre_callback h else has_post_callback h))
        (map user_data (filter (\<lambda>i. jump_cb i = Clock_on_time_jump \<and> reaches (delta jump) (threshold i)) is)))"
  using assms(2)
proof (induction "is")
  case (Cons i "is")
  then show ?case using assms(1) by (cases "jump_cb i"; cases "jump_handlers c (user_data i)") (auto simp: handler_call_def notices_reaches)
qed simp

lemma timer_after_jump_code:
  assumes "v < last_call_time t \<Longrightarrow> in_i64 (v + period t)"
  shows "rcl_timer_time_jump RCL_ROS_TIME_NO_CHANGE False (Inr v) t = Ok (timer_after_jump v t)"
  using assms by (auto simp: rcl_timer_time_jump_def clock_switched_def timer_after_jump_def i64_add_def)

text \<open>
  C30. Setting the time of a ROS clock whose override is active, from \<open>cur\<close> to any \<open>v\<close> (registered timers and handlers being alive,
  without overflow): the clock shows \<open>v\<close>. Of the registered timers whose threshold the jump \<open>v - cur\<close>
  reaches, the ones whose next call is not after \<open>v\<close> have their guard condition triggered, the ones last called after \<open>v\<close> wait one period
  from \<open>v\<close> on, and no other timer changes. The handlers whose threshold the jump reaches are called in the order of
  registration, all functions for before the jump before all functions for after it.
\<close>

theorem simulated_time_wakes_timers:
  assumes "overridden c cur" "wired c" "in_i64 (v - cur)"
    and "\<forall>u t. clock_timers c u = Some t \<and> v < last_call_time t \<longrightarrow> in_i64 (v + period t)"
  shows "\<exists>c'. rcl_set_ros_time_override env v c = (Ok RCL_RET_OK, c') \<and> rcl_clock_get_now env c' = Ok (Inr v) \<and> wired c' \<and>
    (\<forall>u. clock_timers c' u = (if u \<in> set (concerned Timer_time_jump (v - cur) c) then map_option (timer_after_jump v) (clock_timers c u) else clock_timers c u)) \<and>
    handler_calls c' = handler_calls c @
      map (\<lambda>u. (u, None)) (filter (\<lambda>u. \<exists>h. jump_handlers c u = Some h \<and> has_pre_callback h) (concerned Clock_on_time_jump (v - cur) c)) @
      map (\<lambda>u. (u, Some \<lparr> clock_change = RCL_ROS_TIME_NO_CHANGE, delta = v - cur \<rparr>))
        (filter (\<lambda>u. \<exists>h. jump_handlers c u = Some h \<and> has_post_callback h) (concerned Clock_on_time_jump (v - cur) c))"
proof -
  define jump where "jump = \<lparr> clock_change = RCL_ROS_TIME_NO_CHANGE, delta = v - cur \<rparr>"
  let ?f = "timer_after_jump v"
  let ?is = "jump_callbacks c"
  have c: "ct_type c = RCL_ROS_TIME" "clock_data c = Some \<lparr> current_time = cur, active = True \<rparr>" "has_get_now c" using assms(1) by (simp_all add: overridden_def)
  have d: "distinct (map (\<lambda>i. (jump_cb i, user_data i)) ?is)" and
    h: "\<And>i. i \<in> set ?is \<Longrightarrow> jump_cb i = Clock_on_time_jump \<Longrightarrow> jump_handlers c (user_data i) \<noteq> None" and
    t: "\<And>i. i \<in> set ?is \<Longrightarrow> jump_cb i = Timer_time_jump \<Longrightarrow> \<exists>t. clock_timers c (user_data i) = Some t"
    using assms(2) by (auto simp: wired_def split: jump_callback.splits)
  have change: "clock_change jump = RCL_ROS_TIME_NO_CHANGE" "delta jump = v - cur" by (simp_all add: jump_def)
  define c1 where "c1 = c\<lparr> handler_calls := handler_calls c @ concat (map (handler_call c jump True) ?is) \<rparr>"
  have idt: "change_timers (\<lambda>t. t) P ts = ts" for P ts by (intro ext) (simp add: change_timers_def option.map_ident)
  have before: "call_all env jump True ?is c = (Ok (), c1)"
    using call_all_effect [OF overridden_now [OF assms(1)] h _ d, of jump True "\<lambda>t. t"] t change
    by (simp add: rcl_timer_time_jump_def clock_switched_def idt c1_def)
  define c2 where "c2 = c1\<lparr> clock_data := Some \<lparr> current_time = v, active = True \<rparr> \<rparr>"
  have c2: "overridden c2 v" "jump_callbacks c2 = ?is" "jump_handlers c2 = jump_handlers c" "clock_timers c2 = clock_timers c"
    using c by (simp_all add: overridden_def c2_def c1_def)
  have hc: "handler_call c2 jump b = handler_call c jump b" for b by (intro ext handler_call_cong) (simp add: c2)
  have late: "rcl_timer_time_jump RCL_ROS_TIME_NO_CHANGE False (Inr v) t = Ok (?f t)" if "clock_timers c u = Some t" for u t
    using assms(4) that by (intro timer_after_jump_code) blast
  define c3 where "c3 = c2\<lparr> handler_calls := handler_calls c2 @ concat (map (handler_call c jump False) ?is),
      clock_timers := change_timers ?f (told ?is jump) (clock_timers c) \<rparr>"
  have after: "call_all env jump False ?is c2 = (Ok (), c3)"
    using call_all_effect [OF overridden_now [OF c2(1)] _ _ d, of jump False ?f] h t late change
    by (force simp: c2 hc c3_def)
  have run: "rcl_set_ros_time_override env v c = (Ok RCL_RET_OK, c3)"
    using c before after assms(3) unfolding jump_def
    by (simp add: rcl_set_ros_time_override_def rcl_clock_call_callbacks_def i64_sub_def i64_result_def Let_def seqA_eval act_eval c1_def c2_def)
  have "overridden c3 v" and w: "wired c3" using c2(1) assms(2)
    by (auto simp: c3_def overridden_def c2_def c1_def wired_def change_timers_def split: jump_callback.splits)
  then have now: "rcl_clock_get_now env c3 = Ok (Inr v)" by (simp add: overridden_now)
  have timers: "clock_timers c3 u = (if u \<in> set (concerned Timer_time_jump (v - cur) c) then map_option ?f (clock_timers c u) else clock_timers c u)" for u
    using told_concerned [OF change(1), of c u] by (simp add: c3_def change_timers_def change(2))
  have handlers: "handler_calls c3 = handler_calls c @ concat (map (handler_call c jump True) ?is) @ concat (map (handler_call c jump False) ?is)"
    by (simp add: c3_def c2_def c1_def)
  show ?thesis
    using run w now timers handlers concat_handler_calls [OF change(1) h, where b = True] concat_handler_calls [OF change(1) h, where b = False]
    by (intro exI [of _ c3]) (simp add: concerned_def change(2) jump_def)
qed

text \<open>While the override is not active, the time is only stored: the clock goes on to show the system time and nobody is told.\<close>

lemma inactive_override_stores:
  assumes "ct_type c = RCL_ROS_TIME" "clock_data c = Some \<lparr> current_time = cur, active = False \<rparr>"
  shows "rcl_set_ros_time_override env v c = (Ok RCL_RET_OK, c\<lparr> clock_data := Some \<lparr> current_time = v, active = False \<rparr> \<rparr>)"
  using assms by (simp add: rcl_set_ros_time_override_def Let_def seqA_eval act_eval)

section \<open>Registration\<close>

lemma move_back_absent: "move_back cb u infos = None \<longleftrightarrow> \<not> list_ex (same_callback cb u) infos"
  by (induction infos) auto

lemma move_back_last:
  "\<not> list_ex (same_callback cb u) infos \<Longrightarrow> same_callback cb u i \<Longrightarrow> move_back cb u (infos @ [i]) = Some (infos @ [i])"
  by (induction infos) auto

lemma move_back_butlast:
  "move_back cb u infos = Some moved \<Longrightarrow> (\<exists>xs i ys. infos = xs @ i # ys \<and> same_callback cb u i \<and> \<not> list_ex (same_callback cb u) xs \<and> butlast moved = xs @ ys)"
proof (induction infos arbitrary: moved)
  case (Cons j infos)
  show ?case
  proof (cases "same_callback cb u j")
    case True
    then show ?thesis using Cons.prems by (intro exI [of _ "[]"] exI [of _ j] exI [of _ infos]) auto
  next
    case False
    then obtain m where m: "move_back cb u infos = Some m" "moved = j # m" using Cons.prems by auto
    then obtain xs i ys where x: "infos = xs @ i # ys" "same_callback cb u i" "\<not> list_ex (same_callback cb u) xs" "butlast m = xs @ ys" using Cons.IH by blast
    have "m \<noteq> []" using m(1) by (cases infos) (auto split: if_splits)
    then show ?thesis using x m(2) False by (intro exI [of _ "j # xs"] exI [of _ i] exI [of _ ys]) auto
  qed
qed simp

text \<open>Removing a callback takes out exactly the one that was added under this pair, and a handler that was
  created and destroyed leaves the clock as it was.\<close>

lemma remove_jump_callback_removes:
  assumes "distinct (map (\<lambda>i. (jump_cb i, user_data i)) (jump_callbacks c))" "list_ex (same_callback cb u) (jump_callbacks c)"
  shows "rcl_clock_remove_jump_callback True cb u c = (Ok RCL_RET_OK, c\<lparr> jump_callbacks := filter (\<lambda>i. \<not> same_callback cb u i) (jump_callbacks c) \<rparr>)"
proof -
  obtain moved where m: "move_back cb u (jump_callbacks c) = Some moved" using assms(2) move_back_absent [of cb u "jump_callbacks c"] by auto
  then obtain xs i ys where x: "jump_callbacks c = xs @ i # ys" "same_callback cb u i" "\<not> list_ex (same_callback cb u) xs" "butlast moved = xs @ ys"
    using move_back_butlast by blast
  have "\<forall>j \<in> set ys. (jump_cb j, user_data j) \<noteq> (jump_cb i, user_data i)" using assms(1) by (auto simp: x(1) image_iff)
  then have "\<not> list_ex (same_callback cb u) ys" using x(2) by (auto simp: list_ex_iff same_callback_def)
  then have f: "filter (\<lambda>i. \<not> same_callback cb u i) (jump_callbacks c) = xs @ ys" using x(2,3) unfolding x(1) by (simp add: filter_id_conv list_ex_iff)
  show ?thesis
  proof (cases "length (jump_callbacks c) = 1")
    case True
    then have "xs @ ys = []" using x(1) by auto
    then show ?thesis using True m f by (simp add: rcl_clock_remove_jump_callback_def seqA_eval act_eval)
  next
    case False
    then show ?thesis using m f x(4) by (simp add: rcl_clock_remove_jump_callback_def seqA_eval act_eval)
  qed
qed

lemma jump_handler_roundtrip:
  assumes "wired c" "\<not> list_ex (same_callback Clock_on_time_jump u) (jump_callbacks c)" "jump_handlers c u = None" "0 \<le> min_forward t" "min_backward t \<le> 0"
  shows "seqA (create_jump_callback True h t u) (destroy_jump_handler True u) c = (Ok (), c)"
proof -
  let ?i = "\<lparr> jump_cb = Clock_on_time_jump, threshold = t, user_data = u \<rparr>"
  let ?c = "c\<lparr> jump_callbacks := jump_callbacks c @ [?i], jump_handlers := (jump_handlers c)(u := Some h) \<rparr>"
  have create: "create_jump_callback True h t u c = (Ok u, ?c)"
    using assms(2,4,5) by (simp add: create_jump_callback_def rcl_clock_add_jump_callback_def bindA_eval act_eval)
  have s: "same_callback Clock_on_time_jump u ?i" by (simp add: same_callback_def)
  have d: "distinct (map (\<lambda>i. (jump_cb i, user_data i)) (jump_callbacks ?c))"
    using assms(1,2) by (auto simp: wired_def list_ex_iff same_callback_def)
  have "filter (\<lambda>i. \<not> same_callback Clock_on_time_jump u i) (jump_callbacks ?c) = jump_callbacks c"
    using assms(2) s by (simp add: filter_id_conv list_ex_iff)
  then have "rcl_clock_remove_jump_callback True Clock_on_time_jump u ?c = (Ok RCL_RET_OK, ?c\<lparr> jump_callbacks := jump_callbacks c \<rparr>)"
    using remove_jump_callback_removes [OF d, of Clock_on_time_jump u] s by simp
  moreover have "(jump_handlers c)(u := None) = jump_handlers c" using assms(3) by (simp add: fun_upd_idem)
  ultimately show ?thesis using create by (simp add: seqA_eval destroy_jump_handler_def bindA_eval act_eval)
qed

text \<open>When the array cannot be made smaller, the callback that was registered last stays: the next
  jump calls a handler that has been destroyed.\<close>

lemma failed_shrink_leaves_dangling_handler:
  assumes "jump_callbacks c = infos @ [i]" "infos \<noteq> []" "\<not> list_ex (same_callback Clock_on_time_jump u) infos" "same_callback Clock_on_time_jump u i"
  shows "\<exists>c'. destroy_jump_handler False u c = (Ok (), c') \<and> i \<in> set (jump_callbacks c') \<and> jump_handlers c' u = None \<and> \<not> wired c'"
proof -
  have "move_back Clock_on_time_jump u (jump_callbacks c) = Some (jump_callbacks c)" using assms move_back_last by simp
  moreover have "length (jump_callbacks c) \<noteq> 1" using assms(1,2) by simp
  moreover have "jump_cb i = Clock_on_time_jump" "user_data i = u" using assms(4) by (simp_all add: same_callback_def)
  ultimately show ?thesis using assms(1)
    by (force simp: destroy_jump_handler_def rcl_clock_remove_jump_callback_def bindA_eval seqA_eval act_eval wired_def)
qed

text \<open>An example: a timer that is due at 10 and a handler, at the time 3.\<close>

definition demo_ros_clock :: rcl_clock where
  "demo_ros_clock = \<lparr> ct_type = RCL_ROS_TIME, has_get_now = True, clock_data = Some \<lparr> current_time = 3, active = True \<rparr>,
     jump_callbacks = [\<lparr> jump_cb = Timer_time_jump, threshold = \<lparr> on_clock_change = True, min_forward = 1, min_backward = - 1 \<rparr>, user_data = 0 \<rparr>,
       \<lparr> jump_cb = Clock_on_time_jump, threshold = \<lparr> on_clock_change = True, min_forward = 5, min_backward = 0 \<rparr>, user_data = 1 \<rparr>],
     clock_timers = (\<lambda>u. if u = 0 then Some (demo_timer\<lparr> last_call_time := 0, next_call_time := 10, guard_triggers := 0 \<rparr>) else None),
     jump_handlers = (\<lambda>u. if u = 1 then Some \<lparr> has_pre_callback = True, has_post_callback = False \<rparr> else None), handler_calls = [] \<rparr>"

lemma simulated_time_wakes_timers_witness:
  "\<exists>c'. rcl_set_ros_time_override \<lparr> system_now = Inr 0, steady_now = Inr 0 \<rparr> 12 demo_ros_clock = (Ok RCL_RET_OK, c') \<and> map_option guard_triggers (clock_timers c' 0) = Some 1 \<and>
     handler_calls c' = [(1, None)]"
proof -
  have w: "overridden demo_ros_clock 3" "wired demo_ros_clock" by (auto simp: overridden_def wired_def demo_ros_clock_def)
  have "\<forall>u t. clock_timers demo_ros_clock u = Some t \<and> 12 < last_call_time t \<longrightarrow> in_i64 (12 + period t)"
    by (auto simp: demo_ros_clock_def split: if_splits)
  from simulated_time_wakes_timers [OF w _ this, of "\<lparr> system_now = Inr 0, steady_now = Inr 0 \<rparr>"] obtain c' where
    c': "rcl_set_ros_time_override \<lparr> system_now = Inr 0, steady_now = Inr 0 \<rparr> 12 demo_ros_clock = (Ok RCL_RET_OK, c')"
      "clock_timers c' 0 = (if 0 \<in> set (concerned Timer_time_jump 9 demo_ros_clock) then map_option (timer_after_jump 12) (clock_timers demo_ros_clock 0) else clock_timers demo_ros_clock 0)"
      "handler_calls c' = handler_calls demo_ros_clock @
        map (\<lambda>u. (u, None)) (filter (\<lambda>u. \<exists>h. jump_handlers demo_ros_clock u = Some h \<and> has_pre_callback h) (concerned Clock_on_time_jump 9 demo_ros_clock)) @
        map (\<lambda>u. (u, Some \<lparr> clock_change = RCL_ROS_TIME_NO_CHANGE, delta = 9 \<rparr>))
          (filter (\<lambda>u. \<exists>h. jump_handlers demo_ros_clock u = Some h \<and> has_post_callback h) (concerned Clock_on_time_jump 9 demo_ros_clock))"
    by (auto simp: in_i64_def)
  have "concerned Timer_time_jump 9 demo_ros_clock = [0]" "concerned Clock_on_time_jump 9 demo_ros_clock = [1]"
    by (simp_all add: concerned_def reaches_def demo_ros_clock_def)
  then show ?thesis using c' by (simp add: timer_after_jump_def demo_ros_clock_def)
qed

end
