(* ===== verification/Parameters.thy ===== *)
theory Parameters
  imports Measuring_Base
begin

text \<open>
  Parameter values and their conversions (\<open>rclcpp/src/rclcpp/parameter_value.cpp\<close>,
  \<open>parameter_value.hpp\<close>, \<open>parameter.cpp\<close>, \<open>parameter_map.cpp\<close>). A value is the message
  \<open>rcl_interfaces::msg::ParameterValue\<close>: a type tag and one field per type. Floating-point numbers
  are values of a type parameter.
\<close>

section \<open>Values\<close>

text \<open>The type tag of a message is a number; \<open>Unknown_type\<close> stands for those without a name.\<close>

datatype ParameterType =
    PARAMETER_NOT_SET
  | PARAMETER_BOOL
  | PARAMETER_INTEGER
  | PARAMETER_DOUBLE
  | PARAMETER_STRING
  | PARAMETER_BYTE_ARRAY
  | PARAMETER_BOOL_ARRAY
  | PARAMETER_INTEGER_ARRAY
  | PARAMETER_DOUBLE_ARRAY
  | PARAMETER_STRING_ARRAY
  | Unknown_type nat

record 'd ParameterValue =
  v_type :: ParameterType
  bool_value :: bool
  integer_value :: int
  double_value :: 'd
  string_value :: string
  byte_array_value :: "u8 list"
  bool_array_value :: "bool list"
  integer_array_value :: "int list"
  double_array_value :: "'d list"
  string_array_value :: "string list"

text \<open>The default-constructed message; \<open>zero\<close> is the floating-point zero.\<close>

definition empty_value :: "'d \<Rightarrow> 'd ParameterValue" where
  "empty_value zero = \<lparr> v_type = PARAMETER_NOT_SET, bool_value = False, integer_value = 0, double_value = zero,
     string_value = [], byte_array_value = [], bool_array_value = [], integer_array_value = [],
     double_array_value = [], string_array_value = [] \<rparr>"

definition type_to_string :: "ParameterType \<Rightarrow> string" where
  "type_to_string t =
     (case t of
        PARAMETER_NOT_SET \<Rightarrow> ''not set''
      | PARAMETER_BOOL \<Rightarrow> ''bool''
      | PARAMETER_INTEGER \<Rightarrow> ''integer''
      | PARAMETER_DOUBLE \<Rightarrow> ''double''
      | PARAMETER_STRING \<Rightarrow> ''string''
      | PARAMETER_BYTE_ARRAY \<Rightarrow> ''byte_array''
      | PARAMETER_BOOL_ARRAY \<Rightarrow> ''bool_array''
      | PARAMETER_INTEGER_ARRAY \<Rightarrow> ''integer_array''
      | PARAMETER_DOUBLE_ARRAY \<Rightarrow> ''double_array''
      | PARAMETER_STRING_ARRAY \<Rightarrow> ''string_array''
      | Unknown_type _ \<Rightarrow> ''unknown type'')"

text \<open>Construction from a message, which may come from another process.\<close>

definition value_from_msg :: "'d ParameterValue \<Rightarrow> 'd ParameterValue res" where
  "value_from_msg v =
     (case v_type v of
        Unknown_type n \<Rightarrow> Err (Runtime_error (''Unknown type: '' @ show_nat n))
      | _ \<Rightarrow> Ok v)"

definition value_of_bool :: "'d \<Rightarrow> bool \<Rightarrow> 'd ParameterValue" where
  "value_of_bool z b = (empty_value z)\<lparr> bool_value := b, v_type := PARAMETER_BOOL \<rparr>"
definition value_of_int :: "'d \<Rightarrow> int \<Rightarrow> 'd ParameterValue" where
  "value_of_int z i = (empty_value z)\<lparr> integer_value := i, v_type := PARAMETER_INTEGER \<rparr>"
definition value_of_double :: "'d \<Rightarrow> 'd \<Rightarrow> 'd ParameterValue" where
  "value_of_double z d = (empty_value z)\<lparr> double_value := d, v_type := PARAMETER_DOUBLE \<rparr>"
definition value_of_string :: "'d \<Rightarrow> string \<Rightarrow> 'd ParameterValue" where
  "value_of_string z s = (empty_value z)\<lparr> string_value := s, v_type := PARAMETER_STRING \<rparr>"
definition value_of_bytes :: "'d \<Rightarrow> u8 list \<Rightarrow> 'd ParameterValue" where
  "value_of_bytes z bs = (empty_value z)\<lparr> byte_array_value := bs, v_type := PARAMETER_BYTE_ARRAY \<rparr>"
definition value_of_bools :: "'d \<Rightarrow> bool list \<Rightarrow> 'd ParameterValue" where
  "value_of_bools z bs = (empty_value z)\<lparr> bool_array_value := bs, v_type := PARAMETER_BOOL_ARRAY \<rparr>"
definition value_of_ints :: "'d \<Rightarrow> int list \<Rightarrow> 'd ParameterValue" where
  "value_of_ints z is = (empty_value z)\<lparr> integer_array_value := is, v_type := PARAMETER_INTEGER_ARRAY \<rparr>"
definition value_of_doubles :: "'d \<Rightarrow> 'd list \<Rightarrow> 'd ParameterValue" where
  "value_of_doubles z ds = (empty_value z)\<lparr> double_array_value := ds, v_type := PARAMETER_DOUBLE_ARRAY \<rparr>"
definition value_of_strings :: "'d \<Rightarrow> string list \<Rightarrow> 'd ParameterValue" where
  "value_of_strings z ss = (empty_value z)\<lparr> string_array_value := ss, v_type := PARAMETER_STRING_ARRAY \<rparr>"

section \<open>Access\<close>

text \<open>\<open>get<type>()\<close>: the field of the type, or an exception when the tag is another one.\<close>

definition get_as :: "ParameterType \<Rightarrow> ('d ParameterValue \<Rightarrow> 'b) \<Rightarrow> 'd ParameterValue \<Rightarrow> 'b res" where
  "get_as t field v =
     (if v_type v \<noteq> t
      then Err (ParameterTypeException (''expected ['' @ type_to_string t @ ''] got ['' @ type_to_string (v_type v) @ '']''))
      else Ok (field v))"

definition as_bool :: "'d ParameterValue \<Rightarrow> bool res" where
  "as_bool = get_as PARAMETER_BOOL bool_value"
definition as_int :: "'d ParameterValue \<Rightarrow> int res" where
  "as_int = get_as PARAMETER_INTEGER integer_value"
definition as_double :: "'d ParameterValue \<Rightarrow> 'd res" where
  "as_double = get_as PARAMETER_DOUBLE double_value"
definition as_string :: "'d ParameterValue \<Rightarrow> string res" where
  "as_string = get_as PARAMETER_STRING string_value"
definition as_byte_array :: "'d ParameterValue \<Rightarrow> u8 list res" where
  "as_byte_array = get_as PARAMETER_BYTE_ARRAY byte_array_value"
definition as_bool_array :: "'d ParameterValue \<Rightarrow> bool list res" where
  "as_bool_array = get_as PARAMETER_BOOL_ARRAY bool_array_value"
definition as_integer_array :: "'d ParameterValue \<Rightarrow> int list res" where
  "as_integer_array = get_as PARAMETER_INTEGER_ARRAY integer_array_value"
definition as_double_array :: "'d ParameterValue \<Rightarrow> 'd list res" where
  "as_double_array = get_as PARAMETER_DOUBLE_ARRAY double_array_value"
definition as_string_array :: "'d ParameterValue \<Rightarrow> string list res" where
  "as_string_array = get_as PARAMETER_STRING_ARRAY string_array_value"

section \<open>Parameters\<close>

record 'd Parameter =
  p_name :: string
  p_value :: "'d ParameterValue"

definition Parameter_from_msg :: "string \<Rightarrow> 'd ParameterValue \<Rightarrow> 'd Parameter res" where
  "Parameter_from_msg name v = bindR (value_from_msg v) (\<lambda>w. Ok \<lparr> p_name = name, p_value = w \<rparr>)"

definition get_type :: "'d Parameter \<Rightarrow> ParameterType" where
  "get_type p = v_type (p_value p)"

section \<open>Values of parameter files\<close>

text \<open>The variant of the YAML parser: one pointer per type, of which one is set.\<close>

record 'd rcl_variant_t =
  c_bool :: "bool option"
  c_integer :: "int option"
  c_double :: "'d option"
  c_string :: "string option"
  c_bytes :: "u8 list option"
  c_bools :: "bool list option"
  c_integers :: "int list option"
  c_doubles :: "'d list option"
  c_strings :: "string list option"

definition parameter_value_from :: "'d \<Rightarrow> 'd rcl_variant_t option \<Rightarrow> 'd ParameterValue res" where
  "parameter_value_from z p =
     (case p of
        None \<Rightarrow> Err (InvalidParameterValueException ''Passed argument is NULL'')
      | Some v \<Rightarrow>
          (case c_bool v of Some b \<Rightarrow> Ok (value_of_bool z b) | None \<Rightarrow>
          (case c_integer v of Some i \<Rightarrow> Ok (value_of_int z i) | None \<Rightarrow>
          (case c_double v of Some d \<Rightarrow> Ok (value_of_double z d) | None \<Rightarrow>
          (case c_string v of Some s \<Rightarrow> Ok (value_of_string z s) | None \<Rightarrow>
          (case c_bytes v of Some bs \<Rightarrow> Ok (value_of_bytes z bs) | None \<Rightarrow>
          (case c_bools v of Some bs \<Rightarrow> Ok (value_of_bools z bs) | None \<Rightarrow>
          (case c_integers v of Some is \<Rightarrow> Ok (value_of_ints z is) | None \<Rightarrow>
          (case c_doubles v of Some ds \<Rightarrow> Ok (value_of_doubles z ds) | None \<Rightarrow>
          (case c_strings v of Some ss \<Rightarrow> Ok (value_of_strings z ss) | None \<Rightarrow>
             Err (InvalidParameterValueException ''No parameter value set'')))))))))))"

text \<open>
  \<open>rcl_params_t\<close>: the arrays of the nodes' names and of their parameters, of which the first
  \<open>num_nodes\<close> entries are listed; an array or a name that is a null pointer is \<open>None\<close>.
\<close>

type_synonym 'd rcl_node_params_t = "(string option \<times> 'd rcl_variant_t) list"

record 'd rcl_params_t =
  node_names :: "string option list option"
  node_params :: "'d rcl_node_params_t list option"

definition absolute_node_name :: "string \<Rightarrow> string" where
  "absolute_node_name name = (if name = [] \<or> hd name \<noteq> CHR ''/'' then CHR ''/'' # name else name)"

text \<open>The loops over the parameters of the node with number \<open>n\<close> and over the nodes.\<close>

fun node_parameters_from :: "'d \<Rightarrow> nat \<Rightarrow> nat \<Rightarrow> 'd rcl_node_params_t \<Rightarrow> 'd Parameter list res" where
  "node_parameters_from z n p [] = Ok []"
| "node_parameters_from z n p ((name, v) # ps) =
     (case name of
        None \<Rightarrow> Err (InvalidParametersException (''At node '' @ show_nat n @ '' parameter '' @ show_nat p @ '' name is NULL''))
      | Some s \<Rightarrow> bindR (parameter_value_from z (Some v)) (\<lambda>w.
          bindR (node_parameters_from z n (Suc p) ps) (\<lambda>rest. Ok (\<lparr> p_name = s, p_value = w \<rparr> # rest))))"

text \<open>Nodes with the same absolute name share an entry of the map, which keeps the order of the file.\<close>

fun add_parameters :: "string \<Rightarrow> 'd Parameter list \<Rightarrow> (string \<times> 'd Parameter list) list \<Rightarrow> (string \<times> 'd Parameter list) list" where
  "add_parameters n ps [] = [(n, ps)]"
| "add_parameters n ps ((m, qs) # rest) = (if n = m then (m, qs @ ps) # rest else (m, qs) # add_parameters n ps rest)"

fun parameter_map_loop ::
  "'d \<Rightarrow> nat \<Rightarrow> (string option \<times> 'd rcl_node_params_t) list \<Rightarrow> (string \<times> 'd Parameter list) list \<Rightarrow> (string \<times> 'd Parameter list) list res" where
  "parameter_map_loop z n [] acc = Ok acc"
| "parameter_map_loop z n ((name, ps) # nodes) acc =
     (case name of
        None \<Rightarrow> Err (InvalidParametersException (''Node name at index '' @ show_nat n @ '' is NULL''))
      | Some s \<Rightarrow> bindR (node_parameters_from z n 0 ps) (\<lambda>qs.
          parameter_map_loop z (Suc n) nodes (add_parameters (absolute_node_name s) qs acc)))"

definition parameter_map_from :: "'d \<Rightarrow> 'd rcl_params_t option \<Rightarrow> (string \<times> 'd Parameter list) list res" where
  "parameter_map_from z c_params =
     (case c_params of
        None \<Rightarrow> Err (InvalidParametersException ''parameters struct is NULL'')
      | Some c \<Rightarrow>
          (case node_names c of
             None \<Rightarrow> Err (InvalidParametersException ''node names array is NULL'')
           | Some names \<Rightarrow>
               (case node_params c of
                  None \<Rightarrow> Err (InvalidParametersException ''node params array is NULL'')
                | Some pss \<Rightarrow> parameter_map_loop z 0 (zip names pss) [])))"

section \<open>Printing\<close>

text \<open>How the library prints floating-point numbers, with \<open>std::to_string\<close> and on a stream, is given.\<close>

record 'd double_text =
  fixed_text :: "'d \<Rightarrow> string"
  stream_text :: "'d \<Rightarrow> string"

fun hex_digits :: "nat \<Rightarrow> string" where
  "hex_digits n = (if n < 16 then [''0123456789abcdef'' ! n] else hex_digits (n div 16) @ [''0123456789abcdef'' ! (n mod 16)])"

declare hex_digits.simps [simp del]

text \<open>A byte in base 16 with \<open>showbase\<close>, which has no prefix for zero.\<close>

definition byte_text :: "u8 \<Rightarrow> string" where
  "byte_text b = (if b = 0 then ''0'' else ''0x'' @ hex_digits (unat b))"

definition bool_text :: "bool \<Rightarrow> string" where
  "bool_text b = (if b then ''true'' else ''false'')"

fun separated :: "string list \<Rightarrow> string" where
  "separated [] = []"
| "separated [x] = x"
| "separated (x # xs) = x @ '', '' @ separated xs"

definition array_to_string :: "('b \<Rightarrow> string) \<Rightarrow> 'b list \<Rightarrow> string" where
  "array_to_string f xs = ''['' @ separated (map f xs) @ '']''"

definition value_to_string :: "'d double_text \<Rightarrow> 'd ParameterValue \<Rightarrow> string" where
  "value_to_string dt v =
     (case v_type v of
        PARAMETER_NOT_SET \<Rightarrow> ''not set''
      | PARAMETER_BOOL \<Rightarrow> bool_text (bool_value v)
      | PARAMETER_INTEGER \<Rightarrow> show_int (integer_value v)
      | PARAMETER_DOUBLE \<Rightarrow> fixed_text dt (double_value v)
      | PARAMETER_STRING \<Rightarrow> string_value v
      | PARAMETER_BYTE_ARRAY \<Rightarrow> array_to_string byte_text (byte_array_value v)
      | PARAMETER_BOOL_ARRAY \<Rightarrow> array_to_string bool_text (bool_array_value v)
      | PARAMETER_INTEGER_ARRAY \<Rightarrow> array_to_string show_int (integer_array_value v)
      | PARAMETER_DOUBLE_ARRAY \<Rightarrow> array_to_string (stream_text dt) (double_array_value v)
      | PARAMETER_STRING_ARRAY \<Rightarrow> array_to_string (\<lambda>s. s) (string_array_value v)
      | Unknown_type _ \<Rightarrow> ''unknown type'')"

definition dquoted :: "string \<Rightarrow> string" where
  "dquoted s = CHR 0x22 # s @ [CHR 0x22]"

definition to_json_dict_entry :: "'d double_text \<Rightarrow> 'd Parameter \<Rightarrow> string" where
  "to_json_dict_entry dt p =
     dquoted (p_name p) @ '': {'' @ dquoted ''type'' @ '': '' @ dquoted (type_to_string (get_type p)) @ '', '' @
     dquoted ''value'' @ '': '' @ dquoted (value_to_string dt (p_value p)) @ ''}''"

definition parameter_to_string :: "'d double_text \<Rightarrow> 'd Parameter \<Rightarrow> string" where
  "parameter_to_string dt p =
     ''{'' @ dquoted ''name'' @ '': '' @ dquoted (p_name p) @ '', '' @ dquoted ''type'' @ '': '' @
     dquoted (type_to_string (get_type p)) @ '', '' @ dquoted ''value'' @ '': '' @ dquoted (value_to_string dt (p_value p)) @ ''}''"

definition parameters_to_string :: "'d double_text \<Rightarrow> 'd Parameter list \<Rightarrow> string" where
  "parameters_to_string dt ps = ''{'' @ separated (map (to_json_dict_entry dt) ps) @ ''}''"

end
