(* ===== verification/NodeParameters.thy ===== *)
theory NodeParameters
  imports Parameters Effects
begin

text \<open>
  The parameters of a node (\<open>rclcpp/src/rclcpp/node_interfaces/node_parameters.cpp\<close>) and the services
  that give access to them (\<open>parameter_service.cpp\<close>). Parameters are declared, set one by one or
  together, read and undeclared; a callback of the user and the range of the descriptor decide on
  new values.
\<close>

section \<open>Ordered maps\<close>

text \<open>\<open>std::map\<close> with string keys: an association list in the order of the keys.\<close>

fun str_less :: "string \<Rightarrow> string \<Rightarrow> bool" where
  "str_less [] [] = False"
| "str_less [] (d # ds) = True"
| "str_less (c # cs) [] = False"
| "str_less (c # cs) (d # ds) = ((of_char c :: nat) < of_char d \<or> c = d \<and> str_less cs ds)"

fun map_put :: "string \<Rightarrow> 'v \<Rightarrow> (string \<times> 'v) list \<Rightarrow> (string \<times> 'v) list" where
  "map_put k v [] = [(k, v)]"
| "map_put k v ((m, w) # xs) =
     (if k = m then (k, v) # xs else if str_less k m then (k, v) # (m, w) # xs else (m, w) # map_put k v xs)"

definition map_erase :: "string \<Rightarrow> (string \<times> 'v) list \<Rightarrow> (string \<times> 'v) list" where
  "map_erase k xs = filter (\<lambda>(m, _). m \<noteq> k) xs"

text \<open>\<open>operator[]\<close>: an entry is made for a key that has none.\<close>

definition map_at :: "'v \<Rightarrow> string \<Rightarrow> (string \<times> 'v) list \<Rightarrow> (string \<times> 'v) list \<times> 'v" where
  "map_at dflt k xs = (case map_of xs k of Some v \<Rightarrow> (xs, v) | None \<Rightarrow> (map_put k dflt xs, dflt))"

lemma map_of_put [simp]: "map_of (map_put k v xs) = (map_of xs)(k \<mapsto> v)"
  by (induction xs) (auto simp: fun_eq_iff)

lemma map_of_erase [simp]: "map_of (map_erase k xs) = (map_of xs)(k := None)"
  by (induction xs) (auto simp: map_erase_def fun_eq_iff)

lemma set_put: "set (map_put k v xs) \<subseteq> insert (k, v) (set xs)"
  by (induction xs) (auto split: if_splits)

lemma set_erase: "set (map_erase k xs) \<subseteq> set xs"
  by (auto simp: map_erase_def)

lemma map_of_at: "map_of (fst (map_at dflt k xs)) = (case map_of xs k of None \<Rightarrow> (map_of xs)(k \<mapsto> dflt) | Some _ \<Rightarrow> map_of xs)"
  by (simp add: map_at_def split: option.split)

section \<open>Descriptors and the store\<close>

record 'd FloatingPointRange =
  fp_from :: 'd
  fp_to :: 'd
  fp_step :: 'd

text \<open>\<open>step\<close> is unsigned in the message.\<close>

record IntegerRange =
  i_from :: int
  i_to :: int
  i_step :: nat

record 'd ParameterDescriptor =
  d_name :: string
  d_type :: ParameterType
  read_only :: bool
  floating_point_range :: "'d FloatingPointRange list"
  integer_range :: "IntegerRange list"

definition default_descriptor :: "'d ParameterDescriptor" where
  "default_descriptor = \<lparr> d_name = [], d_type = PARAMETER_NOT_SET, read_only = False, floating_point_range = [], integer_range = [] \<rparr>"

record 'd ParameterInfo =
  i_value :: "'d ParameterValue"
  descriptor :: "'d ParameterDescriptor"

record SetParametersResult =
  successful :: bool
  reason :: string

text \<open>What the code uses of floating-point arithmetic.\<close>

record 'd double_ops =
  d_zero :: 'd
  d_epsilon :: 'd
  d_hundred :: 'd
  d_add :: "'d \<Rightarrow> 'd \<Rightarrow> 'd"
  d_sub :: "'d \<Rightarrow> 'd \<Rightarrow> 'd"
  d_mul :: "'d \<Rightarrow> 'd \<Rightarrow> 'd"
  d_div :: "'d \<Rightarrow> 'd \<Rightarrow> 'd"
  d_abs :: "'d \<Rightarrow> 'd"
  d_round :: "'d \<Rightarrow> 'd"
  d_eq :: "'d \<Rightarrow> 'd \<Rightarrow> bool"
  d_le :: "'d \<Rightarrow> 'd \<Rightarrow> bool"
  d_less :: "'d \<Rightarrow> 'd \<Rightarrow> bool"

definition default_info :: "'d double_ops \<Rightarrow> 'd ParameterInfo" where
  "default_info ops = \<lparr> i_value = empty_value (d_zero ops), descriptor = default_descriptor \<rparr>"

record 'd ParameterEvent =
  e_node :: string
  new_parameters :: "'d Parameter list"
  changed_parameters :: "'d Parameter list"
  deleted_parameters :: "'d Parameter list"

text \<open>The callback of the user is given the number of its calls, so that it may answer differently
  every time; it may throw. The publisher of the events, if there is one, says for every publication
  with which exception it ends, if any: reading the clock for the time stamp and handing the event
  over may throw.\<close>

type_synonym 'd set_callback = "nat \<Rightarrow> 'd Parameter list \<Rightarrow> SetParametersResult res"

type_synonym event_publisher = "nat \<Rightarrow> cpp_error option"

record 'd NodeParameters =
  allow_undeclared :: bool
  parameters :: "(string \<times> 'd ParameterInfo) list"
  parameter_overrides :: "(string \<times> 'd ParameterValue) list"
  on_parameters_set_callback :: "'d set_callback option"
  callback_calls :: nat
  events_publisher :: "event_publisher option"
  publications :: nat
  published_events :: "'d ParameterEvent list"
  combined_name :: string

type_synonym ('d, 'a) param_act = "('d NodeParameters, 'a) act"

section \<open>Checks\<close>

text \<open>The name of a parameter in a message.\<close>

definition in_quotes :: "string \<Rightarrow> string" where
  "in_quotes s = CHR 0x27 # s @ [CHR 0x27]"

definition accepted :: SetParametersResult where
  "accepted = \<lparr> successful = True, reason = [] \<rparr>"

definition format_reason :: "string \<Rightarrow> string \<Rightarrow> SetParametersResult" where
  "format_reason name range_type =
     \<lparr> successful = False, reason = ''Parameter {'' @ name @ ''} doesn't comply with '' @ range_type @ '' range.'' \<rparr>"

definition are_doubles_equal :: "'d double_ops \<Rightarrow> 'd \<Rightarrow> 'd \<Rightarrow> bool" where
  "are_doubles_equal ops x y =
     d_le ops (d_abs ops (d_sub ops x y))
       (d_mul ops (d_mul ops (d_epsilon ops) (d_abs ops (d_add ops x y))) (d_hundred ops))"

definition check_integer_range :: "string \<Rightarrow> IntegerRange \<Rightarrow> int \<Rightarrow> SetParametersResult res" where
  "check_integer_range name r v =
     (if v = i_from r \<or> v = i_to r then Ok accepted
      else if v < i_from r \<or> v > i_to r then Ok (format_reason name ''integer'')
      else if i_step r = 0 then Ok accepted
      else bindR (i64_result (v - i_from r)) (\<lambda>diff.
        Ok (if diff mod int (i_step r) = 0 then accepted else format_reason name ''integer'')))"

definition check_double_range :: "'d double_ops \<Rightarrow> string \<Rightarrow> 'd FloatingPointRange \<Rightarrow> 'd \<Rightarrow> SetParametersResult" where
  "check_double_range ops name r v =
     (if are_doubles_equal ops v (fp_from r) \<or> are_doubles_equal ops v (fp_to r) then accepted
      else if d_less ops v (fp_from r) \<or> d_less ops (fp_to r) v then format_reason name ''floating point''
      else if d_eq ops (fp_step r) (d_zero ops) then accepted
      else
        let rounded_div = d_round ops (d_div ops (d_sub ops v (fp_from r)) (fp_step r))
        in if are_doubles_equal ops v (d_add ops (fp_from r) (d_mul ops rounded_div (fp_step r))) then accepted
           else format_reason name ''floating point'')"

definition check_parameter_value_in_range :: "'d double_ops \<Rightarrow> 'd ParameterDescriptor \<Rightarrow> 'd ParameterValue \<Rightarrow> SetParametersResult res" where
  "check_parameter_value_in_range ops desc v =
     (if integer_range desc \<noteq> [] \<and> v_type v = PARAMETER_INTEGER
      then bindR (as_int v) (check_integer_range (d_name desc) (hd (integer_range desc)))
      else if floating_point_range desc \<noteq> [] \<and> v_type v = PARAMETER_DOUBLE
      then bindR (as_double v) (\<lambda>d. Ok (check_double_range ops (d_name desc) (hd (floating_point_range desc)) d))
      else Ok accepted)"

text \<open>The values are checked against the descriptors of a store, which gets an entry for every
  parameter that it does not have.\<close>

fun check_parameters ::
  "'d double_ops \<Rightarrow> 'd Parameter list \<Rightarrow> (string \<times> 'd ParameterInfo) list \<Rightarrow>
   SetParametersResult res \<times> (string \<times> 'd ParameterInfo) list" where
  "check_parameters ops [] infos = (Ok accepted, infos)"
| "check_parameters ops (p # ps) infos =
     (case map_at (default_info ops) (p_name p) infos of (infos', info) \<Rightarrow>
       (case check_parameter_value_in_range ops (descriptor info) (p_value p) of
          Inl e \<Rightarrow> (Err e, infos')
        | Inr result \<Rightarrow> if \<not> successful result then (Ok result, infos') else check_parameters ops ps infos'))"

definition store_parameter :: "'d double_ops \<Rightarrow> 'd Parameter \<Rightarrow> (string \<times> 'd ParameterInfo) list \<Rightarrow> (string \<times> 'd ParameterInfo) list" where
  "store_parameter ops p infos =
     (case map_at (default_info ops) (p_name p) infos of (infos', info) \<Rightarrow>
       map_put (p_name p) \<lparr> i_value = p_value p, descriptor = (descriptor info)\<lparr> d_name := p_name p, d_type := get_type p \<rparr> \<rparr> infos')"

text \<open>Values are set if the callback (\<open>verdict\<close>, its answer if there is one) and the check agree.\<close>

definition set_parameters_atomically_common ::
  "'d double_ops \<Rightarrow> 'd Parameter list \<Rightarrow> SetParametersResult \<Rightarrow> (string \<times> 'd ParameterInfo) list \<Rightarrow>
   SetParametersResult res \<times> (string \<times> 'd ParameterInfo) list" where
  "set_parameters_atomically_common ops ps verdict infos =
     (if \<not> successful verdict then (Ok verdict, infos)
      else (case check_parameters ops ps infos of
          (Inl e, infos') \<Rightarrow> (Err e, infos')
        | (Inr result, infos') \<Rightarrow>
            if \<not> successful result then (Ok result, infos')
            else (Ok result, fold (store_parameter ops) ps infos')))"

text \<open>The answer of the callback, or the exception that it throws, which counts as a call.\<close>

definition ask_callback :: "'d Parameter list \<Rightarrow> ('d, SetParametersResult) param_act" where
  "ask_callback ps np =
     (case on_parameters_set_callback np of
        None \<Rightarrow> (Ok accepted, np)
      | Some f \<Rightarrow> (f (callback_calls np) ps, np\<lparr> callback_calls := Suc (callback_calls np) \<rparr>))"

section \<open>Declaring\<close>

text \<open>
  The common part of declarations: the new entry is made in a map of its own and then stored,
  whatever the result is; the event gets the parameter in any case, too.
\<close>

definition initial_value :: "'d ParameterValue \<Rightarrow> (string \<times> 'd ParameterValue) list \<Rightarrow> bool \<Rightarrow> string \<Rightarrow> 'd ParameterValue" where
  "initial_value default_value overrides use_overrides name =
     (case map_of overrides name of Some v \<Rightarrow> if use_overrides then v else default_value | None \<Rightarrow> default_value)"

definition declare_parameter_common ::
  "'d double_ops \<Rightarrow> string \<Rightarrow> 'd ParameterValue \<Rightarrow> 'd ParameterDescriptor \<Rightarrow> SetParametersResult \<Rightarrow>
   (string \<times> 'd ParameterInfo) list \<Rightarrow> SetParametersResult res \<times> (string \<times> 'd ParameterInfo) list" where
  "declare_parameter_common ops name v desc verdict out =
     (case set_parameters_atomically_common ops [\<lparr> p_name = name, p_value = v \<rparr>] verdict
         [(name, \<lparr> i_value = empty_value (d_zero ops), descriptor = desc \<rparr>)] of
        (Inl e, infos) \<Rightarrow> (Err e, out)
      | (Inr result, infos) \<Rightarrow> (Ok result, map_put name (snd (map_at (default_info ops) name infos)) out))"

text \<open>An event is published if there is a publisher. An exception leaves what was stored before.\<close>

definition publish_event :: "'d ParameterEvent \<Rightarrow> ('d, unit) param_act" where
  "publish_event e np =
     (case events_publisher np of
        None \<Rightarrow> (Ok (), np)
      | Some publish \<Rightarrow>
          let np' = np\<lparr> publications := Suc (publications np) \<rparr>
          in (case publish (publications np) of
                Some err \<Rightarrow> (Err err, np')
              | None \<Rightarrow> (Ok (), np'\<lparr> published_events := published_events np @ [e] \<rparr>)))"

definition declare_parameter ::
  "'d double_ops \<Rightarrow> string \<Rightarrow> 'd ParameterValue \<Rightarrow> 'd ParameterDescriptor \<Rightarrow> ('d, 'd ParameterValue) param_act" where
  "declare_parameter ops name default_value desc =
     bindA (getA (\<lambda>np. (map_of (parameters np) name, initial_value default_value (parameter_overrides np) True name))) (\<lambda>(found, v).
     if name = [] then throwA (InvalidParametersException ''parameter name must not be empty'')
     else if found \<noteq> None then throwA (ParameterAlreadyDeclaredException (''parameter '' @ in_quotes name @ '' has already been declared''))
     else
       bindA (ask_callback [\<lparr> p_name = name, p_value = v \<rparr>]) (\<lambda>verdict.
       bindA (\<lambda>np. case declare_parameter_common ops name v desc verdict (parameters np) of (r, infos) \<Rightarrow> (r, np\<lparr> parameters := infos \<rparr>)) (\<lambda>result.
       if \<not> successful result
       then throwA (InvalidParameterValueException (''parameter '' @ in_quotes name @ '' could not be set: '' @ reason result))
       else seqA (publish_event \<lparr> e_node = [], new_parameters = [\<lparr> p_name = name, p_value = v \<rparr>], changed_parameters = [], deleted_parameters = [] \<rparr>)
         (bindA (getA (\<lambda>np. map_of (parameters np) name)) (\<lambda>info.
           case info of None \<Rightarrow> throwA (Out_of_range ''map::at'') | Some i \<Rightarrow> retA (i_value i))))))"

definition undeclare_parameter :: "string \<Rightarrow> ('d, unit) param_act" where
  "undeclare_parameter name =
     bindA (getA (\<lambda>np. map_of (parameters np) name)) (\<lambda>found.
       case found of
         None \<Rightarrow> throwA (ParameterNotDeclaredException (''cannot undeclare parameter '' @ in_quotes name @ '' which has not yet been declared''))
       | Some info \<Rightarrow>
           if read_only (descriptor info)
           then throwA (ParameterImmutableException (''cannot undeclare parameter '' @ in_quotes name @ '' because it is read-only''))
           else modA (\<lambda>np. np\<lparr> parameters := map_erase name (parameters np) \<rparr>))"

definition has_parameter :: "'d NodeParameters \<Rightarrow> string \<Rightarrow> bool" where
  "has_parameter np name \<longleftrightarrow> map_of (parameters np) name \<noteq> None"

section \<open>Setting\<close>

text \<open>
  The first loop over the parameters to set: an exception, a refusal, or the parameters that have to
  be declared first.
\<close>

fun screen_parameters ::
  "bool \<Rightarrow> (string \<times> 'd ParameterInfo) list \<Rightarrow> 'd Parameter list \<Rightarrow> (SetParametersResult + 'd Parameter list) res" where
  "screen_parameters allow infos [] = Ok (Inr [])"
| "screen_parameters allow infos (p # ps) =
     (if p_name p = [] then Err (InvalidParametersException ''parameter name must not be empty'')
      else (case map_of infos (p_name p) of
          None \<Rightarrow>
            if allow then bindR (screen_parameters allow infos ps) (\<lambda>r.
              Ok (case r of Inl refused \<Rightarrow> Inl refused | Inr qs \<Rightarrow> Inr (p # qs)))
            else Err (ParameterNotDeclaredException (''parameter '' @ in_quotes (p_name p) @ '' cannot be set because it was not declared''))
        | Some info \<Rightarrow>
            if read_only (descriptor info)
            then Ok (Inl \<lparr> successful = False, reason = ''parameter '' @ in_quotes (p_name p) @ '' cannot be set because it is read-only'' \<rparr>)
            else screen_parameters allow infos ps))"

text \<open>The implicit declarations into the staging area, without the callback and the overrides.\<close>

fun stage_parameters ::
  "'d double_ops \<Rightarrow> 'd Parameter list \<Rightarrow> (string \<times> 'd ParameterInfo) list \<Rightarrow> (SetParametersResult + (string \<times> 'd ParameterInfo) list) res" where
  "stage_parameters ops [] staged = Ok (Inr staged)"
| "stage_parameters ops (p # ps) staged =
     (case declare_parameter_common ops (p_name p) (p_value p) default_descriptor accepted staged of
        (Inl e, _) \<Rightarrow> Err e
      | (Inr result, staged') \<Rightarrow> if \<not> successful result then Ok (Inl result) else stage_parameters ops ps staged')"

fun replace_first :: "string \<Rightarrow> 'd ParameterValue \<Rightarrow> 'd Parameter list \<Rightarrow> 'd Parameter list" where
  "replace_first name v [] = []"
| "replace_first name v (p # ps) = (if p_name p = name then \<lparr> p_name = name, p_value = v \<rparr> # ps else p # replace_first name v ps)"

definition parameters_to_be_set :: "'d Parameter list \<Rightarrow> (string \<times> 'd ParameterInfo) list \<Rightarrow> 'd Parameter list" where
  "parameters_to_be_set ps staged =
     (if list_ex (\<lambda>(name, info). case find (\<lambda>p. p_name p = name) ps of None \<Rightarrow> False | Some p \<Rightarrow> p_value p \<noteq> i_value info) staged
      then fold (\<lambda>(name, info). replace_first name (i_value info)) staged ps
      else ps)"

definition parameters_to_be_undeclared :: "(string \<times> 'd ParameterInfo) list \<Rightarrow> 'd Parameter list \<Rightarrow> 'd Parameter list" where
  "parameters_to_be_undeclared infos ps =
     filter (\<lambda>p. get_type p = PARAMETER_NOT_SET \<and>
       (case map_of infos (p_name p) of Some info \<Rightarrow> v_type (i_value info) \<noteq> PARAMETER_NOT_SET | None \<Rightarrow> False)) ps"

fun erase_parameters ::
  "'d Parameter list \<Rightarrow> (string \<times> 'd ParameterInfo) list \<Rightarrow> (string \<times> 'd ParameterInfo) list \<times> 'd Parameter list" where
  "erase_parameters [] infos = (infos, [])"
| "erase_parameters (p # ps) infos =
     (case map_of infos (p_name p) of
        None \<Rightarrow> erase_parameters ps infos
      | Some info \<Rightarrow>
          (case erase_parameters ps (map_erase (p_name p) infos) of (infos', deleted) \<Rightarrow>
            (infos', \<lparr> p_name = p_name p, p_value = i_value info \<rparr> # deleted)))"

text \<open>
  The whole operation. Assertions are those of a release build, which checks none; the value of the
  time stamp of the event is left out, an exception of reading it is one of the publication.
\<close>

definition set_parameters_atomically :: "'d double_ops \<Rightarrow> 'd Parameter list \<Rightarrow> ('d, SetParametersResult) param_act" where
  "set_parameters_atomically ops ps =
     bindA (getA (\<lambda>np. screen_parameters (allow_undeclared np) (parameters np) ps)) (\<lambda>r.
     bindA (liftA r) (\<lambda>screened.
     case screened of
       Inl refused \<Rightarrow> retA refused
     | Inr to_be_declared \<Rightarrow>
         bindA (liftA (stage_parameters ops to_be_declared [])) (\<lambda>st.
         case st of
           Inl refused \<Rightarrow> retA refused
         | Inr staged \<Rightarrow>
             let to_set = parameters_to_be_set ps staged
             in bindA (getA (\<lambda>np. parameters_to_be_undeclared (parameters np) to_set)) (\<lambda>to_undeclare.
                bindA (ask_callback to_set) (\<lambda>verdict.
                bindA (\<lambda>np. case set_parameters_atomically_common ops to_set verdict (parameters np) of (r, infos) \<Rightarrow>
                    (r, np\<lparr> parameters := infos \<rparr>)) (\<lambda>result.
                if \<not> successful result then retA result
                else
                  bindA (\<lambda>np. case erase_parameters to_undeclare (fold (\<lambda>(n, info). map_put n info) staged (parameters np)) of (infos, deleted) \<Rightarrow>
                      (Ok deleted, np\<lparr> parameters := infos \<rparr>)) (\<lambda>deleted.
                  bindA (getA combined_name) (\<lambda>node.
                  seqA (publish_event \<lparr> e_node = node, new_parameters = to_be_declared,
                      changed_parameters = filter (\<lambda>p. map_of staged (p_name p) = None \<and> p_name p \<notin> p_name ` set to_undeclare) to_set,
                      deleted_parameters = deleted \<rparr>)
                    (retA result)))))))))"

definition set_parameters :: "'d double_ops \<Rightarrow> 'd Parameter list \<Rightarrow> ('d, SetParametersResult list) param_act" where
  "set_parameters ops ps = mapA (\<lambda>p. set_parameters_atomically ops [p]) ps"

definition set_on_parameters_set_callback ::
  "'d set_callback option \<Rightarrow> ('d, 'd set_callback option) param_act" where
  "set_on_parameters_set_callback cb =
     bindA (getA on_parameters_set_callback) (\<lambda>old. seqA (modA (\<lambda>np. np\<lparr> on_parameters_set_callback := cb \<rparr>)) (retA old))"

text \<open>The older form of the same, which only warns about a callback that it replaces.\<close>

definition register_param_change_callback ::
  "'d set_callback option \<Rightarrow> ('d, unit) param_act" where
  "register_param_change_callback cb = modA (\<lambda>np. np\<lparr> on_parameters_set_callback := cb \<rparr>)"

section \<open>Reading\<close>

definition try_get_parameter :: "'d NodeParameters \<Rightarrow> string \<Rightarrow> 'd Parameter option" where
  "try_get_parameter np name =
     (case map_of (parameters np) name of
        Some info \<Rightarrow> if v_type (i_value info) \<noteq> PARAMETER_NOT_SET then Some \<lparr> p_name = name, p_value = i_value info \<rparr> else None
      | None \<Rightarrow> None)"

definition get_parameter :: "'d double_ops \<Rightarrow> 'd NodeParameters \<Rightarrow> string \<Rightarrow> 'd Parameter res" where
  "get_parameter ops np name =
     (case try_get_parameter np name of
        Some p \<Rightarrow> Ok p
      | None \<Rightarrow> if allow_undeclared np then Ok \<lparr> p_name = [], p_value = empty_value (d_zero ops) \<rparr>
                else Err (ParameterNotDeclaredException name))"

text \<open>A loop over names that takes what the store has, or a default if undeclared parameters are
  allowed.\<close>

fun for_names :: "'d NodeParameters \<Rightarrow> (string \<Rightarrow> 'd ParameterInfo \<Rightarrow> 'b) \<Rightarrow> (string \<Rightarrow> 'b) \<Rightarrow> string list \<Rightarrow> 'b list res" where
  "for_names np f dflt [] = Ok []"
| "for_names np f dflt (name # names) =
     (case map_of (parameters np) name of
        Some info \<Rightarrow> bindR (for_names np f dflt names) (\<lambda>rs. Ok (f name info # rs))
      | None \<Rightarrow> if allow_undeclared np then bindR (for_names np f dflt names) (\<lambda>rs. Ok (dflt name # rs))
                else Err (ParameterNotDeclaredException name))"

definition get_parameters :: "'d double_ops \<Rightarrow> 'd NodeParameters \<Rightarrow> string list \<Rightarrow> 'd Parameter list res" where
  "get_parameters ops np =
     for_names np (\<lambda>n info. \<lparr> p_name = n, p_value = i_value info \<rparr>) (\<lambda>n. \<lparr> p_name = n, p_value = empty_value (d_zero ops) \<rparr>)"

definition describe_parameters :: "'d NodeParameters \<Rightarrow> string list \<Rightarrow> 'd ParameterDescriptor list res" where
  "describe_parameters np = for_names np (\<lambda>n info. descriptor info) (\<lambda>n. default_descriptor\<lparr> d_name := n \<rparr>)"

definition get_parameter_types :: "'d NodeParameters \<Rightarrow> string list \<Rightarrow> ParameterType list res" where
  "get_parameter_types np = for_names np (\<lambda>n info. v_type (i_value info)) (\<lambda>n. PARAMETER_NOT_SET)"

definition has_prefix :: "string \<Rightarrow> string \<Rightarrow> bool" where
  "has_prefix prefix name \<longleftrightarrow> take (length prefix) name = prefix"

definition get_parameters_by_prefix :: "'d NodeParameters \<Rightarrow> string \<Rightarrow> (string \<times> 'd Parameter) list" where
  "get_parameters_by_prefix np prefix =
     (let dotted = (if prefix = [] then prefix else prefix @ ''.'')
      in map (\<lambda>(n, info). (drop (length dotted) n, \<lparr> p_name = d_name (descriptor info), p_value = i_value info \<rparr>))
           (filter (\<lambda>(n, _). has_prefix dotted n \<and> length dotted < length n) (parameters np)))"

text \<open>\<open>depth\<close> zero is the constant \<open>DEPTH_RECURSIVE\<close> of the service.\<close>

definition dots :: "string \<Rightarrow> nat" where
  "dots s = count_list s (CHR ''.'')"

definition listed :: "string list \<Rightarrow> nat \<Rightarrow> string \<Rightarrow> bool" where
  "listed prefixes depth name \<longleftrightarrow>
     prefixes = [] \<and> (depth = 0 \<or> dots name < depth) \<or>
     list_ex (\<lambda>prefix. name = prefix \<or>
       has_prefix (prefix @ ''.'') name \<and> (depth = 0 \<or> dots (drop (length prefix) name) < depth)) prefixes"

definition prefix_of :: "string \<Rightarrow> string option" where
  "prefix_of name =
     (if CHR ''.'' \<in> set name then Some (rev (tl (dropWhile (\<lambda>c. c \<noteq> CHR ''.'') (rev name)))) else None)"

definition list_parameters :: "'d NodeParameters \<Rightarrow> string list \<Rightarrow> nat \<Rightarrow> string list \<times> string list" where
  "list_parameters np prefixes depth =
     (let names = filter (listed prefixes depth) (map fst (parameters np))
      in (names, fold (\<lambda>n ps. case prefix_of n of None \<Rightarrow> ps | Some p \<Rightarrow> if p \<in> set ps then ps else ps @ [p]) names []))"

section \<open>Construction\<close>

text \<open>
  The constructor takes overrides from the parameter files of the global arguments, then from those
  of the node, then from its own argument; a later one replaces an earlier one. \<open>parse_yaml_file\<close> stands for
  \<open>rcl_parse_yaml_file\<close> (\<open>None\<close> if it fails, with the error text \<open>yaml_error\<close>) and \<open>hash_order\<close> for the
  order in which the unordered map of a file is walked.
\<close>

record 'd yaml_files =
  parse_yaml_file :: "string \<Rightarrow> 'd rcl_params_t option"
  yaml_error :: "string \<Rightarrow> string"
  hash_order :: "(string \<times> 'd Parameter list) list \<Rightarrow> (string \<times> 'd Parameter list) list"

definition put_overrides :: "'d Parameter list \<Rightarrow> (string \<times> 'd ParameterValue) list \<Rightarrow> (string \<times> 'd ParameterValue) list" where
  "put_overrides ps ov = fold (\<lambda>p. map_put (p_name p) (p_value p)) ps ov"

definition add_overrides :: "string \<Rightarrow> (string \<times> 'd Parameter list) list \<Rightarrow> (string \<times> 'd ParameterValue) list \<Rightarrow> (string \<times> 'd ParameterValue) list" where
  "add_overrides node file_map overrides =
     fold (\<lambda>(n, ps) ov. if n = ''/**'' \<or> n = node then put_overrides ps ov else ov) file_map overrides"

fun read_files ::
  "'d \<Rightarrow> 'd yaml_files \<Rightarrow> string \<Rightarrow> string list \<Rightarrow> (string \<times> 'd ParameterValue) list \<Rightarrow> (string \<times> 'd ParameterValue) list res" where
  "read_files z fs node [] ov = Ok ov"
| "read_files z fs node (path # paths) ov =
     (case parse_yaml_file fs path of
        None \<Rightarrow> Err (Runtime_error (''Failed to parse parameters from file '' @ in_quotes path @ '': '' @ yaml_error fs path))
      | Some params \<Rightarrow> bindR (parameter_map_from z (Some params)) (\<lambda>m.
          read_files z fs node paths (add_overrides node (hash_order fs m) ov)))"

definition declare_overrides :: "'d double_ops \<Rightarrow> ('d, unit) param_act" where
  "declare_overrides ops =
     bindA (getA parameter_overrides) (\<lambda>ov.
       forA (\<lambda>(name, v). bindA (getA (\<lambda>np. has_parameter np name)) (\<lambda>known.
         whenA (\<not> known) (bindA (declare_parameter ops name v default_descriptor) (\<lambda>_. retA ())))) ov)"

definition initial_parameters :: "string \<Rightarrow> event_publisher option \<Rightarrow> bool \<Rightarrow> (string \<times> 'd ParameterValue) list \<Rightarrow> 'd NodeParameters" where
  "initial_parameters node publish allow ov =
     \<lparr> allow_undeclared = allow, parameters = [], parameter_overrides = ov, on_parameters_set_callback = None,
       callback_calls = 0, events_publisher = publish, publications = 0, published_events = [], combined_name = node \<rparr>"

definition NodeParameters_new ::
  "'d double_ops \<Rightarrow> 'd yaml_files \<Rightarrow> string \<Rightarrow> bool \<Rightarrow> string list \<Rightarrow> string list \<Rightarrow> 'd Parameter list \<Rightarrow> event_publisher option \<Rightarrow> bool \<Rightarrow> bool \<Rightarrow>
   'd NodeParameters res" where
  "NodeParameters_new ops fs node use_global global_files local_files overrides publish allow automatic =
     bindR (read_files (d_zero ops) fs node ((if use_global then global_files else []) @ local_files) []) (\<lambda>ov.
       let np = initial_parameters node publish allow (put_overrides overrides ov)
       in if automatic then (case declare_overrides ops np of (Inl e, _) \<Rightarrow> Err e | (Inr _, np') \<Rightarrow> Ok np') else Ok np)"

section \<open>Services\<close>

text \<open>The handler of \<open>set_parameters\<close>: every parameter on its own; only a parameter that was not
  declared is caught.\<close>

fun set_parameters_service :: "'d double_ops \<Rightarrow> (string \<times> 'd ParameterValue) list \<Rightarrow> ('d, SetParametersResult list) param_act" where
  "set_parameters_service ops [] = retA []"
| "set_parameters_service ops ((name, v) # reqs) =
     bindA (\<lambda>np. case bindA (liftA (Parameter_from_msg name v)) (\<lambda>p. set_parameters_atomically ops [p]) np of
         (Inl (ParameterNotDeclaredException msg), np') \<Rightarrow> (Ok \<lparr> successful = False, reason = msg \<rparr>, np')
       | r \<Rightarrow> r) (\<lambda>result.
     bindA (set_parameters_service ops reqs) (\<lambda>results. retA (result # results)))"

definition set_parameters_atomically_service ::
  "'d double_ops \<Rightarrow> (string \<times> 'd ParameterValue) list \<Rightarrow> ('d, SetParametersResult) param_act" where
  "set_parameters_atomically_service ops reqs =
     bindA (mapA (\<lambda>(name, v). liftA (Parameter_from_msg name v)) reqs) (\<lambda>ps np.
       case set_parameters_atomically ops ps np of
         (Inl (ParameterNotDeclaredException msg), np') \<Rightarrow>
           (Ok \<lparr> successful = False, reason = ''One or more parameters wer not declared before setting'' \<rparr>, np')
       | r \<Rightarrow> r)"

definition get_parameters_service :: "'d double_ops \<Rightarrow> 'd NodeParameters \<Rightarrow> string list \<Rightarrow> 'd ParameterValue list" where
  "get_parameters_service ops np names =
     map (\<lambda>n. case try_get_parameter np n of Some p \<Rightarrow> p_value p | None \<Rightarrow> empty_value (d_zero ops)) names"

text \<open>The readers that throw: the response stays empty for an unknown parameter.\<close>

definition unless_undeclared :: "'b list res \<Rightarrow> 'b list res" where
  "unless_undeclared r = (case r of Inl (ParameterNotDeclaredException msg) \<Rightarrow> Ok [] | _ \<Rightarrow> r)"

definition get_parameter_types_service :: "'d NodeParameters \<Rightarrow> string list \<Rightarrow> ParameterType list res" where
  "get_parameter_types_service np names = unless_undeclared (get_parameter_types np names)"

definition describe_parameters_service :: "'d NodeParameters \<Rightarrow> string list \<Rightarrow> 'd ParameterDescriptor list res" where
  "describe_parameters_service np names = unless_undeclared (describe_parameters np names)"

definition list_parameters_service :: "'d NodeParameters \<Rightarrow> string list \<Rightarrow> nat \<Rightarrow> string list \<times> string list" where
  "list_parameters_service np prefixes depth = list_parameters np prefixes depth"

end
