(* ===== verification/TimeSource.thy ===== *)
theory TimeSource
  imports Clock NodeParameters
begin

text \<open>
  The time source of a node (\<open>rclcpp/src/rclcpp/time_source.cpp\<close>) and the filter for parameter events
  (\<open>parameter_events_filter.cpp\<close>): the parameter \<open>use_sim_time\<close> switches the clocks that are attached
  between the system time and the time received on the topic \<open>/clock\<close>.
\<close>

section \<open>The filter for parameter events\<close>

datatype EventType = NEW | DELETED | CHANGED

definition events_of :: "'d ParameterEvent \<Rightarrow> string list \<Rightarrow> EventType list \<Rightarrow> EventType \<Rightarrow> ('d ParameterEvent \<Rightarrow> 'd Parameter list) \<Rightarrow> (EventType \<times> 'd Parameter) list" where
  "events_of event names types t field =
     (if t \<in> set types then map (Pair t) (filter (\<lambda>p. p_name p \<in> set names) (field event)) else [])"

definition ParameterEventsFilter :: "'d ParameterEvent \<Rightarrow> string list \<Rightarrow> EventType list \<Rightarrow> (EventType \<times> 'd Parameter) list" where
  "ParameterEventsFilter event names types =
     events_of event names types NEW new_parameters @ events_of event names types CHANGED changed_parameters @
     events_of event names types DELETED deleted_parameters"

section \<open>The time source\<close>

datatype parameter_state = UNSET | SET_TRUE | SET_FALSE

text \<open>\<open>node_name\<close> is there while a node is attached; \<open>all_clocks\<close> are the clock objects by address.\<close>

record time_source =
  ros_time_active :: bool
  param_state :: parameter_state
  last_msg_set :: "stamp_msg option"
  associated_clocks :: "nat list"
  clock_subscription :: bool
  parameter_subscription :: bool
  node_name :: "string option"
  all_clocks :: "nat \<Rightarrow> rcl_clock"

type_synonym 'a source_act = "(time_source, 'a) act"

text \<open>No constructor sets the state of the parameter: \<open>p\<close> is what the memory holds.\<close>

definition TimeSource_init :: "parameter_state \<Rightarrow> (nat \<Rightarrow> rcl_clock) \<Rightarrow> time_source" where
  "TimeSource_init p cs = \<lparr> ros_time_active = False, param_state = p, last_msg_set = None, associated_clocks = [],
     clock_subscription = False, parameter_subscription = False, node_name = None, all_clocks = cs \<rparr>"

definition on_clock :: "nat \<Rightarrow> 'a clock_act \<Rightarrow> 'a source_act" where
  "on_clock k m = (\<lambda>s. case m (all_clocks s k) of (r, c) \<Rightarrow> (r, s\<lparr> all_clocks := (all_clocks s)(k := c) \<rparr>))"

definition unless_ok :: "string \<Rightarrow> rcl_ret \<Rightarrow> unit source_act" where
  "unless_ok msg ret = (if ret \<noteq> RCL_RET_OK then throwA (throw_from_rcl_error ret msg) else retA ())"

definition enable_clock :: "time_env \<Rightarrow> nat \<Rightarrow> unit source_act" where
  "enable_clock env k = bindA (on_clock k (rcl_enable_ros_time_override env)) (unless_ok ''Failed to enable ros_time_override_status'')"

definition disable_clock :: "time_env \<Rightarrow> nat \<Rightarrow> unit source_act" where
  "disable_clock env k = bindA (on_clock k (rcl_disable_ros_time_override env)) (unless_ok ''Failed to enable ros_time_override_status'')"

definition set_clock :: "time_env \<Rightarrow> stamp_msg \<Rightarrow> bool \<Rightarrow> nat \<Rightarrow> unit source_act" where
  "set_clock env msg set_ros_time_enabled k =
     bindA (bindA (getA (\<lambda>s. all_clocks s k)) (\<lambda>c. liftA (ros_time_is_active c))) (\<lambda>is_active.
     seqA (if \<not> set_ros_time_enabled \<and> is_active then disable_clock env k
           else if set_ros_time_enabled \<and> \<not> is_active then enable_clock env k else retA ())
     (bindA (liftA (Time_of_msg msg RCL_ROS_TIME)) (\<lambda>t.
      bindA (on_clock k (rcl_set_ros_time_override env (time_ns t))) (unless_ok ''Failed to set ros_time_override_status''))))"

text \<open>The time to show: the last message received, or zero.\<close>

definition zero_msg :: stamp_msg where
  "zero_msg = \<lparr> sec = 0, nanosec = 0 \<rparr>"

definition time_msg :: "time_source \<Rightarrow> stamp_msg" where
  "time_msg s = (case last_msg_set s of None \<Rightarrow> zero_msg | Some m \<Rightarrow> m)"

definition enable_ros_time :: "time_env \<Rightarrow> unit source_act" where
  "enable_ros_time env =
     bindA (getA ros_time_active) (\<lambda>on.
     if on then retA ()
     else seqA (modA (\<lambda>s. s\<lparr> ros_time_active := True \<rparr>))
       (bindA (getA (\<lambda>s. (time_msg s, associated_clocks s))) (\<lambda>(msg, ks). forA (set_clock env msg True) ks)))"

definition disable_ros_time :: "time_env \<Rightarrow> unit source_act" where
  "disable_ros_time env =
     bindA (getA ros_time_active) (\<lambda>on.
     if \<not> on then retA ()
     else seqA (modA (\<lambda>s. s\<lparr> ros_time_active := False \<rparr>))
       (bindA (getA associated_clocks) (\<lambda>ks. forA (set_clock env zero_msg False) ks)))"

text \<open>\<open>sim\<close> is the value of the parameter \<open>use_sim_time\<close>, declared or read.\<close>

definition attachNode :: "time_env \<Rightarrow> string \<Rightarrow> 'd ParameterValue res \<Rightarrow> unit source_act" where
  "attachNode env name sim =
     seqA (modA (\<lambda>s. s\<lparr> node_name := Some name \<rparr>))
     (bindA (liftA sim) (\<lambda>v.
      seqA (whenA (v_type v = PARAMETER_BOOL \<and> bool_value v)
             (seqA (modA (\<lambda>s. s\<lparr> param_state := SET_TRUE \<rparr>))
             (seqA (enable_ros_time env) (modA (\<lambda>s. s\<lparr> clock_subscription := True \<rparr>)))))
        (modA (\<lambda>s. s\<lparr> parameter_subscription := True \<rparr>))))"

definition detachNode :: "time_env \<Rightarrow> unit source_act" where
  "detachNode env =
     seqA (modA (\<lambda>s. s\<lparr> ros_time_active := False, clock_subscription := False, parameter_subscription := False, node_name := None \<rparr>))
       (disable_ros_time env)"

definition TimeSource_destroy :: "time_env \<Rightarrow> unit source_act" where
  "TimeSource_destroy env = bindA (getA node_name) (\<lambda>n. whenA (n \<noteq> None) (detachNode env))"

definition attachClock :: "time_env \<Rightarrow> nat \<Rightarrow> unit source_act" where
  "attachClock env k =
     bindA (getA (\<lambda>s. all_clocks s k)) (\<lambda>c.
     if ct_type c \<noteq> RCL_ROS_TIME then throwA (Invalid_argument ''Cannot attach clock to a time source that's not a ROS clock'')
     else seqA (modA (\<lambda>s. s\<lparr> associated_clocks := associated_clocks s @ [k] \<rparr>))
       (bindA (getA (\<lambda>s. (time_msg s, ros_time_active s))) (\<lambda>(msg, on). set_clock env msg on k)))"

definition detachClock :: "nat \<Rightarrow> unit source_act" where
  "detachClock k = modA (\<lambda>s. s\<lparr> associated_clocks := remove1 k (associated_clocks s) \<rparr>)"

definition clock_cb :: "time_env \<Rightarrow> stamp_msg \<Rightarrow> unit source_act" where
  "clock_cb env msg =
     bindA (getA (\<lambda>s. (ros_time_active s, param_state s))) (\<lambda>(on, p).
     seqA (whenA (\<not> on \<and> p = SET_TRUE) (enable_ros_time env))
     (seqA (modA (\<lambda>s. s\<lparr> last_msg_set := Some msg \<rparr>))
       (whenA (p = SET_TRUE) (bindA (getA associated_clocks) (\<lambda>ks. forA (set_clock env msg True) ks)))))"

definition sim_time_event :: "time_env \<Rightarrow> EventType \<times> 'd Parameter \<Rightarrow> unit source_act" where
  "sim_time_event env = (\<lambda>(_, p).
     if v_type (p_value p) \<noteq> PARAMETER_BOOL then retA ()
     else if bool_value (p_value p) then
       seqA (modA (\<lambda>s. s\<lparr> param_state := SET_TRUE \<rparr>)) (seqA (enable_ros_time env) (modA (\<lambda>s. s\<lparr> clock_subscription := True \<rparr>)))
     else
       seqA (modA (\<lambda>s. s\<lparr> param_state := SET_FALSE \<rparr>)) (seqA (disable_ros_time env) (modA (\<lambda>s. s\<lparr> clock_subscription := False \<rparr>))))"

definition on_parameter_event :: "time_env \<Rightarrow> 'd ParameterEvent \<Rightarrow> unit source_act" where
  "on_parameter_event env event =
     bindA (getA node_name) (\<lambda>n. case n of
       None \<Rightarrow> throwA (Undefined_behaviour ''null node'')
     | Some name \<Rightarrow>
         if e_node event \<noteq> name then retA ()
         else
           seqA (forA (sim_time_event env) (ParameterEventsFilter event [''use_sim_time''] [NEW, CHANGED]))
             (forA (\<lambda>_. modA (\<lambda>s. s\<lparr> param_state := UNSET \<rparr>)) (ParameterEventsFilter event [''use_sim_time''] [DELETED])))"
section \<open>What the operations do to a clock\<close>

interpretation same_data: step_relation "\<lambda>c c'. ct_type c' = ct_type c \<and> has_get_now c' = has_get_now c \<and> clock_data c' = clock_data c"
  by unfold_locales auto

lemma data_call_callbacks: "same_data.within (rcl_clock_call_callbacks env jump b)"
proof -
  have "same_data.within (call_jump_callback env jump b i)" for i
    unfolding call_jump_callback_def on_time_jump_def
    by (cases "jump_cb i") (auto intro!: same_data.within_bind same_data.within_pure same_data.within_mod split: option.split)
  then show ?thesis unfolding rcl_clock_call_callbacks_def
    by (intro same_data.within_bind same_data.within_pure same_data.within_forA same_data.within_when)
qed

definition ros_clock :: "rcl_clock \<Rightarrow> rcl_ros_clock_storage \<Rightarrow> bool" where
  "ros_clock c d \<longleftrightarrow> ct_type c = RCL_ROS_TIME \<and> has_get_now c \<and> clock_data c = Some d"

lemma callbacks_keep: "rcl_clock_call_callbacks env jump b c = (r, c') \<Longrightarrow> ros_clock c' d \<longleftrightarrow> ros_clock c d"
  using same_data.withinD [OF data_call_callbacks] by (simp add: ros_clock_def)

lemma switch_override_Ok:
  assumes "switch_override env b c = (Ok ret, c')" "ros_clock c d"
  shows "ret = RCL_RET_OK \<and> ros_clock c' (d\<lparr> active := b \<rparr>)"
proof (cases "active d = b")
  case True
  then show ?thesis using assms by (auto simp: switch_override_def ros_clock_def act_eval)
next
  case False
  let ?j = "\<lparr> clock_change = (if b then RCL_ROS_TIME_ACTIVATED else RCL_ROS_TIME_DEACTIVATED), delta = 0 \<rparr>"
  obtain c1 c2 where c1: "rcl_clock_call_callbacks env ?j True c = (Ok (), c1)" and c2: "ret = RCL_RET_OK"
      "rcl_clock_call_callbacks env ?j False (c1\<lparr> clock_data := map_option (\<lambda>d. d\<lparr> active := b \<rparr>) (clock_data c1) \<rparr>) = (Ok (), c')"
    using assms False by (auto simp: switch_override_def ros_clock_def set_active_def seqA_Ok Let_def act_eval)
  have "ros_clock c1 d" using callbacks_keep [OF c1] assms(2) by simp
  then have "ros_clock (c1\<lparr> clock_data := map_option (\<lambda>d. d\<lparr> active := b \<rparr>) (clock_data c1) \<rparr>) (d\<lparr> active := b \<rparr>)" by (simp add: ros_clock_def)
  then show ?thesis using callbacks_keep [OF c2(2)] c2(1) by simp
qed

lemma set_override_Ok:
  assumes "rcl_set_ros_time_override env v c = (Ok ret, c')" "ros_clock c d"
  shows "ret = RCL_RET_OK \<and> ros_clock c' (d\<lparr> current_time := v \<rparr>)"
proof (cases "active d")
  case False
  then show ?thesis using assms by (auto simp: rcl_set_ros_time_override_def ros_clock_def Let_def act_eval)
next
  case True
  then obtain dt where dt: "i64_sub v (current_time d) = Ok dt"
    using assms by (cases "i64_sub v (current_time d)") (simp_all add: rcl_set_ros_time_override_def ros_clock_def Let_def act_eval)
  obtain c1 where c1: "rcl_clock_call_callbacks env \<lparr> clock_change = RCL_ROS_TIME_NO_CHANGE, delta = dt \<rparr> True c = (Ok (), c1)" and c2: "ret = RCL_RET_OK"
      "rcl_clock_call_callbacks env \<lparr> clock_change = RCL_ROS_TIME_NO_CHANGE, delta = dt \<rparr> False (c1\<lparr> clock_data := map_option (\<lambda>d. d\<lparr> current_time := v \<rparr>) (clock_data c1) \<rparr>) = (Ok (), c')"
    using assms True dt by (auto simp: rcl_set_ros_time_override_def ros_clock_def seqA_Ok Let_def act_eval)
  have "ros_clock c1 d" using callbacks_keep [OF c1] assms(2) by simp
  then have "ros_clock (c1\<lparr> clock_data := map_option (\<lambda>d. d\<lparr> current_time := v \<rparr>) (clock_data c1) \<rparr>) (d\<lparr> current_time := v \<rparr>)" by (simp add: ros_clock_def)
  then show ?thesis using callbacks_keep [OF c2(2)] c2(1) by simp
qed

text \<open>The nanoseconds of a message.\<close>

definition msg_ns :: "stamp_msg \<Rightarrow> int" where
  "msg_ns m = (case Time_of_msg m RCL_ROS_TIME of Inl _ \<Rightarrow> 0 | Inr t \<Rightarrow> time_ns t)"

lemma on_clock_Ok: "on_clock k m s = (Ok x, s') \<Longrightarrow> \<exists>c. m (all_clocks s k) = (Ok x, c) \<and> s' = s\<lparr> all_clocks := (all_clocks s)(k := c) \<rparr>"
  by (auto simp: on_clock_def split: prod.splits)

lemma set_clock_Ok:
  assumes "set_clock env msg b k s = (Ok (), s')" "ros_clock (all_clocks s k) d"
  shows "\<exists>c. s' = s\<lparr> all_clocks := (all_clocks s)(k := c) \<rparr> \<and> ros_clock c \<lparr> current_time = msg_ns msg, active = b \<rparr>"
proof -
  have act: "ros_time_is_active (all_clocks s k) = Ok (active d)"
    using assms(2) by (simp add: ros_time_is_active_def ros_clock_def rcl_clock_valid_def rcl_is_enabled_ros_time_override_def)
  obtain s1 t where s1: "(if \<not> b \<and> active d then disable_clock env k else if b \<and> \<not> active d then enable_clock env k else retA ()) s = (Ok (), s1)"
      "Time_of_msg msg RCL_ROS_TIME = Ok t"
      "bindA (on_clock k (rcl_set_ros_time_override env (time_ns t))) (unless_ok ''Failed to set ros_time_override_status'') s1 = (Ok (), s')"
    using assms(1) act unfolding set_clock_def by (auto simp: bindA_Ok seqA_Ok act_eval)
  have "\<exists>c. s1 = s\<lparr> all_clocks := (all_clocks s)(k := c) \<rparr> \<and> ros_clock c (d\<lparr> active := b \<rparr>)"
  proof (cases "active d = b")
    case True
    then have "s1 = s" using s1(1) by (auto simp: act_eval split: if_splits)
    moreover have "s = s\<lparr> all_clocks := (all_clocks s)(k := all_clocks s k) \<rparr>" by simp
    moreover have "d\<lparr> active := b \<rparr> = d" using True by simp
    ultimately show ?thesis using assms(2) by (intro exI [of _ "all_clocks s k"]) simp
  next
    case False
    then have "bindA (on_clock k (switch_override env b)) (unless_ok ''Failed to enable ros_time_override_status'') s = (Ok (), s1)"
      using s1(1) by (cases b) (auto simp: enable_clock_def disable_clock_def rcl_enable_ros_time_override_def rcl_disable_ros_time_override_def)
    then obtain ret u where u: "on_clock k (switch_override env b) s = (Ok ret, u)" "unless_ok ''Failed to enable ros_time_override_status'' ret u = (Ok (), s1)"
      by (auto simp: bindA_Ok)
    then have "u = s1" by (auto simp: unless_ok_def act_eval split: if_splits)
    then show ?thesis using on_clock_Ok [OF u(1)] switch_override_Ok assms(2) by blast
  qed
  then obtain c where c: "s1 = s\<lparr> all_clocks := (all_clocks s)(k := c) \<rparr>" "ros_clock c (d\<lparr> active := b \<rparr>)" by blast
  obtain ret u where u: "on_clock k (rcl_set_ros_time_override env (time_ns t)) s1 = (Ok ret, u)" "unless_ok ''Failed to set ros_time_override_status'' ret u = (Ok (), s')"
    using s1(3) by (auto simp: bindA_Ok)
  then have "u = s'" by (auto simp: unless_ok_def act_eval split: if_splits)
  then obtain c' where c': "rcl_set_ros_time_override env (time_ns t) c = (Ok ret, c')" "s' = s1\<lparr> all_clocks := (all_clocks s1)(k := c') \<rparr>"
    using on_clock_Ok [OF u(1)] c(1) by auto
  have "ros_clock c' (d\<lparr> active := b, current_time := time_ns t \<rparr>)" using set_override_Ok [OF c'(1) c(2)] by simp
  moreover have "d\<lparr> active := b, current_time := time_ns t \<rparr> = \<lparr> current_time = msg_ns msg, active = b \<rparr>" using s1(2) by (simp add: msg_ns_def)
  ultimately show ?thesis using c(1) c'(2) by auto
qed

section \<open>The clocks follow the parameter\<close>

definition all_show :: "bool \<Rightarrow> int \<Rightarrow> nat list \<Rightarrow> time_source \<Rightarrow> bool" where
  "all_show b v ks s \<longleftrightarrow> (\<forall>k \<in> set ks. \<exists>d. ros_clock (all_clocks s k) d \<and> active d = b \<and> (b \<longrightarrow> current_time d = v))"

definition source_inv :: "time_source \<Rightarrow> bool" where
  "source_inv s \<longleftrightarrow> (ros_time_active s \<longrightarrow> param_state s = SET_TRUE) \<and> (clock_subscription s \<longleftrightarrow> ros_time_active s) \<and>
     all_show (ros_time_active s) (msg_ns (time_msg s)) (associated_clocks s) s"

lemma forA_set_clock:
  "\<lbrakk> forA (set_clock env msg b) ks s = (Ok (), s'); \<And>k. k \<in> set ks \<Longrightarrow> \<exists>d. ros_clock (all_clocks s k) d \<rbrakk> \<Longrightarrow>
     \<exists>cs. s' = s\<lparr> all_clocks := cs \<rparr> \<and> (\<forall>k. k \<notin> set ks \<longrightarrow> cs k = all_clocks s k) \<and>
       (\<forall>k \<in> set ks. ros_clock (cs k) \<lparr> current_time = msg_ns msg, active = b \<rparr>)"
proof (induction ks arbitrary: s)
  case Nil
  then have "s' = s\<lparr> all_clocks := all_clocks s \<rparr>" by (simp add: act_eval)
  then show ?case by (intro exI [of _ "all_clocks s"]) simp
next
  case (Cons k ks)
  obtain s1 where s1: "set_clock env msg b k s = (Ok (), s1)" "forA (set_clock env msg b) ks s1 = (Ok (), s')"
    using Cons.prems(1) by (auto simp: seqA_Ok)
  obtain d where "ros_clock (all_clocks s k) d" using Cons.prems(2) by auto
  from set_clock_Ok [OF s1(1) this] obtain c where c: "s1 = s\<lparr> all_clocks := (all_clocks s)(k := c) \<rparr>" "ros_clock c \<lparr> current_time = msg_ns msg, active = b \<rparr>" by blast
  have "\<exists>d. ros_clock (all_clocks s1 j) d" if "j \<in> set ks" for j using c Cons.prems(2) that by auto
  from Cons.IH [OF s1(2) this] obtain cs where cs: "s' = s1\<lparr> all_clocks := cs \<rparr>" "\<forall>j. j \<notin> set ks \<longrightarrow> cs j = all_clocks s1 j"
      "\<forall>j \<in> set ks. ros_clock (cs j) \<lparr> current_time = msg_ns msg, active = b \<rparr>" by auto
  then show ?case using c by (intro exI [of _ cs]) auto
qed

lemma set_all_shows:
  assumes "forA (set_clock env msg b) ks s = (Ok (), s')" "all_show b' v ks s"
  shows "all_show b (msg_ns msg) ks s' \<and> (\<exists>cs. s' = s\<lparr> all_clocks := cs \<rparr>)"
proof -
  have "\<exists>d. ros_clock (all_clocks s k) d" if "k \<in> set ks" for k using assms(2) that by (auto simp: all_show_def)
  from forA_set_clock [OF assms(1) this] obtain cs where cs: "s' = s\<lparr> all_clocks := cs \<rparr>"
      "\<forall>k \<in> set ks. ros_clock (cs k) \<lparr> current_time = msg_ns msg, active = b \<rparr>" by blast
  have "all_show b (msg_ns msg) ks s'" unfolding all_show_def
  proof
    fix k assume "k \<in> set ks"
    then show "\<exists>d. ros_clock (all_clocks s' k) d \<and> active d = b \<and> (b \<longrightarrow> current_time d = msg_ns msg)"
      using cs by (intro exI [of _ "\<lparr> current_time = msg_ns msg, active = b \<rparr>"]) simp
  qed
  with cs(1) show ?thesis by blast
qed

lemma all_show_fields: "all_clocks s' = all_clocks s \<Longrightarrow> all_show b v ks s' = all_show b v ks s"
  by (simp add: all_show_def)

lemma enable_inv:
  assumes "enable_ros_time env s = (Ok (), s')" "all_show (ros_time_active s) (msg_ns (time_msg s)) (associated_clocks s) s"
  shows "ros_time_active s' \<and> (\<exists>cs. s' = s\<lparr> ros_time_active := True, all_clocks := cs \<rparr>) \<and> all_show True (msg_ns (time_msg s)) (associated_clocks s) s'"
proof (cases "ros_time_active s")
  case True
  then have "s' = s" using assms(1) by (simp add: enable_ros_time_def act_eval)
  then show ?thesis using True assms(2) by (intro conjI exI [of _ "all_clocks s"]) simp_all
next
  case False
  let ?s = "s\<lparr> ros_time_active := True \<rparr>"
  have f: "forA (set_clock env (time_msg s) True) (associated_clocks s) ?s = (Ok (), s')"
    using assms(1) False by (simp add: enable_ros_time_def act_eval time_msg_def)
  have "all_show False (msg_ns (time_msg s)) (associated_clocks s) ?s" using assms(2) False by (simp add: all_show_def)
  from set_all_shows [OF f this] show ?thesis by auto
qed

lemma disable_inv:
  assumes "disable_ros_time env s = (Ok (), s')" "all_show (ros_time_active s) v (associated_clocks s) s"
  shows "\<not> ros_time_active s' \<and> (\<exists>cs. s' = s\<lparr> ros_time_active := False, all_clocks := cs \<rparr>) \<and> all_show False w (associated_clocks s) s'"
proof (cases "ros_time_active s")
  case False
  then have "s' = s" using assms(1) by (simp add: disable_ros_time_def act_eval)
  then show ?thesis using False assms(2) by (intro conjI exI [of _ "all_clocks s"]) (simp_all add: all_show_def)
next
  case True
  let ?s = "s\<lparr> ros_time_active := False \<rparr>"
  have f: "forA (set_clock env zero_msg False) (associated_clocks s) ?s = (Ok (), s')"
    using assms(1) True by (simp add: disable_ros_time_def act_eval)
  have "all_show True v (associated_clocks s) ?s" using assms(2) True by (simp add: all_show_def)
  from set_all_shows [OF f this] show ?thesis by (auto simp: all_show_def)
qed

text \<open>
  What may happen to a time source: nodes and clocks are attached and detached, messages arrive and parameters change. Three
  things are left out: detaching the node while ROS time is active and deleting the parameter \<open>use_sim_time\<close> while ROS time
  is active, which leave the clocks standing still as is shown below, and operations that are left by an exception.
\<close>

definition keeps_sim_time :: "'d ParameterEvent \<Rightarrow> bool" where
  "keeps_sim_time event \<longleftrightarrow> \<not> list_ex (\<lambda>p. p_name p = ''use_sim_time'') (deleted_parameters event)"

inductive source_step :: "time_source \<Rightarrow> time_source \<Rightarrow> bool" where
  attach_node: "attachNode env name (sim :: int ParameterValue res) s = (Ok (), s') \<Longrightarrow> source_step s s'"
| attach_clock: "\<exists>d. ros_clock (all_clocks s k) d \<Longrightarrow> attachClock env k s = (Ok (), s') \<Longrightarrow> source_step s s'"
| detach_clock: "detachClock k s = (Ok (), s') \<Longrightarrow> source_step s s'"
| clock_message: "clock_subscription s \<Longrightarrow> clock_cb env msg s = (Ok (), s') \<Longrightarrow> source_step s s'"
| parameter_event: "parameter_subscription s \<Longrightarrow> on_parameter_event env (event :: int ParameterEvent) s = (Ok (), s') \<Longrightarrow>
    keeps_sim_time event \<or> \<not> ros_time_active s' \<Longrightarrow> source_step s s'"
| detach_node: "\<not> ros_time_active s \<Longrightarrow> detachNode env s = (Ok (), s') \<Longrightarrow> source_step s s'"

inductive source_reach :: "time_source \<Rightarrow> bool" where
  init: "source_reach (TimeSource_init p cs)"
| step: "source_reach s \<Longrightarrow> source_step s s' \<Longrightarrow> source_reach s'"

lemma switch_on_inv:
  assumes "source_inv s" "seqA (modA (\<lambda>s. s\<lparr> param_state := SET_TRUE \<rparr>)) (seqA (enable_ros_time env) (modA (\<lambda>s. s\<lparr> clock_subscription := True \<rparr>))) s = (Ok (), s')"
  shows "source_inv s'"
proof -
  let ?s = "s\<lparr> param_state := SET_TRUE \<rparr>"
  obtain s1 where s1: "enable_ros_time env ?s = (Ok (), s1)" "s' = s1\<lparr> clock_subscription := True \<rparr>"
    using assms(2) by (auto simp: seqA_Ok act_eval)
  have t: "time_msg ?s = time_msg s" by (simp add: time_msg_def)
  have "all_show (ros_time_active ?s) (msg_ns (time_msg ?s)) (associated_clocks ?s) ?s"
    using assms(1) by (simp add: source_inv_def t all_show_def)
  from enable_inv [OF s1(1) this] obtain cs where "s1 = ?s\<lparr> ros_time_active := True, all_clocks := cs \<rparr>" "all_show True (msg_ns (time_msg s)) (associated_clocks s) s1"
    by (auto simp: t)
  then show ?thesis by (simp add: source_inv_def s1(2) time_msg_def all_show_def)
qed

lemma switch_off_inv:
  assumes "source_inv s" "seqA (modA (\<lambda>s. s\<lparr> param_state := SET_FALSE \<rparr>)) (seqA (disable_ros_time env) (modA (\<lambda>s. s\<lparr> clock_subscription := False \<rparr>))) s = (Ok (), s')"
  shows "source_inv s'"
proof -
  let ?s = "s\<lparr> param_state := SET_FALSE \<rparr>"
  obtain s1 where s1: "disable_ros_time env ?s = (Ok (), s1)" "s' = s1\<lparr> clock_subscription := False \<rparr>"
    using assms(2) by (auto simp: seqA_Ok act_eval)
  have "all_show (ros_time_active ?s) (msg_ns (time_msg s)) (associated_clocks ?s) ?s"
    using assms(1) by (simp add: source_inv_def all_show_def)
  from disable_inv [OF s1(1) this] obtain cs where "s1 = ?s\<lparr> ros_time_active := False, all_clocks := cs \<rparr>" "all_show False 0 (associated_clocks s) s1" by auto
  then show ?thesis by (simp add: source_inv_def s1(2) all_show_def)
qed

lemma sim_time_event_inv: "source_inv s \<Longrightarrow> sim_time_event env e s = (Ok (), s') \<Longrightarrow> source_inv s'"
  unfolding sim_time_event_def case_prod_unfold
  by (cases "bool_value (p_value (snd e))"; cases "v_type (p_value (snd e)) = PARAMETER_BOOL")
    (auto simp: act_eval intro: switch_on_inv switch_off_inv simp del: seqA_prim seqA_modA)

lemma sim_time_events_inv: "source_inv s \<Longrightarrow> forA (sim_time_event env) es s = (Ok (), s') \<Longrightarrow> source_inv s'"
proof (induction es arbitrary: s)
  case (Cons e es)
  then obtain u where "sim_time_event env e s = (Ok (), u)" "forA (sim_time_event env) es u = (Ok (), s')" by (auto simp: seqA_Ok)
  then show ?case using Cons.IH sim_time_event_inv Cons.prems(1) by blast
qed (simp add: act_eval)

lemma clock_cb_inv:
  assumes "source_inv s" "clock_subscription s" "clock_cb env msg s = (Ok (), s')"
  shows "source_inv s'"
proof -
  have on: "ros_time_active s" "param_state s = SET_TRUE" using assms(1,2) by (auto simp: source_inv_def)
  let ?s = "s\<lparr> last_msg_set := Some msg \<rparr>"
  have f: "forA (set_clock env msg True) (associated_clocks s) ?s = (Ok (), s')"
    using assms(3) on by (simp add: clock_cb_def act_eval bindA_eval seqA_eval)
  have "all_show True (msg_ns (time_msg s)) (associated_clocks s) ?s" using assms(1) on by (simp add: source_inv_def all_show_def)
  from set_all_shows [OF f this] obtain cs where "s' = ?s\<lparr> all_clocks := cs \<rparr>" "all_show True (msg_ns msg) (associated_clocks s) s'" by blast
  then show ?thesis using assms(1) on by (simp add: source_inv_def time_msg_def all_show_def)
qed

lemma attach_clock_inv:
  assumes "source_inv s" "ros_clock (all_clocks s k) d" "attachClock env k s = (Ok (), s')"
  shows "source_inv s'"
proof -
  let ?s = "s\<lparr> associated_clocks := associated_clocks s @ [k] \<rparr>"
  have "set_clock env (time_msg s) (ros_time_active s) k ?s = (Ok (), s')"
    using assms(2,3) by (simp add: attachClock_def ros_clock_def act_eval time_msg_def)
  from set_clock_Ok [OF this] assms(2) obtain c where c: "s' = ?s\<lparr> all_clocks := (all_clocks s)(k := c) \<rparr>"
      "ros_clock c \<lparr> current_time = msg_ns (time_msg s), active = ros_time_active s \<rparr>" by auto
  then show ?thesis using assms(1) by (auto simp: source_inv_def all_show_def time_msg_def)
qed

lemma deletions_unset:
  "forA (\<lambda>_. modA (\<lambda>s. s\<lparr> param_state := UNSET \<rparr>)) es u = (Ok (), s') \<Longrightarrow>
    s' = u \<and> es = [] \<or> s' = u\<lparr> param_state := UNSET \<rparr> \<and> es \<noteq> []"
proof (induction es arbitrary: u)
  case (Cons e es)
  then have "forA (\<lambda>_. modA (\<lambda>s. s\<lparr> param_state := UNSET \<rparr>)) es (u\<lparr> param_state := UNSET \<rparr>) = (Ok (), s')" by simp
  from Cons.IH [OF this] show ?case by auto
qed (simp add: act_eval)

lemma source_step_inv: "source_step s s' \<Longrightarrow> source_inv s \<Longrightarrow> source_inv s'"
proof (induction rule: source_step.induct)
  case (attach_node env name sim s s')
  then obtain v u where v: "sim = Ok v" "s' = u\<lparr> parameter_subscription := True \<rparr>"
      "whenA (v_type v = PARAMETER_BOOL \<and> bool_value v) (seqA (modA (\<lambda>s. s\<lparr> param_state := SET_TRUE \<rparr>))
        (seqA (enable_ros_time env) (modA (\<lambda>s. s\<lparr> clock_subscription := True \<rparr>)))) (s\<lparr> node_name := Some name \<rparr>) = (Ok (), u)"
    by (cases sim) (auto simp: attachNode_def seqA_Ok act_eval)
  have "source_inv (s\<lparr> node_name := Some name \<rparr>)" using attach_node.prems by (simp add: source_inv_def all_show_def time_msg_def)
  then have "source_inv u" using v(3) switch_on_inv by (auto simp: whenA_def act_eval split: if_splits simp del: seqA_modA)
  then show ?case by (simp add: v(2) source_inv_def all_show_def time_msg_def)
next
  case (detach_clock k s s')
  then have "s' = s\<lparr> associated_clocks := remove1 k (associated_clocks s) \<rparr>" by (simp add: detachClock_def act_eval)
  then show ?case using detach_clock.prems set_remove1_subset by (fastforce simp: source_inv_def all_show_def time_msg_def)
next
  case (parameter_event s env event s')
  then consider "s' = s" | u where "forA (sim_time_event env) (ParameterEventsFilter event [''use_sim_time''] [NEW, CHANGED]) s = (Ok (), u)"
      "forA (\<lambda>_. modA (\<lambda>s. s\<lparr> param_state := UNSET \<rparr>)) (ParameterEventsFilter event [''use_sim_time''] [DELETED]) u = (Ok (), s')"
    by (auto simp: on_parameter_event_def seqA_Ok act_eval split: option.splits if_splits)
  then show ?case
  proof cases
    case 1
    then show ?thesis using parameter_event.prems by simp
  next
    case (2 u)
    have u: "source_inv u" using sim_time_events_inv [OF parameter_event.prems 2(1)] .
    from deletions_unset [OF 2(2)] show ?thesis
    proof
      assume "s' = u \<and> ParameterEventsFilter event [''use_sim_time''] [DELETED] = []"
      with u show ?thesis by simp
    next
      assume s': "s' = u\<lparr> param_state := UNSET \<rparr> \<and> ParameterEventsFilter event [''use_sim_time''] [DELETED] \<noteq> []"
      then have "\<not> keeps_sim_time event"
        by (auto simp: ParameterEventsFilter_def events_of_def keeps_sim_time_def list_ex_iff filter_empty_conv)
      then show ?thesis using u s' parameter_event.hyps(3) by (simp add: source_inv_def all_show_def time_msg_def)
    qed
  qed
next
  case (detach_node s env s')
  then have "s' = s\<lparr> ros_time_active := False, clock_subscription := False, parameter_subscription := False, node_name := None \<rparr>"
    by (simp add: detachNode_def disable_ros_time_def act_eval)
  then show ?case using detach_node by (simp add: source_inv_def all_show_def time_msg_def)
qed (blast intro: clock_cb_inv attach_clock_inv)+

section \<open>The properties\<close>

lemma source_reach_inv: "source_reach s \<Longrightarrow> source_inv s"
  by (induction rule: source_reach.induct) (simp add: TimeSource_init_def source_inv_def all_show_def, rule source_step_inv)

lemma all_show_now:
  assumes "all_show b v ks s" "k \<in> set ks"
  shows "rcl_clock_get_now env (all_clocks s k) = Ok (if b then Inr v else system_now env)"
  using assms by (auto simp: all_show_def ros_clock_def rcl_clock_get_now_def rcl_get_ros_time_def)

text \<open>
  C29. Every clock attached to a time source shows the time its node asked for: whatever nodes and clocks are attached
  and detached, messages received and parameters set, as long as every operation returns and, while ROS time is active,
  neither the node is detached nor \<open>use_sim_time\<close> deleted: the source listens on \<open>/clock\<close> exactly while ROS time is active; then
  the clock shows the time of the last message received, or zero before the first one, and otherwise the system time.
  In the two excluded situations the clocks stand still, as the next results show.
\<close>

theorem attached_clocks_follow_sim_time:
  assumes "source_reach s" "k \<in> set (associated_clocks s)"
  shows "(clock_subscription s \<longleftrightarrow> ros_time_active s) \<and>
    rcl_clock_get_now env (all_clocks s k) = Ok (if ros_time_active s then Inr (msg_ns (time_msg s)) else system_now env)"
  using source_reach_inv [OF assms(1)] all_show_now [OF _ assms(2)] by (simp add: source_inv_def)

text \<open>
  C31. Detaching the node does not give the clocks back to the system time: the time source forgets that ROS time is
  active before it disables it, so that nothing is done and every attached clock stands still at the time of the last message.
\<close>

theorem detached_clocks_stand_still:
  assumes "source_reach s" "ros_time_active s" "k \<in> set (associated_clocks s)"
  shows "\<exists>s'. detachNode env s = (Ok (), s') \<and> \<not> ros_time_active s' \<and> rcl_clock_get_now env' (all_clocks s' k) = Ok (Inr (msg_ns (time_msg s)))"
proof -
  have "rcl_clock_get_now env' (all_clocks s k) = Ok (Inr (msg_ns (time_msg s)))"
    using source_reach_inv [OF assms(1)] all_show_now [OF _ assms(3), of True] assms(2) by (simp add: source_inv_def)
  then show ?thesis by (simp add: detachNode_def disable_ros_time_def act_eval)
qed

text \<open>When \<open>use_sim_time\<close> is deleted, the clocks stand still as well: messages are no longer passed on.\<close>

lemma deleted_sim_time_ignores_messages:
  "param_state s = UNSET \<Longrightarrow> clock_cb env msg s = (Ok (), s\<lparr> last_msg_set := Some msg \<rparr>)"
  by (simp add: clock_cb_def act_eval bindA_eval seqA_eval)

text \<open>A source with one clock, whose node sets \<open>use_sim_time\<close> and which has received the time of five seconds.\<close>

definition demo_env :: time_env where
  "demo_env = \<lparr> system_now = Inr 70, steady_now = Inr 80 \<rparr>"

definition demo_plain_clock :: rcl_clock where
  "demo_plain_clock = \<lparr> ct_type = RCL_ROS_TIME, has_get_now = True, clock_data = Some \<lparr> current_time = 0, active = False \<rparr>, jump_callbacks = [],
     clock_timers = (\<lambda>_. None), jump_handlers = (\<lambda>_. None), handler_calls = [] \<rparr>"

definition demo_source_run :: "unit source_act" where
  "demo_source_run = seqA (attachClock demo_env 7) (seqA (attachNode demo_env ''/n'' (Ok ((empty_value (0 :: int))\<lparr> v_type := PARAMETER_BOOL, bool_value := True \<rparr>)))
     (clock_cb demo_env \<lparr> sec = 5, nanosec = 3 \<rparr>))"

definition demo_source :: time_source where
  "demo_source = snd (demo_source_run (TimeSource_init UNSET (\<lambda>_. demo_plain_clock)))"

lemmas source_defs = attachClock_def attachNode_def clock_cb_def set_clock_def enable_ros_time_def time_msg_def enable_clock_def disable_clock_def on_clock_def unless_ok_def
  ros_time_is_active_def rcl_clock_valid_def rcl_is_enabled_ros_time_override_def rcl_enable_ros_time_override_def switch_override_def set_active_def
  rcl_clock_call_callbacks_def rcl_set_ros_time_override_def TimeSource_init_def demo_plain_clock_def zero_msg_def

lemma demo_times:
  "Time_of_msg \<lparr> sec = 0, nanosec = 0 \<rparr> ct = Ok \<lparr> time_ns = 0, clock_type = ct \<rparr>"
  "Time_of_msg \<lparr> sec = 5, nanosec = 3 \<rparr> ct = Ok \<lparr> time_ns = 5000000003, clock_type = ct \<rparr>"
  by (simp_all add: Time_of_msg_def i64_mul_def i64_add_def in_i64_def)

lemma demo_attach_clock:
  "attachClock demo_env 7 (TimeSource_init UNSET (\<lambda>_. demo_plain_clock)) = (Ok (), (TimeSource_init UNSET (\<lambda>_. demo_plain_clock))\<lparr> associated_clocks := [7] \<rparr>)"
  by (simp add: source_defs act_simps Let_def demo_times fun_eq_iff)

lemma demo_source_steps:
  "fst (demo_source_run (TimeSource_init UNSET (\<lambda>_. demo_plain_clock))) = Ok ()"
  "ros_time_active demo_source" "associated_clocks demo_source = [7]" "last_msg_set demo_source = Some \<lparr> sec = 5, nanosec = 3 \<rparr>"
  by (simp_all add: demo_source_def demo_source_run_def demo_attach_clock seqA_eval) (simp_all add: source_defs act_simps Let_def demo_times i64_sub_def in_i64_def)

lemma attachNode_subscribes: "attachNode env name (Ok (v\<lparr> v_type := PARAMETER_BOOL, bool_value := True \<rparr>)) s = (Ok (), s') \<Longrightarrow> clock_subscription s'"
  by (auto simp: attachNode_def act_eval seqA_Ok)

lemma demo_source_reach: "source_reach demo_source"
proof -
  let ?init = "TimeSource_init UNSET (\<lambda>_. demo_plain_clock)" and ?v = "(empty_value (0 :: int))\<lparr> v_type := PARAMETER_BOOL, bool_value := True \<rparr>"
  have "demo_source_run ?init = (Ok (), demo_source)" using demo_source_steps(1) by (simp add: demo_source_def prod_eq_iff)
  then obtain u1 u2 where u: "attachClock demo_env 7 ?init = (Ok (), u1)" "attachNode demo_env ''/n'' (Ok ?v) u1 = (Ok (), u2)"
      "clock_cb demo_env \<lparr> sec = 5, nanosec = 3 \<rparr> u2 = (Ok (), demo_source)"
    by (auto simp: demo_source_run_def seqA_Ok)
  have "\<exists>d. ros_clock (all_clocks ?init 7) d" by (simp add: TimeSource_init_def demo_plain_clock_def ros_clock_def)
  then have "source_reach u1" using source_step.attach_clock [OF _ u(1)] source_reach.init source_reach.step by blast
  then have "source_reach u2" using source_step.attach_node [OF u(2)] source_reach.step by blast
  then show ?thesis using source_step.clock_message [OF attachNode_subscribes [OF u(2)] u(3)] source_reach.step by blast
qed

lemma demo_source_ns: "msg_ns (time_msg demo_source) = 5000000003"
  by (simp add: msg_ns_def time_msg_def demo_source_steps(4) demo_times)

lemma attached_clocks_follow_sim_time_witness: "rcl_clock_get_now demo_env (all_clocks demo_source 7) = Ok (Inr 5000000003)"
  using attached_clocks_follow_sim_time [OF demo_source_reach, of 7 demo_env] by (simp add: demo_source_steps demo_source_ns)

lemma detached_clocks_stand_still_witness:
  "\<exists>s'. detachNode demo_env demo_source = (Ok (), s') \<and> rcl_clock_get_now demo_env (all_clocks s' 7) = Ok (Inr 5000000003)"
  using detached_clocks_stand_still [OF demo_source_reach demo_source_steps(2), of 7 demo_env demo_env] by (auto simp: demo_source_steps demo_source_ns)

end
