(* ===== verification/MappedRingBuffer.thy ===== *)
theory MappedRingBuffer
  imports Prelude
begin

text \<open>
  The keyed ring buffer of intra-process messages
  (\<open>rclcpp/include/rclcpp/mapped_ring_buffer.hpp\<close>). A pointer to a message is a value of
  the type \<open>'p\<close>, \<open>None\<close> is \<open>nullptr\<close>; the allocation and copy construction of a message is
  the parameter \<open>cp\<close>, the copy constructor of the message type. The locale \<open>keyed_store\<close>
  states what the intra-process manager relies on.
\<close>

section \<open>The buffer\<close>

record 'p element =
  ekey :: u64
  unique_value :: "'p option"
  shared_value :: "'p option"
  in_use :: bool

record 'p mrb =
  elements :: "'p element list"
  head :: nat

definition empty_element :: "'p element" where
  "empty_element = \<lparr>ekey = 0, unique_value = None, shared_value = None, in_use = False\<rparr>"

definition MappedRingBuffer_init :: "nat \<Rightarrow> 'p mrb res" where
  "MappedRingBuffer_init sz =
     (if sz = 0 then Err (Invalid_argument ''size must be a positive, non-zero value'')
      else Ok \<lparr>elements = replicate sz empty_element, head = 0\<rparr>)"

text \<open>The index of the first live element with the key, in storage order.\<close>

definition get_iterator_of_key :: "u64 \<Rightarrow> 'p mrb \<Rightarrow> nat option" where
  "get_iterator_of_key key b =
     find (\<lambda>i. ekey (elements b ! i) = key \<and> in_use (elements b ! i)) [0..<length (elements b)]"

definition unexpected_empty :: cpp_error where
  "unexpected_empty = Runtime_error ''Unexpected empty MappedRingBuffer element.''"

definition get_unique :: "('p \<Rightarrow> 'p) \<Rightarrow> u64 \<Rightarrow> 'p mrb \<Rightarrow> ('p option \<times> 'p mrb) res" where
  "get_unique cp key b =
     (case get_iterator_of_key key b of
        None \<Rightarrow> Ok (None, b)
      | Some i \<Rightarrow>
          (let e = elements b ! i
           in case unique_value e of
                Some p \<Rightarrow> Ok (Some (cp p), b)
              | None \<Rightarrow> (case shared_value e of
                    Some p \<Rightarrow> Ok (Some (cp p), b)
                  | None \<Rightarrow> Err unexpected_empty)))"

definition get_shared :: "u64 \<Rightarrow> 'p mrb \<Rightarrow> ('p option \<times> 'p mrb) res" where
  "get_shared key b =
     (case get_iterator_of_key key b of
        None \<Rightarrow> Ok (None, b)
      | Some i \<Rightarrow>
          (let e = elements b ! i
           in case shared_value e of
                Some p \<Rightarrow> Ok (Some p, b)
              | None \<Rightarrow> (case unique_value e of
                    None \<Rightarrow> Err unexpected_empty
                  | Some p \<Rightarrow>
                      Ok (Some p, b\<lparr>elements := (elements b)[i := e\<lparr>shared_value := Some p, unique_value := None\<rparr>]\<rparr>))))"

definition pop_unique :: "('p \<Rightarrow> 'p) \<Rightarrow> u64 \<Rightarrow> 'p mrb \<Rightarrow> ('p option \<times> 'p mrb) res" where
  "pop_unique cp key b =
     (case get_iterator_of_key key b of
        None \<Rightarrow> Ok (None, b)
      | Some i \<Rightarrow>
          (let e = elements b ! i
           in case unique_value e of
                Some p \<Rightarrow> Ok (Some p, b\<lparr>elements := (elements b)[i := e\<lparr>unique_value := None, in_use := False\<rparr>]\<rparr>)
              | None \<Rightarrow> (case shared_value e of
                    Some p \<Rightarrow> Ok (Some (cp p), b\<lparr>elements := (elements b)[i := e\<lparr>shared_value := None, in_use := False\<rparr>]\<rparr>)
                  | None \<Rightarrow> Err unexpected_empty)))"

text \<open>\<open>pop\<close> into a \<open>shared_ptr\<close> leaves the caller's \<open>value\<close> alone when the key is missing.\<close>

definition pop_shared :: "u64 \<Rightarrow> 'p option \<Rightarrow> 'p mrb \<Rightarrow> ('p option \<times> 'p mrb) res" where
  "pop_shared key value b =
     (case get_iterator_of_key key b of
        None \<Rightarrow> Ok (value, b)
      | Some i \<Rightarrow>
          (let e = elements b ! i
           in case shared_value e of
                Some p \<Rightarrow> Ok (Some p, b\<lparr>elements := (elements b)[i := e\<lparr>shared_value := None, in_use := False\<rparr>]\<rparr>)
              | None \<Rightarrow> (case unique_value e of
                    Some p \<Rightarrow> Ok (Some p, b\<lparr>elements := (elements b)[i := e\<lparr>unique_value := None, in_use := False\<rparr>]\<rparr>)
                  | None \<Rightarrow> Err unexpected_empty)))"

definition push_shared :: "u64 \<Rightarrow> 'p option \<Rightarrow> 'p mrb \<Rightarrow> bool \<times> 'p mrb" where
  "push_shared key value b =
     (let did_replace = in_use (elements b ! head b);
          e = \<lparr>ekey = key, unique_value = None, shared_value = value, in_use = True\<rparr>
      in (did_replace, b\<lparr>elements := (elements b)[head b := e], head := (head b + 1) mod length (elements b)\<rparr>))"

definition push_unique :: "u64 \<Rightarrow> 'p option \<Rightarrow> 'p mrb \<Rightarrow> bool \<times> 'p mrb" where
  "push_unique key value b =
     (let did_replace = in_use (elements b ! head b);
          e = \<lparr>ekey = key, unique_value = value, shared_value = None, in_use = True\<rparr>
      in (did_replace, b\<lparr>elements := (elements b)[head b := e], head := (head b + 1) mod length (elements b)\<rparr>))"

definition has_key :: "u64 \<Rightarrow> 'p mrb \<Rightarrow> bool" where
  "has_key key b \<longleftrightarrow> get_iterator_of_key key b \<noteq> None"

section \<open>Well-formedness and contents\<close>

definition live :: "'p mrb \<Rightarrow> nat \<Rightarrow> bool" where
  "live b i \<longleftrightarrow> i < length (elements b) \<and> in_use (elements b ! i)"

definition held :: "'p element \<Rightarrow> 'p option" where
  "held e = (case unique_value e of Some p \<Rightarrow> Some p | None \<Rightarrow> shared_value e)"

text \<open>At most one of the two pointers of an element is set, a live element holds a pointer,
  and no two live elements share a key.\<close>

definition mrb_wf :: "'p mrb \<Rightarrow> bool" where
  "mrb_wf b \<longleftrightarrow> head b < length (elements b) \<and>
     (\<forall>i. live b i \<longrightarrow> held (elements b ! i) \<noteq> None) \<and>
     (\<forall>i. live b i \<longrightarrow> unique_value (elements b ! i) = None \<or> shared_value (elements b ! i) = None) \<and>
     (\<forall>i j. live b i \<longrightarrow> live b j \<longrightarrow> ekey (elements b ! i) = ekey (elements b ! j) \<longrightarrow> i = j)"

definition stored :: "'p mrb \<Rightarrow> u64 \<Rightarrow> 'p option" where
  "stored b key = (case get_iterator_of_key key b of None \<Rightarrow> None | Some i \<Rightarrow> held (elements b ! i))"

lemma iterator_Some:
  "get_iterator_of_key key b = Some i \<Longrightarrow> live b i \<and> ekey (elements b ! i) = key"
  by (auto simp: get_iterator_of_key_def find_Some_iff live_def)

lemma iterator_None:
  "get_iterator_of_key key b = None \<longleftrightarrow> (\<forall>i. live b i \<longrightarrow> ekey (elements b ! i) \<noteq> key)"
  by (auto simp: get_iterator_of_key_def find_None_iff live_def)

lemma wf_unique:
  "mrb_wf b \<Longrightarrow> live b i \<Longrightarrow> live b j \<Longrightarrow> ekey (elements b ! i) = ekey (elements b ! j) \<Longrightarrow> i = j"
  by (simp add: mrb_wf_def)

lemma iterator_eq:
  assumes "mrb_wf b"
  shows "get_iterator_of_key key b = Some i \<longleftrightarrow> live b i \<and> ekey (elements b ! i) = key"
proof
  assume r: "live b i \<and> ekey (elements b ! i) = key"
  then obtain j where j: "get_iterator_of_key key b = Some j"
    by (cases "get_iterator_of_key key b") (auto simp: iterator_None)
  then have "j = i" using iterator_Some [OF j] r assms unfolding mrb_wf_def by blast
  then show "get_iterator_of_key key b = Some i" using j by simp
qed (rule iterator_Some)

lemma stored_Some:
  assumes "mrb_wf b"
  shows "stored b key = Some p \<longleftrightarrow> (\<exists>i. live b i \<and> ekey (elements b ! i) = key \<and> held (elements b ! i) = Some p)"
proof (cases "get_iterator_of_key key b")
  case None
  then show ?thesis using iterator_None [of key b] by (auto simp: stored_def)
next
  case (Some i)
  then have "live b j \<and> ekey (elements b ! j) = key \<longleftrightarrow> j = i" for j
    using iterator_eq [OF assms, of key] by (metis option.inject)
  then have "(\<exists>j. live b j \<and> ekey (elements b ! j) = key \<and> held (elements b ! j) = Some p) \<longleftrightarrow> held (elements b ! i) = Some p"
    by metis
  then show ?thesis using Some by (simp add: stored_def)
qed

lemma stored_None:
  assumes "mrb_wf b"
  shows "stored b key = None \<longleftrightarrow> get_iterator_of_key key b = None"
  using assms iterator_Some by (fastforce simp: stored_def mrb_wf_def split: option.splits)

subsection \<open>Replacing one element\<close>

definition set_element :: "nat \<Rightarrow> 'p element \<Rightarrow> 'p mrb \<Rightarrow> 'p mrb" where
  "set_element i e b = b\<lparr>elements := (elements b)[i := e]\<rparr>"

lemma live_set_element:
  "live (set_element i e b) j \<longleftrightarrow> (if j = i then i < length (elements b) \<and> in_use e else live b j)"
  by (auto simp: live_def set_element_def nth_list_update)

lemma nth_set_element:
  "elements (set_element i e b) ! j = (if j = i \<and> i < length (elements b) then e else elements b ! j)"
  by (auto simp: set_element_def list_update_beyond)

lemma live_less: "live b i \<Longrightarrow> i < length (elements b)"
  by (simp add: live_def)

lemma wf_release:
  assumes "mrb_wf b" and "\<not> in_use e"
  shows "mrb_wf (set_element i e b)"
proof -
  have "live (set_element i e b) j \<Longrightarrow> live b j \<and> elements (set_element i e b) ! j = elements b ! j" for j
    using assms(2) by (auto simp: live_set_element nth_set_element dest: live_less split: if_splits)
  then show ?thesis using assms(1) unfolding mrb_wf_def by (simp add: set_element_def)
qed

lemma stored_release:
  assumes "mrb_wf b" and "\<not> in_use e" and "live b i"
  shows "stored (set_element i e b) = (stored b)(ekey (elements b ! i) := None)"
proof
  fix k
  have eq: "stored (set_element i e b) k = Some p \<longleftrightarrow> k \<noteq> ekey (elements b ! i) \<and> stored b k = Some p" for p
  proof -
    have "stored (set_element i e b) k = Some p \<longleftrightarrow>
        (\<exists>j. j \<noteq> i \<and> live b j \<and> ekey (elements b ! j) = k \<and> held (elements b ! j) = Some p)"
      unfolding stored_Some [OF wf_release [OF assms(1,2)]]
      using assms(2) by (auto simp: live_set_element nth_set_element dest: live_less split: if_splits)
    then show ?thesis
      unfolding stored_Some [OF assms(1)] using wf_unique [OF assms(1)] assms(3) by metis
  qed
  show "stored (set_element i e b) k = ((stored b)(ekey (elements b ! i) := None)) k"
    by (rule option_eqI_Some) (use eq in auto)
qed

lemma wf_same_key:
  assumes "mrb_wf b" and "live b i" and "ekey e = ekey (elements b ! i)" and "held e \<noteq> None"
    and "unique_value e = None \<or> shared_value e = None"
  shows "mrb_wf (set_element i e b)"
proof -
  have "live (set_element i e b) j \<Longrightarrow> live b j \<and> ekey (elements (set_element i e b) ! j) = ekey (elements b ! j) \<and>
      (elements (set_element i e b) ! j = e \<or> elements (set_element i e b) ! j = elements b ! j)" for j
    using assms(2,3) by (auto simp: live_set_element nth_set_element dest: live_less split: if_splits)
  then show ?thesis using assms unfolding mrb_wf_def by (simp add: set_element_def) metis
qed

lemma stored_same_key:
  assumes "mrb_wf b" and "live b i" and "ekey e = ekey (elements b ! i)" and "held e = held (elements b ! i)"
    and "in_use e" and "unique_value e = None \<or> shared_value e = None"
  shows "stored (set_element i e b) = stored b"
proof
  fix k
  have "held e \<noteq> None" using assms unfolding mrb_wf_def by metis
  note wf = wf_same_key [OF assms(1-3) this assms(6)]
  have "stored (set_element i e b) k = Some p \<longleftrightarrow> stored b k = Some p" for p
    unfolding stored_Some [OF wf] stored_Some [OF assms(1)]
    using assms(2-5) by (auto simp: live_set_element nth_set_element dest: live_less split: if_splits)
  then show "stored (set_element i e b) k = stored b k" by (metis option.exhaust)
qed

subsection \<open>Pushing\<close>

text \<open>The key the next push displaces.\<close>

definition victim :: "'p mrb \<Rightarrow> u64 option" where
  "victim b = (if in_use (elements b ! head b) then Some (ekey (elements b ! head b)) else None)"

lemma wf_head: "mrb_wf b \<Longrightarrow> mrb_wf (b\<lparr>head := h\<rparr>) \<longleftrightarrow> h < length (elements b)"
  by (auto simp: mrb_wf_def live_def)

lemma stored_head: "stored (b\<lparr>head := h\<rparr>) = stored b"
  by (rule ext) (simp add: stored_def get_iterator_of_key_def split: option.split)

lemma wf_insert:
  assumes "mrb_wf b" and "stored b (ekey e) = None" and "held e \<noteq> None"
    and "unique_value e = None \<or> shared_value e = None"
  shows "mrb_wf (set_element (head b) e b)"
proof -
  let ?b = "set_element (head b) e b"
  have none: "live b j \<Longrightarrow> ekey (elements b ! j) \<noteq> ekey e" for j
    using assms(2) stored_None [OF assms(1)] iterator_None by metis
  have l: "live ?b j \<Longrightarrow> (if j = head b then elements ?b ! j = e else live b j \<and> elements ?b ! j = elements b ! j)" for j
    by (auto simp: live_set_element nth_set_element dest: live_less split: if_splits)
  have uniq: "i = j" if "live ?b i" "live ?b j" "ekey (elements ?b ! i) = ekey (elements ?b ! j)" for i j
    using l [OF that(1)] l [OF that(2)] that(3) none [of i] none [of j] assms(1)
    by (auto simp: mrb_wf_def split: if_splits)
  have shape: "held (elements ?b ! j) \<noteq> None" "unique_value (elements ?b ! j) = None \<or> shared_value (elements ?b ! j) = None"
    if "live ?b j" for j
    using l [OF that] assms(1,3,4) by (auto simp: mrb_wf_def split: if_splits)
  have hd: "head ?b < length (elements ?b)" using assms(1) by (simp add: mrb_wf_def set_element_def)
  show ?thesis unfolding mrb_wf_def by (intro conjI allI impI) (assumption | rule hd shape uniq)+
qed

lemma stored_insert:
  assumes "mrb_wf b" and "stored b (ekey e) = None" and "held e \<noteq> None"
    and "unique_value e = None \<or> shared_value e = None" and "in_use e"
  shows "stored (set_element (head b) e b) k =
    (if k = ekey e then held e else if victim b = Some k then None else stored b k)"
proof -
  let ?b = "set_element (head b) e b"
  note wf = wf_insert [OF assms(1-4)]
  have h: "head b < length (elements b)" using assms(1) by (simp add: mrb_wf_def)
  have none: "live b j \<Longrightarrow> ekey (elements b ! j) \<noteq> ekey e" for j
    using assms(2) stored_None [OF assms(1)] iterator_None by metis
  have v: "victim b = Some k \<longleftrightarrow> live b (head b) \<and> ekey (elements b ! head b) = k"
    using h by (auto simp: victim_def live_def)
  have eq: "stored ?b k = Some p \<longleftrightarrow>
      (if k = ekey e then held e = Some p else victim b \<noteq> Some k \<and> stored b k = Some p)" for p
  proof -
    have "stored ?b k = Some p \<longleftrightarrow> (k = ekey e \<and> held e = Some p) \<or>
        (\<exists>j. j \<noteq> head b \<and> live b j \<and> ekey (elements b ! j) = k \<and> held (elements b ! j) = Some p)"
      unfolding stored_Some [OF wf] using assms(5) h
      by (auto simp: live_set_element nth_set_element dest: live_less split: if_splits)
    also have "\<dots> \<longleftrightarrow> (if k = ekey e then held e = Some p else victim b \<noteq> Some k \<and> stored b k = Some p)"
      unfolding stored_Some [OF assms(1)] v using none assms(1) unfolding mrb_wf_def by (metis (full_types))
    finally show ?thesis .
  qed
  show ?thesis by (rule option_eqI_Some) (use eq in simp)
qed

definition pushed :: "'p element \<Rightarrow> 'p mrb \<Rightarrow> 'p mrb" where
  "pushed e b = (set_element (head b) e b)\<lparr>head := (head b + 1) mod length (elements b)\<rparr>"

lemma push_eq:
  "snd (push_unique key v b) = pushed \<lparr>ekey = key, unique_value = v, shared_value = None, in_use = True\<rparr> b"
  "snd (push_shared key v b) = pushed \<lparr>ekey = key, unique_value = None, shared_value = v, in_use = True\<rparr> b"
  "fst (push_unique key v b) = (victim b \<noteq> None)" "fst (push_shared key v b) = (victim b \<noteq> None)"
  by (simp_all add: push_unique_def push_shared_def pushed_def set_element_def victim_def Let_def)

lemma pushed_ok:
  assumes "mrb_wf b" and "stored b (ekey e) = None" and "held e = Some p"
    and "unique_value e = None \<or> shared_value e = None" and "in_use e"
  shows "mrb_wf (pushed e b)" and "length (elements (pushed e b)) = length (elements b)"
    and "stored (pushed e b) k = (if k = ekey e then Some p else if victim b = Some k then None else stored b k)"
proof -
  have "held e \<noteq> None" using assms(3) by simp
  note i = wf_insert [OF assms(1,2) this assms(4)] stored_insert [OF assms(1,2) this assms(4,5)]
  have "length (elements b) > 0" using assms(1) by (auto simp: mrb_wf_def)
  then show "mrb_wf (pushed e b)" using i(1) by (simp add: pushed_def wf_head) (simp add: set_element_def)
  show "length (elements (pushed e b)) = length (elements b)" by (simp add: pushed_def set_element_def)
  show "stored (pushed e b) k = (if k = ekey e then Some p else if victim b = Some k then None else stored b k)"
    using i(2) assms(3) by (simp add: pushed_def stored_head)
qed

section \<open>What a client relies on\<close>

text \<open>
  A keyed store of pointers: a pushed pointer can be looked up under its fresh key, a get
  hands out the pointer or a copy and keeps the contents, a pop hands it out and removes it.
  The pointer handed out is related to the stored one by \<open>same\<close>.
\<close>

locale keyed_store =
  fixes push :: "bool \<Rightarrow> u64 \<Rightarrow> 'p \<Rightarrow> 's \<Rightarrow> 's"
    and get :: "bool \<Rightarrow> u64 \<Rightarrow> 's \<Rightarrow> ('p option \<times> 's) res"
    and pop :: "bool \<Rightarrow> u64 \<Rightarrow> 's \<Rightarrow> ('p option \<times> 's) res"
    and lookup :: "'s \<Rightarrow> u64 \<Rightarrow> 'p option"
    and wf :: "'s \<Rightarrow> bool"
    and same :: "'p \<Rightarrow> 'p \<Rightarrow> bool"
  assumes push_wf: "wf s \<Longrightarrow> lookup s k = None \<Longrightarrow> wf (push u k p s)"
    and push_lookup: "wf s \<Longrightarrow> lookup s k = None \<Longrightarrow> lookup (push u k p s) k = Some p"
    and get_some: "wf s \<Longrightarrow> lookup s k = Some p \<Longrightarrow>
      \<exists>q s'. get u k s = Ok (Some q, s') \<and> same p q \<and> wf s' \<and> lookup s' = lookup s"
    and pop_some: "wf s \<Longrightarrow> lookup s k = Some p \<Longrightarrow>
      \<exists>q s'. pop u k s = Ok (Some q, s') \<and> same p q \<and> wf s' \<and> lookup s' = (lookup s)(k := None)"
    and get_none: "wf s \<Longrightarrow> lookup s k = None \<Longrightarrow> get u k s = Ok (None, s)"
    and pop_none: "wf s \<Longrightarrow> lookup s k = None \<Longrightarrow> pop u k s = Ok (None, s)"
begin

text \<open>Serving a list of requests: all but the last get, the last one pops.\<close>

fun serve :: "u64 \<Rightarrow> bool list \<Rightarrow> 's \<Rightarrow> ('p option list \<times> 's) res" where
  "serve k [] s = Ok ([], s)"
| "serve k [u] s = bindR (pop u k s) (\<lambda>(q, s'). Ok ([q], s'))"
| "serve k (u # us) s = bindR (get u k s) (\<lambda>(q, s'). bindR (serve k us s') (\<lambda>(qs, s''). Ok (q # qs, s'')))"

lemma serve_all:
  assumes "wf s" and "lookup s k = Some p" and "us \<noteq> []"
  shows "\<exists>qs s'. serve k us s = Ok (map Some qs, s') \<and> length qs = length us \<and> (\<forall>q \<in> set qs. same p q) \<and>
           wf s' \<and> lookup s' = (lookup s)(k := None)"
  using assms
proof (induction k us s rule: serve.induct)
  case (2 k u s)
  then obtain q s' where "pop u k s = Ok (Some q, s')" "same p q" "wf s'" "lookup s' = (lookup s)(k := None)"
    using pop_some [of s k p u] by blast
  then show ?case by (intro exI [of _ "[q]"] exI [of _ s']) simp
next
  case (3 k u v vs s)
  obtain q s1 where q: "get u k s = Ok (Some q, s1)" "same p q" "wf s1" "lookup s1 = lookup s"
    using get_some [OF 3(2,3), of u] by blast
  obtain qs s' where "serve k (v # vs) s1 = Ok (map Some qs, s')" "length qs = length (v # vs)"
      "\<forall>q \<in> set qs. same p q" "wf s'" "lookup s' = (lookup s)(k := None)"
    using 3(1) [of "(Some q, s1)" "Some q" s1] q 3(3) by (auto simp: fun_upd_def)
  then show ?case using q by (intro exI [of _ "q # qs"] exI [of _ s']) simp
qed simp

end

definition mrb_push :: "bool \<Rightarrow> u64 \<Rightarrow> 'p \<Rightarrow> 'p mrb \<Rightarrow> 'p mrb" where
  "mrb_push u k p b = snd (if u then push_unique k (Some p) b else push_shared k (Some p) b)"

definition mrb_get :: "('p \<Rightarrow> 'p) \<Rightarrow> bool \<Rightarrow> u64 \<Rightarrow> 'p mrb \<Rightarrow> ('p option \<times> 'p mrb) res" where
  "mrb_get cp u k b = (if u then get_unique cp k b else get_shared k b)"

definition mrb_pop :: "('p \<Rightarrow> 'p) \<Rightarrow> bool \<Rightarrow> u64 \<Rightarrow> 'p mrb \<Rightarrow> ('p option \<times> 'p mrb) res" where
  "mrb_pop cp u k b = (if u then pop_unique cp k b else pop_shared k None b)"

lemma iterator_stored:
  assumes "mrb_wf b" and "stored b k = Some p"
  obtains i where "get_iterator_of_key k b = Some i" "live b i" "ekey (elements b ! i) = k"
    "unique_value (elements b ! i) = Some p \<and> shared_value (elements b ! i) = None \<or>
     unique_value (elements b ! i) = None \<and> shared_value (elements b ! i) = Some p"
proof -
  obtain i where i: "live b i" "ekey (elements b ! i) = k" "held (elements b ! i) = Some p"
    using assms(2) unfolding stored_Some [OF assms(1)] by (elim exE conjE)
  have "unique_value (elements b ! i) = None \<or> shared_value (elements b ! i) = None"
    using assms(1) i(1) by (auto simp: mrb_wf_def)
  moreover have "get_iterator_of_key k b = Some i" using iterator_eq [OF assms(1)] i by blast
  ultimately show ?thesis using that [of i] i by (cases "unique_value (elements b ! i)") (simp_all add: held_def)
qed

lemma mrb_get_some:
  assumes "mrb_wf b" and "stored b k = Some p"
  shows "\<exists>q b'. mrb_get cp u k b = Ok (Some q, b') \<and> (q = p \<or> q = cp p) \<and> mrb_wf b' \<and> stored b' = stored b"
proof -
  obtain i where i: "get_iterator_of_key k b = Some i" "live b i" "ekey (elements b ! i) = k"
    "unique_value (elements b ! i) = Some p \<and> shared_value (elements b ! i) = None \<or>
     unique_value (elements b ! i) = None \<and> shared_value (elements b ! i) = Some p"
    using iterator_stored [OF assms] by blast
  let ?e = "(elements b ! i)\<lparr>shared_value := Some p, unique_value := None\<rparr>"
  have "mrb_wf (set_element i ?e b)" by (rule wf_same_key [OF assms(1) i(2)]) (simp_all add: held_def)
  moreover have "in_use (elements b ! i)" using i(2) by (simp add: live_def)
  then have "stored (set_element i ?e b) = stored b"
    using i(4) by (intro stored_same_key [OF assms(1) i(2)]) (auto simp: held_def)
  ultimately show ?thesis
    using i assms(1) by (auto simp: mrb_get_def get_unique_def get_shared_def set_element_def Let_def)
qed

lemma mrb_pop_some:
  assumes "mrb_wf b" and "stored b k = Some p"
  shows "\<exists>q b'. mrb_pop cp u k b = Ok (Some q, b') \<and> (q = p \<or> q = cp p) \<and> mrb_wf b' \<and> stored b' = (stored b)(k := None)"
proof -
  obtain i where i: "get_iterator_of_key k b = Some i" "live b i" "ekey (elements b ! i) = k"
    "unique_value (elements b ! i) = Some p \<and> shared_value (elements b ! i) = None \<or>
     unique_value (elements b ! i) = None \<and> shared_value (elements b ! i) = Some p"
    using iterator_stored [OF assms] by blast
  have "mrb_wf (set_element i e b) \<and> stored (set_element i e b) = (stored b)(k := None)" if "\<not> in_use e" for e
    using wf_release [OF assms(1) that] stored_release [OF assms(1) that i(2)] i(3) by simp
  then show ?thesis
    using i by (auto simp: mrb_pop_def pop_unique_def pop_shared_def set_element_def Let_def)
qed

interpretation ring: keyed_store mrb_push "mrb_get cp" "mrb_pop cp" stored mrb_wf "\<lambda>p q. q = p \<or> q = cp p"
  for cp :: "'p \<Rightarrow> 'p"
proof unfold_locales
  fix s :: "'p mrb" and k u p
  assume wf: "mrb_wf s"
  show "stored s k = None \<Longrightarrow> mrb_wf (mrb_push u k p s)" and "stored s k = None \<Longrightarrow> stored (mrb_push u k p s) k = Some p"
    using wf by (simp_all add: mrb_push_def push_eq pushed_ok held_def)
  show "stored s k = None \<Longrightarrow> mrb_get cp u k s = Ok (None, s)" and "stored s k = None \<Longrightarrow> mrb_pop cp u k s = Ok (None, s)"
    using stored_None [OF wf] by (simp_all add: mrb_get_def get_unique_def get_shared_def mrb_pop_def pop_unique_def pop_shared_def)
qed (rule mrb_get_some mrb_pop_some; assumption)+

section \<open>Refinement to a bounded queue\<close>

text \<open>The slots from the oldest to the newest: what a queue of fixed length holds.\<close>

definition slot :: "'p element \<Rightarrow> (u64 \<times> 'p) option" where
  "slot e = (if in_use e then map_option (Pair (ekey e)) (held e) else None)"

definition slots :: "'p mrb \<Rightarrow> (u64 \<times> 'p) option list" where
  "slots b = rotate (head b) (map slot (elements b))"

lemma rotate_list_update:
  assumes "h < length xs"
  shows "rotate (Suc h mod length xs) (xs[h := x]) = tl (rotate h xs) @ [x]"
proof -
  have "rotate (Suc h mod length xs) (xs[h := x]) = rotate (Suc h) (xs[h := x])"
    by (metis length_list_update rotate_conv_mod)
  also have "\<dots> = drop (Suc h) (xs[h := x]) @ take (Suc h) (xs[h := x])"
    using assms by (cases "Suc h = length xs") (simp_all add: rotate_drop_take)
  also have "\<dots> = drop (Suc h) xs @ take h xs @ [x]"
    using assms by (simp add: take_Suc_conv_app_nth)
  also have "\<dots> = tl (drop h xs @ take h xs) @ [x]"
    using Cons_nth_drop_Suc [OF assms] by (metis append_assoc append_Cons list.sel(3))
  also have "drop h xs @ take h xs = rotate h xs"
    using assms by (simp add: rotate_drop_take)
  finally show ?thesis .
qed

lemma slots_push:
  assumes "mrb_wf b"
  shows "slots (mrb_push u k p b) = tl (slots b) @ [Some (k, p)]"
proof -
  have h: "head b < length (map slot (elements b))" using assms by (simp add: mrb_wf_def)
  show ?thesis
    using rotate_list_update [OF h, of "Some (k, p)"]
    by (simp add: slots_def mrb_push_def push_eq pushed_def set_element_def map_update slot_def held_def)
qed

lemma slot_Some: "slot e = Some (k, p) \<longleftrightarrow> in_use e \<and> ekey e = k \<and> held e = Some p"
  by (auto simp: slot_def)

lemma stored_slots:
  assumes "mrb_wf b"
  shows "stored b k = Some p \<longleftrightarrow> Some (k, p) \<in> set (slots b)"
proof -
  have "Some (k, p) \<in> set (slots b) \<longleftrightarrow> (\<exists>i < length (elements b). slot (elements b ! i) = Some (k, p))"
    unfolding slots_def set_rotate in_set_conv_nth by auto
  then show ?thesis unfolding stored_Some [OF assms] live_def slot_Some by blast
qed

definition push_all :: "bool \<Rightarrow> (u64 \<times> 'p) list \<Rightarrow> 'p mrb \<Rightarrow> 'p mrb" where
  "push_all u kvs b = fold (\<lambda>(k, p). mrb_push u k p) kvs b"

lemma push_all_slots:
  assumes "mrb_wf b" and "distinct (map fst kvs)" and "\<forall>k \<in> fst ` set kvs. stored b k = None"
  shows "mrb_wf (push_all u kvs b) \<and> slots (push_all u kvs b) = drop (length kvs) (slots b @ map Some kvs)"
  using assms
proof (induction kvs arbitrary: b)
  case (Cons kv kvs)
  obtain k p where kv: "kv = (k, p)" by (cases kv)
  let ?b = "mrb_push u k p b"
  have fresh: "stored b k = None" using Cons.prems kv by simp
  have wf: "mrb_wf ?b" by (rule ring.push_wf [OF Cons.prems(1) fresh])
  have "stored ?b k' = None" if "k' \<in> fst ` set kvs" for k'
  proof -
    have "k' \<noteq> k" "stored b k' = None" using that Cons.prems(2,3) kv by auto
    then show ?thesis using Cons.prems(1) fresh by (simp add: mrb_push_def push_eq pushed_ok held_def)
  qed
  then have IH: "mrb_wf (push_all u kvs ?b)" "slots (push_all u kvs ?b) = drop (length kvs) (slots ?b @ map Some kvs)"
    using Cons.IH [OF wf] Cons.prems(2) by auto
  have "slots b \<noteq> []" using Cons.prems(1) by (auto simp: slots_def mrb_wf_def)
  then show ?case
    using IH slots_push [OF Cons.prems(1)] by (cases "slots b") (simp_all add: push_all_def kv)
qed (simp add: push_all_def)

lemma MappedRingBuffer_init_ok:
  assumes "MappedRingBuffer_init n = Ok b"
  shows "mrb_wf b" "slots b = replicate n None" "stored b k = None" "0 < n"
proof -
  have b: "b = \<lparr>elements = replicate n empty_element, head = 0\<rparr>" and n: "0 < n"
    using assms by (auto simp: MappedRingBuffer_init_def split: if_splits)
  then have dead: "\<not> live b i" for i by (simp add: live_def empty_element_def)
  then show wf: "mrb_wf b" using n b by (simp add: mrb_wf_def)
  show "stored b k = None" using dead stored_None [OF wf] iterator_None by blast
  show "slots b = replicate n None" by (simp add: b slots_def slot_def empty_element_def)
  show "0 < n" by (rule n)
qed

section \<open>Properties\<close>

text \<open>
  C38. A ring buffer of size \<open>n\<close> refines a queue of the \<open>n\<close> newest entries: after any sequence
  of pushes under distinct keys, exactly the last \<open>n\<close> of them can be looked up, each with the
  pointer pushed under its key, and every older one has been displaced.
\<close>

theorem ring_keeps_newest:
  assumes "MappedRingBuffer_init n = Ok b" and "distinct (map fst kvs)"
  shows "stored (push_all u kvs b) key = map_of (drop (length kvs - n) kvs) key"
proof (rule option_eqI_Some)
  fix p
  note init = MappedRingBuffer_init_ok [OF assms(1)]
  note p = push_all_slots [OF init(1) assms(2), of u]
  have "distinct (map fst (drop (length kvs - n) kvs))"
    using assms(2) by (simp add: drop_map [symmetric])
  then have "map_of (drop (length kvs - n) kvs) key = Some p \<longleftrightarrow> (key, p) \<in> set (drop (length kvs - n) kvs)"
    by simp
  also have "\<dots> \<longleftrightarrow> Some (key, p) \<in> set (drop (length kvs) (replicate n None @ map Some kvs))"
    by (auto simp: drop_map)
  finally show "stored (push_all u kvs b) key = Some p \<longleftrightarrow> map_of (drop (length kvs - n) kvs) key = Some p"
    using p init(2,3) stored_slots [of "push_all u kvs b" key p] by simp
qed

theorem ring_keeps_newest_witness:
  "\<exists>b. MappedRingBuffer_init 2 = Ok b \<and>
     stored (push_all True [(1, ''a''), (2, ''b''), (3, ''c'')] b) 1 = None \<and>
     stored (push_all True [(1, ''a''), (2, ''b''), (3, ''c'')] b) 2 = Some ''b''"
proof -
  obtain b :: "string mrb" where b: "MappedRingBuffer_init 2 = Ok b" by (simp add: MappedRingBuffer_init_def)
  have "distinct (map fst [(1 :: u64, ''a''), (2, ''b''), (3, ''c'')])" by simp
  from ring_keeps_newest [OF b this, of True 1] ring_keeps_newest [OF b this, of True 2] b show ?thesis by auto
qed

text \<open>
  Serving a stored message to a sequence of takers, all but the last by \<open>get\<close> and the last by
  \<open>pop\<close>, in any mix of unique and shared requests: every taker receives the stored message
  or a copy of it, no request fails, and afterwards the key is gone and every other entry is
  still there.
\<close>

theorem ring_serves_every_taker:
  assumes "mrb_wf b" and "stored b key = Some p" and "kinds \<noteq> []"
  shows "\<exists>qs b'. ring.serve cp key kinds b = Ok (map Some qs, b') \<and> length qs = length kinds \<and>
     (\<forall>q \<in> set qs. q = p \<or> q = cp p) \<and> mrb_wf b' \<and> stored b' = (stored b)(key := None)"
  by (rule ring.serve_all [OF assms])

theorem ring_serves_every_taker_witness:
  "\<exists>b qs b'. MappedRingBuffer_init 1 = Ok b \<and>
     ring.serve id 5 [True, False, True] (mrb_push True 5 ''msg'' b) = Ok (map Some qs, b') \<and> length qs = 3 \<and>
     (\<forall>q \<in> set qs. q = ''msg'')"
proof -
  obtain b :: "string mrb" where b: "MappedRingBuffer_init 1 = Ok b" by (simp add: MappedRingBuffer_init_def)
  note i = MappedRingBuffer_init_ok [OF b]
  show ?thesis
    using ring_serves_every_taker [OF ring.push_wf [OF i(1,3)] ring.push_lookup [OF i(1,3)], of "[True, False, True]" id] b
    by fastforce
qed

end
