(* ===== verification/IntraProcessManager.thy ===== *)
theory IntraProcessManager
  imports MappedRingBuffer "HOL-Library.AList"
begin

text \<open>
  The intra-process manager (\<open>rclcpp/src/rclcpp/intra_process_manager.cpp\<close>,
  \<open>intra_process_manager.hpp\<close>, \<open>intra_process_manager_impl.hpp\<close>): registration of publishers
  and subscriptions under process-wide ids, storing a message with its set of intended
  takers, and taking it. The containers keyed by ids and topic names are association lists
  with one entry per key; a weak pointer is resolved by the parameter \<open>lock\<close>, the longest
  topic name (a constant of rmw) is the parameter \<open>maxlen\<close>.

  Each operation is one step; operations that run at the same time are not interleaved. In the code
  only taking a message is under one mutex from beginning to end; storing locks the manager twice,
  with the push to the buffer between, which has a mutex of its own; adding and removing publishers
  and subscriptions lock nothing.
\<close>

section \<open>State\<close>

record publisher_view =
  pv_topic :: string
  pv_gid :: string
  pv_intra_gid :: string

record 'p publisher_info =
  pi_publisher :: nat
  pi_sequence :: u64
  pi_buffer :: "'p mrb option"
  pi_targets :: "(u64 \<times> u64 set) list"

record 'p ipm =
  ipm_subscriptions :: "(u64 \<times> nat) list"
  ipm_ids_by_topic :: "(string \<times> u64 set) list"
  ipm_publishers :: "(u64 \<times> 'p publisher_info) list"

definition ipm_empty :: "'p ipm" where
  "ipm_empty = \<lparr>ipm_subscriptions = [], ipm_ids_by_topic = [], ipm_publishers = []\<rparr>"

definition fixed_size_string :: "nat \<Rightarrow> string \<Rightarrow> string res" where
  "fixed_size_string maxlen s =
     (if length s + 1 > maxlen + 1 then Err (Runtime_error ''failed to copy topic name'') else Ok s)"

definition ids_of_topic :: "string \<Rightarrow> 'p ipm \<Rightarrow> u64 set" where
  "ids_of_topic topic m = (case map_of (ipm_ids_by_topic m) topic of None \<Rightarrow> {} | Some s \<Rightarrow> s)"

section \<open>Ids\<close>

definition get_next_unique_id :: "u64 \<Rightarrow> (u64 \<times> u64) res" where
  "get_next_unique_id next_unique_id =
     (let next_id = next_unique_id
      in if next_id = 0 then Err (Overflow_error
           ''exhausted the unique id's for publishers and subscribers in this process (congratulations your computer is either extremely fast or extremely old)'')
         else Ok (next_id, next_unique_id + 1))"

section \<open>The implementation class\<close>

definition impl_add_subscription :: "nat \<Rightarrow> u64 \<Rightarrow> nat \<Rightarrow> string \<Rightarrow> 'p ipm \<Rightarrow> 'p ipm res" where
  "impl_add_subscription maxlen sid sub topic m =
     (let m1 = m\<lparr>ipm_subscriptions := AList.update sid sub (ipm_subscriptions m)\<rparr>
      in bindR (fixed_size_string maxlen topic) (\<lambda>t.
         Ok (m1\<lparr>ipm_ids_by_topic := AList.update t (insert sid (ids_of_topic t m1)) (ipm_ids_by_topic m1)\<rparr>)))"

definition drop_target :: "u64 \<Rightarrow> 'p publisher_info \<Rightarrow> 'p publisher_info" where
  "drop_target sid info = info\<lparr>pi_targets := map (\<lambda>(q, s). (q, s - {sid})) (pi_targets info)\<rparr>"

definition impl_remove_subscription :: "u64 \<Rightarrow> 'p ipm \<Rightarrow> 'p ipm" where
  "impl_remove_subscription sid m =
     m\<lparr>ipm_subscriptions := AList.delete sid (ipm_subscriptions m),
       ipm_ids_by_topic := map (\<lambda>(t, s). (t, s - {sid})) (ipm_ids_by_topic m),
       ipm_publishers := map (\<lambda>(k, info). (k, drop_target sid info)) (ipm_publishers m)\<rparr>"

text \<open>\<open>publishers_[id]\<close> default-constructs a missing entry; the size never exceeds the
  largest \<open>uint64_t\<close>, which is \<open>size_t\<close> here.\<close>

definition impl_add_publisher :: "u64 \<Rightarrow> nat \<Rightarrow> 'p mrb option \<Rightarrow> 'p ipm \<Rightarrow> 'p ipm" where
  "impl_add_publisher pid pub buffer m =
     (let old = (case map_of (ipm_publishers m) pid of None \<Rightarrow> [] | Some i \<Rightarrow> pi_targets i)
      in m\<lparr>ipm_publishers := AList.update pid
             \<lparr>pi_publisher = pub, pi_sequence = 0, pi_buffer = buffer, pi_targets = old\<rparr> (ipm_publishers m)\<rparr>)"

definition impl_remove_publisher :: "u64 \<Rightarrow> 'p ipm \<Rightarrow> 'p ipm" where
  "impl_remove_publisher pid m = m\<lparr>ipm_publishers := AList.delete pid (ipm_publishers m)\<rparr>"

definition set_info :: "u64 \<Rightarrow> 'p publisher_info \<Rightarrow> 'p ipm \<Rightarrow> 'p ipm" where
  "set_info pid info m = m\<lparr>ipm_publishers := AList.update pid info (ipm_publishers m)\<rparr>"

definition get_publisher_info_for_id :: "u64 \<Rightarrow> 'p ipm \<Rightarrow> (u64 \<times> 'p mrb option \<times> 'p ipm) res" where
  "get_publisher_info_for_id pid m =
     (case map_of (ipm_publishers m) pid of
        None \<Rightarrow> Err (Runtime_error ''get_publisher_info_for_id called with invalid publisher id'')
      | Some info \<Rightarrow>
          Ok (pi_sequence info, pi_buffer info, set_info pid (info\<lparr>pi_sequence := pi_sequence info + 1\<rparr>) m))"

text \<open>\<open>subscription_ids_by_topic_[topic]\<close> creates an empty set for a topic seen first here.\<close>

definition impl_store_intra_process_message :: "nat \<Rightarrow> (nat \<Rightarrow> publisher_view option) \<Rightarrow> u64 \<Rightarrow> u64 \<Rightarrow> 'p ipm \<Rightarrow> 'p ipm res" where
  "impl_store_intra_process_message maxlen lock pid message_seq m =
     (case map_of (ipm_publishers m) pid of
        None \<Rightarrow> Err (Runtime_error ''store_intra_process_message called with invalid publisher id'')
      | Some info \<Rightarrow>
          (case lock (pi_publisher info) of
             None \<Rightarrow> Err (Runtime_error ''publisher has unexpectedly gone out of scope'')
           | Some pub \<Rightarrow>
               bindR (fixed_size_string maxlen (pv_topic pub)) (\<lambda>t.
                 let destined = ids_of_topic t m;
                     m1 = m\<lparr>ipm_ids_by_topic := AList.update t destined (ipm_ids_by_topic m)\<rparr>
                 in Ok (set_info pid (info\<lparr>pi_targets := AList.update message_seq destined (pi_targets info)\<rparr>) m1))))"

text \<open>The result is the buffer and the number of takers left, or \<open>None\<close> (a null buffer).\<close>

definition impl_take_intra_process_message :: "u64 \<Rightarrow> u64 \<Rightarrow> u64 \<Rightarrow> 'p ipm \<Rightarrow> ('p mrb option \<times> nat) option \<times> 'p ipm" where
  "impl_take_intra_process_message pid message_seq sid m =
     (case map_of (ipm_publishers m) pid of
        None \<Rightarrow> (None, m)
      | Some info \<Rightarrow>
          (case map_of (pi_targets info) message_seq of
             None \<Rightarrow> (None, m)
           | Some target_subs \<Rightarrow>
               if sid \<notin> target_subs then (None, m)
               else let rest = target_subs - {sid}
                    in (Some (pi_buffer info, card rest),
                        set_info pid (info\<lparr>pi_targets := AList.update message_seq rest (pi_targets info)\<rparr>) m)))"

definition matches_any_publishers :: "(nat \<Rightarrow> publisher_view option) \<Rightarrow> string \<Rightarrow> 'p ipm \<Rightarrow> bool" where
  "matches_any_publishers lock gid m \<longleftrightarrow>
     list_ex (\<lambda>(k, info). case lock (pi_publisher info) of
        None \<Rightarrow> False | Some pub \<Rightarrow> gid = pv_gid pub \<or> gid = pv_intra_gid pub) (ipm_publishers m)"

definition get_subscription_count :: "nat \<Rightarrow> (nat \<Rightarrow> publisher_view option) \<Rightarrow> u64 \<Rightarrow> 'p ipm \<Rightarrow> nat res" where
  "get_subscription_count maxlen lock pid m =
     (case map_of (ipm_publishers m) pid of
        None \<Rightarrow> Ok 0
      | Some info \<Rightarrow>
          (case lock (pi_publisher info) of
             None \<Rightarrow> Err (Runtime_error ''publisher has unexpectedly gone out of scope'')
           | Some pub \<Rightarrow>
               bindR (fixed_size_string maxlen (pv_topic pub)) (\<lambda>t.
                 Ok (case map_of (ipm_ids_by_topic m) t of None \<Rightarrow> 0 | Some s \<Rightarrow> card s))))"

section \<open>The manager\<close>

definition add_publisher :: "nat \<Rightarrow> nat \<Rightarrow> nat \<Rightarrow> u64 \<Rightarrow> 'p ipm \<Rightarrow> (u64 \<times> u64 \<times> 'p ipm) res" where
  "add_publisher pub queue_size buffer_size next_id m =
     bindR (get_next_unique_id next_id) (\<lambda>(pid, next_id').
       let sz = (if buffer_size > 0 then buffer_size else queue_size)
       in bindR (MappedRingBuffer_init sz) (\<lambda>mrb.
          Ok (pid, next_id', impl_add_publisher pid pub (Some mrb) m)))"

definition add_subscription :: "nat \<Rightarrow> nat \<Rightarrow> string \<Rightarrow> u64 \<Rightarrow> 'p ipm \<Rightarrow> (u64 \<times> u64 \<times> 'p ipm) res" where
  "add_subscription maxlen sub topic next_id m =
     bindR (get_next_unique_id next_id) (\<lambda>(sid, next_id').
     bindR (impl_add_subscription maxlen sid sub topic m) (\<lambda>m'. Ok (sid, next_id', m')))"

definition store_intra_process_message :: "nat \<Rightarrow> (nat \<Rightarrow> publisher_view option) \<Rightarrow> bool \<Rightarrow> u64 \<Rightarrow> 'p option \<Rightarrow> 'p ipm
    \<Rightarrow> (u64 \<times> 'p ipm) res" where
  "store_intra_process_message maxlen lock unique pid msg m =
     bindR (get_publisher_info_for_id pid m) (\<lambda>(message_seq, buffer, m1).
       case buffer of
         None \<Rightarrow> Err (Runtime_error ''Typecast failed due to incorrect message type'')
       | Some b \<Rightarrow>
           (let (did_replace, b') = (if unique then push_unique message_seq msg b else push_shared message_seq msg b);
                m2 = (case map_of (ipm_publishers m1) pid of
                        None \<Rightarrow> m1 | Some info \<Rightarrow> set_info pid (info\<lparr>pi_buffer := Some b'\<rparr>) m1)
            in bindR (impl_store_intra_process_message maxlen lock pid message_seq m2) (\<lambda>m3. Ok (message_seq, m3))))"

definition take_intra_process_message :: "('p \<Rightarrow> 'p) \<Rightarrow> bool \<Rightarrow> u64 \<Rightarrow> u64 \<Rightarrow> u64 \<Rightarrow> 'p ipm \<Rightarrow> ('p option \<times> 'p ipm) res" where
  "take_intra_process_message cp unique pid message_seq sid m =
     (let (taken, m1) = impl_take_intra_process_message pid message_seq sid m
      in case taken of
           None \<Rightarrow> Ok (None, m1)
         | Some (None, left) \<Rightarrow> Ok (None, m1)
         | Some (Some b, left) \<Rightarrow>
             bindR (if left > 0 then mrb_get cp unique message_seq b else mrb_pop cp unique message_seq b) (\<lambda>(p, b').
               Ok (p, case map_of (ipm_publishers m1) pid of
                        None \<Rightarrow> m1 | Some info \<Rightarrow> set_info pid (info\<lparr>pi_buffer := Some b'\<rparr>) m1)))"

section \<open>Lookups\<close>

definition info_of :: "'p ipm \<Rightarrow> u64 \<Rightarrow> 'p publisher_info option" where
  "info_of m pid = map_of (ipm_publishers m) pid"

lemma map_of_set_info [simp]:
  "map_of (ipm_publishers (set_info pid i m)) k = (if k = pid then Some i else map_of (ipm_publishers m) k)"
  by (simp add: set_info_def update_conv')

lemma info_of_set_info [simp]: "info_of (set_info pid i m) = (info_of m)(pid \<mapsto> i)"
  by (simp add: info_of_def set_info_def update_conv' fun_eq_iff)

lemma ids_by_topic_set_info [simp]: "ipm_ids_by_topic (set_info pid i m) = ipm_ids_by_topic m"
  by (simp add: set_info_def)

lemma ids_of_topic_set_info [simp]: "ids_of_topic t (set_info pid i m) = ids_of_topic t m"
  by (simp add: ids_of_topic_def)

lemma info_of_by_topic [simp]: "info_of (m\<lparr>ipm_ids_by_topic := x\<rparr>) = info_of m"
  by (simp add: info_of_def fun_eq_iff)

lemma map_of_map_snd: "map_of (map (\<lambda>(k, v). (k, f v)) xs) k = map_option f (map_of xs k)"
  by (induction xs) auto

lemma info_of_remove_subscription:
  "info_of (impl_remove_subscription sid m) pid = map_option (drop_target sid) (info_of m pid)"
  by (simp add: info_of_def impl_remove_subscription_def map_of_map_snd)

lemma finite_ids [simp]: "finite (S :: u64 set)"
  by (rule finite_subset [OF subset_UNIV]) simp

section \<open>Reachable managers\<close>

text \<open>Every buffer is well-formed and holds only sequence numbers already given out.\<close>

definition info_ok :: "'p publisher_info \<Rightarrow> bool" where
  "info_ok info \<longleftrightarrow> (\<exists>b. pi_buffer info = Some b \<and> mrb_wf b \<and>
     (\<forall>k. stored b k \<noteq> None \<longrightarrow> k < pi_sequence info))"

definition ipm_inv :: "'p ipm \<Rightarrow> bool" where
  "ipm_inv m \<longleftrightarrow> (\<forall>pid info. info_of m pid = Some info \<longrightarrow> info_ok info)"

text \<open>
  The steps of a process: publishers and subscriptions come and go, messages that are not
  null are stored (fewer than \<open>2 ^ 64\<close> per publisher) and taken.
\<close>

inductive ipm_step :: "u64 \<times> 'p ipm \<Rightarrow> u64 \<times> 'p ipm \<Rightarrow> bool" where
  add_pub: "add_publisher pub qs bs n m = Ok (pid, n', m') \<Longrightarrow> ipm_step (n, m) (n', m')"
| add_sub: "add_subscription maxlen sub topic n m = Ok (sid, n', m') \<Longrightarrow> ipm_step (n, m) (n', m')"
| rem_pub: "ipm_step (n, m) (n, impl_remove_publisher pid m)"
| rem_sub: "ipm_step (n, m) (n, impl_remove_subscription sid m)"
| store: "store_intra_process_message maxlen lock u pid (Some p) m = Ok (q, m') \<Longrightarrow> q + 1 \<noteq> 0 \<Longrightarrow> ipm_step (n, m) (n, m')"
| take: "take_intra_process_message cp u pid q sid m = Ok (r, m') \<Longrightarrow> ipm_step (n, m) (n, m')"

inductive ipm_reach :: "u64 \<times> 'p ipm \<Rightarrow> bool" where
  init: "ipm_reach (1, ipm_empty)"
| step: "ipm_reach s \<Longrightarrow> ipm_step s s' \<Longrightarrow> ipm_reach s'"

lemma ipm_inv_set_info: "ipm_inv m \<Longrightarrow> info_ok info \<Longrightarrow> ipm_inv (set_info pid info m)"
  by (simp add: ipm_inv_def)

lemma ipm_inv_by_topic: "ipm_inv (m\<lparr>ipm_ids_by_topic := x\<rparr>) = ipm_inv m"
  by (simp add: ipm_inv_def)

lemma info_ok_targets: "info_ok (info\<lparr>pi_targets := t\<rparr>) = info_ok info"
  by (simp add: info_ok_def)

lemma mrb_push_fst_snd:
  "(if u then push_unique k (Some p) b else push_shared k (Some p) b) = (victim b \<noteq> None, mrb_push u k p b)"
  by (simp add: mrb_push_def prod_eq_iff push_eq)

text \<open>What storing a message does, step by step.\<close>

lemma store_unfold:
  assumes "info_of m pid = Some info" and "pi_buffer info = Some b"
  shows "store_intra_process_message maxlen lock u pid (Some p) m =
    (case lock (pi_publisher info) of
       None \<Rightarrow> Err (Runtime_error ''publisher has unexpectedly gone out of scope'')
     | Some pub \<Rightarrow> bindR (fixed_size_string maxlen (pv_topic pub)) (\<lambda>t.
         let destined = ids_of_topic t m;
             info' = \<lparr>pi_publisher = pi_publisher info, pi_sequence = pi_sequence info + 1,
                      pi_buffer = Some (mrb_push u (pi_sequence info) p b),
                      pi_targets = AList.update (pi_sequence info) destined (pi_targets info)\<rparr>
         in Ok (pi_sequence info,
                set_info pid info' ((set_info pid (info'\<lparr>pi_targets := pi_targets info\<rparr>)
                  (set_info pid (info\<lparr>pi_sequence := pi_sequence info + 1\<rparr>) m))\<lparr>ipm_ids_by_topic :=
                     AList.update t destined (ipm_ids_by_topic m)\<rparr>))))"
proof -
  let ?info1 = "info\<lparr>pi_sequence := pi_sequence info + 1\<rparr>"
  let ?b = "mrb_push u (pi_sequence info) p b"
  let ?m1 = "set_info pid ?info1 m"
  let ?m2 = "set_info pid (?info1\<lparr>pi_buffer := Some ?b\<rparr>) ?m1"
  have e: "?info1\<lparr>pi_buffer := Some ?b\<rparr> = \<lparr>pi_publisher = pi_publisher info, pi_sequence = pi_sequence info + 1,
      pi_buffer = Some ?b, pi_targets = pi_targets info\<rparr>" by simp
  show ?thesis
    using assms(1)
    unfolding store_intra_process_message_def get_publisher_info_for_id_def info_of_def
    by (simp add: assms(2) mrb_push_fst_snd impl_store_intra_process_message_def Let_def e bindR_assoc split: option.split)
qed

lemma info_ok_push:
  assumes "info_ok info" and "pi_buffer info = Some b" and "pi_sequence info + 1 \<noteq> 0"
  shows "stored b (pi_sequence info) = None"
    and "info_ok \<lparr>pi_publisher = w, pi_sequence = pi_sequence info + 1,
           pi_buffer = Some (mrb_push u (pi_sequence info) p b), pi_targets = t\<rparr>"
proof -
  let ?q = "pi_sequence info"
  have b: "mrb_wf b" and lt: "\<And>k. stored b k \<noteq> None \<Longrightarrow> k < ?q" using assms(1,2) by (auto simp: info_ok_def)
  show fresh: "stored b ?q = None" using lt by fastforce
  have q: "?q < ?q + 1" by (rule less_succ [OF assms(3)])
  have "k < ?q + 1" if "stored (mrb_push u ?q p b) k \<noteq> None" for k
  proof (cases "k = ?q")
    case False
    then have "stored b k \<noteq> None"
      using that b fresh by (auto simp: mrb_push_def push_eq pushed_ok held_def split: if_splits)
    then show ?thesis using lt q by (meson order.strict_trans)
  qed (use q in simp)
  then show "info_ok \<lparr>pi_publisher = w, pi_sequence = ?q + 1, pi_buffer = Some (mrb_push u ?q p b), pi_targets = t\<rparr>"
    using ring.push_wf [OF b fresh] by (simp add: info_ok_def)
qed

lemma store_cases:
  assumes "store_intra_process_message maxlen lock u pid (Some p) m = Ok (q, m')"
    and "info_of m pid = Some info" and "pi_buffer info = Some b"
  obtains pub where "lock (pi_publisher info) = Some pub" "q = pi_sequence info"
    "info_of m' = (info_of m)(pid \<mapsto> \<lparr>pi_publisher = pi_publisher info, pi_sequence = q + 1,
       pi_buffer = Some (mrb_push u q p b),
       pi_targets = AList.update q (ids_of_topic (pv_topic pub) m) (pi_targets info)\<rparr>)"
  using assms(1) unfolding store_unfold [OF assms(2,3)]
  by (auto simp: res_simps Let_def fixed_size_string_def split: option.splits if_splits)

lemma store_known:
  "store_intra_process_message maxlen lock u pid p m = Ok r \<Longrightarrow> \<exists>info. info_of m pid = Some info"
  by (auto simp: store_intra_process_message_def get_publisher_info_for_id_def info_of_def res_simps split: option.splits)

lemma mrb_get_keeps:
  assumes "mrb_wf b" and "mrb_get cp u q b = Ok (r, b') \<or> mrb_pop cp u q b = Ok (r, b')"
  shows "mrb_wf b' \<and> (\<forall>k. stored b' k \<noteq> None \<longrightarrow> stored b k \<noteq> None)"
proof (cases "stored b q")
  case None
  then show ?thesis using assms ring.get_none [OF assms(1) None] ring.pop_none [OF assms(1) None] by auto
next
  case (Some p)
  then show ?thesis
    using assms ring.get_some [OF assms(1) Some, of cp u] ring.pop_some [OF assms(1) Some, of cp u] by (auto split: if_splits)
qed

lemma take_inv:
  assumes "take_intra_process_message cp u pid q sid m = Ok (r, m')" and "ipm_inv m"
  shows "ipm_inv m'"
proof (cases "impl_take_intra_process_message pid q sid m")
  case (Pair taken m1)
  have m1: "ipm_inv m1" and b: "\<And>b left. taken = Some (Some b, left) \<Longrightarrow>
      \<exists>info. info_of m1 pid = Some info \<and> pi_buffer info = Some b \<and> info_ok info"
    using Pair assms(2) unfolding ipm_inv_def
    by (auto simp: impl_take_intra_process_message_def info_of_def [symmetric] Let_def info_ok_targets
        split: option.splits if_splits)
  show ?thesis
  proof (cases "\<exists>b left. taken = Some (Some b, left)")
    case False
    then have "m' = m1" using assms(1) Pair by (auto simp: take_intra_process_message_def split: option.splits prod.splits)
    then show ?thesis using m1 by simp
  next
    case True
    then obtain b left where t: "taken = Some (Some b, left)" by blast
    obtain info where info: "info_of m1 pid = Some info" "pi_buffer info = Some b" "info_ok info" using b [OF t] by blast
    obtain b' where b': "mrb_get cp u q b = Ok (r, b') \<or> mrb_pop cp u q b = Ok (r, b')"
      and m': "m' = set_info pid (info\<lparr>pi_buffer := Some b'\<rparr>) m1"
      using assms(1) Pair t info(1)
      by (auto simp: take_intra_process_message_def res_simps info_of_def split: if_splits)
    have "mrb_wf b" using info(2,3) by (simp add: info_ok_def)
    from mrb_get_keeps [OF this b'] have "info_ok (info\<lparr>pi_buffer := Some b'\<rparr>)"
      using info(2,3) by (auto simp: info_ok_def)
    then show ?thesis using m' m1 ipm_inv_set_info by simp
  qed
qed

lemma ipm_step_inv: "ipm_step (n, m) (n', m') \<Longrightarrow> ipm_inv m \<Longrightarrow> ipm_inv m'"
proof (induction "(n, m)" "(n', m')" rule: ipm_step.induct)
  case (add_pub pub qs bs pid)
  then obtain sz b where b: "MappedRingBuffer_init sz = Ok b" "m' = impl_add_publisher pid pub (Some b) m"
    by (auto simp: add_publisher_def res_simps Let_def)
  have "info_ok \<lparr>pi_publisher = pub, pi_sequence = 0, pi_buffer = Some b, pi_targets = t\<rparr>" for t
    using MappedRingBuffer_init_ok [OF b(1)] by (simp add: info_ok_def)
  then have "ipm_inv (impl_add_publisher pid pub (Some b) m)"
    using add_pub.prems ipm_inv_set_info [of m] by (simp add: impl_add_publisher_def set_info_def Let_def)
  then show ?case using b(2) by simp
next
  case (add_sub maxlen sub topic sid)
  then show ?case
    by (auto simp: add_subscription_def impl_add_subscription_def res_simps Let_def ipm_inv_def info_of_def)
next
  case (rem_pub pid)
  then show ?case by (auto simp: ipm_inv_def impl_remove_publisher_def info_of_def delete_conv' split: if_splits)
next
  case (rem_sub sid)
  then show ?case
    by (auto simp: ipm_inv_def info_of_remove_subscription drop_target_def info_ok_targets)
next
  case (store maxlen lock u pid p q)
  obtain info where info: "info_of m pid = Some info" using store_known [OF store.hyps(1)] by blast
  then have ok: "info_ok info" using store.prems by (auto simp: ipm_inv_def)
  then obtain b where b: "pi_buffer info = Some b" by (auto simp: info_ok_def)
  from store.hyps(1) info b show ?case
  proof (rule store_cases)
    fix pub assume q: "q = pi_sequence info" and m': "info_of m' = (info_of m)(pid \<mapsto> \<lparr>pi_publisher = pi_publisher info,
        pi_sequence = q + 1, pi_buffer = Some (mrb_push u q p b),
        pi_targets = AList.update q (ids_of_topic (pv_topic pub) m) (pi_targets info)\<rparr>)"
    then show "ipm_inv m'"
      using store.prems store.hyps(2) info_ok_push(2) [OF ok b] by (auto simp: ipm_inv_def)
  qed
next
  case (take cp u pid q sid r)
  then show ?case using take_inv by blast
qed

lemma ipm_reach_inv: "ipm_reach s \<Longrightarrow> ipm_inv (snd s)"
proof (induction rule: ipm_reach.induct)
  case init
  then show ?case by (simp add: ipm_inv_def ipm_empty_def info_of_def)
next
  case (step s s')
  then show ?case using ipm_step_inv [of "fst s" "snd s" "fst s'" "snd s'"] by simp
qed

section \<open>Taking a stored message\<close>

text \<open>Message \<open>q\<close> of publisher \<open>pid\<close> is held as \<open>p\<close> for the takers \<open>S\<close>.\<close>

definition held_for :: "'p ipm \<Rightarrow> u64 \<Rightarrow> u64 \<Rightarrow> 'p \<Rightarrow> u64 set \<Rightarrow> bool" where
  "held_for m pid q p S \<longleftrightarrow> (\<exists>info b. info_of m pid = Some info \<and> pi_buffer info = Some b \<and> mrb_wf b \<and>
     stored b q = Some p \<and> map_of (pi_targets info) q = Some S)"

definition served :: "'p ipm \<Rightarrow> u64 \<Rightarrow> u64 \<Rightarrow> bool" where
  "served m pid q \<longleftrightarrow> (\<exists>info. info_of m pid = Some info \<and> map_of (pi_targets info) q = Some {})"

lemma take_intended:
  assumes "held_for m pid q p S" and "sid \<in> S"
  shows "\<exists>r m'. take_intra_process_message cp u pid q sid m = Ok (Some r, m') \<and> (r = p \<or> r = cp p) \<and>
     (if S = {sid} then served m' pid q else held_for m' pid q p (S - {sid}))"
proof -
  obtain info b where i: "info_of m pid = Some info" "pi_buffer info = Some b" "mrb_wf b"
      "stored b q = Some p" "map_of (pi_targets info) q = Some S"
    using assms(1) by (auto simp: held_for_def)
  let ?info = "info\<lparr>pi_targets := AList.update q (S - {sid}) (pi_targets info)\<rparr>"
  have impl: "impl_take_intra_process_message pid q sid m
      = (Some (Some b, card (S - {sid})), set_info pid ?info m)"
    using i assms(2) by (simp add: impl_take_intra_process_message_def info_of_def [symmetric])
  have empty: "card (S - {sid}) > 0 \<longleftrightarrow> S \<noteq> {sid}" using assms(2) unfolding card_gt_0_iff by auto
  have "\<exists>r b'. (if S \<noteq> {sid} then mrb_get cp u q b else mrb_pop cp u q b) = Ok (Some r, b') \<and>
      (r = p \<or> r = cp p) \<and> mrb_wf b' \<and> (S \<noteq> {sid} \<longrightarrow> stored b' = stored b)"
    using ring.get_some [OF i(3,4), of cp u] ring.pop_some [OF i(3,4), of cp u] by (cases "S = {sid}") auto
  then obtain r b' where r: "(if card (S - {sid}) > 0 then mrb_get cp u q b else mrb_pop cp u q b) = Ok (Some r, b')"
      "r = p \<or> r = cp p" "mrb_wf b'" "S \<noteq> {sid} \<Longrightarrow> stored b' = stored b"
    unfolding empty by blast
  let ?m = "set_info pid (?info\<lparr>pi_buffer := Some b'\<rparr>) (set_info pid ?info m)"
  have "take_intra_process_message cp u pid q sid m = Ok (Some r, ?m)"
    using impl r(1) by (simp add: take_intra_process_message_def split: if_splits)
  moreover have "S = {sid} \<Longrightarrow> served ?m pid q" by (simp add: served_def update_conv')
  moreover have "S \<noteq> {sid} \<Longrightarrow> held_for ?m pid q p (S - {sid})"
    using r(3,4) i(4) by (simp add: held_for_def update_conv')
  ultimately show ?thesis using r(2) by auto
qed




lemma less_succ_iff: "(x :: u64) + 1 \<noteq> 0 \<Longrightarrow> y < x + 1 \<longleftrightarrow> y \<le> x"
  by unat_arith

lemma take_keeps_domain:
  assumes "take_intra_process_message cp u pid q sid m = Ok (r, m')" and "info_of m pid = Some info"
  shows "\<exists>info'. info_of m' pid = Some info' \<and> pi_sequence info' = pi_sequence info \<and>
    dom (map_of (pi_targets info')) = dom (map_of (pi_targets info))"
proof (cases "\<exists>S. map_of (pi_targets info) q = Some S \<and> sid \<in> S")
  case False
  then have "m' = m"
    using assms by (auto simp: take_intra_process_message_def impl_take_intra_process_message_def info_of_def split: option.splits)
  then show ?thesis using assms(2) by simp
next
  case True
  then obtain S where S: "map_of (pi_targets info) q = Some S" "sid \<in> S" by blast
  let ?info = "info\<lparr>pi_targets := AList.update q (S - {sid}) (pi_targets info)\<rparr>"
  have impl: "impl_take_intra_process_message pid q sid m
      = (Some (pi_buffer info, card (S - {sid})), set_info pid ?info m)"
    using S assms(2) by (simp add: impl_take_intra_process_message_def info_of_def)
  have "info_of m' pid = Some ?info \<or> (\<exists>b'. info_of m' pid = Some (?info\<lparr>pi_buffer := Some b'\<rparr>))"
    using assms(1) impl by (auto simp: take_intra_process_message_def res_simps split: option.splits if_splits)
  moreover have "insert q (dom (map_of (pi_targets info))) = dom (map_of (pi_targets info))" using S(1) by auto
  ultimately show ?thesis by (auto simp: update_conv' dom_fun_upd)
qed

section \<open>Properties\<close>


definition demo_lock :: "nat \<Rightarrow> publisher_view option" where
  "demo_lock w = (if w = 7 then Some \<lparr>pv_topic = ''/chatter'', pv_gid = ''g'', pv_intra_gid = ''h''\<rparr> else None)"

definition demo_info :: "'p publisher_info" where
  "demo_info = \<lparr>pi_publisher = 7, pi_sequence = 0,
     pi_buffer = Some \<lparr>elements = [empty_element, empty_element], head = 0\<rparr>, pi_targets = []\<rparr>"

definition demo_ipm :: "'p ipm" where
  "demo_ipm = \<lparr>ipm_subscriptions = [(2, 9)], ipm_ids_by_topic = [(''/chatter'', {2})], ipm_publishers = [(1, demo_info)]\<rparr>"

lemma demo_ipm_reach: "ipm_reach (3, demo_ipm)"
proof -
  let ?m = "\<lparr>ipm_subscriptions = [], ipm_ids_by_topic = [], ipm_publishers = [(1, demo_info)]\<rparr>"
  have "add_publisher 7 2 0 1 ipm_empty = Ok (1, 2, ?m)"
    by (simp add: add_publisher_def get_next_unique_id_def MappedRingBuffer_init_def impl_add_publisher_def
        ipm_empty_def demo_info_def numeral_2_eq_2)
  then have "ipm_reach (2, ?m)" using ipm_reach.step [OF ipm_reach.init] ipm_step.add_pub by blast
  moreover have "add_subscription 255 9 ''/chatter'' 2 ?m = Ok (2, 3, demo_ipm)"
    by (simp add: add_subscription_def get_next_unique_id_def impl_add_subscription_def fixed_size_string_def
        ids_of_topic_def demo_ipm_def)
  ultimately show ?thesis using ipm_reach.step ipm_step.add_sub by blast
qed

lemma demo_held:
  "\<exists>m1. store_intra_process_message 255 demo_lock u 1 (Some p) demo_ipm = Ok (0, m1) \<and> held_for m1 1 0 p {2}"
proof -
  let ?b = "\<lparr>elements = [empty_element, empty_element], head = 0\<rparr>"
  have info: "info_of demo_ipm 1 = Some demo_info" by (simp add: info_of_def demo_ipm_def)
  have "MappedRingBuffer_init 2 = Ok ?b" by (simp add: MappedRingBuffer_init_def numeral_2_eq_2)
  note b = MappedRingBuffer_init_ok [OF this]
  have p: "mrb_wf (mrb_push u 0 p ?b)" "stored (mrb_push u 0 p ?b) 0 = Some p"
    by (rule ring.push_wf [OF b(1,3)]) (rule ring.push_lookup [OF b(1,3)])
  have "ids_of_topic ''/chatter'' demo_ipm = {2}" by (simp add: ids_of_topic_def demo_ipm_def)
  then show ?thesis
    using p by (simp add: store_unfold [OF info, of ?b] demo_info_def demo_lock_def fixed_size_string_def Let_def held_for_def)
qed


text \<open>
  A subscription that has been removed receives nothing any more: it leaves its topic, so
  that it is no target of later messages, and every message already stored for it is refused
  to it.
\<close>

theorem removed_subscription_takes_nothing:
  "(\<forall>topic. sid \<notin> ids_of_topic topic (impl_remove_subscription sid m)) \<and>
   take_intra_process_message cp u pid q sid (impl_remove_subscription sid m) =
     Ok (None, impl_remove_subscription sid m)"
proof
  show "\<forall>topic. sid \<notin> ids_of_topic topic (impl_remove_subscription sid m)"
    by (auto simp: ids_of_topic_def impl_remove_subscription_def map_of_map_snd split: option.splits)
  let ?m = "impl_remove_subscription sid m"
  show "take_intra_process_message cp u pid q sid ?m = Ok (None, ?m)"
  proof (cases "info_of m pid")
    case None
    then have "map_of (ipm_publishers ?m) pid = None"
      using info_of_remove_subscription [of sid m pid] by (simp add: info_of_def)
    then show ?thesis by (simp add: take_intra_process_message_def impl_take_intra_process_message_def)
  next
    case (Some info)
    then have i: "map_of (ipm_publishers ?m) pid = Some (drop_target sid info)"
      using info_of_remove_subscription [of sid m pid] by (simp add: info_of_def)
    show ?thesis
      by (cases "map_of (pi_targets info) q")
        (simp_all add: take_intra_process_message_def impl_take_intra_process_message_def i drop_target_def map_of_map_snd)
  qed
qed

text \<open>
  The sets of intended takers are never discarded: storing a message keeps an entry for
  every sequence number stored before, so after \<open>k\<close> messages a publisher's table has \<open>k\<close>
  entries, however small its ring buffer is and however many messages were taken.
\<close>

theorem targets_never_released:
  assumes "ipm_inv m" and "info_of m pid = Some info" and "dom (map_of (pi_targets info)) = {k. k < pi_sequence info}"
    and "store_intra_process_message maxlen lock u pid (Some p) m = Ok (q, m1)" and "q + 1 \<noteq> 0"
    and "take_intra_process_message cp u2 pid q2 sid m1 = Ok (r, m2)"
  shows "\<exists>info2. info_of m2 pid = Some info2 \<and> pi_sequence info2 = pi_sequence info + 1 \<and>
     dom (map_of (pi_targets info2)) = {k. k < pi_sequence info2}"
proof -
  have "info_ok info" using assms(1,2) by (auto simp: ipm_inv_def)
  then obtain b where b: "pi_buffer info = Some b" by (auto simp: info_ok_def)
  obtain pub where "lock (pi_publisher info) = Some pub" and q1: "q = pi_sequence info" and m1: "info_of m1 = (info_of m)(pid \<mapsto>
      \<lparr>pi_publisher = pi_publisher info, pi_sequence = q + 1, pi_buffer = Some (mrb_push u q p b),
       pi_targets = AList.update q (ids_of_topic (pv_topic pub) m) (pi_targets info)\<rparr>)"
    by (rule store_cases [OF assms(4,2) b])
  note s = q1 fun_cong [OF m1, of pid, unfolded fun_upd_same]
  have q: "q < q + 1" by (rule less_succ [OF assms(5)])
  have "insert q {k. k < q} = {k. k < q + 1}"
    using less_succ_iff [OF assms(5)] by (auto simp: le_less)
  then have d1: "dom (map_of (pi_targets (the (info_of m1 pid)))) = {k. k < q + 1}"
    using assms(3) s by (simp add: update_conv' dom_fun_upd)
  from take_keeps_domain [OF assms(6) s(2)] d1 show ?thesis using s by auto
qed

theorem targets_never_released_witness:
  "\<exists>m1 m2 info2. store_intra_process_message 255 demo_lock True 1 (Some ''msg'') demo_ipm = Ok (0, m1) \<and>
     take_intra_process_message id True 1 0 2 m1 = Ok (Some ''msg'', m2) \<and>
     info_of m2 1 = Some info2 \<and> dom (map_of (pi_targets info2)) = {k. k < pi_sequence info2}"
proof -
  have info: "info_of demo_ipm 1 = Some demo_info" by (simp add: info_of_def demo_ipm_def)
  obtain m1 where m1: "store_intra_process_message 255 demo_lock True 1 (Some ''msg'') demo_ipm = Ok (0, m1)"
    and held: "held_for m1 1 0 ''msg'' {2}"
    using demo_held [of True "''msg''"] by blast
  obtain r m2 where m2: "take_intra_process_message id True 1 0 2 m1 = Ok (Some ''msg'', m2)"
    using take_intended [OF held, of 2 id True] by auto
  have "dom (map_of (pi_targets demo_info)) = {k. k < pi_sequence demo_info}" by (simp add: demo_info_def)
  from targets_never_released [OF ipm_reach_inv [OF demo_ipm_reach, simplified] info this m1 _ m2] m1 m2
  show ?thesis by auto
qed

end
