(* ===== verification/PubSub.thy ===== *)
theory PubSub
  imports Trackers IntraProcessManager
begin

text \<open>
  Publishing and receiving (\<open>rclcpp/include/rclcpp/publisher.hpp\<close>, \<open>subscription.hpp\<close>,
  \<open>any_subscription_callback.hpp\<close>, \<open>rclcpp/src/rclcpp/publisher_base.cpp\<close>): a publisher stamps
  its messages in place through its message tracker, so messages live in a heap and pointers
  are addresses. What rcl returns for a publish call, the number of subscriptions it reports
  and the readings of the clocks are arguments. A message handed to rcl is the value it has at
  that moment.
\<close>

section \<open>Messages in memory\<close>

record 'd message =
  hidden :: MessageTrackingVariables
  payload :: 'd

record 'd world =
  heap :: "nat \<Rightarrow> 'd message"
  fresh_addr :: nat
  manager :: "nat ipm option"
  wire :: "'d message list"
  notices :: "(u64 \<times> u64) list"

definition alloc_copy :: "nat \<Rightarrow> 'd world \<Rightarrow> nat \<times> 'd world" where
  "alloc_copy a w = (fresh_addr w, w\<lparr>heap := (heap w)(fresh_addr w := heap w a), fresh_addr := Suc (fresh_addr w)\<rparr>)"

section \<open>Publishers\<close>

record publisher =
  intra_process_is_enabled :: bool
  intra_process_publisher_id :: u64
  pub_tracker :: tracker
  pub_layout :: layout

text \<open>A publish status: fine, an invalid publisher (with whether it is valid except for its
  context and whether that context is shut down), or another return code.\<close>

datatype publish_status = Pub_ok | Pub_invalid bool bool | Pub_error int

definition throw_from_rcl_error :: "publish_status \<Rightarrow> string \<Rightarrow> cpp_error" where
  "throw_from_rcl_error status msg =
     Rcl_error (case status of Pub_ok \<Rightarrow> 0 | Pub_invalid _ _ \<Rightarrow> 300 | Pub_error c \<Rightarrow> c) msg"

definition check_publish :: "publish_status \<Rightarrow> string \<Rightarrow> unit res" where
  "check_publish status msg =
     (case status of
        Pub_ok \<Rightarrow> Ok ()
      | Pub_invalid except_context context_shutdown \<Rightarrow>
          if except_context \<and> context_shutdown then Ok () else Err (throw_from_rcl_error status msg)
      | Pub_error c \<Rightarrow> Err (throw_from_rcl_error status msg))"

definition do_inter_process_publish :: "(nat \<Rightarrow> int) \<Rightarrow> int \<Rightarrow> int \<Rightarrow> publish_status \<Rightarrow> nat \<Rightarrow> publisher \<Rightarrow> 'd world
    \<Rightarrow> (publisher \<times> 'd world) res" where
  "do_inter_process_publish clk now unix status a pub w =
     bindR (track_message_any (pub_layout pub) clk now unix (hidden (heap w a)) (pub_tracker pub)) (\<lambda>(h, t).
       let pub1 = pub\<lparr>pub_tracker := t\<rparr>;
           w1 = w\<lparr>heap := (heap w)(a := (heap w a)\<lparr>hidden := h\<rparr>)\<rparr>;
           w2 = (if status = Pub_ok then w1\<lparr>wire := wire w1 @ [heap w1 a]\<rparr> else w1)
       in bindR (check_publish status ''failed to publish message'') (\<lambda>_. Ok (pub1, w2)))"

definition do_serialized_publish :: "publish_status \<Rightarrow> publisher \<Rightarrow> unit res" where
  "do_serialized_publish status pub =
     (if intra_process_is_enabled pub
      then Err (Runtime_error ''storing serialized messages in intra process is not supported yet'')
      else if status \<noteq> Pub_ok then Err (throw_from_rcl_error status ''failed to publish serialized message'')
      else Ok ())"

definition do_intra_process_publish :: "publish_status \<Rightarrow> u64 \<Rightarrow> publisher \<Rightarrow> 'd world \<Rightarrow> 'd world res" where
  "do_intra_process_publish status message_seq pub w =
     (let w1 = (if status = Pub_ok then w\<lparr>notices := notices w @ [(intra_process_publisher_id pub, message_seq)]\<rparr> else w)
      in bindR (check_publish status ''failed to publish intra process message'') (\<lambda>_. Ok w1))"

definition pub_store_intra_process_message :: "nat \<Rightarrow> (nat \<Rightarrow> publisher_view option) \<Rightarrow> bool \<Rightarrow> nat option \<Rightarrow> publisher \<Rightarrow> 'd world
    \<Rightarrow> (u64 \<times> 'd world) res" where
  "pub_store_intra_process_message maxlen lock unique msg pub w =
     (case manager w of
        None \<Rightarrow> Err (Runtime_error ''intra process publish called after destruction of intra process manager'')
      | Some m \<Rightarrow>
          if msg = None then Err (Runtime_error ''cannot publisher msg which is a null pointer'')
          else bindR (store_intra_process_message maxlen lock unique (intra_process_publisher_id pub) msg m) (\<lambda>(q, m').
                 Ok (q, w\<lparr>manager := Some m'\<rparr>)))"

definition pub_get_subscription_count :: "publish_status \<Rightarrow> nat \<Rightarrow> nat res" where
  "pub_get_subscription_count status count =
     (case status of
        Pub_ok \<Rightarrow> Ok count
      | Pub_invalid except_context context_shutdown \<Rightarrow>
          if except_context \<and> context_shutdown then Ok 0
          else Err (throw_from_rcl_error status ''failed to get get subscription count'')
      | Pub_error c \<Rightarrow> Err (throw_from_rcl_error status ''failed to get get subscription count''))"

definition get_intra_process_subscription_count :: "nat \<Rightarrow> (nat \<Rightarrow> publisher_view option) \<Rightarrow> publisher \<Rightarrow> 'd world \<Rightarrow> nat res" where
  "get_intra_process_subscription_count maxlen lock pub w =
     (if \<not> intra_process_is_enabled pub then Ok 0
      else case manager w of
             None \<Rightarrow> Err (Runtime_error ''intra process subscriber count called after destruction of intra process manager'')
           | Some m \<Rightarrow> get_subscription_count maxlen lock (intra_process_publisher_id pub) m)"

text \<open>What the environment answers during one publish call.\<close>

record publish_env =
  env_maxlen :: nat
  env_lock :: "nat \<Rightarrow> publisher_view option"
  env_clk :: "nat \<Rightarrow> int"
  env_now :: int
  env_unix :: int
  env_count_status :: publish_status
  env_count :: nat
  env_intra_status :: publish_status
  env_inter_status :: publish_status

text \<open>\<open>publish(std::unique_ptr)\<close>; a null pointer is dereferenced by the inter-process path.\<close>

definition publish_unique :: "publish_env \<Rightarrow> nat option \<Rightarrow> publisher \<Rightarrow> 'd world \<Rightarrow> (publisher \<times> 'd world) res" where
  "publish_unique e msg pub w =
     (let inter = (\<lambda>pub w. case msg of
            None \<Rightarrow> Err (Undefined_behaviour ''null message'')
          | Some a \<Rightarrow> do_inter_process_publish (env_clk e) (env_now e) (env_unix e) (env_inter_status e) a pub w)
      in if \<not> intra_process_is_enabled pub then inter pub w
         else bindR (pub_get_subscription_count (env_count_status e) (env_count e)) (\<lambda>n.
              bindR (get_intra_process_subscription_count (env_maxlen e) (env_lock e) pub w) (\<lambda>k.
                let inter_needed = (n > k)
                in bindR (pub_store_intra_process_message (env_maxlen e) (env_lock e) (\<not> inter_needed) msg pub w) (\<lambda>(q, w1).
                   bindR (do_intra_process_publish (env_intra_status e) q pub w1) (\<lambda>w2.
                     if inter_needed then inter pub w2 else Ok (pub, w2))))))"

definition publish_ref :: "publish_env \<Rightarrow> nat \<Rightarrow> publisher \<Rightarrow> 'd world \<Rightarrow> (publisher \<times> 'd world) res" where
  "publish_ref e a pub w =
     (if \<not> intra_process_is_enabled pub
      then do_inter_process_publish (env_clk e) (env_now e) (env_unix e) (env_inter_status e) a pub w
      else let (a', w1) = alloc_copy a w in publish_unique e (Some a') pub w1)"

definition publish_ptr :: "publish_env \<Rightarrow> nat option \<Rightarrow> publisher \<Rightarrow> 'd world \<Rightarrow> (publisher \<times> 'd world) res" where
  "publish_ptr e msg pub w =
     (case msg of None \<Rightarrow> Err (Runtime_error ''msg argument is nullptr'') | Some a \<Rightarrow> publish_ref e a pub w)"

section \<open>Callbacks\<close>

datatype callback_kind =
    Shared_ptr | Shared_ptr_with_info | Const_shared_ptr | Const_shared_ptr_with_info | Unique_ptr | Unique_ptr_with_info

text \<open>The set of callbacks that have been set; a call is recorded with the pointer passed.\<close>

type_synonym any_callback = "callback_kind set"

definition no_callback :: cpp_error where
  "no_callback = Runtime_error ''unexpected message without any callback set''"

definition dispatch :: "any_callback \<Rightarrow> nat \<Rightarrow> 'd world \<Rightarrow> ((callback_kind \<times> nat) \<times> 'd world) res" where
  "dispatch cb a w =
     (if Shared_ptr \<in> cb then Ok ((Shared_ptr, a), w)
      else if Shared_ptr_with_info \<in> cb then Ok ((Shared_ptr_with_info, a), w)
      else if Const_shared_ptr \<in> cb then Ok ((Const_shared_ptr, a), w)
      else if Const_shared_ptr_with_info \<in> cb then Ok ((Const_shared_ptr_with_info, a), w)
      else if Unique_ptr \<in> cb then (let (a', w1) = alloc_copy a w in Ok ((Unique_ptr, a'), w1))
      else if Unique_ptr_with_info \<in> cb then (let (a', w1) = alloc_copy a w in Ok ((Unique_ptr_with_info, a'), w1))
      else Err no_callback)"

definition dispatch_intra_process_shared :: "any_callback \<Rightarrow> nat \<Rightarrow> (callback_kind \<times> nat) res" where
  "dispatch_intra_process_shared cb a =
     (if Const_shared_ptr \<in> cb then Ok (Const_shared_ptr, a)
      else if Const_shared_ptr_with_info \<in> cb then Ok (Const_shared_ptr_with_info, a)
      else if Unique_ptr \<in> cb \<or> Unique_ptr_with_info \<in> cb \<or> Shared_ptr \<in> cb \<or> Shared_ptr_with_info \<in> cb
      then Err (Runtime_error ''unexpected dispatch_intra_process const shared message call with no const shared_ptr callback'')
      else Err no_callback)"

definition dispatch_intra_process_unique :: "any_callback \<Rightarrow> nat \<Rightarrow> (callback_kind \<times> nat) res" where
  "dispatch_intra_process_unique cb a =
     (if Shared_ptr \<in> cb then Ok (Shared_ptr, a)
      else if Shared_ptr_with_info \<in> cb then Ok (Shared_ptr_with_info, a)
      else if Unique_ptr \<in> cb then Ok (Unique_ptr, a)
      else if Unique_ptr_with_info \<in> cb then Ok (Unique_ptr_with_info, a)
      else if Const_shared_ptr \<in> cb \<or> Const_shared_ptr_with_info \<in> cb
      then Err (Runtime_error ''unexpected dispatch_intra_process unique message call with const shared_ptr callback'')
      else Err no_callback)"

definition use_take_shared_method :: "any_callback \<Rightarrow> bool" where
  "use_take_shared_method cb \<longleftrightarrow> Const_shared_ptr \<in> cb \<or> Const_shared_ptr_with_info \<in> cb"

section \<open>Subscriptions\<close>

record subscription =
  use_intra_process :: bool
  intra_process_subscription_id :: u64
  sub_tracker :: tracker
  sub_layout :: layout
  any_callback :: any_callback

definition matches_any_intra_process_publishers :: "(nat \<Rightarrow> publisher_view option) \<Rightarrow> string \<Rightarrow> subscription \<Rightarrow> 'd world \<Rightarrow> bool res" where
  "matches_any_intra_process_publishers lock gid sub w =
     (if \<not> use_intra_process sub then Ok False
      else case manager w of
             None \<Rightarrow> Err (Runtime_error ''intra process publisher check called after destruction of intra process manager'')
           | Some m \<Rightarrow> Ok (matches_any_publishers lock gid m))"

text \<open>\<open>handle_message\<close>: the result is the callback invoked, if any.\<close>

definition handle_message :: "(nat \<Rightarrow> publisher_view option) \<Rightarrow> (nat \<Rightarrow> int) \<Rightarrow> int \<Rightarrow> int \<Rightarrow> string \<Rightarrow> nat \<Rightarrow> subscription \<Rightarrow> 'd world
    \<Rightarrow> ((callback_kind \<times> nat) option \<times> subscription \<times> 'd world) res" where
  "handle_message lock clk now unix gid a sub w =
     bindR (matches_any_intra_process_publishers lock gid sub w) (\<lambda>m.
       if m then Ok (None, sub, w)
       else bindR (track_message_any (sub_layout sub) clk now unix (hidden (heap w a)) (sub_tracker sub)) (\<lambda>(h, t).
            let w1 = w\<lparr>heap := (heap w)(a := (heap w a)\<lparr>hidden := h\<rparr>)\<rparr>
            in bindR (dispatch (any_callback sub) a w1) (\<lambda>(c, w2). Ok (Some c, sub\<lparr>sub_tracker := t\<rparr>, w2))))"

text \<open>
  Taking from the manager: where the buffer copies a message, the copy is placed at the next
  fresh address and gets the contents of the stored message.
\<close>

definition stored_at :: "'p ipm \<Rightarrow> u64 \<Rightarrow> u64 \<Rightarrow> 'p option" where
  "stored_at m pid q =
     (case map_of (ipm_publishers m) pid of
        None \<Rightarrow> None
      | Some info \<Rightarrow> (case pi_buffer info of None \<Rightarrow> None | Some b \<Rightarrow> stored b q))"

definition sub_take_intra_process_message :: "bool \<Rightarrow> u64 \<Rightarrow> u64 \<Rightarrow> subscription \<Rightarrow> 'd world \<Rightarrow> (nat option \<times> 'd world) res" where
  "sub_take_intra_process_message unique pid q sub w =
     (case manager w of
        None \<Rightarrow> Err (Runtime_error ''intra process take called after destruction of intra process manager'')
      | Some m \<Rightarrow>
          bindR (take_intra_process_message (\<lambda>_. fresh_addr w) unique pid q (intra_process_subscription_id sub) m) (\<lambda>(r, m').
            let w1 = w\<lparr>manager := Some m'\<rparr>
            in case r of
                 None \<Rightarrow> Ok (None, w1)
               | Some a \<Rightarrow>
                   if a = fresh_addr w
                   then (case stored_at m pid q of
                           None \<Rightarrow> Ok (Some a, w1)
                         | Some src \<Rightarrow> Ok (Some a, snd (alloc_copy src w1)))
                   else Ok (Some a, w1)))"

definition handle_intra_process_message :: "(nat \<Rightarrow> publisher_view option) \<Rightarrow> string \<Rightarrow> u64 \<Rightarrow> u64 \<Rightarrow> subscription \<Rightarrow> 'd world
    \<Rightarrow> ((callback_kind \<times> nat) option \<times> 'd world) res" where
  "handle_intra_process_message lock gid pid q sub w =
     (if \<not> use_intra_process sub then Ok (None, w)
      else bindR (matches_any_intra_process_publishers lock gid sub w) (\<lambda>m.
        if \<not> m then Ok (None, w)
        else if use_take_shared_method (any_callback sub) then
          bindR (sub_take_intra_process_message False pid q sub w) (\<lambda>(r, w1). case r of
             None \<Rightarrow> Ok (None, w1)
           | Some a \<Rightarrow> bindR (dispatch_intra_process_shared (any_callback sub) a) (\<lambda>c. Ok (Some c, w1)))
        else
          bindR (sub_take_intra_process_message True pid q sub w) (\<lambda>(r, w1). case r of
             None \<Rightarrow> Ok (None, w1)
           | Some a \<Rightarrow> bindR (dispatch_intra_process_unique (any_callback sub) a) (\<lambda>c. Ok (Some c, w1)))))"

section \<open>Properties\<close>

text \<open>
  Publishing between processes: the message on the wire is the caller's message with the
  hidden variables of the publisher's tracker (fresh id, send time, node hash) and the payload
  untouched, and, since the stamp is written through a cast that drops \<open>const\<close>, the caller's
  own message is changed the same way.
\<close>

theorem publish_stamps_in_place:
  assumes "\<not> intra_process_is_enabled pub" and "HasRequiredFields (pub_layout pub)"
    and "pub_tracker pub = T_publisher t" and "env_inter_status e = Pub_ok"
    and "1 \<le> current_msg_id t" and "current_msg_id t < INT64_MAX"
  shows "\<exists>pub' w'. publish_ref e a pub w = Ok (pub', w') \<and>
     heap w' a = \<lparr>hidden = \<lparr>vandenhoven_timestamp = env_now e, vandenhoven_identifier = current_msg_id t,
                           vandenhoven_publisher_hash = i32_of_u32 (host_hash t)\<rparr>,
                  payload = payload (heap w a)\<rparr> \<and>
     wire w' = wire w @ [heap w' a] \<and> (\<forall>b. b \<noteq> a \<longrightarrow> heap w' b = heap w b) \<and>
     pub_tracker pub' = T_publisher (t\<lparr>current_msg_id := current_msg_id t + 1\<rparr>)"
  using assms
  by (simp add: publish_ref_def do_inter_process_publish_def track_message_any_def publisher_track_message_def
      i64_add_one check_publish_def Let_def)

definition demo_pub :: "bool \<Rightarrow> publisher" where
  "demo_pub intra = \<lparr>intra_process_is_enabled = intra, intra_process_publisher_id = 1,
     pub_tracker = T_publisher (PublisherMessageTracker W_dummy 5), pub_layout = tracking_layout\<rparr>"

definition demo_env :: "nat \<Rightarrow> publish_env" where
  "demo_env n = \<lparr>env_maxlen = 255, env_lock = demo_lock, env_clk = demo_clock, env_now = 100, env_unix = 200,
     env_count_status = Pub_ok, env_count = n, env_intra_status = Pub_ok, env_inter_status = Pub_ok\<rparr>"

definition demo_world :: "string world" where
  "demo_world = \<lparr>heap = (\<lambda>_. \<lparr>hidden = demo_msg, payload = ''data''\<rparr>), fresh_addr = 10, manager = Some demo_ipm,
     wire = [], notices = []\<rparr>"

lemma demo_pub_simps:
  "HasRequiredFields (pub_layout (demo_pub i))" "intra_process_is_enabled (demo_pub i) = i"
  "pub_tracker (demo_pub i) = T_publisher (PublisherMessageTracker W_dummy 5)"
  "intra_process_publisher_id (demo_pub i) = 1"
  "get_intra_process_subscription_count 255 demo_lock (demo_pub True) demo_world = Ok 1"
  by (simp_all add: demo_pub_def HasRequiredFields_def get_intra_process_subscription_count_def demo_world_def
      get_subscription_count_def demo_ipm_def demo_info_def demo_lock_def fixed_size_string_def)

theorem publish_stamps_in_place_witness:
  "\<exists>pub' w'. publish_ref (demo_env 0) 3 (demo_pub False) demo_world = Ok (pub', w') \<and>
     vandenhoven_timestamp (hidden (heap w' 3)) = 100 \<and> payload (heap w' 3) = ''data'' \<and> wire w' = [heap w' 3]"
  using publish_stamps_in_place [of "demo_pub False" "PublisherMessageTracker W_dummy 5" "demo_env 0" 3 demo_world]
  by (auto simp: demo_pub_simps demo_env_def PublisherMessageTracker_def demo_world_def)

text \<open>
  A message published only inside the process is never stamped: neither its hidden
  variables nor the publisher's tracker change, so a latency measurement cannot cover it.
\<close>

theorem intra_process_publish_untracked:
  assumes "intra_process_is_enabled pub" and "publish_unique e (Some a) pub w = Ok (pub', w')"
    and "env_count_status e = Pub_ok"
    and "get_intra_process_subscription_count (env_maxlen e) (env_lock e) pub w = Ok k" and "env_count e \<le> k"
  shows "pub' = pub \<and> heap w' = heap w \<and> wire w' = wire w \<and>
     (\<exists>q m m'. manager w = Some m \<and> manager w' = Some m' \<and>
        store_intra_process_message (env_maxlen e) (env_lock e) True (intra_process_publisher_id pub) (Some a) m = Ok (q, m'))"
  using assms
  by (auto simp: publish_unique_def pub_get_subscription_count_def pub_store_intra_process_message_def
      do_intra_process_publish_def check_publish_def res_simps Let_def split: option.splits publish_status.splits if_splits)

lemma demo_publish:
  "\<exists>pub' w'. publish_unique (demo_env n) (Some 3) (demo_pub True) demo_world = Ok (pub', w')"
proof -
  let ?u = "\<not> n > 1"
  obtain m1 where "store_intra_process_message 255 demo_lock ?u 1 (Some (3 :: nat)) demo_ipm = Ok (0, m1)"
    using demo_held [of ?u "3 :: nat"] by blast
  then have "\<exists>w1. pub_store_intra_process_message 255 demo_lock ?u (Some 3) (demo_pub True) demo_world = Ok (0, w1)"
    by (simp add: pub_store_intra_process_message_def demo_world_def demo_pub_simps)
  then obtain w1 where w1: "pub_store_intra_process_message 255 demo_lock ?u (Some 3) (demo_pub True) demo_world = Ok (0, w1)"
    by blast
  show ?thesis
    using w1 by (simp add: publish_unique_def demo_env_def demo_pub_simps pub_get_subscription_count_def
        do_intra_process_publish_def check_publish_def do_inter_process_publish_def track_message_any_def
        publisher_track_message_def PublisherMessageTracker_def i64_add_one Let_def)
qed

theorem intra_process_publish_untracked_witness:
  "\<exists>pub' w'. publish_unique (demo_env 1) (Some 3) (demo_pub True) demo_world = Ok (pub', w') \<and>
     pub' = demo_pub True \<and> heap w' = heap demo_world"
proof -
  obtain pub' w' where p: "publish_unique (demo_env 1) (Some 3) (demo_pub True) demo_world = Ok (pub', w')"
    using demo_publish by blast
  show ?thesis
    using intra_process_publish_untracked [OF _ p, of 1] p demo_pub_simps by (simp add: demo_env_def)
qed

lemma do_intra_keeps:
  "do_intra_process_publish status q pub w = Ok w2 \<Longrightarrow> manager w2 = manager w \<and> heap w2 = heap w \<and> wire w2 = wire w"
  by (auto simp: do_intra_process_publish_def res_simps)

text \<open>
  When a message goes both ways, it is stored for the subscriptions of the process as a
  shared message first, and stamped in place afterwards: the message they may already hold
  through a pointer to \<open>const\<close> changes under them.
\<close>

theorem shared_message_stamped_after_store:
  assumes "intra_process_is_enabled pub" and "publish_unique e (Some a) pub w = Ok (pub', w')"
    and "env_count_status e = Pub_ok"
    and "get_intra_process_subscription_count (env_maxlen e) (env_lock e) pub w = Ok k" and "k < env_count e"
    and "HasRequiredFields (pub_layout pub)" and "pub_tracker pub = T_publisher t"
    and "env_now e \<noteq> vandenhoven_timestamp (hidden (heap w a))"
  shows "\<exists>q m m'. manager w = Some m \<and> manager w' = Some m' \<and>
     store_intra_process_message (env_maxlen e) (env_lock e) False (intra_process_publisher_id pub) (Some a) m = Ok (q, m') \<and>
     heap w' a \<noteq> heap w a \<and> hidden (heap w' a) = (hidden (heap w a))\<lparr>vandenhoven_timestamp := env_now e,
        vandenhoven_identifier := current_msg_id t, vandenhoven_publisher_hash := i32_of_u32 (host_hash t)\<rparr>"
proof -
  obtain q w1 w2 where
    store: "pub_store_intra_process_message (env_maxlen e) (env_lock e) False (Some a) pub w = Ok (q, w1)" and
    intra: "do_intra_process_publish (env_intra_status e) q pub w1 = Ok w2" and
    inter: "do_inter_process_publish (env_clk e) (env_now e) (env_unix e) (env_inter_status e) a pub w2 = Ok (pub', w')"
    using assms(1-5) by (auto simp: publish_unique_def pub_get_subscription_count_def res_simps Let_def)
  obtain m m' where m: "manager w = Some m"
      "store_intra_process_message (env_maxlen e) (env_lock e) False (intra_process_publisher_id pub) (Some a) m = Ok (q, m')"
    and w1: "w1 = w\<lparr>manager := Some m'\<rparr>"
    using store by (auto simp: pub_store_intra_process_message_def res_simps split: option.splits)
  have w2: "manager w2 = Some m'" "heap w2 = heap w" using do_intra_keeps [OF intra] w1 by auto
  let ?h = "(hidden (heap w a))\<lparr>vandenhoven_timestamp := env_now e,
        vandenhoven_identifier := current_msg_id t, vandenhoven_publisher_hash := i32_of_u32 (host_hash t)\<rparr>"
  have "manager w' = Some m'" "hidden (heap w' a) = ?h"
    using inter w2 assms(6,7)
    by (auto simp: do_inter_process_publish_def track_message_any_def publisher_track_message_def
        check_publish_def res_simps Let_def split: publish_status.splits if_splits)
  moreover have "?h \<noteq> hidden (heap w a)"
    using assms(8) by (metis MessageTrackingVariables.select_convs(1) MessageTrackingVariables.surjective
        MessageTrackingVariables.update_convs(1-3))
  ultimately show ?thesis using m by (metis (no_types, lifting))
qed

theorem shared_message_stamped_after_store_witness:
  "\<exists>pub' w'. publish_unique (demo_env 2) (Some 3) (demo_pub True) demo_world = Ok (pub', w') \<and>
     heap w' 3 \<noteq> heap demo_world 3"
proof -
  obtain pub' w' where p: "publish_unique (demo_env 2) (Some 3) (demo_pub True) demo_world = Ok (pub', w')"
    using demo_publish by blast
  show ?thesis
    using shared_message_stamped_after_store [OF _ p, of 1 "PublisherMessageTracker W_dummy 5"] p demo_pub_simps
    by (auto simp: demo_env_def demo_world_def demo_msg_def)
qed

text \<open>
  A subscription with a callback never fails to deliver: whichever callbacks are set, the
  take method chosen for an intra-process message fits one of them, so the message is passed
  to exactly one callback and the mismatch errors of the dispatcher cannot occur.
\<close>

theorem intra_process_dispatch_total:
  assumes "use_intra_process sub" and "any_callback sub \<noteq> {}" and "manager w = Some m"
    and "matches_any_publishers lock gid m"
    and "\<And>u. \<exists>r. take_intra_process_message (\<lambda>_. fresh_addr w) u pid q (intra_process_subscription_id sub) m = Ok r"
  shows "\<exists>called w'. handle_intra_process_message lock gid pid q sub w = Ok (called, w') \<and>
     (case called of None \<Rightarrow> True | Some (c, _) \<Rightarrow> c \<in> any_callback sub)"
proof -
  have shared: "use_take_shared_method cb \<Longrightarrow> \<exists>c. dispatch_intra_process_shared cb a = Ok (c, a) \<and> c \<in> cb" for cb a
    by (auto simp: use_take_shared_method_def dispatch_intra_process_shared_def)
  have unique: "\<not> use_take_shared_method cb \<Longrightarrow> cb \<noteq> {} \<Longrightarrow> \<exists>c. dispatch_intra_process_unique cb a = Ok (c, a) \<and> c \<in> cb" for cb a
  proof -
    assume "\<not> use_take_shared_method cb" "cb \<noteq> {}"
    then obtain c where "c \<in> cb" "c \<noteq> Const_shared_ptr" "c \<noteq> Const_shared_ptr_with_info"
      by (auto simp: use_take_shared_method_def)
    then show ?thesis by (cases c) (auto simp: dispatch_intra_process_unique_def)
  qed
  have take: "\<exists>r w1. sub_take_intra_process_message u pid q sub w = Ok (r, w1)" for u
  proof -
    obtain r m' where "take_intra_process_message (\<lambda>_. fresh_addr w) u pid q (intra_process_subscription_id sub) m = Ok (r, m')"
      using assms(5) [of u] by auto
    then show ?thesis using assms(3)
      by (cases r) (simp_all add: sub_take_intra_process_message_def Let_def split: option.split)
  qed
  note defs = handle_intra_process_message_def matches_any_intra_process_publishers_def assms(1,3,4)
  show ?thesis
  proof (cases "use_take_shared_method (any_callback sub)")
    case True
    obtain r w1 where r: "sub_take_intra_process_message False pid q sub w = Ok (r, w1)" using take by blast
    show ?thesis
    proof (cases r)
      case (Some a)
      obtain c where "dispatch_intra_process_shared (any_callback sub) a = Ok (c, a)" "c \<in> any_callback sub"
        using shared [OF True] by blast
      then show ?thesis using Some r True by (simp add: defs)
    qed (use r True in \<open>simp add: defs\<close>)
  next
    case False
    obtain r w1 where r: "sub_take_intra_process_message True pid q sub w = Ok (r, w1)" using take by blast
    show ?thesis
    proof (cases r)
      case (Some a)
      obtain c where "dispatch_intra_process_unique (any_callback sub) a = Ok (c, a)" "c \<in> any_callback sub"
        using unique [OF False assms(2)] by blast
      then show ?thesis using Some r False by (simp add: defs)
    qed (use r False in \<open>simp add: defs\<close>)
  qed
qed

definition demo_sub :: subscription where
  "demo_sub = \<lparr>use_intra_process = True, intra_process_subscription_id = 2, sub_tracker = T_dummy W_dummy,
     sub_layout = tracking_layout, any_callback = {Unique_ptr}\<rparr>"

theorem intra_process_dispatch_total_witness:
  "\<exists>called w'. handle_intra_process_message demo_lock ''h'' 1 0 demo_sub demo_world = Ok (called, w') \<and>
     (case called of None \<Rightarrow> True | Some (c, _) \<Rightarrow> c \<in> any_callback demo_sub)"
proof (rule intra_process_dispatch_total)
  show "manager demo_world = Some demo_ipm" by (simp add: demo_world_def)
  show "matches_any_publishers demo_lock ''h'' (demo_ipm :: nat ipm)"
    by (simp add: matches_any_publishers_def demo_ipm_def demo_info_def demo_lock_def)
  show "\<exists>r. take_intra_process_message (\<lambda>_. fresh_addr demo_world) u 1 0 (intra_process_subscription_id demo_sub) demo_ipm = Ok r" for u
    by (simp add: take_intra_process_message_def impl_take_intra_process_message_def demo_ipm_def demo_info_def)
qed (simp_all add: demo_sub_def)

text \<open>
  A subscription of the same process hears a message once: the copy that arrives through
  the middleware from a publisher registered with the manager is dropped before it is tracked
  or dispatched, and an intra-process notice from any other publisher is dropped likewise.
\<close>

theorem message_heard_once:
  assumes "use_intra_process sub" and "manager w = Some m"
  shows "(matches_any_publishers lock gid m \<longrightarrow> handle_message lock clk now unix gid a sub w = Ok (None, sub, w)) \<and>
     (\<not> matches_any_publishers lock gid m \<longrightarrow> handle_intra_process_message lock gid pid q sub w = Ok (None, w))"
  using assms
  by (simp add: handle_message_def handle_intra_process_message_def matches_any_intra_process_publishers_def)

theorem message_heard_once_witness:
  "handle_message demo_lock demo_clock 1 2 ''g'' 3 demo_sub demo_world = Ok (None, demo_sub, demo_world) \<and>
   handle_intra_process_message demo_lock ''other'' 1 0 demo_sub demo_world = Ok (None, demo_world)"
proof -
  have "manager demo_world = Some demo_ipm" "use_intra_process demo_sub" by (simp_all add: demo_world_def demo_sub_def)
  moreover have "matches_any_publishers demo_lock ''g'' (demo_ipm :: nat ipm)" "\<not> matches_any_publishers demo_lock ''other'' (demo_ipm :: nat ipm)"
    by (simp_all add: matches_any_publishers_def demo_ipm_def demo_info_def demo_lock_def)
  ultimately show ?thesis using message_heard_once by blast
qed

end
