(* ===== verification/ActionGoal.thy ===== *)
theory ActionGoal
  imports Timer
begin

text \<open>
  Goals of an action server: the goal state machine and the C goal handle
  (\<open>rcl_action/src/rcl_action/goal_state_machine.c\<close>, \<open>goal_handle.c\<close>), the C++ base class of
  the handle (\<open>rclcpp_action/src/server_goal_handle.cpp\<close>) and the goal identifiers
  (\<open>rclcpp_action/src/types.cpp\<close>, \<open>types.hpp\<close>). The numbers of the states come from generated
  message code, so the states are a datatype and the range checks on them are its typing. A
  handle is its \<open>impl\<close> pointer: \<open>None\<close> for the null pointer of a handle that is not initialised.
\<close>

section \<open>The goal state machine\<close>

datatype goal_state =
    GOAL_STATE_UNKNOWN | GOAL_STATE_ACCEPTED | GOAL_STATE_EXECUTING | GOAL_STATE_CANCELING
  | GOAL_STATE_SUCCEEDED | GOAL_STATE_CANCELED | GOAL_STATE_ABORTED

datatype goal_event =
    GOAL_EVENT_EXECUTE | GOAL_EVENT_CANCEL_GOAL | GOAL_EVENT_SUCCEED | GOAL_EVENT_ABORT | GOAL_EVENT_CANCELED

definition execute_event_handler :: "goal_state \<Rightarrow> goal_event \<Rightarrow> goal_state" where
  "execute_event_handler state event =
     (if state \<noteq> GOAL_STATE_ACCEPTED \<or> event \<noteq> GOAL_EVENT_EXECUTE then GOAL_STATE_UNKNOWN
      else GOAL_STATE_EXECUTING)"

definition cancel_goal_event_handler :: "goal_state \<Rightarrow> goal_event \<Rightarrow> goal_state" where
  "cancel_goal_event_handler state event =
     (if (state \<noteq> GOAL_STATE_ACCEPTED \<and> state \<noteq> GOAL_STATE_EXECUTING) \<or> event \<noteq> GOAL_EVENT_CANCEL_GOAL
      then GOAL_STATE_UNKNOWN else GOAL_STATE_CANCELING)"

definition succeed_event_handler :: "goal_state \<Rightarrow> goal_event \<Rightarrow> goal_state" where
  "succeed_event_handler state event =
     (if (state \<noteq> GOAL_STATE_EXECUTING \<and> state \<noteq> GOAL_STATE_CANCELING) \<or> event \<noteq> GOAL_EVENT_SUCCEED
      then GOAL_STATE_UNKNOWN else GOAL_STATE_SUCCEEDED)"

definition abort_event_handler :: "goal_state \<Rightarrow> goal_event \<Rightarrow> goal_state" where
  "abort_event_handler state event =
     (if (state \<noteq> GOAL_STATE_EXECUTING \<and> state \<noteq> GOAL_STATE_CANCELING) \<or> event \<noteq> GOAL_EVENT_ABORT
      then GOAL_STATE_UNKNOWN else GOAL_STATE_ABORTED)"

definition canceled_event_handler :: "goal_state \<Rightarrow> goal_event \<Rightarrow> goal_state" where
  "canceled_event_handler state event =
     (if state \<noteq> GOAL_STATE_CANCELING \<or> event \<noteq> GOAL_EVENT_CANCELED then GOAL_STATE_UNKNOWN
      else GOAL_STATE_CANCELED)"

definition goal_state_transition_map :: "goal_state \<Rightarrow> goal_event \<Rightarrow> (goal_state \<Rightarrow> goal_event \<Rightarrow> goal_state) option" where
  "goal_state_transition_map state event =
     (case state of
        GOAL_STATE_ACCEPTED \<Rightarrow> (case event of
            GOAL_EVENT_EXECUTE \<Rightarrow> Some execute_event_handler
          | GOAL_EVENT_CANCEL_GOAL \<Rightarrow> Some cancel_goal_event_handler
          | _ \<Rightarrow> None)
      | GOAL_STATE_EXECUTING \<Rightarrow> (case event of
            GOAL_EVENT_CANCEL_GOAL \<Rightarrow> Some cancel_goal_event_handler
          | GOAL_EVENT_SUCCEED \<Rightarrow> Some succeed_event_handler
          | GOAL_EVENT_ABORT \<Rightarrow> Some abort_event_handler
          | _ \<Rightarrow> None)
      | GOAL_STATE_CANCELING \<Rightarrow> (case event of
            GOAL_EVENT_SUCCEED \<Rightarrow> Some succeed_event_handler
          | GOAL_EVENT_ABORT \<Rightarrow> Some abort_event_handler
          | GOAL_EVENT_CANCELED \<Rightarrow> Some canceled_event_handler
          | _ \<Rightarrow> None)
      | _ \<Rightarrow> None)"

definition rcl_action_transition_goal_state :: "goal_state \<Rightarrow> goal_event \<Rightarrow> goal_state" where
  "rcl_action_transition_goal_state state event =
     (case goal_state_transition_map state event of
        None \<Rightarrow> GOAL_STATE_UNKNOWN
      | Some handler \<Rightarrow> handler state event)"

section \<open>The C goal handle\<close>

type_synonym GoalUUID = "u8 list"

record goal_info =
  goal_id :: GoalUUID
  goal_stamp :: stamp_msg

record goal_handle_impl =
  gh_info :: goal_info
  gh_state :: goal_state

text \<open>\<open>alloc_ok\<close> tells whether the allocator delivers.\<close>

definition rcl_action_goal_handle_init :: "bool \<Rightarrow> goal_info \<Rightarrow> goal_handle_impl option \<Rightarrow> rcl_ret \<times> goal_handle_impl option" where
  "rcl_action_goal_handle_init alloc_ok info h =
     (if h \<noteq> None then (RCL_RET_ALREADY_INIT, h)
      else if \<not> alloc_ok then (RCL_RET_BAD_ALLOC, None)
      else (RCL_RET_OK, Some \<lparr>gh_info = info, gh_state = GOAL_STATE_ACCEPTED\<rparr>))"

definition rcl_action_update_goal_state :: "goal_event \<Rightarrow> goal_handle_impl option \<Rightarrow> rcl_ret \<times> goal_handle_impl option" where
  "rcl_action_update_goal_state event h =
     (case h of
        None \<Rightarrow> (RCL_RET_ACTION_GOAL_HANDLE_INVALID, None)
      | Some g \<Rightarrow>
          let new_state = rcl_action_transition_goal_state (gh_state g) event
          in if new_state = GOAL_STATE_UNKNOWN then (RCL_RET_ACTION_GOAL_EVENT_INVALID, h)
             else (RCL_RET_OK, Some (g\<lparr>gh_state := new_state\<rparr>)))"

definition rcl_action_goal_handle_get_info :: "goal_handle_impl option \<Rightarrow> rcl_ret + goal_info" where
  "rcl_action_goal_handle_get_info h =
     (case h of None \<Rightarrow> Inl RCL_RET_ACTION_GOAL_HANDLE_INVALID | Some g \<Rightarrow> Inr (gh_info g))"

definition rcl_action_goal_handle_get_status :: "goal_handle_impl option \<Rightarrow> rcl_ret + goal_state" where
  "rcl_action_goal_handle_get_status h =
     (case h of None \<Rightarrow> Inl RCL_RET_ACTION_GOAL_HANDLE_INVALID | Some g \<Rightarrow> Inr (gh_state g))"

definition rcl_action_goal_handle_is_active :: "goal_handle_impl option \<Rightarrow> bool" where
  "rcl_action_goal_handle_is_active h =
     (case h of
        None \<Rightarrow> False
      | Some g \<Rightarrow> (case gh_state g of
            GOAL_STATE_ACCEPTED \<Rightarrow> True
          | GOAL_STATE_EXECUTING \<Rightarrow> True
          | GOAL_STATE_CANCELING \<Rightarrow> True
          | _ \<Rightarrow> False))"

definition rcl_action_goal_handle_is_cancelable :: "goal_handle_impl option \<Rightarrow> bool" where
  "rcl_action_goal_handle_is_cancelable h =
     (case h of
        None \<Rightarrow> False
      | Some g \<Rightarrow> rcl_action_transition_goal_state (gh_state g) GOAL_EVENT_CANCEL_GOAL = GOAL_STATE_CANCELING)"

section \<open>The C++ goal handle\<close>

definition is_canceling :: "goal_handle_impl option \<Rightarrow> bool res" where
  "is_canceling h =
     (case rcl_action_goal_handle_get_status h of
        Inl ret \<Rightarrow> Err (throw_from_rcl_error ret ''Failed to get goal handle state'')
      | Inr state \<Rightarrow> Ok (state = GOAL_STATE_CANCELING))"

definition is_active :: "goal_handle_impl option \<Rightarrow> bool" where
  "is_active h = rcl_action_goal_handle_is_active h"

definition is_executing :: "goal_handle_impl option \<Rightarrow> bool res" where
  "is_executing h =
     (case rcl_action_goal_handle_get_status h of
        Inl ret \<Rightarrow> Err (throw_from_rcl_error ret ''Failed to get goal handle state'')
      | Inr state \<Rightarrow> Ok (state = GOAL_STATE_EXECUTING))"

text \<open>The five protected operations differ in the event alone.\<close>

definition update_or_throw :: "goal_event \<Rightarrow> goal_handle_impl option \<Rightarrow> goal_handle_impl option res" where
  "update_or_throw event h =
     (let (ret, h') = rcl_action_update_goal_state event h
      in if ret \<noteq> RCL_RET_OK then Err (throw_from_rcl_error ret []) else Ok h')"

definition goal_abort :: "goal_handle_impl option \<Rightarrow> goal_handle_impl option res" where
  "goal_abort h = update_or_throw GOAL_EVENT_ABORT h"

definition goal_succeed :: "goal_handle_impl option \<Rightarrow> goal_handle_impl option res" where
  "goal_succeed h = update_or_throw GOAL_EVENT_SUCCEED h"

definition goal_cancel_goal :: "goal_handle_impl option \<Rightarrow> goal_handle_impl option res" where
  "goal_cancel_goal h = update_or_throw GOAL_EVENT_CANCEL_GOAL h"

definition goal_canceled :: "goal_handle_impl option \<Rightarrow> goal_handle_impl option res" where
  "goal_canceled h = update_or_throw GOAL_EVENT_CANCELED h"

definition goal_execute :: "goal_handle_impl option \<Rightarrow> goal_handle_impl option res" where
  "goal_execute h = update_or_throw GOAL_EVENT_EXECUTE h"

definition try_canceling :: "goal_handle_impl option \<Rightarrow> bool \<times> goal_handle_impl option" where
  "try_canceling h =
     (let (ret, h1) = (if rcl_action_goal_handle_is_cancelable h
                       then rcl_action_update_goal_state GOAL_EVENT_CANCEL_GOAL h
                       else (RCL_RET_OK, h))
      in if ret \<noteq> RCL_RET_OK then (False, h1)
         else case rcl_action_goal_handle_get_status h1 of
                Inl _ \<Rightarrow> (False, h1)
              | Inr state \<Rightarrow>
                  if state = GOAL_STATE_CANCELING then
                    (let (ret2, h2) = rcl_action_update_goal_state GOAL_EVENT_CANCELED h1
                     in (ret2 = RCL_RET_OK, h2))
                  else (False, h1))"

section \<open>Goal identifiers\<close>

definition UUID_SIZE :: nat where "UUID_SIZE = 16"

definition zerouuid :: GoalUUID where "zerouuid = replicate UUID_SIZE 0"

text \<open>\<open>uuidcmp\<close> compares the first 16 bytes.\<close>

definition uuidcmp :: "GoalUUID \<Rightarrow> GoalUUID \<Rightarrow> bool" where
  "uuidcmp u v \<longleftrightarrow> take UUID_SIZE u = take UUID_SIZE v"

definition uuidcmpzero :: "GoalUUID \<Rightarrow> bool" where
  "uuidcmpzero u = uuidcmp u zerouuid"

text \<open>\<open>operator<<\<close> on a byte after \<open>std::hex\<close>: lower case, without leading zeros.\<close>

definition hex_byte :: "u8 \<Rightarrow> string" where
  "hex_byte b =
     (let n = unat b; d = (\<lambda>k. ''0123456789abcdef'' ! k)
      in if n < 16 then [d n] else [d (n div 16), d (n mod 16)])"

definition goal_to_string :: "GoalUUID \<Rightarrow> string" where
  "goal_to_string goal = concat (map hex_byte goal)"

definition goal_hash_byte :: "u8 \<Rightarrow> u64 \<Rightarrow> u64" where
  "goal_hash_byte byte result =
     fold (\<lambda>b r. r XOR push_bit (8 * b) (ucast byte)) [0..<8] result"

definition goal_hash :: "GoalUUID \<Rightarrow> u64" where
  "goal_hash uuid = fold goal_hash_byte uuid 0"

section \<open>Lemmas\<close>

definition terminal :: "goal_state \<Rightarrow> bool" where
  "terminal st \<longleftrightarrow> st = GOAL_STATE_SUCCEEDED \<or> st = GOAL_STATE_CANCELED \<or> st = GOAL_STATE_ABORTED"

definition valid_edge :: "goal_state \<Rightarrow> goal_event \<Rightarrow> goal_state \<Rightarrow> bool" where
  "valid_edge s e s' \<longleftrightarrow> (s, e, s') \<in>
     {(GOAL_STATE_ACCEPTED, GOAL_EVENT_EXECUTE, GOAL_STATE_EXECUTING),
      (GOAL_STATE_ACCEPTED, GOAL_EVENT_CANCEL_GOAL, GOAL_STATE_CANCELING),
      (GOAL_STATE_EXECUTING, GOAL_EVENT_CANCEL_GOAL, GOAL_STATE_CANCELING),
      (GOAL_STATE_EXECUTING, GOAL_EVENT_SUCCEED, GOAL_STATE_SUCCEEDED),
      (GOAL_STATE_EXECUTING, GOAL_EVENT_ABORT, GOAL_STATE_ABORTED),
      (GOAL_STATE_CANCELING, GOAL_EVENT_SUCCEED, GOAL_STATE_SUCCEEDED),
      (GOAL_STATE_CANCELING, GOAL_EVENT_ABORT, GOAL_STATE_ABORTED),
      (GOAL_STATE_CANCELING, GOAL_EVENT_CANCELED, GOAL_STATE_CANCELED)}"

lemmas goal_handlers = execute_event_handler_def cancel_goal_event_handler_def succeed_event_handler_def
  abort_event_handler_def canceled_event_handler_def

lemma transition_edge:
  "rcl_action_transition_goal_state s e = s' \<and> s' \<noteq> GOAL_STATE_UNKNOWN \<longleftrightarrow> valid_edge s e s'"
  by (cases s; cases e; cases s')
    (simp_all add: rcl_action_transition_goal_state_def goal_state_transition_map_def goal_handlers valid_edge_def)

lemma transition_cases:
  "rcl_action_transition_goal_state s e = GOAL_STATE_UNKNOWN \<or>
   valid_edge s e (rcl_action_transition_goal_state s e)"
  using transition_edge by blast

lemma update_ok_iff:
  "rcl_action_update_goal_state e (Some g) = (RCL_RET_OK, h) \<longleftrightarrow>
     (\<exists>st. valid_edge (gh_state g) e st \<and> h = Some (g\<lparr>gh_state := st\<rparr>))"
  by (auto simp: rcl_action_update_goal_state_def Let_def transition_edge [symmetric])

lemma update_fail_iff:
  "fst (rcl_action_update_goal_state e (Some g)) \<noteq> RCL_RET_OK \<longleftrightarrow>
     rcl_action_transition_goal_state (gh_state g) e = GOAL_STATE_UNKNOWN"
  by (simp add: rcl_action_update_goal_state_def Let_def)

lemma update_or_throw_Ok [res_simps]:
  "update_or_throw e (Some g) = Ok h \<longleftrightarrow> (\<exists>st. valid_edge (gh_state g) e st \<and> h = Some (g\<lparr>gh_state := st\<rparr>))"
  by (auto simp: update_or_throw_def split_beta update_ok_iff [symmetric] prod_eq_iff)

lemma valid_edge_not_terminal: "valid_edge s e s' \<Longrightarrow> \<not> terminal s \<and> s \<noteq> GOAL_STATE_UNKNOWN \<and> s' \<noteq> GOAL_STATE_UNKNOWN"
  by (auto simp: valid_edge_def terminal_def)

lemma active_iff:
  "rcl_action_goal_handle_is_active (Some g) \<longleftrightarrow> \<not> terminal (gh_state g) \<and> gh_state g \<noteq> GOAL_STATE_UNKNOWN"
  by (cases "gh_state g") (simp_all add: rcl_action_goal_handle_is_active_def terminal_def)

lemma cancelable_iff:
  "rcl_action_goal_handle_is_cancelable (Some g) \<longleftrightarrow>
     gh_state g = GOAL_STATE_ACCEPTED \<or> gh_state g = GOAL_STATE_EXECUTING"
  by (cases "gh_state g")
    (simp_all add: rcl_action_goal_handle_is_cancelable_def rcl_action_transition_goal_state_def
      goal_state_transition_map_def goal_handlers)

lemma try_canceling_eq:
  "try_canceling (Some g) =
     (if rcl_action_goal_handle_is_active (Some g) then (True, Some (g\<lparr>gh_state := GOAL_STATE_CANCELED\<rparr>))
      else (False, Some g))"
  by (cases "gh_state g")
    (simp_all add: try_canceling_def rcl_action_goal_handle_is_cancelable_def rcl_action_goal_handle_is_active_def
      rcl_action_transition_goal_state_def rcl_action_goal_handle_get_status_def
      rcl_action_update_goal_state_def goal_state_transition_map_def goal_handlers)

text \<open>The hash of an identifier is the exclusive or of its bytes in every byte of the result.\<close>

lemma goal_hash_byte_split: "goal_hash_byte b r = r XOR goal_hash_byte b 0"
  by (simp add: goal_hash_byte_def upt_rec ac_simps)

lemma goal_hash_byte_xor: "goal_hash_byte (a XOR b) 0 = goal_hash_byte a 0 XOR goal_hash_byte b 0"
  by (simp add: goal_hash_byte_def upt_rec unsigned_xor_eq push_bit_xor ac_simps)

lemma goal_hash_fold: "fold goal_hash_byte us (goal_hash_byte a 0) = goal_hash_byte (fold (XOR) us a) 0"
proof (induction us arbitrary: a)
  case (Cons u us)
  have "goal_hash_byte u (goal_hash_byte a 0) = goal_hash_byte (u XOR a) 0"
    by (subst goal_hash_byte_split) (simp add: goal_hash_byte_xor ac_simps)
  then show ?case using Cons by simp
qed simp

lemma goal_hash_eq: "goal_hash uuid = goal_hash_byte (fold (XOR) uuid 0) 0"
proof -
  have "goal_hash_byte 0 0 = 0" by (simp add: goal_hash_byte_def upt_rec)
  then show ?thesis using goal_hash_fold [of uuid 0] by (simp add: goal_hash_def)
qed

end
