(* ===== verification/ActionServer.thy ===== *)
theory ActionServer
  imports ActionGoal Effects "HOL-Library.AList"
begin

text \<open>
  The action server: the C server (\<open>rcl_action/src/rcl_action/action_server.c\<close>) with its array
  of goal handles and its expiry timer, the C++ server
  (\<open>rclcpp_action/src/server.cpp\<close>, \<open>server.hpp\<close>) and the goal handles given to the user
  (\<open>server_goal_handle.hpp\<close>).

  One record holds the state of both layers and the objects they share. An \<open>impl\<close> of a goal
  handle is an index into \<open>impls\<close>; the C array and the C++ maps hold such indices. Its owner is
  the \<open>shared_ptr\<close> the C++ server keeps in \<open>goal_handles\<close> and copies into the user's handle, so an
  access is defined only while one of them holds it; the C array owns nothing. The unordered
  maps are association lists. Every call that leaves the library (a clock reading, a publish, a
  response) consults the environment under its running number. The allocator always delivers.
\<close>

section \<open>State\<close>

type_synonym payload = "u8 list"
type_synonym request_id = nat
type_synonym result_msg = "goal_state \<times> payload"

datatype GoalResponse = GOAL_REJECT | ACCEPT_AND_EXECUTE | ACCEPT_AND_DEFER
datatype CancelResponse = CANCEL_REJECT | CANCEL_ACCEPT

datatype cancel_code = ERROR_NONE | ERROR_REJECTED | ERROR_UNKNOWN_GOAL_ID | ERROR_GOAL_TERMINATED

datatype sent_msg =
    Goal_response request_id bool
  | Cancel_response request_id cancel_code "goal_info list"
  | Result_response request_id result_msg
  | Status_array "(goal_info \<times> goal_state) list"
  | Feedback GoalUUID payload

text \<open>A live \<open>ServerGoalHandle<>\<close> of the user.\<close>

record user_handle =
  uh_impl :: nat
  uh_uuid :: GoalUUID
  uh_goal :: payload

record action_server =
  as_valid :: bool
  as_goals :: "nat list"
  as_stale :: bool
  as_timer :: "rcl_timer_impl option"
  as_result_timeout :: int
  goal_request_ready :: bool
  cancel_request_ready :: bool
  result_request_ready :: bool
  goal_expired :: bool
  goal_results :: "(GoalUUID \<times> result_msg) list"
  result_requests :: "(GoalUUID \<times> request_id list) list"
  goal_handles :: "(GoalUUID \<times> nat) list"
  typed_handles :: "(GoalUUID \<times> nat) list"
  impls :: "goal_handle_impl list"
  users :: "(nat \<times> user_handle) list"
  next_user :: nat
  sent :: "sent_msg list"
  calls :: nat

record action_env =
  env_clock :: "nat \<Rightarrow> clock_reading"
  env_transmit :: "nat \<Rightarrow> rcl_ret"

type_synonym 'a sv = "(action_server, 'a) act"

definition clockA :: "action_env \<Rightarrow> clock_reading sv" where
  "clockA env = (\<lambda>s. (Ok (env_clock env (calls s)), s\<lparr>calls := Suc (calls s)\<rparr>))"

definition transmitA :: "action_env \<Rightarrow> sent_msg \<Rightarrow> rcl_ret sv" where
  "transmitA env msg = (\<lambda>s.
     let ret = env_transmit env (calls s)
     in (Ok ret, s\<lparr>calls := Suc (calls s), sent := (if ret = RCL_RET_OK then sent s @ [msg] else sent s)\<rparr>))"

text \<open>Access to an \<open>impl\<close>, defined while it has an owner.\<close>

definition owned :: "nat \<Rightarrow> action_server \<Rightarrow> bool" where
  "owned a s \<longleftrightarrow> a \<in> snd ` set (goal_handles s) \<or> (\<exists>(k, u) \<in> set (users s). uh_impl u = a)"

definition derefA :: "nat \<Rightarrow> goal_handle_impl sv" where
  "derefA a = (\<lambda>s.
     if a < length (impls s) \<and> owned a s then (Ok (impls s ! a), s)
     else (Err (Undefined_behaviour ''goal handle used after it was freed''), s))"

definition set_implA :: "nat \<Rightarrow> goal_handle_impl option \<Rightarrow> unit sv" where
  "set_implA a h =
     (case h of None \<Rightarrow> retA () | Some g \<Rightarrow> modA (\<lambda>s. s\<lparr>impls := (impls s)[a := g]\<rparr>))"

text \<open>
  The array of goal handles. \<open>as_stale\<close> marks that \<open>realloc\<close> has taken the array away while
  the server still points to it.
\<close>

definition goal_arrayA :: "nat list sv" where
  "goal_arrayA = (\<lambda>s.
     if as_stale s then (Err (Undefined_behaviour ''goal handle array was reallocated''), s)
     else (Ok (as_goals s), s))"

section \<open>The C server\<close>

definition goal_info_stamp_to_nanosec :: "goal_info \<Rightarrow> int" where
  "goal_info_stamp_to_nanosec info = sec (goal_stamp info) * NS_PER_S + nanosec (goal_stamp info)"

definition nanosec_to_goal_info_stamp :: "int \<Rightarrow> goal_info \<Rightarrow> goal_info" where
  "nanosec_to_goal_info_stamp ns info =
     info\<lparr>goal_stamp := \<lparr>sec = to_i32 (cdiv ns NS_PER_S), nanosec = to_u32 (cmod ns NS_PER_S)\<rparr>\<rparr>"

text \<open>The macros \<open>TAKE_SERVICE_REQUEST\<close> and \<open>SEND_SERVICE_RESPONSE\<close>; \<open>inp\<close> is what \<open>rcl_take_request\<close> yields.\<close>

definition take_service_request :: "(rcl_ret + 'r) \<Rightarrow> (rcl_ret + 'r) sv" where
  "take_service_request inp = getA (\<lambda>s.
     if \<not> as_valid s then Inl RCL_RET_ACTION_SERVER_INVALID
     else case inp of
            Inl ret \<Rightarrow> if ret = RCL_RET_BAD_ALLOC then Inl RCL_RET_BAD_ALLOC
                      else if ret = RCL_RET_SERVICE_TAKE_FAILED then Inl RCL_RET_ACTION_SERVER_TAKE_FAILED
                      else Inl RCL_RET_ERROR
          | Inr r \<Rightarrow> Inr r)"

definition send_service_response :: "action_env \<Rightarrow> sent_msg \<Rightarrow> rcl_ret sv" where
  "send_service_response env msg =
     bindA (getA as_valid) (\<lambda>valid.
       if \<not> valid then retA RCL_RET_ACTION_SERVER_INVALID
       else bindA (transmitA env msg) (\<lambda>ret. retA (if ret \<noteq> RCL_RET_OK then RCL_RET_ERROR else RCL_RET_OK)))"

definition rcl_action_publish_status :: "action_env \<Rightarrow> (goal_info \<times> goal_state) list \<Rightarrow> rcl_ret sv" where
  "rcl_action_publish_status env status =
     bindA (getA as_valid) (\<lambda>valid.
       if \<not> valid then retA RCL_RET_ACTION_SERVER_INVALID
       else bindA (transmitA env (Status_array status))
              (\<lambda>ret. retA (if ret \<noteq> RCL_RET_OK then RCL_RET_ERROR else RCL_RET_OK)))"

definition rcl_action_publish_feedback :: "action_env \<Rightarrow> GoalUUID \<Rightarrow> payload \<Rightarrow> rcl_ret sv" where
  "rcl_action_publish_feedback env uuid fb =
     bindA (getA as_valid) (\<lambda>valid.
       if \<not> valid then retA RCL_RET_ACTION_SERVER_INVALID
       else bindA (transmitA env (Feedback uuid fb))
              (\<lambda>ret. retA (if ret \<noteq> RCL_RET_OK then RCL_RET_ERROR else RCL_RET_OK)))"

fun find_goal :: "GoalUUID \<Rightarrow> nat list \<Rightarrow> bool sv" where
  "find_goal uuid [] = retA False"
| "find_goal uuid (a # as) =
     bindA (derefA a) (\<lambda>g.
       if uuidcmp (goal_id (gh_info g)) uuid then retA True else find_goal uuid as)"

definition rcl_action_server_goal_exists :: "goal_info \<Rightarrow> bool sv" where
  "rcl_action_server_goal_exists info =
     bindA (getA as_valid) (\<lambda>valid.
       if \<not> valid then retA False
       else bindA goal_arrayA (\<lambda>goals. find_goal (goal_id info) goals))"

text \<open>
  \<open>rcl_action_accept_new_goal\<close>. The array has been reallocated when the clock is read; if that
  fails the server keeps the old pointer.
\<close>

definition rcl_action_accept_new_goal :: "action_env \<Rightarrow> goal_info \<Rightarrow> nat option sv" where
  "rcl_action_accept_new_goal env info =
     bindA (getA as_valid) (\<lambda>valid.
       if \<not> valid then retA None
       else bindA (rcl_action_server_goal_exists info) (\<lambda>exists.
         if exists then retA None
         else bindA goal_arrayA (\<lambda>goals.
              bindA (clockA env) (\<lambda>reading.
                case reading of
                  Inl _ \<Rightarrow> seqA (modA (\<lambda>s. s\<lparr>as_stale := goals \<noteq> []\<rparr>)) (retA None)
                | Inr now \<Rightarrow>
                    (case rcl_action_goal_handle_init True (nanosec_to_goal_info_stamp now info) None of
                       (ret, None) \<Rightarrow> retA None
                     | (ret, Some g) \<Rightarrow>
                         bindA (getA (\<lambda>s. length (impls s))) (\<lambda>a.
                         seqA (modA (\<lambda>s. s\<lparr>impls := impls s @ [g], as_goals := goals @ [a]\<rparr>))
                           (retA (Some a))))))))"

text \<open>The expiry timer: number of inactive goals and the shortest time until one expires.\<close>

fun inactive_goals :: "int \<Rightarrow> int \<Rightarrow> nat list \<Rightarrow> nat \<Rightarrow> int \<Rightarrow> (nat \<times> int) sv" where
  "inactive_goals timeout now [] n least = retA (n, least)"
| "inactive_goals timeout now (a # as) n least =
     bindA (derefA a) (\<lambda>g.
       if rcl_action_goal_handle_is_active (Some g) then inactive_goals timeout now as n least
       else bindA (liftA (i64_sub now (goal_info_stamp_to_nanosec (gh_info g)))) (\<lambda>age.
            bindA (liftA (i64_sub timeout age)) (\<lambda>delta.
              inactive_goals timeout now as (Suc n) (if delta < least then delta else least))))"

definition recalculate_expire_timer :: "action_env \<Rightarrow> rcl_ret sv" where
  "recalculate_expire_timer env =
     bindA (clockA env) (\<lambda>reading. case reading of
        Inl _ \<Rightarrow> retA RCL_RET_ERROR
      | Inr now \<Rightarrow>
          bindA (getA as_result_timeout) (\<lambda>timeout.
          bindA goal_arrayA (\<lambda>goals.
          bindA (inactive_goals timeout now goals 0 timeout) (\<lambda>(num_inactive, least).
            if goals = [] \<or> num_inactive = 0 then
              bindA (getA (\<lambda>s. rcl_timer_cancel (as_timer s))) (\<lambda>(ret, tm).
              seqA (modA (\<lambda>s. s\<lparr>as_timer := tm\<rparr>)) (retA ret))
            else
              let minimum_period = (if least < 0 then 0 else least)
              in bindA (clockA env) (\<lambda>reading2.
                 bindA (getA as_timer) (\<lambda>tm0.
                 bindA (liftA (rcl_timer_reset reading2 tm0)) (\<lambda>(ret, tm).
                 seqA (modA (\<lambda>s. s\<lparr>as_timer := tm\<rparr>))
                   (if ret \<noteq> RCL_RET_OK then retA ret
                    else seqA (modA (\<lambda>s. s\<lparr>as_timer :=
                                map_option (\<lambda>t. snd (rcl_timer_exchange_period minimum_period t)) tm\<rparr>))
                           (retA RCL_RET_OK)))))))))"

definition rcl_action_notify_goal_done :: "action_env \<Rightarrow> rcl_ret sv" where
  "rcl_action_notify_goal_done env = recalculate_expire_timer env"

text \<open>
  The loop of \<open>rcl_action_expire_goals\<close> at index \<open>length kept\<close>: \<open>rest\<close> are the handles from there
  on, \<open>cap\<close> the capacity of the output array if there is one. The info of a goal is written to
  the output array before it is known whether the goal has expired. The memory of the array is given
  back with \<open>realloc\<close> afterwards, which is taken to succeed as every allocation is; so the branch
  that reports its failure is left out.
\<close>

fun expire_loop :: "nat option \<Rightarrow> int \<Rightarrow> int \<Rightarrow> nat list \<Rightarrow> nat list \<Rightarrow> goal_info list \<Rightarrow> (nat list \<times> goal_info list) sv" where
  "expire_loop cap timeout now kept [] expired = retA (kept, expired)"
| "expire_loop cap timeout now kept (a # rest) expired =
     (if (case cap of None \<Rightarrow> False | Some c \<Rightarrow> c \<le> length kept) then retA (kept @ a # rest, expired)
      else bindA (derefA a) (\<lambda>g.
        if rcl_action_goal_handle_is_active (Some g) then expire_loop cap timeout now (kept @ [a]) rest expired
        else if (case cap of None \<Rightarrow> False | Some c \<Rightarrow> c \<le> length expired)
        then throwA (Undefined_behaviour ''write past the end of expired_goals'')
        else bindA (liftA (i64_sub now (goal_info_stamp_to_nanosec (gh_info g)))) (\<lambda>age.
          if timeout < age then expire_loop cap timeout now kept rest (expired @ [gh_info g])
          else expire_loop cap timeout now (kept @ [a]) rest expired)))"

definition rcl_action_expire_goals :: "action_env \<Rightarrow> nat option \<Rightarrow> (rcl_ret \<times> goal_info list) sv" where
  "rcl_action_expire_goals env cap =
     bindA (getA as_valid) (\<lambda>valid.
       if \<not> valid then retA (RCL_RET_ACTION_SERVER_INVALID, [])
       else if cap = Some 0 then retA (RCL_RET_INVALID_ARGUMENT, [])
       else bindA (clockA env) (\<lambda>reading. case reading of
          Inl _ \<Rightarrow> retA (RCL_RET_ERROR, [])
        | Inr now \<Rightarrow>
            bindA (getA as_result_timeout) (\<lambda>timeout.
            bindA goal_arrayA (\<lambda>goals.
            bindA (expire_loop cap timeout now [] goals []) (\<lambda>(kept, expired).
            seqA (modA (\<lambda>s. s\<lparr>as_goals := kept\<rparr>))
              (bindA (recalculate_expire_timer env) (\<lambda>ret_final. retA (ret_final, expired))))))))"

text \<open>\<open>rcl_action_process_cancel_request\<close>: one goal by identifier, or all up to a time.\<close>

fun cancel_one :: "GoalUUID \<Rightarrow> nat list \<Rightarrow> (cancel_code \<times> goal_info list) sv" where
  "cancel_one uuid [] = retA (ERROR_UNKNOWN_GOAL_ID, [])"
| "cancel_one uuid (a # as) =
     bindA (derefA a) (\<lambda>g.
       if uuidcmp uuid (goal_id (gh_info g)) then
         (if rcl_action_goal_handle_is_cancelable (Some g) then retA (ERROR_NONE, [gh_info g])
          else retA (ERROR_GOAL_TERMINATED, []))
       else cancel_one uuid as)"

fun cancel_many :: "GoalUUID \<Rightarrow> int \<Rightarrow> nat list \<Rightarrow> goal_info list sv" where
  "cancel_many uuid ns [] = retA []"
| "cancel_many uuid ns (a # as) =
     bindA (derefA a) (\<lambda>g.
     bindA (cancel_many uuid ns as) (\<lambda>infos.
       retA (if rcl_action_goal_handle_is_cancelable (Some g) \<and>
                (goal_info_stamp_to_nanosec (gh_info g) \<le> ns \<or> uuidcmp uuid (goal_id (gh_info g)))
             then gh_info g # infos else infos)))"

definition rcl_action_process_cancel_request :: "goal_info \<Rightarrow> (rcl_ret + cancel_code \<times> goal_info list) sv" where
  "rcl_action_process_cancel_request request =
     bindA (getA as_valid) (\<lambda>valid.
       if \<not> valid then retA (Inl RCL_RET_ACTION_SERVER_INVALID)
       else bindA goal_arrayA (\<lambda>goals.
         let uuid = goal_id request; ns = goal_info_stamp_to_nanosec request
         in if \<not> uuidcmpzero uuid \<and> ns = 0 then
              bindA (cancel_one uuid goals) (\<lambda>r. retA (Inr r))
            else
              bindA (cancel_many uuid (if uuidcmpzero uuid \<and> ns = 0 then INT64_MAX else ns) goals)
                (\<lambda>infos. retA (Inr (ERROR_NONE, infos)))))"

section \<open>The C++ server\<close>

definition throw_unless_ok :: "rcl_ret \<Rightarrow> unit sv" where
  "throw_unless_ok ret = (if ret \<noteq> RCL_RET_OK then throwA (throw_from_rcl_error ret []) else retA ())"

definition convert :: "GoalUUID \<Rightarrow> GoalUUID" where
  "convert uuid = map (\<lambda>i. uuid ! i) [0..<16]"

definition zero_goal_info :: goal_info where
  "zero_goal_info = \<lparr>goal_id = zerouuid, goal_stamp = \<lparr>sec = 0, nanosec = 0\<rparr>\<rparr>"

definition publish_status :: "action_env \<Rightarrow> unit sv" where
  "publish_status env =
     bindA (getA as_valid) (\<lambda>valid.
       if \<not> valid then throwA (throw_from_rcl_error RCL_RET_ACTION_SERVER_INVALID [])
       else bindA goal_arrayA (\<lambda>goals.
            bindA (mapA derefA goals) (\<lambda>gs.
            bindA (rcl_action_publish_status env
              (map (\<lambda>g. (\<lparr>goal_id = convert (goal_id (gh_info g)), goal_stamp = goal_stamp (gh_info g)\<rparr>, gh_state g)) gs))
              throw_unless_ok)))"

definition publish_result :: "action_env \<Rightarrow> GoalUUID \<Rightarrow> result_msg \<Rightarrow> unit sv" where
  "publish_result env uuid result =
     bindA (rcl_action_server_goal_exists (zero_goal_info\<lparr>goal_id := convert uuid\<rparr>)) (\<lambda>exists.
       if \<not> exists then throwA (Runtime_error ''Asked to publish result for goal that does not exist'')
       else seqA (modA (\<lambda>s. s\<lparr>goal_results := AList.update uuid result (goal_results s)\<rparr>))
         (bindA (getA (\<lambda>s. map_of (result_requests s) uuid)) (\<lambda>iter. case iter of
             None \<Rightarrow> retA ()
           | Some hdrs \<Rightarrow>
               forA (\<lambda>hdr. bindA (send_service_response env (Result_response hdr result)) throw_unless_ok) hdrs)))"

definition notify_goal_terminal_state :: "action_env \<Rightarrow> unit sv" where
  "notify_goal_terminal_state env = bindA (rcl_action_notify_goal_done env) throw_unless_ok"

definition server_publish_feedback :: "action_env \<Rightarrow> GoalUUID \<Rightarrow> payload \<Rightarrow> unit sv" where
  "server_publish_feedback env uuid fb =
     bindA (rcl_action_publish_feedback env uuid fb) (\<lambda>ret.
       if ret \<noteq> RCL_RET_OK then throwA (throw_from_rcl_error ret ''Failed to publish feedback'') else retA ())"

text \<open>The closures \<open>call_goal_accepted_callback\<close> gives to the user's handle; the server is alive.\<close>

definition on_terminal_state :: "action_env \<Rightarrow> GoalUUID \<Rightarrow> result_msg \<Rightarrow> unit sv" where
  "on_terminal_state env uuid result =
     seqA (publish_result env uuid result)
     (seqA (publish_status env)
     (seqA (notify_goal_terminal_state env)
       (modA (\<lambda>s. s\<lparr>typed_handles := AList.delete uuid (typed_handles s)\<rparr>))))"

definition on_executing :: "action_env \<Rightarrow> GoalUUID \<Rightarrow> unit sv" where
  "on_executing env uuid = publish_status env"

subsection \<open>The user's goal handle\<close>

definition userA :: "nat \<Rightarrow> user_handle sv" where
  "userA k = (\<lambda>s. case map_of (users s) k of
     None \<Rightarrow> (Err (Undefined_behaviour ''handle used after it was destroyed''), s)
   | Some u \<Rightarrow> (Ok u, s))"

text \<open>A protected operation of the base class on the handle's \<open>impl\<close>.\<close>

definition on_implA :: "nat \<Rightarrow> (goal_handle_impl option \<Rightarrow> goal_handle_impl option res) \<Rightarrow> unit sv" where
  "on_implA a f = bindA (derefA a) (\<lambda>g. bindA (liftA (f (Some g))) (set_implA a))"

definition user_abort :: "action_env \<Rightarrow> nat \<Rightarrow> payload \<Rightarrow> unit sv" where
  "user_abort env k result =
     bindA (userA k) (\<lambda>u. seqA (on_implA (uh_impl u) goal_abort)
       (on_terminal_state env (uh_uuid u) (GOAL_STATE_ABORTED, result)))"

definition user_succeed :: "action_env \<Rightarrow> nat \<Rightarrow> payload \<Rightarrow> unit sv" where
  "user_succeed env k result =
     bindA (userA k) (\<lambda>u. seqA (on_implA (uh_impl u) goal_succeed)
       (on_terminal_state env (uh_uuid u) (GOAL_STATE_SUCCEEDED, result)))"

definition user_canceled :: "action_env \<Rightarrow> nat \<Rightarrow> payload \<Rightarrow> unit sv" where
  "user_canceled env k result =
     bindA (userA k) (\<lambda>u. seqA (on_implA (uh_impl u) goal_canceled)
       (on_terminal_state env (uh_uuid u) (GOAL_STATE_CANCELED, result)))"

definition user_execute :: "action_env \<Rightarrow> nat \<Rightarrow> unit sv" where
  "user_execute env k =
     bindA (userA k) (\<lambda>u. seqA (on_implA (uh_impl u) goal_execute) (on_executing env (uh_uuid u)))"

definition user_publish_feedback :: "action_env \<Rightarrow> nat \<Rightarrow> payload \<Rightarrow> unit sv" where
  "user_publish_feedback env k fb =
     bindA (userA k) (\<lambda>u. server_publish_feedback env (uh_uuid u) fb)"

text \<open>The destructor; the object and its share of the \<open>impl\<close> are gone when it returns.\<close>

definition user_destroy :: "action_env \<Rightarrow> nat \<Rightarrow> unit sv" where
  "user_destroy env k =
     seqA (noexceptA (bindA (userA k) (\<lambda>u.
       bindA (derefA (uh_impl u)) (\<lambda>g.
         let (done, h) = try_canceling (Some g)
         in seqA (set_implA (uh_impl u) h)
              (whenA done (on_terminal_state env (uh_uuid u) (GOAL_STATE_CANCELED, [])))))))
     (modA (\<lambda>s. s\<lparr>users := AList.delete k (users s)\<rparr>))"

subsection \<open>Requests\<close>

text \<open>
  \<open>call_goal_accepted_callback\<close>: the handle is created, entered and passed to the user, whose
  callback is the last thing the handler does; what the user calls on the handle there is the
  next operation. \<open>retains\<close> tells whether the user keeps the handle.
\<close>

definition call_goal_accepted_callback :: "action_env \<Rightarrow> bool \<Rightarrow> nat \<Rightarrow> GoalUUID \<Rightarrow> payload \<Rightarrow> unit sv" where
  "call_goal_accepted_callback env retains a uuid goal =
     bindA (getA next_user) (\<lambda>k.
     seqA (modA (\<lambda>s. s\<lparr>users := (k, \<lparr>uh_impl = a, uh_uuid = uuid, uh_goal = goal\<rparr>) # users s,
                       next_user := Suc k,
                       typed_handles := AList.update uuid k (typed_handles s)\<rparr>))
       (whenA (\<not> retains) (user_destroy env k)))"

text \<open>The part of \<open>execute_goal_request_received\<close> that an accepted goal goes through.\<close>

definition accept_goal :: "action_env \<Rightarrow> GoalResponse \<Rightarrow> bool \<Rightarrow> GoalUUID \<Rightarrow> payload \<Rightarrow> unit sv" where
  "accept_goal env status retains uuid goal =
     bindA (rcl_action_accept_new_goal env (zero_goal_info\<lparr>goal_id := convert uuid\<rparr>)) (\<lambda>rcl_handle. case rcl_handle of
        None \<Rightarrow> throwA (Runtime_error (''Failed to accept new goal'' @ [CHR 0x0A]))
      | Some a \<Rightarrow>
          seqA (modA (\<lambda>s. s\<lparr>goal_handles := AList.update uuid a (goal_handles s)\<rparr>))
          (seqA (whenA (status = ACCEPT_AND_EXECUTE) (on_implA a goal_execute))
          (seqA (publish_status env)
            (call_goal_accepted_callback env retains a uuid goal))))"

definition execute_goal_request_received :: "action_env \<Rightarrow> (rcl_ret + request_id \<times> GoalUUID \<times> payload)
    \<Rightarrow> (GoalUUID \<Rightarrow> payload \<Rightarrow> GoalResponse) \<Rightarrow> bool \<Rightarrow> unit sv" where
  "execute_goal_request_received env inp handle_goal retains =
     bindA (take_service_request inp) (\<lambda>taken.
     seqA (modA (\<lambda>s. s\<lparr>goal_request_ready := False\<rparr>))
     (case taken of
        Inl ret \<Rightarrow> if ret = RCL_RET_ACTION_SERVER_TAKE_FAILED then retA () else throw_unless_ok ret
      | Inr (hdr, uuid, goal) \<Rightarrow>
          let status = handle_goal uuid goal;
              accepted = (status = ACCEPT_AND_EXECUTE \<or> status = ACCEPT_AND_DEFER)
          in bindA (send_service_response env (Goal_response hdr accepted)) (\<lambda>ret.
             seqA (throw_unless_ok ret) (whenA accepted (accept_goal env status retains uuid goal)))))"

definition call_handle_cancel_callback :: "(GoalUUID \<Rightarrow> CancelResponse) \<Rightarrow> GoalUUID \<Rightarrow> CancelResponse sv" where
  "call_handle_cancel_callback handle_cancel uuid =
     bindA (getA (\<lambda>s. Option.bind (map_of (typed_handles s) uuid) (map_of (users s)))) (\<lambda>goal_handle.
       case goal_handle of
         None \<Rightarrow> retA CANCEL_REJECT
       | Some u \<Rightarrow>
           (case handle_cancel uuid of
              CANCEL_ACCEPT \<Rightarrow> seqA (on_implA (uh_impl u) goal_cancel_goal) (retA CANCEL_ACCEPT)
            | CANCEL_REJECT \<Rightarrow> retA CANCEL_REJECT))"

fun cancel_goals :: "(GoalUUID \<Rightarrow> CancelResponse) \<Rightarrow> goal_info list \<Rightarrow> goal_info list sv" where
  "cancel_goals handle_cancel [] = retA []"
| "cancel_goals handle_cancel (info # infos) =
     (let uuid = convert (goal_id info)
      in bindA (call_handle_cancel_callback handle_cancel uuid) (\<lambda>code.
         bindA (cancel_goals handle_cancel infos) (\<lambda>canceling.
           retA (if code = CANCEL_ACCEPT then \<lparr>goal_id = uuid, goal_stamp = goal_stamp info\<rparr> # canceling
                 else canceling))))"

definition execute_cancel_request_received :: "action_env \<Rightarrow> (rcl_ret + request_id \<times> goal_info)
    \<Rightarrow> (GoalUUID \<Rightarrow> CancelResponse) \<Rightarrow> unit sv" where
  "execute_cancel_request_received env inp handle_cancel =
     bindA (take_service_request inp) (\<lambda>taken.
     seqA (modA (\<lambda>s. s\<lparr>cancel_request_ready := False\<rparr>))
     (case taken of
        Inl ret \<Rightarrow> if ret = RCL_RET_ACTION_SERVER_TAKE_FAILED then retA () else throw_unless_ok ret
      | Inr (hdr, request) \<Rightarrow>
          bindA (rcl_action_process_cancel_request (request\<lparr>goal_id := convert (goal_id request)\<rparr>)) (\<lambda>r. case r of
             Inl ret \<Rightarrow> throw_unless_ok ret
           | Inr (code, goals) \<Rightarrow>
               bindA (cancel_goals handle_cancel goals) (\<lambda>canceling.
               seqA (whenA (canceling \<noteq> []) (publish_status env))
                 (bindA (send_service_response env
                    (Cancel_response hdr (if goals \<noteq> [] \<and> canceling = [] then ERROR_REJECTED else code) canceling))
                    throw_unless_ok)))))"

definition execute_result_request_received :: "action_env \<Rightarrow> (rcl_ret + request_id \<times> GoalUUID) \<Rightarrow> unit sv" where
  "execute_result_request_received env inp =
     bindA (take_service_request inp) (\<lambda>taken.
     seqA (modA (\<lambda>s. s\<lparr>result_request_ready := False\<rparr>))
     (case taken of
        Inl ret \<Rightarrow> if ret = RCL_RET_ACTION_SERVER_TAKE_FAILED then retA () else throw_unless_ok ret
      | Inr (hdr, uuid) \<Rightarrow>
          bindA (rcl_action_server_goal_exists (zero_goal_info\<lparr>goal_id := convert uuid\<rparr>)) (\<lambda>exists.
          bindA (getA (\<lambda>s. if \<not> exists then Some (GOAL_STATE_UNKNOWN, []) else map_of (goal_results s) uuid)) (\<lambda>response.
            case response of
              Some result \<Rightarrow> bindA (send_service_response env (Result_response hdr result)) throw_unless_ok
            | None \<Rightarrow> modA (\<lambda>s. s\<lparr>result_requests := AList.update uuid
                (case map_of (result_requests s) uuid of None \<Rightarrow> [hdr] | Some hs \<Rightarrow> hs @ [hdr]) (result_requests s)\<rparr>)))))"

text \<open>
  The loop of \<open>execute_check_expired_goals\<close> takes fuel and returns whether it came to its end.
  Every iteration but the last one shortens the array, so one unit more than its length is
  enough.
\<close>

fun check_expired_loop :: "action_env \<Rightarrow> nat \<Rightarrow> bool sv" where
  "check_expired_loop env 0 = retA False"
| "check_expired_loop env (Suc n) =
     bindA (rcl_action_expire_goals env (Some 1)) (\<lambda>(ret, expired).
     seqA (throw_unless_ok ret)
     (case expired of
        [] \<Rightarrow> retA True
      | info # _ \<Rightarrow>
          let uuid = convert (goal_id info)
          in seqA (modA (\<lambda>s. s\<lparr>goal_results := AList.delete uuid (goal_results s),
                              result_requests := AList.delete uuid (result_requests s),
                              goal_handles := AList.delete uuid (goal_handles s)\<rparr>))
               (check_expired_loop env n)))"

definition execute_check_expired_goals :: "action_env \<Rightarrow> bool sv" where
  "execute_check_expired_goals env =
     bindA (getA (\<lambda>s. length (as_goals s))) (\<lambda>n. check_expired_loop env (Suc n))"

text \<open>\<open>is_ready\<close>: \<open>flags\<close> is what \<open>rcl_action_server_wait_set_get_entities_ready\<close> yields.\<close>

definition server_is_ready :: "(rcl_ret + bool \<times> bool \<times> bool \<times> bool) \<Rightarrow> bool sv" where
  "server_is_ready flags =
     (case flags of
        Inl ret \<Rightarrow> seqA (throw_unless_ok ret) (retA False)
      | Inr (goal, cancel, result, expired) \<Rightarrow>
          seqA (modA (\<lambda>s. s\<lparr>goal_request_ready := goal, cancel_request_ready := cancel,
                            result_request_ready := result, goal_expired := expired\<rparr>))
            (retA (goal \<or> cancel \<or> result \<or> expired)))"

definition server_execute :: "action_env \<Rightarrow> (rcl_ret + request_id \<times> GoalUUID \<times> payload)
    \<Rightarrow> (rcl_ret + request_id \<times> goal_info) \<Rightarrow> (rcl_ret + request_id \<times> GoalUUID)
    \<Rightarrow> (GoalUUID \<Rightarrow> payload \<Rightarrow> GoalResponse) \<Rightarrow> (GoalUUID \<Rightarrow> CancelResponse) \<Rightarrow> bool \<Rightarrow> unit sv" where
  "server_execute env goal_inp cancel_inp result_inp handle_goal handle_cancel retains =
     bindA (getA (\<lambda>s. s)) (\<lambda>s.
       if goal_request_ready s then execute_goal_request_received env goal_inp handle_goal retains
       else if cancel_request_ready s then execute_cancel_request_received env cancel_inp handle_cancel
       else if result_request_ready s then execute_result_request_received env result_inp
       else if goal_expired s then bindA (execute_check_expired_goals env) (\<lambda>_. retA ())
       else throwA (Runtime_error ''Executing action server but nothing is ready''))"

text \<open>
  Construction: the parts of \<open>rcl_action_server_init\<close> and of the constructor that concern the
  state above. The services and publishers exist; \<open>ctype\<close>, \<open>reading\<close>, \<open>gc\<close> and \<open>jc\<close> are those
  of \<open>rcl_timer_init\<close>.
\<close>

definition server_init :: "rcl_clock_type \<Rightarrow> clock_reading \<Rightarrow> rcl_ret \<Rightarrow> rcl_ret \<Rightarrow> int \<Rightarrow> action_server res" where
  "server_init ctype reading gc jc timeout =
     bindR (rcl_timer_init ctype reading gc jc True timeout False None) (\<lambda>(ret, tm).
       if ret \<noteq> RCL_RET_OK then Err (throw_from_rcl_error ret [])
       else let (ret2, tm2) = rcl_timer_cancel tm
            in if ret2 \<noteq> RCL_RET_OK then Err (throw_from_rcl_error ret2 [])
               else Ok \<lparr>as_valid = True, as_goals = [], as_stale = False, as_timer = tm2, as_result_timeout = timeout,
                 goal_request_ready = False, cancel_request_ready = False, result_request_ready = False,
                 goal_expired = False, goal_results = [], result_requests = [], goal_handles = [], typed_handles = [],
                 impls = [], users = [], next_user = 0, sent = [], calls = 0\<rparr>)"

end
