(* ===== verification/ActionServerSafety.thy ===== *)
theory ActionServerSafety
  imports ActionServer
begin

text \<open>
  The invariant of the action server and what follows from it: memory safety of the handlers,
  agreement of results and goal states, the answers to result and cancel requests, and the
  expiry of goals. All of it holds in every state that a sequence of requests and of calls on
  user handles can reach, in an environment that may refuse any transmission.
\<close>

section \<open>Invariant\<close>

abbreviation id_of :: "action_server \<Rightarrow> nat \<Rightarrow> GoalUUID" where
  "id_of s a \<equiv> goal_id (gh_info (impls s ! a))"

abbreviation state_of :: "action_server \<Rightarrow> nat \<Rightarrow> goal_state" where
  "state_of s a \<equiv> gh_state (impls s ! a)"

abbreviation stamp_of :: "action_server \<Rightarrow> nat \<Rightarrow> int" where
  "stamp_of s a \<equiv> goal_info_stamp_to_nanosec (gh_info (impls s ! a))"

text \<open>Times before the wrap-around of 32-bit seconds in 2038, and timeouts below half the range.\<close>

abbreviation TIME_END :: int where "TIME_END \<equiv> 2147483648000000000"
abbreviation TIMEOUT_END :: int where "TIMEOUT_END \<equiv> 4611686018427387904"

definition goals_ok :: "action_server \<Rightarrow> bool" where
  "goals_ok s \<longleftrightarrow> distinct (as_goals s) \<and> (\<forall>a \<in> set (as_goals s).
     a < length (impls s) \<and> length (id_of s a) = UUID_SIZE \<and> map_of (goal_handles s) (id_of s a) = Some a)"

definition impls_ok :: "action_server \<Rightarrow> bool" where
  "impls_ok s \<longleftrightarrow> (\<forall>a < length (impls s).
     0 \<le> stamp_of s a \<and> stamp_of s a < TIME_END \<and> state_of s a \<noteq> GOAL_STATE_UNKNOWN)"

definition users_ok :: "action_server \<Rightarrow> bool" where
  "users_ok s \<longleftrightarrow> (\<forall>(k, u) \<in> set (users s).
     k < next_user s \<and> uh_impl u < length (impls s) \<and> id_of s (uh_impl u) = uh_uuid u \<and>
     length (uh_uuid u) = UUID_SIZE \<and>
     (\<not> terminal (state_of s (uh_impl u)) \<longrightarrow> uh_impl u \<in> set (as_goals s)))"

definition typed_ok :: "action_server \<Rightarrow> bool" where
  "typed_ok s \<longleftrightarrow> (\<forall>uuid k. map_of (typed_handles s) uuid = Some k \<longrightarrow>
     k < next_user s \<and> (\<forall>u. map_of (users s) k = Some u \<longrightarrow> uh_uuid u = uuid))"

definition results_ok :: "action_server \<Rightarrow> bool" where
  "results_ok s \<longleftrightarrow> (\<forall>uuid st p. map_of (goal_results s) uuid = Some (st, p) \<longrightarrow>
     terminal st \<and> (\<exists>a \<in> set (as_goals s). id_of s a = uuid \<and> state_of s a = st))"

definition timer_ok :: "action_server \<Rightarrow> bool" where
  "timer_ok s \<longleftrightarrow> \<not> as_stale s \<and> 0 \<le> as_result_timeout s \<and> as_result_timeout s < TIMEOUT_END \<and>
     (\<exists>t. as_timer s = Some t \<and> 0 \<le> period t \<and> period t < TIMEOUT_END)"

definition srv_inv :: "action_server \<Rightarrow> bool" where
  "srv_inv s \<longleftrightarrow> goals_ok s \<and> impls_ok s \<and> users_ok s \<and> typed_ok s \<and> results_ok s \<and> timer_ok s"

text \<open>
  The environments of the safety theorems: every reading of the clock succeeds, with a time between
  the epoch and 2038. Transmissions may fail at any time. A failed reading is not harmless, see
  \<open>failed_clock_frees_array\<close>.
\<close>

definition good_env :: "action_env \<Rightarrow> bool" where
  "good_env env \<longleftrightarrow> (\<forall>n. \<exists>t. env_clock env n = Inr t \<and> 0 \<le> t \<and> t < TIME_END)"

text \<open>The part of the state that sending, publishing and timer calls leave alone.\<close>

definition core :: "action_server \<Rightarrow> bool \<times> nat list \<times> int \<times> (GoalUUID \<times> nat) list \<times> goal_handle_impl list \<times> (nat \<times> user_handle) list \<times> nat" where
  "core s = (as_valid s, as_goals s, as_result_timeout s, goal_handles s, impls s, users s, next_user s)"

lemma core_cong:
  "core s = core t \<Longrightarrow> as_valid s = as_valid t \<and> as_goals s = as_goals t \<and> as_result_timeout s = as_result_timeout t \<and>
     goal_handles s = goal_handles t \<and> impls s = impls t \<and> users s = users t \<and> next_user s = next_user t"
  by (simp add: core_def)

lemma uuidcmp_eq: "length u = UUID_SIZE \<Longrightarrow> length v = UUID_SIZE \<Longrightarrow> uuidcmp u v \<longleftrightarrow> u = v"
  by (simp add: uuidcmp_def)

lemma convert_id: "length u = UUID_SIZE \<Longrightarrow> convert u = u"
  unfolding convert_def UUID_SIZE_def by (metis map_nth)

lemma length_convert [simp]: "length (convert u) = UUID_SIZE"
  by (simp add: convert_def UUID_SIZE_def)

section \<open>Reading the goals\<close>

definition live :: "action_server \<Rightarrow> nat \<Rightarrow> bool" where
  "live s a \<longleftrightarrow> a < length (impls s) \<and> owned a s"

lemma derefA_live [simp]: "live s a \<Longrightarrow> derefA a s = (Ok (impls s ! a), s)"
  by (simp add: derefA_def live_def)

lemma live_goal: "goals_ok s \<Longrightarrow> a \<in> set (as_goals s) \<Longrightarrow> live s a"
  by (force simp: goals_ok_def live_def owned_def dest!: map_of_SomeD)

lemma goal_unique:
  assumes "goals_ok s" and "a \<in> set (as_goals s)" and "b \<in> set (as_goals s)" and "id_of s a = id_of s b"
  shows "a = b"
proof -
  have "map_of (goal_handles s) (id_of s a) = Some a" using assms(1,2) unfolding goals_ok_def by blast
  moreover have "map_of (goal_handles s) (id_of s b) = Some b" using assms(1,3) unfolding goals_ok_def by blast
  ultimately have "Some a = Some b" unfolding assms(4) by (rule trans [OF sym])
  then show ?thesis by (rule option.inject [THEN iffD1])
qed

lemma find_unique:
  assumes "a \<in> set xs" and "P a" and "\<forall>b \<in> set xs. P b \<longrightarrow> b = a"
  shows "List.find P xs = Some a"
  using assms(1,3)
proof (induction xs)
  case (Cons x xs)
  show ?case
  proof (cases "P x")
    case True
    then have "x = a" using Cons.prems(2) by (simp only: set_simps insert_iff ball_simps)
    then show ?thesis using True by simp
  next
    case False
    then have "a \<in> set xs" using Cons.prems(1) assms(2) by (metis set_ConsD)
    moreover have "\<forall>b \<in> set xs. P b \<longrightarrow> b = a" using Cons.prems(2) by (metis list.set_intros(2))
    ultimately show ?thesis using False Cons.IH by simp
  qed
qed simp

lemma live_user: "users_ok s \<Longrightarrow> map_of (users s) k = Some u \<Longrightarrow> live s (uh_impl u)"
  by (fastforce simp: users_ok_def live_def owned_def dest: map_of_SomeD)

lemma find_goal_eval:
  "\<forall>a \<in> set as. live s a \<Longrightarrow> find_goal uuid as s = (Ok (\<exists>a \<in> set as. uuidcmp (id_of s a) uuid), s)"
  by (induction as) (simp_all add: act_simps)

lemma deref_all_eval:
  "\<forall>a \<in> set as. live s a \<Longrightarrow> mapA derefA as s = (Ok (map (\<lambda>a. impls s ! a) as), s)"
  by (induction as) (simp_all add: act_simps)

lemma cancel_many_eval:
  "\<forall>a \<in> set as. live s a \<Longrightarrow>
     cancel_many uuid ns as s = (Ok (map (\<lambda>a. gh_info (impls s ! a)) (filter (\<lambda>a.
       rcl_action_goal_handle_is_cancelable (Some (impls s ! a)) \<and>
       (stamp_of s a \<le> ns \<or> uuidcmp uuid (id_of s a))) as)), s)"
  by (induction as) (simp_all add: act_simps)

lemma cancel_one_eval:
  "\<forall>a \<in> set as. live s a \<Longrightarrow>
     cancel_one uuid as s = (Ok (case List.find (\<lambda>a. uuidcmp uuid (id_of s a)) as of
        None \<Rightarrow> (ERROR_UNKNOWN_GOAL_ID, [])
      | Some a \<Rightarrow> if rcl_action_goal_handle_is_cancelable (Some (impls s ! a))
                  then (ERROR_NONE, [gh_info (impls s ! a)]) else (ERROR_GOAL_TERMINATED, [])), s)"
  by (induction as) (simp_all add: act_simps)

lemma i64_sub_times:
  "0 \<le> t \<Longrightarrow> t < TIMEOUT_END \<Longrightarrow> - TIMEOUT_END < u \<Longrightarrow> u < TIMEOUT_END \<Longrightarrow> i64_sub t u = Ok (t - u)"
  by (simp add: i64_sub_def in_i64_def)

lemma inactive_goals_eval:
  assumes "\<forall>a \<in> set as. live s a \<and> 0 \<le> stamp_of s a \<and> stamp_of s a < TIME_END"
    and "0 \<le> now" "now < TIME_END" "0 \<le> timeout" "timeout < TIMEOUT_END"
  shows "\<exists>k l. inactive_goals timeout now as n least s = (Ok (k, l), s) \<and> l \<le> least \<and>
     (k = n \<longleftrightarrow> (\<forall>a \<in> set as. rcl_action_goal_handle_is_active (Some (impls s ! a)))) \<and> n \<le> k"
  using assms(1)
proof (induction as arbitrary: n least)
  case (Cons a as)
  have t: "i64_sub now (stamp_of s a) = Ok (now - stamp_of s a)"
    "i64_sub timeout (now - stamp_of s a) = Ok (timeout - (now - stamp_of s a))"
    using Cons.prems assms by (auto intro!: i64_sub_times)
  show ?case
  proof (cases "rcl_action_goal_handle_is_active (Some (impls s ! a))")
    case True
    then show ?thesis using Cons by (simp add: act_simps)
  next
    case False
    obtain k l where "inactive_goals timeout now as (Suc n)
          (if timeout - (now - stamp_of s a) < least then timeout - (now - stamp_of s a) else least) s = (Ok (k, l), s)"
        "l \<le> least" "Suc n \<le> k"
      using Cons.IH [of "Suc n" "if timeout - (now - stamp_of s a) < least then timeout - (now - stamp_of s a) else least"]
        Cons.prems by (auto split: if_splits)
    then show ?thesis using False t Cons.prems by (simp add: act_simps)
  qed
qed (simp add: act_simps)

section \<open>Sending and publishing\<close>

lemmas inv_defs = srv_inv_def goals_ok_def impls_ok_def users_ok_def typed_ok_def results_ok_def timer_ok_def

lemma inv_other_fields [simp]:
  "srv_inv (s\<lparr>calls := x1\<rparr>) = srv_inv s"
  "srv_inv (s\<lparr>sent := x2\<rparr>) = srv_inv s"
  "srv_inv (s\<lparr>goal_request_ready := b1\<rparr>) = srv_inv s"
  "srv_inv (s\<lparr>cancel_request_ready := b1\<rparr>) = srv_inv s"
  "srv_inv (s\<lparr>result_request_ready := b1\<rparr>) = srv_inv s"
  "srv_inv (s\<lparr>goal_expired := b1\<rparr>) = srv_inv s"
  "srv_inv (s\<lparr>result_requests := x3\<rparr>) = srv_inv s"
  by (simp_all add: inv_defs)

lemma core_other_fields [simp]:
  "core (s\<lparr>calls := x1\<rparr>) = core s"
  "core (s\<lparr>sent := x2\<rparr>) = core s"
  "core (s\<lparr>goal_request_ready := b1\<rparr>) = core s"
  "core (s\<lparr>cancel_request_ready := b1\<rparr>) = core s"
  "core (s\<lparr>result_request_ready := b1\<rparr>) = core s"
  "core (s\<lparr>goal_expired := b1\<rparr>) = core s"
  "core (s\<lparr>result_requests := x3\<rparr>) = core s"
  "core (s\<lparr>goal_results := x4\<rparr>) = core s"
  "core (s\<lparr>as_timer := x5\<rparr>) = core s"
  "core (s\<lparr>typed_handles := x6\<rparr>) = core s"
  by (simp_all add: core_def)

text \<open>The invariant together with a core that must not change.\<close>

definition inv_core :: "bool \<times> nat list \<times> int \<times> (GoalUUID \<times> nat) list \<times> goal_handle_impl list \<times> (nat \<times> user_handle) list \<times> nat
    \<Rightarrow> action_server \<Rightarrow> bool" where
  "inv_core c s \<longleftrightarrow> srv_inv s \<and> core s = c"

lemma ub_throw_rcl [simp]: "\<not> ub (throw_from_rcl_error ret pre)"
  by (cases ret) (simp_all add: throw_from_rcl_error_def Let_def)

lemma safe_throw_unless_ok: "safe J (throw_unless_ok ret)"
  by (simp add: throw_unless_ok_def safe_pure)

lemma safe_transmit: "safe (inv_core c) (transmitA env msg)"
  by (rule safeI) (simp add: transmitA_def Let_def inv_core_def)

lemma safe_clock: "safe (inv_core c) (clockA env)"
  by (rule safeI) (simp add: clockA_def inv_core_def)

lemma safe_send_service_response: "safe (inv_core c) (send_service_response env msg)"
  unfolding send_service_response_def by (auto intro!: safe_rules safe_transmit)

lemma safe_rcl_publish_status: "safe (inv_core c) (rcl_action_publish_status env st)"
  unfolding rcl_action_publish_status_def by (auto intro!: safe_rules safe_transmit)

lemma safe_rcl_publish_feedback: "safe (inv_core c) (rcl_action_publish_feedback env u fb)"
  unfolding rcl_action_publish_feedback_def by (auto intro!: safe_rules safe_transmit)

lemma safe_server_publish_feedback: "safe (inv_core c) (server_publish_feedback env u fb)"
  unfolding server_publish_feedback_def by (auto intro!: safe_rules safe_rcl_publish_feedback)

lemma clock_eval: "clockA env s = (Ok (env_clock env (calls s)), s\<lparr>calls := Suc (calls s)\<rparr>)"
  by (simp add: clockA_def)

lemma goal_array_eval: "srv_inv s \<Longrightarrow> goal_arrayA s = (Ok (as_goals s), s)"
  by (simp add: goal_arrayA_def srv_inv_def timer_ok_def)

lemma live_goals: "srv_inv s \<Longrightarrow> \<forall>a \<in> set (as_goals s). live s a"
  by (simp add: srv_inv_def live_goal)

lemma goal_exists_eval:
  "srv_inv s \<Longrightarrow> length (goal_id info) = UUID_SIZE \<Longrightarrow>
     rcl_action_server_goal_exists info s = (Ok (as_valid s \<and> (\<exists>a \<in> set (as_goals s). id_of s a = goal_id info)), s)"
  unfolding rcl_action_server_goal_exists_def
  by (simp add: act_simps goal_array_eval find_goal_eval live_goals)
    (auto simp: srv_inv_def goals_ok_def uuidcmp_eq)

definition status_list :: "action_server \<Rightarrow> (goal_info \<times> goal_state) list" where
  "status_list s = map (\<lambda>a. (gh_info (impls s ! a), state_of s a)) (as_goals s)"

lemma publish_status_eval:
  assumes "srv_inv s"
  shows "publish_status env s =
    (if \<not> as_valid s then (Inl (throw_from_rcl_error RCL_RET_ACTION_SERVER_INVALID []), s)
     else bindA (rcl_action_publish_status env (status_list s)) throw_unless_ok s)"
proof -
  have "\<forall>a \<in> set (as_goals s). convert (id_of s a) = id_of s a"
    using assms by (simp add: srv_inv_def goals_ok_def convert_id)
  then have "map (\<lambda>g. (\<lparr>goal_id = convert (goal_id (gh_info g)), goal_stamp = goal_stamp (gh_info g)\<rparr>, gh_state g))
      (map (\<lambda>a. impls s ! a) (as_goals s)) = status_list s"
    by (simp add: status_list_def)
  then show ?thesis using assms
    by (simp add: publish_status_def act_simps goal_array_eval deref_all_eval live_goals)
qed

lemma safe_publish_status: "safe (inv_core c) (publish_status env)"
proof (rule safeI)
  fix s assume J: "inv_core c s"
  have "safe (inv_core c) (bindA (rcl_action_publish_status env (status_list s)) throw_unless_ok)"
    by (intro safe_rules safe_rcl_publish_status safe_throw_unless_ok)
  from safeD [OF this J] J
  show "\<not> ub_result (fst (publish_status env s)) \<and> inv_core c (snd (publish_status env s))"
    by (simp add: publish_status_eval inv_core_def)
qed

section \<open>The end of a goal\<close>

lemma recalculate_eval:
  assumes "goals_ok s" and "impls_ok s" and "timer_ok s" and "good_env env"
  shows "\<exists>n t. recalculate_expire_timer env s = (Ok RCL_RET_OK, s\<lparr>calls := n, as_timer := Some t\<rparr>) \<and>
     0 \<le> period t \<and> period t < TIMEOUT_END"
proof -
  obtain now now2 where now: "env_clock env (calls s) = Inr now" "0 \<le> now" "now < TIME_END"
      and now2: "env_clock env (Suc (calls s)) = Inr now2" "0 \<le> now2" "now2 < TIME_END"
    using assms(4) unfolding good_env_def by metis
  obtain t where t: "as_timer s = Some t" "0 \<le> period t" "period t < TIMEOUT_END" "\<not> as_stale s"
      "0 \<le> as_result_timeout s" "as_result_timeout s < TIMEOUT_END"
    using assms(3) by (auto simp: timer_ok_def)
  let ?s1 = "s\<lparr>calls := Suc (calls s)\<rparr>"
  have "\<forall>a \<in> set (as_goals s). live ?s1 a"
    using live_goal [OF assms(1)] by (simp add: live_def owned_def)
  moreover have "\<forall>a \<in> set (as_goals s). 0 \<le> stamp_of s a \<and> stamp_of s a < TIME_END"
    using assms(1,2) by (auto simp: impls_ok_def goals_ok_def)
  ultimately have "\<forall>a \<in> set (as_goals s). live ?s1 a \<and> 0 \<le> stamp_of ?s1 a \<and> stamp_of ?s1 a < TIME_END"
    by simp
  from inactive_goals_eval [OF this now(2,3) t(5,6)] obtain k l where
    kl: "inactive_goals (as_result_timeout s) now (as_goals s) 0 (as_result_timeout s) ?s1 = (Ok (k, l), ?s1)"
      "l \<le> as_result_timeout s" by blast
  have range: "in_i64 (now2 + period t)" "l < TIMEOUT_END" using now2 t kl(2) by (simp_all add: in_i64_def)
  note eval = recalculate_expire_timer_def clockA_def goal_arrayA_def act_simps kl(1) now(1) now2(1) t(1,4)
  show ?thesis
  proof (cases "as_goals s = [] \<or> k = 0")
    case True
    then show ?thesis using t
      by (intro exI [of _ "Suc (calls s)"] exI [of _ "t\<lparr>canceled := True\<rparr>"])
        (simp add: eval rcl_timer_cancel_def)
  next
    case False
    then show ?thesis using t range
      by (intro exI [of _ "Suc (Suc (calls s))"]
          exI [of _ "t\<lparr>next_call_time := now2 + period t, canceled := False, period := if l < 0 then 0 else l\<rparr>"])
        (simp add: eval Let_def rcl_timer_reset_def i64_add_def rcl_timer_exchange_period_def)
  qed
qed

lemma inv_timer_update:
  "srv_inv s \<Longrightarrow> 0 \<le> period t \<Longrightarrow> period t < TIMEOUT_END \<Longrightarrow> srv_inv (s\<lparr>calls := n, as_timer := Some t\<rparr>)"
  by (simp add: inv_defs)

lemma safe_notify: "good_env env \<Longrightarrow> safe (inv_core c) (notify_goal_terminal_state env)"
proof (rule safeI)
  fix s assume env: "good_env env" and J: "inv_core c s"
  then obtain n t where "recalculate_expire_timer env s = (Ok RCL_RET_OK, s\<lparr>calls := n, as_timer := Some t\<rparr>)"
      "0 \<le> period t" "period t < TIMEOUT_END"
    using recalculate_eval [of s env] unfolding inv_core_def srv_inv_def by auto
  then show "\<not> ub_result (fst (notify_goal_terminal_state env s)) \<and> inv_core c (snd (notify_goal_terminal_state env s))"
    using J by (simp add: notify_goal_terminal_state_def rcl_action_notify_goal_done_def act_simps throw_unless_ok_def
        inv_core_def inv_timer_update)
qed

text \<open>A result may be published for a goal of the array that has reached the state of the result.\<close>

definition has_ended :: "GoalUUID \<Rightarrow> goal_state \<Rightarrow> bool \<times> nat list \<times> int \<times> (GoalUUID \<times> nat) list \<times> goal_handle_impl list \<times> (nat \<times> user_handle) list \<times> nat \<Rightarrow> bool" where
  "has_ended uuid st c = (case c of (_, goals, _, _, is, _, _) \<Rightarrow>
     terminal st \<and> length uuid = UUID_SIZE \<and> (\<exists>a \<in> set goals. goal_id (gh_info (is ! a)) = uuid \<and> gh_state (is ! a) = st))"

lemma inv_result_update:
  "inv_core c s \<Longrightarrow> has_ended uuid (fst r) c \<Longrightarrow> inv_core c (s\<lparr>goal_results := AList.update uuid r (goal_results s)\<rparr>)"
  unfolding inv_core_def inv_defs has_ended_def core_def by (auto simp: update_conv')

lemma safe_publish_result:
  assumes "has_ended uuid (fst r) c"
  shows "safe (inv_core c) (publish_result env uuid r)"
proof (rule safeI)
  fix s assume J: "inv_core c s"
  have uuid: "length uuid = UUID_SIZE" using assms by (simp add: has_ended_def split_beta)
  let ?tail = "bindA (getA (\<lambda>s. map_of (result_requests s) uuid)) (\<lambda>iter. case iter of
      None \<Rightarrow> retA ()
    | Some hdrs \<Rightarrow> forA (\<lambda>hdr. bindA (send_service_response env (Result_response hdr r)) throw_unless_ok) hdrs)"
  have tail: "safe (inv_core c) ?tail"
    by (auto intro!: safe_rules safe_send_service_response safe_throw_unless_ok split: option.split)
  from safeD [OF tail inv_result_update [OF J assms]] J
  show "\<not> ub_result (fst (publish_result env uuid r s)) \<and> inv_core c (snd (publish_result env uuid r s))"
    using uuid by (simp add: publish_result_def act_simps goal_exists_eval inv_core_def convert_id)
qed

lemma inv_typed_delete: "inv_core c s \<Longrightarrow> inv_core c (s\<lparr>typed_handles := AList.delete uuid (typed_handles s)\<rparr>)"
  unfolding inv_core_def inv_defs by (auto simp: delete_conv')

lemma safe_on_terminal_state:
  "good_env env \<Longrightarrow> has_ended uuid (fst r) c \<Longrightarrow> safe (inv_core c) (on_terminal_state env uuid r)"
  unfolding on_terminal_state_def
  by (intro safe_seq safe_publish_result safe_publish_status safe_notify safe_mod inv_typed_delete)

section \<open>Calls on the user's handle\<close>

lemma safe_inv: "(\<And>c. safe (inv_core c) m) \<Longrightarrow> safe srv_inv m"
  unfolding safe_def inv_core_def by blast

lemma results_okD:
  assumes "results_ok s" and "map_of (goal_results s) uuid = Some (st, p)"
  obtains a where "terminal st" and "a \<in> set (as_goals s)" and "id_of s a = uuid" and "state_of s a = st"
  using assms unfolding results_ok_def by blast

lemma inv_state_update:
  assumes "srv_inv s" and "\<not> terminal (state_of s a)" and "st \<noteq> GOAL_STATE_UNKNOWN"
  shows "srv_inv (s\<lparr>impls := (impls s)[a := (impls s ! a)\<lparr>gh_state := st\<rparr>]\<rparr>)"
proof -
  define is' where "is' = (impls s)[a := (impls s ! a)\<lparr>gh_state := st\<rparr>]"
  have len: "length is' = length (impls s)" by (simp add: is'_def)
  have info: "gh_info (is' ! b) = gh_info (impls s ! b)" for b
    by (cases "b = a"; cases "a < length (impls s)") (simp_all add: is'_def not_less list_update_beyond)
  have other: "gh_state (is' ! b) = state_of s b" if "b \<noteq> a" for b using that by (simp add: is'_def)
  have state: "gh_state (is' ! b) = state_of s b \<or> b = a \<and> gh_state (is' ! b) = st" for b
    by (cases "b = a"; cases "a < length (impls s)") (simp_all add: is'_def not_less list_update_beyond)
  have inv: "goals_ok s" "impls_ok s" "users_ok s" "typed_ok s" "results_ok s" "timer_ok s"
    using assms(1) by (simp_all add: srv_inv_def)
  let ?s = "s\<lparr>impls := is'\<rparr>"
  have old: "\<not> terminal (state_of s b)" if "\<not> terminal (gh_state (is' ! b))" for b
    using state [of b] that assms(2) by auto
  have ended: "gh_state (is' ! b) = state_of s b" if "terminal (state_of s b)" for b
    using other [of b] that assms(2) by auto
  have known: "gh_state (is' ! b) \<noteq> GOAL_STATE_UNKNOWN" if "b < length (impls s)" for b
    using inv(2) state [of b] assms(3) that by (auto simp: impls_ok_def)
  have "goals_ok ?s" using inv(1) by (simp add: goals_ok_def info len)
  moreover have "impls_ok ?s" using inv(2) known by (simp add: impls_ok_def info len)
  moreover have "users_ok ?s" using inv(3) by (auto simp: users_ok_def info len dest: old)
  moreover have "typed_ok ?s" using inv(4) by (simp add: typed_ok_def)
  moreover have "results_ok ?s" unfolding results_ok_def
  proof (intro allI impI)
    fix uuid st' p assume "map_of (goal_results ?s) uuid = Some (st', p)"
    then obtain b where "terminal st'" "b \<in> set (as_goals s)" "id_of s b = uuid" "state_of s b = st'"
      using results_okD [OF inv(5), of uuid st' p] by auto
    then show "terminal st' \<and> (\<exists>a \<in> set (as_goals ?s). id_of ?s a = uuid \<and> state_of ?s a = st')"
      using ended [of b] info [of b] by (auto intro!: bexI [of _ b])
  qed
  moreover have "timer_ok ?s" using inv(6) by (simp add: timer_ok_def)
  ultimately show ?thesis by (simp add: srv_inv_def is'_def)
qed

definition upd_state :: "nat \<Rightarrow> goal_state \<Rightarrow> action_server \<Rightarrow> action_server" where
  "upd_state a st s = s\<lparr>impls := (impls s)[a := (impls s ! a)\<lparr>gh_state := st\<rparr>]\<rparr>"

lemma on_impl_eval:
  "live s a \<Longrightarrow> on_implA a (update_or_throw e) s =
     (let st = rcl_action_transition_goal_state (state_of s a) e
      in if st = GOAL_STATE_UNKNOWN then (Inl (throw_from_rcl_error RCL_RET_ACTION_GOAL_EVENT_INVALID []), s)
         else (Ok (), upd_state a st s))"
  by (simp add: on_implA_def act_simps update_or_throw_def rcl_action_update_goal_state_def Let_def set_implA_def upd_state_def)

lemma transition_Some:
  "rcl_action_transition_goal_state s e = st \<Longrightarrow> st \<noteq> GOAL_STATE_UNKNOWN \<Longrightarrow> \<not> terminal s \<and> valid_edge s e st"
  using transition_edge valid_edge_not_terminal by blast

lemma safe_on_impl:
  assumes "srv_inv s" and "live s a"
  shows "\<not> ub_result (fst (on_implA a (update_or_throw e) s)) \<and> srv_inv (snd (on_implA a (update_or_throw e) s))"
  using assms transition_Some [of "state_of s a" e]
  by (auto simp: on_impl_eval Let_def upd_state_def inv_state_update)

lemma has_ended_upd:
  assumes "srv_inv s" and "a \<in> set (as_goals s)" and "terminal st"
  shows "has_ended (id_of s a) st (core (upd_state a st s))"
  using assms by (auto simp: has_ended_def core_def upd_state_def srv_inv_def goals_ok_def intro!: bexI [of _ a])

text \<open>The goal of a live handle ends and its result is published.\<close>

lemma end_goal:
  assumes "srv_inv s" and "good_env env" and "map_of (users s) k = Some u"
    and "\<not> terminal (state_of s (uh_impl u))" and "terminal st" and "fst r = st"
  shows "\<not> ub_result (fst (on_terminal_state env (uh_uuid u) r (upd_state (uh_impl u) st s))) \<and>
     srv_inv (snd (on_terminal_state env (uh_uuid u) r (upd_state (uh_impl u) st s)))"
proof -
  let ?s = "upd_state (uh_impl u) st s"
  have "(k, u) \<in> set (users s)" using assms(3) by (rule map_of_SomeD)
  then have u: "id_of s (uh_impl u) = uh_uuid u" "uh_impl u \<in> set (as_goals s)"
    using assms(1,4) by (auto simp: srv_inv_def users_ok_def)
  have "srv_inv ?s" using assms unfolding upd_state_def by (intro inv_state_update) (auto simp: terminal_def)
  then have "inv_core (core ?s) ?s" by (simp add: inv_core_def)
  moreover have "has_ended (uh_uuid u) (fst r) (core ?s)" using has_ended_upd [OF assms(1) u(2) assms(5)] u assms(6) by simp
  ultimately show ?thesis using safeD [OF safe_on_terminal_state [OF assms(2)]] by (auto simp: inv_core_def)
qed

lemma safe_user_end:
  assumes "srv_inv s" and "good_env env" and "map_of (users s) k = Some u"
    and "\<And>x y. valid_edge x e y \<Longrightarrow> y = fst r" and "terminal (fst r)"
  defines "op \<equiv> bindA (userA k) (\<lambda>u. seqA (on_implA (uh_impl u) (update_or_throw e)) (on_terminal_state env (uh_uuid u) r))"
  shows "\<not> ub_result (fst (op s)) \<and> srv_inv (snd (op s))"
proof -
  have live: "live s (uh_impl u)" using assms(1,3) by (auto simp: srv_inv_def intro: live_user)
  have op: "op s = seqA (on_implA (uh_impl u) (update_or_throw e)) (on_terminal_state env (uh_uuid u) r) s"
    using assms(3) by (simp add: op_def act_simps userA_def)
  show ?thesis
  proof (cases "rcl_action_transition_goal_state (state_of s (uh_impl u)) e = GOAL_STATE_UNKNOWN")
    case True
    then show ?thesis using live assms(1) by (simp add: op act_simps on_impl_eval Let_def)
  next
    case False
    note t = transition_Some [OF refl False]
    then have "rcl_action_transition_goal_state (state_of s (uh_impl u)) e = fst r" using assms(4) by blast
    then show ?thesis using end_goal [OF assms(1-3) _ assms(5) refl] t False live
      by (simp add: op act_simps on_impl_eval Let_def)
  qed
qed

lemma ending_edges:
  "valid_edge x GOAL_EVENT_ABORT y \<Longrightarrow> y = GOAL_STATE_ABORTED"
  "valid_edge x GOAL_EVENT_SUCCEED y \<Longrightarrow> y = GOAL_STATE_SUCCEEDED"
  "valid_edge x GOAL_EVENT_CANCELED y \<Longrightarrow> y = GOAL_STATE_CANCELED"
  by (auto simp: valid_edge_def)

lemma terminal_simps [simp]:
  "terminal GOAL_STATE_ABORTED" "terminal GOAL_STATE_SUCCEEDED" "terminal GOAL_STATE_CANCELED"
  "\<not> terminal GOAL_STATE_ACCEPTED" "\<not> terminal GOAL_STATE_EXECUTING" "\<not> terminal GOAL_STATE_CANCELING"
  "\<not> terminal GOAL_STATE_UNKNOWN"
  by (simp_all add: terminal_def)

lemmas goal_events = goal_abort_def goal_succeed_def goal_canceled_def goal_execute_def goal_cancel_goal_def

lemma goal_event_funs:
  "goal_abort = update_or_throw GOAL_EVENT_ABORT"
  "goal_succeed = update_or_throw GOAL_EVENT_SUCCEED"
  "goal_canceled = update_or_throw GOAL_EVENT_CANCELED"
  "goal_execute = update_or_throw GOAL_EVENT_EXECUTE"
  "goal_cancel_goal = update_or_throw GOAL_EVENT_CANCEL_GOAL"
  by (simp_all add: goal_events fun_eq_iff)

lemma safe_user_abort:
  assumes "srv_inv s" and "good_env env" and "map_of (users s) k = Some u"
  shows "\<not> ub_result (fst (user_abort env k p s)) \<and> srv_inv (snd (user_abort env k p s))"
  unfolding user_abort_def goal_event_funs by (rule safe_user_end [OF assms]) (simp_all add: ending_edges)

lemma safe_user_succeed:
  assumes "srv_inv s" and "good_env env" and "map_of (users s) k = Some u"
  shows "\<not> ub_result (fst (user_succeed env k p s)) \<and> srv_inv (snd (user_succeed env k p s))"
  unfolding user_succeed_def goal_event_funs by (rule safe_user_end [OF assms]) (simp_all add: ending_edges)

lemma safe_user_canceled:
  assumes "srv_inv s" and "good_env env" and "map_of (users s) k = Some u"
  shows "\<not> ub_result (fst (user_canceled env k p s)) \<and> srv_inv (snd (user_canceled env k p s))"
  unfolding user_canceled_def goal_event_funs by (rule safe_user_end [OF assms]) (simp_all add: ending_edges)

lemma safe_user_execute:
  assumes "srv_inv s" and "map_of (users s) k = Some u"
  shows "\<not> ub_result (fst (user_execute env k s)) \<and> srv_inv (snd (user_execute env k s))"
proof -
  have live: "live s (uh_impl u)" using assms by (auto simp: srv_inv_def intro: live_user)
  obtain r t where rt: "on_implA (uh_impl u) goal_execute s = (r, t)" by fastforce
  then have t: "\<not> ub_result r" "srv_inv t"
    using safe_on_impl [OF assms(1) live, of GOAL_EVENT_EXECUTE] unfolding goal_event_funs by auto
  show ?thesis using t safeD [OF safe_inv [OF safe_publish_status] t(2), of env] assms(2)
    by (cases r) (auto simp: user_execute_def act_simps userA_def rt on_executing_def)
qed

lemma safe_user_publish_feedback:
  assumes "srv_inv s" and "map_of (users s) k = Some u"
  shows "\<not> ub_result (fst (user_publish_feedback env k fb s)) \<and> srv_inv (snd (user_publish_feedback env k fb s))"
  using safeD [OF safe_inv [OF safe_server_publish_feedback] assms(1)] assms(2)
  by (simp add: user_publish_feedback_def act_simps userA_def)

lemma inv_user_delete:
  assumes "srv_inv s"
  shows "srv_inv (s\<lparr>users := AList.delete k (users s)\<rparr>)"
proof -
  have "users_ok (s\<lparr>users := AList.delete k (users s)\<rparr>)"
    using assms by (auto simp: srv_inv_def users_ok_def AList.delete_eq)
  moreover have "typed_ok (s\<lparr>users := AList.delete k (users s)\<rparr>)"
    using assms by (simp add: srv_inv_def typed_ok_def delete_conv')
  ultimately show ?thesis using assms by (simp add: srv_inv_def goals_ok_def impls_ok_def results_ok_def timer_ok_def)
qed

lemma safe_user_destroy:
  assumes "srv_inv s" and "good_env env" and "map_of (users s) k = Some u"
  shows "\<not> ub_result (fst (user_destroy env k s)) \<and> srv_inv (snd (user_destroy env k s))"
proof -
  let ?a = "uh_impl u"
  have live: "live s ?a" using assms(1,3) by (auto simp: srv_inv_def intro: live_user)
  have known: "state_of s ?a \<noteq> GOAL_STATE_UNKNOWN" using assms(1) live by (auto simp: srv_inv_def impls_ok_def live_def)
  show ?thesis
  proof (cases "terminal (state_of s ?a)")
    case True
    have "(impls s)[?a := impls s ! ?a] = impls s" by simp
    then show ?thesis using True known live assms(1,3) inv_user_delete [OF assms(1)]
      by (simp add: user_destroy_def act_simps noexceptA_def userA_def try_canceling_eq active_iff set_implA_def)
  next
    case False
    obtain r t where rt: "on_terminal_state env (uh_uuid u) (GOAL_STATE_CANCELED, []) (upd_state ?a GOAL_STATE_CANCELED s) = (r, t)"
      by fastforce
    then have "\<not> ub_result r" "srv_inv t"
      using end_goal [OF assms False, of GOAL_STATE_CANCELED "(GOAL_STATE_CANCELED, [])"] by auto
    then show ?thesis using False known live assms(3) rt inv_user_delete
      by (cases r) (auto simp: user_destroy_def act_simps noexceptA_def userA_def try_canceling_eq active_iff set_implA_def
          upd_state_def)
  qed
qed

section \<open>Goal requests\<close>

lemma stamp_roundtrip:
  "0 \<le> now \<Longrightarrow> now < TIME_END \<Longrightarrow> goal_info_stamp_to_nanosec (nanosec_to_goal_info_stamp now info) = now"
proof -
  assume now: "0 \<le> now" "now < TIME_END"
  have "cdiv now NS_PER_S = now div NS_PER_S" "cmod now NS_PER_S = now mod NS_PER_S"
    using now by (simp_all add: cdiv_nonneg cmod_nonneg)
  moreover have "0 \<le> now div NS_PER_S" "now div NS_PER_S \<le> INT32_MAX" "0 \<le> now mod NS_PER_S" "now mod NS_PER_S < NS_PER_S"
    using now by linarith+
  moreover have "now div NS_PER_S * NS_PER_S + now mod NS_PER_S = now" by simp
  ultimately show ?thesis
    by (simp add: goal_info_stamp_to_nanosec_def nanosec_to_goal_info_stamp_def to_i32_id to_u32_id in_i32_def in_u32_def)
qed

definition new_goal :: "int \<Rightarrow> GoalUUID \<Rightarrow> goal_handle_impl" where
  "new_goal now uuid =
     \<lparr>gh_info = nanosec_to_goal_info_stamp now (zero_goal_info\<lparr>goal_id := uuid\<rparr>), gh_state = GOAL_STATE_ACCEPTED\<rparr>"

lemma new_goal_simps [simp]:
  "goal_id (gh_info (new_goal now uuid)) = uuid" "gh_state (new_goal now uuid) = GOAL_STATE_ACCEPTED"
  by (simp_all add: new_goal_def nanosec_to_goal_info_stamp_def)

lemma accept_eval:
  assumes "srv_inv s" and "good_env env" and "length uuid = UUID_SIZE"
  shows "\<exists>now. env_clock env (calls s) = Inr now \<and> 0 \<le> now \<and> now < TIME_END \<and>
     rcl_action_accept_new_goal env (zero_goal_info\<lparr>goal_id := uuid\<rparr>) s =
       (if as_valid s \<and> (\<forall>a \<in> set (as_goals s). id_of s a \<noteq> uuid)
        then (Ok (Some (length (impls s))), s\<lparr>calls := Suc (calls s), impls := impls s @ [new_goal now uuid],
               as_goals := as_goals s @ [length (impls s)]\<rparr>)
        else (Ok None, s))"
proof -
  obtain now where now: "env_clock env (calls s) = Inr now" "0 \<le> now" "now < TIME_END"
    using assms(2) unfolding good_env_def by blast
  then show ?thesis using assms(1,3)
    by (intro exI [of _ now]) (auto simp: rcl_action_accept_new_goal_def act_simps goal_exists_eval goal_array_eval clockA_def
        rcl_action_goal_handle_init_def new_goal_def)
qed

lemma inv_accept:
  assumes "srv_inv s" and "\<forall>a \<in> set (as_goals s). id_of s a \<noteq> uuid" and "length uuid = UUID_SIZE"
    and "0 \<le> now" and "now < TIME_END"
  shows "srv_inv (s\<lparr>calls := n, impls := impls s @ [new_goal now uuid], as_goals := as_goals s @ [length (impls s)],
     goal_handles := AList.update uuid (length (impls s)) (goal_handles s)\<rparr>)" (is "srv_inv ?s")
proof -
  have inv: "goals_ok s" "impls_ok s" "users_ok s" "typed_ok s" "results_ok s" "timer_ok s"
    using assms(1) by (simp_all add: srv_inv_def)
  have old: "impls ?s ! a = impls s ! a" if "a < length (impls s)" for a using that by (simp add: nth_append)
  have "goals_ok ?s" using inv(1) assms(2,3) by (auto simp: goals_ok_def nth_append update_conv')
  moreover have "impls_ok ?s" using inv(2) assms(4,5)
    by (auto simp: impls_ok_def nth_append less_Suc_eq) (auto simp: new_goal_def stamp_roundtrip)
  moreover have "users_ok ?s" using inv(3) by (auto simp: users_ok_def nth_append)
  moreover have "typed_ok ?s" using inv(4) by (simp add: typed_ok_def)
  moreover have "results_ok ?s" unfolding results_ok_def
  proof (intro allI impI)
    fix v st p assume "map_of (goal_results ?s) v = Some (st, p)"
    then obtain b where b: "terminal st" "b \<in> set (as_goals s)" "id_of s b = v" "state_of s b = st"
      using results_okD [OF inv(5), of v st p] by auto
    then have "b < length (impls s)" using inv(1) by (simp add: goals_ok_def)
    from old [OF this] b show "terminal st \<and> (\<exists>a \<in> set (as_goals ?s). id_of ?s a = v \<and> state_of ?s a = st)"
      by (auto intro!: bexI [of _ b])
  qed
  moreover have "timer_ok ?s" using inv(6) by (simp add: timer_ok_def)
  ultimately show ?thesis by (simp add: srv_inv_def)
qed

lemma inv_new_user:
  assumes "srv_inv s" and "a \<in> set (as_goals s)" and "id_of s a = uuid"
  shows "srv_inv (s\<lparr>users := (next_user s, \<lparr>uh_impl = a, uh_uuid = uuid, uh_goal = goal\<rparr>) # users s,
     next_user := Suc (next_user s), typed_handles := AList.update uuid (next_user s) (typed_handles s)\<rparr>)" (is "srv_inv ?s")
proof -
  have inv: "goals_ok s" "impls_ok s" "users_ok s" "typed_ok s" "results_ok s" "timer_ok s"
    using assms(1) by (simp_all add: srv_inv_def)
  have "users_ok ?s" using inv(1,3) assms(2,3) by (auto simp: users_ok_def goals_ok_def)
  moreover have "typed_ok ?s" using inv(4) by (auto simp: typed_ok_def update_conv' less_Suc_eq split: if_splits)
  ultimately show ?thesis using inv by (simp add: srv_inv_def goals_ok_def impls_ok_def results_ok_def timer_ok_def)
qed

text \<open>A goal of the array is at hand.\<close>

definition inv_goal :: "nat \<Rightarrow> GoalUUID \<Rightarrow> action_server \<Rightarrow> bool" where
  "inv_goal a uuid s \<longleftrightarrow> srv_inv s \<and> a \<in> set (as_goals s) \<and> id_of s a = uuid"

lemma safe_on_impl_goal: "safe (inv_goal a uuid) (on_implA a (update_or_throw e))"
proof (rule safeI)
  fix s assume J: "inv_goal a uuid s"
  then have live: "live s a" "a < length (impls s)" using live_goals by (auto simp: inv_goal_def live_def)
  show "\<not> ub_result (fst (on_implA a (update_or_throw e) s)) \<and> inv_goal a uuid (snd (on_implA a (update_or_throw e) s))"
    using safe_on_impl [of s a e] live J by (auto simp: inv_goal_def on_impl_eval Let_def upd_state_def)
qed

lemma safe_publish_status_goal: "safe (inv_goal a uuid) (publish_status env)"
proof (rule safeI)
  fix s assume J: "inv_goal a uuid s"
  then have "inv_core (core s) s" by (simp add: inv_goal_def inv_core_def)
  from safeD [OF safe_publish_status this] J
  show "\<not> ub_result (fst (publish_status env s)) \<and> inv_goal a uuid (snd (publish_status env s))"
    by (auto simp: inv_core_def inv_goal_def core_def)
qed

lemma safe_call_goal_accepted:
  assumes "inv_goal a uuid s" and "good_env env"
  shows "\<not> ub_result (fst (call_goal_accepted_callback env retains a uuid goal s)) \<and>
    srv_inv (snd (call_goal_accepted_callback env retains a uuid goal s))"
proof -
  let ?u = "\<lparr>uh_impl = a, uh_uuid = uuid, uh_goal = goal\<rparr>"
  let ?s = "s\<lparr>users := (next_user s, ?u) # users s,
     next_user := Suc (next_user s), typed_handles := AList.update uuid (next_user s) (typed_handles s)\<rparr>"
  have inv: "srv_inv ?s" using assms(1) inv_new_user [of s a uuid goal] by (simp add: inv_goal_def)
  have "map_of (users ?s) (next_user s) = Some ?u" by simp
  from safe_user_destroy [OF inv assms(2) this] inv show ?thesis
    by (simp add: call_goal_accepted_callback_def act_simps)
qed

lemma safe_accept_goal:
  assumes "srv_inv s" and "good_env env" and "length uuid = UUID_SIZE"
  shows "\<not> ub_result (fst (accept_goal env status retains uuid goal s)) \<and> srv_inv (snd (accept_goal env status retains uuid goal s))"
proof -
  let ?a = "length (impls s)"
  obtain now where now: "0 \<le> now" "now < TIME_END"
    "rcl_action_accept_new_goal env (zero_goal_info\<lparr>goal_id := uuid\<rparr>) s =
       (if as_valid s \<and> (\<forall>a \<in> set (as_goals s). id_of s a \<noteq> uuid)
        then (Ok (Some ?a), s\<lparr>calls := Suc (calls s), impls := impls s @ [new_goal now uuid], as_goals := as_goals s @ [?a]\<rparr>)
        else (Ok None, s))"
    using accept_eval [OF assms(1-3)] by blast
  show ?thesis
  proof (cases "as_valid s \<and> (\<forall>a \<in> set (as_goals s). id_of s a \<noteq> uuid)")
    case False
    then have "rcl_action_accept_new_goal env (zero_goal_info\<lparr>goal_id := uuid\<rparr>) s = (Ok None, s)"
      using now(3) by (simp only: if_False)
    then show ?thesis using assms(1,3) by (simp add: accept_goal_def act_simps convert_id)
  next
    case True
    let ?s = "s\<lparr>calls := Suc (calls s), impls := impls s @ [new_goal now uuid], as_goals := as_goals s @ [?a],
       goal_handles := AList.update uuid ?a (goal_handles s)\<rparr>"
    let ?tail = "seqA (whenA (status = ACCEPT_AND_EXECUTE) (on_implA ?a goal_execute))
         (seqA (publish_status env) (call_goal_accepted_callback env retains ?a uuid goal))"
    have J: "inv_goal ?a uuid ?s" using inv_accept [OF assms(1) _ assms(3) now(1,2), of "Suc (calls s)"] True
      by (simp add: inv_goal_def)
    have ex: "safe (inv_goal ?a uuid) (on_implA ?a goal_execute)" unfolding goal_event_funs by (rule safe_on_impl_goal)
    have weak: "srv_inv t" if "inv_goal ?a uuid t" for t using that by (simp add: inv_goal_def)
    have "\<not> ub_result (fst (?tail ?s)) \<and> srv_inv (snd (?tail ?s))"
      by (intro safe_seq_weaken [where J = "inv_goal ?a uuid"] safe_when ex
          safe_publish_status_goal safe_call_goal_accepted weak J assms(2))
    moreover have "accept_goal env status retains uuid goal s = ?tail ?s"
      using True now(3) assms(3) by (simp add: accept_goal_def bindA_def convert_id)
    ultimately show ?thesis by simp
  qed
qed

lemma safe_failed_take:
  "safe J (if ret = RCL_RET_ACTION_SERVER_TAKE_FAILED then retA () else throw_unless_ok ret)"
  by (simp add: safe_pure safe_throw_unless_ok)

lemma take_eval: "take_service_request inp s = (Ok (if \<not> as_valid s then Inl RCL_RET_ACTION_SERVER_INVALID else case inp of
    Inl ret \<Rightarrow> if ret = RCL_RET_BAD_ALLOC then Inl RCL_RET_BAD_ALLOC
               else if ret = RCL_RET_SERVICE_TAKE_FAILED then Inl RCL_RET_ACTION_SERVER_TAKE_FAILED else Inl RCL_RET_ERROR
  | Inr r \<Rightarrow> Inr r), s)"
  by (simp add: take_service_request_def act_simps)

text \<open>A handler: take the request, clear the ready flag, then fail or serve.\<close>

lemma safe_handler:
  assumes "\<And>s. srv_inv s \<Longrightarrow> srv_inv (clear s)" and "\<And>r. inp = Inr r \<Longrightarrow> safe srv_inv (serve r)"
  shows "safe srv_inv (bindA (take_service_request inp) (\<lambda>taken. seqA (modA clear)
    (case taken of
       Inl ret \<Rightarrow> if ret = RCL_RET_ACTION_SERVER_TAKE_FAILED then retA () else throw_unless_ok ret
     | Inr r \<Rightarrow> serve r)))"
proof (rule safeI)
  fix s assume inv: "srv_inv s"
  define taken where "taken = (if \<not> as_valid s then Inl RCL_RET_ACTION_SERVER_INVALID else case inp of
    Inl ret \<Rightarrow> if ret = RCL_RET_BAD_ALLOC then Inl RCL_RET_BAD_ALLOC
               else if ret = RCL_RET_SERVICE_TAKE_FAILED then Inl RCL_RET_ACTION_SERVER_TAKE_FAILED else Inl RCL_RET_ERROR
  | Inr r \<Rightarrow> Inr r)"
  have "safe srv_inv (case taken of
       Inl ret \<Rightarrow> if ret = RCL_RET_ACTION_SERVER_TAKE_FAILED then retA () else throw_unless_ok ret
     | Inr r \<Rightarrow> serve r)"
    using assms(2) by (cases taken) (auto simp: taken_def safe_failed_take split: if_splits sum.splits)
  from safeD [OF this assms(1) [OF inv]]
  show "\<not> ub_result (fst (bindA (take_service_request inp) (\<lambda>taken. seqA (modA clear)
    (case taken of
       Inl ret \<Rightarrow> if ret = RCL_RET_ACTION_SERVER_TAKE_FAILED then retA () else throw_unless_ok ret
     | Inr r \<Rightarrow> serve r)) s)) \<and> srv_inv (snd (bindA (take_service_request inp) (\<lambda>taken. seqA (modA clear)
    (case taken of
       Inl ret \<Rightarrow> if ret = RCL_RET_ACTION_SERVER_TAKE_FAILED then retA () else throw_unless_ok ret
     | Inr r \<Rightarrow> serve r)) s))"
    unfolding bindA_def take_eval taken_def [symmetric] by simp
qed

lemma safe_goal_request:
  assumes "good_env env" and "\<And>hdr uuid goal. inp = Inr (hdr, uuid, goal) \<Longrightarrow> length uuid = UUID_SIZE"
  shows "safe srv_inv (execute_goal_request_received env inp handle_goal retains)"
  unfolding execute_goal_request_received_def
proof (rule safe_handler)
  fix r assume "inp = Inr r"
  then have "safe srv_inv (accept_goal env status retains (fst (snd r)) (snd (snd r)))" for status
    using assms by (intro safeI safe_accept_goal) (auto simp: prod_eq_iff)
  then show "safe srv_inv (case r of (hdr, uuid, goal) \<Rightarrow> let status = handle_goal uuid goal;
              accepted = (status = ACCEPT_AND_EXECUTE \<or> status = ACCEPT_AND_DEFER)
          in bindA (send_service_response env (Goal_response hdr accepted)) (\<lambda>ret.
             seqA (throw_unless_ok ret) (whenA accepted (accept_goal env status retains uuid goal))))"
    by (auto simp: split_beta Let_def intro!: safe_bind safe_seq safe_when safe_throw_unless_ok
        safe_inv [OF safe_send_service_response])
qed simp

section \<open>Cancel and result requests\<close>

text \<open>The goals a cancel request selects, in the order of the array.\<close>

definition cancel_selection :: "goal_info \<Rightarrow> action_server \<Rightarrow> cancel_code \<times> goal_info list" where
  "cancel_selection request s =
     (let uuid = goal_id request; ns = goal_info_stamp_to_nanosec request;
          cancelable = (\<lambda>a. state_of s a = GOAL_STATE_ACCEPTED \<or> state_of s a = GOAL_STATE_EXECUTING);
          infos = (\<lambda>P. map (\<lambda>a. gh_info (impls s ! a)) (filter (\<lambda>a. cancelable a \<and> P a) (as_goals s)))
      in if uuid = zerouuid \<and> ns = 0 then (ERROR_NONE, infos (\<lambda>a. True))
         else if ns = 0 then
           (case List.find (\<lambda>a. id_of s a = uuid) (as_goals s) of
              None \<Rightarrow> (ERROR_UNKNOWN_GOAL_ID, [])
            | Some a \<Rightarrow> if cancelable a then (ERROR_NONE, [gh_info (impls s ! a)]) else (ERROR_GOAL_TERMINATED, []))
         else (ERROR_NONE, infos (\<lambda>a. stamp_of s a \<le> ns \<or> id_of s a = uuid)))"

lemma process_cancel_eval:
  assumes "srv_inv s" and "length (goal_id request) = UUID_SIZE"
  shows "rcl_action_process_cancel_request request s =
    (Ok (if as_valid s then Inr (cancel_selection request s) else Inl RCL_RET_ACTION_SERVER_INVALID), s)"
proof -
  let ?u = "goal_id request"
  have z: "uuidcmpzero ?u \<longleftrightarrow> ?u = zerouuid"
    using assms(2) by (simp add: uuidcmpzero_def zerouuid_def uuidcmp_eq)
  have cmp: "uuidcmp ?u (id_of s a) \<longleftrightarrow> id_of s a = ?u" if "a \<in> set (as_goals s)" for a
    using assms that by (auto simp: srv_inv_def goals_ok_def uuidcmp_eq)
  have find: "List.find (\<lambda>a. uuidcmp ?u (id_of s a)) (as_goals s) = List.find (\<lambda>a. id_of s a = ?u) (as_goals s)"
    using cmp by (intro find_cong) simp_all
  have all: "stamp_of s a \<le> INT64_MAX" if "a \<in> set (as_goals s)" for a
    using assms(1) that by (fastforce simp: srv_inv_def goals_ok_def impls_ok_def)
  have f1: "filter (\<lambda>a. (state_of s a = GOAL_STATE_ACCEPTED \<or> state_of s a = GOAL_STATE_EXECUTING) \<and>
       (stamp_of s a \<le> INT64_MAX \<or> Q a)) (as_goals s)
     = filter (\<lambda>a. state_of s a = GOAL_STATE_ACCEPTED \<or> state_of s a = GOAL_STATE_EXECUTING) (as_goals s)" for Q
    using all by (intro filter_cong) auto
  have f2: "filter (\<lambda>a. (state_of s a = GOAL_STATE_ACCEPTED \<or> state_of s a = GOAL_STATE_EXECUTING) \<and>
       (stamp_of s a \<le> ns \<or> uuidcmp u (id_of s a))) (as_goals s)
     = filter (\<lambda>a. (state_of s a = GOAL_STATE_ACCEPTED \<or> state_of s a = GOAL_STATE_EXECUTING) \<and>
       (stamp_of s a \<le> ns \<or> id_of s a = u)) (as_goals s)" if "length u = UUID_SIZE" for ns u
    using assms(1) that by (intro filter_cong) (auto simp: srv_inv_def goals_ok_def uuidcmp_eq)
  have len: "length zerouuid = UUID_SIZE" by (simp add: zerouuid_def)
  show ?thesis using assms(1) live_goals [OF assms(1)]
    unfolding rcl_action_process_cancel_request_def cancel_selection_def
    by (simp add: act_simps goal_array_eval Let_def z cancel_one_eval cancel_many_eval find f1 f2 [OF len] f2 [OF assms(2)]
        cancelable_iff split: option.split)
qed

lemma safe_cancel_callback: "safe srv_inv (call_handle_cancel_callback handle_cancel uuid)"
proof (rule safeI)
  fix s assume inv: "srv_inv s"
  show "\<not> ub_result (fst (call_handle_cancel_callback handle_cancel uuid s)) \<and>
    srv_inv (snd (call_handle_cancel_callback handle_cancel uuid s))"
  proof (cases "Option.bind (map_of (typed_handles s) uuid) (map_of (users s))")
    case None
    then show ?thesis using inv by (simp add: call_handle_cancel_callback_def act_simps)
  next
    case (Some u)
    then obtain k where "map_of (users s) k = Some u" by (auto simp: bind_eq_Some_conv)
    then have "live s (uh_impl u)" using inv by (auto simp: srv_inv_def intro: live_user)
    from safe_on_impl [OF inv this, of GOAL_EVENT_CANCEL_GOAL] Some inv show ?thesis
      by (cases "handle_cancel uuid")
        (auto simp: call_handle_cancel_callback_def act_simps goal_event_funs split: prod.split sum.split)
  qed
qed

lemma safe_cancel_goals: "safe srv_inv (cancel_goals handle_cancel infos)"
  by (induction infos) (auto simp: Let_def intro!: safe_rules safe_cancel_callback)

lemma safe_process_cancel: "length (goal_id request) = UUID_SIZE \<Longrightarrow> safe srv_inv (rcl_action_process_cancel_request request)"
  by (rule safeI) (simp add: process_cancel_eval)

lemma safe_goal_exists: "length (goal_id info) = UUID_SIZE \<Longrightarrow> safe srv_inv (rcl_action_server_goal_exists info)"
  by (rule safeI) (simp add: goal_exists_eval)

lemmas safe_calls = safe_throw_unless_ok safe_cancel_goals safe_process_cancel safe_goal_exists
  safe_inv [OF safe_publish_status] safe_inv [OF safe_send_service_response]

lemma safe_cancel_request: "safe srv_inv (execute_cancel_request_received env inp handle_cancel)"
  unfolding execute_cancel_request_received_def
  by (rule safe_handler) (auto intro!: safe_bind safe_seq safe_when safe_calls split: sum.split)

lemma safe_result_request: "safe srv_inv (execute_result_request_received env inp)"
  unfolding execute_result_request_received_def
  by (rule safe_handler) (auto intro!: safe_bind safe_pure safe_mod safe_calls split: option.split)

end
