(* ===== verification/ActionServerProps.thy ===== *)
theory ActionServerProps
  imports ActionServerSafety
begin

text \<open>
  The action server as a state machine, and its properties: safety in all reachable states, the
  life of a goal, the answers to result and cancel requests, expiry, and the behaviours of the
  code that its comments do not foresee.
\<close>

section \<open>Expiry\<close>

text \<open>What the loop does with room for one expired goal: the second goal decides.\<close>

lemma expire_one_eval:
  assumes "\<forall>a \<in> set goals. live s a \<and> 0 \<le> stamp_of s a \<and> stamp_of s a < TIME_END" and "0 \<le> now" and "now < TIME_END"
  defines "active \<equiv> \<lambda>a. rcl_action_goal_handle_is_active (Some (impls s ! a))"
  shows "expire_loop (Some 1) timeout now [] goals [] s =
    (case goals of
       [] \<Rightarrow> (Ok ([], []), s)
     | a # rest \<Rightarrow>
         if active a \<or> now - stamp_of s a \<le> timeout then (Ok (goals, []), s)
         else if rest = [] \<or> active (hd rest) then (Ok (rest, [gh_info (impls s ! a)]), s)
         else (Err (Undefined_behaviour ''write past the end of expired_goals''), s))"
proof (cases goals)
  case Nil
  then show ?thesis by (simp add: act_simps)
next
  case (Cons a rest)
  have t: "i64_sub now (stamp_of s a) = Ok (now - stamp_of s a)" using assms(1-3) Cons by (intro i64_sub_times) auto
  have stop: "expire_loop (Some 1) timeout now [b] bs ex t = (Ok (b # bs, ex), t)" for b bs ex t
    by (cases bs) (simp_all add: act_simps)
  show ?thesis
  proof (cases rest)
    case Nil
    then show ?thesis using Cons t assms(1) by (simp add: act_simps active_def)
  next
    case (Cons b bs)
    then show ?thesis using \<open>goals = a # rest\<close> t assms(1) stop by (auto simp: act_simps active_def)
  qed
qed

lemma impls_times: "goals_ok s \<Longrightarrow> impls_ok s \<Longrightarrow>
    \<forall>a \<in> set (as_goals s). live s a \<and> 0 \<le> stamp_of s a \<and> stamp_of s a < TIME_END"
  using live_goal by (auto simp: goals_ok_def impls_ok_def)

lemma inv_expired:
  assumes "srv_inv s" and "as_goals s = a # rest" and "terminal (state_of s a)"
  shows "goals_ok (s\<lparr>as_goals := rest\<rparr>) \<and> impls_ok (s\<lparr>as_goals := rest\<rparr>) \<and> timer_ok (s\<lparr>as_goals := rest\<rparr>)"
    and "srv_inv (s\<lparr>as_goals := rest, goal_results := AList.delete (id_of s a) (goal_results s),
       result_requests := AList.delete (id_of s a) (result_requests s),
       goal_handles := AList.delete (id_of s a) (goal_handles s)\<rparr>)" (is "srv_inv ?s")
proof -
  have inv: "goals_ok s" "impls_ok s" "users_ok s" "typed_ok s" "results_ok s" "timer_ok s"
    using assms(1) by (simp_all add: srv_inv_def)
  then show "goals_ok (s\<lparr>as_goals := rest\<rparr>) \<and> impls_ok (s\<lparr>as_goals := rest\<rparr>) \<and> timer_ok (s\<lparr>as_goals := rest\<rparr>)"
    using assms(2) by (simp add: goals_ok_def impls_ok_def timer_ok_def)
  have other: "id_of s b \<noteq> id_of s a" if "b \<in> set rest" for b
  proof
    assume "id_of s b = id_of s a"
    then have "b = a" using that assms(2) by (intro goal_unique [OF inv(1)]) simp_all
    then show False using inv(1) assms(2) that by (simp add: goals_ok_def)
  qed
  have "goals_ok ?s" using inv(1) assms(2) other by (auto simp: goals_ok_def delete_conv')
  moreover have "impls_ok ?s" using inv(2) by (simp add: impls_ok_def)
  moreover have "users_ok ?s" using inv(3) assms(2,3) by (auto simp: users_ok_def)
  moreover have "typed_ok ?s" using inv(4) by (simp add: typed_ok_def)
  moreover have "results_ok ?s" unfolding results_ok_def
  proof (intro allI impI)
    fix v st p assume "map_of (goal_results ?s) v = Some (st, p)"
    then have v: "v \<noteq> id_of s a" "map_of (goal_results s) v = Some (st, p)" by (auto simp: delete_conv' split: if_splits)
    then obtain b where "terminal st" "b \<in> set (as_goals s)" "id_of s b = v" "state_of s b = st"
      using results_okD [OF inv(5)] by blast
    then show "terminal st \<and> (\<exists>a \<in> set (as_goals ?s). id_of ?s a = v \<and> state_of ?s a = st)"
      using v assms(2) by auto
  qed
  moreover have "timer_ok ?s" using inv(6) by (simp add: timer_ok_def)
  ultimately show "srv_inv ?s" by (simp add: srv_inv_def)
qed

text \<open>One round of the check: nothing, undefined behaviour, or the first goal is forgotten.\<close>

lemma expire_goals_cases:
  assumes "srv_inv s" and "good_env env" and "as_valid s"
  obtains (none) n t where "rcl_action_expire_goals env (Some 1) s = (Ok (RCL_RET_OK, []), s\<lparr>calls := n, as_timer := Some t\<rparr>)"
      and "0 \<le> period t" and "period t < TIMEOUT_END"
    | (undefined) e t where "rcl_action_expire_goals env (Some 1) s = (Inl e, t)" and "ub e"
    | (one) a rest n t where "as_goals s = a # rest" and "terminal (state_of s a)"
      and "rcl_action_expire_goals env (Some 1) s =
        (Ok (RCL_RET_OK, [gh_info (impls s ! a)]), s\<lparr>as_goals := rest, calls := n, as_timer := Some t\<rparr>)"
      and "0 \<le> period t" and "period t < TIMEOUT_END"
proof -
  have inv: "goals_ok s" "impls_ok s" "timer_ok s" using assms(1) by (simp_all add: srv_inv_def)
  obtain now where now: "env_clock env (calls s) = Inr now" "0 \<le> now" "now < TIME_END"
    using assms(2) unfolding good_env_def by blast
  let ?s1 = "s\<lparr>calls := Suc (calls s)\<rparr>"
  have inv1: "goals_ok ?s1" "impls_ok ?s1" "timer_ok ?s1" using inv by (simp_all add: goals_ok_def impls_ok_def timer_ok_def)
  note loop = expire_one_eval [OF impls_times [OF inv1(1,2)] now(2,3), of "as_result_timeout s"]
  have start: "rcl_action_expire_goals env (Some 1) s =
      bindA (expire_loop (Some 1) (as_result_timeout s) now [] (as_goals s) []) (\<lambda>(kept, expired).
            seqA (modA (\<lambda>s. s\<lparr>as_goals := kept\<rparr>))
              (bindA (recalculate_expire_timer env) (\<lambda>ret_final. retA (ret_final, expired)))) ?s1"
    using assms now(1) by (simp add: rcl_action_expire_goals_def bindA_eval [of "clockA env"] clock_eval goal_array_eval
        bindA_eval [of goal_arrayA])
  show thesis
  proof (cases "fst (expire_loop (Some 1) (as_result_timeout s) now [] (as_goals s) [] ?s1)")
    case (Inl e)
    then have "ub e" using loop by (auto split: list.splits if_splits)
    then show thesis using undefined Inl start by (cases "expire_loop (Some 1) (as_result_timeout s) now [] (as_goals s) [] ?s1")
        (simp add: bindA_eval)
  next
    case (Inr r)
    then consider "expire_loop (Some 1) (as_result_timeout s) now [] (as_goals s) [] ?s1 = (Ok (as_goals s, []), ?s1)"
      | a rest where "as_goals s = a # rest" "terminal (state_of s a)"
          "expire_loop (Some 1) (as_result_timeout s) now [] (as_goals s) [] ?s1 = (Ok (rest, [gh_info (impls s ! a)]), ?s1)"
      using loop inv(1,2) by (auto simp: active_iff goals_ok_def impls_ok_def split: list.splits if_splits)
    then show thesis
    proof cases
      case 1
      obtain n t where "recalculate_expire_timer env ?s1 = (Ok RCL_RET_OK, ?s1\<lparr>calls := n, as_timer := Some t\<rparr>)"
          "0 \<le> period t" "period t < TIMEOUT_END"
        using recalculate_eval [OF inv1 assms(2)] by blast
      then show thesis using none 1 start by (simp add: act_simps)
    next
      case (2 a rest)
      let ?s2 = "?s1\<lparr>as_goals := rest\<rparr>"
      have "srv_inv ?s1" using assms(1) by simp
      from inv_expired(1) [OF this, of a rest] have "goals_ok ?s2" "impls_ok ?s2" "timer_ok ?s2" using 2 by simp_all
      from recalculate_eval [OF this assms(2)] obtain n t where
        "recalculate_expire_timer env ?s2 = (Ok RCL_RET_OK, ?s2\<lparr>calls := n, as_timer := Some t\<rparr>)"
          "0 \<le> period t" "period t < TIMEOUT_END" by blast
      then show thesis using one [OF 2(1,2)] 2 start by (simp add: act_simps)
    qed
  qed
qed

lemma check_expired_loop_ok:
  assumes "srv_inv s" and "good_env env" and "length (as_goals s) < n"
  shows "ub_result (fst (check_expired_loop env n s)) \<or>
    srv_inv (snd (check_expired_loop env n s)) \<and> fst (check_expired_loop env n s) \<noteq> Ok False"
  using assms(1,3)
proof (induction n arbitrary: s)
  case (Suc n)
  show ?case
  proof (cases "as_valid s")
    case False
    then show ?thesis using Suc.prems(1) by (simp add: rcl_action_expire_goals_def act_simps throw_unless_ok_def)
  next
    case True
    from Suc.prems(1) assms(2) True show ?thesis
    proof (cases rule: expire_goals_cases)
      case (none n t)
      then show ?thesis using Suc.prems(1) by (simp add: act_simps throw_unless_ok_def inv_timer_update)
    next
      case (undefined e t)
      then show ?thesis by (simp add: act_simps)
    next
      case (one a rest m t)
      let ?t = "s\<lparr>as_goals := rest, goal_results := AList.delete (id_of s a) (goal_results s),
        result_requests := AList.delete (id_of s a) (result_requests s),
        goal_handles := AList.delete (id_of s a) (goal_handles s), calls := m, as_timer := Some t\<rparr>"
      let ?u = "s\<lparr>as_goals := rest, calls := m, as_timer := Some t, goal_results := AList.delete (id_of s a) (goal_results s),
        result_requests := AList.delete (id_of s a) (result_requests s),
        goal_handles := AList.delete (id_of s a) (goal_handles s)\<rparr>"
      have order: "?t = ?u" by simp
      have inv: "srv_inv ?t" using inv_timer_update [OF inv_expired(2) [OF Suc.prems(1) one(1,2)] one(4,5), of m] by simp
      have id: "convert (id_of s a) = id_of s a"
        using Suc.prems(1) one(1) by (simp add: srv_inv_def goals_ok_def convert_id)
      have step: "check_expired_loop env (Suc n) s = check_expired_loop env n ?t"
        unfolding order using one(3) id by (simp add: act_simps throw_unless_ok_def Let_def)
      have "length (as_goals ?t) < n" using Suc.prems(2) one(1) by simp
      from Suc.IH [OF inv this] show ?thesis unfolding step .
    qed
  qed
qed simp

section \<open>The server as a state machine\<close>

datatype sv_op =
    Is_ready "rcl_ret + bool \<times> bool \<times> bool \<times> bool"
  | Execute "rcl_ret + request_id \<times> GoalUUID \<times> payload" "rcl_ret + request_id \<times> goal_info" "rcl_ret + request_id \<times> GoalUUID"
      "GoalUUID \<Rightarrow> payload \<Rightarrow> GoalResponse" "GoalUUID \<Rightarrow> CancelResponse" bool
  | User_execute nat
  | User_feedback nat payload
  | User_abort nat payload
  | User_succeed nat payload
  | User_canceled nat payload
  | User_destroy nat

fun run_op :: "action_env \<Rightarrow> sv_op \<Rightarrow> unit sv" where
  "run_op env (Is_ready flags) = bindA (server_is_ready flags) (\<lambda>_. retA ())"
| "run_op env (Execute gi ci ri hg hc keep) = server_execute env gi ci ri hg hc keep"
| "run_op env (User_execute k) = user_execute env k"
| "run_op env (User_feedback k fb) = user_publish_feedback env k fb"
| "run_op env (User_abort k p) = user_abort env k p"
| "run_op env (User_succeed k p) = user_succeed env k p"
| "run_op env (User_canceled k p) = user_canceled env k p"
| "run_op env (User_destroy k) = user_destroy env k"

text \<open>The user calls only handles that exist; identifiers in messages are arrays of 16 bytes.\<close>

fun enabled :: "sv_op \<Rightarrow> action_server \<Rightarrow> bool" where
  "enabled (Is_ready flags) s = True"
| "enabled (Execute gi ci ri hg hc keep) s = (case gi of Inl _ \<Rightarrow> True | Inr (hdr, uuid, goal) \<Rightarrow> length uuid = UUID_SIZE)"
| "enabled (User_execute k) s = (map_of (users s) k \<noteq> None)"
| "enabled (User_feedback k fb) s = (map_of (users s) k \<noteq> None)"
| "enabled (User_abort k p) s = (map_of (users s) k \<noteq> None)"
| "enabled (User_succeed k p) s = (map_of (users s) k \<noteq> None)"
| "enabled (User_canceled k p) s = (map_of (users s) k \<noteq> None)"
| "enabled (User_destroy k) s = (map_of (users s) k \<noteq> None)"

definition checks_expired :: "sv_op \<Rightarrow> action_server \<Rightarrow> bool" where
  "checks_expired op s \<longleftrightarrow> (case op of Execute _ _ _ _ _ _ \<Rightarrow>
      goal_expired s \<and> \<not> goal_request_ready s \<and> \<not> cancel_request_ready s \<and> \<not> result_request_ready s
    | _ \<Rightarrow> False)"

inductive sv_reach :: "action_env \<Rightarrow> action_server \<Rightarrow> action_server \<Rightarrow> bool" for env s0 where
  sv_start: "sv_reach env s0 s0"
| sv_step: "sv_reach env s0 s \<Longrightarrow> enabled op s \<Longrightarrow> run_op env op s = (r, t) \<Longrightarrow> \<not> ub_result r \<Longrightarrow> sv_reach env s0 t"

lemma safe_execute:
  assumes "srv_inv s" and "good_env env" and "enabled (Execute gi ci ri hg hc keep) s"
    and "\<not> checks_expired (Execute gi ci ri hg hc keep) s"
  shows "\<not> ub_result (fst (server_execute env gi ci ri hg hc keep s)) \<and> srv_inv (snd (server_execute env gi ci ri hg hc keep s))"
proof -
  have "safe srv_inv (execute_goal_request_received env gi hg keep)"
    by (rule safe_goal_request [OF assms(2)]) (use assms(3) in simp)
  note goal = safeD [OF this assms(1)]
  note cancel = safeD [OF safe_cancel_request assms(1)]
  note result = safeD [OF safe_result_request assms(1)]
  show ?thesis
    using goal cancel result assms(1,4) by (auto simp: server_execute_def checks_expired_def act_eval)
qed

lemma run_op_inv:
  assumes "srv_inv s" and "good_env env" and "enabled op s"
  shows "(checks_expired op s \<or> \<not> ub_result (fst (run_op env op s))) \<and>
    (ub_result (fst (run_op env op s)) \<or> srv_inv (snd (run_op env op s)))"
proof (cases op)
  case (Is_ready flags)
  then show ?thesis using assms(1)
    by (auto simp: server_is_ready_def act_simps throw_unless_ok_def split: sum.split)
next
  case (Execute gi ci ri hg hc keep)
  show ?thesis
  proof (cases "checks_expired op s")
    case True
    have "run_op env op s = bindA (execute_check_expired_goals env) (\<lambda>_. retA ()) s"
      using True Execute by (auto simp: checks_expired_def server_execute_def act_eval)
    then show ?thesis using True check_expired_loop_ok [OF assms(1,2), of "Suc (length (as_goals s))"]
      by (auto simp: execute_check_expired_goals_def act_simps simp del: check_expired_loop.simps split: prod.splits sum.splits)
  next
    case False
    then show ?thesis using safe_execute [OF assms(1,2)] assms(3) Execute by auto
  qed
qed (use assms safe_user_execute safe_user_publish_feedback safe_user_abort safe_user_succeed safe_user_canceled
    safe_user_destroy in auto)

lemma reach_inv:
  assumes "sv_reach env s0 s" and "srv_inv s0" and "good_env env"
  shows "srv_inv s"
  using assms(1)
proof induction
  case sv_start
  show ?case by (rule assms(2))
next
  case (sv_step s op r t)
  then show ?case using run_op_inv [OF sv_step.IH assms(3), of op] by simp
qed

lemma init_inv:
  "server_init ctype reading gc jc timeout = Ok s0 \<Longrightarrow> timeout < TIMEOUT_END \<Longrightarrow> srv_inv s0"
  by (auto simp: server_init_def rcl_timer_init_def rcl_timer_cancel_def res_simps inv_defs Let_def
      split: if_splits sum.splits)

section \<open>The life of a goal\<close>

text \<open>A state is reached from another along the transitions of the goal state machine.\<close>

definition moves :: "goal_state \<Rightarrow> goal_state \<Rightarrow> bool" where
  "moves = (\<lambda>x y. \<exists>e. valid_edge x e y)\<^sup>*\<^sup>*"

definition goal_moves :: "action_server \<Rightarrow> action_server \<Rightarrow> bool" where
  "goal_moves s t \<longleftrightarrow> (\<forall>a < length (impls s).
     a < length (impls t) \<and> gh_info (impls t ! a) = gh_info (impls s ! a) \<and> moves (state_of s a) (state_of t a))"

lemma moves_refl [simp]: "moves x x"
  by (simp add: moves_def)

lemma moves_terminal: "moves x y \<Longrightarrow> terminal x \<Longrightarrow> y = x"
  unfolding moves_def by (induction rule: converse_rtranclp_induct) (auto dest: valid_edge_not_terminal)

lemma moves_edge: "valid_edge x e y \<Longrightarrow> moves x y"
  unfolding moves_def by blast

interpretation life: step_relation goal_moves
proof
  show "goal_moves s s" for s by (simp add: goal_moves_def)
  show "goal_moves s u" if "goal_moves s t" "goal_moves t u" for s t u
    using that unfolding goal_moves_def moves_def by (metis rtranclp_trans)
qed

lemma within_same: "(\<And>s. impls (snd (m s)) = impls s) \<Longrightarrow> life.within m"
  by (rule life.withinI) (simp add: goal_moves_def)

lemma goal_moves_upd:
  assumes "moves (state_of s a) st"
  shows "goal_moves s (upd_state a st s)"
proof -
  have "gh_info (impls (upd_state a st s) ! b) = gh_info (impls s ! b) \<and> moves (state_of s b) (state_of (upd_state a st s) b)"
    if "b < length (impls s)" for b
    using that assms by (cases "b = a") (simp_all add: upd_state_def)
  then show ?thesis by (simp add: goal_moves_def upd_state_def)
qed

lemma derefA_dead: "\<not> live s a \<Longrightarrow> derefA a s = (Err (Undefined_behaviour ''goal handle used after it was freed''), s)"
  by (auto simp: derefA_def live_def)

lemma within_on_impl: "life.within (on_implA a (update_or_throw e))"
proof (rule life.withinI)
  fix s
  show "goal_moves s (snd (on_implA a (update_or_throw e) s))"
  proof (cases "live s a")
    case True
    then show ?thesis using transition_cases [of "state_of s a" e]
      by (auto simp: on_impl_eval Let_def life.R_refl intro!: goal_moves_upd dest: moves_edge)
  next
    case False
    then show ?thesis by (simp add: on_implA_def act_simps derefA_dead life.R_refl)
  qed
qed

lemmas within_goal_event = within_on_impl [of _ GOAL_EVENT_ABORT, folded goal_event_funs]
  within_on_impl [of _ GOAL_EVENT_SUCCEED, folded goal_event_funs]
  within_on_impl [of _ GOAL_EVENT_CANCELED, folded goal_event_funs]
  within_on_impl [of _ GOAL_EVENT_EXECUTE, folded goal_event_funs]
  within_on_impl [of _ GOAL_EVENT_CANCEL_GOAL, folded goal_event_funs]

lemma within_calls:
  "life.within (clockA env)" "life.within (transmitA env msg)" "life.within (derefA a)" "life.within goal_arrayA"
  "life.within (userA k)" "life.within (throw_unless_ok ret)" "life.within (take_service_request inp)"
  by (rule within_same, simp add: clockA_def transmitA_def Let_def derefA_def goal_arrayA_def userA_def throw_unless_ok_def
      take_service_request_def act_eval split: option.split)+

lemma within_loops:
  "life.within (find_goal uuid as)"
  "life.within (inactive_goals timeout now as n least)"
  "life.within (expire_loop cap timeout now kept as ex)"
  "life.within (cancel_one uuid as)"
  "life.within (cancel_many uuid ns as)"
proof -
  show "life.within (find_goal uuid as)"
    by (induction as) (auto intro!: life.within_rules within_calls)
  show "life.within (inactive_goals timeout now as n least)"
    by (induction as arbitrary: n least) (auto intro!: life.within_rules within_calls)
  show "life.within (expire_loop cap timeout now kept as ex)"
    by (induction as arbitrary: kept ex) (auto intro!: life.within_rules within_calls)
  show "life.within (cancel_one uuid as)"
    by (induction as) (auto intro!: life.within_rules within_calls)
  show "life.within (cancel_many uuid ns as)"
    by (induction as) (auto intro!: life.within_rules within_calls)
qed

lemma within_mod_same: "(\<And>s. impls (f s) = impls s) \<Longrightarrow> life.within (modA f)"
  by (rule within_same) (simp add: act_eval)

lemmas within_base = life.within_rules within_calls within_loops within_goal_event
lemmas within_intros = within_base within_mod_same

lemma within_sends:
  "life.within (send_service_response env msg)" "life.within (rcl_action_publish_status env st)"
  "life.within (rcl_action_publish_feedback env uuid fb)" "life.within (rcl_action_server_goal_exists info)"
  "life.within (recalculate_expire_timer env)" "life.within (publish_status env)"
  unfolding send_service_response_def rcl_action_publish_status_def rcl_action_publish_feedback_def
    rcl_action_server_goal_exists_def recalculate_expire_timer_def publish_status_def
  by (auto simp: Let_def intro!: within_intros split: sum.split)

lemma within_accept: "life.within (rcl_action_accept_new_goal env info)"
proof -
  have new: "life.within (modA (\<lambda>s. s\<lparr>impls := impls s @ [g], as_goals := gs\<rparr>))" for g gs
    by (rule life.within_mod) (simp add: goal_moves_def nth_append)
  have stale: "life.within (modA (\<lambda>s. s\<lparr>as_stale := b\<rparr>))" for b by (rule within_mod_same) simp
  show ?thesis unfolding rcl_action_accept_new_goal_def
    by (auto intro!: within_base within_sends new stale split: sum.split prod.split option.split)
qed

lemma within_terminal: "life.within (on_terminal_state env uuid r)"
  unfolding on_terminal_state_def publish_result_def notify_goal_terminal_state_def rcl_action_notify_goal_done_def
  by (auto intro!: within_intros within_sends split: option.split)

lemma within_cancel_move:
  "life.within (bindA (derefA a) (\<lambda>g. let (done, h) = try_canceling (Some g) in seqA (set_implA a h) (whenA done m)))"
  if "life.within m"
proof (rule life.withinI)
  fix s
  show "goal_moves s (snd (bindA (derefA a) (\<lambda>g. let (done, h) = try_canceling (Some g) in seqA (set_implA a h) (whenA done m)) s))"
  proof (cases "live s a")
    case False
    then show ?thesis by (simp add: act_simps derefA_dead life.R_refl)
  next
    case True
    let ?t = "upd_state a GOAL_STATE_CANCELED s"
    have c: "moves (state_of s a) GOAL_STATE_CANCELED" if "rcl_action_goal_handle_is_active (Some (impls s ! a))"
      using that moves_edge [of GOAL_STATE_CANCELING GOAL_EVENT_CANCELED GOAL_STATE_CANCELED]
        moves_edge [of "state_of s a" GOAL_EVENT_CANCEL_GOAL GOAL_STATE_CANCELING]
      by (cases "state_of s a") (auto simp: active_iff terminal_def moves_def valid_edge_def)
    have "goal_moves s (snd (m ?t))" if "rcl_action_goal_handle_is_active (Some (impls s ! a))"
      using life.R_trans [OF goal_moves_upd [OF c [OF that]]] \<open>life.within m\<close> unfolding life.within_def by blast
    then show ?thesis using True
      by (simp add: act_simps try_canceling_eq set_implA_def upd_state_def life.R_refl)
  qed
qed

lemma within_destroy: "life.within (user_destroy env k)"
  unfolding user_destroy_def by (intro within_intros within_cancel_move within_terminal) simp

lemma within_user_ops:
  "life.within (user_execute env k)" "life.within (user_publish_feedback env k fb)" "life.within (user_abort env k p)"
  "life.within (user_succeed env k p)" "life.within (user_canceled env k p)"
  unfolding user_execute_def user_publish_feedback_def user_abort_def user_succeed_def user_canceled_def on_executing_def
    server_publish_feedback_def
  by (auto intro!: within_intros within_sends within_terminal)

lemma within_goal_request: "life.within (execute_goal_request_received env inp hg keep)"
  unfolding execute_goal_request_received_def accept_goal_def call_goal_accepted_callback_def
  by (auto simp: Let_def intro!: within_intros within_sends within_accept within_destroy split: sum.split option.split)

lemma within_cancel_request: "life.within (execute_cancel_request_received env inp hc)"
proof -
  have "life.within (cancel_goals hc infos)" for infos
    by (induction infos) (auto simp: Let_def call_handle_cancel_callback_def intro!: within_intros
        split: option.split CancelResponse.split)
  then show ?thesis unfolding execute_cancel_request_received_def rcl_action_process_cancel_request_def
    by (auto simp: Let_def intro!: within_intros within_sends split: sum.split)
qed

lemma within_check_expired: "life.within (check_expired_loop env n)"
  by (induction n) (auto simp: rcl_action_expire_goals_def Let_def intro!: within_intros within_sends split: sum.split list.split)

lemma within_run_op: "life.within (run_op env op)"
proof (cases op)
  case (Is_ready flags)
  then show ?thesis by (auto simp: server_is_ready_def intro!: within_intros split: sum.split)
next
  case (Execute gi ci ri hg hc keep)
  have "life.within (execute_result_request_received env ri)" unfolding execute_result_request_received_def
    by (auto intro!: within_intros within_sends split: sum.split option.split)
  then show ?thesis using Execute
    by (auto simp: server_execute_def execute_check_expired_goals_def simp del: check_expired_loop.simps
        intro!: within_intros within_goal_request within_cancel_request within_check_expired)
qed (simp_all add: within_user_ops within_destroy)

fun run_ops :: "action_env \<Rightarrow> sv_op list \<Rightarrow> action_server \<Rightarrow> action_server" where
  "run_ops env [] s = s"
| "run_ops env (op # ops) s = run_ops env ops (snd (run_op env op s))"

lemma run_ops_moves: "goal_moves s (run_ops env ops s)"
proof (induction ops arbitrary: s)
  case (Cons op ops)
  have "goal_moves s (snd (run_op env op s))" using within_run_op unfolding life.within_def by blast
  from life.R_trans [OF this Cons.IH] show ?case by simp
qed (simp add: life.R_refl)

section \<open>Answers to result requests\<close>

lemma throw_unless_ok_Ok: "throw_unless_ok ret s = (Ok (), t) \<longleftrightarrow> ret = RCL_RET_OK \<and> t = s"
  by (auto simp: throw_unless_ok_def act_eval)

lemma send_RET_OK:
  "send_service_response env msg s = (Ok RCL_RET_OK, t) \<Longrightarrow> t = s\<lparr>calls := Suc (calls s), sent := sent s @ [msg]\<rparr>"
  by (auto simp: send_service_response_def bindA_Ok act_eval transmitA_def Let_def split: if_splits)

lemma send_Ok:
  "bindA (send_service_response env msg) throw_unless_ok s = (Ok (), t) \<Longrightarrow>
     t = s\<lparr>calls := Suc (calls s), sent := sent s @ [msg]\<rparr>"
  by (auto simp: send_service_response_def bindA_Ok throw_unless_ok_Ok act_eval transmitA_def Let_def split: if_splits)

lemma send_all_Ok:
  "forA (\<lambda>hdr. bindA (send_service_response env (f hdr)) throw_unless_ok) hdrs s = (Ok (), t) \<Longrightarrow>
     t = s\<lparr>calls := calls s + length hdrs, sent := sent s @ map f hdrs\<rparr>"
proof (induction hdrs arbitrary: s)
  case (Cons h hdrs)
  let ?s = "s\<lparr>calls := Suc (calls s), sent := sent s @ [f h]\<rparr>"
  have "forA (\<lambda>hdr. bindA (send_service_response env (f hdr)) throw_unless_ok) hdrs ?s = (Ok (), t)"
    using Cons.prems by (auto simp: seqA_Ok dest!: send_Ok)
  from Cons.IH [OF this] show ?case by simp
qed (simp add: act_eval)

definition pending :: "action_server \<Rightarrow> GoalUUID \<Rightarrow> request_id list" where
  "pending s uuid = (case map_of (result_requests s) uuid of None \<Rightarrow> [] | Some hs \<Rightarrow> hs)"

lemma publish_result_Ok:
  assumes "publish_result env uuid r s = (Ok (), t)" and "srv_inv s" and "length uuid = UUID_SIZE"
  shows "t = s\<lparr>goal_results := AList.update uuid r (goal_results s), calls := calls s + length (pending s uuid),
     sent := sent s @ map (\<lambda>h. Result_response h r) (pending s uuid)\<rparr>"
  using assms
  by (auto simp: publish_result_def bindA_Ok seqA_Ok goal_exists_eval convert_id act_eval pending_def
      dest!: send_all_Ok split: if_splits option.splits)

lemma publish_status_Ok:
  "publish_status env s = (Ok (), t) \<Longrightarrow> srv_inv s \<Longrightarrow>
     t = s\<lparr>calls := Suc (calls s), sent := sent s @ [Status_array (status_list s)]\<rparr>"
  by (auto simp: publish_status_eval rcl_action_publish_status_def bindA_Ok throw_unless_ok_Ok act_eval transmitA_def Let_def
      split: if_splits)

lemma on_terminal_Ok:
  assumes "on_terminal_state env uuid r s = (Ok (), t)" and "good_env env" and "inv_core c s" and "has_ended uuid (fst r) c"
  shows "sent t = sent s @ map (\<lambda>h. Result_response h r) (pending s uuid) @ [Status_array (status_list s)] \<and>
    goal_results t = AList.update uuid r (goal_results s) \<and> core t = core s"
proof -
  have uuid: "length uuid = UUID_SIZE" using assms(4) by (simp add: has_ended_def split_beta)
  obtain s1 s2 s3 where run: "publish_result env uuid r s = (Ok (), s1)" "publish_status env s1 = (Ok (), s2)"
      "notify_goal_terminal_state env s2 = (Ok (), s3)" "t = s3\<lparr>typed_handles := AList.delete uuid (typed_handles s3)\<rparr>"
    using assms(1) by (auto simp: on_terminal_state_def seqA_Ok act_eval)
  have inv: "srv_inv s" "srv_inv s1" "srv_inv s2"
    using assms(3) safeD [OF safe_publish_result [OF assms(4)] assms(3), of env]
      safeD [OF safe_publish_status, of c s1 env] run by (auto simp: inv_core_def)
  note r1 = publish_result_Ok [OF run(1) inv(1) uuid]
  note r2 = publish_status_Ok [OF run(2) inv(2)]
  obtain n tm where "recalculate_expire_timer env s2 = (Ok RCL_RET_OK, s2\<lparr>calls := n, as_timer := Some tm\<rparr>)"
    using recalculate_eval [OF _ _ _ assms(2), of s2] inv(3) by (auto simp: srv_inv_def)
  then have r3: "s3 = s2\<lparr>calls := n, as_timer := Some tm\<rparr>"
    using run(3) by (auto simp: notify_goal_terminal_state_def rcl_action_notify_goal_done_def bindA_Ok throw_unless_ok_Ok)
  have "status_list s1 = status_list s" by (simp add: r1 status_list_def)
  then show ?thesis using run(4) by (simp add: r1 r2 r3)
qed

lemma user_succeed_Ok:
  assumes "user_succeed env k p s = (Ok (), t)" and "srv_inv s" and "good_env env" and "map_of (users s) k = Some u"
  defines "r \<equiv> (GOAL_STATE_SUCCEEDED, p)" and "s1 \<equiv> upd_state (uh_impl u) GOAL_STATE_SUCCEEDED s"
  shows "sent t = sent s @ map (\<lambda>h. Result_response h r) (pending s (uh_uuid u)) @ [Status_array (status_list s1)] \<and>
    goal_results t = AList.update (uh_uuid u) r (goal_results s) \<and> core t = core s1"
proof -
  let ?a = "uh_impl u"
  have live: "live s ?a" using assms(2,4) by (auto simp: srv_inv_def intro: live_user)
  have u: "id_of s ?a = uh_uuid u" "\<not> terminal (state_of s ?a) \<Longrightarrow> ?a \<in> set (as_goals s)"
    using assms(2) map_of_SomeD [OF assms(4)] by (auto simp: srv_inv_def users_ok_def)
  have run: "on_terminal_state env (uh_uuid u) r s1 = (Ok (), t)" and old: "\<not> terminal (state_of s ?a)"
    using assms(1,4) live transition_Some [of "state_of s ?a" GOAL_EVENT_SUCCEED]
    by (auto simp: user_succeed_def bindA_Ok seqA_Ok userA_def goal_event_funs on_impl_eval Let_def r_def s1_def
        dest: ending_edges split: if_splits)
  have J: "inv_core (core s1) s1" using inv_state_update [OF assms(2) old] by (simp add: inv_core_def s1_def upd_state_def)
  have "has_ended (uh_uuid u) (fst r) (core s1)"
    using has_ended_upd [OF assms(2) u(2) [OF old]] u(1) by (simp add: r_def s1_def)
  from on_terminal_Ok [OF run assms(3) J this] show ?thesis by (simp add: s1_def upd_state_def pending_def)
qed

lemma result_request_Ok:
  assumes "execute_result_request_received env (Inr (hdr, uuid)) s = (Ok (), t)" and "srv_inv s"
    and "length uuid = UUID_SIZE" and "map_of (goal_results s) uuid = Some r"
  shows "sent t = sent s @ [Result_response hdr r]"
proof -
  obtain st p where r: "r = (st, p)" by fastforce
  obtain a where "a \<in> set (as_goals s)" "id_of s a = uuid"
    using results_okD [of s uuid st p] assms(2,4) r by (auto simp: srv_inv_def)
  then show ?thesis using assms
    by (auto simp: execute_result_request_received_def bindA_Ok seqA_Ok take_eval act_eval goal_exists_eval convert_id
        throw_unless_ok_Ok dest!: send_RET_OK split: if_splits)
qed

section \<open>Concrete runs\<close>

definition demo_env :: action_env where
  "demo_env = \<lparr>env_clock = (\<lambda>n. Inr 5000000000), env_transmit = (\<lambda>n. RCL_RET_OK)\<rparr>"

definition demo_timer0 :: rcl_timer_impl where
  "demo_timer0 = \<lparr>tm_clock_type = RCL_STEADY_TIME, bound_instance = 0, guard_triggers = 0, has_callback = False,
     period = 1000, last_call_time = 1, next_call_time = 1001, time_credit = 0, canceled = True\<rparr>"

definition demo_goal :: "u8 \<Rightarrow> int \<Rightarrow> goal_state \<Rightarrow> goal_handle_impl" where
  "demo_goal b t st = \<lparr>gh_info = \<lparr>goal_id = replicate 16 b, goal_stamp = \<lparr>sec = t, nanosec = 0\<rparr>\<rparr>, gh_state = st\<rparr>"

text \<open>A server with two goals, of which the first has a user's handle.\<close>

definition demo_server :: "goal_state \<Rightarrow> goal_state \<Rightarrow> action_server" where
  "demo_server st1 st2 = \<lparr>as_valid = True, as_goals = [0, 1], as_stale = False, as_timer = Some demo_timer0,
     as_result_timeout = 1000, goal_request_ready = False, cancel_request_ready = False, result_request_ready = False,
     goal_expired = False, goal_results = [], result_requests = [(replicate 16 1, [7, 8])],
     goal_handles = [(replicate 16 1, 0), (replicate 16 2, 1)], typed_handles = [(replicate 16 1, 0)],
     impls = [demo_goal 1 2 st1, demo_goal 2 3 st2], users = [(0, \<lparr>uh_impl = 0, uh_uuid = replicate 16 1, uh_goal = []\<rparr>)],
     next_user = 1, sent = [], calls = 0\<rparr>"

lemma demo_env_good: "good_env demo_env"
  by (simp add: good_env_def demo_env_def)

lemma demo_server_inv: "st1 \<noteq> GOAL_STATE_UNKNOWN \<Longrightarrow> st2 \<noteq> GOAL_STATE_UNKNOWN \<Longrightarrow> srv_inv (demo_server st1 st2)"
  by (auto simp: inv_defs demo_server_def demo_goal_def demo_timer0_def goal_info_stamp_to_nanosec_def UUID_SIZE_def
      less_Suc_eq numeral_2_eq_2)

definition demo_goal_op :: sv_op where
  "demo_goal_op = Execute (Inr (3, replicate 16 1, [42])) (Inl RCL_RET_ERROR) (Inl RCL_RET_ERROR)
     (\<lambda>_ _. ACCEPT_AND_EXECUTE) (\<lambda>_. CANCEL_ACCEPT) True"

definition demo_init :: action_server where
  "demo_init = \<lparr>as_valid = True, as_goals = [], as_stale = False, as_timer = Some demo_timer0, as_result_timeout = 1000,
     goal_request_ready = False, cancel_request_ready = False, result_request_ready = False,
     goal_expired = False, goal_results = [], result_requests = [], goal_handles = [], typed_handles = [],
     impls = [], users = [], next_user = 0, sent = [], calls = 0\<rparr>"

lemma demo_init: "server_init RCL_STEADY_TIME (Inr 1) RCL_RET_OK RCL_RET_OK 1000 = Ok demo_init"
  by (simp add: server_init_def rcl_timer_init_def rcl_timer_cancel_def i64_add_def in_i64_def demo_timer0_def demo_init_def)

text \<open>The run of a goal that is accepted and succeeds.\<close>

definition demo_run :: "nat \<Rightarrow> action_server" where
  "demo_run n = run_ops demo_env (take n [Is_ready (Inr (True, False, False, False)), demo_goal_op, User_succeed 0 [9]]) demo_init"

lemma demo_reach:
  "sv_reach demo_env demo_init (demo_run 3)"
  "sv_reach demo_env demo_init (demo_run 2)"
proof -
  have "fst (run_op demo_env (Is_ready (Inr (True, False, False, False))) demo_init) = Ok ()" by code_simp
  then have 1: "sv_reach demo_env demo_init (demo_run 1)"
    by (intro sv_reach.sv_step [OF sv_reach.sv_start, where op = "Is_ready (Inr (True, False, False, False))" and r = "Ok ()"])
      (simp_all add: demo_run_def prod_eq_iff)
  have "fst (run_op demo_env demo_goal_op (demo_run 1)) = Ok ()" "enabled demo_goal_op (demo_run 1)" by code_simp+
  then have 2: "sv_reach demo_env demo_init (demo_run 2)"
    by (intro sv_reach.sv_step [OF 1, where op = demo_goal_op and r = "Ok ()"]) (simp_all add: demo_run_def prod_eq_iff)
  have "fst (run_op demo_env (User_succeed 0 [9]) (demo_run 2)) = Ok ()" "enabled (User_succeed 0 [9]) (demo_run 2)" by code_simp+
  then show "sv_reach demo_env demo_init (demo_run 3)"
    by (intro sv_reach.sv_step [OF 2, where op = "User_succeed 0 [9]" and r = "Ok ()"]) (simp_all add: demo_run_def prod_eq_iff)
  show "sv_reach demo_env demo_init (demo_run 2)" by (rule 2)
qed

section \<open>Properties\<close>

text \<open>
  When the clock cannot be read while a goal is accepted, the array of goal handles has already been
  reallocated, and the server keeps the old pointer: the goal is refused with an exception, and the
  next time the status of the goals is published a freed array is read.
\<close>

lemma failed_clock_frees_array:
  assumes "srv_inv s" and "as_valid s" and "as_goals s \<noteq> []" and "length uuid = UUID_SIZE"
    and "\<forall>a \<in> set (as_goals s). goal_id (gh_info (impls s ! a)) \<noteq> uuid" and "env_clock env (calls s) = Inl e"
  shows "\<exists>err t. accept_goal env status retains uuid goal s = (Err (Runtime_error err), t) \<and> ub_result (fst (publish_status env t))"
proof -
  let ?t = "s\<lparr>calls := Suc (calls s), as_stale := True\<rparr>"
  have "rcl_action_accept_new_goal env (zero_goal_info\<lparr>goal_id := uuid\<rparr>) s = (Ok None, ?t)"
    using assms by (auto simp: rcl_action_accept_new_goal_def act_simps goal_exists_eval goal_array_eval clockA_def)
  then have "accept_goal env status retains uuid goal s = (Err (Runtime_error (''Failed to accept new goal'' @ [CHR 0x0A])), ?t)"
    using assms(4) by (simp add: accept_goal_def act_simps convert_id)
  moreover have "ub_result (fst (publish_status env ?t))"
    using assms(2) by (simp add: publish_status_def act_simps goal_arrayA_def)
  ultimately show ?thesis by blast
qed

text \<open>
  C4. Memory safety of the action server, as long as its clock can be read. From the construction of
  the server on, whatever requests arrive, whatever the user's callbacks answer, whatever the user
  calls on the handles it owns and whichever transmissions the middleware refuses: if every reading
  of the clock succeeds, no operation other than the check for expired goals touches a freed goal
  handle or does anything else undefined. The readings are before 2038 and the result timeout is
  below half the range of \<open>int64_t\<close>; memory can always be allocated. The condition on the clock is
  needed (\<open>failed_clock_frees_array\<close>).
\<close>

theorem action_server_safe:
  assumes "good_env env" and "server_init ctype reading gc jc timeout = Ok s0" and "timeout < TIMEOUT_END"
    and "sv_reach env s0 s" and "enabled op s" and "\<not> checks_expired op s"
  shows "\<not> ub_result (fst (run_op env op s))"
  using run_op_inv [OF reach_inv [OF assms(4) init_inv [OF assms(2,3)] assms(1)] assms(1,5)] assms(6) by blast

theorem action_server_safe_witness:
  "\<not> ub_result (fst (run_op demo_env (User_abort 0 [1]) (demo_run 2))) \<and>
   ub_result (fst (run_op demo_env (User_abort 1 [1]) (demo_run 2)))"
proof -
  have e: "enabled (User_abort 0 [1]) (demo_run 2)" by code_simp
  have "\<not> ub_result (fst (run_op demo_env (User_abort 0 [1]) (demo_run 2)))"
    by (rule action_server_safe [OF demo_env_good demo_init _ demo_reach(2) e]) (simp_all add: checks_expired_def)
  moreover have "ub_result (fst (run_op demo_env (User_abort 1 [1]) (demo_run 2)))" by code_simp
  ultimately show ?thesis by blast
qed

text \<open>
  C34. Results and goal states agree: in every state that the server reaches while all readings of its
  clock succeed, a stored result belongs to a goal the server still knows, and its status is the
  terminal state that goal is in.
\<close>

theorem results_agree_with_goals:
  assumes "good_env env" and "server_init ctype reading gc jc timeout = Ok s0" and "timeout < TIMEOUT_END"
    and "sv_reach env s0 s" and "map_of (goal_results s) uuid = Some (st, p)"
  shows "terminal st \<and> (\<exists>a \<in> set (as_goals s). goal_id (gh_info (impls s ! a)) = uuid \<and> gh_state (impls s ! a) = st)"
proof -
  have "results_ok s" using reach_inv [OF assms(4) init_inv [OF assms(2,3)] assms(1)] by (simp add: srv_inv_def)
  from results_okD [OF this assms(5)] show ?thesis by blast
qed

theorem results_agree_with_goals_witness:
  "map_of (goal_results (demo_run 3)) (replicate 16 1) = Some (GOAL_STATE_SUCCEEDED, [9]) \<and>
   (\<exists>a \<in> set (as_goals (demo_run 3)). gh_state (impls (demo_run 3) ! a) = GOAL_STATE_SUCCEEDED)"
proof -
  have r: "map_of (goal_results (demo_run 3)) (replicate 16 1) = Some (GOAL_STATE_SUCCEEDED, [9])" by code_simp
  from results_agree_with_goals [OF demo_env_good demo_init _ demo_reach(1) r] r show ?thesis by auto
qed

text \<open>
  C33. The life of a goal: whatever is done to the server, in any order and with any outcome of the
  calls it makes, a goal keeps its identifier and time stamp, its state changes only along the
  transitions of the goal state machine, and a terminal state is final.
\<close>

theorem goal_history:
  assumes "a < length (impls s)"
  shows "gh_info (impls (run_ops env ops s) ! a) = gh_info (impls s ! a) \<and>
    moves (gh_state (impls s ! a)) (gh_state (impls (run_ops env ops s) ! a)) \<and>
    (terminal (gh_state (impls s ! a)) \<longrightarrow> gh_state (impls (run_ops env ops s) ! a) = gh_state (impls s ! a))"
  using run_ops_moves [of s env ops] assms moves_terminal unfolding goal_moves_def by blast

theorem goal_history_witness:
  "gh_state (impls (demo_server GOAL_STATE_ABORTED GOAL_STATE_CANCELING) ! 0) = GOAL_STATE_ABORTED \<and>
   gh_state (impls (run_ops demo_env [User_succeed 0 [], User_destroy 0] (demo_server GOAL_STATE_ABORTED GOAL_STATE_CANCELING)) ! 0)
     = GOAL_STATE_ABORTED"
proof -
  have s: "gh_state (impls (demo_server GOAL_STATE_ABORTED GOAL_STATE_CANCELING) ! 0) = GOAL_STATE_ABORTED"
    "0 < length (impls (demo_server GOAL_STATE_ABORTED GOAL_STATE_CANCELING))"
    by (simp_all add: demo_server_def demo_goal_def)
  show ?thesis using goal_history [OF s(2), of demo_env "[User_succeed 0 [], User_destroy 0]"] s(1)
    by (simp add: terminal_def del: run_ops.simps)
qed

text \<open>
  C5. Every client that asks for a result gets it. When the user's \<open>succeed\<close> returns, the result has
  been sent to every request that was waiting, in the order of arrival, followed by the new status
  of all goals, and it is stored; a request that comes later is answered at once with it.
\<close>

theorem result_reaches_every_requester:
  assumes "srv_inv s" and "good_env env" and "map_of (users s) k = Some u"
    and "user_succeed env k p s = (Ok (), t)"
    and "srv_inv t'" and "map_of (goal_results t') (uh_uuid u) = map_of (goal_results t) (uh_uuid u)"
    and "execute_result_request_received env (Inr (hdr, uh_uuid u)) t' = (Ok (), t'')"
  shows "sent t = sent s @ map (\<lambda>h. Result_response h (GOAL_STATE_SUCCEEDED, p)) (pending s (uh_uuid u)) @ [Status_array (status_list t)] \<and>
    sent t'' = sent t' @ [Result_response hdr (GOAL_STATE_SUCCEEDED, p)]"
proof -
  have len: "length (uh_uuid u) = UUID_SIZE"
    using assms(1) map_of_SomeD [OF assms(3)] by (auto simp: srv_inv_def users_ok_def)
  note fin = user_succeed_Ok [OF assms(4,1,2,3)]
  then have "status_list t = status_list (upd_state (uh_impl u) GOAL_STATE_SUCCEEDED s)"
    by (auto simp: status_list_def dest: core_cong)
  moreover have "map_of (goal_results t') (uh_uuid u) = Some (GOAL_STATE_SUCCEEDED, p)"
    using fin assms(6) by (simp add: update_conv')
  from result_request_Ok [OF assms(7,5) len this]
  have "sent t'' = sent t' @ [Result_response hdr (GOAL_STATE_SUCCEEDED, p)]" .
  ultimately show ?thesis using fin by simp
qed

theorem result_reaches_every_requester_witness:
  "let s = demo_server GOAL_STATE_EXECUTING GOAL_STATE_ACCEPTED;
       t = snd (user_succeed demo_env 0 [9] s);
       t'' = snd (execute_result_request_received demo_env (Inr (11, replicate 16 1)) t)
   in take 2 (sent t) = [Result_response 7 (GOAL_STATE_SUCCEEDED, [9]), Result_response 8 (GOAL_STATE_SUCCEEDED, [9])] \<and>
      sent t'' = sent t @ [Result_response 11 (GOAL_STATE_SUCCEEDED, [9])]"
proof -
  define s where "s = demo_server GOAL_STATE_EXECUTING GOAL_STATE_ACCEPTED"
  define t where "t = snd (user_succeed demo_env 0 [9] s)"
  define t'' where "t'' = snd (execute_result_request_received demo_env (Inr (11, replicate 16 1)) t)"
  have ok: "fst (user_succeed demo_env 0 [9] s) = Ok ()" unfolding s_def by code_simp
  have ok2: "fst (execute_result_request_received demo_env (Inr (11, replicate 16 1)) t) = Ok ()"
    unfolding t_def s_def by code_simp
  have inv: "srv_inv s" by (simp add: s_def demo_server_inv)
  have u: "map_of (users s) 0 = Some \<lparr>uh_impl = 0, uh_uuid = replicate 16 1, uh_goal = []\<rparr>" by (simp add: s_def demo_server_def)
  have inv2: "srv_inv t" using safe_user_succeed [OF inv demo_env_good u] by (simp add: t_def)
  have "pending s (replicate 16 1) = [7, 8]" "sent s = []" by (simp_all add: s_def demo_server_def pending_def)
  moreover note result_reaches_every_requester [OF inv demo_env_good u, of "[9]" t t 11 t'']
  ultimately show ?thesis using ok ok2 inv2
    by (simp add: Let_def s_def [symmetric] t_def [symmetric] t''_def [symmetric] prod_eq_iff)
qed

text \<open>
  C35. The cancel policy. The loops of \<open>rcl_action_process_cancel_request\<close> select exactly the goals of
  the specification \<open>cancel_selection\<close>: a zero identifier and zero time select all goals that can be
  canceled, an identifier with zero time selects that goal or reports it as unknown or terminated,
  a time selects the goals accepted up to it and the goal with the identifier. Nothing is changed.
\<close>

theorem cancel_request_selects:
  assumes "srv_inv s" and "as_valid s" and "length (goal_id request) = UUID_SIZE"
  shows "rcl_action_process_cancel_request request s = (Ok (Inr (cancel_selection request s)), s)"
  using process_cancel_eval [OF assms(1,3)] assms(2) by simp

theorem cancel_request_selects_witness:
  "let s = demo_server GOAL_STATE_EXECUTING GOAL_STATE_ACCEPTED
   in rcl_action_process_cancel_request zero_goal_info s =
     (Ok (Inr (ERROR_NONE, [gh_info (demo_goal 1 2 GOAL_STATE_EXECUTING), gh_info (demo_goal 2 3 GOAL_STATE_ACCEPTED)])), s)"
proof -
  let ?s = "demo_server GOAL_STATE_EXECUTING GOAL_STATE_ACCEPTED"
  have "srv_inv ?s" "as_valid ?s" by (simp_all add: demo_server_inv) (simp add: demo_server_def)
  moreover have "length (goal_id zero_goal_info) = UUID_SIZE" by (simp add: zero_goal_info_def zerouuid_def)
  moreover have "cancel_selection zero_goal_info ?s =
      (ERROR_NONE, [gh_info (demo_goal 1 2 GOAL_STATE_EXECUTING), gh_info (demo_goal 2 3 GOAL_STATE_ACCEPTED)])" by code_simp
  ultimately show ?thesis using cancel_request_selects [of ?s zero_goal_info] by (simp add: Let_def)
qed

text \<open>
  A goal that is already being canceled is reported as terminated: a cancel request for its
  identifier is answered with \<open>ERROR_GOAL_TERMINATED\<close>, although the goal is active. The comment in
  the code takes every goal that cannot be canceled for a terminated one.
\<close>

theorem canceling_goal_reported_terminated:
  assumes "srv_inv s" and "as_valid s" and "a \<in> set (as_goals s)" and "gh_state (impls s ! a) = GOAL_STATE_CANCELING"
    and "goal_id (gh_info (impls s ! a)) = uuid" and "uuid \<noteq> zerouuid"
  shows "rcl_action_goal_handle_is_active (Some (impls s ! a)) \<and>
    fst (rcl_action_process_cancel_request (zero_goal_info\<lparr>goal_id := uuid\<rparr>) s) = Ok (Inr (ERROR_GOAL_TERMINATED, []))"
proof -
  have goals: "goals_ok s" using assms(1) by (simp add: srv_inv_def)
  then have len: "length uuid = UUID_SIZE" using assms(3,5) by (auto simp: goals_ok_def)
  have "List.find (\<lambda>b. id_of s b = uuid) (as_goals s) = Some a"
  proof (rule find_unique)
    show "\<forall>b \<in> set (as_goals s). id_of s b = uuid \<longrightarrow> b = a"
      using goal_unique [OF goals _ assms(3)] assms(5) by metis
  qed (use assms(3,5) in simp_all)
  then have "cancel_selection (zero_goal_info\<lparr>goal_id := uuid\<rparr>) s = (ERROR_GOAL_TERMINATED, [])"
    using assms(4,6) by (simp add: cancel_selection_def zero_goal_info_def goal_info_stamp_to_nanosec_def)
  then show ?thesis using process_cancel_eval [OF assms(1), of "zero_goal_info\<lparr>goal_id := uuid\<rparr>"] assms(2,4) len
    by (simp add: active_iff)
qed

theorem canceling_goal_reported_terminated_witness:
  "fst (rcl_action_process_cancel_request (zero_goal_info\<lparr>goal_id := replicate 16 1\<rparr>)
     (demo_server GOAL_STATE_CANCELING GOAL_STATE_ACCEPTED)) = Ok (Inr (ERROR_GOAL_TERMINATED, []))"
  using canceling_goal_reported_terminated [of "demo_server GOAL_STATE_CANCELING GOAL_STATE_ACCEPTED" 0 "replicate 16 1"]
  by (simp add: demo_server_inv) (simp add: demo_server_def demo_goal_def zerouuid_def UUID_SIZE_def)

text \<open>
  C36. The check for expired goals can write past its array. It asks for at most one expired goal, but
  the loop of \<open>rcl_action_expire_goals\<close> compares the index of the goal with the capacity, not the
  number of goals it has expired: when the first goal has expired and the second one is terminated
  too, the second one's information is written behind the array.
\<close>

theorem expire_two_goals_undefined:
  assumes "srv_inv s" and "as_valid s" and "as_goals s = a # b # rest"
    and "env_clock env (calls s) = Inr now" and "0 \<le> now" and "now < TIME_END"
    and "terminal (gh_state (impls s ! a))" and "terminal (gh_state (impls s ! b))"
    and "as_result_timeout s < now - goal_info_stamp_to_nanosec (gh_info (impls s ! a))"
  shows "ub_result (fst (execute_check_expired_goals env s))"
proof -
  let ?s = "s\<lparr>calls := Suc (calls s)\<rparr>"
  have "goals_ok ?s" "impls_ok ?s" using assms(1) by (simp_all add: srv_inv_def goals_ok_def impls_ok_def)
  from expire_one_eval [OF impls_times [OF this] assms(5,6), of "as_result_timeout s"]
  have "expire_loop (Some 1) (as_result_timeout s) now [] (as_goals s) [] ?s =
      (Err (Undefined_behaviour ''write past the end of expired_goals''), ?s)"
    using assms(3,7,8,9) by (simp add: active_iff)
  then show ?thesis using assms(1,2,4)
    by (simp add: execute_check_expired_goals_def rcl_action_expire_goals_def act_simps clock_eval goal_array_eval)
qed

theorem expire_two_goals_undefined_witness:
  "ub_result (fst (execute_check_expired_goals demo_env (demo_server GOAL_STATE_SUCCEEDED GOAL_STATE_ABORTED)))"
proof (rule expire_two_goals_undefined [where a = 0 and b = 1 and rest = "[]" and now = 5000000000])
  show "srv_inv (demo_server GOAL_STATE_SUCCEEDED GOAL_STATE_ABORTED)" by (simp add: demo_server_inv)
qed (simp_all add: demo_server_def demo_goal_def demo_env_def goal_info_stamp_to_nanosec_def)

text \<open>
  An active goal at the front of the array keeps every later goal from expiring, however long it
  has been terminated: the check ends without having forgotten anything.
\<close>

theorem active_goal_blocks_expiry:
  assumes "srv_inv s" and "good_env env" and "as_valid s" and "as_goals s = a # rest"
    and "rcl_action_goal_handle_is_active (Some (impls s ! a))"
  shows "fst (execute_check_expired_goals env s) = Ok True \<and> as_goals (snd (execute_check_expired_goals env s)) = as_goals s"
proof -
  obtain now where now: "env_clock env (calls s) = Inr now" "0 \<le> now" "now < TIME_END"
    using assms(2) unfolding good_env_def by blast
  let ?s = "s\<lparr>calls := Suc (calls s)\<rparr>"
  have ok: "goals_ok ?s" "impls_ok ?s" "timer_ok ?s"
    using assms(1) by (simp_all add: srv_inv_def goals_ok_def impls_ok_def timer_ok_def)
  from expire_one_eval [OF impls_times [OF ok(1,2)] now(2,3), of "as_result_timeout s"]
  have "expire_loop (Some 1) (as_result_timeout s) now [] (as_goals s) [] ?s = (Ok (as_goals s, []), ?s)"
    using assms(4,5) by simp
  moreover obtain n t where "recalculate_expire_timer env ?s = (Ok RCL_RET_OK, ?s\<lparr>calls := n, as_timer := Some t\<rparr>)"
    using recalculate_eval [OF ok assms(2)] by blast
  ultimately have "rcl_action_expire_goals env (Some 1) s = (Ok (RCL_RET_OK, []), s\<lparr>calls := n, as_timer := Some t\<rparr>)"
    using assms(1,3) now(1) by (simp add: rcl_action_expire_goals_def act_simps clock_eval goal_array_eval)
  then show ?thesis by (simp add: execute_check_expired_goals_def act_simps throw_unless_ok_def)
qed

theorem active_goal_blocks_expiry_witness:
  "as_goals (snd (execute_check_expired_goals demo_env (demo_server GOAL_STATE_EXECUTING GOAL_STATE_SUCCEEDED))) = [0, 1]"
  using active_goal_blocks_expiry [of "demo_server GOAL_STATE_EXECUTING GOAL_STATE_SUCCEEDED" demo_env 0 "[1]"]
  by (simp add: demo_server_inv demo_env_good) (simp add: demo_server_def demo_goal_def rcl_action_goal_handle_is_active_def)

text \<open>
  The loop of \<open>execute_check_expired_goals\<close> ends: it never runs out of the fuel of one round per goal
  and one more, so it returns, throws, or has already done something undefined.
\<close>

theorem check_expired_terminates:
  assumes "srv_inv s" and "good_env env"
  shows "fst (execute_check_expired_goals env s) \<noteq> Ok False"
  using check_expired_loop_ok [OF assms, of "Suc (length (as_goals s))"]
  by (auto simp: execute_check_expired_goals_def act_simps simp del: check_expired_loop.simps)

theorem check_expired_terminates_witness:
  "fst (execute_check_expired_goals demo_env (demo_server GOAL_STATE_SUCCEEDED GOAL_STATE_EXECUTING)) \<noteq> Ok False \<and>
   as_goals (snd (execute_check_expired_goals demo_env (demo_server GOAL_STATE_SUCCEEDED GOAL_STATE_EXECUTING))) = [1]"
proof -
  have "as_goals (snd (execute_check_expired_goals demo_env (demo_server GOAL_STATE_SUCCEEDED GOAL_STATE_EXECUTING))) = [1]"
    by code_simp
  then show ?thesis
    using check_expired_terminates [OF demo_server_inv demo_env_good, of GOAL_STATE_SUCCEEDED GOAL_STATE_EXECUTING] by simp
qed

text \<open>
  A goal request with an identifier the server already has is answered twice over: the client is
  told that the goal is accepted, then the handler throws and no goal is created.
\<close>

theorem duplicate_goal_answered_accepted:
  assumes "srv_inv s" and "good_env env" and "as_valid s" and "a \<in> set (as_goals s)"
    and "goal_id (gh_info (impls s ! a)) = uuid" and "handle_goal uuid goal \<noteq> GOAL_REJECT"
    and "env_transmit env (calls s) = RCL_RET_OK"
  shows "\<exists>t. execute_goal_request_received env (Inr (hdr, uuid, goal)) handle_goal retains s =
      (Err (Runtime_error (''Failed to accept new goal'' @ [CHR 0x0A])), t) \<and>
    sent t = sent s @ [Goal_response hdr True] \<and> as_goals t = as_goals s \<and> impls t = impls s"
proof -
  have len: "length uuid = UUID_SIZE" using assms(1,4,5) by (auto simp: srv_inv_def goals_ok_def)
  let ?t = "s\<lparr>goal_request_ready := False, calls := Suc (calls s), sent := sent s @ [Goal_response hdr True]\<rparr>"
  have inv: "srv_inv ?t" using assms(1) by simp
  have "rcl_action_accept_new_goal env (zero_goal_info\<lparr>goal_id := uuid\<rparr>) ?t = (Ok None, ?t)"
    using accept_eval [OF inv assms(2) len] assms(4,5) by fastforce
  then have "accept_goal env status retains uuid goal ?t =
      (Err (Runtime_error (''Failed to accept new goal'' @ [CHR 0x0A])), ?t)" for status
    by (simp add: accept_goal_def convert_id len act_simps)
  moreover have "handle_goal uuid goal = ACCEPT_AND_EXECUTE \<or> handle_goal uuid goal = ACCEPT_AND_DEFER"
    using assms(6) by (cases "handle_goal uuid goal") simp_all
  ultimately show ?thesis using assms(3,7)
    by (intro exI [of _ ?t]) (auto simp: execute_goal_request_received_def act_simps take_eval
        send_service_response_def transmitA_def Let_def throw_unless_ok_def)
qed

theorem duplicate_goal_answered_accepted_witness:
  "sent (snd (execute_goal_request_received demo_env (Inr (5, replicate 16 1, [])) (\<lambda>_ _. ACCEPT_AND_DEFER) True
     (demo_server GOAL_STATE_EXECUTING GOAL_STATE_ACCEPTED))) = [Goal_response 5 True]"
proof -
  let ?s = "demo_server GOAL_STATE_EXECUTING GOAL_STATE_ACCEPTED"
  have s: "as_valid ?s" "0 \<in> set (as_goals ?s)" "goal_id (gh_info (impls ?s ! 0)) = replicate 16 1" "sent ?s = []"
    "env_transmit demo_env (calls ?s) = RCL_RET_OK" by (simp_all add: demo_server_def demo_goal_def demo_env_def)
  have "srv_inv ?s" by (simp add: demo_server_inv)
  from duplicate_goal_answered_accepted [OF this demo_env_good s(1,2,3), of "\<lambda>_ _. ACCEPT_AND_DEFER" "[]" 5 True] s(4,5)
  show ?thesis by auto
qed

text \<open>
  The destructor of a user's handle ends the process when the server has become invalid, as it does
  when the context is shut down: the goal is active, so the destructor publishes a result, the
  server answers that the goal does not exist, and the exception leaves a destructor.
\<close>

theorem destroy_after_shutdown_terminates:
  assumes "srv_inv s" and "\<not> as_valid s" and "map_of (users s) k = Some u"
    and "rcl_action_goal_handle_is_active (Some (impls s ! uh_impl u))"
  shows "fst (user_destroy env k s) =
    Err (Std_terminate (Runtime_error ''Asked to publish result for goal that does not exist''))"
proof -
  have live: "live s (uh_impl u)" using assms(1,3) by (auto simp: srv_inv_def intro: live_user)
  have "on_terminal_state env (uh_uuid u) r t = (Err (Runtime_error ''Asked to publish result for goal that does not exist''), t)"
    if "\<not> as_valid t" for r t
    using that by (simp add: on_terminal_state_def publish_result_def rcl_action_server_goal_exists_def act_simps)
  then show ?thesis using assms(2-4) live
    by (simp add: user_destroy_def noexceptA_def act_simps userA_def try_canceling_eq set_implA_def)
qed

theorem destroy_after_shutdown_terminates_witness:
  "fst (user_destroy demo_env 0 (demo_server GOAL_STATE_EXECUTING GOAL_STATE_ACCEPTED\<lparr>as_valid := False\<rparr>)) =
    Err (Std_terminate (Runtime_error ''Asked to publish result for goal that does not exist''))"
proof -
  let ?s = "demo_server GOAL_STATE_EXECUTING GOAL_STATE_ACCEPTED\<lparr>as_valid := False\<rparr>"
  have "srv_inv (demo_server GOAL_STATE_EXECUTING GOAL_STATE_ACCEPTED)" by (simp add: demo_server_inv)
  then have "srv_inv ?s" by (simp add: inv_defs)
  then show ?thesis using destroy_after_shutdown_terminates [of ?s 0 "\<lparr>uh_impl = 0, uh_uuid = replicate 16 1, uh_goal = []\<rparr>" demo_env]
    by (simp add: demo_server_def demo_goal_def rcl_action_goal_handle_is_active_def)
qed

text \<open>
  The expiry timer is set too late or too early: \<open>_recalculate_expire_timer\<close> resets the timer before it
  exchanges the period, so the timer fires one old period from now and not when the next goal
  expires. Only the call after that has the new period.
\<close>

theorem expire_timer_fires_after_old_period:
  assumes "srv_inv s" and "good_env env" and "as_timer s = Some t" and "a \<in> set (as_goals s)"
    and "terminal (gh_state (impls s ! a))"
  shows "\<exists>now t'. env_clock env (Suc (calls s)) = Inr now \<and>
    as_timer (snd (recalculate_expire_timer env s)) = Some t' \<and> next_call_time t' = now + period t \<and> \<not> canceled t'"
proof -
  obtain now now2 where now: "env_clock env (calls s) = Inr now" "0 \<le> now" "now < TIME_END"
      and now2: "env_clock env (Suc (calls s)) = Inr now2" "0 \<le> now2" "now2 < TIME_END"
    using assms(2) unfolding good_env_def by metis
  let ?s1 = "s\<lparr>calls := Suc (calls s)\<rparr>"
  have ok: "goals_ok ?s1" "impls_ok ?s1" "timer_ok ?s1"
    using assms(1) by (simp_all add: srv_inv_def goals_ok_def impls_ok_def timer_ok_def)
  have t: "0 \<le> period t" "period t < TIMEOUT_END" "\<not> as_stale s" "0 \<le> as_result_timeout s" "as_result_timeout s < TIMEOUT_END"
    using ok(3) assms(3) by (auto simp: timer_ok_def)
  from inactive_goals_eval [OF impls_times [OF ok(1,2)] now(2,3) t(4,5), of 0 "as_result_timeout s"] obtain k l where
    kl: "inactive_goals (as_result_timeout s) now (as_goals s) 0 (as_result_timeout s) ?s1 = (Ok (k, l), ?s1)" and
    k: "k = 0 \<longleftrightarrow> (\<forall>a \<in> set (as_goals s). rcl_action_goal_handle_is_active (Some (impls s ! a)))"
    by auto
  have "\<not> rcl_action_goal_handle_is_active (Some (impls s ! a))" using assms(5) by (simp add: active_iff)
  then have "k \<noteq> 0" using k assms(4) by blast
  moreover have "as_goals s \<noteq> []" using assms(4) by (cases "as_goals s") simp_all
  moreover have "in_i64 (now2 + period t)" using now2 t by (simp add: in_i64_def)
  ultimately show ?thesis using now2 t kl now(1) assms(3)
    by (simp add: recalculate_expire_timer_def act_simps clock_eval goal_arrayA_def Let_def rcl_timer_reset_def i64_add_def
        rcl_timer_exchange_period_def)
qed

theorem expire_timer_fires_after_old_period_witness:
  "\<exists>t'. as_timer (snd (recalculate_expire_timer demo_env (demo_server GOAL_STATE_SUCCEEDED GOAL_STATE_ACCEPTED))) = Some t' \<and>
     next_call_time t' = 5000000000 + 1000 \<and> period t' = 0"
proof -
  let ?s = "demo_server GOAL_STATE_SUCCEEDED GOAL_STATE_ACCEPTED"
  have s: "as_timer ?s = Some demo_timer0" "0 \<in> set (as_goals ?s)" "terminal (gh_state (impls ?s ! 0))"
    by (simp_all add: demo_server_def demo_goal_def)
  have inv: "srv_inv ?s" by (simp add: demo_server_inv)
  have "map_option period (as_timer (snd (recalculate_expire_timer demo_env ?s))) = Some 0" by code_simp
  then show ?thesis using expire_timer_fires_after_old_period [OF inv demo_env_good s]
    by (auto simp: demo_env_def demo_timer0_def)
qed

end
