(* ===== verification/Lexer.thy ===== *)
theory Lexer
  imports Prelude
begin

text \<open>
  The lexer of remap rules (\<open>rcl/src/rcl/lexer.c\<close>): the table of the finite automaton as the
  source lays it out, the loop of \<open>rcl_lexer_analyze\<close> over it, and what the lexer computes. A
  pointer to a C string is the rest of the string it points to; the terminating zero stands at
  the index \<open>length text\<close> and an access behind it is undefined.
\<close>

section \<open>The automaton\<close>

datatype rcl_lexeme_t =
    RCL_LEXEME_NONE
  | RCL_LEXEME_EOF
  | RCL_LEXEME_TILDE_SLASH
  | RCL_LEXEME_URL_SERVICE
  | RCL_LEXEME_URL_TOPIC
  | RCL_LEXEME_COLON
  | RCL_LEXEME_NODE
  | RCL_LEXEME_NS
  | RCL_LEXEME_SEPARATOR
  | RCL_LEXEME_BR1
  | RCL_LEXEME_BR2
  | RCL_LEXEME_BR3
  | RCL_LEXEME_BR4
  | RCL_LEXEME_BR5
  | RCL_LEXEME_BR6
  | RCL_LEXEME_BR7
  | RCL_LEXEME_BR8
  | RCL_LEXEME_BR9
  | RCL_LEXEME_TOKEN
  | RCL_LEXEME_FORWARD_SLASH
  | RCL_LEXEME_WILD_ONE
  | RCL_LEXEME_WILD_MULTI

text \<open>
  A state keeps its else transition (target and movement) and its transitions; the array ends
  at the entry \<open>END_TRANSITIONS\<close>. States are numbers: \<open>S0\<close> to \<open>S30\<close> are 0 to 30, the terminals
  start at 31 (\<open>FIRST_TERMINAL\<close>).
\<close>

record rcl_lexer_transition_t =
  to_state :: nat
  range_start :: char
  range_end :: char

record rcl_lexer_state_t =
  else_state :: nat
  else_movement :: nat
  transitions :: "rcl_lexer_transition_t list"

abbreviation tr :: "nat \<Rightarrow> char \<Rightarrow> char \<Rightarrow> rcl_lexer_transition_t" where
  "tr s a b \<equiv> \<lparr> to_state = s, range_start = a, range_end = b \<rparr>"

abbreviation END_TRANSITIONS :: rcl_lexer_transition_t where
  "END_TRANSITIONS \<equiv> tr 0 (CHR 0x00) (CHR 0x00)"

abbreviation st :: "nat \<Rightarrow> nat \<Rightarrow> rcl_lexer_transition_t list \<Rightarrow> rcl_lexer_state_t" where
  "st e m ts \<equiv> \<lparr> else_state = e, else_movement = m, transitions = ts @ [END_TRANSITIONS] \<rparr>"

abbreviation LAST_STATE :: nat where "LAST_STATE \<equiv> 30"
abbreviation FIRST_TERMINAL :: nat where "FIRST_TERMINAL \<equiv> 31"
abbreviation LAST_TERMINAL :: nat where "LAST_TERMINAL \<equiv> 52"
abbreviation T_TILDE_SLASH :: nat where "T_TILDE_SLASH \<equiv> 31"
abbreviation T_URL_SERVICE :: nat where "T_URL_SERVICE \<equiv> 32"
abbreviation T_URL_TOPIC :: nat where "T_URL_TOPIC \<equiv> 33"
abbreviation T_COLON :: nat where "T_COLON \<equiv> 34"
abbreviation T_NODE :: nat where "T_NODE \<equiv> 35"
abbreviation T_NS :: nat where "T_NS \<equiv> 36"
abbreviation T_SEPARATOR :: nat where "T_SEPARATOR \<equiv> 37"
abbreviation T_BR1 :: nat where "T_BR1 \<equiv> 38"
abbreviation T_TOKEN :: nat where "T_TOKEN \<equiv> 47"
abbreviation T_FORWARD_SLASH :: nat where "T_FORWARD_SLASH \<equiv> 48"
abbreviation T_WILD_ONE :: nat where "T_WILD_ONE \<equiv> 49"
abbreviation T_WILD_MULTI :: nat where "T_WILD_MULTI \<equiv> 50"
abbreviation T_NONE :: nat where "T_NONE \<equiv> 52"

definition g_states :: "rcl_lexer_state_t list" where
  "g_states = [
     \<comment> \<open>S0\<close> st T_NONE 0 [tr T_FORWARD_SLASH (CHR ''/'') (CHR ''/''), tr 1 (CHR 0x5C) (CHR 0x5C),
       tr 2 (CHR ''~'') (CHR ''~''), tr 3 (CHR ''_'') (CHR ''_''), tr 8 (CHR ''a'') (CHR ''q''),
       tr 8 (CHR ''s'') (CHR ''z''), tr 8 (CHR ''A'') (CHR ''Z''), tr 10 (CHR ''r'') (CHR ''r''),
       tr 29 (CHR ''*'') (CHR ''*''), tr 30 (CHR '':'') (CHR '':'')],
     \<comment> \<open>S1\<close> st T_NONE 0 [tr 38 (CHR ''1'') (CHR ''1''), tr 39 (CHR ''2'') (CHR ''2''),
       tr 40 (CHR ''3'') (CHR ''3''), tr 41 (CHR ''4'') (CHR ''4''), tr 42 (CHR ''5'') (CHR ''5''),
       tr 43 (CHR ''6'') (CHR ''6''), tr 44 (CHR ''7'') (CHR ''7''), tr 45 (CHR ''8'') (CHR ''8''),
       tr 46 (CHR ''9'') (CHR ''9'')],
     \<comment> \<open>S2\<close> st T_NONE 0 [tr T_TILDE_SLASH (CHR ''/'') (CHR ''/'')],
     \<comment> \<open>S3\<close> st 9 1 [tr 4 (CHR ''_'') (CHR ''_'')],
     \<comment> \<open>S4\<close> st T_NONE 0 [tr 5 (CHR ''n'') (CHR ''n'')],
     \<comment> \<open>S5\<close> st T_NONE 0 [tr T_NS (CHR ''s'') (CHR ''s''), tr 6 (CHR ''o'') (CHR ''o'')],
     \<comment> \<open>S6\<close> st T_NONE 0 [tr 7 (CHR ''d'') (CHR ''d'')],
     \<comment> \<open>S7\<close> st T_NONE 0 [tr T_NODE (CHR ''e'') (CHR ''e'')],
     \<comment> \<open>S8\<close> st T_TOKEN 1 [tr 8 (CHR ''a'') (CHR ''z''), tr 8 (CHR ''A'') (CHR ''Z''),
       tr 8 (CHR ''0'') (CHR ''9''), tr 9 (CHR ''_'') (CHR ''_'')],
     \<comment> \<open>S9\<close> st T_TOKEN 1 [tr 8 (CHR ''a'') (CHR ''z''), tr 8 (CHR ''A'') (CHR ''Z''),
       tr 8 (CHR ''0'') (CHR ''9'')],
     \<comment> \<open>S10\<close> st 8 1 [tr 11 (CHR ''o'') (CHR ''o'')],
     \<comment> \<open>S11\<close> st 8 1 [tr 12 (CHR ''s'') (CHR ''s'')],
     \<comment> \<open>S12\<close> st 8 1 [tr 13 (CHR ''t'') (CHR ''t''), tr 20 (CHR ''s'') (CHR ''s'')],
     \<comment> \<open>S13\<close> st 8 1 [tr 14 (CHR ''o'') (CHR ''o'')],
     \<comment> \<open>S14\<close> st 8 1 [tr 15 (CHR ''p'') (CHR ''p'')],
     \<comment> \<open>S15\<close> st 8 1 [tr 16 (CHR ''i'') (CHR ''i'')],
     \<comment> \<open>S16\<close> st 8 1 [tr 17 (CHR ''c'') (CHR ''c'')],
     \<comment> \<open>S17\<close> st 8 1 [tr 18 (CHR '':'') (CHR '':'')],
     \<comment> \<open>S18\<close> st 8 2 [tr 19 (CHR ''/'') (CHR ''/'')],
     \<comment> \<open>S19\<close> st 8 3 [tr T_URL_TOPIC (CHR ''/'') (CHR ''/'')],
     \<comment> \<open>S20\<close> st 8 1 [tr 21 (CHR ''e'') (CHR ''e'')],
     \<comment> \<open>S21\<close> st 8 1 [tr 22 (CHR ''r'') (CHR ''r'')],
     \<comment> \<open>S22\<close> st 8 1 [tr 23 (CHR ''v'') (CHR ''v'')],
     \<comment> \<open>S23\<close> st 8 1 [tr 24 (CHR ''i'') (CHR ''i'')],
     \<comment> \<open>S24\<close> st 8 1 [tr 25 (CHR ''c'') (CHR ''c'')],
     \<comment> \<open>S25\<close> st 8 1 [tr 26 (CHR ''e'') (CHR ''e'')],
     \<comment> \<open>S26\<close> st 8 1 [tr 27 (CHR '':'') (CHR '':'')],
     \<comment> \<open>S27\<close> st 8 2 [tr 28 (CHR ''/'') (CHR ''/'')],
     \<comment> \<open>S28\<close> st 8 3 [tr T_URL_SERVICE (CHR ''/'') (CHR ''/'')],
     \<comment> \<open>S29\<close> st T_WILD_ONE 1 [tr T_WILD_MULTI (CHR ''*'') (CHR ''*'')],
     \<comment> \<open>S30\<close> st T_COLON 1 [tr T_SEPARATOR (CHR ''='') (CHR ''='')]]"

text \<open>The array has \<open>LAST_TERMINAL + 1\<close> entries; those without an initialiser are zero.\<close>

definition g_terminals :: "rcl_lexeme_t list" where
  "g_terminals = [RCL_LEXEME_TILDE_SLASH, RCL_LEXEME_URL_SERVICE, RCL_LEXEME_URL_TOPIC, RCL_LEXEME_COLON,
     RCL_LEXEME_NODE, RCL_LEXEME_NS, RCL_LEXEME_SEPARATOR, RCL_LEXEME_BR1, RCL_LEXEME_BR2, RCL_LEXEME_BR3,
     RCL_LEXEME_BR4, RCL_LEXEME_BR5, RCL_LEXEME_BR6, RCL_LEXEME_BR7, RCL_LEXEME_BR8, RCL_LEXEME_BR9,
     RCL_LEXEME_TOKEN, RCL_LEXEME_FORWARD_SLASH, RCL_LEXEME_WILD_ONE, RCL_LEXEME_WILD_MULTI,
     RCL_LEXEME_EOF, RCL_LEXEME_NONE] @ replicate 31 RCL_LEXEME_NONE"

section \<open>The analysis\<close>

definition c_char :: "string \<Rightarrow> nat \<Rightarrow> char res" where
  "c_char text i =
     (if i < length text then Ok (text ! i)
      else if i = length text then Ok (CHR 0x00)
      else Err (Undefined_behaviour ''read behind the end of a string''))"

text \<open>
  Comparison of characters. All bounds of the table are below 128, where signed and unsigned
  \<open>char\<close> agree; a byte above is in no range under either reading.
\<close>

definition in_range :: "char \<Rightarrow> char \<Rightarrow> char \<Rightarrow> bool" where
  "in_range a b c \<longleftrightarrow> (of_char a :: nat) \<le> of_char c \<and> (of_char c :: nat) \<le> of_char b"

text \<open>The inner loop: the target of the first transition whose range holds the character.\<close>

fun find_transition :: "rcl_lexer_transition_t list \<Rightarrow> char \<Rightarrow> nat res" where
  "find_transition [] c = Err (Undefined_behaviour ''read behind the transition array'')"
| "find_transition (t # ts) c =
     (if in_range (range_start t) (range_end t) c then Ok (to_state t)
      else if to_state t \<noteq> 0 then find_transition ts c
      else Ok 0)"

text \<open>One round of the outer loop: the next state and the new value of \<open>*length\<close>.\<close>

definition lexer_step :: "string \<Rightarrow> nat \<Rightarrow> nat \<Rightarrow> (nat \<times> nat) res" where
  "lexer_step text next_state len =
     (if next_state > LAST_STATE
      then Err (RCLError RCL_RET_ERROR ''Internal lexer bug: next state does not exist'')
      else
        let state = g_states ! next_state
        in bindR (c_char text len) (\<lambda>current_char.
           bindR (find_transition (transitions state) current_char) (\<lambda>found.
           let next = (if found = 0 then else_state state else found);
               movement = (if found = 0 then else_movement state else 0)
           in if movement = 0 then Ok (next, len + 1)
              else if movement - 1 > len
              then Err (RCLError RCL_RET_ERROR ''Internal lexer bug: movement would read before start of string'')
              else Ok (next, len - (movement - 1)))))"

lemma in_range_single [simp]: "in_range a a c \<longleftrightarrow> c = a"
  unfolding in_range_def by (metis le_antisym of_char_eq_iff order_refl)

lemma in_range_nul [simp]: "in_range a b (CHR 0x00) \<longleftrightarrow> a = CHR 0x00"
  unfolding in_range_def using of_char_eq_iff [of a "CHR 0x00"] by auto

lemma c_char_nth [simp]: "i < length text \<Longrightarrow> c_char text i = Ok (text ! i)"
  by (simp add: c_char_def)

lemma c_char_end [simp]: "c_char text (length text) = Ok (CHR 0x00)"
  by (simp add: c_char_def)

text \<open>The states the lexer passes before it scans a token only go up; in \<open>S8\<close> and \<open>S9\<close> it goes
  forward through the text.\<close>

definition scanning :: "nat \<Rightarrow> bool" where
  "scanning s \<longleftrightarrow> s = 8 \<or> s = 9"

definition lexer_rank :: "string \<Rightarrow> nat \<Rightarrow> nat \<Rightarrow> nat \<times> nat" where
  "lexer_rank text s len =
     (if scanning s then (0, Suc (length text) - len) else (1, LAST_STATE - s))"

text \<open>What one row of the table allows, as a check over the whole table: an else transition of a
  scanning state leaves the automaton, and every other edge goes up or starts to scan.\<close>

definition row_ok :: "nat \<Rightarrow> rcl_lexer_state_t \<Rightarrow> bool" where
  "row_ok s r \<longleftrightarrow>
     (\<forall>t \<in> set (transitions r). to_state t \<noteq> 0 \<longrightarrow> range_start t \<noteq> CHR 0x00 \<and>
        (if scanning s then scanning (to_state t)
         else scanning (to_state t) \<or> s < to_state t)) \<and>
     (if scanning s then LAST_STATE < else_state r
      else scanning (else_state r) \<or> s < else_state r) \<and>
     END_TRANSITIONS \<in> set (transitions r)"

lemma table_checked: "list_all (\<lambda>s. row_ok s (g_states ! s)) [0..<31]"
  by code_simp

lemma rows_ok: "s < 31 \<Longrightarrow> row_ok s (g_states ! s)"
  using table_checked by (simp add: list_all_iff)

lemma find_transition_total:
  "END_TRANSITIONS \<in> set ts \<Longrightarrow> \<exists>n. find_transition ts c = Ok n \<and>
     (n \<noteq> 0 \<longrightarrow> (\<exists>t \<in> set ts. to_state t = n \<and> in_range (range_start t) (range_end t) c))"
  by (induction ts) auto

lemma row_edge:
  assumes "s < 31" "END_TRANSITIONS \<in> set (transitions (g_states ! s))"
    "find_transition (transitions (g_states ! s)) c = Ok n" "n \<noteq> 0"
  shows "c \<noteq> CHR 0x00 \<and> (if scanning s then scanning n else scanning n \<or> s < n)"
proof -
  obtain t where t: "t \<in> set (transitions (g_states ! s))" "to_state t = n" "in_range (range_start t) (range_end t) c"
    using find_transition_total [OF assms(2), of c] assms(3,4) by auto
  with rows_ok [OF assms(1)] assms(4) show ?thesis
    by (auto simp: row_ok_def)
qed

text \<open>Every round that goes on lowers the rank.\<close>

lemma lexer_step_rank:
  assumes "lexer_step text s len = Ok (s', len')" "s' < 31"
  shows "(lexer_rank text s' len', lexer_rank text s len) \<in> less_than <*lex*> less_than"
proof -
  have s: "s < 31" using assms(1) by (auto simp: lexer_step_def split: if_splits)
  let ?r = "g_states ! s"
  have row: "row_ok s ?r" by (rule rows_ok [OF s])
  from assms(1) s obtain c n where c: "c_char text len = Ok c"
    and n: "find_transition (transitions ?r) c = Ok n"
    and nx: "s' = (if n = 0 then else_state ?r else n)"
      "n \<noteq> 0 \<longrightarrow> len' = len + 1"
    by (auto simp: lexer_step_def Let_def res_simps split: if_splits)
  show ?thesis
  proof (cases "n = 0")
    case True
    with row nx assms(2) show ?thesis
      by (auto simp: row_ok_def lexer_rank_def split: if_splits)
  next
    case False
    with row_edge [OF s _ n] row
    have edge: "c \<noteq> CHR 0x00" "if scanning s then scanning n else scanning n \<or> s < n"
      by (auto simp: row_ok_def)
    have "len < length text"
      using c edge(1) by (auto simp: c_char_def split: if_splits)
    with False edge(2) nx assms(2) show ?thesis
      by (auto simp: lexer_rank_def split: if_splits)
  qed
qed

function lexer_loop :: "string \<Rightarrow> nat \<Rightarrow> nat \<Rightarrow> (nat \<times> nat) res" where
  "lexer_loop text next_state len =
     bindR (lexer_step text next_state len) (\<lambda>(next, len').
       if next < FIRST_TERMINAL then lexer_loop text next len' else Ok (next, len'))"
  by pat_completeness auto

termination lexer_loop
proof (relation "inv_image (less_than <*lex*> less_than) (\<lambda>(text, s, len). lexer_rank text s len)", goal_cases)
  case 1
  show ?case by auto
next
  case (2 tx s len x s' len')
  then show ?case using lexer_step_rank [of tx s len s' len'] by (cases x) simp
qed

declare lexer_loop.simps [simp del]

definition rcl_lexer_analyze :: "string \<Rightarrow> (rcl_lexeme_t \<times> nat) res" where
  "rcl_lexer_analyze text =
     bindR (c_char text 0) (\<lambda>first.
     if first = CHR 0x00 then Ok (RCL_LEXEME_EOF, 0)
     else bindR (lexer_loop text 0 0) (\<lambda>(next_state, len).
       if FIRST_TERMINAL > next_state \<or> next_state - FIRST_TERMINAL > LAST_TERMINAL
       then Err (RCLError RCL_RET_ERROR ''Internal lexer bug: terminal state does not exist'')
       else Ok (g_terminals ! (next_state - FIRST_TERMINAL), len)))"

section \<open>What the lexer finds\<close>

text \<open>The characters of names.\<close>

definition letter :: "char \<Rightarrow> bool" where
  "letter c \<longleftrightarrow> in_range (CHR ''a'') (CHR ''z'') c \<or> in_range (CHR ''A'') (CHR ''Z'') c"

definition alnum :: "char \<Rightarrow> bool" where
  "alnum c \<longleftrightarrow> letter c \<or> in_range (CHR ''0'') (CHR ''9'') c"

text \<open>How far \<open>S8\<close> and \<open>S9\<close> scan: \<open>us\<close> tells whether an underscore may come next.\<close>

fun scan_length :: "bool \<Rightarrow> string \<Rightarrow> nat" where
  "scan_length us [] = 0"
| "scan_length us (c # cs) =
     (if alnum c then Suc (scan_length True cs)
      else if us \<and> c = CHR ''_'' then Suc (scan_length False cs)
      else 0)"

lemma c_char_simps [simp]:
  "c_char [] 0 = Ok (CHR 0x00)"
  "c_char (x # xs) 0 = Ok x"
  "c_char (x # xs) (Suc n) = c_char xs n"
  "c_char (x # xs) (numeral k) = c_char xs (pred_numeral k)"
  by (auto simp: c_char_def nth_Cons_numeral numeral_eq_Suc)

lemma c_char_append [simp]: "c_char (xs @ ys) (length xs) = c_char ys 0"
  by (simp add: c_char_def nth_append)

lemma alnum_literals [simp]:
  "\<not> alnum (CHR 0x00)" "\<not> alnum (CHR '':'')" "\<not> alnum (CHR ''/'')" "\<not> alnum (CHR ''_'')"
  by (simp_all add: alnum_def letter_def in_range_def)

lemma keyword_steps:
  "c_char text len = Ok c \<Longrightarrow> lexer_step text 10 len = Ok (if c = CHR ''o'' then (11, len + 1) else (8, len))"
  "c_char text len = Ok c \<Longrightarrow> lexer_step text 11 len = Ok (if c = CHR ''s'' then (12, len + 1) else (8, len))"
  "c_char text len = Ok c \<Longrightarrow> lexer_step text 13 len = Ok (if c = CHR ''o'' then (14, len + 1) else (8, len))"
  "c_char text len = Ok c \<Longrightarrow> lexer_step text 14 len = Ok (if c = CHR ''p'' then (15, len + 1) else (8, len))"
  "c_char text len = Ok c \<Longrightarrow> lexer_step text 15 len = Ok (if c = CHR ''i'' then (16, len + 1) else (8, len))"
  "c_char text len = Ok c \<Longrightarrow> lexer_step text 16 len = Ok (if c = CHR ''c'' then (17, len + 1) else (8, len))"
  "c_char text len = Ok c \<Longrightarrow> lexer_step text 17 len = Ok (if c = CHR '':'' then (18, len + 1) else (8, len))"
  "c_char text len = Ok c \<Longrightarrow> lexer_step text 20 len = Ok (if c = CHR ''e'' then (21, len + 1) else (8, len))"
  "c_char text len = Ok c \<Longrightarrow> lexer_step text 21 len = Ok (if c = CHR ''r'' then (22, len + 1) else (8, len))"
  "c_char text len = Ok c \<Longrightarrow> lexer_step text 22 len = Ok (if c = CHR ''v'' then (23, len + 1) else (8, len))"
  "c_char text len = Ok c \<Longrightarrow> lexer_step text 23 len = Ok (if c = CHR ''i'' then (24, len + 1) else (8, len))"
  "c_char text len = Ok c \<Longrightarrow> lexer_step text 24 len = Ok (if c = CHR ''c'' then (25, len + 1) else (8, len))"
  "c_char text len = Ok c \<Longrightarrow> lexer_step text 25 len = Ok (if c = CHR ''e'' then (26, len + 1) else (8, len))"
  "c_char text len = Ok c \<Longrightarrow> lexer_step text 26 len = Ok (if c = CHR '':'' then (27, len + 1) else (8, len))"
  by (simp_all add: lexer_step_def g_states_def Let_def)

lemma scan_steps:
  "c_char text len = Ok c \<Longrightarrow> lexer_step text 8 len =
     Ok (if alnum c then (8, len + 1) else if c = CHR ''_'' then (9, len + 1) else (T_TOKEN, len))"
  "c_char text len = Ok c \<Longrightarrow> lexer_step text 9 len = Ok (if alnum c then (8, len + 1) else (T_TOKEN, len))"
  by (simp_all add: lexer_step_def g_states_def Let_def alnum_def letter_def)

lemma loop_step:
  "lexer_step text s len = Ok p \<Longrightarrow>
     lexer_loop text s len = (if fst p < 31 then lexer_loop text (fst p) (snd p) else Ok p)"
  by (cases p) (simp add: lexer_loop.simps [of _ s])

lemma scan_loop:
  "lexer_loop (pre @ cs) 8 (length pre) = Ok (T_TOKEN, length pre + scan_length True cs) \<and>
   lexer_loop (pre @ cs) 9 (length pre) = Ok (T_TOKEN, length pre + scan_length False cs)"
proof (induction cs arbitrary: pre)
  case Nil
  then show ?case
    by (simp add: lexer_loop.simps [of _ 8] lexer_loop.simps [of _ 9] scan_steps [where c = "CHR 0x00"])
next
  case (Cons c cs)
  have IH: "lexer_loop (pre @ c # cs) 8 (Suc (length pre)) = Ok (T_TOKEN, Suc (length pre) + scan_length True cs)"
    "lexer_loop (pre @ c # cs) 9 (Suc (length pre)) = Ok (T_TOKEN, Suc (length pre) + scan_length False cs)"
    using Cons.IH [of "pre @ [c]"] by simp_all
  have at: "c_char (pre @ c # cs) (length pre) = Ok c" by simp
  show ?case
    using IH loop_step [OF scan_steps(1) [OF at]] loop_step [OF scan_steps(2) [OF at]]
    by (cases "c = CHR ''_''") simp_all
qed

text \<open>The two URL schemes: a state that has read \<open>pre\<close> finds the rest of the scheme or scans a token.\<close>

lemma url_steps:
  "c_char text len = Ok c \<Longrightarrow> 0 < len \<Longrightarrow> lexer_step text 18 len = Ok (if c = CHR ''/'' then (19, len + 1) else (8, len - 1))"
  "c_char text len = Ok c \<Longrightarrow> 1 < len \<Longrightarrow> lexer_step text 19 len = Ok (if c = CHR ''/'' then (T_URL_TOPIC, len + 1) else (8, len - 2))"
  "c_char text len = Ok c \<Longrightarrow> 0 < len \<Longrightarrow> lexer_step text 27 len = Ok (if c = CHR ''/'' then (28, len + 1) else (8, len - 1))"
  "c_char text len = Ok c \<Longrightarrow> 1 < len \<Longrightarrow> lexer_step text 28 len = Ok (if c = CHR ''/'' then (T_URL_SERVICE, len + 1) else (8, len - 2))"
  "c_char text len = Ok c \<Longrightarrow> lexer_step text 12 len = Ok (if c = CHR ''t'' then (13, len + 1) else if c = CHR ''s'' then (20, len + 1) else (8, len))"
  by (simp_all add: lexer_step_def g_states_def Let_def)

definition finds :: "string \<Rightarrow> string \<Rightarrow> nat \<Rightarrow> string \<Rightarrow> (nat \<times> nat) res" where
  "finds pre suf t cs =
     (if take (length suf) cs = suf then Ok (t, length pre + length suf)
      else Ok (T_TOKEN, length pre + scan_length True cs))"

lemma finds_step:
  assumes goes: "\<And>pre cs. lexer_loop (pre @ cs) s' (length pre) = finds pre suf t cs"
    and step: "\<And>text len c. c_char text len = Ok c \<Longrightarrow>
      lexer_step text s len = Ok (if c = x then (s', len + 1) else (8, len))"
    and "alnum x" "s' < 31"
  shows "lexer_loop (pre @ cs) s (length pre) = finds pre (x # suf) t cs"
proof (cases cs)
  case Nil
  have "\<not> alnum (CHR 0x00)" by simp
  with assms(3) have "x \<noteq> CHR 0x00" by metis
  with Nil show ?thesis
    using scan_loop [of pre "[]"] step [of "pre" "length pre" "CHR 0x00"]
    by (simp add: lexer_loop.simps [of _ s] finds_def)
next
  case (Cons c ds)
  have at: "c_char (pre @ c # ds) (length pre) = Ok c" by simp
  show ?thesis
    using goes [of "pre @ [c]" ds] assms(3,4) scan_loop [of pre cs] loop_step [OF step [OF at]] Cons
    by (cases "c = x") (simp_all add: finds_def)
qed

lemma c_char_after: "c_char (pre @ cs) (length pre + n) = c_char cs n"
  by (auto simp: c_char_def nth_append)

lemma finds_colon: "finds pre (CHR '':'' # suf) t cs =
    (if cs \<noteq> [] \<and> hd cs = CHR '':'' then
       if take (length suf) (tl cs) = suf then Ok (t, Suc (length pre + length suf)) else Ok (T_TOKEN, length pre)
     else Ok (T_TOKEN, length pre + scan_length True cs))"
  by (cases cs) (auto simp: finds_def)

lemma scheme_end:
  assumes s: "\<And>text len c. c_char text len = Ok c \<Longrightarrow>
      lexer_step text s len = Ok (if c = CHR '':'' then (s1, len + 1) else (8, len))"
    and s1: "\<And>text len c. c_char text len = Ok c \<Longrightarrow> 0 < len \<Longrightarrow>
      lexer_step text s1 len = Ok (if c = CHR ''/'' then (s2, len + 1) else (8, len - 1))"
    and s2: "\<And>text len c. c_char text len = Ok c \<Longrightarrow> 1 < len \<Longrightarrow>
      lexer_step text s2 len = Ok (if c = CHR ''/'' then (t, len + 1) else (8, len - 2))"
    and "s1 < 31" "s2 < 31" "31 \<le> t"
  shows "lexer_loop (pre @ cs) s (length pre) = finds pre ''://'' t cs"
proof -
  let ?x = "pre @ cs" and ?n = "length pre"
  have tok: "lexer_loop ?x 8 ?n = Ok (T_TOKEN, ?n + scan_length True cs)"
    by (rule conjunct1 [OF scan_loop])
  have loops: "c_char cs 0 = Ok c \<Longrightarrow> lexer_loop ?x s ?n = (if c = CHR '':'' then lexer_loop ?x s1 (?n + 1) else lexer_loop ?x 8 ?n)"
    "c_char cs 1 = Ok c \<Longrightarrow> lexer_loop ?x s1 (?n + 1) = (if c = CHR ''/'' then lexer_loop ?x s2 (?n + 2) else lexer_loop ?x 8 ?n)"
    "c_char cs 2 = Ok c \<Longrightarrow> lexer_loop ?x s2 (?n + 2) = (if c = CHR ''/'' then Ok (t, ?n + 3) else lexer_loop ?x 8 ?n)" for c
    using loop_step [OF s, of ?x ?n c] loop_step [OF s1, of ?x "?n + 1" c] loop_step [OF s2, of ?x "?n + 2" c]
      assms(4-6) c_char_after [of pre cs 0] c_char_after [of pre cs 1] c_char_after [of pre cs 2]
    by simp_all
  consider "cs = []" | x where "cs = [x]" | x y where "cs = [x, y]" | x y z ds where "cs = x # y # z # ds"
    by (metis list.exhaust)
  then show ?thesis
    using loops tok by cases (auto simp: finds_colon numeral_eq_Suc)
qed

lemma alnum_keyword [simp]:
  "alnum (CHR ''o'')" "alnum (CHR ''s'')" "alnum (CHR ''p'')" "alnum (CHR ''i'')" "alnum (CHR ''c'')"
  "alnum (CHR ''e'')" "alnum (CHR ''r'')" "alnum (CHR ''v'')" "alnum (CHR ''t'')"
  by (simp_all add: alnum_def letter_def in_range_def)

lemma state_17: "lexer_loop (pre @ cs) 17 (length pre) = finds pre ''://'' T_URL_TOPIC cs"
  by (rule scheme_end [OF keyword_steps(7) url_steps(1,2)]) simp_all

lemma state_16: "lexer_loop (pre @ cs) 16 (length pre) = finds pre ''c://'' T_URL_TOPIC cs"
  by (rule finds_step [OF state_17 keyword_steps(6)]) simp_all

lemma state_15: "lexer_loop (pre @ cs) 15 (length pre) = finds pre ''ic://'' T_URL_TOPIC cs"
  by (rule finds_step [OF state_16 keyword_steps(5)]) simp_all

lemma state_14: "lexer_loop (pre @ cs) 14 (length pre) = finds pre ''pic://'' T_URL_TOPIC cs"
  by (rule finds_step [OF state_15 keyword_steps(4)]) simp_all

lemma state_13: "lexer_loop (pre @ cs) 13 (length pre) = finds pre ''opic://'' T_URL_TOPIC cs"
  by (rule finds_step [OF state_14 keyword_steps(3)]) simp_all

lemma state_26: "lexer_loop (pre @ cs) 26 (length pre) = finds pre ''://'' T_URL_SERVICE cs"
  by (rule scheme_end [OF keyword_steps(14) url_steps(3,4)]) simp_all

lemma state_25: "lexer_loop (pre @ cs) 25 (length pre) = finds pre ''e://'' T_URL_SERVICE cs"
  by (rule finds_step [OF state_26 keyword_steps(13)]) simp_all

lemma state_24: "lexer_loop (pre @ cs) 24 (length pre) = finds pre ''ce://'' T_URL_SERVICE cs"
  by (rule finds_step [OF state_25 keyword_steps(12)]) simp_all

lemma state_23: "lexer_loop (pre @ cs) 23 (length pre) = finds pre ''ice://'' T_URL_SERVICE cs"
  by (rule finds_step [OF state_24 keyword_steps(11)]) simp_all

lemma state_22: "lexer_loop (pre @ cs) 22 (length pre) = finds pre ''vice://'' T_URL_SERVICE cs"
  by (rule finds_step [OF state_23 keyword_steps(10)]) simp_all

lemma state_21: "lexer_loop (pre @ cs) 21 (length pre) = finds pre ''rvice://'' T_URL_SERVICE cs"
  by (rule finds_step [OF state_22 keyword_steps(9)]) simp_all

lemma state_20: "lexer_loop (pre @ cs) 20 (length pre) = finds pre ''ervice://'' T_URL_SERVICE cs"
  by (rule finds_step [OF state_21 keyword_steps(8)]) simp_all


definition starts :: "string \<Rightarrow> string \<Rightarrow> bool" where
  "starts w text \<longleftrightarrow> take (length w) text = w"

lemma starts_simps [simp]:
  "starts [] text"
  "\<not> starts (x # w) []"
  "starts (x # w) (c # text) \<longleftrightarrow> c = x \<and> starts w text"
  by (auto simp: starts_def)

definition finds_url :: "string \<Rightarrow> string \<Rightarrow> string \<Rightarrow> string \<Rightarrow> (nat \<times> nat) res" where
  "finds_url pre w1 w2 cs =
     (if starts w1 cs then Ok (T_URL_TOPIC, length pre + length w1)
      else if starts w2 cs then Ok (T_URL_SERVICE, length pre + length w2)
      else Ok (T_TOKEN, length pre + scan_length True cs))"

lemma state_12: "lexer_loop (pre @ cs) 12 (length pre) = finds_url pre ''topic://'' ''service://'' cs"
proof (cases cs)
  case Nil
  then show ?thesis
    using loop_step [OF url_steps(5), of pre "length pre" "CHR 0x00"] scan_loop [of pre "[]"]
    by (simp add: finds_url_def)
next
  case (Cons c ds)
  then have at: "c_char (pre @ cs) (length pre) = Ok c" by simp
  consider "c = CHR ''t''" | "c = CHR ''s''" | "c \<noteq> CHR ''t''" "c \<noteq> CHR ''s''" by blast
  then show ?thesis
    using loop_step [OF url_steps(5) [OF at]] scan_loop [of pre cs]
      state_13 [of "pre @ [c]" ds] state_20 [of "pre @ [c]" ds] Cons
    by cases (simp_all add: finds_url_def finds_def starts_def)
qed

lemma url_step:
  assumes goes: "\<And>pre cs. lexer_loop (pre @ cs) s' (length pre) = finds_url pre w1 w2 cs"
    and step: "\<And>text len c. c_char text len = Ok c \<Longrightarrow>
      lexer_step text s len = Ok (if c = x then (s', len + 1) else (8, len))"
    and "alnum x" "s' < 31"
  shows "lexer_loop (pre @ cs) s (length pre) = finds_url pre (x # w1) (x # w2) cs"
proof (cases cs)
  case Nil
  have "\<not> alnum (CHR 0x00)" by simp
  with assms(3) have "x \<noteq> CHR 0x00" by metis
  with Nil show ?thesis
    using scan_loop [of pre "[]"] loop_step [OF step, of pre "length pre" "CHR 0x00"]
    by (simp add: finds_url_def)
next
  case (Cons c ds)
  have at: "c_char (pre @ c # ds) (length pre) = Ok c" by simp
  show ?thesis
    using goes [of "pre @ [c]" ds] assms(3,4) scan_loop [of pre cs] loop_step [OF step [OF at]] Cons
    by (cases "c = x") (simp_all add: finds_url_def)
qed

lemma state_11: "lexer_loop (pre @ cs) 11 (length pre) = finds_url pre ''stopic://'' ''sservice://'' cs"
  by (rule url_step [OF state_12 keyword_steps(2)]) simp_all

lemma state_10: "lexer_loop (pre @ cs) 10 (length pre) = finds_url pre ''ostopic://'' ''osservice://'' cs"
  by (rule url_step [OF state_11 keyword_steps(1)]) simp_all

subsection \<open>The reference definition\<close>

text \<open>
  The fixed words of the language, a longer word before its prefixes; a name token as the
  header describes it; and how far the lexer reads into a text that starts with neither.
\<close>

definition fixed_words :: "(string \<times> rcl_lexeme_t) list" where
  "fixed_words = [(''~/'', RCL_LEXEME_TILDE_SLASH), (''rosservice://'', RCL_LEXEME_URL_SERVICE),
     (''rostopic://'', RCL_LEXEME_URL_TOPIC), ('':='', RCL_LEXEME_SEPARATOR), ('':'', RCL_LEXEME_COLON),
     (''__node'', RCL_LEXEME_NODE), (''__ns'', RCL_LEXEME_NS), (''/'', RCL_LEXEME_FORWARD_SLASH),
     (''**'', RCL_LEXEME_WILD_MULTI), (''*'', RCL_LEXEME_WILD_ONE),
     ([CHR 0x5C, CHR ''1''], RCL_LEXEME_BR1), ([CHR 0x5C, CHR ''2''], RCL_LEXEME_BR2),
     ([CHR 0x5C, CHR ''3''], RCL_LEXEME_BR3), ([CHR 0x5C, CHR ''4''], RCL_LEXEME_BR4),
     ([CHR 0x5C, CHR ''5''], RCL_LEXEME_BR5), ([CHR 0x5C, CHR ''6''], RCL_LEXEME_BR6),
     ([CHR 0x5C, CHR ''7''], RCL_LEXEME_BR7), ([CHR 0x5C, CHR ''8''], RCL_LEXEME_BR8),
     ([CHR 0x5C, CHR ''9''], RCL_LEXEME_BR9)]"

fun token_length :: "string \<Rightarrow> nat" where
  "token_length [] = 0"
| "token_length (c # cs) =
     (if letter c then Suc (scan_length True cs)
      else if c = CHR ''_'' \<and> \<not> starts ''_'' cs then Suc (scan_length False cs)
      else 0)"

definition miss_length :: "string \<Rightarrow> nat" where
  "miss_length text =
     (if starts ''__nod'' text then 6 else if starts ''__no'' text then 5
      else if starts ''__n'' text then 4 else if starts ''__'' text then 3
      else if starts ''~'' text \<or> starts [CHR 0x5C] text then 2 else 1)"

definition lexeme_spec :: "string \<Rightarrow> rcl_lexeme_t \<times> nat" where
  "lexeme_spec text =
     (if text = [] then (RCL_LEXEME_EOF, 0)
      else case find (\<lambda>(w, l). starts w text) fixed_words of
        Some (w, l) \<Rightarrow> (l, length w)
      | None \<Rightarrow>
          if 0 < token_length text then (RCL_LEXEME_TOKEN, token_length text)
          else (RCL_LEXEME_NONE, miss_length text))"

definition c_string :: "string \<Rightarrow> bool" where
  "c_string text \<longleftrightarrow> CHR 0x00 \<notin> set text"

lemma letter_cases:
  "letter c \<longleftrightarrow> in_range (CHR ''a'') (CHR ''q'') c \<or> in_range (CHR ''s'') (CHR ''z'') c \<or>
     in_range (CHR ''A'') (CHR ''Z'') c \<or> c = CHR ''r''"
proof -
  have "in_range (CHR ''r'') (CHR ''r'') c \<longleftrightarrow> c = CHR ''r''" by (rule in_range_single)
  then show ?thesis unfolding letter_def in_range_def by auto
qed

lemma step_0:
  "c_char text len = Ok c \<Longrightarrow> lexer_step text 0 len = Ok (
     if c = CHR ''/'' then (T_FORWARD_SLASH, len + 1) else if c = CHR 0x5C then (1, len + 1)
     else if c = CHR ''~'' then (2, len + 1) else if c = CHR ''_'' then (3, len + 1)
     else if c = CHR ''r'' then (10, len + 1) else if letter c then (8, len + 1)
     else if c = CHR ''*'' then (29, len + 1) else if c = CHR '':'' then (30, len + 1)
     else (T_NONE, len + 1))"
  by (simp add: lexer_step_def g_states_def Let_def letter_cases) (simp add: in_range_def)

lemma word_steps:
  "c_char text len = Ok c \<Longrightarrow> lexer_step text 2 len = Ok (if c = CHR ''/'' then T_TILDE_SLASH else T_NONE, len + 1)"
  "c_char text len = Ok c \<Longrightarrow> lexer_step text 3 len = Ok (if c = CHR ''_'' then (4, len + 1) else (9, len))"
  "c_char text len = Ok c \<Longrightarrow> lexer_step text 4 len = Ok (if c = CHR ''n'' then 5 else T_NONE, len + 1)"
  "c_char text len = Ok c \<Longrightarrow> lexer_step text 5 len = Ok (if c = CHR ''s'' then T_NS else if c = CHR ''o'' then 6 else T_NONE, len + 1)"
  "c_char text len = Ok c \<Longrightarrow> lexer_step text 6 len = Ok (if c = CHR ''d'' then 7 else T_NONE, len + 1)"
  "c_char text len = Ok c \<Longrightarrow> lexer_step text 7 len = Ok (if c = CHR ''e'' then T_NODE else T_NONE, len + 1)"
  "c_char text len = Ok c \<Longrightarrow> lexer_step text 29 len = Ok (if c = CHR ''*'' then (T_WILD_MULTI, len + 1) else (T_WILD_ONE, len))"
  "c_char text len = Ok c \<Longrightarrow> lexer_step text 30 len = Ok (if c = CHR ''='' then (T_SEPARATOR, len + 1) else (T_COLON, len))"
  "c_char text len = Ok c \<Longrightarrow> lexer_step text 1 len = Ok (
     if c = CHR ''1'' then 38 else if c = CHR ''2'' then 39 else if c = CHR ''3'' then 40 else if c = CHR ''4'' then 41
     else if c = CHR ''5'' then 42 else if c = CHR ''6'' then 43 else if c = CHR ''7'' then 44 else if c = CHR ''8'' then 45
     else if c = CHR ''9'' then 46 else T_NONE, len + 1)"
  by (simp_all add: lexer_step_def g_states_def Let_def)

definition lexeme_at :: "string \<Rightarrow> (nat \<times> nat) res \<Rightarrow> bool" where
  "lexeme_at text r \<longleftrightarrow> (\<exists>t n. r = Ok (t, n) \<and> 31 \<le> t \<and> t \<le> 52 \<and> (g_terminals ! (t - 31), n) = lexeme_spec text)"

lemma not_letter [simp]:
  "\<not> letter (CHR ''/'')" "\<not> letter (CHR 0x5C)" "\<not> letter (CHR ''~'')" "\<not> letter (CHR ''_'')"
  "\<not> letter (CHR ''*'')" "\<not> letter (CHR '':'')" "letter (CHR ''r'')"
  by (simp_all add: letter_def in_range_def)

lemma spec_backslash: "lexeme_at (CHR 0x5C # cs) (lexer_loop (CHR 0x5C # cs) 1 1)"
proof (cases cs)
  case Nil
  then show ?thesis
    using loop_step [OF word_steps(9), of "[CHR 0x5C]" 1 "CHR 0x00"]
    by (simp add: lexeme_at_def lexeme_spec_def fixed_words_def g_terminals_def miss_length_def)
next
  case (Cons d ds)
  have run: "lexer_loop (CHR 0x5C # cs) 1 1 = Ok (
     if d = CHR ''1'' then 38 else if d = CHR ''2'' then 39 else if d = CHR ''3'' then 40 else if d = CHR ''4'' then 41
     else if d = CHR ''5'' then 42 else if d = CHR ''6'' then 43 else if d = CHR ''7'' then 44 else if d = CHR ''8'' then 45
     else if d = CHR ''9'' then 46 else T_NONE, 2)"
    using loop_step [OF word_steps(9), of "CHR 0x5C # cs" 1 d] Cons by simp
  consider "d = CHR ''1''" | "d = CHR ''2''" | "d = CHR ''3''" | "d = CHR ''4''" | "d = CHR ''5''"
    | "d = CHR ''6''" | "d = CHR ''7''" | "d = CHR ''8''" | "d = CHR ''9''"
    | "d \<noteq> CHR ''1''" "d \<noteq> CHR ''2''" "d \<noteq> CHR ''3''" "d \<noteq> CHR ''4''" "d \<noteq> CHR ''5''" "d \<noteq> CHR ''6''"
      "d \<noteq> CHR ''7''" "d \<noteq> CHR ''8''" "d \<noteq> CHR ''9''"
    by blast
  then show ?thesis
    using run Cons
    by cases (simp_all add: lexeme_at_def lexeme_spec_def fixed_words_def g_terminals_def miss_length_def
        numeral_2_eq_2)
qed

lemma spec_tilde: "lexeme_at (CHR ''~'' # cs) (lexer_loop (CHR ''~'' # cs) 2 1)"
proof -
  obtain d where d: "c_char cs 0 = Ok d" by (cases cs) simp_all
  show ?thesis
    using d by (cases cs) (auto simp: lexeme_at_def loop_step [OF word_steps(1), of _ _ d] lexeme_spec_def
      fixed_words_def g_terminals_def miss_length_def)
qed

lemma spec_star: "lexeme_at (CHR ''*'' # cs) (lexer_loop (CHR ''*'' # cs) 29 1)"
proof -
  obtain d where d: "c_char cs 0 = Ok d" by (cases cs) simp_all
  show ?thesis
    using d by (cases cs) (auto simp: lexeme_at_def loop_step [OF word_steps(7), of _ _ d] lexeme_spec_def
      fixed_words_def g_terminals_def miss_length_def)
qed

lemma spec_colon: "lexeme_at (CHR '':'' # cs) (lexer_loop (CHR '':'' # cs) 30 1)"
proof -
  obtain d where d: "c_char cs 0 = Ok d" by (cases cs) simp_all
  show ?thesis
    using d by (cases cs) (auto simp: lexeme_at_def loop_step [OF word_steps(8), of _ _ d] lexeme_spec_def
      fixed_words_def g_terminals_def miss_length_def)
qed

lemma spec_letter:
  assumes "letter c" "c \<noteq> CHR ''r''"
  shows "lexeme_at (c # cs) (lexer_loop (c # cs) 8 1)"
proof -
  have "c \<noteq> CHR ''/''" "c \<noteq> CHR 0x5C" "c \<noteq> CHR ''~''" "c \<noteq> CHR ''_''" "c \<noteq> CHR ''*''" "c \<noteq> CHR '':''"
    using assms(1) by auto
  with assms show ?thesis
    using scan_loop [of "[c]" cs]
    by (auto simp: lexeme_at_def lexeme_spec_def fixed_words_def g_terminals_def)
qed

lemma schemes_differ: "starts ''ostopic://'' cs \<Longrightarrow> \<not> starts ''osservice://'' cs"
  unfolding starts_def by (drule arg_cong [of _ _ "take 3"]) (auto dest: arg_cong [of _ _ "take 3"])

lemma spec_r: "lexeme_at (CHR ''r'' # cs) (lexer_loop (CHR ''r'' # cs) 10 1)"
  using state_10 [of "''r''" cs] schemes_differ [of cs]
  by (auto simp: lexeme_at_def finds_url_def lexeme_spec_def fixed_words_def g_terminals_def)

lemma underscore_loop:
  shows "lexer_loop (CHR ''_'' # CHR ''_'' # ds) 3 1 = lexer_loop (CHR ''_'' # CHR ''_'' # ds) 4 2"
    and "c_char ds 0 = Ok c \<Longrightarrow> lexer_loop (CHR ''_'' # CHR ''_'' # ds) 4 2 =
       (if c = CHR ''n'' then lexer_loop (CHR ''_'' # CHR ''_'' # ds) 5 3 else Ok (T_NONE, 3))"
    and "c_char ds 1 = Ok c \<Longrightarrow> lexer_loop (CHR ''_'' # CHR ''_'' # ds) 5 3 =
       (if c = CHR ''s'' then Ok (T_NS, 4)
        else if c = CHR ''o'' then lexer_loop (CHR ''_'' # CHR ''_'' # ds) 6 4 else Ok (T_NONE, 4))"
    and "c_char ds 2 = Ok c \<Longrightarrow> lexer_loop (CHR ''_'' # CHR ''_'' # ds) 6 4 =
       (if c = CHR ''d'' then lexer_loop (CHR ''_'' # CHR ''_'' # ds) 7 5 else Ok (T_NONE, 5))"
    and "c_char ds 3 = Ok c \<Longrightarrow> lexer_loop (CHR ''_'' # CHR ''_'' # ds) 7 5 =
       Ok (if c = CHR ''e'' then T_NODE else T_NONE, 6)"
  subgoal by (subst loop_step [OF word_steps(2), of _ _ "CHR ''_''"]) (simp_all add: numeral_2_eq_2)
  subgoal by (subst loop_step [OF word_steps(3), of _ _ c]) (simp_all add: numeral_eq_Suc)
  subgoal by (subst loop_step [OF word_steps(4), of _ _ c]) (simp_all add: numeral_eq_Suc)
  subgoal by (subst loop_step [OF word_steps(5), of _ _ c]) (simp_all add: numeral_eq_Suc)
  subgoal by (subst loop_step [OF word_steps(6), of _ _ c]) (simp_all add: numeral_eq_Suc)
  .

lemma spec_underscore: "lexeme_at (CHR ''_'' # cs) (lexer_loop (CHR ''_'' # cs) 3 1)"
proof (cases "starts ''_'' cs")
  case False
  obtain d where d: "c_char cs 0 = Ok d" "d \<noteq> CHR ''_''" using False by (cases cs) simp_all
  with False show ?thesis
    using scan_loop [of "''_''" cs] loop_step [OF word_steps(2), of "CHR ''_'' # cs" 1 d]
    by (cases cs) (auto simp: lexeme_at_def lexeme_spec_def fixed_words_def g_terminals_def)
next
  case True
  then obtain ds where cs: "cs = CHR ''_'' # ds" by (cases cs) simp_all
  consider "ds = []" | x where "ds = [x]" | x y where "ds = [x, y]" | x y z where "ds = [x, y, z]"
    | x y z w es where "ds = x # y # z # w # es" by (metis list.exhaust)
  then show ?thesis
    using cs by cases (auto simp: underscore_loop [simplified One_nat_def] lexeme_at_def lexeme_spec_def fixed_words_def g_terminals_def
      miss_length_def)
qed

lemma analyze_spec:
  assumes "c_string text"
  shows "rcl_lexer_analyze text = Ok (lexeme_spec text)"
proof (cases "text")
  case Nil
  then show ?thesis by (simp add: rcl_lexer_analyze_def lexeme_spec_def)
next
  case (Cons c cs)
  then have c: "c \<noteq> CHR 0x00" using assms by (auto simp: c_string_def)
  note run = loop_step [OF step_0, of "c # cs" 0 c]
  consider "c = CHR ''/''" | "c = CHR 0x5C" | "c = CHR ''~''" | "c = CHR ''_''" | "c = CHR ''r''" | "c = CHR ''*''"
    | "c = CHR '':''" | "letter c" "c \<noteq> CHR ''r''"
    | "c \<noteq> CHR ''/''" "c \<noteq> CHR 0x5C" "c \<noteq> CHR ''~''" "c \<noteq> CHR ''_''" "c \<noteq> CHR ''r''" "c \<noteq> CHR ''*''"
      "c \<noteq> CHR '':''" "\<not> letter c"
    by blast
  then have "lexeme_at (c # cs) (lexer_loop (c # cs) 0 0)"
  proof cases
    case 1
    then show ?thesis using run by (simp add: lexeme_at_def lexeme_spec_def fixed_words_def g_terminals_def)
  next
    case 2
    then show ?thesis using run spec_backslash [of cs] by simp
  next
    case 3
    then show ?thesis using run spec_tilde [of cs] by simp
  next
    case 4
    then show ?thesis using run spec_underscore [of cs] by simp
  next
    case 5
    then show ?thesis using run spec_r [of cs] by simp
  next
    case 6
    then show ?thesis using run spec_star [of cs] by simp
  next
    case 7
    then show ?thesis using run spec_colon [of cs] by simp
  next
    case 8
    then have "c \<noteq> CHR ''/''" "c \<noteq> CHR 0x5C" "c \<noteq> CHR ''~''" "c \<noteq> CHR ''_''" by auto
    with 8 show ?thesis using run spec_letter [OF 8, of cs] by simp
  next
    case 9
    then show ?thesis
      using run by (simp add: lexeme_at_def lexeme_spec_def fixed_words_def g_terminals_def miss_length_def)
  qed
  with Cons c show ?thesis
    by (auto simp: rcl_lexer_analyze_def lexeme_at_def)
qed

subsection \<open>Name tokens\<close>

text \<open>The regular expression \<open>(([a-zA-Z](_)?)|_)([0-9a-zA-Z](_)?)*\<close> of the header.\<close>

inductive token_tail :: "string \<Rightarrow> bool" where
  tail_end: "token_tail []"
| tail_char: "alnum c \<Longrightarrow> token_tail w \<Longrightarrow> token_tail (c # w)"
| tail_underscore: "alnum c \<Longrightarrow> token_tail w \<Longrightarrow> token_tail (c # CHR ''_'' # w)"

inductive token_word :: "string \<Rightarrow> bool" where
  word_letter: "letter c \<Longrightarrow> token_tail w \<Longrightarrow> token_word (c # w)"
| word_letter_underscore: "letter c \<Longrightarrow> token_tail w \<Longrightarrow> token_word (c # CHR ''_'' # w)"
| word_underscore: "token_tail w \<Longrightarrow> token_word (CHR ''_'' # w)"

fun tail_ok :: "bool \<Rightarrow> string \<Rightarrow> bool" where
  "tail_ok us [] = True"
| "tail_ok us (c # w) = (alnum c \<and> tail_ok True w \<or> us \<and> c = CHR ''_'' \<and> tail_ok False w)"

lemma letter_alnum: "letter c \<Longrightarrow> alnum c"
  by (simp add: alnum_def)

lemma token_tail_ok: "token_tail w \<Longrightarrow> tail_ok us w"
  by (induction arbitrary: us rule: token_tail.induct) auto

lemma ok_token_tail:
  "tail_ok us w \<Longrightarrow> (us \<longrightarrow> (\<forall>c. alnum c \<longrightarrow> token_tail (c # w))) \<and> (\<not> us \<longrightarrow> token_tail w)"
  by (induction us w rule: tail_ok.induct) (auto intro: token_tail.intros)

lemma token_tail_iff: "token_tail w \<longleftrightarrow> tail_ok False w"
  using token_tail_ok ok_token_tail by blast

lemma token_word_Cons:
  "token_word (c # w) \<longleftrightarrow> letter c \<and> tail_ok True w \<or> c = CHR ''_'' \<and> tail_ok False w"
proof -
  have "tail_ok True w \<longleftrightarrow> token_tail w \<or> (\<exists>v. w = CHR ''_'' # v \<and> token_tail v)"
    by (cases w) (auto simp: token_tail_iff)
  then show ?thesis by (auto elim: token_word.cases intro: token_word.intros simp: token_tail_iff)
qed

lemma not_token_Nil [simp]: "\<not> token_word []"
  by (auto elim: token_word.cases)

lemma tail_take: "m \<le> length cs \<Longrightarrow> tail_ok us (take m cs) \<longleftrightarrow> m \<le> scan_length us cs"
proof (induction us cs arbitrary: m rule: scan_length.induct)
  case (2 us c cs)
  then show ?case by (cases m) auto
qed simp

lemma scan_length_le: "scan_length us cs \<le> length cs"
  by (induction us cs rule: scan_length.induct) auto

lemma token_take:
  assumes "m \<le> length text" "\<not> starts ''__'' text"
  shows "token_word (take m text) \<longleftrightarrow> 0 < m \<and> m \<le> token_length text"
proof (cases "text")
  case (Cons c cs)
  with assms show ?thesis
    by (cases m) (auto simp: token_word_Cons tail_take)
qed (use assms in simp)

lemma token_length_le: "token_length text \<le> length text"
  by (cases "text") (auto simp: scan_length_le)

lemma starts_head: "starts (x # w) cs \<Longrightarrow> starts [x] cs"
  by (cases cs) simp_all

lemma starts_length: "starts w text \<Longrightarrow> length w \<le> length text"
  unfolding starts_def by (metis length_take min.cobounded1)

lemma token_keyword: "find (\<lambda>(w, l). starts w text) fixed_words = Some (w, l) \<Longrightarrow> 0 < token_length text \<Longrightarrow>
    starts ''rosservice://'' text \<or> starts ''rostopic://'' text"
  by (cases "text") (auto simp: fixed_words_def dest: starts_head split: if_splits)

lemma fixed_not_token: "(w, l) \<in> set fixed_words \<Longrightarrow> l \<noteq> RCL_LEXEME_TOKEN \<and> l \<noteq> RCL_LEXEME_NONE \<and> l \<noteq> RCL_LEXEME_EOF \<and> w \<noteq> []"
  by (auto simp: fixed_words_def)

lemma fixed_found:
  "find (\<lambda>(w, l). starts w text) fixed_words = Some (w, l) \<Longrightarrow> (w, l) \<in> set fixed_words \<and> starts w text"
  by (auto simp: find_Some_iff in_set_conv_nth)

lemma spec_token_iff:
  "lexeme_spec text = (RCL_LEXEME_TOKEN, n) \<longleftrightarrow>
     \<not> starts ''rosservice://'' text \<and> \<not> starts ''rostopic://'' text \<and> 0 < n \<and> n = token_length text"
proof (cases "find (\<lambda>(w, l). starts w text) fixed_words")
  case None
  then have "\<not> starts ''rosservice://'' text \<and> \<not> starts ''rostopic://'' text"
    unfolding find_None_iff by (auto simp: fixed_words_def)
  with None show ?thesis by (auto simp: lexeme_spec_def)
next
  case (Some p)
  then obtain w l where p: "p = (w, l)" "(w, l) \<in> set fixed_words" using fixed_found by (cases p) blast
  with Some fixed_not_token [OF p(2)] token_keyword [of "text" w l]
  show ?thesis by (auto simp: lexeme_spec_def)
qed

subsection \<open>Results\<close>

text \<open>The texts on which the automaton meets the terminating zero inside a word.\<close>

definition cut_short :: "string \<Rightarrow> bool" where
  "cut_short text \<longleftrightarrow> text \<in> {''~'', [CHR 0x5C], ''__'', ''__n'', ''__no'', ''__nod''}"

lemma miss_length_bounds:
  assumes "text \<noteq> []" "\<not> cut_short text"
  shows "0 < miss_length text \<and> miss_length text \<le> length text"
proof -
  consider x where "text = [x]" | x y where "text = [x, y]" | x y z where "text = [x, y, z]"
    | x y z w where "text = [x, y, z, w]" | x y z w v where "text = [x, y, z, w, v]"
    | x y z w v u es where "text = x # y # z # w # v # u # es"
    using assms(1) by (metis list.exhaust)
  then show ?thesis using assms(2) by cases (auto simp: miss_length_def cut_short_def)
qed

lemma spec_cut_short_all:
  "list_all (\<lambda>text. lexeme_spec text = (RCL_LEXEME_NONE, length text + 1))
     [''~'', [CHR 0x5C], ''__'', ''__n'', ''__no'', ''__nod'']"
  by code_simp

lemma spec_cut_short: "cut_short text \<Longrightarrow> lexeme_spec text = (RCL_LEXEME_NONE, length text + 1)"
  using spec_cut_short_all unfolding cut_short_def list_all_iff by (metis list.set)

lemma spec_length:
  assumes "text \<noteq> []" "\<not> cut_short text" "lexeme_spec text = (l, n)"
  shows "l \<noteq> RCL_LEXEME_EOF \<and> 0 < n \<and> n \<le> length text"
proof (cases "find (\<lambda>(w, l). starts w text) fixed_words")
  case None
  with assms miss_length_bounds [OF assms(1,2)] token_length_le [of "text"] show ?thesis
    by (auto simp: lexeme_spec_def split: if_splits)
next
  case (Some p)
  then obtain w m where "p = (w, m)" "(w, m) \<in> set fixed_words" "starts w text"
    using fixed_found by (cases p) blast
  with Some assms fixed_not_token [of w m] starts_length show ?thesis
    by (auto simp: lexeme_spec_def)
qed

lemma longest_token:
  assumes "\<not> starts ''__'' text"
  shows "0 < n \<and> n = token_length text \<longleftrightarrow>
    n \<le> length text \<and> token_word (take n text) \<and> (\<forall>m. n < m \<and> m \<le> length text \<longrightarrow> \<not> token_word (take m text))"
proof -
  note take = token_take [OF _ assms]
  show ?thesis (is "?l \<longleftrightarrow> ?r")
  proof
    assume ?l
    with take token_length_le [of "text"] show ?r by auto
  next
    assume r: ?r
    then have n: "0 < n" "n \<le> token_length text" using take by auto
    moreover have "\<not> n < token_length text"
      using r take [OF token_length_le] token_length_le [of "text"] n by (metis gr_zeroI not_less_zero order_refl)
    ultimately show ?l by simp
  qed
qed

text \<open>The lexer is total: on every C string \<open>rcl_lexer_analyze\<close> returns \<open>RCL_RET_OK\<close> (the loop
  ends, none of its "internal bug" branches is reached and nothing behind the terminator
  is read), finds end-of-input exactly on the empty string, consumes something otherwise,
  and the length it reports stays inside the string, except that on six texts, cut off
  inside a word, it counts the terminating zero as part of the text.\<close>

theorem lexer_total:
  assumes "c_string text"
  shows "\<exists>l n. rcl_lexer_analyze text = Ok (l, n) \<and> (l = RCL_LEXEME_EOF \<longleftrightarrow> text = []) \<and>
    (0 < n \<longleftrightarrow> text \<noteq> []) \<and> n \<le> length text + 1 \<and> (n = length text + 1 \<longleftrightarrow> cut_short text)"
proof (cases "cut_short text")
  case True
  moreover from this have "text \<noteq> []" by (auto simp: cut_short_def)
  ultimately show ?thesis
    using analyze_spec [OF assms] spec_cut_short [of "text"] by simp
next
  case False
  obtain l n where ln: "lexeme_spec text = (l, n)" by (cases "lexeme_spec text")
  with analyze_spec [OF assms] spec_length [of "text" l n] False show ?thesis
    by (cases "text = []") (auto simp: lexeme_spec_def)
qed

theorem lexer_total_witness:
  "\<exists>l n. rcl_lexer_analyze ''rostopic:/a'' = Ok (l, n) \<and> (l = RCL_LEXEME_EOF \<longleftrightarrow> ''rostopic:/a'' = []) \<and>
    (0 < n \<longleftrightarrow> ''rostopic:/a'' \<noteq> []) \<and> n \<le> length ''rostopic:/a'' + 1 \<and>
    (n = length ''rostopic:/a'' + 1 \<longleftrightarrow> cut_short ''rostopic:/a'')"
  by (rule lexer_total) (simp add: c_string_def)

text \<open>C12.
  The lexer finds name tokens by longest match: on a C string that starts with neither URL
  scheme nor two underscores it returns a token of length \<open>n\<close> exactly if the first \<open>n\<close>
  characters match the regular expression the header gives for names and no longer prefix
  of the text does.\<close>

theorem lexer_token_longest_match:
  assumes "c_string text" "\<not> starts ''rosservice://'' text" "\<not> starts ''rostopic://'' text" "\<not> starts ''__'' text"
  shows "rcl_lexer_analyze text = Ok (RCL_LEXEME_TOKEN, n) \<longleftrightarrow>
    n \<le> length text \<and> token_word (take n text) \<and> (\<forall>m. n < m \<and> m \<le> length text \<longrightarrow> \<not> token_word (take m text))"
proof -
  have "rcl_lexer_analyze text = Ok (RCL_LEXEME_TOKEN, n) \<longleftrightarrow> 0 < n \<and> n = token_length text"
    using assms by (simp add: analyze_spec spec_token_iff)
  also have "\<dots> \<longleftrightarrow> n \<le> length text \<and> token_word (take n text) \<and> (\<forall>m. n < m \<and> m \<le> length text \<longrightarrow> \<not> token_word (take m text))"
    using longest_token [OF assms(4)] by simp
  finally show ?thesis .
qed

theorem lexer_token_longest_match_witness:
  "rcl_lexer_analyze ''ros_2_name__x'' = Ok (RCL_LEXEME_TOKEN, 11) \<longleftrightarrow>
    11 \<le> length ''ros_2_name__x'' \<and> token_word (take 11 ''ros_2_name__x'') \<and>
    (\<forall>m. 11 < m \<and> m \<le> length ''ros_2_name__x'' \<longrightarrow> \<not> token_word (take m ''ros_2_name__x''))"
  by (rule lexer_token_longest_match) (simp_all add: c_string_def)

end
