(* ===== verification/Lookahead.thy ===== *)
theory Lookahead
  imports Effects Lexer
begin

text \<open>
  The two-lexeme lookahead buffer of the remap rule parser (\<open>rcl/src/rcl/lexer_lookahead.c\<close>)
  with its invariant: the first slot, when it is filled, holds the lexeme the unread text
  starts with, the second one the lexeme behind it.
\<close>

section \<open>The buffer\<close>

record rcl_lexer_lookahead2_t =
  la_text :: string
  text_idx :: nat
  start0 :: nat
  start1 :: nat
  end0 :: nat
  end1 :: nat
  type0 :: rcl_lexeme_t
  type1 :: rcl_lexeme_t

definition rcl_lexer_lookahead2_init :: "string \<Rightarrow> rcl_lexer_lookahead2_t" where
  "rcl_lexer_lookahead2_init text =
     \<lparr> la_text = text, text_idx = 0, start0 = 0, start1 = 0, end0 = 0, end1 = 0,
       type0 = RCL_LEXEME_NONE, type1 = RCL_LEXEME_NONE \<rparr>"

text \<open>The lexer started at an index of the text.\<close>

definition analyze_from :: "string \<Rightarrow> nat \<Rightarrow> (rcl_lexeme_t \<times> nat) res" where
  "analyze_from text i =
     (if i \<le> length text then rcl_lexer_analyze (drop i text)
      else Err (Undefined_behaviour ''read behind the end of a string''))"

definition rcl_lexer_lookahead2_get_text :: "('a rcl_lexer_lookahead2_t_scheme, string) act" where
  "rcl_lexer_lookahead2_get_text = getA (\<lambda>b. drop (text_idx b) (la_text b))"

definition rcl_lexer_lookahead2_peek :: "('a rcl_lexer_lookahead2_t_scheme, rcl_lexeme_t) act" where
  "rcl_lexer_lookahead2_peek =
     bindA (getA (\<lambda>b. b)) (\<lambda>b.
     if text_idx b \<ge> end0 b
     then bindA (liftA (analyze_from (la_text b) (text_idx b))) (\<lambda>(ty, len).
            seqA (modA (\<lambda>b. b\<lparr> type0 := ty, start0 := text_idx b, end0 := text_idx b + len \<rparr>))
              (getA type0))
     else retA (type0 b))"

definition rcl_lexer_lookahead2_peek2 ::
  "('a rcl_lexer_lookahead2_t_scheme, rcl_lexeme_t \<times> rcl_lexeme_t) act" where
  "rcl_lexer_lookahead2_peek2 =
     bindA rcl_lexer_lookahead2_peek (\<lambda>next_type1.
     bindA (getA (\<lambda>b. b)) (\<lambda>b.
     if text_idx b \<ge> end1 b
     then bindA (liftA (analyze_from (la_text b) (end0 b))) (\<lambda>(ty, len).
            seqA (modA (\<lambda>b. b\<lparr> type1 := ty, start1 := end0 b, end1 := end0 b + len \<rparr>))
              (retA (next_type1, ty)))
     else retA (next_type1, type1 b)))"

text \<open>The result is the text of the lexeme, as the pointer and the length the caller may ask for.\<close>

definition rcl_lexer_lookahead2_accept :: "('a rcl_lexer_lookahead2_t_scheme, string \<times> nat) act" where
  "rcl_lexer_lookahead2_accept =
     bindA (getA (\<lambda>b. b)) (\<lambda>b.
     if type0 b = RCL_LEXEME_EOF then bindA rcl_lexer_lookahead2_get_text (\<lambda>t. retA (t, 0))
     else if text_idx b \<ge> end0 b then throwA (RCLError RCL_RET_ERROR ''no lexeme to accept'')
     else seqA (modA (\<lambda>b. b\<lparr> text_idx := end0 b, start0 := start1 b, end0 := end1 b, type0 := type1 b \<rparr>))
            (retA (drop (start0 b) (la_text b), end0 b - start0 b)))"

definition rcl_lexer_lookahead2_expect :: "rcl_lexeme_t \<Rightarrow> ('a rcl_lexer_lookahead2_t_scheme, string \<times> nat) act" where
  "rcl_lexer_lookahead2_expect ty =
     bindA rcl_lexer_lookahead2_peek (\<lambda>lexeme.
     if ty \<noteq> lexeme
     then if lexeme = RCL_LEXEME_NONE \<or> lexeme = RCL_LEXEME_EOF
          then throwA (RCLError RCL_RET_WRONG_LEXEME ''Expected lexeme type not found, search ended'')
          else throwA (RCLError RCL_RET_WRONG_LEXEME ''Expected lexeme type, got another'')
     else rcl_lexer_lookahead2_accept)"

lemmas lookahead_defs = rcl_lexer_lookahead2_get_text_def rcl_lexer_lookahead2_peek_def
  rcl_lexer_lookahead2_accept_def rcl_lexer_lookahead2_expect_def

section \<open>The invariant of the buffer\<close>

definition rest :: "'a rcl_lexer_lookahead2_t_scheme \<Rightarrow> string" where
  "rest b = drop (text_idx b) (la_text b)"

text \<open>The first slot holds the next lexeme.\<close>

definition peeked :: "'a rcl_lexer_lookahead2_t_scheme \<Rightarrow> bool" where
  "peeked b \<longleftrightarrow> lexeme_spec (rest b) = (type0 b, end0 b - text_idx b) \<and> start0 b = text_idx b \<and> text_idx b \<le> end0 b"

text \<open>The second slot is behind the first or holds the lexeme that follows it.\<close>

definition slot1_ok :: "'a rcl_lexer_lookahead2_t_scheme \<Rightarrow> bool" where
  "slot1_ok b \<longleftrightarrow>
     end1 b \<le> max (text_idx b) (end0 b) \<or>
     text_idx b < end0 b \<and> end0 b \<le> length (la_text b) \<and> start1 b = end0 b \<and>
       lexeme_spec (drop (end0 b) (la_text b)) = (type1 b, end1 b - end0 b)"

definition la_ok :: "'a rcl_lexer_lookahead2_t_scheme \<Rightarrow> bool" where
  "la_ok b \<longleftrightarrow> c_string (la_text b) \<and> text_idx b \<le> length (la_text b) \<and>
     (text_idx b < end0 b \<longrightarrow> peeked b) \<and> slot1_ok b"

lemma c_string_drop: "c_string s \<Longrightarrow> c_string (drop n s)"
  by (auto simp: c_string_def dest: in_set_dropD)

lemma c_string_append [simp]: "c_string (a @ b) \<longleftrightarrow> c_string a \<and> c_string b"
  by (auto simp: c_string_def)

lemma spec_accepts: "lexeme_spec s = (l, n) \<Longrightarrow> l \<noteq> RCL_LEXEME_NONE \<Longrightarrow> n \<le> length s \<and> (n = 0 \<longleftrightarrow> l = RCL_LEXEME_EOF)"
  using spec_length [of s l n] spec_cut_short [of s] by (cases "s = []") (auto simp: lexeme_spec_def)

text \<open>After \<open>peek\<close> the first slot holds the next lexeme, and nothing else changes.\<close>

lemma peek_eval:
  assumes "la_ok b"
  shows "\<exists>b'. rcl_lexer_lookahead2_peek b = (Ok (fst (lexeme_spec (rest b))), b') \<and> la_ok b' \<and> peeked b' \<and>
    rest b' = rest b \<and> b' = b\<lparr> type0 := type0 b', start0 := start0 b', end0 := end0 b' \<rparr>"
proof (cases "text_idx b \<ge> end0 b")
  case True
  obtain l n where ln: "lexeme_spec (rest b) = (l, n)" by (cases "lexeme_spec (rest b)")
  let ?b = "b\<lparr> type0 := l, start0 := text_idx b, end0 := text_idx b + n \<rparr>"
  have "analyze_from (la_text b) (text_idx b) = Ok (l, n)"
    using assms ln by (simp add: analyze_from_def la_ok_def analyze_spec c_string_drop rest_def)
  then have "rcl_lexer_lookahead2_peek b = (Ok l, ?b)"
    using True by (simp add: rcl_lexer_lookahead2_peek_def act_simps)
  moreover have "peeked ?b" "rest ?b = rest b" using ln by (simp_all add: peeked_def rest_def)
  moreover have "la_ok ?b" using assms True \<open>peeked ?b\<close> by (auto simp: la_ok_def slot1_ok_def)
  ultimately show ?thesis using ln by (intro exI [of _ ?b]) simp
next
  case False
  then show ?thesis
    using assms by (intro exI [of _ b]) (auto simp: rcl_lexer_lookahead2_peek_def act_simps la_ok_def peeked_def)
qed

lemma accept_lexeme_eval:
  assumes "la_ok b" "peeked b" "type0 b \<noteq> RCL_LEXEME_NONE"
  shows "\<exists>b'. rcl_lexer_lookahead2_accept b = (Ok (rest b, snd (lexeme_spec (rest b))), b') \<and> la_ok b' \<and>
    rest b' = drop (snd (lexeme_spec (rest b))) (rest b) \<and>
    b' = b\<lparr> text_idx := text_idx b', type0 := type0 b', start0 := start0 b', end0 := end0 b' \<rparr>"
proof -
  obtain l n where ln: "lexeme_spec (rest b) = (l, n)" by (cases "lexeme_spec (rest b)")
  have l: "type0 b = l" "end0 b = text_idx b + n" "start0 b = text_idx b"
    using assms(2) ln by (auto simp: peeked_def)
  have n: "n \<le> length (rest b)" "n = 0 \<longleftrightarrow> l = RCL_LEXEME_EOF" using spec_accepts [OF ln] assms(3) l by auto
  show ?thesis
  proof (cases "n = 0")
    case True
    with n l ln assms(1) show ?thesis
      by (intro exI [of _ b]) (simp add: lookahead_defs act_simps rest_def)
  next
    case False
    let ?b = "b\<lparr> text_idx := end0 b, start0 := start1 b, end0 := end1 b, type0 := type1 b \<rparr>"
    have "rcl_lexer_lookahead2_accept b = (Ok (rest b, n), ?b)"
      using False n l by (simp add: lookahead_defs act_simps rest_def)
    moreover have "rest ?b = drop n (rest b)" using l by (simp add: rest_def add.commute)
    moreover have "la_ok ?b"
      using assms(1) l n(1) False by (auto simp: la_ok_def slot1_ok_def peeked_def rest_def)
    ultimately show ?thesis using ln by (intro exI [of _ ?b]) simp
  qed
qed

end
