(* ===== verification/RemapRule.thy ===== *)
theory RemapRule
  imports Lookahead
begin

text \<open>
  The recursive descent parser of remap rules (\<open>rcl/src/rcl/arguments.c\<close>, the functions
  \<open>_rcl_parse_remap_*\<close>) on the lookahead buffer. The function \<open>view\<close> reads an operation of the
  parser as a function on the unread text, \<open>transparent\<close> says that this is the whole truth: what
  the buffer holds does not show.
\<close>

unbundle bit_operations_syntax

section \<open>Rules\<close>

abbreviation RCL_UNKNOWN_REMAP :: u32 where "RCL_UNKNOWN_REMAP \<equiv> 0"
abbreviation RCL_TOPIC_REMAP :: u32 where "RCL_TOPIC_REMAP \<equiv> 1"
abbreviation RCL_SERVICE_REMAP :: u32 where "RCL_SERVICE_REMAP \<equiv> 2"
abbreviation RCL_NODENAME_REMAP :: u32 where "RCL_NODENAME_REMAP \<equiv> 4"
abbreviation RCL_NAMESPACE_REMAP :: u32 where "RCL_NAMESPACE_REMAP \<equiv> 8"

record rcl_remap_impl_t =
  remap_type :: u32
  node_name :: "string option"
  match :: "string option"
  replacement :: "string option"

definition rcl_get_zero_initialized_remap :: rcl_remap_impl_t where
  "rcl_get_zero_initialized_remap =
     \<lparr> remap_type = RCL_UNKNOWN_REMAP, node_name = None, match = None, replacement = None \<rparr>"

text \<open>What the parser uses of the memory allocator and of rcutils: whether the allocations of
  \<open>_rcl_parse_remap_rule\<close> succeed, and the copy of the first characters of a string.\<close>

record rcutils =
  alloc_ok :: "string \<Rightarrow> bool"
  strndup :: "string \<Rightarrow> nat \<Rightarrow> string option"

text \<open>The contract of \<open>rcutils_strndup\<close> when memory is available.\<close>

definition copies_text :: "rcutils \<Rightarrow> bool" where
  "copies_text rc \<longleftrightarrow> (\<forall>s n. strndup rc s n = Some (take n s)) \<and> (\<forall>site. alloc_ok rc site)"

record parse_state = rcl_lexer_lookahead2_t +
  rule :: rcl_remap_impl_t

section \<open>The parser\<close>

text \<open>A call whose return code the caller looks at: the code, or the result on \<open>RCL_RET_OK\<close>.\<close>

definition codeA :: "('s, 'a) act \<Rightarrow> ('s, rcl_ret + 'a) act" where
  "codeA m = (\<lambda>s. case m s of
       (Inl (RCLError code msg), s') \<Rightarrow> (Ok (Inl code), s')
     | (Inl e, s') \<Rightarrow> (Inl e, s')
     | (Inr x, s') \<Rightarrow> (Ok (Inr x), s'))"

text \<open>An expected lexeme: the wrong one makes the rule invalid, any other code is ignored.\<close>

definition expect_in_rule :: "rcl_lexeme_t \<Rightarrow> (parse_state, unit) act" where
  "expect_in_rule ty =
     bindA (codeA (rcl_lexer_lookahead2_expect ty)) (\<lambda>ret.
     if ret = Inl RCL_RET_WRONG_LEXEME then throwA (RCLError RCL_RET_INVALID_REMAP_RULE '''')
     else retA ())"

fun namespace_loop :: "nat \<Rightarrow> (parse_state, unit) act" where
  "namespace_loop 0 = throwA (Undefined_behaviour ''loop bound reached'')"
| "namespace_loop (Suc k) =
     bindA (codeA (rcl_lexer_lookahead2_expect RCL_LEXEME_TOKEN)) (\<lambda>ret.
     if ret = Inl RCL_RET_WRONG_LEXEME then retA ()
     else bindA (codeA (rcl_lexer_lookahead2_expect RCL_LEXEME_FORWARD_SLASH)) (\<lambda>ret.
       if ret = Inl RCL_RET_WRONG_LEXEME then retA ()
       else namespace_loop k))"

definition loop_bound :: "(parse_state, nat) act" where
  "loop_bound = getA (\<lambda>b. Suc (length (rest b)))"

definition rcl_parse_remap_fully_qualified_namespace :: "(parse_state, unit) act" where
  "rcl_parse_remap_fully_qualified_namespace =
     seqA (expect_in_rule RCL_LEXEME_FORWARD_SLASH) (bindA loop_bound namespace_loop)"

definition backreference :: "rcl_lexeme_t \<Rightarrow> bool" where
  "backreference l \<longleftrightarrow> l \<in> {RCL_LEXEME_BR1, RCL_LEXEME_BR2, RCL_LEXEME_BR3, RCL_LEXEME_BR4, RCL_LEXEME_BR5,
     RCL_LEXEME_BR6, RCL_LEXEME_BR7, RCL_LEXEME_BR8, RCL_LEXEME_BR9}"

definition rcl_parse_remap_replacement_token :: "(parse_state, unit) act" where
  "rcl_parse_remap_replacement_token =
     bindA rcl_lexer_lookahead2_peek (\<lambda>lexeme.
     if backreference lexeme then throwA (RCLError RCL_RET_ERROR ''Backreferences are not implemented'')
     else if lexeme = RCL_LEXEME_TOKEN then seqA rcl_lexer_lookahead2_accept (retA ())
     else throwA (RCLError RCL_RET_INVALID_REMAP_RULE ''''))"

text \<open>The copy of the text between two pointers into a rule.\<close>

definition copy_between :: "rcutils \<Rightarrow> string \<Rightarrow> string \<Rightarrow> string \<Rightarrow> string res" where
  "copy_between rc start_ptr end_ptr msg =
     (case strndup rc start_ptr (length start_ptr - length end_ptr) of
        None \<Rightarrow> Err (RCLError RCL_RET_BAD_ALLOC msg)
      | Some s \<Rightarrow> Ok s)"

fun replacement_loop :: "nat \<Rightarrow> rcl_lexeme_t \<Rightarrow> (parse_state, unit) act" where
  "replacement_loop 0 lexeme = throwA (Undefined_behaviour ''loop bound reached'')"
| "replacement_loop (Suc k) lexeme =
     (if lexeme = RCL_LEXEME_EOF then retA ()
      else seqA (expect_in_rule RCL_LEXEME_FORWARD_SLASH)
           (seqA rcl_parse_remap_replacement_token
           (bindA rcl_lexer_lookahead2_peek (replacement_loop k))))"

definition rcl_parse_remap_replacement_name :: "rcutils \<Rightarrow> (parse_state, unit) act" where
  "rcl_parse_remap_replacement_name rc =
     bindA rcl_lexer_lookahead2_get_text (\<lambda>replacement_start.
     bindA rcl_lexer_lookahead2_peek (\<lambda>lexeme.
     seqA (if lexeme = RCL_LEXEME_TILDE_SLASH \<or> lexeme = RCL_LEXEME_FORWARD_SLASH
           then seqA rcl_lexer_lookahead2_accept (retA ()) else retA ())
     (seqA rcl_parse_remap_replacement_token
     (bindA rcl_lexer_lookahead2_peek (\<lambda>lexeme.
     seqA (bindA loop_bound (\<lambda>k. replacement_loop k lexeme))
     (bindA rcl_lexer_lookahead2_get_text (\<lambda>replacement_end.
     bindA (liftA (copy_between rc replacement_start replacement_end ''failed to copy replacement'')) (\<lambda>s.
     modA (\<lambda>b. b\<lparr> rule := (rule b)\<lparr> replacement := Some s \<rparr> \<rparr>)))))))))"

definition rcl_parse_remap_match_token :: "(parse_state, unit) act" where
  "rcl_parse_remap_match_token =
     bindA rcl_lexer_lookahead2_peek (\<lambda>lexeme.
     if lexeme = RCL_LEXEME_TOKEN then seqA rcl_lexer_lookahead2_accept (retA ())
     else if lexeme = RCL_LEXEME_WILD_ONE then throwA (RCLError RCL_RET_ERROR ''Wildcard '*' is not implemented'')
     else if lexeme = RCL_LEXEME_WILD_MULTI then throwA (RCLError RCL_RET_ERROR ''Wildcard '**' is not implemented'')
     else throwA (RCLError RCL_RET_INVALID_REMAP_RULE ''Expecting token or wildcard''))"

fun match_loop :: "nat \<Rightarrow> rcl_lexeme_t \<Rightarrow> (parse_state, unit) act" where
  "match_loop 0 lexeme = throwA (Undefined_behaviour ''loop bound reached'')"
| "match_loop (Suc k) lexeme =
     (if lexeme = RCL_LEXEME_SEPARATOR then retA ()
      else seqA (expect_in_rule RCL_LEXEME_FORWARD_SLASH)
           (seqA rcl_parse_remap_match_token
           (bindA rcl_lexer_lookahead2_peek (match_loop k))))"

definition set_type :: "u32 \<Rightarrow> (parse_state, unit) act" where
  "set_type t = modA (\<lambda>b. b\<lparr> rule := (rule b)\<lparr> remap_type := t \<rparr> \<rparr>)"

definition rcl_parse_remap_match_name :: "rcutils \<Rightarrow> (parse_state, unit) act" where
  "rcl_parse_remap_match_name rc =
     bindA rcl_lexer_lookahead2_peek (\<lambda>lexeme.
     seqA (if lexeme = RCL_LEXEME_URL_SERVICE
           then seqA (set_type RCL_SERVICE_REMAP) (seqA rcl_lexer_lookahead2_accept (retA ()))
           else if lexeme = RCL_LEXEME_URL_TOPIC
           then seqA (set_type RCL_TOPIC_REMAP) (seqA rcl_lexer_lookahead2_accept (retA ()))
           else set_type (RCL_TOPIC_REMAP OR RCL_SERVICE_REMAP))
     (bindA rcl_lexer_lookahead2_get_text (\<lambda>match_start.
     bindA rcl_lexer_lookahead2_peek (\<lambda>lexeme.
     seqA (if lexeme = RCL_LEXEME_TILDE_SLASH \<or> lexeme = RCL_LEXEME_FORWARD_SLASH
           then seqA rcl_lexer_lookahead2_accept (retA ()) else retA ())
     (seqA rcl_parse_remap_match_token
     (bindA rcl_lexer_lookahead2_peek (\<lambda>lexeme.
     seqA (bindA loop_bound (\<lambda>k. match_loop k lexeme))
     (bindA rcl_lexer_lookahead2_get_text (\<lambda>match_end.
     bindA (liftA (copy_between rc match_start match_end ''failed to copy match'')) (\<lambda>s.
     modA (\<lambda>b. b\<lparr> rule := (rule b)\<lparr> match := Some s \<rparr> \<rparr>)))))))))))"

definition rcl_parse_remap_name_remap :: "rcutils \<Rightarrow> (parse_state, unit) act" where
  "rcl_parse_remap_name_remap rc =
     seqA (rcl_parse_remap_match_name rc)
     (seqA (expect_in_rule RCL_LEXEME_SEPARATOR)
     (rcl_parse_remap_replacement_name rc))"

definition rcl_parse_remap_namespace_replacement :: "rcutils \<Rightarrow> (parse_state, unit) act" where
  "rcl_parse_remap_namespace_replacement rc =
     seqA (expect_in_rule RCL_LEXEME_NS)
     (seqA (expect_in_rule RCL_LEXEME_SEPARATOR)
     (bindA rcl_lexer_lookahead2_get_text (\<lambda>ns_start.
     seqA rcl_parse_remap_fully_qualified_namespace
     (seqA (rcl_lexer_lookahead2_expect RCL_LEXEME_EOF)
     (bindA rcl_lexer_lookahead2_get_text (\<lambda>ns_end.
     bindA (liftA (copy_between rc ns_start ns_end ''failed to copy namespace'')) (\<lambda>s.
     seqA (modA (\<lambda>b. b\<lparr> rule := (rule b)\<lparr> replacement := Some s \<rparr> \<rparr>))
     (set_type RCL_NAMESPACE_REMAP))))))))"

text \<open>\<open>rcutils_strndup\<close> on the text of an accepted lexeme.\<close>

definition copy_lexeme :: "rcutils \<Rightarrow> string \<times> nat \<Rightarrow> string res" where
  "copy_lexeme rc lx =
     (case strndup rc (fst lx) (snd lx) of
        None \<Rightarrow> Err (RCLError RCL_RET_BAD_ALLOC ''failed to allocate node name'')
      | Some s \<Rightarrow> Ok s)"

definition rcl_parse_remap_nodename_replacement :: "rcutils \<Rightarrow> (parse_state, unit) act" where
  "rcl_parse_remap_nodename_replacement rc =
     seqA (expect_in_rule RCL_LEXEME_NODE)
     (seqA (expect_in_rule RCL_LEXEME_SEPARATOR)
     (bindA (codeA (rcl_lexer_lookahead2_expect RCL_LEXEME_TOKEN)) (\<lambda>ret.
     case ret of
       Inl code \<Rightarrow> throwA (RCLError
         (if code = RCL_RET_WRONG_LEXEME then RCL_RET_INVALID_REMAP_RULE else code) '''')
     | Inr lx \<Rightarrow>
         bindA (liftA (copy_lexeme rc lx)) (\<lambda>s.
         seqA (modA (\<lambda>b. b\<lparr> rule := (rule b)\<lparr> replacement := Some s \<rparr> \<rparr>))
         (set_type RCL_NODENAME_REMAP)))))"

text \<open>If the token could not be read for another reason, \<open>node_name\<close> is not initialised when it
  is copied.\<close>

definition rcl_parse_remap_nodename_prefix :: "rcutils \<Rightarrow> (parse_state, unit) act" where
  "rcl_parse_remap_nodename_prefix rc =
     bindA (codeA (rcl_lexer_lookahead2_expect RCL_LEXEME_TOKEN)) (\<lambda>ret.
     if ret = Inl RCL_RET_WRONG_LEXEME then throwA (RCLError RCL_RET_INVALID_REMAP_RULE '''')
     else seqA (expect_in_rule RCL_LEXEME_COLON)
       (case ret of
          Inl code \<Rightarrow> throwA (Undefined_behaviour ''uninitialised node_name'')
        | Inr lx \<Rightarrow>
            bindA (liftA (copy_lexeme rc lx)) (\<lambda>s.
            modA (\<lambda>b. b\<lparr> rule := (rule b)\<lparr> node_name := Some s \<rparr> \<rparr>))))"

definition parse_rule_body :: "rcutils \<Rightarrow> (parse_state, unit) act" where
  "parse_rule_body rc =
     bindA rcl_lexer_lookahead2_peek (\<lambda>lexeme1.
     seqA (if lexeme1 = RCL_LEXEME_NODE then rcl_parse_remap_nodename_replacement rc
           else if lexeme1 = RCL_LEXEME_NS then rcl_parse_remap_namespace_replacement rc
           else rcl_parse_remap_name_remap rc)
     (expect_in_rule RCL_LEXEME_EOF))"

definition rcl_parse_remap_begin_remap_rule :: "rcutils \<Rightarrow> (parse_state, unit) act" where
  "rcl_parse_remap_begin_remap_rule rc =
     bindA rcl_lexer_lookahead2_peek2 (\<lambda>(lexeme1, lexeme2).
     seqA (if lexeme1 = RCL_LEXEME_TOKEN \<and> lexeme2 = RCL_LEXEME_COLON
           then rcl_parse_remap_nodename_prefix rc else retA ())
     (parse_rule_body rc))"

text \<open>The rule the argument describes; on an error \<open>rcl_remap_fini\<close> frees the partial rule.\<close>

definition rcl_parse_remap_rule :: "rcutils \<Rightarrow> string \<Rightarrow> rcl_remap_impl_t res" where
  "rcl_parse_remap_rule rc arg =
     (if \<not> alloc_ok rc ''rcl_remap_impl_t'' then Err (RCLError RCL_RET_BAD_ALLOC '''')
      else if \<not> alloc_ok rc ''rcl_lexer_lookahead2_impl_t''
      then Err (RCLError RCL_RET_BAD_ALLOC ''Failed to allocate lookahead impl'')
      else case rcl_parse_remap_begin_remap_rule rc
                (rcl_lexer_lookahead2_t.extend (rcl_lexer_lookahead2_init arg)
                  (parse_state.fields rcl_get_zero_initialized_remap)) of
             (Inl e, b) \<Rightarrow> Inl e
           | (Inr _, b) \<Rightarrow> Ok (rule b))"

section \<open>What the parser sees of the buffer\<close>

text \<open>The canonical buffer on a text, and an operation as a function on the unread text and the rule.\<close>

definition mk :: "string \<Rightarrow> rcl_remap_impl_t \<Rightarrow> parse_state" where
  "mk s r = \<lparr> la_text = s, text_idx = 0, start0 = 0, start1 = 0, end0 = snd (lexeme_spec s), end1 = 0,
     type0 = fst (lexeme_spec s), type1 = RCL_LEXEME_NONE, rule = r \<rparr>"

type_synonym seen = "string \<times> rcl_remap_impl_t"

definition sees :: "parse_state \<Rightarrow> seen" where
  "sees b = (rest b, rule b)"

definition view :: "(parse_state, 'a) act \<Rightarrow> (seen, 'a) act" where
  "view P = (\<lambda>(s, r). case P (mk s r) of (x, b) \<Rightarrow> (x, sees b))"

definition agrees :: "(parse_state, 'a) act \<Rightarrow> parse_state \<Rightarrow> bool" where
  "agrees P b \<longleftrightarrow> (fst (P b), sees (snd (P b))) = view P (sees b) \<and> la_ok (snd (P b))"

definition transparent :: "(parse_state, 'a) act \<Rightarrow> bool" where
  "transparent P \<longleftrightarrow> (\<forall>b. la_ok b \<longrightarrow> agrees P b)"

text \<open>Transparent after a look at the next lexeme, which is \<open>l\<close>.\<close>

definition transparent_at :: "rcl_lexeme_t \<Rightarrow> (parse_state, 'a) act \<Rightarrow> bool" where
  "transparent_at l P \<longleftrightarrow> (\<forall>b. la_ok b \<and> peeked b \<and> type0 b = l \<longrightarrow> agrees P b)"

named_theorems transparentI \<open>introduction rules for transparency\<close>

lemma mk_simps [simp]: "rest (mk s r) = s" "sees (mk s r) = (s, r)" "peeked (mk s r)" "rule (mk s r) = r"
  "type0 (mk s r) = fst (lexeme_spec s)"
  by (simp_all add: mk_def rest_def sees_def peeked_def)

lemma mk_ok [simp]: "c_string s \<Longrightarrow> la_ok (mk s r)"
  by (auto simp: la_ok_def slot1_ok_def) (simp_all add: mk_def)

lemma la_ok_rest: "la_ok b \<Longrightarrow> c_string (rest b)"
  by (simp add: la_ok_def rest_def c_string_drop)

lemma transparent_at: "transparent P \<Longrightarrow> transparent_at l P"
  by (simp add: transparent_def transparent_at_def)

lemma agrees_bind:
  assumes m: "agrees m b" "agrees m (mk (rest b) (rule b))"
    and f: "\<And>x b'. m b = (Ok x, b') \<Longrightarrow> agrees (f x) b'" "\<And>x b'. m (mk (rest b) (rule b)) = (Ok x, b') \<Longrightarrow> agrees (f x) b'"
  shows "agrees (bindA m f) b"
proof -
  obtain x b1 where 1: "m b = (x, b1)" by (cases "m b")
  obtain y b2 where 2: "m (mk (rest b) (rule b)) = (y, b2)" by (cases "m (mk (rest b) (rule b))")
  have eq: "x = y" "sees b1 = sees b2" "la_ok b1"
    using m(1) 1 2 by (auto simp: agrees_def view_def sees_def)
  show ?thesis
  proof (cases x)
    case (Inl e)
    with 1 2 eq show ?thesis by (auto simp: agrees_def view_def bindA_def sees_def [of b])
  next
    case (Inr z)
    with f 1 2 eq have "agrees (f z) b1" "agrees (f z) b2" by auto
    then have "fst (f z b1) = fst (f z b2)" "sees (snd (f z b1)) = sees (snd (f z b2))" "la_ok (snd (f z b1))"
      using eq unfolding agrees_def by (metis fst_conv, metis snd_conv, simp)
    with 1 2 eq Inr show ?thesis by (auto simp: agrees_def view_def bindA_def sees_def [of b] split: prod.split)
  qed
qed

lemma agrees_mk: "transparent P \<Longrightarrow> c_string s \<Longrightarrow> agrees P (mk s r)"
  by (simp add: transparent_def)

lemma agrees_la_ok: "agrees m b \<Longrightarrow> m b = (x, b') \<Longrightarrow> la_ok b'"
  by (simp add: agrees_def)

lemma transparent_bind [transparentI]:
  assumes "transparent m" "\<And>x. transparent (f x)"
  shows "transparent (bindA m f)"
  unfolding transparent_def
proof (intro allI impI)
  fix b :: parse_state
  assume b: "la_ok b"
  have m: "agrees m b" "agrees m (mk (rest b) (rule b))"
    using assms(1) b la_ok_rest [OF b] by (auto simp: transparent_def)
  show "agrees (bindA m f) b"
    using assms(2) agrees_la_ok [OF m(1)] agrees_la_ok [OF m(2)]
    by (intro agrees_bind [OF m]) (simp_all add: transparent_def)
qed

lemma transparent_seq [transparentI]: "transparent m \<Longrightarrow> transparent n \<Longrightarrow> transparent (seqA m n)"
  by (simp add: seqA_def transparent_bind)

lemma transparent_at_bind [transparentI]:
  assumes "transparent_at l m" "\<And>x. transparent (f x)"
  shows "transparent_at l (bindA m f)"
  unfolding transparent_at_def
proof (intro allI impI)
  fix b :: parse_state
  assume b: "la_ok b \<and> peeked b \<and> type0 b = l"
  have l: "fst (lexeme_spec (rest b)) = l" using b by (simp add: peeked_def)
  have m: "agrees m b" "agrees m (mk (rest b) (rule b))"
    using assms(1) b l la_ok_rest [of b] by (simp_all add: transparent_at_def)
  show "agrees (bindA m f) b"
    using assms(2) agrees_la_ok [OF m(1)] agrees_la_ok [OF m(2)]
    by (intro agrees_bind [OF m]) (simp_all add: transparent_def)
qed

lemma transparent_at_seq [transparentI]:
  "transparent_at l m \<Longrightarrow> transparent n \<Longrightarrow> transparent_at l (seqA m n)"
  by (simp add: seqA_def transparent_at_bind)

lemma sees_mod [simp]: "sees (b\<lparr> rule := r \<rparr>) = (rest b, r)" "la_ok (b\<lparr> rule := r \<rparr>) = la_ok b"
  "peeked (b\<lparr> rule := r \<rparr>) = peeked b" "rest (b\<lparr> rule := r \<rparr>) = rest b" "mk s r\<lparr> rule := r' \<rparr> = mk s r'"
  by (simp_all add: sees_def rest_def la_ok_def peeked_def slot1_ok_def mk_def)

lemma transparent_prim [transparentI]:
  "transparent (retA x)" "transparent (throwA e)" "transparent (liftA y)" "transparent loop_bound"
  "transparent rcl_lexer_lookahead2_get_text"
  by (simp_all add: transparent_def agrees_def view_def act_simps sees_def loop_bound_def
      rcl_lexer_lookahead2_get_text_def rest_def [symmetric])

lemma transparent_rule [transparentI]: "transparent (modA (\<lambda>b. b\<lparr> rule := g (rule b) \<rparr>))"
  by (simp add: transparent_def agrees_def view_def act_simps sees_def [of b for b])

lemma transparent_at_rule:
  assumes "transparent_at l P"
  shows "transparent_at l (seqA (modA (\<lambda>b. b\<lparr> rule := g (rule b) \<rparr>)) P)"
  unfolding transparent_at_def
proof (intro allI impI)
  fix b :: parse_state
  assume b: "la_ok b \<and> peeked b \<and> type0 b = l"
  then have "agrees P (b\<lparr> rule := g (rule b) \<rparr>)" using assms by (simp add: transparent_at_def)
  then show "agrees (seqA (modA (\<lambda>b. b\<lparr> rule := g (rule b) \<rparr>)) P) b"
    by (simp add: agrees_def view_def act_simps sees_def [of b])
qed

lemma transparent_if [transparentI]:
  "(c \<Longrightarrow> transparent m) \<Longrightarrow> (\<not> c \<Longrightarrow> transparent n) \<Longrightarrow> transparent (if c then m else n)"
  "(c \<Longrightarrow> transparent_at l m) \<Longrightarrow> (\<not> c \<Longrightarrow> transparent_at l n) \<Longrightarrow> transparent_at l (if c then m else n)"
  by simp_all

lemma transparent_case [transparentI]:
  "(\<And>x. transparent (f x)) \<Longrightarrow> (\<And>y. transparent (g y)) \<Longrightarrow> transparent (case v of Inl x \<Rightarrow> f x | Inr y \<Rightarrow> g y)"
  by (cases v) simp_all

lemma transparent_code [transparentI]:
  assumes "transparent m"
  shows "transparent (codeA m)"
  unfolding transparent_def
proof (intro allI impI)
  fix b :: parse_state
  assume "la_ok b"
  then have "agrees m b" using assms by (simp add: transparent_def)
  then show "agrees (codeA m) b"
    by (auto simp: agrees_def view_def codeA_def split: prod.splits sum.splits cpp_error.splits)
qed

lemma peek_mk: "c_string s \<Longrightarrow> rcl_lexer_lookahead2_peek (mk s r) = (Ok (fst (lexeme_spec s)), mk s r)"
  by (auto simp: rcl_lexer_lookahead2_peek_def act_simps mk_def analyze_from_def analyze_spec split: prod.split)

lemma transparent_peek [transparentI]:
  assumes "\<And>l. transparent_at l (f l)"
  shows "transparent (bindA rcl_lexer_lookahead2_peek f)"
  unfolding transparent_def
proof (intro allI impI)
  fix b :: parse_state
  assume b: "la_ok b"
  let ?l = "fst (lexeme_spec (rest b))"
  obtain b' where b': "rcl_lexer_lookahead2_peek b = (Ok ?l, b')" "la_ok b'" "peeked b'" "rest b' = rest b"
    "b' = b\<lparr> type0 := type0 b', start0 := start0 b', end0 := end0 b' \<rparr>"
    using peek_eval [OF b] by blast
  have "rule b' = rule b" by (subst b'(5)) simp
  moreover have "agrees (f ?l) b'"
    using assms [of ?l] b' by (auto simp: transparent_at_def peeked_def)
  ultimately show "agrees (bindA rcl_lexer_lookahead2_peek f) b"
    using b' by (simp add: agrees_def view_def bindA_def peek_mk [OF la_ok_rest [OF b]] sees_def [of b] sees_def [of b'])
qed

lemma accept_mk:
  assumes "c_string s" "fst (lexeme_spec s) \<noteq> RCL_LEXEME_NONE"
  shows "view rcl_lexer_lookahead2_accept (s, r) = (Ok (s, snd (lexeme_spec s)), (drop (snd (lexeme_spec s)) s, r))"
proof -
  obtain b' where b': "rcl_lexer_lookahead2_accept (mk s r) = (Ok (s, snd (lexeme_spec s)), b')"
    "rest b' = drop (snd (lexeme_spec s)) s"
    "b' = (mk s r)\<lparr> text_idx := text_idx b', type0 := type0 b', start0 := start0 b', end0 := end0 b' \<rparr>"
    using accept_lexeme_eval [of "mk s r"] assms by auto
  have "rule b' = r" by (subst b'(3)) simp
  with b' show ?thesis by (simp add: view_def sees_def)
qed

lemma transparent_accept [transparentI]:
  assumes "l \<noteq> RCL_LEXEME_NONE"
  shows "transparent_at l rcl_lexer_lookahead2_accept"
  unfolding transparent_at_def
proof (intro allI impI)
  fix b :: parse_state
  assume b: "la_ok b \<and> peeked b \<and> type0 b = l"
  then have l: "fst (lexeme_spec (rest b)) = l" by (simp add: peeked_def)
  obtain b' where b': "rcl_lexer_lookahead2_accept b = (Ok (rest b, snd (lexeme_spec (rest b))), b')" "la_ok b'"
    "rest b' = drop (snd (lexeme_spec (rest b))) (rest b)"
    "b' = b\<lparr> text_idx := text_idx b', type0 := type0 b', start0 := start0 b', end0 := end0 b' \<rparr>"
    using accept_lexeme_eval [of b] assms b by auto
  have "rule b' = rule b" by (subst b'(4)) simp
  with b' b l assms show "agrees rcl_lexer_lookahead2_accept b"
    by (simp add: agrees_def sees_def accept_mk la_ok_rest)
qed

lemma transparent_expect [transparentI]:
  "ty \<noteq> RCL_LEXEME_NONE \<Longrightarrow> transparent (rcl_lexer_lookahead2_expect ty)"
  unfolding rcl_lexer_lookahead2_expect_def
  by (intro transparentI) (auto intro: transparent_at transparent_accept transparent_prim)

subsection \<open>The operations on the unread text\<close>

definition eat :: "string \<Rightarrow> string" where
  "eat s = drop (snd (lexeme_spec s)) s"

abbreviation look :: "string \<Rightarrow> rcl_lexeme_t" where
  "look s \<equiv> fst (lexeme_spec s)"

lemma view_ok_string: "agrees m (mk s r) \<Longrightarrow> view m (s, r) = (x, (s', r')) \<Longrightarrow> c_string s'"
  using la_ok_rest [of "snd (m (mk s r))"] by (auto simp: agrees_def view_def sees_def split: prod.splits)

lemma view_bind_agrees:
  assumes m: "agrees m (mk s r)" and f: "\<And>x. transparent (f x)"
  shows "view (bindA m f) (s, r) = (case view m (s, r) of (Inl e, a) \<Rightarrow> (Inl e, a) | (Inr x, a) \<Rightarrow> view (f x) a)"
proof -
  obtain x b where b: "m (mk s r) = (x, b)" by (cases "m (mk s r)")
  have "la_ok b" using m b by (simp add: agrees_def)
  then have "(case f z b of (y, c) \<Rightarrow> (y, sees c)) = view (f z) (sees b)" for z
    using f [of z] by (auto simp: transparent_def agrees_def split: prod.split)
  with b show ?thesis by (cases x) (simp_all add: view_def bindA_def)
qed

lemma view_bind:
  assumes "transparent m" "\<And>x. transparent (f x)" "c_string s"
  shows "view (bindA m f) (s, r) = (case view m (s, r) of (Inl e, a) \<Rightarrow> (Inl e, a) | (Inr x, a) \<Rightarrow> view (f x) a)"
  using assms by (intro view_bind_agrees agrees_mk)

lemma view_bind_Ok:
  assumes "transparent m" "\<And>x. transparent (f x)" "c_string s"
  shows "view (bindA m f) (s, r) = (Ok y, a) \<longleftrightarrow>
    (\<exists>x s1 r1. c_string s1 \<and> view m (s, r) = (Ok x, (s1, r1)) \<and> view (f x) (s1, r1) = (Ok y, a))"
  unfolding view_bind [OF assms]
  using view_ok_string [OF agrees_mk [OF assms(1,3)], of r] by (auto split: prod.splits sum.splits)

lemma view_seq_Ok:
  assumes "transparent m" "transparent n" "c_string s"
  shows "view (seqA m n) (s, r) = (Ok y, a) \<longleftrightarrow>
    (\<exists>x s1 r1. c_string s1 \<and> view m (s, r) = (Ok x, (s1, r1)) \<and> view n (s1, r1) = (Ok y, a))"
  unfolding seqA_def by (rule view_bind_Ok [OF assms(1) assms(2) assms(3)])

lemma view_peek: "c_string s \<Longrightarrow> view (bindA rcl_lexer_lookahead2_peek f) (s, r) = view (f (look s)) (s, r)"
  by (simp add: view_def bindA_def peek_mk)

lemma view_prim:
  "view (retA x) (s, r) = (Ok x, (s, r))"
  "view (throwA e) (s, r) = (Err e, (s, r))"
  "view (liftA y) (s, r) = (y, (s, r))"
  "view loop_bound (s, r) = (Ok (Suc (length s)), (s, r))"
  "view rcl_lexer_lookahead2_get_text (s, r) = (Ok s, (s, r))"
  by (simp_all add: view_def act_simps loop_bound_def rcl_lexer_lookahead2_get_text_def rest_def [symmetric])

lemma view_rule: "view (modA (\<lambda>b. b\<lparr> rule := g (rule b) \<rparr>)) (s, r) = (Ok (), (s, g r))"
  by (simp add: view_def act_simps)

lemma view_accept:
  assumes "c_string s" "look s \<noteq> RCL_LEXEME_NONE"
  shows "view (seqA rcl_lexer_lookahead2_accept (retA ())) (s, r) = (Ok (), (eat s, r))"
proof -
  have "agrees rcl_lexer_lookahead2_accept (mk s r)"
    using transparent_accept [OF assms(2)] assms(1) by (simp add: transparent_at_def)
  from view_bind_agrees [OF this transparent_prim(1), of "\<lambda>_. ()"] show ?thesis
    by (simp add: seqA_def accept_mk [OF assms] view_prim eat_def)
qed

lemma view_expect:
  assumes "c_string s" "ty \<noteq> RCL_LEXEME_NONE"
  shows "view (rcl_lexer_lookahead2_expect ty) (s, r) =
    (if look s = ty then (Ok (s, snd (lexeme_spec s)), (eat s, r))
     else (Err (RCLError RCL_RET_WRONG_LEXEME
       (if look s = RCL_LEXEME_NONE \<or> look s = RCL_LEXEME_EOF then ''Expected lexeme type not found, search ended''
        else ''Expected lexeme type, got another'')), (s, r)))"
  using assms by (auto simp: rcl_lexer_lookahead2_expect_def view_peek view_prim accept_mk eat_def)

lemma view_code: "view (codeA m) a = (case view m a of
    (Inl (RCLError code msg), a') \<Rightarrow> (Ok (Inl code), a') | (Inl e, a') \<Rightarrow> (Inl e, a') | (Inr x, a') \<Rightarrow> (Ok (Inr x), a'))"
  by (cases a) (simp add: view_def codeA_def split: prod.split sum.split cpp_error.split)

lemma view_code_expect:
  "c_string s \<Longrightarrow> ty \<noteq> RCL_LEXEME_NONE \<Longrightarrow> view (codeA (rcl_lexer_lookahead2_expect ty)) (s, r) =
    (if look s = ty then (Ok (Inr (s, snd (lexeme_spec s))), (eat s, r)) else (Ok (Inl RCL_RET_WRONG_LEXEME), (s, r)))"
  by (simp add: view_code view_expect)

lemma transparent_expect_in_rule [transparentI]: "ty \<noteq> RCL_LEXEME_NONE \<Longrightarrow> transparent (expect_in_rule ty)"
  unfolding expect_in_rule_def by (intro transparentI)

lemma view_expect_in_rule:
  "c_string s \<Longrightarrow> ty \<noteq> RCL_LEXEME_NONE \<Longrightarrow> view (expect_in_rule ty) (s, r) =
     (if look s = ty then (Ok (), (eat s, r)) else (Err (RCLError RCL_RET_INVALID_REMAP_RULE ''''), (s, r)))"
  unfolding expect_in_rule_def
  by (subst view_bind) (auto intro!: transparentI simp: view_code_expect view_prim)

lemma transparent_tokens [transparentI]:
  "transparent rcl_parse_remap_replacement_token" "transparent rcl_parse_remap_match_token"
  unfolding rcl_parse_remap_replacement_token_def rcl_parse_remap_match_token_def
  by (auto intro!: transparentI intro: transparent_at transparent_prim)

lemma view_tokens:
  "c_string s \<Longrightarrow> view rcl_parse_remap_replacement_token (s, r) =
     (if look s = RCL_LEXEME_TOKEN then (Ok (), (eat s, r))
      else (Err (if backreference (look s) then RCLError RCL_RET_ERROR ''Backreferences are not implemented''
                 else RCLError RCL_RET_INVALID_REMAP_RULE ''''), (s, r)))"
  "c_string s \<Longrightarrow> view rcl_parse_remap_match_token (s, r) =
     (if look s = RCL_LEXEME_TOKEN then (Ok (), (eat s, r))
      else (Err (if look s = RCL_LEXEME_WILD_ONE then RCLError RCL_RET_ERROR ''Wildcard '*' is not implemented''
                 else if look s = RCL_LEXEME_WILD_MULTI then RCLError RCL_RET_ERROR ''Wildcard '**' is not implemented''
                 else RCLError RCL_RET_INVALID_REMAP_RULE ''Expecting token or wildcard''), (s, r)))"
  by (auto simp: rcl_parse_remap_replacement_token_def rcl_parse_remap_match_token_def view_peek view_prim
      view_accept backreference_def)

end
