(* ===== verification/RemapGrammar.thy ===== *)
theory RemapGrammar
  imports RemapRule
begin

text \<open>
  The grammar of remap rules as a printing function on rules, and the proof that the parser
  accepts exactly the printed rules and returns the rule that was printed. The locale
  \<open>name_loop\<close> is the contract of the two loops that read names.
\<close>

section \<open>The grammar\<close>

text \<open>
  Names as the rules use them: tokens separated by slashes, after a slash (fully qualified),
  after \<open>~/\<close> (private) or alone (relative). A namespace starts with a slash and may end with one.
\<close>

definition slashed :: "string list \<Rightarrow> string" where
  "slashed ts = concat (map (\<lambda>t. CHR ''/'' # t) ts)"

definition rule_name :: "string \<Rightarrow> bool" where
  "rule_name m \<longleftrightarrow> (\<exists>pre t ts. pre \<in> {[], ''/'', ''~/''} \<and> token_word t \<and> list_all token_word ts \<and> m = pre @ t @ slashed ts)"

definition rule_namespace :: "string \<Rightarrow> bool" where
  "rule_namespace m \<longleftrightarrow> (\<exists>ts. list_all token_word ts \<and> (ts \<noteq> [] \<and> m = slashed ts \<or> m = slashed ts @ ''/''))"

text \<open>The text of a rule, and the rules that have one.\<close>

definition url_scheme :: "u32 \<Rightarrow> string" where
  "url_scheme t = (if t = RCL_TOPIC_REMAP then ''rostopic://'' else if t = RCL_SERVICE_REMAP then ''rosservice://'' else [])"

definition body_text :: "rcl_remap_impl_t \<Rightarrow> string" where
  "body_text r =
     (if remap_type r = RCL_NODENAME_REMAP then ''__node:='' @ the (replacement r)
      else if remap_type r = RCL_NAMESPACE_REMAP then ''__ns:='' @ the (replacement r)
      else url_scheme (remap_type r) @ the (match r) @ '':='' @ the (replacement r))"

definition rule_text :: "rcl_remap_impl_t \<Rightarrow> string" where
  "rule_text r = (case node_name r of None \<Rightarrow> [] | Some n \<Rightarrow> n @ '':'') @ body_text r"

definition body_ok :: "rcl_remap_impl_t \<Rightarrow> bool" where
  "body_ok r \<longleftrightarrow>
     (if remap_type r = RCL_NODENAME_REMAP
      then match r = None \<and> (case replacement r of None \<Rightarrow> False | Some t \<Rightarrow> token_word t)
      else if remap_type r = RCL_NAMESPACE_REMAP
      then match r = None \<and> (case replacement r of None \<Rightarrow> False | Some t \<Rightarrow> rule_namespace t)
      else remap_type r \<in> {RCL_TOPIC_REMAP, RCL_SERVICE_REMAP, RCL_TOPIC_REMAP OR RCL_SERVICE_REMAP} \<and>
        (case (match r, replacement r) of (Some m, Some p) \<Rightarrow> rule_name m \<and> rule_name p | _ \<Rightarrow> False))"

definition rule_ok :: "rcl_remap_impl_t \<Rightarrow> bool" where
  "rule_ok r \<longleftrightarrow> (case node_name r of None \<Rightarrow> True | Some n \<Rightarrow> token_word n) \<and> body_ok r"

subsection \<open>Lexemes of concatenated texts\<close>

lemma c_string_simps [simp]: "c_string []" "c_string (c # s) \<longleftrightarrow> c \<noteq> CHR 0x00 \<and> c_string s"
  by (auto simp: c_string_def)

lemma starts_append: "starts w s \<longleftrightarrow> (\<exists>u. s = w @ u)"
  unfolding starts_def by (metis append_eq_conv_conj)

lemma look_fixed:
  assumes "look s = l" "l \<noteq> RCL_LEXEME_NONE" "l \<noteq> RCL_LEXEME_EOF" "l \<noteq> RCL_LEXEME_TOKEN"
  shows "\<exists>w u. (w, l) \<in> set fixed_words \<and> s = w @ u"
proof (cases "find (\<lambda>(w, l). starts w s) fixed_words")
  case None
  with assms show ?thesis by (auto simp: lexeme_spec_def split: if_splits)
next
  case (Some p)
  then obtain w k where "p = (w, k)" "(w, k) \<in> set fixed_words" "starts w s"
    using fixed_found by (cases p) blast
  with Some assms show ?thesis by (auto simp: lexeme_spec_def starts_append split: if_splits)
qed

lemma spec_fixed [simp]:
  "lexeme_spec (CHR ''/'' # u) = (RCL_LEXEME_FORWARD_SLASH, 1)"
  "lexeme_spec (CHR ''~'' # CHR ''/'' # u) = (RCL_LEXEME_TILDE_SLASH, 2)"
  "lexeme_spec (CHR '':'' # CHR ''='' # u) = (RCL_LEXEME_SEPARATOR, 2)"
  "lexeme_spec (CHR ''_'' # CHR ''_'' # CHR ''n'' # CHR ''s'' # u) = (RCL_LEXEME_NS, 4)"
  "lexeme_spec (''__node'' @ u) = (RCL_LEXEME_NODE, 6)"
  "lexeme_spec (''rostopic://'' @ u) = (RCL_LEXEME_URL_TOPIC, 11)"
  "lexeme_spec (''rosservice://'' @ u) = (RCL_LEXEME_URL_SERVICE, 13)"
  "lexeme_spec [] = (RCL_LEXEME_EOF, 0)"
  by (simp_all add: lexeme_spec_def fixed_words_def)

lemmas spec_words [simp] = spec_fixed(5,6,7) [unfolded append_Cons append_Nil]

lemma spec_colon_alone: "\<not> starts ''='' u \<Longrightarrow> lexeme_spec (CHR '':'' # u) = (RCL_LEXEME_COLON, 1)"
  by (simp add: lexeme_spec_def fixed_words_def)

lemma look_iff:
  "look s = RCL_LEXEME_FORWARD_SLASH \<longleftrightarrow> (\<exists>u. s = ''/'' @ u)"
  "look s = RCL_LEXEME_TILDE_SLASH \<longleftrightarrow> (\<exists>u. s = ''~/'' @ u)"
  "look s = RCL_LEXEME_SEPARATOR \<longleftrightarrow> (\<exists>u. s = '':='' @ u)"
  "look s = RCL_LEXEME_NS \<longleftrightarrow> (\<exists>u. s = ''__ns'' @ u)"
  "look s = RCL_LEXEME_NODE \<longleftrightarrow> (\<exists>u. s = ''__node'' @ u)"
  "look s = RCL_LEXEME_URL_TOPIC \<longleftrightarrow> (\<exists>u. s = ''rostopic://'' @ u)"
  "look s = RCL_LEXEME_URL_SERVICE \<longleftrightarrow> (\<exists>u. s = ''rosservice://'' @ u)"
  by (auto dest!: look_fixed) (auto simp: fixed_words_def)

lemma look_EOF: "look s = RCL_LEXEME_EOF \<longleftrightarrow> s = []"
  using spec_cut_short [of s] spec_length [of s] by (cases "cut_short s") (auto simp: prod_eq_iff)

lemma look_COLON: "look s = RCL_LEXEME_COLON \<longleftrightarrow> (\<exists>u. s = '':'' @ u \<and> \<not> starts ''='' u)"
proof
  assume l: "look s = RCL_LEXEME_COLON"
  then obtain u where u: "s = '':'' @ u" by (auto dest!: look_fixed simp: fixed_words_def)
  with l have "\<not> starts ''='' u" by (auto simp: starts_append)
  with u show "\<exists>u. s = '':'' @ u \<and> \<not> starts ''='' u" by blast
qed (auto simp: spec_colon_alone)

lemma token_look:
  assumes "look s = RCL_LEXEME_TOKEN"
  shows "\<exists>t. token_word t \<and> s = t @ eat s \<and> snd (lexeme_spec s) = length t"
proof -
  obtain n where n: "lexeme_spec s = (RCL_LEXEME_TOKEN, n)" using assms by (cases "lexeme_spec s") simp
  then have "0 < n" "n = token_length s" by (auto simp: spec_token_iff)
  moreover from this have "\<not> starts ''__'' s" by (cases s; auto split: if_splits)
  ultimately have "token_word (take n s)" "n \<le> length s"
    using token_take [of n s] token_length_le [of s] by auto
  then show ?thesis using n by (intro exI [of _ "take n s"]) (simp add: eat_def)
qed

text \<open>A token ends where the text goes on with a slash or a colon, unless that is a URL scheme.\<close>

definition ends_token :: "string \<Rightarrow> bool" where
  "ends_token u \<longleftrightarrow> u = [] \<or> starts ''/'' u \<or> starts '':'' u \<and> \<not> starts ''://'' u"

lemma tail_chars: "tail_ok us w \<Longrightarrow> c \<in> set w \<Longrightarrow> alnum c \<or> c = CHR ''_''"
  by (induction us w rule: tail_ok.induct) auto

lemma token_chars: "token_word t \<Longrightarrow> c \<in> set t \<Longrightarrow> alnum c \<or> c = CHR ''_''"
  using tail_chars letter_alnum by (cases t) (auto simp: token_word_Cons)

lemma token_no_double: "token_word t \<Longrightarrow> ends_token u \<Longrightarrow> \<not> starts ''__'' (t @ u)"
proof (cases t)
  case (Cons c w)
  assume "token_word t" "ends_token u"
  with Cons show ?thesis
    by (cases w; cases u) (auto simp: token_word_Cons ends_token_def)
qed simp

lemma token_no_scheme:
  assumes "token_word t" "ends_token u"
  shows "\<not> starts ''rostopic://'' (t @ u) \<and> \<not> starts ''rosservice://'' (t @ u)"
proof -
  have "\<not> starts (w @ ''://'') (t @ u)" if "\<forall>c \<in> set w. alnum c" for w
  proof
    assume "starts (w @ ''://'') (t @ u)"
    then obtain v where v: "t @ u = w @ ''://'' @ v" by (auto simp: starts_append)
    have "CHR '':'' \<notin> set t" using token_chars [OF assms(1)] by fastforce
    then have "length t \<le> length w" using arg_cong [OF v, of "\<lambda>x. x ! length w"]
      by (auto simp: nth_append in_set_conv_nth split: if_splits)
    then obtain x where x: "w = t @ x" "u = x @ ''://'' @ v"
      using v by (auto simp: append_eq_append_conv2)
    with that assms(2) show False by (cases x) (auto simp: ends_token_def)
  qed
  from this [of "''rostopic''"] this [of "''rosservice''"] show ?thesis by simp
qed

lemma token_lexes:
  assumes "token_word t" "ends_token u"
  shows "lexeme_spec (t @ u) = (RCL_LEXEME_TOKEN, length t)"
proof -
  note take = token_take [OF _ token_no_double [OF assms]]
  have le: "length t \<le> token_length (t @ u)" using take [of "length t"] assms(1) by simp
  have "token_length (t @ u) \<le> length t"
  proof (rule ccontr)
    assume "\<not> ?thesis"
    then have lt: "length t < token_length (t @ u)" by simp
    then obtain c v where u: "u = c # v" using token_length_le [of "t @ u"] by (cases u) auto
    have "token_word (take (Suc (length t)) (t @ u))" using take [of "Suc (length t)"] lt u by simp
    then have "alnum c \<or> c = CHR ''_''" using token_chars [of "t @ [c]" c] u by simp
    with assms(2) u show False by (auto simp: ends_token_def)
  qed
  with le have "token_length (t @ u) = length t" by simp
  moreover have "t \<noteq> []" using assms(1) by auto
  ultimately show ?thesis using token_no_scheme [OF assms] by (simp add: spec_token_iff)
qed

lemma eat_token [simp]: "token_word t \<Longrightarrow> ends_token u \<Longrightarrow> eat (t @ u) = u"
  by (simp add: eat_def token_lexes)

lemma slashed_simps [simp]: "slashed [] = []" "slashed (t # ts) = CHR ''/'' # t @ slashed ts"
  "slashed (ts @ us) = slashed ts @ slashed us"
  by (simp_all add: slashed_def)

lemma ends_slashed [simp]: "ends_token u \<Longrightarrow> ends_token (slashed ts @ u)"
  by (cases ts) (simp_all add: ends_token_def)

lemma ends_token_simps [simp]: "ends_token []" "ends_token (CHR ''/'' # u)" "ends_token (CHR '':'' # CHR ''='' # u)"
  by (simp_all add: ends_token_def)

subsection \<open>The loops\<close>

text \<open>Both name loops: \<open>token\<close> reads one token, the loop ends at the lexeme \<open>stop\<close>.\<close>

definition name_then ::
  "(parse_state, unit) act \<Rightarrow> (nat \<Rightarrow> rcl_lexeme_t \<Rightarrow> (parse_state, unit) act) \<Rightarrow> (parse_state, 'a) act \<Rightarrow> (parse_state, 'a) act" where
  "name_then token loop continue =
     bindA rcl_lexer_lookahead2_peek (\<lambda>lexeme.
     seqA (if lexeme = RCL_LEXEME_TILDE_SLASH \<or> lexeme = RCL_LEXEME_FORWARD_SLASH
           then seqA rcl_lexer_lookahead2_accept (retA ()) else retA ())
     (seqA token
     (bindA rcl_lexer_lookahead2_peek (\<lambda>lexeme.
     seqA (bindA loop_bound (\<lambda>k. loop k lexeme)) continue))))"

locale name_loop =
  fixes loop :: "nat \<Rightarrow> rcl_lexeme_t \<Rightarrow> (parse_state, unit) act"
    and token :: "(parse_state, unit) act"
    and stop :: rcl_lexeme_t
    and code :: "string \<Rightarrow> rcl_ret"
    and msg :: "string \<Rightarrow> string"
  assumes loop_0: "loop 0 lexeme = throwA (Undefined_behaviour ''loop bound reached'')"
    and loop_Suc: "loop (Suc k) lexeme =
      (if lexeme = stop then retA ()
       else seqA (expect_in_rule RCL_LEXEME_FORWARD_SLASH) (seqA token (bindA rcl_lexer_lookahead2_peek (loop k))))"
    and token_transparent: "transparent token"
    and token_view: "c_string s \<Longrightarrow> view token (s, r) =
      (if look s = RCL_LEXEME_TOKEN then (Ok (), (eat s, r)) else (Err (RCLError (code s) (msg s)), (s, r)))"
    and stop: "stop \<noteq> RCL_LEXEME_FORWARD_SLASH"
    and stop_ends: "look s = stop \<Longrightarrow> ends_token s"
begin

lemma loop_transparent: "transparent (loop k lexeme)"
  by (induction k arbitrary: lexeme)
    (auto simp: loop_0 loop_Suc intro!: transparentI token_transparent intro: transparent_at)

lemma loop_view:
  assumes "c_string s" "l = look s"
  shows "view (loop (Suc k) l) (s, r) =
    (if look s = stop then (Ok (), (s, r))
     else if look s \<noteq> RCL_LEXEME_FORWARD_SLASH then (Err (RCLError RCL_RET_INVALID_REMAP_RULE ''''), (s, r))
     else if look (eat s) \<noteq> RCL_LEXEME_TOKEN then (Err (RCLError (code (eat s)) (msg (eat s))), (eat s, r))
     else view (loop k (look (eat (eat s)))) (eat (eat s), r))"
proof -
  have c: "c_string (eat s)" "c_string (eat (eat s))" using assms by (simp_all add: eat_def c_string_drop)
  have t: "transparent (bindA rcl_lexer_lookahead2_peek (loop k))"
    by (auto intro!: transparentI intro: transparent_at loop_transparent)
  have "view (seqA token (bindA rcl_lexer_lookahead2_peek (loop k))) (eat s, r) =
    (if look (eat s) \<noteq> RCL_LEXEME_TOKEN then (Err (RCLError (code (eat s)) (msg (eat s))), (eat s, r))
     else view (loop k (look (eat (eat s)))) (eat (eat s), r))"
    unfolding seqA_def using c view_bind [OF token_transparent t c(1), of r] by (simp add: token_view view_peek)
  moreover have "view (seqA (expect_in_rule RCL_LEXEME_FORWARD_SLASH)
      (seqA token (bindA rcl_lexer_lookahead2_peek (loop k)))) (s, r) =
    (if look s \<noteq> RCL_LEXEME_FORWARD_SLASH then (Err (RCLError RCL_RET_INVALID_REMAP_RULE ''''), (s, r))
     else view (seqA token (bindA rcl_lexer_lookahead2_peek (loop k))) (eat s, r))"
    unfolding seqA_def [of "expect_in_rule _"] using assms
    by (subst view_bind) (auto intro!: transparentI token_transparent intro: transparent_at loop_transparent simp: view_expect_in_rule)
  ultimately show ?thesis using assms(2) by (simp add: loop_Suc view_prim)
qed

lemma eat_two:
  assumes "look s = RCL_LEXEME_FORWARD_SLASH" "look (eat s) = RCL_LEXEME_TOKEN"
  shows "\<exists>t. token_word t \<and> s = CHR ''/'' # t @ eat (eat s)"
proof -
  obtain u where u: "s = CHR ''/'' # u" using assms(1) look_iff(1) [of s] by auto
  then have "eat s = u" by (simp add: eat_def)
  with u token_look [OF assms(2)] show ?thesis by auto
qed

text \<open>The loop reads tokens up to a text that starts with \<open>stop\<close>.\<close>

lemma loop_reads:
  "c_string s \<Longrightarrow> view (loop k (look s)) (s, r) = (Ok (), (s', r')) \<Longrightarrow>
     r' = r \<and> look s' = stop \<and> (\<exists>ts. list_all token_word ts \<and> s = slashed ts @ s')"
proof (induction k arbitrary: s)
  case 0
  then show ?case by (simp add: loop_0 view_prim)
next
  case (Suc k)
  show ?case
  proof (cases "look s = stop")
    case True
    with Suc.prems have "s' = s" "r' = r" by (simp_all add: loop_view)
    with True show ?thesis by (simp add: exI [of _ "[]"])
  next
    case False
    with Suc.prems have go: "look s = RCL_LEXEME_FORWARD_SLASH" "look (eat s) = RCL_LEXEME_TOKEN"
      "view (loop k (look (eat (eat s)))) (eat (eat s), r) = (Ok (), (s', r'))"
      by (auto simp: loop_view split: if_splits)
    obtain t where t: "token_word t" "s = CHR ''/'' # t @ eat (eat s)" using eat_two [OF go(1,2)] by blast
    have "c_string (eat (eat s))" using Suc.prems(1) by (simp add: eat_def c_string_drop)
    from Suc.IH [OF this go(3)] obtain ts where "r' = r" "look s' = stop" "list_all token_word ts"
      "eat (eat s) = slashed ts @ s'" by blast
    with t show ?thesis by (auto intro!: exI [of _ "t # ts"])
  qed
qed

lemma loop_accepts:
  "c_string (slashed ts @ s') \<Longrightarrow> list_all token_word ts \<Longrightarrow> look s' = stop \<Longrightarrow> ends_token s' \<Longrightarrow> length ts < k \<Longrightarrow>
     view (loop k (look (slashed ts @ s'))) (slashed ts @ s', r) = (Ok (), (s', r))"
proof (induction ts arbitrary: k)
  case Nil
  then show ?case by (cases k) (simp_all add: loop_view)
next
  case (Cons t ts)
  then obtain j where k: "k = Suc j" by (cases k) auto
  have e: "eat (CHR ''/'' # u) = u" for u by (simp add: eat_def)
  have "c_string (slashed ts @ s')" using Cons.prems(1) by (auto simp: c_string_def)
  with Cons k stop show ?case
    by (simp add: loop_view e token_lexes)
qed

text \<open>The bound is enough: the loop does not reach it.\<close>

lemma loop_defined: "c_string s \<Longrightarrow> length s < k \<Longrightarrow> \<not> ub_result (fst (view (loop k (look s)) (s, r)))"
proof (induction k arbitrary: s)
  case (Suc k)
  have c: "c_string (eat (eat s))" using Suc.prems(1) by (simp add: eat_def c_string_drop)
  show ?case
  proof (cases "look s \<noteq> stop \<and> look s = RCL_LEXEME_FORWARD_SLASH \<and> look (eat s) = RCL_LEXEME_TOKEN")
    case True
    then obtain t where "s = CHR ''/'' # t @ eat (eat s)" using eat_two by blast
    then have "length (eat (eat s)) < length s" by (metis length_Cons length_append less_Suc_eq_le trans_le_add2 order_refl)
    with Suc c True show ?thesis by (simp add: loop_view)
  qed (use Suc.prems in \<open>auto simp: loop_view\<close>)
qed simp

lemma name_then_transparent: "transparent continue \<Longrightarrow> transparent (name_then token loop continue)"
  unfolding name_then_def
  by (auto intro!: transparentI loop_transparent token_transparent intro: transparent_at)

lemma prefix_view:
  assumes "c_string s" "transparent continue"
  shows "view (name_then token loop continue) (s, r) =
    view (seqA token (bindA rcl_lexer_lookahead2_peek (\<lambda>lexeme. seqA (bindA loop_bound (\<lambda>k. loop k lexeme)) continue)))
      (if look s = RCL_LEXEME_TILDE_SLASH \<or> look s = RCL_LEXEME_FORWARD_SLASH then eat s else s, r)"
proof -
  let ?K = "seqA token (bindA rcl_lexer_lookahead2_peek (\<lambda>lexeme. seqA (bindA loop_bound (\<lambda>k. loop k lexeme)) continue))"
  let ?m = "\<lambda>lexeme. if lexeme = RCL_LEXEME_TILDE_SLASH \<or> lexeme = RCL_LEXEME_FORWARD_SLASH
           then seqA rcl_lexer_lookahead2_accept (retA ()) else retA ()"
  have K: "transparent ?K"
    using assms(2) by (auto intro!: transparentI loop_transparent token_transparent intro: transparent_at)
  have "agrees (?m (look s)) (mk s r)"
  proof -
    have "transparent_at l (?m l)" for l
      by (auto intro!: transparentI intro: transparent_at transparent_prim)
    then show ?thesis using assms(1) by (simp add: transparent_at_def)
  qed
  from view_bind_agrees [OF this K] show ?thesis
    using assms(1) by (auto simp: name_then_def view_peek seqA_def [of "if _ then _ else _"] view_accept view_prim
        split: if_splits)
qed

lemma after_token_view:
  assumes "c_string s" "transparent continue"
  shows "view (seqA token (bindA rcl_lexer_lookahead2_peek (\<lambda>lexeme. seqA (bindA loop_bound (\<lambda>k. loop k lexeme)) continue))) (s, r) =
    (if look s \<noteq> RCL_LEXEME_TOKEN then (Err (RCLError (code s) (msg s)), (s, r))
     else case view (loop (Suc (length (eat s))) (look (eat s))) (eat s, r) of
            (Inl e, a) \<Rightarrow> (Inl e, a) | (Inr x, a) \<Rightarrow> view continue a)"
proof -
  have c: "c_string (eat s)" using assms(1) by (simp add: eat_def c_string_drop)
  let ?L = "\<lambda>lexeme. seqA (bindA loop_bound (\<lambda>k. loop k lexeme)) continue"
  have "view (?L l) (eat s, r) = (case view (loop (Suc (length (eat s))) l) (eat s, r) of
            (Inl e, a) \<Rightarrow> (Inl e, a) | (Inr x, a) \<Rightarrow> view continue a)" for l
    unfolding seqA_def using c assms(2)
    by (subst view_bind, auto intro!: transparentI loop_transparent)
      (subst view_bind, auto intro!: transparentI loop_transparent simp: view_prim)
  moreover have "transparent (bindA rcl_lexer_lookahead2_peek ?L)"
    using assms(2) by (auto intro!: transparentI loop_transparent intro: transparent_at)
  ultimately show ?thesis
    unfolding seqA_def [of token] using assms(1) c
    by (subst view_bind) (auto intro: token_transparent simp: token_view view_peek)
qed

text \<open>The name reader accepts exactly the names of the grammar that \<open>stop\<close> follows.\<close>

lemma name_then_Ok:
  assumes "c_string s" "transparent continue"
  shows "view (name_then token loop continue) (s, r) = (Ok y, a) \<longleftrightarrow>
    (\<exists>m s'. rule_name m \<and> s = m @ s' \<and> look s' = stop \<and> view continue (s', r) = (Ok y, a))" (is "?l \<longleftrightarrow> ?r")
proof
  let ?s = "if look s = RCL_LEXEME_TILDE_SLASH \<or> look s = RCL_LEXEME_FORWARD_SLASH then eat s else s"
  have c: "c_string ?s" "c_string (eat ?s)" using assms(1) by (simp_all add: eat_def c_string_drop)
  have pre: "\<exists>pre \<in> {[], ''/'', ''~/''}. s = pre @ ?s"
    using look_iff(1,2) [of s] by (auto simp: eat_def)
  assume ?l
  then have "view (seqA token (bindA rcl_lexer_lookahead2_peek (\<lambda>lexeme. seqA (bindA loop_bound (\<lambda>k. loop k lexeme)) continue)))
      (?s, r) = (Ok y, a)"
    using prefix_view [OF assms] by simp
  then obtain s' r' where tok: "look ?s = RCL_LEXEME_TOKEN"
    and run: "view (loop (Suc (length (eat ?s))) (look (eat ?s))) (eat ?s, r) = (Ok (), (s', r'))"
    and K: "view continue (s', r') = (Ok y, a)"
    unfolding after_token_view [OF c(1) assms(2)] by (auto split: if_splits prod.splits sum.splits)
  obtain ts where ts: "r' = r" "look s' = stop" "list_all token_word ts" "eat ?s = slashed ts @ s'"
    using loop_reads [OF c(2) run] by blast
  obtain t where t: "token_word t" "?s = t @ eat ?s" using token_look [OF tok] by blast
  obtain p where p: "p \<in> {[], ''/'', ''~/''}" "s = p @ ?s" using pre by blast
  have "?s = t @ slashed ts @ s'" using trans [OF t(2) arg_cong [OF ts(4), of "append t"]] .
  from trans [OF p(2) arg_cong [OF this, of "append p"]] have "s = p @ t @ slashed ts @ s'" .
  then have "s = (p @ t @ slashed ts) @ s'" by simp
  moreover have "rule_name (p @ t @ slashed ts)" using p(1) t(1) ts(3) by (auto simp: rule_name_def)
  ultimately show ?r using K ts by blast
next
  assume ?r
  then obtain m s' where m: "rule_name m" "s = m @ s'" and stop': "look s' = stop"
    and K: "view continue (s', r) = (Ok y, a)" by blast
  from m(1) obtain p t ts where p: "p \<in> {[], ''/'', ''~/''}" "token_word t" "list_all token_word ts"
    and "m = p @ t @ slashed ts" unfolding rule_name_def by blast
  with m(2) stop' have s: "s = p @ t @ slashed ts @ s'" "look s' = stop" by simp_all
  let ?u = "t @ slashed ts @ s'"
  have e: "ends_token s'" using stop_ends s by simp
  have u: "look ?u = RCL_LEXEME_TOKEN" "eat ?u = slashed ts @ s'"
    using p(2) e by (simp_all add: token_lexes)
  have c: "c_string ?u" using assms(1) s by simp
  have len: "length ts < Suc (length (slashed ts @ s'))"
    by (induction ts) auto
  have "(if look s = RCL_LEXEME_TILDE_SLASH \<or> look s = RCL_LEXEME_FORWARD_SLASH then eat s else s) = ?u"
    using p(1) u s(1) by (auto simp: eat_def)
  moreover have "c_string (slashed ts @ s')" using c by simp
  ultimately show ?l
    using prefix_view [OF assms, of r] after_token_view [OF c assms(2)] u K
      loop_accepts [OF _ p(3) s(2) e len] by simp
qed

lemma name_then_defined:
  assumes "c_string s" "transparent continue" "\<And>s' r'. c_string s' \<Longrightarrow> \<not> ub_result (fst (view continue (s', r')))"
  shows "\<not> ub_result (fst (view (name_then token loop continue) (s, r)))"
proof -
  let ?s = "if look s = RCL_LEXEME_TILDE_SLASH \<or> look s = RCL_LEXEME_FORWARD_SLASH then eat s else s"
  have c: "c_string ?s" "c_string (eat ?s)" using assms(1) by (simp_all add: eat_def c_string_drop)
  let ?v = "view (loop (Suc (length (eat ?s))) (look (eat ?s))) (eat ?s, r)"
  have "\<not> ub_result (fst ?v)" by (rule loop_defined [OF c(2)]) simp
  moreover have "\<And>x s' r'. ?v = (x, (s', r')) \<Longrightarrow> c_string s'"
    using view_ok_string [OF agrees_mk [OF loop_transparent c(2)]] by blast
  ultimately show ?thesis
    unfolding prefix_view [OF assms(1,2)] after_token_view [OF c(1) assms(2)]
    using assms(3) by (auto split: prod.split sum.split)
qed

end

interpretation match_names: name_loop match_loop rcl_parse_remap_match_token RCL_LEXEME_SEPARATOR
  "\<lambda>s. if look s = RCL_LEXEME_WILD_ONE \<or> look s = RCL_LEXEME_WILD_MULTI then RCL_RET_ERROR else RCL_RET_INVALID_REMAP_RULE"
  "\<lambda>s. if look s = RCL_LEXEME_WILD_ONE then ''Wildcard '*' is not implemented''
       else if look s = RCL_LEXEME_WILD_MULTI then ''Wildcard '**' is not implemented'' else ''Expecting token or wildcard''"
  by unfold_locales (auto simp: transparent_tokens view_tokens look_iff)

interpretation replacement_names: name_loop replacement_loop rcl_parse_remap_replacement_token RCL_LEXEME_EOF
  "\<lambda>s. if backreference (look s) then RCL_RET_ERROR else RCL_RET_INVALID_REMAP_RULE"
  "\<lambda>s. if backreference (look s) then ''Backreferences are not implemented'' else ''''"
  by unfold_locales (auto simp: transparent_tokens view_tokens look_EOF)

subsection \<open>The parts of a rule\<close>

lemma copies_textD: "copies_text rc \<Longrightarrow> strndup rc s n = Some (take n s)" "copies_text rc \<Longrightarrow> alloc_ok rc site"
  by (simp_all add: copies_text_def)

text \<open>The end of a name: the text since its start goes into the rule.\<close>

definition store_between :: "rcutils \<Rightarrow> string \<Rightarrow> string \<Rightarrow> (string \<Rightarrow> rcl_remap_impl_t \<Rightarrow> rcl_remap_impl_t) \<Rightarrow> (parse_state, unit) act" where
  "store_between rc start_ptr msg put =
     bindA rcl_lexer_lookahead2_get_text (\<lambda>end_ptr.
     bindA (liftA (copy_between rc start_ptr end_ptr msg)) (\<lambda>s.
     modA (\<lambda>b. b\<lparr> rule := put s (rule b) \<rparr>)))"

lemma store_transparent [transparentI]: "transparent (store_between rc start_ptr msg put)"
  unfolding store_between_def by (intro transparentI)

lemma store_view:
  "c_string s \<Longrightarrow> copies_text rc \<Longrightarrow> view (store_between rc start_ptr msg put) (s, r) =
     (Ok (), (s, put (take (length start_ptr - length s) start_ptr) r))"
  unfolding store_between_def
  by (simp add: view_bind transparent_bind transparent_prim transparent_rule view_prim view_rule
      copy_between_def copies_textD)

lemma replacement_name_eq:
  "rcl_parse_remap_replacement_name rc = bindA rcl_lexer_lookahead2_get_text (\<lambda>start_ptr.
     name_then rcl_parse_remap_replacement_token replacement_loop
       (store_between rc start_ptr ''failed to copy replacement'' (\<lambda>s r. r\<lparr> replacement := Some s \<rparr>)))"
  by (simp add: rcl_parse_remap_replacement_name_def name_then_def store_between_def)

lemma match_name_eq:
  "rcl_parse_remap_match_name rc = bindA rcl_lexer_lookahead2_peek (\<lambda>lexeme.
     seqA (if lexeme = RCL_LEXEME_URL_SERVICE
           then seqA (set_type RCL_SERVICE_REMAP) (seqA rcl_lexer_lookahead2_accept (retA ()))
           else if lexeme = RCL_LEXEME_URL_TOPIC
           then seqA (set_type RCL_TOPIC_REMAP) (seqA rcl_lexer_lookahead2_accept (retA ()))
           else set_type (RCL_TOPIC_REMAP OR RCL_SERVICE_REMAP))
     (bindA rcl_lexer_lookahead2_get_text (\<lambda>start_ptr.
     name_then rcl_parse_remap_match_token match_loop
       (store_between rc start_ptr ''failed to copy match'' (\<lambda>s r. r\<lparr> match := Some s \<rparr>)))))"
  by (simp add: rcl_parse_remap_match_name_def name_then_def store_between_def)

lemma replacement_transparent [transparentI]: "transparent (rcl_parse_remap_replacement_name rc)"
  unfolding replacement_name_eq by (intro transparentI replacement_names.name_then_transparent)

lemma replacement_reads:
  assumes "c_string s" "copies_text rc"
  shows "view (rcl_parse_remap_replacement_name rc) (s, r) = (Ok (), (s', r')) \<longleftrightarrow>
    rule_name s \<and> s' = [] \<and> r' = r\<lparr> replacement := Some s \<rparr>"
proof -
  have "view (rcl_parse_remap_replacement_name rc) (s, r) = (Ok (), (s', r')) \<longleftrightarrow>
    view (name_then rcl_parse_remap_replacement_token replacement_loop
       (store_between rc s ''failed to copy replacement'' (\<lambda>s r. r\<lparr> replacement := Some s \<rparr>))) (s, r) = (Ok (), (s', r'))"
    unfolding replacement_name_eq
    by (subst view_bind) (auto intro!: transparentI replacement_names.name_then_transparent assms(1) simp: view_prim)
  also have "\<dots> \<longleftrightarrow> rule_name s \<and> s' = [] \<and> r' = r\<lparr> replacement := Some s \<rparr>"
    unfolding replacement_names.name_then_Ok [OF assms(1) store_transparent]
    using assms by (auto simp: look_EOF store_view c_string_def)
  finally show ?thesis .
qed

lemma set_type_transparent [transparentI]: "transparent (set_type t)"
  unfolding set_type_def by (rule transparent_rule)

lemma set_type_view: "view (set_type t) (s, r) = (Ok (), (s, r\<lparr> remap_type := t \<rparr>))"
  unfolding set_type_def by (rule view_rule)

lemma set_type_accept:
  assumes "l \<noteq> RCL_LEXEME_NONE"
  shows "transparent_at l (seqA (set_type t) (seqA rcl_lexer_lookahead2_accept (retA ())))"
  unfolding set_type_def using assms by (intro transparent_at_rule transparentI)

lemma set_type_accept_view:
  assumes "c_string s" "look s \<noteq> RCL_LEXEME_NONE"
  shows "view (seqA (set_type t) (seqA rcl_lexer_lookahead2_accept (retA ()))) (s, r) =
    (Ok (), (eat s, r\<lparr> remap_type := t \<rparr>))"
proof -
  have "set_type t (mk s r) = (Ok (), mk s (r\<lparr> remap_type := t \<rparr>))"
    by (simp add: set_type_def act_simps)
  then have "view (seqA (set_type t) (seqA rcl_lexer_lookahead2_accept (retA ()))) (s, r) =
    view (seqA rcl_lexer_lookahead2_accept (retA ())) (s, r\<lparr> remap_type := t \<rparr>)"
    by (simp add: view_def seqA_eval)
  then show ?thesis by (simp add: view_accept [OF assms])
qed

text \<open>The type of a name rule, from the lexeme it starts with.\<close>

definition name_type :: "rcl_lexeme_t \<Rightarrow> u32" where
  "name_type l = (if l = RCL_LEXEME_URL_SERVICE then RCL_SERVICE_REMAP
     else if l = RCL_LEXEME_URL_TOPIC then RCL_TOPIC_REMAP else RCL_TOPIC_REMAP OR RCL_SERVICE_REMAP)"

definition after_scheme :: "string \<Rightarrow> string" where
  "after_scheme s = (if look s = RCL_LEXEME_URL_SERVICE \<or> look s = RCL_LEXEME_URL_TOPIC then eat s else s)"

lemma match_transparent [transparentI]: "transparent (rcl_parse_remap_match_name rc)"
  unfolding match_name_eq
  by (intro transparent_peek transparent_at_seq transparent_bind transparent_prim
      match_names.name_then_transparent store_transparent)
    (auto intro!: set_type_accept intro: transparent_at set_type_transparent)

lemma match_view:
  assumes "c_string s"
  shows "view (rcl_parse_remap_match_name rc) (s, r) =
    view (name_then rcl_parse_remap_match_token match_loop
       (store_between rc (after_scheme s) ''failed to copy match'' (\<lambda>s r. r\<lparr> match := Some s \<rparr>)))
     (after_scheme s, r\<lparr> remap_type := name_type (look s) \<rparr>)"
proof -
  let ?m = "\<lambda>lexeme. if lexeme = RCL_LEXEME_URL_SERVICE
           then seqA (set_type RCL_SERVICE_REMAP) (seqA rcl_lexer_lookahead2_accept (retA ()))
           else if lexeme = RCL_LEXEME_URL_TOPIC
           then seqA (set_type RCL_TOPIC_REMAP) (seqA rcl_lexer_lookahead2_accept (retA ()))
           else set_type (RCL_TOPIC_REMAP OR RCL_SERVICE_REMAP)"
  let ?K = "\<lambda>start_ptr. name_then rcl_parse_remap_match_token match_loop
       (store_between rc start_ptr ''failed to copy match'' (\<lambda>s r. r\<lparr> match := Some s \<rparr>))"
  have at: "transparent_at l (?m l)" for l
    by (auto intro!: set_type_accept intro: transparent_at set_type_transparent)
  have K: "transparent (?K p)" for p by (intro match_names.name_then_transparent transparentI)
  have KK: "transparent (bindA rcl_lexer_lookahead2_get_text ?K)" by (intro transparentI K)
  have c: "c_string (after_scheme s)" using assms by (simp add: after_scheme_def eat_def c_string_drop)
  have m: "view (?m (look s)) (s, r) = (Ok (), (after_scheme s, r\<lparr> remap_type := name_type (look s) \<rparr>))"
    using assms by (simp add: set_type_accept_view set_type_view after_scheme_def name_type_def)
  have "agrees (?m (look s)) (mk s r)" using at [of "look s"] assms by (simp add: transparent_at_def)
  from view_bind_agrees [OF this KK] m
  have "view (rcl_parse_remap_match_name rc) (s, r) =
     view (bindA rcl_lexer_lookahead2_get_text ?K) (after_scheme s, r\<lparr> remap_type := name_type (look s) \<rparr>)"
    unfolding match_name_eq using assms by (simp add: view_peek seqA_def [of "if _ then _ else _"])
  also have "\<dots> = view (?K (after_scheme s)) (after_scheme s, r\<lparr> remap_type := name_type (look s) \<rparr>)"
    using c by (subst view_bind) (auto intro!: transparentI K simp: view_prim)
  finally show ?thesis .
qed

lemma rule_name_look:
  assumes "rule_name m" "ends_token s"
  shows "look (m @ s) \<in> {RCL_LEXEME_TOKEN, RCL_LEXEME_TILDE_SLASH, RCL_LEXEME_FORWARD_SLASH}"
proof -
  obtain p t ts where p: "p \<in> {[], ''/'', ''~/''}" "token_word t" "m = p @ t @ slashed ts"
    using assms(1) unfolding rule_name_def by blast
  then show ?thesis using assms(2) token_lexes [of t "slashed ts @ s"] by auto
qed

abbreviation name_types :: "u32 set" where
  "name_types \<equiv> {RCL_TOPIC_REMAP, RCL_SERVICE_REMAP, RCL_TOPIC_REMAP OR RCL_SERVICE_REMAP}"

lemma scheme_split: "name_type (look s) \<in> name_types \<and> s = url_scheme (name_type (look s)) @ after_scheme s"
  using look_iff(6,7) [of s] by (auto simp: name_type_def url_scheme_def after_scheme_def eat_def)

lemma scheme_join:
  assumes "t \<in> name_types" "rule_name m" "ends_token s"
  shows "name_type (look (url_scheme t @ m @ s)) = t \<and> after_scheme (url_scheme t @ m @ s) = m @ s"
  using assms(1) rule_name_look [OF assms(2,3)] spec_fixed(6,7) [of "m @ s"]
  by (auto simp: name_type_def url_scheme_def after_scheme_def eat_def)

lemma match_reads:
  assumes "c_string s" "copies_text rc"
  shows "view (rcl_parse_remap_match_name rc) (s, r) = (Ok (), (s', r')) \<longleftrightarrow>
    (\<exists>t m. t \<in> name_types \<and> rule_name m \<and> s = url_scheme t @ m @ s' \<and> look s' = RCL_LEXEME_SEPARATOR \<and>
       r' = r\<lparr> remap_type := t, match := Some m \<rparr>)" (is "?l \<longleftrightarrow> ?r")
proof -
  have c: "c_string (after_scheme s)" using assms(1) by (simp add: after_scheme_def eat_def c_string_drop)
  have "?l \<longleftrightarrow> (\<exists>m. rule_name m \<and> after_scheme s = m @ s' \<and> look s' = RCL_LEXEME_SEPARATOR \<and>
      r' = r\<lparr> remap_type := name_type (look s), match := Some m \<rparr>)"
    unfolding match_view [OF assms(1)] match_names.name_then_Ok [OF c store_transparent]
    using c assms(2) by (auto simp: store_view)
  also have "\<dots> \<longleftrightarrow> ?r"
  proof
    assume "\<exists>m. rule_name m \<and> after_scheme s = m @ s' \<and> look s' = RCL_LEXEME_SEPARATOR \<and>
      r' = r\<lparr> remap_type := name_type (look s), match := Some m \<rparr>"
    then show ?r using scheme_split [of s] by auto
  next
    assume ?r
    then show "\<exists>m. rule_name m \<and> after_scheme s = m @ s' \<and> look s' = RCL_LEXEME_SEPARATOR \<and>
      r' = r\<lparr> remap_type := name_type (look s), match := Some m \<rparr>"
      using scheme_join [of _ _ s'] match_names.stop_ends [of s'] by auto
  qed
  finally show ?thesis .
qed

lemma expect_rule_Ok:
  assumes "c_string s" "ty \<noteq> RCL_LEXEME_NONE"
  shows "view (expect_in_rule ty) (s, r) = (Ok (), (s', r')) \<longleftrightarrow> look s = ty \<and> s' = eat s \<and> r' = r"
  using view_expect_in_rule [OF assms] by auto

lemma separator_eat: "look s = RCL_LEXEME_SEPARATOR \<longleftrightarrow> s = '':='' @ eat s"
  using look_iff(3) [of s] by (auto simp: eat_def)

lemma name_remap_transparent [transparentI]: "transparent (rcl_parse_remap_name_remap rc)"
  unfolding rcl_parse_remap_name_remap_def by (intro transparentI) simp

lemma view_seq_unit:
  fixes m :: "(parse_state, unit) act"
  assumes "transparent m" "transparent n" "c_string s"
  shows "view (seqA m n) (s, r) = (Ok y, a) \<longleftrightarrow>
    (\<exists>s1 r1. c_string s1 \<and> view m (s, r) = (Ok (), (s1, r1)) \<and> view n (s1, r1) = (Ok y, a))"
  using view_seq_Ok [OF assms] by auto

lemma name_remap_Ok:
  assumes "c_string s"
  shows "view (rcl_parse_remap_name_remap rc) (s, r) = (Ok (), a) \<longleftrightarrow>
    (\<exists>s1 r1 s2 r2. c_string s1 \<and> c_string s2 \<and> view (rcl_parse_remap_match_name rc) (s, r) = (Ok (), (s1, r1)) \<and>
      view (expect_in_rule RCL_LEXEME_SEPARATOR) (s1, r1) = (Ok (), (s2, r2)) \<and>
      view (rcl_parse_remap_replacement_name rc) (s2, r2) = (Ok (), a))"
  unfolding rcl_parse_remap_name_remap_def
  using assms by (simp add: view_seq_unit transparentI cong: conj_cong) blast

lemma name_remap_reads:
  assumes "c_string s" "copies_text rc"
  shows "view (rcl_parse_remap_name_remap rc) (s, r) = (Ok (), (s', r')) \<longleftrightarrow> s' = [] \<and>
    (\<exists>t m p. t \<in> name_types \<and> rule_name m \<and> rule_name p \<and> s = url_scheme t @ m @ '':='' @ p \<and>
       r' = r\<lparr> remap_type := t, match := Some m, replacement := Some p \<rparr>)" (is "?l \<longleftrightarrow> ?r")
proof
  assume ?l
  then obtain s1 r1 s2 r2 where c: "c_string s1" "c_string s2"
    and m: "view (rcl_parse_remap_match_name rc) (s, r) = (Ok (), (s1, r1))"
    and e: "view (expect_in_rule RCL_LEXEME_SEPARATOR) (s1, r1) = (Ok (), (s2, r2))"
    and p: "view (rcl_parse_remap_replacement_name rc) (s2, r2) = (Ok (), (s', r'))"
    unfolding name_remap_Ok [OF assms(1)] by blast
  have e': "s1 = '':='' @ s2" "r2 = r1" using e c expect_rule_Ok separator_eat [of s1] by auto
  obtain t m where "t \<in> name_types" "rule_name m" "s = url_scheme t @ m @ s1" "r1 = r\<lparr> remap_type := t, match := Some m \<rparr>"
    using m match_reads [OF assms] by blast
  moreover have "rule_name s2" "s' = []" "r' = r2\<lparr> replacement := Some s2 \<rparr>"
    using p replacement_reads [OF c(2) assms(2)] by simp_all
  ultimately show ?r using e' by auto
next
  assume ?r
  then obtain t m p where t: "t \<in> name_types" "rule_name m" "rule_name p" "s = url_scheme t @ m @ '':='' @ p"
    "s' = []" "r' = r\<lparr> remap_type := t, match := Some m, replacement := Some p \<rparr>" by blast
  have c: "c_string ('':='' @ p)" "c_string p" using assms(1) t(4) by simp_all
  have "view (rcl_parse_remap_match_name rc) (s, r) = (Ok (), ('':='' @ p, r\<lparr> remap_type := t, match := Some m \<rparr>))"
    using match_reads [OF assms] t by auto
  moreover have "view (expect_in_rule RCL_LEXEME_SEPARATOR) ('':='' @ p, r1) = (Ok (), (p, r1))" for r1
    using expect_rule_Ok [OF c(1)] by (simp add: eat_def)
  moreover have "view (rcl_parse_remap_replacement_name rc) (p, r\<lparr> remap_type := t, match := Some m \<rparr>) = (Ok (), (s', r'))"
    using replacement_reads [OF c(2) assms(2)] t by simp
  ultimately show ?l unfolding name_remap_Ok [OF assms(1)] using c by blast
qed

subsection \<open>Namespaces and node names\<close>

lemma namespace_loop_transparent: "transparent (namespace_loop k)"
  by (induction k) (auto intro!: transparentI)

lemma namespace_loop_view:
  assumes "c_string s"
  shows "view (namespace_loop (Suc k)) (s, r) =
    (if look s \<noteq> RCL_LEXEME_TOKEN then (Ok (), (s, r))
     else if look (eat s) \<noteq> RCL_LEXEME_FORWARD_SLASH then (Ok (), (eat s, r))
     else view (namespace_loop k) (eat (eat s), r))"
proof -
  have c: "c_string (eat s)" using assms by (simp add: eat_def c_string_drop)
  show ?thesis
    using assms c
    by (simp add: view_bind transparentI namespace_loop_transparent view_code_expect view_prim)
qed

declare namespace_loop.simps(2) [simp del]

lemma namespace_reads:
  "c_string s \<Longrightarrow> view (namespace_loop k) (s, r) = (Ok (), (s', r')) \<Longrightarrow>
     r' = r \<and> (\<exists>ts. list_all token_word ts \<and>
       (CHR ''/'' # s = slashed ts @ CHR ''/'' # s' \<or> ts \<noteq> [] \<and> CHR ''/'' # s = slashed ts @ s'))"
proof (induction k arbitrary: s)
  case (Suc k)
  show ?case
  proof (cases "look s = RCL_LEXEME_TOKEN")
    case False
    with Suc.prems have "s' = s" "r' = r" by (auto simp: namespace_loop_view)
    then show ?thesis by (auto intro!: exI [of _ "[]"])
  next
    case True
    then obtain t where t: "token_word t" "s = t @ eat s" using token_look by blast
    show ?thesis
    proof (cases "look (eat s) = RCL_LEXEME_FORWARD_SLASH")
      case False
      with True Suc.prems have "s' = eat s" "r' = r" by (auto simp: namespace_loop_view)
      with t show ?thesis by (intro conjI exI [of _ "[t]"]) simp_all
    next
      case slash: True
      then have e: "eat s = CHR ''/'' # eat (eat s)" using look_iff(1) [of "eat s"] by (auto simp: eat_def [of "_ # _"])
      have "c_string (eat (eat s))" using Suc.prems(1) by (simp add: eat_def c_string_drop)
      from Suc.IH [OF this] True slash Suc.prems obtain ts where ts: "r' = r" "list_all token_word ts"
        "CHR ''/'' # eat (eat s) = slashed ts @ CHR ''/'' # s' \<or> ts \<noteq> [] \<and> CHR ''/'' # eat (eat s) = slashed ts @ s'"
        by (auto simp: namespace_loop_view)
      with t e show ?thesis by (intro conjI exI [of _ "t # ts"]) auto
    qed
  qed
qed (simp add: view_prim)

text \<open>The texts the loop reads to the end, without the slash before them.\<close>

lemma namespace_accepts:
  "list_all token_word ts \<Longrightarrow> c_string s \<Longrightarrow> length ts < k \<Longrightarrow>
     CHR ''/'' # s = slashed ts @ ''/'' \<or> ts \<noteq> [] \<and> CHR ''/'' # s = slashed ts \<Longrightarrow>
     view (namespace_loop k) (s, r) = (Ok (), ([], r))"
proof (induction ts arbitrary: s k)
  case Nil
  then obtain j where "k = Suc j" by (cases k) auto
  with Nil show ?case by (simp add: namespace_loop_view)
next
  case (Cons t ts)
  then obtain j where k: "k = Suc j" by (cases k) auto
  obtain u where s: "s = t @ u" and u: "u = slashed ts @ ''/'' \<or> u = slashed ts" using Cons.prems(4) by auto
  have e: "ends_token u" using u by (cases ts) auto
  have t: "look s = RCL_LEXEME_TOKEN" "eat s = u" using Cons.prems(1) e s by (simp_all add: token_lexes)
  show ?case
  proof (cases "u = []")
    case True
    with t k Cons.prems show ?thesis by (simp add: namespace_loop_view)
  next
    case False
    then obtain v where v: "u = CHR ''/'' # v" using u by (cases ts) auto
    have "view (namespace_loop j) (v, r) = (Ok (), ([], r))"
      using u v False Cons.prems k s by (intro Cons.IH) auto
    moreover have "eat u = v" "look u = RCL_LEXEME_FORWARD_SLASH" using v by (simp_all add: eat_def)
    ultimately show ?thesis using t k Cons.prems by (simp add: namespace_loop_view)
  qed
qed

lemma namespace_defined: "c_string s \<Longrightarrow> length s < k \<Longrightarrow> \<not> ub_result (fst (view (namespace_loop k) (s, r)))"
proof (induction k arbitrary: s)
  case (Suc k)
  show ?case
  proof (cases "look s = RCL_LEXEME_TOKEN \<and> look (eat s) = RCL_LEXEME_FORWARD_SLASH")
    case True
    then obtain t where t: "token_word t" "s = t @ eat s" using token_look by blast
    have "t \<noteq> []" using t(1) by auto
    then have "length (eat s) < length s" using arg_cong [OF t(2), of length] by simp
    moreover have "length (eat (eat s)) \<le> length (eat s)" by (simp add: eat_def)
    moreover have "c_string (eat (eat s))" using Suc.prems(1) by (simp add: eat_def c_string_drop)
    ultimately show ?thesis using Suc True by (simp add: namespace_loop_view)
  qed (use Suc.prems in \<open>auto simp: namespace_loop_view\<close>)
qed simp

text \<open>The namespace rule: everything behind the separator is the namespace.\<close>

lemma namespace_rule_transparent [transparentI]: "transparent (rcl_parse_remap_namespace_replacement rc)"
  unfolding rcl_parse_remap_namespace_replacement_def rcl_parse_remap_fully_qualified_namespace_def
  by (auto intro!: transparentI namespace_loop_transparent)

lemma fully_qualified_view:
  assumes "c_string s"
  shows "view rcl_parse_remap_fully_qualified_namespace (s, r) =
    (if look s = RCL_LEXEME_FORWARD_SLASH then view (namespace_loop (Suc (length (eat s)))) (eat s, r)
     else (Err (RCLError RCL_RET_INVALID_REMAP_RULE ''''), (s, r)))"
proof -
  have c: "c_string (eat s)" using assms by (simp add: eat_def c_string_drop)
  have "view (bindA loop_bound namespace_loop) (eat s, r) = view (namespace_loop (Suc (length (eat s)))) (eat s, r)"
    using c by (simp add: view_bind transparentI namespace_loop_transparent view_prim)
  then show ?thesis
    unfolding rcl_parse_remap_fully_qualified_namespace_def seqA_def using assms
    by (simp add: view_bind transparentI namespace_loop_transparent view_expect_in_rule)
qed

lemma slashed_length: "list_all token_word ts \<Longrightarrow> 2 * length ts \<le> length (slashed ts)"
proof (induction ts)
  case (Cons t ts)
  then have "t \<noteq> []" by auto
  with Cons show ?case by (cases t) auto
qed simp

lemma fully_qualified_reads:
  assumes "c_string s"
  shows "view rcl_parse_remap_fully_qualified_namespace (s, r) = (Ok (), ([], r')) \<longleftrightarrow> rule_namespace s \<and> r' = r"
proof
  assume l: "view rcl_parse_remap_fully_qualified_namespace (s, r) = (Ok (), ([], r'))"
  then have slash: "look s = RCL_LEXEME_FORWARD_SLASH" using fully_qualified_view [OF assms] by (auto split: if_splits)
  then have s: "s = CHR ''/'' # eat s" using look_iff(1) [of s] by (auto simp: eat_def)
  have c: "c_string (eat s)" using assms by (simp add: eat_def c_string_drop)
  have run: "view (namespace_loop (Suc (length (eat s)))) (eat s, r) = (Ok (), ([], r'))"
    using l slash fully_qualified_view [OF assms] by simp
  from namespace_reads [OF c run] s show "rule_namespace s \<and> r' = r" unfolding rule_namespace_def by (metis append_Nil2)
next
  assume r: "rule_namespace s \<and> r' = r"
  then obtain ts where ts: "list_all token_word ts" "ts \<noteq> [] \<and> s = slashed ts \<or> s = slashed ts @ ''/''"
    unfolding rule_namespace_def by blast
  then obtain u where s: "s = CHR ''/'' # u" by (cases ts) auto
  have u: "c_string u" "eat s = u" "look s = RCL_LEXEME_FORWARD_SLASH" using assms s by (simp_all add: eat_def)
  have "length s = Suc (length u)" using s by simp
  with slashed_length [OF ts(1)] ts(2) have "length ts < Suc (length u)" by (cases ts) auto
  from namespace_accepts [OF ts(1) u(1) this] ts(2) s r u fully_qualified_view [OF assms]
  show "view rcl_parse_remap_fully_qualified_namespace (s, r) = (Ok (), ([], r'))" by auto
qed

lemma word_eat:
  "look s = RCL_LEXEME_NS \<longleftrightarrow> s = ''__ns'' @ eat s"
  "look s = RCL_LEXEME_NODE \<longleftrightarrow> s = ''__node'' @ eat s"
  using look_iff(4,5) [of s] by (auto simp: eat_def)

text \<open>A keyword and the separator, before either replacement.\<close>

lemma keyword_reads:
  assumes "c_string s" "transparent P" "ty \<noteq> RCL_LEXEME_NONE" "look s = ty \<longleftrightarrow> s = w @ eat s"
    "\<And>u. look (w @ u) = ty \<and> eat (w @ u) = u"
  shows "view (seqA (expect_in_rule ty) (seqA (expect_in_rule RCL_LEXEME_SEPARATOR) P)) (s, r) = (Ok y, a) \<longleftrightarrow>
    (\<exists>u. s = w @ '':='' @ u \<and> view P (u, r) = (Ok y, a))"
proof -
  have "view (seqA (expect_in_rule ty) (seqA (expect_in_rule RCL_LEXEME_SEPARATOR) P)) (s, r) = (Ok y, a) \<longleftrightarrow>
    look s = ty \<and> look (eat s) = RCL_LEXEME_SEPARATOR \<and> view P (eat (eat s), r) = (Ok y, a)"
    using assms(1-3) by (auto simp: view_seq_unit transparentI expect_rule_Ok c_string_drop eat_def)
  also have "\<dots> \<longleftrightarrow> (\<exists>u. s = w @ '':='' @ u \<and> view P (u, r) = (Ok y, a))"
  proof
    assume l: "look s = ty \<and> look (eat s) = RCL_LEXEME_SEPARATOR \<and> view P (eat (eat s), r) = (Ok y, a)"
    then have "s = w @ eat s" "eat s = '':='' @ eat (eat s)" using assms(4) separator_eat [of "eat s"] by auto
    then have "s = w @ '':='' @ eat (eat s)" by metis
    with l show "\<exists>u. s = w @ '':='' @ u \<and> view P (u, r) = (Ok y, a)" by blast
  next
    assume "\<exists>u. s = w @ '':='' @ u \<and> view P (u, r) = (Ok y, a)"
    then obtain u where u: "s = w @ '':='' @ u" "view P (u, r) = (Ok y, a)" by blast
    have "eat ('':='' @ u) = u" by (simp add: eat_def)
    with u assms(5) [of "'':='' @ u"]
    show "look s = ty \<and> look (eat s) = RCL_LEXEME_SEPARATOR \<and> view P (eat (eat s), r) = (Ok y, a)" by simp
  qed
  finally show ?thesis .
qed

lemma namespace_rule_eq:
  "rcl_parse_remap_namespace_replacement rc =
     seqA (expect_in_rule RCL_LEXEME_NS) (seqA (expect_in_rule RCL_LEXEME_SEPARATOR)
     (bindA rcl_lexer_lookahead2_get_text (\<lambda>ns_start.
     seqA rcl_parse_remap_fully_qualified_namespace
     (seqA (rcl_lexer_lookahead2_expect RCL_LEXEME_EOF)
     (seqA (store_between rc ns_start ''failed to copy namespace'' (\<lambda>s r. r\<lparr> replacement := Some s \<rparr>))
       (set_type RCL_NAMESPACE_REMAP))))))"
  by (simp add: rcl_parse_remap_namespace_replacement_def store_between_def seqA_def bindA_def fun_eq_iff
      split: prod.split sum.split)

lemma expect_end: "c_string s \<Longrightarrow> view (rcl_lexer_lookahead2_expect RCL_LEXEME_EOF) (s, r) = (Ok x, (s', r')) \<longleftrightarrow>
    s = [] \<and> s' = [] \<and> r' = r \<and> x = ([], 0)"
  by (auto simp: view_expect look_EOF eat_def)

lemma fq_transparent [transparentI]: "transparent rcl_parse_remap_fully_qualified_namespace"
  unfolding rcl_parse_remap_fully_qualified_namespace_def
  by (auto intro!: transparentI namespace_loop_transparent)

lemma namespace_rule_reads:
  assumes "c_string s" "copies_text rc"
  shows "view (rcl_parse_remap_namespace_replacement rc) (s, r) = (Ok (), (s', r')) \<longleftrightarrow>
    s' = [] \<and> (\<exists>ns. rule_namespace ns \<and> s = ''__ns:='' @ ns \<and>
      r' = r\<lparr> replacement := Some ns, remap_type := RCL_NAMESPACE_REMAP \<rparr>)"
proof -
  let ?P = "bindA rcl_lexer_lookahead2_get_text (\<lambda>ns_start.
     seqA rcl_parse_remap_fully_qualified_namespace
     (seqA (rcl_lexer_lookahead2_expect RCL_LEXEME_EOF)
     (seqA (store_between rc ns_start ''failed to copy namespace'' (\<lambda>s r. r\<lparr> replacement := Some s \<rparr>))
       (set_type RCL_NAMESPACE_REMAP))))"
  have t: "transparent ?P" by (intro transparentI) simp
  have P: "view ?P (u, r) = (Ok (), (s', r')) \<longleftrightarrow>
      s' = [] \<and> rule_namespace u \<and> r' = r\<lparr> replacement := Some u, remap_type := RCL_NAMESPACE_REMAP \<rparr>" if u: "c_string u" for u
    using u assms(2)
    by (auto simp: view_bind view_prim view_seq_Ok transparentI expect_end fully_qualified_reads store_view set_type_view
        intro!: exI [of _ "[]"] exI [of _ r])
  have "view (rcl_parse_remap_namespace_replacement rc) (s, r) = (Ok (), (s', r')) \<longleftrightarrow>
    (\<exists>u. s = ''__ns'' @ '':='' @ u \<and> view ?P (u, r) = (Ok (), (s', r')))"
    unfolding namespace_rule_eq
    by (rule keyword_reads [OF assms(1) t]) (simp_all add: word_eat(1) [unfolded append_Cons append_Nil] eat_def)
  then show ?thesis using P assms(1) by auto
qed

lemma nodename_rule_transparent [transparentI]: "transparent (rcl_parse_remap_nodename_replacement rc)"
  unfolding rcl_parse_remap_nodename_replacement_def
  by (auto intro!: transparentI)

lemma nodename_rule_reads:
  assumes "c_string s" "copies_text rc"
  shows "view (rcl_parse_remap_nodename_replacement rc) (s, r) = (Ok (), ([], r')) \<longleftrightarrow>
    (\<exists>t. token_word t \<and> s = ''__node:='' @ t \<and> r' = r\<lparr> replacement := Some t, remap_type := RCL_NODENAME_REMAP \<rparr>)"
proof -
  let ?P = "bindA (codeA (rcl_lexer_lookahead2_expect RCL_LEXEME_TOKEN)) (\<lambda>ret.
     case ret of
       Inl code \<Rightarrow> throwA (RCLError
         (if code = RCL_RET_WRONG_LEXEME then RCL_RET_INVALID_REMAP_RULE else code) '''')
     | Inr lx \<Rightarrow>
         bindA (liftA (copy_lexeme rc lx)) (\<lambda>s.
         seqA (modA (\<lambda>b. b\<lparr> rule := (rule b)\<lparr> replacement := Some s \<rparr> \<rparr>))
         (set_type RCL_NODENAME_REMAP)))"
  have t: "transparent ?P" by (auto intro!: transparentI)
  have run: "view ?P (u, r) = (if look u = RCL_LEXEME_TOKEN
      then (Ok (), (eat u, r\<lparr> replacement := Some (take (snd (lexeme_spec u)) u), remap_type := RCL_NODENAME_REMAP \<rparr>))
      else (Err (RCLError RCL_RET_INVALID_REMAP_RULE ''''), (u, r)))" if u: "c_string u" for u
    using u assms(2) c_string_drop [OF u]
    by (subst view_bind)
      (auto intro!: transparentI simp: view_code_expect view_prim view_bind transparentI copy_lexeme_def copies_textD
        seqA_def view_rule set_type_view eat_def)
  have P: "view ?P (u, r) = (Ok (), ([], r')) \<longleftrightarrow> token_word u \<and>
      r' = r\<lparr> replacement := Some u, remap_type := RCL_NODENAME_REMAP \<rparr>" if u: "c_string u" for u
  proof
    assume l: "view ?P (u, r) = (Ok (), ([], r'))"
    then have "look u = RCL_LEXEME_TOKEN" "eat u = []" "r' = r\<lparr> replacement := Some (take (snd (lexeme_spec u)) u),
        remap_type := RCL_NODENAME_REMAP \<rparr>"
      using run [OF u] by (auto split: if_splits)
    with token_look [of u] show "token_word u \<and> r' = r\<lparr> replacement := Some u, remap_type := RCL_NODENAME_REMAP \<rparr>"
      by auto
  next
    assume "token_word u \<and> r' = r\<lparr> replacement := Some u, remap_type := RCL_NODENAME_REMAP \<rparr>"
    with token_lexes [of u "[]"] run [OF u] show "view ?P (u, r) = (Ok (), ([], r'))" by (simp add: eat_def)
  qed
  have "view (rcl_parse_remap_nodename_replacement rc) (s, r) = (Ok (), ([], r')) \<longleftrightarrow>
    (\<exists>u. s = ''__node'' @ '':='' @ u \<and> view ?P (u, r) = (Ok (), ([], r')))"
    unfolding rcl_parse_remap_nodename_replacement_def
    by (rule keyword_reads [OF assms(1) t]) (simp_all add: word_eat(2) [unfolded append_Cons append_Nil] eat_def)
  then show ?thesis using P assms(1) by auto
qed

subsection \<open>Whole rules\<close>

lemma body_transparent [transparentI]: "transparent (parse_rule_body rc)"
  unfolding parse_rule_body_def
  by (auto intro!: transparent_peek transparent_at_seq transparentI intro: transparent_at
      nodename_rule_transparent namespace_rule_transparent name_remap_transparent)

lemma body_view:
  assumes "c_string s"
  shows "view (parse_rule_body rc) (s, r) = (Ok (), (s', r')) \<longleftrightarrow> s' = [] \<and>
    view (if look s = RCL_LEXEME_NODE then rcl_parse_remap_nodename_replacement rc
          else if look s = RCL_LEXEME_NS then rcl_parse_remap_namespace_replacement rc
          else rcl_parse_remap_name_remap rc) (s, r) = (Ok (), ([], r'))"
proof -
  have "transparent (if l = RCL_LEXEME_NODE then rcl_parse_remap_nodename_replacement rc
          else if l = RCL_LEXEME_NS then rcl_parse_remap_namespace_replacement rc
          else rcl_parse_remap_name_remap rc)" for l by (intro transparentI)
  from view_seq_unit [OF this transparent_expect_in_rule assms, of RCL_LEXEME_EOF] assms
  show ?thesis
    unfolding parse_rule_body_def view_peek [OF assms]
    by (auto simp: expect_rule_Ok look_EOF eat_def cong: conj_cong)
qed

lemma token_head: "token_word t \<Longrightarrow> t \<noteq> [] \<and> hd t \<noteq> CHR ''/''"
  by (cases t) (auto simp: token_word_Cons)

lemma body_look:
  assumes "body_ok r"
  shows "look (body_text r) \<in> {RCL_LEXEME_NODE, RCL_LEXEME_NS, RCL_LEXEME_URL_TOPIC, RCL_LEXEME_URL_SERVICE,
      RCL_LEXEME_TOKEN, RCL_LEXEME_TILDE_SLASH, RCL_LEXEME_FORWARD_SLASH} \<and>
    (look (body_text r) = RCL_LEXEME_NODE \<longleftrightarrow> remap_type r = RCL_NODENAME_REMAP) \<and>
    (look (body_text r) = RCL_LEXEME_NS \<longleftrightarrow> remap_type r = RCL_NAMESPACE_REMAP)"
proof (cases "remap_type r \<in> name_types")
  case False
  with assms show ?thesis by (auto simp: body_ok_def body_text_def split: if_splits)
next
  case True
  then have "remap_type r \<noteq> RCL_NODENAME_REMAP" "remap_type r \<noteq> RCL_NAMESPACE_REMAP" by auto
  moreover from this assms obtain m p where "match r = Some m" "rule_name m"
    by (auto simp: body_ok_def split: option.splits)
  ultimately show ?thesis
    using True rule_name_look [of m "'':='' @ the (replacement r)"]
    by (auto simp: body_text_def url_scheme_def)
qed

lemma name_no_colon:
  assumes "rule_name m" "look (m @ '':='' @ p) = RCL_LEXEME_TOKEN"
  shows "look (eat (m @ '':='' @ p)) \<noteq> RCL_LEXEME_COLON"
proof -
  obtain q t ts where q: "q \<in> {[], ''/'', ''~/''}" "token_word t" "m = q @ t @ slashed ts"
    using assms(1) unfolding rule_name_def by blast
  with assms(2) have "q = []" by auto
  with q have "eat (m @ '':='' @ p) = slashed ts @ '':='' @ p" by simp
  then show ?thesis by (cases ts) simp_all
qed

lemma body_no_prefix:
  assumes "body_ok r" "look (body_text r) = RCL_LEXEME_TOKEN"
  shows "look (eat (body_text r)) \<noteq> RCL_LEXEME_COLON"
proof -
  have t: "remap_type r \<noteq> RCL_NODENAME_REMAP" "remap_type r \<noteq> RCL_NAMESPACE_REMAP"
    using body_look [OF assms(1)] assms(2) by auto
  with assms(1) obtain m p where "match r = Some m" "replacement r = Some p" "rule_name m"
    by (auto simp: body_ok_def split: option.splits)
  moreover from this t assms have "body_text r = m @ '':='' @ p"
    by (auto simp: body_text_def url_scheme_def split: if_splits)
  ultimately show ?thesis using name_no_colon assms(2) by simp
qed

lemma body_start:
  assumes "body_ok r"
  shows "\<not> starts ''='' (body_text r) \<and> \<not> starts ''//'' (body_text r)"
proof -
  have "look (CHR ''='' # u) = RCL_LEXEME_NONE" for u
    by (simp add: lexeme_spec_def fixed_words_def letter_def in_range_def)
  then have "\<not> starts ''='' (body_text r)" using body_look [OF assms] by (auto simp: starts_append)
  moreover have "\<not> starts ''//'' (m @ u)" if "rule_name m" for m u
    using that token_head unfolding rule_name_def by (fastforce simp: neq_Nil_conv)
  ultimately show ?thesis
    using assms by (auto simp: body_ok_def body_text_def url_scheme_def split: if_splits option.splits)
qed

lemma body_sound:
  assumes "c_string s" "copies_text rc" "match r = None" "replacement r = None"
    and l: "view (parse_rule_body rc) (s, r) = (Ok (), (s', r'))"
  shows "s' = [] \<and> body_ok r' \<and> s = body_text r' \<and> node_name r' = node_name r"
proof -
  have s': "s' = []" using l body_view [OF assms(1)] by simp
  consider "look s = RCL_LEXEME_NODE" | "look s = RCL_LEXEME_NS"
    | "look s \<noteq> RCL_LEXEME_NODE" "look s \<noteq> RCL_LEXEME_NS" by blast
  then show ?thesis
  proof cases
    case 1
    with l obtain t where "token_word t" "s = ''__node:='' @ t"
      "r' = r\<lparr> replacement := Some t, remap_type := RCL_NODENAME_REMAP \<rparr>"
      unfolding body_view [OF assms(1)] using nodename_rule_reads [OF assms(1,2)] by auto
    with s' assms(3) show ?thesis by (simp add: body_ok_def body_text_def)
  next
    case 2
    with l obtain t where "rule_namespace t" "s = ''__ns:='' @ t"
      "r' = r\<lparr> replacement := Some t, remap_type := RCL_NAMESPACE_REMAP \<rparr>"
      unfolding body_view [OF assms(1)] using namespace_rule_reads [OF assms(1,2)] by auto
    with s' assms(3) show ?thesis by (simp add: body_ok_def body_text_def)
  next
    case 3
    with l obtain t m p where "t \<in> name_types" "rule_name m" "rule_name p" "s = url_scheme t @ m @ '':='' @ p"
      "r' = r\<lparr> remap_type := t, match := Some m, replacement := Some p \<rparr>"
      unfolding body_view [OF assms(1)] using name_remap_reads [OF assms(1,2)] by auto
    with s' show ?thesis by (auto simp: body_ok_def body_text_def)
  qed
qed

lemma body_complete:
  assumes "c_string s" "copies_text rc" "match r = None" "replacement r = None"
    and r: "body_ok r'" "s = body_text r'" "node_name r' = node_name r"
  shows "view (parse_rule_body rc) (s, r) = (Ok (), ([], r'))"
proof -
  note look = body_look [of r']
  have ext: "r' = r\<lparr> remap_type := remap_type r', match := match r', replacement := replacement r' \<rparr>"
    using r by (intro rcl_remap_impl_t.equality) simp_all
  consider "remap_type r' = RCL_NODENAME_REMAP" | "remap_type r' = RCL_NAMESPACE_REMAP"
    | "remap_type r' \<noteq> RCL_NODENAME_REMAP" "remap_type r' \<noteq> RCL_NAMESPACE_REMAP" by blast
  then show ?thesis
  proof cases
    case 1
    then obtain t where t: "token_word t" "match r' = None" "replacement r' = Some t"
      using r by (auto simp: body_ok_def split: option.splits)
    then have "s = ''__node:='' @ t" "r' = r\<lparr> replacement := Some t, remap_type := RCL_NODENAME_REMAP \<rparr>"
      using r 1 ext assms(3) by (simp_all add: body_text_def)
    with t(1) r 1 look show ?thesis
      unfolding body_view [OF assms(1)] using nodename_rule_reads [OF assms(1,2)] by auto
  next
    case 2
    then obtain t where t: "rule_namespace t" "match r' = None" "replacement r' = Some t"
      using r by (auto simp: body_ok_def split: option.splits)
    then have "s = ''__ns:='' @ t" "r' = r\<lparr> replacement := Some t, remap_type := RCL_NAMESPACE_REMAP \<rparr>"
      using r 2 ext assms(3) by (simp_all add: body_text_def)
    with t(1) r 2 look show ?thesis
      unfolding body_view [OF assms(1)] using namespace_rule_reads [OF assms(1,2)] by auto
  next
    case 3
    then obtain m p where m: "remap_type r' \<in> name_types" "match r' = Some m" "replacement r' = Some p" "rule_name m" "rule_name p"
      using r by (auto simp: body_ok_def split: option.splits)
    have "s = url_scheme (remap_type r') @ m @ '':='' @ p" using r 3 m by (simp add: body_text_def)
    moreover have "r' = r\<lparr> remap_type := remap_type r', match := Some m, replacement := Some p \<rparr>"
      using ext m by simp
    ultimately have "view (rcl_parse_remap_name_remap rc) (s, r) = (Ok (), ([], r'))"
      unfolding name_remap_reads [OF assms(1,2)] using m by blast
    with r 3 look show ?thesis unfolding body_view [OF assms(1)] by simp
  qed
qed

subsection \<open>From the argument to the rule\<close>

definition start_state :: "string \<Rightarrow> parse_state" where
  "start_state arg = rcl_lexer_lookahead2_t.extend (rcl_lexer_lookahead2_init arg)
     (parse_state.fields rcl_get_zero_initialized_remap)"

lemma start_state_ok:
  "c_string arg \<Longrightarrow> la_ok (start_state arg)" "sees (start_state arg) = (arg, rcl_get_zero_initialized_remap)"
  "la_text (start_state arg) = arg" "text_idx (start_state arg) = 0" "end1 (start_state arg) = 0"
  by (simp_all add: start_state_def rcl_lexer_lookahead2_init_def rcl_lexer_lookahead2_t.defs parse_state.defs
      la_ok_def slot1_ok_def sees_def rest_def)

text \<open>The two lexemes at the start; a text cut short inside a word makes \<open>peek2\<close> read behind its end.\<close>

lemma peek2_start:
  assumes "c_string arg" "\<not> cut_short arg"
  shows "\<exists>b. rcl_lexer_lookahead2_peek2 (start_state arg) = (Ok (look arg, look (eat arg)), b) \<and> la_ok b \<and>
    sees b = (arg, rcl_get_zero_initialized_remap) \<and> peeked b \<and> text_idx b = 0 \<and> type1 b = look (eat arg) \<and>
    end1 b = end0 b + snd (lexeme_spec (eat arg))"
proof -
  let ?b = "start_state arg"
  have rest: "rest ?b = arg" "rule ?b = rcl_get_zero_initialized_remap"
    using start_state_ok(2) [of arg] by (simp_all add: sees_def)
  obtain b where b: "rcl_lexer_lookahead2_peek ?b = (Ok (look arg), b)" "la_ok b" "peeked b" "rest b = arg"
    "b = ?b\<lparr> type0 := type0 b, start0 := start0 b, end0 := end0 b \<rparr>"
    using peek_eval [OF start_state_ok(1) [OF assms(1)]] rest by auto
  have same: "la_text b = arg" "text_idx b = 0" "end1 b = 0" "rule b = rcl_get_zero_initialized_remap"
    using start_state_ok(3-5) [of arg] rest(2) by (subst b(5), simp)+
  have end0: "end0 b = snd (lexeme_spec arg)" using b(3,4) same by (auto simp: peeked_def)
  have "end0 b \<le> length arg"
    using spec_length [OF _ assms(2)] end0 by (cases "arg = []") (auto simp: prod_eq_iff)
  moreover obtain l n where ln: "lexeme_spec (eat arg) = (l, n)" by (cases "lexeme_spec (eat arg)")
  ultimately have an: "analyze_from arg (end0 b) = Ok (l, n)"
    using assms(1) end0 by (simp add: analyze_from_def analyze_spec c_string_drop eat_def)
  let ?c = "b\<lparr> type1 := l, start1 := end0 b, end1 := end0 b + n \<rparr>"
  have "rcl_lexer_lookahead2_peek2 ?b = (Ok (look arg, look (eat arg)), ?c)"
    using b(1) same an ln by (simp add: rcl_lexer_lookahead2_peek2_def act_simps)
  moreover have "sees ?c = (arg, rcl_get_zero_initialized_remap)"
    using b(4) same by (simp add: sees_def rest_def)
  moreover have "la_ok ?c"
    using b(2,3) same ln end0 \<open>end0 b \<le> length arg\<close>
    by (auto simp: la_ok_def peeked_def rest_def slot1_ok_def eat_def)
  moreover have "peeked ?c" using b(3) by (simp add: peeked_def rest_def)
  ultimately show ?thesis using same ln by (intro exI [of _ ?c]) simp
qed

lemma peek2_cut_short:
  assumes "c_string arg" "cut_short arg"
  shows "\<exists>b. rcl_lexer_lookahead2_peek2 (start_state arg) = (Err (Undefined_behaviour ''read behind the end of a string''), b)"
proof -
  let ?b = "start_state arg"
  have rest: "rest ?b = arg" using start_state_ok(2) [of arg] by (simp add: sees_def)
  obtain b where b: "rcl_lexer_lookahead2_peek ?b = (Ok (look arg), b)" "peeked b" "rest b = arg"
    "b = ?b\<lparr> type0 := type0 b, start0 := start0 b, end0 := end0 b \<rparr>"
    using peek_eval [OF start_state_ok(1) [OF assms(1)]] rest by auto
  have same: "la_text b = arg" "text_idx b = 0" "end1 b = 0"
    using start_state_ok(3-5) [of arg] by (subst b(4), simp)+
  have "end0 b = length arg + 1" using b(2,3) same spec_cut_short [OF assms(2)] by (auto simp: peeked_def)
  then show ?thesis
    using b(1) same by (simp add: rcl_lexer_lookahead2_peek2_def act_simps analyze_from_def)
qed

lemma prefix_transparent [transparentI]: "transparent (rcl_parse_remap_nodename_prefix rc)"
  unfolding rcl_parse_remap_nodename_prefix_def by (auto intro!: transparentI)

lemma prefix_reads:
  assumes "c_string s" "copies_text rc" "look s = RCL_LEXEME_TOKEN" "look (eat s) = RCL_LEXEME_COLON"
  shows "\<exists>t. token_word t \<and> s = t @ '':'' @ eat (eat s) \<and>
    view (rcl_parse_remap_nodename_prefix rc) (s, r) = (Ok (), (eat (eat s), r\<lparr> node_name := Some t \<rparr>))"
proof -
  obtain t where t: "token_word t" "s = t @ eat s" "snd (lexeme_spec s) = length t" using token_look [OF assms(3)] by blast
  obtain u where u: "eat s = '':'' @ u" "\<not> starts ''='' u" using assms(4) look_COLON [of "eat s"] by blast
  have eu: "eat (eat s) = u" using u spec_colon_alone [OF u(2)] by (simp add: eat_def [of "_ # _"])
  have take: "take (length t) s = t" using t(2) by (metis append_eq_conv_conj)
  have c: "c_string (eat s)" using assms(1) by (simp add: eat_def c_string_drop)
  with u(1) have "c_string u" by simp
  have "view (rcl_parse_remap_nodename_prefix rc) (s, r) = (Ok (), (u, r\<lparr> node_name := Some t \<rparr>))"
    unfolding rcl_parse_remap_nodename_prefix_def seqA_def
    using assms c \<open>c_string u\<close> t(3) take eu
    by (simp add: view_bind transparentI view_code_expect view_expect_in_rule view_prim view_rule copy_lexeme_def copies_textD)
  then show ?thesis using t u eu by (metis)
qed

definition after_peek2 :: "rcutils \<Rightarrow> string \<Rightarrow> (parse_state, unit) act" where
  "after_peek2 rc arg = seqA (if look arg = RCL_LEXEME_TOKEN \<and> look (eat arg) = RCL_LEXEME_COLON
     then rcl_parse_remap_nodename_prefix rc else retA ()) (parse_rule_body rc)"

lemma after_peek2_transparent: "transparent (after_peek2 rc arg)"
  unfolding after_peek2_def by (intro transparentI)

lemma parse_rule_view:
  assumes "c_string arg" "copies_text rc" "\<not> cut_short arg"
  shows "rcl_parse_remap_rule rc arg = (case view (after_peek2 rc arg) (arg, rcl_get_zero_initialized_remap) of
     (Inl e, a) \<Rightarrow> Inl e | (Inr x, (s, r)) \<Rightarrow> Ok r)"
proof -
  obtain b where b: "rcl_lexer_lookahead2_peek2 (start_state arg) = (Ok (look arg, look (eat arg)), b)" "la_ok b"
    "sees b = (arg, rcl_get_zero_initialized_remap)" using peek2_start [OF assms(1,3)] by blast
  let ?P = "after_peek2 rc arg"
  have "agrees ?P b" using after_peek2_transparent b(2) by (simp add: transparent_def)
  moreover obtain x c where c: "?P b = (x, c)" by (cases "?P b")
  ultimately have v: "view ?P (arg, rcl_get_zero_initialized_remap) = (x, (rest c, rule c))"
    using b(3) by (simp add: agrees_def sees_def)
  have "rcl_parse_remap_begin_remap_rule rc (start_state arg) = (x, c)"
    using b(1) c by (simp add: rcl_parse_remap_begin_remap_rule_def bindA_eval after_peek2_def)
  then show ?thesis
    using copies_textD(2) [OF assms(2)] unfolding v rcl_parse_remap_rule_def start_state_def [symmetric]
    by (cases x) simp_all
qed

lemma parse_rule_Ok:
  assumes "c_string arg" "copies_text rc" "\<not> cut_short arg"
  shows "rcl_parse_remap_rule rc arg = Ok r \<longleftrightarrow>
    (\<exists>s. view (after_peek2 rc arg) (arg, rcl_get_zero_initialized_remap) = (Ok (), (s, r)))"
  unfolding parse_rule_view [OF assms] by (auto split: prod.splits sum.splits)

lemma zero_remap: "match rcl_get_zero_initialized_remap = None" "replacement rcl_get_zero_initialized_remap = None"
  "node_name rcl_get_zero_initialized_remap = None"
  by (simp_all add: rcl_get_zero_initialized_remap_def)

lemma parse_sound:
  assumes "c_string arg" "copies_text rc" "\<not> cut_short arg" "rcl_parse_remap_rule rc arg = Ok r"
  shows "rule_ok r \<and> rule_text r = arg"
proof -
  let ?z = rcl_get_zero_initialized_remap
  obtain s where v: "view (after_peek2 rc arg) (arg, ?z) = (Ok (), (s, r))"
    using parse_rule_Ok [OF assms(1-3)] assms(4) by blast
  show ?thesis
  proof (cases "look arg = RCL_LEXEME_TOKEN \<and> look (eat arg) = RCL_LEXEME_COLON")
    case False
    then have "view (parse_rule_body rc) (arg, ?z) = (Ok (), (s, r))"
      using v assms(1) by (auto simp: after_peek2_def view_seq_unit transparentI view_prim)
    from body_sound [OF assms(1,2) zero_remap(1,2) this] zero_remap(3) show ?thesis
      by (simp add: rule_ok_def rule_text_def)
  next
    case True
    obtain t where t: "token_word t" "arg = t @ '':'' @ eat (eat arg)"
      "view (rcl_parse_remap_nodename_prefix rc) (arg, ?z) = (Ok (), (eat (eat arg), ?z\<lparr> node_name := Some t \<rparr>))"
      using prefix_reads [OF assms(1,2)] True by blast
    then have "view (parse_rule_body rc) (eat (eat arg), ?z\<lparr> node_name := Some t \<rparr>) = (Ok (), (s, r))"
      using v True assms(1) by (auto simp: after_peek2_def view_seq_unit transparentI)
    moreover have "c_string (eat (eat arg))" using assms(1) by (simp add: eat_def c_string_drop)
    ultimately have "body_ok r \<and> eat (eat arg) = body_text r \<and> node_name r = Some t"
      using body_sound [of "eat (eat arg)" rc "?z\<lparr> node_name := Some t \<rparr>"] assms(2) zero_remap by simp
    with t show ?thesis by (simp add: rule_ok_def rule_text_def)
  qed
qed

lemma parse_complete:
  assumes "c_string arg" "copies_text rc" "rule_ok r" "rule_text r = arg"
  shows "\<not> cut_short arg \<and> rcl_parse_remap_rule rc arg = Ok r"
proof -
  let ?z = rcl_get_zero_initialized_remap
  have body: "body_ok r" using assms(3) by (simp add: rule_ok_def)
  show ?thesis
  proof (cases "node_name r")
    case None
    then have arg: "arg = body_text r" using assms(4) by (simp add: rule_text_def)
    then have ns: "\<not> cut_short arg" using body_look [OF body] spec_cut_short [of arg] by auto
    have "\<not> (look arg = RCL_LEXEME_TOKEN \<and> look (eat arg) = RCL_LEXEME_COLON)"
      using body_no_prefix [OF body] arg by auto
    then have "view (after_peek2 rc arg) (arg, ?z) = (Ok (), ([], r))"
      using body_complete [OF assms(1,2) zero_remap(1,2) body arg] zero_remap(3) None assms(1)
      by (auto simp: after_peek2_def view_seq_unit transparentI view_prim)
    then show ?thesis using ns parse_rule_Ok [OF assms(1,2) ns] by blast
  next
    case (Some t)
    have t: "token_word t" using assms(3) Some by (simp add: rule_ok_def)
    have arg: "arg = t @ CHR '':'' # body_text r" using assms(4) Some by (simp add: rule_text_def)
    have "ends_token (CHR '':'' # body_text r)" using body_start [OF body] by (simp add: ends_token_def)
    then have l1: "look arg = RCL_LEXEME_TOKEN" "eat arg = CHR '':'' # body_text r" using t arg by (simp_all add: token_lexes)
    then have l2: "look (eat arg) = RCL_LEXEME_COLON" "eat (eat arg) = body_text r"
      using spec_colon_alone body_start [OF body] by (simp_all add: eat_def [of "_ # _"])
    have ns: "\<not> cut_short arg" using l1 spec_cut_short [of arg] by auto
    obtain t' where "token_word t'" "arg = t' @ '':'' @ eat (eat arg)"
      "view (rcl_parse_remap_nodename_prefix rc) (arg, ?z) = (Ok (), (eat (eat arg), ?z\<lparr> node_name := Some t' \<rparr>))"
      using prefix_reads [OF assms(1,2) l1(1) l2(1)] by blast
    then have pre: "view (rcl_parse_remap_nodename_prefix rc) (arg, ?z) = (Ok (), (body_text r, ?z\<lparr> node_name := Some t \<rparr>))"
      using arg l2(2) by simp
    have c: "c_string (body_text r)" using assms(1) arg by simp
    have "view (parse_rule_body rc) (body_text r, ?z\<lparr> node_name := Some t \<rparr>) = (Ok (), ([], r))"
      using Some zero_remap by (intro body_complete [OF c assms(2) _ _ body]) simp_all
    then have "view (after_peek2 rc arg) (arg, ?z) = (Ok (), ([], r))"
      using pre l1 l2 assms(1) c by (simp add: after_peek2_def view_seq_unit transparentI)
    then show ?thesis using ns parse_rule_Ok [OF assms(1,2) ns] by blast
  qed
qed

lemma remap_rule_parses_iff:
  assumes "copies_text rc" "c_string arg"
  shows "rcl_parse_remap_rule rc arg = Ok r \<longleftrightarrow> rule_ok r \<and> rule_text r = arg"
proof (cases "cut_short arg")
  case False
  then show ?thesis using parse_sound parse_complete assms by blast
next
  case True
  obtain b where "rcl_lexer_lookahead2_peek2 (start_state arg) = (Err (Undefined_behaviour ''read behind the end of a string''), b)"
    using peek2_cut_short [OF assms(2) True] by blast
  then have "rcl_parse_remap_rule rc arg \<noteq> Ok r"
    using copies_textD(2) [OF assms(1)]
    by (simp add: rcl_parse_remap_rule_def rcl_parse_remap_begin_remap_rule_def start_state_def bindA_eval)
  with parse_complete [OF assms(2,1)] True show ?thesis by blast
qed

text \<open>C9.
  The parser of remap rules accepts exactly the rules of the grammar and returns the rule
  that was written: an argument parses to the rule \<open>r\<close> if and only if \<open>r\<close> is well formed (an
  optional node name, and a node name, namespace, topic, service or name rule made of
  name tokens) and the argument is the text of \<open>r\<close>. So parsing inverts printing, and no two
  texts stand for the same rule.\<close>

theorem remap_rule_parses_grammar:
  assumes "copies_text rc" "c_string arg"
  shows "rcl_parse_remap_rule rc arg = Ok r \<longleftrightarrow> rule_ok r \<and> rule_text r = arg"
  by (rule remap_rule_parses_iff [OF assms])

text \<open>A world in which memory is available.\<close>

definition plain_rcutils :: rcutils where
  "plain_rcutils = \<lparr> alloc_ok = (\<lambda>_. True), strndup = (\<lambda>s n. Some (take n s)) \<rparr>"

lemma plain_copies: "copies_text plain_rcutils"
  by (simp add: copies_text_def plain_rcutils_def)

definition demo_rule :: rcl_remap_impl_t where
  "demo_rule = \<lparr> remap_type = RCL_TOPIC_REMAP, node_name = Some ''n1'', match = Some ''/a/b_'', replacement = Some ''~/c'' \<rparr>"

lemma demo_names: "rule_name ''/a/b_''" "rule_name ''~/c''" "token_word ''n1''"
proof -
  have t: "token_word ''a''" "token_word ''b_''" "token_word ''c''" "token_word ''n1''"
    by (simp_all add: token_word_Cons letter_def alnum_def in_range_def)
  show "rule_name ''/a/b_''" unfolding rule_name_def
    using t by (intro exI [of _ "''/''"] exI [of _ "''a''"] exI [of _ "[''b_'']"]) simp
  show "rule_name ''~/c''" unfolding rule_name_def
    using t by (intro exI [of _ "''~/''"] exI [of _ "''c''"] exI [of _ "[]"]) simp
  show "token_word ''n1''" by (rule t)
qed

theorem remap_rule_parses_grammar_witness:
  "rcl_parse_remap_rule plain_rcutils ''n1:rostopic:///a/b_:=~/c'' = Ok demo_rule"
  using remap_rule_parses_grammar [OF plain_copies, of "''n1:rostopic:///a/b_:=~/c''" demo_rule] demo_names
  by (simp add: rule_ok_def rule_text_def body_ok_def body_text_def url_scheme_def demo_rule_def)

subsection \<open>Where the parser is undefined\<close>

definition stays_defined :: "(parse_state, 'a) act \<Rightarrow> bool" where
  "stays_defined P \<longleftrightarrow> (\<forall>s r. c_string s \<longrightarrow> \<not> ub_result (fst (view P (s, r))))"

lemma defined_bind:
  assumes "transparent m" "\<And>x. transparent (f x)" "stays_defined m" "\<And>x. stays_defined (f x)"
  shows "stays_defined (bindA m f)"
  unfolding stays_defined_def
proof (intro allI impI)
  fix s r
  assume c: "c_string s"
  show "\<not> ub_result (fst (view (bindA m f) (s, r)))"
  proof (cases "view m (s, r)")
    case (fields x s' r')
    then have "c_string s'" "\<not> ub_result x"
      using view_ok_string [OF agrees_mk [OF assms(1) c]] assms(3) c unfolding stays_defined_def by (blast, metis fst_conv)
    with fields assms(4) show ?thesis
      unfolding view_bind [OF assms(1,2) c] by (cases x) (simp_all add: stays_defined_def)
  qed
qed

lemma defined_seq:
  "transparent m \<Longrightarrow> transparent n \<Longrightarrow> stays_defined m \<Longrightarrow> stays_defined n \<Longrightarrow> stays_defined (seqA m n)"
  unfolding seqA_def by (rule defined_bind)

lemma defined_parts:
  "stays_defined (retA x)" "stays_defined (set_type t)" "stays_defined rcl_lexer_lookahead2_get_text"
  "ty \<noteq> RCL_LEXEME_NONE \<Longrightarrow> stays_defined (expect_in_rule ty)"
  "ty \<noteq> RCL_LEXEME_NONE \<Longrightarrow> stays_defined (rcl_lexer_lookahead2_expect ty)"
  "copies_text rc \<Longrightarrow> stays_defined (store_between rc p msg put)"
  by (auto simp: stays_defined_def view_prim set_type_view view_expect_in_rule view_expect store_view)

lemma defined_names:
  assumes "copies_text rc"
  shows "stays_defined (name_then rcl_parse_remap_replacement_token replacement_loop (store_between rc p msg put))"
    "stays_defined (name_then rcl_parse_remap_match_token match_loop (store_between rc p msg put))"
  unfolding stays_defined_def using assms
  by (intro allI impI replacement_names.name_then_defined match_names.name_then_defined store_transparent;
      simp add: store_view)+

lemma defined_replacement: "copies_text rc \<Longrightarrow> stays_defined (rcl_parse_remap_replacement_name rc)"
  unfolding replacement_name_eq
  by (intro defined_bind transparentI replacement_names.name_then_transparent defined_parts defined_names)

lemma defined_match:
  assumes "copies_text rc"
  shows "stays_defined (rcl_parse_remap_match_name rc)"
  unfolding stays_defined_def
proof (intro allI impI)
  fix s r
  assume c: "c_string s"
  then have "c_string (after_scheme s)" by (simp add: after_scheme_def eat_def c_string_drop)
  with defined_names(2) [OF assms] show "\<not> ub_result (fst (view (rcl_parse_remap_match_name rc) (s, r)))"
    unfolding match_view [OF c] stays_defined_def by blast
qed

lemma defined_name_remap: "copies_text rc \<Longrightarrow> stays_defined (rcl_parse_remap_name_remap rc)"
  unfolding rcl_parse_remap_name_remap_def
  by (intro defined_seq transparentI defined_match defined_parts defined_replacement) simp_all

lemma defined_namespace: "copies_text rc \<Longrightarrow> stays_defined (rcl_parse_remap_namespace_replacement rc)"
proof -
  assume rc: "copies_text rc"
  have "stays_defined rcl_parse_remap_fully_qualified_namespace"
    unfolding stays_defined_def
    using namespace_defined [OF c_string_drop lessI] by (auto simp: fully_qualified_view eat_def)
  with rc show ?thesis unfolding namespace_rule_eq
    by (intro defined_seq defined_bind transparentI defined_parts) simp_all
qed

lemma defined_nodename: "copies_text rc \<Longrightarrow> stays_defined (rcl_parse_remap_nodename_replacement rc)"
proof -
  assume rc: "copies_text rc"
  have "stays_defined (bindA (liftA (copy_lexeme rc lx)) (\<lambda>s.
         seqA (modA (\<lambda>b. b\<lparr> rule := (rule b)\<lparr> replacement := Some s \<rparr> \<rparr>)) (set_type RCL_NODENAME_REMAP)))" for lx
    using rc by (intro defined_bind defined_seq transparentI defined_parts)
      (auto simp: stays_defined_def view_prim view_rule copy_lexeme_def copies_textD)
  moreover have "stays_defined (codeA (rcl_lexer_lookahead2_expect RCL_LEXEME_TOKEN))"
    by (simp add: stays_defined_def view_code_expect)
  ultimately show ?thesis unfolding rcl_parse_remap_nodename_replacement_def
    by (intro defined_seq defined_bind transparentI defined_parts)
      (auto split: sum.split simp: stays_defined_def view_prim)
qed

lemma defined_body: "copies_text rc \<Longrightarrow> stays_defined (parse_rule_body rc)"
proof -
  assume rc: "copies_text rc"
  have "stays_defined (seqA (if l = RCL_LEXEME_NODE then rcl_parse_remap_nodename_replacement rc
          else if l = RCL_LEXEME_NS then rcl_parse_remap_namespace_replacement rc
          else rcl_parse_remap_name_remap rc) (expect_in_rule RCL_LEXEME_EOF))" for l
    using rc defined_nodename defined_namespace defined_name_remap
    by (intro defined_seq transparentI defined_parts) simp_all
  then show ?thesis by (simp add: parse_rule_body_def stays_defined_def view_peek)
qed

lemma remap_rule_defined:
  assumes "copies_text rc" "c_string arg" "\<not> cut_short arg"
  shows "\<not> ub_result (rcl_parse_remap_rule rc arg)"
proof -
  let ?z = rcl_get_zero_initialized_remap
  have "\<not> ub_result (fst (view (after_peek2 rc arg) (arg, ?z)))"
  proof (cases "look arg = RCL_LEXEME_TOKEN \<and> look (eat arg) = RCL_LEXEME_COLON")
    case True
    then obtain t where "view (rcl_parse_remap_nodename_prefix rc) (arg, ?z) = (Ok (), (eat (eat arg), ?z\<lparr> node_name := Some t \<rparr>))"
      using prefix_reads [OF assms(2,1)] by blast
    moreover have "c_string (eat (eat arg))" using assms(2) by (simp add: eat_def c_string_drop)
    ultimately show ?thesis
      using True defined_body [OF assms(1)] assms(2)
      by (simp add: after_peek2_def seqA_def view_bind transparentI stays_defined_def)
  next
    case False
    then show ?thesis
      using defined_body [OF assms(1)] assms(2)
      by (auto simp: after_peek2_def seqA_def view_bind transparentI stays_defined_def view_prim)
  qed
  then show ?thesis
    unfolding parse_rule_view [OF assms(2,1,3)] by (auto split: prod.split sum.split)
qed

text \<open>The parser of remap rules reads behind the end of the argument on exactly six arguments
  (\<open>~\<close>, a single backslash, \<open>__\<close>, \<open>__n\<close>, \<open>__no\<close>, \<open>__nod\<close>): the lookahead buffer takes the length
  of an unfinished word, which counts the terminating zero, as the start of the second
  lexeme. On every other argument the parser stays inside the text, its loops end within
  their bounds, and it returns a rule or an error code.\<close>

theorem remap_rule_undefined_iff:
  assumes "copies_text rc" "c_string arg"
  shows "ub_result (rcl_parse_remap_rule rc arg) \<longleftrightarrow>
    arg \<in> {''~'', [CHR 0x5C], ''__'', ''__n'', ''__no'', ''__nod''}"
proof (cases "cut_short arg")
  case True
  then obtain b where "rcl_lexer_lookahead2_peek2 (start_state arg) = (Err (Undefined_behaviour ''read behind the end of a string''), b)"
    using peek2_cut_short [OF assms(2)] by blast
  then have "ub_result (rcl_parse_remap_rule rc arg)"
    using copies_textD(2) [OF assms(1)]
    by (simp add: rcl_parse_remap_rule_def rcl_parse_remap_begin_remap_rule_def start_state_def bindA_eval)
  with True show ?thesis by (simp add: cut_short_def)
next
  case False
  with remap_rule_defined [OF assms False] show ?thesis by (simp add: cut_short_def)
qed

theorem remap_rule_undefined_iff_witness: "ub_result (rcl_parse_remap_rule plain_rcutils ''__nod'')"
  using remap_rule_undefined_iff [OF plain_copies, of "''__nod''"] by simp

text \<open>After \<open>peek2\<close> and \<open>accept\<close> the lookahead buffer keeps the second lexeme in both slots, so that
  the next \<open>peek2\<close> returns the same lexeme twice instead of the two that follow. (The parser
  calls \<open>peek2\<close> once, at the start of an argument.)\<close>

theorem peek2_after_accept_repeats:
  assumes "c_string text" "look text \<noteq> RCL_LEXEME_NONE" "look text \<noteq> RCL_LEXEME_EOF" "look (eat text) \<noteq> RCL_LEXEME_EOF"
  shows "\<exists>b. bindA rcl_lexer_lookahead2_peek2 (\<lambda>_. seqA rcl_lexer_lookahead2_accept rcl_lexer_lookahead2_peek2)
      (start_state text) = (Ok (look (eat text), look (eat text)), b)"
proof -
  have ns: "\<not> cut_short text" using assms(2) spec_cut_short [of "text"] by auto
  obtain b where b: "rcl_lexer_lookahead2_peek2 (start_state text) = (Ok (look text, look (eat text)), b)" "la_ok b"
    "sees b = (text, rcl_get_zero_initialized_remap)" "peeked b" "text_idx b = 0" "type1 b = look (eat text)"
    "end1 b = end0 b + snd (lexeme_spec (eat text))"
    using peek2_start [OF assms(1) ns] by blast
  have "rest b = text" using b(3) by (simp add: sees_def)
  then have t: "type0 b = look text" "end0 b = snd (lexeme_spec text)" using b(4,5) by (auto simp: peeked_def)
  have "0 < snd (lexeme_spec text)" using spec_accepts [of "text"] assms(2,3) by (metis gr0I prod.collapse)
  moreover have "eat text \<noteq> []" using assms(4) look_EOF by blast
  then have "0 < snd (lexeme_spec (eat text))"
    using spec_length [of "eat text"] spec_cut_short [of "eat text"] by (cases "cut_short (eat text)") (auto simp: prod_eq_iff)
  ultimately show ?thesis
    using b t assms(3) by (simp add: act_simps rcl_lexer_lookahead2_accept_def rcl_lexer_lookahead2_peek2_def [abs_def]
        rcl_lexer_lookahead2_peek_def)
qed

theorem peek2_after_accept_repeats_witness:
  "\<exists>b. bindA rcl_lexer_lookahead2_peek2 (\<lambda>_. seqA rcl_lexer_lookahead2_accept rcl_lexer_lookahead2_peek2)
      (start_state ''/foo'') = (Ok (RCL_LEXEME_TOKEN, RCL_LEXEME_TOKEN), b)"
proof -
  have e: "eat ''/foo'' = ''foo''" by (simp add: eat_def)
  have "token_word ''foo''" by (simp add: token_word_Cons letter_def alnum_def in_range_def)
  from token_lexes [OF this, of "[]"] have "look ''foo'' = RCL_LEXEME_TOKEN" by simp
  then show ?thesis using peek2_after_accept_repeats [of "''/foo''"] e by simp
qed

end
