(* ===== verification/RclArguments.thy ===== *)
theory RclArguments
  imports RemapGrammar
begin

text \<open>
  Command line arguments (\<open>rcl/src/rcl/arguments.c\<close>): the recognition of parameter files, remap
  rules and logging options, the loop of \<open>rcl_parse_arguments\<close> over them, the indices of the
  arguments that are left, their removal, and the copy of parsed arguments. The end of the
  theory shows that every argument is either used or left over, in order.
\<close>

section \<open>Parsed arguments\<close>

record rcl_arguments_impl_t =
  unparsed_args :: "nat list"
  parameter_files :: "string list"
  remap_rules :: "rcl_remap_impl_t list"
  log_level :: int
  external_log_config_file :: "string option"
  log_stdout_disabled :: bool
  log_rosout_disabled :: bool
  log_ext_lib_disabled :: bool

text \<open>Besides the copy of strings, the parser uses the table of severity names and the bounded
  formatting of a string from rcutils.\<close>

record arg_env = rcutils +
  severity_level_from_string :: "string \<Rightarrow> int option"
  format_string_limit :: "nat \<Rightarrow> string \<Rightarrow> string option"

section \<open>The kinds of arguments\<close>

text \<open>\<open>strncmp(key, arg, strlen(key)) == 0\<close>, and the pointer behind the key.\<close>

definition behind :: "string \<Rightarrow> string \<Rightarrow> string option" where
  "behind key arg = (if starts key arg then Some (drop (length key) arg) else None)"

definition rcl_parse_param_file_rule :: "'a arg_env_scheme \<Rightarrow> string \<Rightarrow> string res" where
  "rcl_parse_param_file_rule env arg =
     (case behind ''__params:='' arg of
        None \<Rightarrow> Err (RCLError RCL_RET_INVALID_PARAM_RULE ''Argument does not start with __params:='')
      | Some file \<Rightarrow>
          if alloc_ok env ''param_file'' then Ok file
          else Err (RCLError RCL_RET_BAD_ALLOC ''Failed to allocate memory for parameters file path''))"

definition rcl_parse_log_level_rule :: "'a arg_env_scheme \<Rightarrow> string \<Rightarrow> int res" where
  "rcl_parse_log_level_rule env arg =
     (case behind ''__log_level:='' arg of
        None \<Rightarrow> Err (RCLError RCL_RET_INVALID_LOG_LEVEL_RULE ''Argument does not start with __log_level:='')
      | Some level \<Rightarrow>
          (case severity_level_from_string env level of
             Some l \<Rightarrow> Ok l
           | None \<Rightarrow> Err (RCLError RCL_RET_INVALID_LOG_LEVEL_RULE ''Argument does not use a valid severity level'')))"

text \<open>The return code and the new value of \<open>*log_config_file\<close>.\<close>

definition rcl_parse_external_log_config_file ::
  "'a arg_env_scheme \<Rightarrow> string \<Rightarrow> string option \<Rightarrow> rcl_ret \<times> string option" where
  "rcl_parse_external_log_config_file env arg log_config_file =
     (case behind ''__log_config_file:='' arg of
        None \<Rightarrow> (RCL_RET_INVALID_PARAM_RULE, log_config_file)
      | Some file \<Rightarrow>
          (case format_string_limit env (length file) file of
             None \<Rightarrow> (RCL_RET_BAD_ALLOC, None)
           | Some s \<Rightarrow> (RCL_RET_OK, Some s)))"

definition true_values :: "string list" where
  "true_values = [''y'', ''Y'', ''yes'', ''Yes'', ''t'', ''T'', ''true'', ''True'', ''1'']"

definition false_values :: "string list" where
  "false_values = [''n'', ''N'', ''no'', ''No'', ''f'', ''F'', ''false'', ''False'', ''0'']"

definition atob :: "string \<Rightarrow> bool res" where
  "atob str =
     (if list_ex (\<lambda>v. starts v str) true_values then Ok True
      else if list_ex (\<lambda>v. starts v str) false_values then Ok False
      else Err (RCLError RCL_RET_ERROR ''''))"

definition rcl_parse_bool_arg :: "string \<Rightarrow> string \<Rightarrow> bool res" where
  "rcl_parse_bool_arg arg key =
     (case behind key arg of
        Some str \<Rightarrow> atob str
      | None \<Rightarrow> Err (RCLError RCL_RET_INVALID_PARAM_RULE ''Argument does not start with key''))"

section \<open>The loop over the arguments\<close>

text \<open>
  The three boolean options, the last attempts of the loop body: the settings after the
  argument, or nothing if it is none of them.
\<close>

definition parse_flags :: "string \<Rightarrow> rcl_arguments_impl_t \<Rightarrow> rcl_arguments_impl_t option" where
  "parse_flags arg impl =
     (case rcl_parse_bool_arg arg ''__log_disable_stdout:='' of
        Inr b \<Rightarrow> Some (impl\<lparr> log_stdout_disabled := b \<rparr>)
      | Inl _ \<Rightarrow>
     (case rcl_parse_bool_arg arg ''__log_disable_rosout:='' of
        Inr b \<Rightarrow> Some (impl\<lparr> log_rosout_disabled := b \<rparr>)
      | Inl _ \<Rightarrow>
     (case rcl_parse_bool_arg arg ''__log_disable_external_lib:='' of
        Inr b \<Rightarrow> Some (impl\<lparr> log_ext_lib_disabled := b \<rparr>)
      | Inl _ \<Rightarrow> None)))"

text \<open>One round of the loop: the attempts in order; a failed attempt only resets the error state,
  except that reading behind the argument is undefined.\<close>

definition parse_argument :: "'a arg_env_scheme \<Rightarrow> nat \<Rightarrow> string \<Rightarrow> rcl_arguments_impl_t \<Rightarrow> rcl_arguments_impl_t res" where
  "parse_argument env i arg impl =
     (case rcl_parse_param_file_rule env arg of
        Inr file \<Rightarrow> Ok (impl\<lparr> parameter_files := parameter_files impl @ [file] \<rparr>)
      | Inl _ \<Rightarrow>
     (case rcl_parse_remap_rule (rcutils.truncate env) arg of
        Inr r \<Rightarrow> Ok (impl\<lparr> remap_rules := remap_rules impl @ [r] \<rparr>)
      | Inl e \<Rightarrow>
     if ub e then Err e
     else
     (case rcl_parse_log_level_rule env arg of
        Inr l \<Rightarrow> Ok (impl\<lparr> log_level := l \<rparr>)
      | Inl _ \<Rightarrow>
     (case rcl_parse_external_log_config_file env arg (external_log_config_file impl) of (ret, file) \<Rightarrow>
     let impl = impl\<lparr> external_log_config_file := file \<rparr>
     in if ret = RCL_RET_OK then Ok impl
        else (case parse_flags arg impl of
               Some impl' \<Rightarrow> Ok impl'
             | None \<Rightarrow> Ok (impl\<lparr> unparsed_args := unparsed_args impl @ [i] \<rparr>))))))"

fun parse_arguments_loop :: "'a arg_env_scheme \<Rightarrow> nat \<Rightarrow> string list \<Rightarrow> rcl_arguments_impl_t \<Rightarrow> rcl_arguments_impl_t res" where
  "parse_arguments_loop env i [] impl = Ok impl"
| "parse_arguments_loop env i (arg # argv) impl =
     bindR (parse_argument env i arg impl) (parse_arguments_loop env (Suc i) argv)"

definition empty_arguments :: rcl_arguments_impl_t where
  "empty_arguments = \<lparr> unparsed_args = [], parameter_files = [], remap_rules = [], log_level = -1,
     external_log_config_file = None, log_stdout_disabled = False, log_rosout_disabled = False,
     log_ext_lib_disabled = False \<rparr>"

text \<open>The arrays are allocated for \<open>argc\<close> elements and shrunk to their length at the end.\<close>

definition rcl_parse_arguments :: "'a arg_env_scheme \<Rightarrow> string list \<Rightarrow> rcl_arguments_impl_t res" where
  "rcl_parse_arguments env argv =
     (if \<not> alloc_ok env ''rcl_arguments_impl_t'' then Err (RCLError RCL_RET_BAD_ALLOC '''')
      else if argv = [] then Ok empty_arguments
      else if \<not> alloc_ok env ''remap_rules'' \<or> \<not> alloc_ok env ''unparsed_args'' \<or> \<not> alloc_ok env ''parameter_files''
      then Err (RCLError RCL_RET_BAD_ALLOC '''')
      else bindR (parse_arguments_loop env 0 argv empty_arguments) (\<lambda>impl.
        if remap_rules impl \<noteq> [] \<and> \<not> alloc_ok env ''shrink remap_rules''
        then Err (RCLError RCL_RET_BAD_ALLOC '''')
        else if parameter_files impl \<noteq> [] \<and> length (parameter_files impl) < length argv \<and>
             \<not> alloc_ok env ''shrink parameter_files''
        then Err (RCLError RCL_RET_BAD_ALLOC '''')
        else if unparsed_args impl \<noteq> [] \<and> length (unparsed_args impl) < length argv \<and>
             \<not> alloc_ok env ''shrink unparsed_args''
        then Err (RCLError RCL_RET_BAD_ALLOC '''')
        else Ok impl))"

definition rcl_arguments_get_count_unparsed :: "rcl_arguments_impl_t option \<Rightarrow> int" where
  "rcl_arguments_get_count_unparsed args =
     (case args of None \<Rightarrow> -1 | Some impl \<Rightarrow> int (length (unparsed_args impl)))"

definition rcl_arguments_get_unparsed :: "'a arg_env_scheme \<Rightarrow> rcl_arguments_impl_t option \<Rightarrow> nat list res" where
  "rcl_arguments_get_unparsed env args =
     (case args of
        None \<Rightarrow> Err (RCLError RCL_RET_INVALID_ARGUMENT ''args->impl argument is null'')
      | Some impl \<Rightarrow>
          if unparsed_args impl \<noteq> [] \<and> \<not> alloc_ok env ''output_unparsed_indices''
          then Err (RCLError RCL_RET_BAD_ALLOC '''')
          else Ok (unparsed_args impl))"

definition argv_at :: "string list \<Rightarrow> nat \<Rightarrow> string res" where
  "argv_at argv i = (if i < length argv then Ok (argv ! i) else Err (Undefined_behaviour ''argv index''))"

fun collect :: "string list \<Rightarrow> nat list \<Rightarrow> string list res" where
  "collect argv [] = Ok []"
| "collect argv (i # js) = bindR (argv_at argv i) (\<lambda>a. bindR (collect argv js) (\<lambda>as. Ok (a # as)))"

definition rcl_remove_ros_arguments :: "'a arg_env_scheme \<Rightarrow> string list \<Rightarrow> rcl_arguments_impl_t option \<Rightarrow> string list res" where
  "rcl_remove_ros_arguments env argv args =
     (if rcl_arguments_get_count_unparsed args \<le> 0 then Err (RCLError RCL_RET_INVALID_ARGUMENT '''')
      else bindR (rcl_arguments_get_unparsed env args) (\<lambda>unparsed_indices.
        if \<not> alloc_ok env ''nonros_argv'' then Err (RCLError RCL_RET_BAD_ALLOC '''')
        else collect argv unparsed_indices))"

text \<open>
  The copy: \<open>strdup\<close> is \<open>rcutils_strdup\<close>, \<open>junk\<close> the indeterminate content of the new structure; the
  logging settings are not assigned.
\<close>

definition strdup :: "'a rcutils_scheme \<Rightarrow> string \<Rightarrow> string option" where
  "strdup rc s = strndup rc s (length s)"

definition dup_opt :: "'a rcutils_scheme \<Rightarrow> string option \<Rightarrow> string option res" where
  "dup_opt rc x =
     (case x of None \<Rightarrow> Ok None
      | Some s \<Rightarrow> (case strdup rc s of None \<Rightarrow> Err (RCLError RCL_RET_BAD_ALLOC '''') | Some t \<Rightarrow> Ok (Some t)))"

definition rcl_remap_copy :: "'a rcutils_scheme \<Rightarrow> rcl_remap_impl_t \<Rightarrow> rcl_remap_impl_t res" where
  "rcl_remap_copy rc r =
     (if \<not> alloc_ok rc ''rcl_remap_impl_t'' then Err (RCLError RCL_RET_BAD_ALLOC '''')
      else bindR (dup_opt rc (node_name r)) (\<lambda>n. bindR (dup_opt rc (match r)) (\<lambda>m.
           bindR (dup_opt rc (replacement r)) (\<lambda>p.
           Ok \<lparr> remap_type = remap_type r, node_name = n, match = m, replacement = p \<rparr>))))"

fun mapR :: "('a \<Rightarrow> 'b res) \<Rightarrow> 'a list \<Rightarrow> 'b list res" where
  "mapR f [] = Ok []"
| "mapR f (x # xs) = bindR (f x) (\<lambda>y. bindR (mapR f xs) (\<lambda>ys. Ok (y # ys)))"

definition rcl_arguments_copy ::
  "'a arg_env_scheme \<Rightarrow> rcl_arguments_impl_t \<Rightarrow> rcl_arguments_impl_t option \<Rightarrow> rcl_arguments_impl_t \<Rightarrow> rcl_arguments_impl_t res" where
  "rcl_arguments_copy env args args_out junk =
     (if args_out \<noteq> None then Err (RCLError RCL_RET_INVALID_ARGUMENT ''args_out must be zero initialized'')
      else if \<not> alloc_ok env ''rcl_arguments_impl_t'' then Err (RCLError RCL_RET_BAD_ALLOC '''')
      else if unparsed_args args \<noteq> [] \<and> \<not> alloc_ok env ''unparsed_args'' then Err (RCLError RCL_RET_BAD_ALLOC '''')
      else if remap_rules args \<noteq> [] \<and> \<not> alloc_ok env ''remap_rules'' then Err (RCLError RCL_RET_BAD_ALLOC '''')
      else bindR (mapR (rcl_remap_copy env) (remap_rules args)) (\<lambda>rules.
        if parameter_files args \<noteq> [] \<and> \<not> alloc_ok env ''parameter_files'' then Err (RCLError RCL_RET_BAD_ALLOC '''')
        else bindR (mapR (\<lambda>f. case strdup env f of None \<Rightarrow> Err (RCLError RCL_RET_BAD_ALLOC '''') | Some s \<Rightarrow> Ok s)
                     (parameter_files args)) (\<lambda>files.
        Ok (junk\<lparr> unparsed_args := unparsed_args args, remap_rules := rules, parameter_files := files \<rparr>))))"

section \<open>What is used and what is left\<close>

text \<open>Memory is available, and the formatting of a file name gives a string.\<close>

definition env_ok :: "'a arg_env_scheme \<Rightarrow> bool" where
  "env_ok env \<longleftrightarrow> copies_text (rcutils.truncate env) \<and> (\<forall>n f. format_string_limit env n f \<noteq> None)"

definition rule_argument :: "string \<Rightarrow> bool" where
  "rule_argument arg \<longleftrightarrow> \<not> starts ''__params:='' arg \<and> (\<exists>r. rule_ok r \<and> rule_text r = arg)"

definition flag_argument :: "string \<Rightarrow> bool" where
  "flag_argument arg \<longleftrightarrow> list_ex (\<lambda>key. is_ok (rcl_parse_bool_arg arg key))
     [''__log_disable_stdout:='', ''__log_disable_rosout:='', ''__log_disable_external_lib:='']"

definition ros_argument :: "'a arg_env_scheme \<Rightarrow> string \<Rightarrow> bool" where
  "ros_argument env arg \<longleftrightarrow> starts ''__params:='' arg \<or> rule_argument arg \<or> is_ok (rcl_parse_log_level_rule env arg) \<or>
     starts ''__log_config_file:='' arg \<or> flag_argument arg"

lemma env_okD:
  assumes "env_ok env"
  shows "alloc_ok env site" "format_string_limit env n f \<noteq> None" "copies_text (rcutils.truncate env)"
  using assms copies_textD(2) [of "rcutils.truncate env" site]
  by (simp_all add: env_ok_def rcutils.defs)

lemma parse_flags_iff:
  "(case parse_flags arg impl of None \<Rightarrow> \<not> flag_argument arg
    | Some impl' \<Rightarrow> flag_argument arg \<and> unparsed_args impl' = unparsed_args impl \<and>
        parameter_files impl' = parameter_files impl \<and> remap_rules impl' = remap_rules impl)"
  by (auto simp: parse_flags_def flag_argument_def split: sum.splits)

lemma config_file_set:
  assumes "\<And>n f. format_string_limit env n f \<noteq> None" "starts ''__log_config_file:='' arg"
  shows "\<exists>s. rcl_parse_external_log_config_file env arg x = (RCL_RET_OK, Some s)"
proof -
  obtain f where f: "arg = ''__log_config_file:='' @ f" using assms(2) by (auto simp: starts_append)
  then have "behind ''__log_config_file:='' arg = Some f" by (simp add: behind_def)
  then show ?thesis using assms(1) [of "length f" f] by (auto simp: rcl_parse_external_log_config_file_def)
qed

text \<open>What one argument adds to the arrays.\<close>

lemma parse_argument_adds:
  assumes "env_ok env" "c_string arg" "\<not> cut_short arg"
  shows "\<exists>impl'. parse_argument env i arg impl = Ok impl' \<and>
    unparsed_args impl' = unparsed_args impl @ (if ros_argument env arg then [] else [i]) \<and>
    (\<exists>fs. parameter_files impl' = parameter_files impl @ fs \<and>
       map (\<lambda>f. ''__params:='' @ f) fs = (if starts ''__params:='' arg then [arg] else [])) \<and>
    (\<exists>rs. remap_rules impl' = remap_rules impl @ rs \<and> list_all rule_ok rs \<and>
       map rule_text rs = (if rule_argument arg then [arg] else []))"
proof -
  note env = env_okD [OF assms(1)]
  have parse: "rcl_parse_remap_rule (rcutils.truncate env) arg = Ok r \<longleftrightarrow> rule_ok r \<and> rule_text r = arg" for r
    by (rule remap_rule_parses_iff [OF env(3) assms(2)])
  have defined: "\<not> ub_result (rcl_parse_remap_rule (rcutils.truncate env) arg)"
    by (rule remap_rule_defined [OF env(3) assms(2,3)])
  show ?thesis
  proof (cases "starts ''__params:='' arg")
    case True
    then obtain f where f: "arg = ''__params:='' @ f" by (auto simp: starts_append)
    then have "behind ''__params:='' arg = Some f" by (simp add: behind_def)
    moreover have "\<not> rule_argument arg" "ros_argument env arg"
      using True by (auto simp: rule_argument_def ros_argument_def)
    ultimately show ?thesis using True env(1) f
      by (auto simp: parse_argument_def rcl_parse_param_file_rule_def intro!: exI [of _ "[f]"])
  next
    case no_file: False
    then have nf: "\<exists>e. rcl_parse_param_file_rule env arg = Err e" by (simp add: rcl_parse_param_file_rule_def behind_def)
    show ?thesis
    proof (cases "rcl_parse_remap_rule (rcutils.truncate env) arg")
      case (Inr r)
      then have "rule_argument arg" "rule_ok r" "rule_text r = arg" using parse no_file by (auto simp: rule_argument_def)
      moreover from this have "ros_argument env arg" by (simp add: ros_argument_def)
      ultimately show ?thesis using nf Inr no_file by (auto simp: parse_argument_def intro!: exI [of _ "[r]"])
    next
      case (Inl e)
      then have no_rule: "\<not> rule_argument arg" "\<not> ub e"
        using parse defined by (auto simp: rule_argument_def)
      show ?thesis
      proof (cases "starts ''__log_config_file:='' arg")
        case True
        then obtain s where "rcl_parse_external_log_config_file env arg (external_log_config_file impl) = (RCL_RET_OK, Some s)"
          using config_file_set [OF env(2)] by blast
        with True nf Inl no_rule no_file show ?thesis
          by (cases "rcl_parse_log_level_rule env arg") (auto simp: parse_argument_def ros_argument_def)
      next
        case False
        then have "rcl_parse_external_log_config_file env arg x = (RCL_RET_INVALID_PARAM_RULE, x)" for x
          by (simp add: rcl_parse_external_log_config_file_def behind_def)
        with False nf Inl no_rule no_file parse_flags_iff [of arg impl] show ?thesis
          by (cases "rcl_parse_log_level_rule env arg")
            (auto simp: parse_argument_def ros_argument_def split: option.splits)
      qed
    qed
  qed
qed

lemma parse_loop_adds:
  assumes "env_ok env" "list_all (\<lambda>a. c_string a \<and> \<not> cut_short a) argv"
  shows "\<exists>impl'. parse_arguments_loop env i argv impl = Ok impl' \<and>
    unparsed_args impl' = unparsed_args impl @ map fst (filter (\<lambda>(j, a). \<not> ros_argument env a) (enumerate i argv)) \<and>
    (\<exists>fs. parameter_files impl' = parameter_files impl @ fs \<and>
       map (\<lambda>f. ''__params:='' @ f) fs = filter (starts ''__params:='') argv) \<and>
    (\<exists>rs. remap_rules impl' = remap_rules impl @ rs \<and> list_all rule_ok rs \<and> map rule_text rs = filter rule_argument argv)"
  using assms(2)
proof (induction argv arbitrary: i impl)
  case (Cons arg argv)
  then have a: "c_string arg" "\<not> cut_short arg" by simp_all
  obtain impl1 fs1 rs1 where 1: "parse_argument env i arg impl = Ok impl1"
    "unparsed_args impl1 = unparsed_args impl @ (if ros_argument env arg then [] else [i])"
    "parameter_files impl1 = parameter_files impl @ fs1"
    "map (\<lambda>f. ''__params:='' @ f) fs1 = (if starts ''__params:='' arg then [arg] else [])"
    "remap_rules impl1 = remap_rules impl @ rs1" "list_all rule_ok rs1"
    "map rule_text rs1 = (if rule_argument arg then [arg] else [])"
    using parse_argument_adds [OF assms(1) a] by blast
  have "list_all (\<lambda>a. c_string a \<and> \<not> cut_short a) argv" using Cons.prems by simp
  from Cons.IH [OF this, of "Suc i" impl1] obtain impl2 fs2 rs2 where 2:
    "parse_arguments_loop env (Suc i) argv impl1 = Ok impl2"
    "unparsed_args impl2 = unparsed_args impl1 @ map fst (filter (\<lambda>(j, a). \<not> ros_argument env a) (enumerate (Suc i) argv))"
    "parameter_files impl2 = parameter_files impl1 @ fs2" "map (\<lambda>f. ''__params:='' @ f) fs2 = filter (starts ''__params:='') argv"
    "remap_rules impl2 = remap_rules impl1 @ rs2" "list_all rule_ok rs2" "map rule_text rs2 = filter rule_argument argv"
    by blast
  have "\<exists>fs. parameter_files impl2 = parameter_files impl @ fs \<and>
      map (\<lambda>f. ''__params:='' @ f) fs = filter (starts ''__params:='') (arg # argv)"
    using 1(3,4) 2(3,4) by (intro exI [of _ "fs1 @ fs2"]) auto
  moreover have "\<exists>rs. remap_rules impl2 = remap_rules impl @ rs \<and> list_all rule_ok rs \<and>
      map rule_text rs = filter rule_argument (arg # argv)"
    using 1(5-7) 2(5-7) by (intro exI [of _ "rs1 @ rs2"]) auto
  ultimately show ?case using 1(1,2) 2(1,2) by simp
qed simp

lemma collect_filter:
  "collect (pre @ as) (map fst (filter (\<lambda>(j, a). P a) (enumerate (length pre) as))) = Ok (filter P as)"
proof (induction as arbitrary: pre)
  case (Cons a as)
  from Cons [of "pre @ [a]"] show ?case by (simp add: argv_at_def nth_append)
qed simp

lemma count_left:
  "length (map fst (filter (\<lambda>(j, a). P a) (enumerate n as))) = length (filter P as)"
  by (induction as arbitrary: n) simp_all

text \<open>C11.
  Command line arguments are split without loss: when memory is available and no argument
  is one of the six on which the rule parser reads behind the text, \<open>rcl_parse_arguments\<close>
  succeeds, its remap rules are the rules written in the arguments, in order, its
  parameter files are the files named by \<open>__params:=\<close>, in order, and its unparsed indices
  are the positions of the arguments that are none of the ROS arguments. So
  \<open>rcl_remove_ros_arguments\<close> returns exactly those, in order, and fails when there are none.\<close>

theorem arguments_split:
  assumes "env_ok env" "list_all (\<lambda>a. c_string a \<and> \<not> cut_short a) argv"
  shows "\<exists>impl. rcl_parse_arguments env argv = Ok impl \<and>
    list_all rule_ok (remap_rules impl) \<and> map rule_text (remap_rules impl) = filter rule_argument argv \<and>
    map (\<lambda>f. ''__params:='' @ f) (parameter_files impl) = filter (starts ''__params:='') argv \<and>
    unparsed_args impl = map fst (filter (\<lambda>(j, a). \<not> ros_argument env a) (enumerate 0 argv)) \<and>
    rcl_remove_ros_arguments env argv (Some impl) =
      (if filter (\<lambda>a. \<not> ros_argument env a) argv = [] then Err (RCLError RCL_RET_INVALID_ARGUMENT '''')
       else Ok (filter (\<lambda>a. \<not> ros_argument env a) argv))"
proof -
  note env = env_okD [OF assms(1)]
  obtain impl where i: "parse_arguments_loop env 0 argv empty_arguments = Ok impl"
    "unparsed_args impl = map fst (filter (\<lambda>(j, a). \<not> ros_argument env a) (enumerate 0 argv))"
    "map (\<lambda>f. ''__params:='' @ f) (parameter_files impl) = filter (starts ''__params:='') argv"
    "list_all rule_ok (remap_rules impl)" "map rule_text (remap_rules impl) = filter rule_argument argv"
    using parse_loop_adds [OF assms, of 0 empty_arguments] by (auto simp: empty_arguments_def)
  have parse: "rcl_parse_arguments env argv = Ok impl"
    using i(1) env(1) by (auto simp: rcl_parse_arguments_def)
  have "length (unparsed_args impl) = length (filter (\<lambda>a. \<not> ros_argument env a) argv)"
    unfolding i(2) by (rule count_left)
  moreover have "collect argv (unparsed_args impl) = Ok (filter (\<lambda>a. \<not> ros_argument env a) argv)"
    using collect_filter [of "[]" argv "\<lambda>a. \<not> ros_argument env a"] i(2) by simp
  ultimately have "rcl_remove_ros_arguments env argv (Some impl) =
      (if filter (\<lambda>a. \<not> ros_argument env a) argv = [] then Err (RCLError RCL_RET_INVALID_ARGUMENT '''')
       else Ok (filter (\<lambda>a. \<not> ros_argument env a) argv))"
    using env(1) by (auto simp: rcl_remove_ros_arguments_def rcl_arguments_get_count_unparsed_def rcl_arguments_get_unparsed_def)
  with i parse show ?thesis by blast
qed

definition plain_env :: arg_env where
  "plain_env = \<lparr> alloc_ok = (\<lambda>_. True), strndup = (\<lambda>s n. Some (take n s)),
     severity_level_from_string = (\<lambda>s. if s = ''debug'' then Some 10 else None),
     format_string_limit = (\<lambda>n s. Some (take n s)) \<rparr>"

lemma plain_env_ok: "env_ok plain_env"
  by (simp add: env_ok_def plain_env_def copies_text_def rcutils.defs)

theorem arguments_split_witness:
  "\<exists>impl. rcl_parse_arguments plain_env [''prog'', ''__params:=f'', ''--x''] = Ok impl \<and>
    list_all rule_ok (remap_rules impl) \<and>
    map rule_text (remap_rules impl) = filter rule_argument [''prog'', ''__params:=f'', ''--x''] \<and>
    map (\<lambda>f. ''__params:='' @ f) (parameter_files impl) = filter (starts ''__params:='') [''prog'', ''__params:=f'', ''--x''] \<and>
    unparsed_args impl = map fst (filter (\<lambda>(j, a). \<not> ros_argument plain_env a) (enumerate 0 [''prog'', ''__params:=f'', ''--x''])) \<and>
    rcl_remove_ros_arguments plain_env [''prog'', ''__params:=f'', ''--x''] (Some impl) =
      (if filter (\<lambda>a. \<not> ros_argument plain_env a) [''prog'', ''__params:=f'', ''--x''] = []
       then Err (RCLError RCL_RET_INVALID_ARGUMENT '''')
       else Ok (filter (\<lambda>a. \<not> ros_argument plain_env a) [''prog'', ''__params:=f'', ''--x'']))"
  by (rule arguments_split [OF plain_env_ok]) (simp add: cut_short_def)

section \<open>Boolean options and the copy\<close>

text \<open>A boolean option is decided by its first character alone: \<open>_atob\<close> compares the text with a
  value only as far as the value goes, and the one-letter values come first, so that every
  text that starts with \<open>y\<close>, \<open>Y\<close>, \<open>t\<close>, \<open>T\<close> or \<open>1\<close> is true and every other that starts with \<open>n\<close>, \<open>N\<close>,
  \<open>f\<close>, \<open>F\<close> or \<open>0\<close> is false, whatever follows.\<close>

theorem atob_first_character:
  "atob str = (case str of
     [] \<Rightarrow> Err (RCLError RCL_RET_ERROR '''')
   | c # _ \<Rightarrow> if c \<in> set ''yYtT1'' then Ok True else if c \<in> set ''nNfF0'' then Ok False
              else Err (RCLError RCL_RET_ERROR ''''))"
  by (cases str) (auto simp: atob_def true_values_def false_values_def)

lemma mapR_Ok: "(\<And>x. f x = Ok (g x)) \<Longrightarrow> mapR f xs = Ok (map g xs)"
  by (induction xs) simp_all

lemma dup_opt_Ok: "copies_text (rcutils.truncate rc) \<Longrightarrow> dup_opt rc x = Ok x"
  by (cases x) (simp_all add: dup_opt_def strdup_def copies_text_def rcutils.defs)

lemma remap_copy_Ok: "env_ok env \<Longrightarrow> rcl_remap_copy env r = Ok r"
  using env_okD [of env] by (simp add: rcl_remap_copy_def dup_opt_Ok)

text \<open>\<open>rcl_arguments_copy\<close> copies the unparsed indices, the remap rules and the parameter files, but
  none of the logging settings: the log level, the log configuration file and the three
  switches of the copy are whatever the new memory held.\<close>

theorem arguments_copy_drops_log_settings:
  assumes "env_ok env"
  shows "\<exists>copy. rcl_arguments_copy env args None junk = Ok copy \<and>
    unparsed_args copy = unparsed_args args \<and> remap_rules copy = remap_rules args \<and>
    parameter_files copy = parameter_files args \<and>
    log_level copy = log_level junk \<and> external_log_config_file copy = external_log_config_file junk \<and>
    log_stdout_disabled copy = log_stdout_disabled junk \<and> log_rosout_disabled copy = log_rosout_disabled junk \<and>
    log_ext_lib_disabled copy = log_ext_lib_disabled junk"
proof -
  note env = env_okD [OF assms]
  have "strdup env s = Some s" for s using env(3) by (simp add: strdup_def copies_text_def rcutils.defs)
  then have "mapR (\<lambda>f. case strdup env f of None \<Rightarrow> Err (RCLError RCL_RET_BAD_ALLOC '''') | Some s \<Rightarrow> Ok s) fs = Ok fs" for fs
    using mapR_Ok [of _ "\<lambda>x. x" fs] by simp
  moreover have "mapR (rcl_remap_copy env) rs = Ok rs" for rs
    using mapR_Ok [of "rcl_remap_copy env" "\<lambda>x. x" rs] remap_copy_Ok [OF assms] by simp
  ultimately show ?thesis using env(1) by (simp add: rcl_arguments_copy_def)
qed

theorem arguments_copy_drops_log_settings_witness:
  "\<exists>copy. rcl_arguments_copy plain_env (empty_arguments\<lparr> log_level := 10 \<rparr>) None empty_arguments = Ok copy \<and> log_level copy = -1"
  using arguments_copy_drops_log_settings [OF plain_env_ok, of "empty_arguments\<lparr> log_level := 10 \<rparr>" empty_arguments]
  by (auto simp: empty_arguments_def)

end
