(* ===== verification/TopicNames.thy ===== *)
theory TopicNames
  imports RclArguments
begin

text \<open>
  Topic names: their validation (\<open>rcl/src/rcl/validate_topic_name.c\<close>), their expansion to fully
  qualified names (\<open>expand_topic_name.c\<close>) and their remapping by the rules of the command line
  (\<open>remap.c\<close>). The theory states what a valid name is without the loops, when the expansion
  returns and what it returns, and which rule a name is remapped by.
\<close>

unbundle bit_operations_syntax

section \<open>Validation\<close>

datatype topic_validation =
    RCL_TOPIC_NAME_VALID
  | RCL_TOPIC_NAME_INVALID_IS_EMPTY_STRING
  | RCL_TOPIC_NAME_INVALID_ENDS_WITH_FORWARD_SLASH
  | RCL_TOPIC_NAME_INVALID_CONTAINS_UNALLOWED_CHARACTERS
  | RCL_TOPIC_NAME_INVALID_NAME_TOKEN_STARTS_WITH_NUMBER
  | RCL_TOPIC_NAME_INVALID_UNMATCHED_CURLY_BRACE
  | RCL_TOPIC_NAME_INVALID_MISPLACED_TILDE
  | RCL_TOPIC_NAME_INVALID_TILDE_NOT_FOLLOWED_BY_FORWARD_SLASH
  | RCL_TOPIC_NAME_INVALID_SUBSTITUTION_CONTAINS_UNALLOWED_CHARACTERS
  | RCL_TOPIC_NAME_INVALID_SUBSTITUTION_STARTS_WITH_NUMBER

datatype rmw_validation = RMW_VALID | RMW_INVALID | RMW_FAILED rcl_ret

text \<open>
  What the code uses of rcutils and rmw: the character test, the validation of node names and
  namespaces, the replacement of all occurrences of a substring and the formatting of strings
  (the format of the calls is the concatenation of its arguments).
\<close>

record name_env = rcutils +
  isalnum_no_locale :: "char \<Rightarrow> bool"
  rmw_validate_node_name :: "string \<Rightarrow> rmw_validation"
  rmw_validate_namespace :: "string \<Rightarrow> rmw_validation"
  repl_str :: "string \<Rightarrow> string \<Rightarrow> string \<Rightarrow> string option"
  format_string :: "string list \<Rightarrow> string option"

definition is_digit :: "char \<Rightarrow> bool" where
  "is_digit c \<longleftrightarrow> in_range (CHR ''0'') (CHR ''9'') c"

text \<open>
  The first loop, over the characters from index \<open>i\<close>: a verdict with its index, or the final values
  of \<open>in_open_curly_brace\<close> and \<open>opening_curly_brace_index\<close>.
\<close>

fun check_characters :: "'a name_env_scheme \<Rightarrow> nat \<Rightarrow> bool \<Rightarrow> nat \<Rightarrow> string \<Rightarrow> (topic_validation \<times> nat) + (bool \<times> nat)" where
  "check_characters env i in_brace opening [] = Inr (in_brace, opening)"
| "check_characters env i in_brace opening (c # cs) =
     (if isalnum_no_locale env c then
        if is_digit c \<and> in_brace \<and> i > 0 \<and> i - 1 = opening
        then Inl (RCL_TOPIC_NAME_INVALID_SUBSTITUTION_STARTS_WITH_NUMBER, i)
        else check_characters env (Suc i) in_brace opening cs
      else if c = CHR ''_'' then check_characters env (Suc i) in_brace opening cs
      else if c = CHR ''/'' then
        if in_brace then Inl (RCL_TOPIC_NAME_INVALID_SUBSTITUTION_CONTAINS_UNALLOWED_CHARACTERS, i)
        else check_characters env (Suc i) in_brace opening cs
      else if c = CHR ''~'' then
        if i \<noteq> 0 then Inl (RCL_TOPIC_NAME_INVALID_MISPLACED_TILDE, i)
        else check_characters env (Suc i) in_brace opening cs
      else if c = CHR ''{'' then
        if in_brace then Inl (RCL_TOPIC_NAME_INVALID_SUBSTITUTION_CONTAINS_UNALLOWED_CHARACTERS, i)
        else check_characters env (Suc i) True i cs
      else if c = CHR ''}'' then
        if \<not> in_brace then Inl (RCL_TOPIC_NAME_INVALID_UNMATCHED_CURLY_BRACE, i)
        else check_characters env (Suc i) False opening cs
      else Inl (if in_brace then RCL_TOPIC_NAME_INVALID_SUBSTITUTION_CONTAINS_UNALLOWED_CHARACTERS
                else RCL_TOPIC_NAME_INVALID_CONTAINS_UNALLOWED_CHARACTERS, i))"

text \<open>The second loop, over the indices below the last one.\<close>

fun check_tokens :: "string \<Rightarrow> nat list \<Rightarrow> (topic_validation \<times> nat) option" where
  "check_tokens name [] = None"
| "check_tokens name (i # js) =
     (if i = length name - 1 then check_tokens name js
      else if name ! i = CHR ''/'' then
        if is_digit (name ! (i + 1)) then Some (RCL_TOPIC_NAME_INVALID_NAME_TOKEN_STARTS_WITH_NUMBER, i + 1)
        else check_tokens name js
      else if i = 1 \<and> name ! 0 = CHR ''~''
        then Some (RCL_TOPIC_NAME_INVALID_TILDE_NOT_FOLLOWED_BY_FORWARD_SLASH, 1)
      else check_tokens name js)"

text \<open>The verdict and the value of \<open>*invalid_index\<close>, if it is set.\<close>

definition rcl_validate_topic_name :: "'a name_env_scheme \<Rightarrow> string \<Rightarrow> topic_validation \<times> nat option" where
  "rcl_validate_topic_name env name =
     (if name = [] then (RCL_TOPIC_NAME_INVALID_IS_EMPTY_STRING, Some 0)
      else if is_digit (name ! 0) then (RCL_TOPIC_NAME_INVALID_NAME_TOKEN_STARTS_WITH_NUMBER, Some 0)
      else if name ! (length name - 1) = CHR ''/''
      then (RCL_TOPIC_NAME_INVALID_ENDS_WITH_FORWARD_SLASH, Some (length name - 1))
      else case check_characters env 0 False 0 name of
             Inl (v, i) \<Rightarrow> (v, Some i)
           | Inr (in_brace, opening) \<Rightarrow>
               if in_brace then (RCL_TOPIC_NAME_INVALID_UNMATCHED_CURLY_BRACE, Some opening)
               else case check_tokens name [0..<length name] of
                      Some (v, i) \<Rightarrow> (v, Some i)
                    | None \<Rightarrow> (RCL_TOPIC_NAME_VALID, None))"

subsection \<open>What a valid name is\<close>

text \<open>
  A name is made of characters of names, slashes, and substitutions in braces that hold
  characters of names and do not start with a digit.
\<close>

definition name_char :: "char \<Rightarrow> bool" where
  "name_char c \<longleftrightarrow> alnum c \<or> c = CHR ''_''"

inductive name_items :: "string \<Rightarrow> bool" where
  items_end: "name_items []"
| items_char: "name_char c \<or> c = CHR ''/'' \<Longrightarrow> name_items s \<Longrightarrow> name_items (c # s)"
| items_substitution: "list_all name_char w \<Longrightarrow> (w \<noteq> [] \<longrightarrow> \<not> is_digit (hd w)) \<Longrightarrow> name_items s \<Longrightarrow>
    name_items (CHR ''{'' # w @ CHR ''}'' # s)"

definition documented_isalnum :: "'a name_env_scheme \<Rightarrow> bool" where
  "documented_isalnum env \<longleftrightarrow> (\<forall>c. isalnum_no_locale env c \<longleftrightarrow> alnum c)"

lemma not_alnum [simp]:
  "\<not> alnum (CHR ''~'')" "\<not> alnum (CHR ''{'')" "\<not> alnum (CHR ''}'')"
  by (simp_all add: alnum_def letter_def in_range_def)

text \<open>The inside of a brace, and the automaton on the whole text.\<close>

fun brace_scan :: "bool \<Rightarrow> bool \<Rightarrow> string \<Rightarrow> bool" where
  "brace_scan in_brace first [] = (\<not> in_brace)"
| "brace_scan in_brace first (c # cs) =
     (if name_char c then \<not> (is_digit c \<and> in_brace \<and> first) \<and> brace_scan in_brace False cs
      else if c = CHR ''/'' then \<not> in_brace \<and> brace_scan False False cs
      else if c = CHR ''{'' then \<not> in_brace \<and> brace_scan True True cs
      else c = CHR ''}'' \<and> in_brace \<and> brace_scan False False cs)"

lemma check_scan:
  assumes "documented_isalnum env"
  shows "opn < i \<Longrightarrow> first = (in_brace \<and> i - 1 = opn) \<Longrightarrow>
    (\<exists>op. check_characters env i in_brace opn cs = Inr (False, op)) \<longleftrightarrow> brace_scan in_brace first cs"
proof (induction cs arbitrary: i in_brace opn first)
  case (Cons c cs)
  note doc = assms [unfolded documented_isalnum_def, rule_format]
  have same: "(\<exists>op. check_characters env (Suc i) in_brace opn cs = Inr (False, op)) \<longleftrightarrow> brace_scan in_brace False cs"
    using Cons.IH [of opn "Suc i" False in_brace] Cons.prems(1) by simp
  have opened: "(\<exists>op. check_characters env (Suc i) True i cs = Inr (False, op)) \<longleftrightarrow> brace_scan True True cs"
    using Cons.IH [of i "Suc i" True True] by simp
  have closed: "(\<exists>op. check_characters env (Suc i) False opn cs = Inr (False, op)) \<longleftrightarrow> brace_scan False False cs"
    using Cons.IH [of opn "Suc i" False False] Cons.prems(1) by simp
  consider "alnum c" | "c = CHR ''_''" | "c = CHR ''/''" | "c = CHR ''~''" | "c = CHR ''{''" | "c = CHR ''}''"
    | "\<not> alnum c" "c \<notin> {CHR ''_'', CHR ''/'', CHR ''~'', CHR ''{'', CHR ''}''}" by blast
  then show ?case
  proof cases
    case 1
    then show ?thesis using Cons.prems doc same by (auto simp: name_char_def)
  next
    case 2
    then show ?thesis using Cons.prems doc same by (simp add: name_char_def is_digit_def in_range_def)
  next
    case 3
    then show ?thesis using Cons.prems doc closed by (simp add: name_char_def)
  next
    case 4
    then show ?thesis using Cons.prems doc by (simp add: name_char_def)
  next
    case 5
    then show ?thesis using Cons.prems doc opened by (simp add: name_char_def)
  next
    case 6
    then show ?thesis using Cons.prems doc closed by (simp add: name_char_def)
  next
    case 7
    then show ?thesis using Cons.prems doc by (simp add: name_char_def)
  qed
qed simp

lemma name_char_literals [simp]:
  "\<not> name_char (CHR ''}'')" "\<not> name_char (CHR ''{'')" "\<not> name_char (CHR ''/'')" "\<not> name_char (CHR ''~'')"
  by (simp_all add: name_char_def)

lemma brace_scan_inside:
  "brace_scan True f s \<longleftrightarrow>
     (\<exists>w u. list_all name_char w \<and> (f \<and> w \<noteq> [] \<longrightarrow> \<not> is_digit (hd w)) \<and> s = w @ CHR ''}'' # u \<and> brace_scan False False u)"
proof (induction s arbitrary: f)
  case (Cons c s)
  show ?case
  proof (cases "name_char c")
    case True
    have "brace_scan True f (c # s) \<longleftrightarrow> \<not> (is_digit c \<and> f) \<and> (\<exists>w u. list_all name_char w \<and> s = w @ CHR ''}'' # u \<and> brace_scan False False u)"
      using True Cons.IH [of False] by simp
    also have "\<dots> \<longleftrightarrow> (\<exists>w u. list_all name_char w \<and> (f \<and> w \<noteq> [] \<longrightarrow> \<not> is_digit (hd w)) \<and>
        c # s = w @ CHR ''}'' # u \<and> brace_scan False False u)" (is "_ \<longleftrightarrow> (\<exists>w u. ?P w u)")
    proof
      assume "\<not> (is_digit c \<and> f) \<and> (\<exists>w u. list_all name_char w \<and> s = w @ CHR ''}'' # u \<and> brace_scan False False u)"
      then obtain w u where "\<not> (is_digit c \<and> f)" "list_all name_char w" "s = w @ CHR ''}'' # u" "brace_scan False False u" by blast
      with True have "?P (c # w) u" by auto
      then show "\<exists>w u. ?P w u" by blast
    next
      assume "\<exists>w u. ?P w u"
      then obtain w u where p: "?P w u" by blast
      then obtain w' where "w = c # w'" using True by (cases w) auto
      with p show "\<not> (is_digit c \<and> f) \<and> (\<exists>w u. list_all name_char w \<and> s = w @ CHR ''}'' # u \<and> brace_scan False False u)"
        by auto
    qed
    finally show ?thesis .
  next
    case False
    have "(\<exists>w u. list_all name_char w \<and> (f \<and> w \<noteq> [] \<longrightarrow> \<not> is_digit (hd w)) \<and>
        c # s = w @ CHR ''}'' # u \<and> brace_scan False False u) \<longleftrightarrow> c = CHR ''}'' \<and> brace_scan False False s"
      (is "(\<exists>w u. ?P w u) \<longleftrightarrow> ?r")
    proof
      assume "\<exists>w u. ?P w u"
      then obtain w u where "?P w u" by blast
      with False show ?r by (cases w) auto
    next
      assume ?r
      then have "?P [] s" by simp
      then show "\<exists>w u. ?P w u" by blast
    qed
    with False show ?thesis by auto
  qed
qed simp

lemma brace_scan_items: "brace_scan False f s \<longleftrightarrow> name_items s"
proof
  show "name_items s \<Longrightarrow> brace_scan False f s"
  proof (induction arbitrary: f rule: name_items.induct)
    case (items_substitution w s)
    then have "brace_scan True True (w @ CHR ''}'' # s)" unfolding brace_scan_inside [of True] by blast
    then show ?case by simp
  qed auto
  show "brace_scan False f s \<Longrightarrow> name_items s"
  proof (induction s arbitrary: f rule: length_induct)
    case (1 s)
    then have IH: "length u < length s \<Longrightarrow> brace_scan False g u \<Longrightarrow> name_items u" for u g by blast
    show ?case
    proof (cases s)
      case Nil
      then show ?thesis by (simp add: items_end)
    next
      case (Cons c u)
      consider "name_char c \<or> c = CHR ''/''" "brace_scan False False u" | "c = CHR ''{''" "brace_scan True True u"
        using 1(2) Cons by (auto split: if_splits)
      then show ?thesis
      proof cases
        case 1
        then have "name_items u" using IH [of u False] Cons by simp
        with 1(1) Cons show ?thesis by (simp add: items_char)
      next
        case 2
        then obtain w v where "list_all name_char w" "w \<noteq> [] \<longrightarrow> \<not> is_digit (hd w)" "u = w @ CHR ''}'' # v" "brace_scan False False v"
          unfolding brace_scan_inside [of True] by blast
        moreover from this Cons have "name_items v" using IH [of v False] by simp
        ultimately show ?thesis using 2(1) Cons by (auto intro: items_substitution)
      qed
    qed
  qed
qed

lemma check_tokens_None:
  "check_tokens name js = None \<longleftrightarrow>
     (\<forall>i \<in> set js. i \<noteq> length name - 1 \<longrightarrow>
        (name ! i = CHR ''/'' \<longrightarrow> \<not> is_digit (name ! (i + 1))) \<and>
        \<not> (name ! i \<noteq> CHR ''/'' \<and> i = 1 \<and> name ! 0 = CHR ''~''))"
  by (induction js) auto

definition without_tilde :: "string \<Rightarrow> string" where
  "without_tilde name = (if name \<noteq> [] \<and> hd name = CHR ''~'' then tl name else name)"

lemma check_name:
  assumes "documented_isalnum env" "name \<noteq> []" "\<not> is_digit (hd name)"
  shows "(\<exists>op. check_characters env 0 False 0 name = Inr (False, op)) \<longleftrightarrow> name_items (without_tilde name)"
proof -
  obtain c cs where name: "name = c # cs" using assms(2) by (cases name) auto
  note doc = assms(1) [unfolded documented_isalnum_def, rule_format]
  note scan = check_scan [OF assms(1), of 0 "Suc 0" _ _ cs]
  show ?thesis
    using assms(3) doc scan [of False False] scan [of True True]
    by (auto simp: name without_tilde_def brace_scan_items [of False, symmetric] name_char_def)
qed

lemma tokens_iff:
  assumes "name \<noteq> []"
  shows "check_tokens name [0..<length name] = None \<longleftrightarrow>
    (\<forall>i. Suc i < length name \<and> name ! i = CHR ''/'' \<longrightarrow> \<not> is_digit (name ! Suc i)) \<and>
    (2 < length name \<and> hd name = CHR ''~'' \<longrightarrow> name ! 1 = CHR ''/'')" (is "?l \<longleftrightarrow> ?a \<and> ?b")
proof -
  have h: "name ! 0 = hd name" using assms by (simp add: hd_conv_nth)
  have "?l \<longleftrightarrow> (\<forall>i. Suc i < length name \<longrightarrow> (name ! i = CHR ''/'' \<longrightarrow> \<not> is_digit (name ! Suc i)) \<and>
      \<not> (name ! i \<noteq> CHR ''/'' \<and> i = 1 \<and> hd name = CHR ''~''))"
  proof -
    have "i \<in> set [0..<length name] \<and> i \<noteq> length name - 1 \<longleftrightarrow> Suc i < length name" for i
      using assms by (cases name) auto
    then show ?thesis unfolding check_tokens_None h by (simp add: imp_conjL [symmetric] Ball_def del: set_upt)
  qed
  also have "\<dots> \<longleftrightarrow> ?a \<and> ?b" by (auto simp: numeral_2_eq_2)
  finally show ?thesis .
qed

lemma verdict_invalid:
  "check_characters env i b opn cs = Inl (v, j) \<Longrightarrow> v \<noteq> RCL_TOPIC_NAME_VALID"
  "check_tokens name js = Some (v, j) \<Longrightarrow> v \<noteq> RCL_TOPIC_NAME_VALID"
  subgoal by (induction cs arbitrary: i b opn) (auto split: if_splits)
  subgoal by (induction js) (auto split: if_splits)
  .

lemma valid_topic_name_iff:
  assumes "documented_isalnum env"
  shows "fst (rcl_validate_topic_name env name) = RCL_TOPIC_NAME_VALID \<longleftrightarrow>
    name \<noteq> [] \<and> \<not> is_digit (hd name) \<and> last name \<noteq> CHR ''/'' \<and> name_items (without_tilde name) \<and>
    (\<forall>i. Suc i < length name \<and> name ! i = CHR ''/'' \<longrightarrow> \<not> is_digit (name ! Suc i)) \<and>
    (2 < length name \<and> hd name = CHR ''~'' \<longrightarrow> name ! 1 = CHR ''/'')"
proof (cases "name \<noteq> [] \<and> \<not> is_digit (hd name) \<and> last name \<noteq> CHR ''/''")
  case True
  then have n: "name ! 0 = hd name" "name ! (length name - 1) = last name" by (simp_all add: hd_conv_nth last_conv_nth)
  have tokens: "check_tokens name [0..<length name] = None \<longleftrightarrow>
    (\<forall>i. Suc i < length name \<and> name ! i = CHR ''/'' \<longrightarrow> \<not> is_digit (name ! Suc i)) \<and>
    (2 < length name \<and> hd name = CHR ''~'' \<longrightarrow> name ! 1 = CHR ''/'')"
    by (rule tokens_iff) (use True in simp)
  have "fst (rcl_validate_topic_name env name) = RCL_TOPIC_NAME_VALID \<longleftrightarrow>
    (\<exists>op. check_characters env 0 False 0 name = Inr (False, op)) \<and> check_tokens name [0..<length name] = None"
    using True n by (auto simp: rcl_validate_topic_name_def dest: verdict_invalid
        split: sum.splits option.splits if_splits)
  moreover have "(\<exists>op. check_characters env 0 False 0 name = Inr (False, op)) \<longleftrightarrow> name_items (without_tilde name)"
    using True by (intro check_name [OF assms]) simp_all
  ultimately show ?thesis using True tokens by simp
next
  case False
  then show ?thesis
    by (auto simp: rcl_validate_topic_name_def hd_conv_nth last_conv_nth)
qed

text \<open>C13.
  What \<open>rcl_validate_topic_name\<close> accepts, without its loops: a name is valid if and only if it is
  not empty, does not start with a digit or end with a slash, consists behind an optional
  tilde of name characters, slashes and closed substitutions that do not start with a digit,
  has no digit behind a slash, and, if it is longer than two characters, has a slash behind
  its tilde.\<close>

theorem valid_topic_names:
  assumes "documented_isalnum env"
  shows "fst (rcl_validate_topic_name env name) = RCL_TOPIC_NAME_VALID \<longleftrightarrow>
    name \<noteq> [] \<and> \<not> is_digit (hd name) \<and> last name \<noteq> CHR ''/'' \<and> name_items (without_tilde name) \<and>
    (\<forall>i. Suc i < length name \<and> name ! i = CHR ''/'' \<longrightarrow> \<not> is_digit (name ! Suc i)) \<and>
    (2 < length name \<and> hd name = CHR ''~'' \<longrightarrow> name ! 1 = CHR ''/'')"
  by (rule valid_topic_name_iff [OF assms])

text \<open>All occurrences of a substring replaced, from left to right.\<close>

function replace_all :: "string \<Rightarrow> string \<Rightarrow> string \<Rightarrow> string" where
  "replace_all from to [] = []"
| "replace_all from to (c # cs) =
     (if from \<noteq> [] \<and> starts from (c # cs) then to @ replace_all from to (drop (length from) (c # cs))
      else c # replace_all from to cs)"
  by pat_completeness auto
termination by (relation "measure (\<lambda>(from, to, s). length s)") (auto simp: neq_Nil_conv)

definition plain_names :: name_env where
  "plain_names = \<lparr> alloc_ok = (\<lambda>_. True), strndup = (\<lambda>s n. Some (take n s)), isalnum_no_locale = alnum,
     rmw_validate_node_name = (\<lambda>s. if token_word s then RMW_VALID else RMW_INVALID),
     rmw_validate_namespace = (\<lambda>s. if rule_namespace s then RMW_VALID else RMW_INVALID),
     repl_str = (\<lambda>s from to. Some (replace_all from to s)), format_string = (\<lambda>parts. Some (concat parts)) \<rparr>"

lemma plain_isalnum: "documented_isalnum plain_names"
  by (simp add: documented_isalnum_def plain_names_def)

theorem valid_topic_names_witness:
  "fst (rcl_validate_topic_name plain_names ''~a'') = RCL_TOPIC_NAME_VALID \<longleftrightarrow>
    ''~a'' \<noteq> [] \<and> \<not> is_digit (hd ''~a'') \<and> last ''~a'' \<noteq> CHR ''/'' \<and> name_items (without_tilde ''~a'') \<and>
    (\<forall>i. Suc i < length ''~a'' \<and> ''~a'' ! i = CHR ''/'' \<longrightarrow> \<not> is_digit (''~a'' ! Suc i)) \<and>
    (2 < length ''~a'' \<and> hd ''~a'' = CHR ''~'' \<longrightarrow> ''~a'' ! 1 = CHR ''/'')"
  by (rule valid_topic_names [OF plain_isalnum])

section \<open>Expansion\<close>

text \<open>The index of the first occurrence of a character, as \<open>strchr\<close> finds it.\<close>

fun strchr :: "string \<Rightarrow> char \<Rightarrow> nat option" where
  "strchr [] c = None"
| "strchr (x # xs) c = (if x = c then Some 0 else map_option Suc (strchr xs c))"

text \<open>\<open>strncmp(a, b, n) == 0\<close> on texts without zero characters.\<close>

definition strncmp_eq :: "string \<Rightarrow> string \<Rightarrow> nat \<Rightarrow> bool" where
  "strncmp_eq a b n \<longleftrightarrow> take n a = take n b"

text \<open>
  One round of the substitution loop on the text with its first opening brace at \<open>o\<close>: the text
  behind it, the length of the substitution as a \<open>size_t\<close>, its replacement, and the new text.
\<close>

definition substitution_length :: "nat \<Rightarrow> nat \<Rightarrow> nat" where
  "substitution_length opn close = nat (to_u64 (int close - int opn + 1))"

definition substitution_value ::
  "string \<Rightarrow> string \<Rightarrow> (string \<Rightarrow> string option) \<Rightarrow> string \<Rightarrow> nat \<Rightarrow> string option" where
  "substitution_value node ns substitutions brace len =
     (if strncmp_eq ''{node}'' brace len then Some node
      else if strncmp_eq ''{ns}'' brace len \<or> strncmp_eq ''{namespace}'' brace len then Some ns
      else substitutions (take (nat (to_u64 (int len - 2))) (tl brace)))"

definition substitute_once ::
  "'a name_env_scheme \<Rightarrow> string \<Rightarrow> string \<Rightarrow> (string \<Rightarrow> string option) \<Rightarrow> string \<Rightarrow> nat \<Rightarrow> string res" where
  "substitute_once env node ns substitutions current opn =
     (case strchr current (CHR ''}'') of
        None \<Rightarrow> Err (Undefined_behaviour ''difference with a null pointer'')
      | Some close \<Rightarrow>
          let brace = drop opn current;
              len = substitution_length opn close
          in case substitution_value node ns substitutions brace len of
               None \<Rightarrow> Err (RCLError RCL_RET_UNKNOWN_SUBSTITUTION ''unknown substitution'')
             | Some value \<Rightarrow>
                 (case strndup env brace len of
                    None \<Rightarrow> Err (RCLError RCL_RET_BAD_ALLOC ''failed to allocate memory for substitution'')
                  | Some next_substitution \<Rightarrow>
                      (case repl_str env current next_substitution value of
                         None \<Rightarrow> Err (RCLError RCL_RET_BAD_ALLOC ''failed to allocate memory for expanded topic'')
                       | Some s \<Rightarrow> Ok s)))"

text \<open>The loop may run for ever; then it has no value.\<close>

partial_function (option) substitute_all ::
  "'a name_env_scheme \<Rightarrow> string \<Rightarrow> string \<Rightarrow> (string \<Rightarrow> string option) \<Rightarrow> string \<Rightarrow> string res option" where
  [code]: "substitute_all env node ns substitutions current =
     (case strchr current (CHR ''{'') of
        None \<Rightarrow> Some (Ok current)
      | Some opn \<Rightarrow>
          (case substitute_once env node ns substitutions current opn of
             Inl e \<Rightarrow> Some (Err e)
           | Inr s \<Rightarrow> substitute_all env node ns substitutions s))"

definition rmw_check :: "rmw_validation \<Rightarrow> rcl_ret \<Rightarrow> string \<Rightarrow> unit res" where
  "rmw_check v code msg =
     (case v of
        RMW_VALID \<Rightarrow> Ok ()
      | RMW_INVALID \<Rightarrow> Err (RCLError code msg)
      | RMW_FAILED ret \<Rightarrow> Err (RCLError (if ret = RCL_RET_INVALID_ARGUMENT then RCL_RET_INVALID_ARGUMENT else RCL_RET_ERROR) ''''))"

definition alloc_or :: "string option \<Rightarrow> string \<Rightarrow> string res" where
  "alloc_or x msg = (case x of None \<Rightarrow> Err (RCLError RCL_RET_BAD_ALLOC msg) | Some s \<Rightarrow> Ok s)"

text \<open>The arguments of the function are checked first.\<close>

definition expand_checks :: "'a name_env_scheme \<Rightarrow> string \<Rightarrow> string \<Rightarrow> string \<Rightarrow> unit res" where
  "expand_checks env name node ns =
     (if fst (rcl_validate_topic_name env name) \<noteq> RCL_TOPIC_NAME_VALID
      then Err (RCLError RCL_RET_TOPIC_NAME_INVALID ''topic name is invalid'')
      else bindR (rmw_check (rmw_validate_node_name env node) RCL_RET_NODE_INVALID_NAME ''node name is invalid'') (\<lambda>_.
        rmw_check (rmw_validate_namespace env ns) RCL_RET_NODE_INVALID_NAMESPACE ''node namespace is invalid''))"

text \<open>The private name: the tilde stands for the node.\<close>

definition expand_tilde :: "'a name_env_scheme \<Rightarrow> string \<Rightarrow> string \<Rightarrow> string \<Rightarrow> string res" where
  "expand_tilde env name node ns =
     (if name ! 0 = CHR ''~''
      then alloc_or (format_string env (if length ns = 1 then [ns, node, tl name] else [ns, ''/'', node, tl name]))
             ''failed to allocate memory for output topic''
      else Ok name)"

text \<open>The last step makes a relative name absolute.\<close>

definition expand_relative :: "'a name_env_scheme \<Rightarrow> string \<Rightarrow> string \<Rightarrow> string res" where
  "expand_relative env ns current =
     (if current \<noteq> [] \<and> current ! 0 = CHR ''/'' then Ok current
      else alloc_or (format_string env (if length ns = 1 then [ns, current] else [ns, ''/'', current]))
             ''failed to allocate memory for output topic'')"

text \<open>The final copy of an unchanged name is never reached: an absolute name without
  substitutions returns early, every other name has been copied.\<close>

definition rcl_expand_topic_name ::
  "'a name_env_scheme \<Rightarrow> string \<Rightarrow> string \<Rightarrow> string \<Rightarrow> (string \<Rightarrow> string option) \<Rightarrow> string res option" where
  "rcl_expand_topic_name env name node ns substitutions =
     (case expand_checks env name node ns of
        Inl e \<Rightarrow> Some (Err e)
      | Inr _ \<Rightarrow>
          let has_a_substitution = (strchr name (CHR ''{'') \<noteq> None)
          in if name ! 0 = CHR ''/'' \<and> \<not> has_a_substitution
             then Some (alloc_or (strdup env name) ''failed to allocate memory for output topic'')
             else
               (case expand_tilde env name node ns of
                  Inl e \<Rightarrow> Some (Err e)
                | Inr local_output \<Rightarrow>
                    (case (if has_a_substitution then substitute_all env node ns substitutions local_output
                           else Some (Ok local_output)) of
                       None \<Rightarrow> None
                     | Some (Inl e) \<Rightarrow> Some (Err e)
                     | Some (Inr current) \<Rightarrow>
                         Some (expand_relative env ns current))))"

subsection \<open>Expansion as simultaneous substitution\<close>

text \<open>A text as a list of plain pieces and substitutions.\<close>

datatype piece = Plain string | Braced string

fun piece_text :: "piece \<Rightarrow> string" where
  "piece_text (Plain t) = t"
| "piece_text (Braced w) = CHR ''{'' # w @ ''}''"

definition text_of :: "piece list \<Rightarrow> string" where
  "text_of ps = concat (map piece_text ps)"

definition no_braces :: "string \<Rightarrow> bool" where
  "no_braces s \<longleftrightarrow> CHR ''{'' \<notin> set s \<and> CHR ''}'' \<notin> set s"

fun piece_ok :: "piece \<Rightarrow> bool" where
  "piece_ok (Plain t) = no_braces t"
| "piece_ok (Braced w) = (no_braces w \<and> length w + 2 < 18446744073709551616)"

definition value_of :: "string \<Rightarrow> string \<Rightarrow> (string \<Rightarrow> string option) \<Rightarrow> string \<Rightarrow> string option" where
  "value_of node ns substitutions w =
     (if w = ''node'' then Some node else if w = ''ns'' \<or> w = ''namespace'' then Some ns else substitutions w)"

fun put_value :: "string \<Rightarrow> string \<Rightarrow> piece \<Rightarrow> piece" where
  "put_value k v (Plain t) = Plain t"
| "put_value k v (Braced w) = (if w = k then Plain v else Braced w)"

lemma text_of_simps [simp]: "text_of [] = []" "text_of (p # ps) = piece_text p @ text_of ps"
  "text_of (ps @ qs) = text_of ps @ text_of qs"
  by (simp_all add: text_of_def)

lemma no_braces_simps [simp]: "no_braces []" "no_braces (c # s) \<longleftrightarrow> c \<noteq> CHR ''{'' \<and> c \<noteq> CHR ''}'' \<and> no_braces s"
  "no_braces (s @ t) \<longleftrightarrow> no_braces s \<and> no_braces t"
  by (auto simp: no_braces_def)

lemma replace_plain:
  "no_braces t \<Longrightarrow> replace_all (CHR ''{'' # u) v (t @ s) = t @ replace_all (CHR ''{'' # u) v s"
  by (induction t) simp_all

lemma braces_match:
  "no_braces w \<Longrightarrow> no_braces k \<Longrightarrow> starts (k @ ''}'') (w @ CHR ''}'' # s) \<longleftrightarrow> w = k"
proof (induction w arbitrary: k)
  case Nil
  then show ?case by (cases k) auto
next
  case (Cons c w)
  then show ?case by (cases k) auto
qed

lemma replace_pieces:
  assumes "list_all piece_ok ps" "no_braces k"
  shows "replace_all (CHR ''{'' # k @ ''}'') v (text_of ps) = text_of (map (put_value k v) ps)"
  using assms(1)
proof (induction ps)
  case (Cons p ps)
  show ?case
  proof (cases p)
    case (Plain t)
    with Cons show ?thesis by (simp add: replace_plain)
  next
    case (Braced w)
    with Cons.prems have w: "no_braces w" by simp
    show ?thesis
    proof (cases "w = k")
      case True
      with Braced Cons show ?thesis by (simp add: starts_append)
    next
      case False
      then have "\<not> starts (k @ ''}'') (w @ CHR ''}'' # text_of ps)" using braces_match [OF w assms(2)] by simp
      moreover have "replace_all (CHR ''{'' # k @ ''}'') v (w @ CHR ''}'' # text_of ps) =
          w @ replace_all (CHR ''{'' # k @ ''}'') v (CHR ''}'' # text_of ps)" by (rule replace_plain [OF w])
      ultimately show ?thesis using Braced Cons False by simp
    qed
  qed
qed simp

lemma strchr_append: "c \<notin> set s \<Longrightarrow> strchr (s @ c # t) c = Some (length s)"
  by (induction s) auto

lemma strchr_None: "strchr s c = None \<longleftrightarrow> c \<notin> set s"
  by (induction s) auto

lemma strchr_skip: "c \<notin> set t \<Longrightarrow> strchr (t @ s) c = map_option ((+) (length t)) (strchr s c)"
  by (cases "strchr s c"; induction t) auto

text \<open>The pieces up to the first substitution.\<close>

lemma first_braced:
  assumes "list_all piece_ok ps" "strchr (text_of ps) (CHR ''{'') = Some n"
  shows "\<exists>t w qs. text_of ps = t @ piece_text (Braced w) @ text_of qs \<and> no_braces t \<and> length t = n \<and> Braced w \<in> set ps"
  using assms
proof (induction ps arbitrary: n)
  case (Cons p ps)
  show ?case
  proof (cases p)
    case (Braced w)
    with Cons.prems show ?thesis by (intro exI [of _ "[]"] exI [of _ w] exI [of _ ps]) simp
  next
    case (Plain t)
    have "CHR ''{'' \<notin> set t" using Cons.prems Plain by (simp add: no_braces_def)
    then obtain m where m: "strchr (text_of ps) (CHR ''{'') = Some m" "n = length t + m"
      using Cons.prems(2) Plain by (auto simp: strchr_skip)
    obtain t' w qs where "text_of ps = t' @ piece_text (Braced w) @ text_of qs"
      "no_braces t'" "length t' = m" "Braced w \<in> set ps"
      using Cons.IH [OF _ m(1)] Cons.prems(1) by auto
    with m Plain Cons.prems show ?thesis by (intro exI [of _ "t @ t'"] exI [of _ w] exI [of _ qs]) simp
  qed
qed simp

text \<open>What the code relies on in the functions it calls, and in the substitution map.\<close>

definition documented_strings :: "'a name_env_scheme \<Rightarrow> bool" where
  "documented_strings env \<longleftrightarrow>
     (\<forall>s n. strndup env s n = Some (take n s)) \<and>
     (\<forall>s u v. repl_str env s u v = Some (replace_all u v s)) \<and>
     (\<forall>parts. format_string env parts = Some (concat parts))"

definition plain_values :: "(string \<Rightarrow> string option) \<Rightarrow> bool" where
  "plain_values substitutions \<longleftrightarrow> (\<forall>w v. substitutions w = Some v \<longrightarrow> no_braces v)"

lemma keyword_braces:
  "no_braces w \<Longrightarrow> no_braces k \<Longrightarrow>
   strncmp_eq (CHR ''{'' # k @ ''}'') (CHR ''{'' # w @ CHR ''}'' # s) (length w + 2) \<longleftrightarrow> w = k"
proof -
  assume w: "no_braces w" and k: "no_braces k"
  have "take (length w + 1) (k @ ''}'') = w @ ''}'' \<longleftrightarrow> w = k"
  proof
    assume a: "take (length w + 1) (k @ ''}'') = w @ ''}''"
    then have "CHR ''}'' \<in> set (take (length w + 1) (k @ ''}''))" by simp
    then have "\<not> length w < length k" using k set_take_subset [of "length w + 1" k] by (auto simp: no_braces_def)
    with a show "w = k" by (simp add: take_Cons' split: if_splits)
  qed simp
  then show ?thesis by (auto simp: strncmp_eq_def)
qed

lemma value_found:
  assumes "no_braces w" "length w + 2 < 18446744073709551616"
  shows "substitution_value node ns substitutions (CHR ''{'' # w @ CHR ''}'' # s) (length w + 2) =
    value_of node ns substitutions w"
proof -
  note kw = keyword_braces [OF assms(1), of _ s]
  have "to_u64 (int (length w + 2) - 2) = int (length w)"
    using assms(2) by (simp add: to_u64_def)
  then show ?thesis
    using kw [of "''node''"] kw [of "''ns''"] kw [of "''namespace''"]
    by (simp add: substitution_value_def value_of_def)
qed

text \<open>The loop replaces every substitution, whatever their order.\<close>

fun fill :: "(string \<Rightarrow> string option) \<Rightarrow> piece \<Rightarrow> string" where
  "fill values (Plain t) = t"
| "fill values (Braced w) = the (values w)"

definition filled :: "(string \<Rightarrow> string option) \<Rightarrow> piece list \<Rightarrow> string res" where
  "filled values ps =
     (if list_all (\<lambda>p. case p of Braced w \<Rightarrow> values w \<noteq> None | _ \<Rightarrow> True) ps then Ok (concat (map (fill values) ps))
      else Err (RCLError RCL_RET_UNKNOWN_SUBSTITUTION ''unknown substitution''))"

definition braced_count :: "piece list \<Rightarrow> nat" where
  "braced_count ps = length (filter (\<lambda>p. case p of Braced _ \<Rightarrow> True | _ \<Rightarrow> False) ps)"

lemma no_braced_left: "CHR ''{'' \<notin> set (text_of ps) \<Longrightarrow> filled values ps = Ok (text_of ps)"
proof -
  assume "CHR ''{'' \<notin> set (text_of ps)"
  then have "\<forall>p\<in>set ps. \<exists>t. p = Plain t"
    by (induction ps) (auto intro: piece_text.elims)
  then have "list_all (\<lambda>p. case p of Braced w \<Rightarrow> values w \<noteq> None | _ \<Rightarrow> True) ps" "map (fill values) ps = map piece_text ps"
    by (induction ps) auto
  then show ?thesis by (simp add: filled_def text_of_def del: map_eq_conv)
qed

lemma put_value_fill:
  assumes "values k = Some v"
  shows "filled values (map (put_value k v) ps) = filled values ps"
proof -
  have "fill values (put_value k v p) = fill values p" for p using assms by (cases p) auto
  moreover have "(case put_value k v p of Braced w \<Rightarrow> values w \<noteq> None | _ \<Rightarrow> True) = (case p of Braced w \<Rightarrow> values w \<noteq> None | _ \<Rightarrow> True)" for p
    using assms by (cases p) auto
  ultimately show ?thesis by (simp add: filled_def list.pred_map comp_def)
qed

lemma put_value_ok: "no_braces v \<Longrightarrow> list_all piece_ok ps \<Longrightarrow> list_all piece_ok (map (put_value k v) ps)"
proof -
  have "no_braces v \<Longrightarrow> piece_ok p \<Longrightarrow> piece_ok (put_value k v p)" for p by (cases p) auto
  then show "no_braces v \<Longrightarrow> list_all piece_ok ps \<Longrightarrow> list_all piece_ok (map (put_value k v) ps)"
    by (auto simp: list.pred_map list_all_iff)
qed

lemma put_value_count: "Braced k \<in> set ps \<Longrightarrow> braced_count (map (put_value k v) ps) < braced_count ps"
proof (induction ps)
  case (Cons p ps)
  have "braced_count (map (put_value k v) ps) \<le> braced_count ps"
  proof (induction ps)
    case (Cons p ps)
    then show ?case by (cases p) (auto simp: braced_count_def)
  qed simp
  with Cons show ?case by (cases p) (auto simp: braced_count_def)
qed simp

lemma value_of_plain:
  "plain_values substitutions \<Longrightarrow> no_braces node \<Longrightarrow> no_braces ns \<Longrightarrow> value_of node ns substitutions w = Some v \<Longrightarrow> no_braces v"
  by (auto simp: value_of_def plain_values_def split: if_splits)

text \<open>One round of the loop on pieces.\<close>

lemma substitute_once_pieces:
  assumes env: "documented_strings env" and ok: "list_all piece_ok ps" and o: "strchr (text_of ps) (CHR ''{'') = Some n"
  shows "\<exists>w. Braced w \<in> set ps \<and>
    substitute_once env node ns substitutions (text_of ps) n =
      (case value_of node ns substitutions w of
         None \<Rightarrow> Err (RCLError RCL_RET_UNKNOWN_SUBSTITUTION ''unknown substitution'')
       | Some v \<Rightarrow> Ok (text_of (map (put_value w v) ps)))"
proof -
  obtain t w qs where t: "text_of ps = t @ piece_text (Braced w) @ text_of qs" "no_braces t" "length t = n"
    and w: "Braced w \<in> set ps" using first_braced [OF ok o] by blast
  have pw: "no_braces w" "length w + 2 < 18446744073709551616" using ok w by (auto simp: list_all_iff)
  have eq: "text_of ps = (t @ CHR ''{'' # w) @ CHR ''}'' # text_of qs" using t by simp
  have "strchr (text_of ps) (CHR ''}'') = Some (n + length w + 1)"
    unfolding eq using t pw by (subst strchr_append) (auto simp: no_braces_def)
  moreover have "substitution_length n (n + length w + 1) = length w + 2"
    using pw by (simp add: substitution_length_def to_u64_def)
  moreover have "drop n (text_of ps) = CHR ''{'' # w @ CHR ''}'' # text_of qs" using t by simp
  moreover have "replace_all (CHR ''{'' # w @ ''}'') v (text_of ps) = text_of (map (put_value w v) ps)" for v
    by (rule replace_pieces [OF ok pw(1)])
  ultimately show ?thesis
    using w env value_found [OF pw, of node ns substitutions "text_of qs"]
    by (intro exI [of _ w]) (simp add: substitute_once_def documented_strings_def Let_def split: option.split)
qed

lemma substitute_all_pieces:
  assumes env: "documented_strings env" and vals: "plain_values substitutions" "no_braces node" "no_braces ns"
  shows "list_all piece_ok ps \<Longrightarrow>
    substitute_all env node ns substitutions (text_of ps) = Some (filled (value_of node ns substitutions) ps)"
proof (induction "braced_count ps" arbitrary: ps rule: less_induct)
  case less
  show ?case
  proof (cases "strchr (text_of ps) (CHR ''{'')")
    case None
    then have "filled (value_of node ns substitutions) ps = Ok (text_of ps)" by (simp add: strchr_None no_braced_left)
    with None show ?thesis by (simp add: substitute_all.simps)
  next
    case (Some n)
    obtain w where w: "Braced w \<in> set ps" and once: "substitute_once env node ns substitutions (text_of ps) n =
      (case value_of node ns substitutions w of
         None \<Rightarrow> Err (RCLError RCL_RET_UNKNOWN_SUBSTITUTION ''unknown substitution'')
       | Some v \<Rightarrow> Ok (text_of (map (put_value w v) ps)))"
      using substitute_once_pieces [OF env less.prems Some] by blast
    show ?thesis
    proof (cases "value_of node ns substitutions w")
      case None
      with w once Some show ?thesis
        by (subst substitute_all.simps) (force simp: filled_def list_all_iff)
    next
      case (Some v)
      then have "no_braces v" using value_of_plain vals by blast
      then have "substitute_all env node ns substitutions (text_of (map (put_value w v) ps)) =
          Some (filled (value_of node ns substitutions) (map (put_value w v) ps))"
        using less put_value_count [OF w] put_value_ok by blast
      then show ?thesis using once Some \<open>strchr (text_of ps) (CHR ''{'') = Some n\<close> put_value_fill [of "value_of node ns substitutions" w v ps]
        by (subst substitute_all.simps) simp
    qed
  qed
qed

text \<open>
  The expansion without its loop: one pass that replaces every substitution by its value, and
  the namespace in front of a relative text.
\<close>

function simultaneous :: "(string \<Rightarrow> string option) \<Rightarrow> string \<Rightarrow> string option" where
  "simultaneous values [] = Some []"
| "simultaneous values (c # s) =
     (if c = CHR ''{'' then
        (case values (takeWhile (\<lambda>x. x \<noteq> CHR ''}'') s) of
           None \<Rightarrow> None
         | Some v \<Rightarrow> map_option (\<lambda>r. v @ r) (simultaneous values (tl (dropWhile (\<lambda>x. x \<noteq> CHR ''}'') s))))
      else map_option (\<lambda>r. c # r) (simultaneous values s))"
  by pat_completeness auto
termination
  by (relation "measure (\<lambda>(_, s). length s)") (auto simp: le_imp_less_Suc length_dropWhile_le diff_le_self le_trans [OF diff_le_self])

definition join_namespace :: "string \<Rightarrow> string \<Rightarrow> string" where
  "join_namespace ns s = (if ns = ''/'' then ns @ s else ns @ ''/'' @ s)"

definition expanded_name :: "(string \<Rightarrow> string option) \<Rightarrow> string \<Rightarrow> string \<Rightarrow> string \<Rightarrow> string res" where
  "expanded_name values node ns name =
     (case simultaneous values
        (if hd name = CHR ''~'' then join_namespace ns node @ tl name else name) of
        None \<Rightarrow> Err (RCLError RCL_RET_UNKNOWN_SUBSTITUTION ''unknown substitution'')
      | Some s \<Rightarrow> Ok (if s \<noteq> [] \<and> hd s = CHR ''/'' then s else join_namespace ns s))"

definition documented_rmw :: "'a name_env_scheme \<Rightarrow> bool" where
  "documented_rmw env \<longleftrightarrow>
     (\<forall>s. rmw_validate_node_name env s = RMW_VALID \<longrightarrow> list_all name_char s) \<and>
     (\<forall>s. rmw_validate_namespace env s = RMW_VALID \<longrightarrow>
        s \<noteq> [] \<and> hd s = CHR ''/'' \<and> list_all (\<lambda>c. name_char c \<or> c = CHR ''/'') s)"

lemma simultaneous_plain: "no_braces t \<Longrightarrow> simultaneous values (t @ s) = map_option (\<lambda>r. t @ r) (simultaneous values s)"
  by (cases "simultaneous values s"; induction t) auto

lemma simultaneous_pieces:
  "list_all piece_ok ps \<Longrightarrow> filled values ps =
    (case simultaneous values (text_of ps) of
       None \<Rightarrow> Err (RCLError RCL_RET_UNKNOWN_SUBSTITUTION ''unknown substitution'') | Some s \<Rightarrow> Ok s)"
proof (induction ps)
  case (Cons p ps)
  show ?case
  proof (cases p)
    case (Plain t)
    with Cons show ?thesis by (auto simp: simultaneous_plain filled_def split: option.splits if_splits)
  next
    case (Braced w)
    then have "\<forall>c\<in>set w. c \<noteq> CHR ''}''" using Cons.prems by (auto simp: no_braces_def)
    then have "takeWhile (\<lambda>x. x \<noteq> CHR ''}'') (w @ CHR ''}'' # text_of ps) = w"
      "dropWhile (\<lambda>x. x \<noteq> CHR ''}'') (w @ CHR ''}'' # text_of ps) = CHR ''}'' # text_of ps"
      by (simp_all add: takeWhile_append2 dropWhile_append2)
    with Braced Cons show ?thesis by (auto simp: filled_def split: option.splits if_splits)
  qed
qed (simp add: filled_def)

lemma name_chars_plain: "list_all (\<lambda>c. name_char c \<or> c = CHR ''/'') s \<Longrightarrow> no_braces s"
  by (auto simp: no_braces_def list_all_iff)

lemma items_pieces:
  "name_items s \<Longrightarrow> length s < 18446744073709551616 \<Longrightarrow> \<exists>ps. list_all piece_ok ps \<and> s = text_of ps"
proof (induction rule: name_items.induct)
  case items_end
  show ?case by (intro exI [of _ "[]"]) simp
next
  case (items_char c s)
  then obtain ps where "list_all piece_ok ps" "s = text_of ps" by auto
  with items_char show ?case by (intro exI [of _ "Plain [c] # ps"]) auto
next
  case (items_substitution w s)
  then obtain ps where "list_all piece_ok ps" "s = text_of ps" by auto
  with items_substitution show ?case
    by (intro exI [of _ "Braced w # ps"]) (auto simp: list_all_iff intro!: name_chars_plain)
qed

lemma simultaneous_no_braces:
  "list_all piece_ok ps \<Longrightarrow> \<forall>w v. values w = Some v \<longrightarrow> no_braces v \<Longrightarrow> simultaneous values (text_of ps) = Some s \<Longrightarrow> no_braces s"
proof -
  assume a: "list_all piece_ok ps" "\<forall>w v. values w = Some v \<longrightarrow> no_braces v" "simultaneous values (text_of ps) = Some s"
  then have "Ok s = filled values ps" by (simp add: simultaneous_pieces)
  then have s: "s = concat (map (fill values) ps)" and all: "list_all (\<lambda>p. case p of Braced w \<Rightarrow> values w \<noteq> None | _ \<Rightarrow> True) ps"
    by (auto simp: filled_def split: if_splits)
  from all a(1) show "no_braces s" unfolding s
  proof (induction ps)
    case (Cons p ps)
    then show ?case using a(2) by (cases p) auto
  qed simp
qed

lemma valid_name_facts:
  "fst (rcl_validate_topic_name env name) = RCL_TOPIC_NAME_VALID \<Longrightarrow> documented_isalnum env \<Longrightarrow>
   name \<noteq> [] \<and> name_items (without_tilde name)"
  using verdict_invalid check_name [of env name]
  by (fastforce simp: rcl_validate_topic_name_def hd_conv_nth split: sum.splits option.splits if_splits)

definition expandable :: "'a name_env_scheme \<Rightarrow> string \<Rightarrow> string \<Rightarrow> (string \<Rightarrow> string option) \<Rightarrow> string \<Rightarrow> bool" where
  "expandable env node ns substitutions name \<longleftrightarrow>
     documented_isalnum env \<and> documented_strings env \<and> documented_rmw env \<and> plain_values substitutions \<and>
     length name + length node + length ns + 1 < 18446744073709551616 \<and>
     fst (rcl_validate_topic_name env name) = RCL_TOPIC_NAME_VALID \<and>
     rmw_validate_node_name env node = RMW_VALID \<and> rmw_validate_namespace env ns = RMW_VALID"

abbreviation whole_name :: "string \<Rightarrow> string \<Rightarrow> string \<Rightarrow> string" where
  "whole_name node ns name \<equiv> if hd name = CHR ''~'' then join_namespace ns node @ tl name else name"

lemma expandable_facts:
  assumes "expandable env node ns substitutions name"
  shows "name \<noteq> []" "name_items (without_tilde name)" "ns \<noteq> []" "hd ns = CHR ''/''" "no_braces ns" "no_braces node"
    "length ns = 1 \<longleftrightarrow> ns = ''/''" "documented_strings env" "plain_values substitutions"
    "expand_checks env name node ns = Ok ()"
proof -
  note e = assms [unfolded expandable_def documented_rmw_def]
  show "name \<noteq> []" "name_items (without_tilde name)" using e valid_name_facts by blast+
  show ns: "ns \<noteq> []" "hd ns = CHR ''/''" using e by blast+
  show "no_braces ns" "no_braces node" using e by (auto simp: list_all_iff intro!: name_chars_plain)
  show "length ns = 1 \<longleftrightarrow> ns = ''/''" using ns by (cases ns) auto
  show "documented_strings env" "plain_values substitutions" using e by blast+
  show "expand_checks env name node ns = Ok ()" using e by (simp add: expand_checks_def rmw_check_def)
qed

lemma join_plain: "no_braces ns \<Longrightarrow> no_braces s \<Longrightarrow> no_braces (join_namespace ns s)"
  by (simp add: join_namespace_def)

lemma whole_pieces:
  assumes "expandable env node ns substitutions name"
  shows "\<exists>ps. list_all piece_ok ps \<and> whole_name node ns name = text_of ps"
proof -
  note n = expandable_facts [OF assms]
  have "length (without_tilde name) < 18446744073709551616"
    using assms by (auto simp: without_tilde_def expandable_def)
  then obtain ps where "list_all piece_ok ps" "without_tilde name = text_of ps"
    using items_pieces [OF n(2)] by blast
  moreover have "no_braces (join_namespace ns node)" using join_plain n by blast
  ultimately show ?thesis using n(1)
    by (cases "hd name = CHR ''~''")
      (auto simp: without_tilde_def intro: exI [of _ ps] exI [of _ "Plain (join_namespace ns node) # ps"])
qed

lemma whole_brace:
  assumes "expandable env node ns substitutions name"
  shows "CHR ''{'' \<in> set (whole_name node ns name) \<longleftrightarrow> CHR ''{'' \<in> set name"
proof -
  note n = expandable_facts [OF assms]
  have "CHR ''{'' \<notin> set (join_namespace ns node)" using join_plain n(5,6) by (auto simp: no_braces_def)
  then show ?thesis using n(1) by (cases name) auto
qed

lemma tilde_done:
  "expandable env node ns substitutions name \<Longrightarrow> expand_tilde env name node ns = Ok (whole_name node ns name)"
  using expandable_facts [of env node ns substitutions name]
  by (simp add: expand_tilde_def documented_strings_def alloc_or_def join_namespace_def hd_conv_nth)

lemma whole_result:
  assumes e: "expandable env node ns substitutions name"
  shows "(if strchr name (CHR ''{'') \<noteq> None then substitute_all env node ns substitutions (whole_name node ns name)
      else Some (Ok (whole_name node ns name))) =
   Some (case simultaneous (value_of node ns substitutions) (whole_name node ns name) of
       None \<Rightarrow> Err (RCLError RCL_RET_UNKNOWN_SUBSTITUTION ''unknown substitution'') | Some s \<Rightarrow> Ok s)" (is "?l = Some ?r")
proof -
  note n = expandable_facts [OF e]
  obtain ps where ps: "list_all piece_ok ps" "whole_name node ns name = text_of ps" using whole_pieces [OF e] by blast
  note r = simultaneous_pieces [OF ps(1), of "value_of node ns substitutions", folded ps(2)]
  show ?thesis
  proof (cases "strchr name (CHR ''{'')")
    case None
    then have "CHR ''{'' \<notin> set (text_of ps)" using whole_brace [OF e] ps(2) by (simp add: strchr_None)
    then have "filled (value_of node ns substitutions) ps = Ok (whole_name node ns name)" using no_braced_left ps(2) by simp
    with None r show ?thesis by simp
  next
    case (Some m)
    have "substitute_all env node ns substitutions (text_of ps) = Some (filled (value_of node ns substitutions) ps)"
      by (rule substitute_all_pieces [OF n(8,9,6,5) ps(1)])
    with Some r ps(2) show ?thesis by simp
  qed
qed

lemma expand_result:
  assumes e: "expandable env node ns substitutions name"
  shows "rcl_expand_topic_name env name node ns substitutions = Some (expanded_name (value_of node ns substitutions) node ns name)"
proof (cases "name ! 0 = CHR ''/'' \<and> strchr name (CHR ''{'') = None")
  case True
  note n = expandable_facts [OF e]
  have h: "name ! 0 = hd name" using n(1) by (simp add: hd_conv_nth)
  have "simultaneous (value_of node ns substitutions) name = Some name"
    using whole_result [OF e] True h by (auto split: option.splits)
  with True h n show ?thesis
    by (simp add: rcl_expand_topic_name_def expanded_name_def alloc_or_def strdup_def documented_strings_def)
next
  case False
  note n = expandable_facts [OF e]
  have "expand_relative env ns s = Ok (if s \<noteq> [] \<and> hd s = CHR ''/'' then s else join_namespace ns s)" for s
    using n(7,8) by (cases s) (simp_all add: expand_relative_def documented_strings_def alloc_or_def join_namespace_def)
  with False n(10) whole_result [OF e] show ?thesis
    by (auto simp: rcl_expand_topic_name_def tilde_done [OF e] expanded_name_def Let_def split: option.split)
qed

lemma expanded_absolute:
  assumes e: "expandable env node ns substitutions name"
    and "expanded_name (value_of node ns substitutions) node ns name = Ok s"
  shows "s \<noteq> [] \<and> hd s = CHR ''/'' \<and> no_braces s"
proof -
  note n = expandable_facts [OF e]
  obtain u where u: "simultaneous (value_of node ns substitutions) (whole_name node ns name) = Some u"
    and s: "s = (if u \<noteq> [] \<and> hd u = CHR ''/'' then u else join_namespace ns u)"
    using assms(2) by (auto simp: expanded_name_def split: option.splits)
  obtain ps where ps: "list_all piece_ok ps" "whole_name node ns name = text_of ps" using whole_pieces [OF e] by blast
  have "no_braces u"
    by (rule simultaneous_no_braces [OF ps(1) _ u [unfolded ps(2)]]) (use value_of_plain [OF n(9,6,5)] in blast)
  then have "no_braces s" using s join_plain [OF n(5)] by simp
  moreover have "join_namespace ns u \<noteq> [] \<and> hd (join_namespace ns u) = CHR ''/''" using n(3,4) by (simp add: join_namespace_def)
  ultimately show ?thesis using s by metis
qed

text \<open>C10.
  The expansion of a valid name for a valid node and namespace returns, although its loop looks
  for braces in a text that grows: if the values of the substitution map hold no braces, it
  returns what one simultaneous pass gives (the namespace and the node for a tilde, the value of
  every substitution, the namespace in front of a relative result), or the error for a
  substitution without a value; a result is absolute and holds no braces.\<close>

theorem expand_valid_name:
  assumes "documented_isalnum env" "documented_strings env" "documented_rmw env"
    and "plain_values substitutions" "length name + length node + length ns + 1 < 18446744073709551616"
    and "fst (rcl_validate_topic_name env name) = RCL_TOPIC_NAME_VALID"
    and "rmw_validate_node_name env node = RMW_VALID" "rmw_validate_namespace env ns = RMW_VALID"
  shows "rcl_expand_topic_name env name node ns substitutions =
      Some (expanded_name (value_of node ns substitutions) node ns name) \<and>
    (\<forall>s. rcl_expand_topic_name env name node ns substitutions = Some (Ok s) \<longrightarrow>
       s \<noteq> [] \<and> hd s = CHR ''/'' \<and> no_braces s)"
proof -
  have e: "expandable env node ns substitutions name" using assms by (simp add: expandable_def)
  show ?thesis using expand_result [OF e] expanded_absolute [OF e] by simp
qed

lemma plain_documented:
  "documented_strings plain_names" "documented_rmw plain_names"
proof -
  have word: "token_word s \<Longrightarrow> list_all name_char s" for s
    using token_chars by (auto simp: list_all_iff name_char_def)
  have "list_all token_word ts \<Longrightarrow> list_all (\<lambda>c. name_char c \<or> c = CHR ''/'') (slashed ts)" for ts
    using word by (auto simp: list_all_iff slashed_def)
  moreover have "list_all token_word ts \<Longrightarrow> ts \<noteq> [] \<Longrightarrow> slashed ts \<noteq> [] \<and> hd (slashed ts) = CHR ''/''" for ts
    by (cases ts) (auto simp: slashed_def)
  ultimately show "documented_rmw plain_names" using word
    by (auto simp: documented_rmw_def plain_names_def rule_namespace_def hd_append slashed_def split: if_splits)
qed (simp add: documented_strings_def plain_names_def)

theorem expand_valid_name_witness:
  "rcl_expand_topic_name plain_names ''~/{arm}/{node}'' ''talker'' ''/robot'' [''arm'' \<mapsto> ''left''] =
     Some (Ok ''/robot/talker/left/talker'')"
proof -
  have node: "token_word ''talker''" by (simp add: token_word_Cons letter_def in_range_def alnum_def)
  have "token_word ''robot''" by (simp add: token_word_Cons letter_def in_range_def alnum_def)
  then have ns: "rule_namespace ''/robot''" unfolding rule_namespace_def by (intro exI [of _ "[''robot'']"]) simp
  have valid: "fst (rcl_validate_topic_name plain_names ''~/{arm}/{node}'') = RCL_TOPIC_NAME_VALID"
    by (simp add: rcl_validate_topic_name_def plain_names_def alnum_def letter_def in_range_def is_digit_def upt_rec)
  have "rcl_expand_topic_name plain_names ''~/{arm}/{node}'' ''talker'' ''/robot'' [''arm'' \<mapsto> ''left''] =
    Some (expanded_name (value_of ''talker'' ''/robot'' [''arm'' \<mapsto> ''left'']) ''talker'' ''/robot'' ''~/{arm}/{node}'')"
    by (rule expand_valid_name [THEN conjunct1])
      (use node ns valid plain_isalnum plain_documented in \<open>simp_all add: plain_names_def plain_values_def\<close>)
  then show ?thesis by (simp add: expanded_name_def join_namespace_def value_of_def)
qed

end
