(* ===== verification/NameRemap.thy ===== *)
theory NameRemap
  imports TopicNames
begin

text \<open>
  The remapping of names by the rules of the command line (\<open>rcl/src/rcl/remap.c\<close>). A name is
  remapped by the first rule that applies, the rules of the node before those of the process.
  For rules that the parser of \<open>arguments.c\<close> has accepted the theory gives the result of the four
  entry points in closed form, composing the grammar of the rules, the validation of topic names
  and their expansion.
\<close>

unbundle bit_operations_syntax

text \<open>The outcome of setting up and of releasing the empty substitution map.\<close>

record remap_env = name_env +
  string_map_init_ok :: bool
  string_map_fini_ok :: bool

type_synonym substitution_map = "string \<Rightarrow> string option"

text \<open>
  Null pointers of the callers: node names and namespaces are remapped without a name, a namespace
  and a substitution map, and the expansion rejects null arguments.
\<close>

definition expand_arguments ::
  "'a name_env_scheme \<Rightarrow> string option \<Rightarrow> string \<Rightarrow> string option \<Rightarrow> substitution_map option \<Rightarrow> string res option" where
  "expand_arguments env name node ns substitutions =
     (case (name, ns, substitutions) of
        (Some t, Some n, Some m) \<Rightarrow> rcl_expand_topic_name env t node n m
      | _ \<Rightarrow> Some (Err (RCLError RCL_RET_INVALID_ARGUMENT ''argument is null'')))"

text \<open>
  The first rule of a chain that applies to the name; the outer option is the termination of the
  expansions. Errors of the expansion that would repeat stop the search, the others skip the rule.
\<close>

fun rcl_remap_first_match ::
  "'a name_env_scheme \<Rightarrow> rcl_remap_impl_t list \<Rightarrow> u32 \<Rightarrow> string option \<Rightarrow> string \<Rightarrow> string option \<Rightarrow>
   substitution_map option \<Rightarrow> rcl_remap_impl_t option res option" where
  "rcl_remap_first_match env [] type_bitmask name node ns substitutions = Some (Ok None)"
| "rcl_remap_first_match env (r # rules) type_bitmask name node ns substitutions =
     (if remap_type r AND type_bitmask = 0
      then rcl_remap_first_match env rules type_bitmask name node ns substitutions
      else if node_name r \<noteq> None \<and> node_name r \<noteq> Some node
      then rcl_remap_first_match env rules type_bitmask name node ns substitutions
      else if remap_type r AND (RCL_TOPIC_REMAP OR RCL_SERVICE_REMAP) \<noteq> 0 then
        (case expand_arguments env (match r) node ns substitutions of
           None \<Rightarrow> None
         | Some (Inl (RCLError code msg)) \<Rightarrow>
             if code = RCL_RET_NODE_INVALID_NAMESPACE \<or> code = RCL_RET_NODE_INVALID_NAME \<or> code = RCL_RET_BAD_ALLOC
             then Some (Err (RCLError code ''''))
             else rcl_remap_first_match env rules type_bitmask name node ns substitutions
         | Some (Inl e) \<Rightarrow> Some (Err e)
         | Some (Inr expanded_match) \<Rightarrow>
             (case name of
                None \<Rightarrow> Some (Err (Undefined_behaviour ''comparison with a null pointer''))
              | Some n \<Rightarrow>
                  if expanded_match = n then Some (Ok (Some r))
                  else rcl_remap_first_match env rules type_bitmask name node ns substitutions))
      else Some (Ok (Some r)))"

text \<open>The replacement of the rule that was found.\<close>

definition apply_rule ::
  "'a name_env_scheme \<Rightarrow> rcl_remap_impl_t \<Rightarrow> string \<Rightarrow> string option \<Rightarrow> substitution_map option \<Rightarrow> string res option" where
  "apply_rule env r node ns substitutions =
     (if remap_type r AND (RCL_TOPIC_REMAP OR RCL_SERVICE_REMAP) \<noteq> 0
      then expand_arguments env (replacement r) node ns substitutions
      else Some (case replacement r of
          None \<Rightarrow> Err (RCLError RCL_RET_ERROR ''Failed to set output'')
        | Some s \<Rightarrow> (case strdup env s of
              None \<Rightarrow> Err (RCLError RCL_RET_ERROR ''Failed to set output'')
            | Some out \<Rightarrow> Ok out)))"

text \<open>
  Arguments are \<open>None\<close> for a null pointer as well as for arguments without implementation, which the
  code treats alike; the result is \<open>None\<close> when no rule applies (\<open>output_name\<close> stays null).
\<close>

definition chain_match ::
  "'a name_env_scheme \<Rightarrow> rcl_arguments_impl_t option \<Rightarrow> u32 \<Rightarrow> string option \<Rightarrow> string \<Rightarrow> string option \<Rightarrow>
   substitution_map option \<Rightarrow> rcl_remap_impl_t option res option" where
  "chain_match env args type_bitmask name node ns substitutions =
     (case args of
        None \<Rightarrow> Some (Ok None)
      | Some a \<Rightarrow> rcl_remap_first_match env (remap_rules a) type_bitmask name node ns substitutions)"

definition rcl_remap_name ::
  "'a name_env_scheme \<Rightarrow> rcl_arguments_impl_t option \<Rightarrow> rcl_arguments_impl_t option \<Rightarrow> u32 \<Rightarrow> string option \<Rightarrow> string \<Rightarrow>
   string option \<Rightarrow> substitution_map option \<Rightarrow> string option res option" where
  "rcl_remap_name env local_arguments global_arguments type_bitmask name node ns substitutions =
     (if local_arguments = None \<and> global_arguments = None
      then Some (Err (RCLError RCL_RET_INVALID_ARGUMENT ''local_arguments invalid and not using global arguments''))
      else
        (case chain_match env local_arguments type_bitmask name node ns substitutions of
           None \<Rightarrow> None
         | Some (Inl e) \<Rightarrow> Some (Err e)
         | Some (Inr local_rule) \<Rightarrow>
             (case (if local_rule = None then chain_match env global_arguments type_bitmask name node ns substitutions
                    else Some (Ok local_rule)) of
                None \<Rightarrow> None
              | Some (Inl e) \<Rightarrow> Some (Err e)
              | Some (Inr None) \<Rightarrow> Some (Ok None)
              | Some (Inr (Some r)) \<Rightarrow>
                  map_option (\<lambda>out. bindR out (\<lambda>s. Ok (Some s))) (apply_rule env r node ns substitutions))))"

definition rcl_get_default_topic_name_substitutions :: substitution_map where
  "rcl_get_default_topic_name_substitutions = Map.empty"

text \<open>Topic and service names are remapped with a fresh map of the default substitutions.\<close>

definition with_substitutions ::
  "'a remap_env_scheme \<Rightarrow> (substitution_map \<Rightarrow> string option res option) \<Rightarrow> string option res option" where
  "with_substitutions env body =
     (case (if string_map_init_ok env then body rcl_get_default_topic_name_substitutions
            else Some (Err (RCLError RCL_RET_ERROR ''''))) of
        None \<Rightarrow> None
      | Some ret \<Rightarrow> Some (if string_map_fini_ok env then ret else Err (RCLError RCL_RET_ERROR '''')))"

definition rcl_remap_topic_name ::
  "'a remap_env_scheme \<Rightarrow> rcl_arguments_impl_t option \<Rightarrow> rcl_arguments_impl_t option \<Rightarrow> string \<Rightarrow> string \<Rightarrow> string \<Rightarrow>
   string option res option" where
  "rcl_remap_topic_name env local_arguments global_arguments topic_name node ns =
     with_substitutions env (\<lambda>substitutions.
       rcl_remap_name env local_arguments global_arguments RCL_TOPIC_REMAP (Some topic_name) node (Some ns) (Some substitutions))"

definition rcl_remap_service_name ::
  "'a remap_env_scheme \<Rightarrow> rcl_arguments_impl_t option \<Rightarrow> rcl_arguments_impl_t option \<Rightarrow> string \<Rightarrow> string \<Rightarrow> string \<Rightarrow>
   string option res option" where
  "rcl_remap_service_name env local_arguments global_arguments service_name node ns =
     with_substitutions env (\<lambda>substitutions.
       rcl_remap_name env local_arguments global_arguments RCL_SERVICE_REMAP (Some service_name) node (Some ns) (Some substitutions))"

definition rcl_remap_node_name ::
  "'a name_env_scheme \<Rightarrow> rcl_arguments_impl_t option \<Rightarrow> rcl_arguments_impl_t option \<Rightarrow> string \<Rightarrow> string option res option" where
  "rcl_remap_node_name env local_arguments global_arguments node =
     rcl_remap_name env local_arguments global_arguments RCL_NODENAME_REMAP None node None None"

definition rcl_remap_node_namespace ::
  "'a name_env_scheme \<Rightarrow> rcl_arguments_impl_t option \<Rightarrow> rcl_arguments_impl_t option \<Rightarrow> string \<Rightarrow> string option res option" where
  "rcl_remap_node_namespace env local_arguments global_arguments node =
     rcl_remap_name env local_arguments global_arguments RCL_NAMESPACE_REMAP None node None None"

section \<open>The names of a rule are valid topic names\<close>

lemma name_items_append: "name_items s \<Longrightarrow> name_items t \<Longrightarrow> name_items (s @ t)"
  by (induction rule: name_items.induct) (auto intro: name_items.intros)

lemma name_items_chars: "list_all (\<lambda>c. name_char c \<or> c = CHR ''/'') s \<Longrightarrow> name_items s"
  by (induction s) (auto intro: name_items.intros)

lemma slash_chars: "token_word t \<Longrightarrow> list_all token_word ts \<Longrightarrow> list_all (\<lambda>c. name_char c \<or> c = CHR ''/'') (t @ slashed ts)"
proof -
  have word: "token_word t \<Longrightarrow> list_all (\<lambda>c. name_char c \<or> c = CHR ''/'') t" for t
    using token_chars by (auto simp: list_all_iff name_char_def)
  assume "token_word t"
  moreover assume "list_all token_word ts"
  then have "list_all (\<lambda>c. name_char c \<or> c = CHR ''/'') (slashed ts)" by (induction ts) (auto dest: word)
  ultimately show ?thesis using word by simp
qed

lemma token_first: "token_word t \<Longrightarrow> t \<noteq> [] \<and> \<not> is_digit (hd t) \<and> hd t \<noteq> CHR ''/'' \<and> hd t \<noteq> CHR ''~''"
  by (cases t) (auto simp: token_word_Cons letter_def in_range_def is_digit_def)

lemma token_slashes: "token_word t \<Longrightarrow> i < length t \<Longrightarrow> t ! i \<noteq> CHR ''/''"
  using token_chars [of t "t ! i"] nth_mem [of i t] by (fastforce simp: alnum_def letter_def in_range_def)

lemma slashed_last: "token_word t \<Longrightarrow> list_all token_word ts \<Longrightarrow> last (t @ slashed ts) \<noteq> CHR ''/''"
proof (induction ts arbitrary: t)
  case Nil
  then show ?case using token_slashes [of t "length t - 1"] token_first [of t] by (simp add: last_conv_nth)
next
  case (Cons u ts)
  then show ?case using token_first [of u] by (auto simp: last_append)
qed

lemma slashed_digits:
  "token_word t \<Longrightarrow> list_all token_word ts \<Longrightarrow> Suc i < length (t @ slashed ts) \<Longrightarrow> (t @ slashed ts) ! i = CHR ''/'' \<Longrightarrow>
   \<not> is_digit ((t @ slashed ts) ! Suc i)"
proof (induction ts arbitrary: t i)
  case Nil
  then show ?case using token_slashes [of t i] by simp
next
  case (Cons u ts)
  have i: "length t \<le> i" using Cons.prems token_slashes [of t i] by (cases "i < length t") (auto simp: nth_append)
  define j where "j = i - length t"
  have s: "(t @ slashed (u # ts)) ! i = (CHR ''/'' # u @ slashed ts) ! j"
    "(t @ slashed (u # ts)) ! Suc i = (u @ slashed ts) ! j"
    using i by (simp_all add: j_def nth_append Suc_diff_le)
  show ?case
  proof (cases j)
    case 0
    then show ?thesis using s(2) token_first [of u] Cons.prems(2) by (cases u) auto
  next
    case (Suc k)
    then have "Suc k < length (u @ slashed ts)" "(u @ slashed ts) ! k = CHR ''/''"
      using Cons.prems(3,4) i s by (auto simp: j_def)
    with Cons.IH [of u k] Cons.prems(2) Suc s(2) show ?thesis by simp
  qed
qed

lemma rule_name_valid:
  assumes doc: "documented_isalnum env" and m: "rule_name m"
  shows "fst (rcl_validate_topic_name env m) = RCL_TOPIC_NAME_VALID"
proof -
  obtain p t ts where p: "p \<in> {[], ''/'', ''~/''}" and t: "token_word t" "list_all token_word ts" and m': "m = p @ t @ slashed ts"
    using m unfolding rule_name_def by blast
  let ?s = "t @ slashed ts"
  note first = token_first [OF t(1)]
  have s: "?s \<noteq> []" "last ?s \<noteq> CHR ''/''" "name_items ?s" "hd ?s = hd t"
    using first slashed_last [OF t] name_items_chars [OF slash_chars [OF t]] by auto
  have d: "Suc i < length m \<Longrightarrow> m ! i = CHR ''/'' \<Longrightarrow> \<not> is_digit (m ! Suc i)" for i
  proof -
    assume i: "Suc i < length m" "m ! i = CHR ''/''"
    consider "length p \<le> i" | "i < length p" by linarith
    then show ?thesis
    proof cases
      case 1
      then show ?thesis using i slashed_digits [OF t, of "i - length p"] by (simp add: m' nth_append Suc_diff_le split: if_splits)
    next
      case 2
      have "Suc i = length p" using 2 i p m' by (auto simp: less_Suc_eq)
      then have "m ! Suc i = hd t" using first by (simp add: m' nth_append hd_conv_nth)
      then show ?thesis using first by simp
    qed
  qed
  have "\<not> is_digit (CHR ''/'')" "\<not> is_digit (CHR ''~'')" by (simp_all add: is_digit_def in_range_def)
  then have "m \<noteq> [] \<and> \<not> is_digit (hd m) \<and> last m \<noteq> CHR ''/'' \<and> name_items (without_tilde m) \<and>
      (2 < length m \<and> hd m = CHR ''~'' \<longrightarrow> m ! 1 = CHR ''/'')"
    using p s first by (auto simp: m' without_tilde_def intro: name_items.intros)
  with d show ?thesis unfolding valid_topic_name_iff [OF doc] by blast
qed

text \<open>The fully qualified name of a name of a rule: rules have no substitutions.\<close>

definition qualified_name :: "string \<Rightarrow> string \<Rightarrow> string \<Rightarrow> string" where
  "qualified_name node ns m =
     (if hd m = CHR ''~'' then join_namespace ns node @ tl m else if hd m = CHR ''/'' then m else join_namespace ns m)"

text \<open>The setting in which a process remaps names: the documented libraries and a valid node.\<close>

definition remap_setting :: "'a name_env_scheme \<Rightarrow> string \<Rightarrow> string \<Rightarrow> bool" where
  "remap_setting env node ns \<longleftrightarrow>
     documented_isalnum env \<and> documented_strings env \<and> documented_rmw env \<and>
     rmw_validate_node_name env node = RMW_VALID \<and> rmw_validate_namespace env ns = RMW_VALID"

definition fits :: "string \<Rightarrow> string \<Rightarrow> string option \<Rightarrow> bool" where
  "fits node ns m \<longleftrightarrow> (case m of None \<Rightarrow> True | Some t \<Rightarrow> length t + length node + length ns + 1 < 18446744073709551616)"

lemma simultaneous_id: "CHR ''{'' \<notin> set s \<Longrightarrow> simultaneous values s = Some s"
  by (induction s) auto

lemma expand_rule_name:
  assumes env: "remap_setting env node ns" and m: "rule_name m" and short: "fits node ns (Some m)"
  shows "rcl_expand_topic_name env m node ns Map.empty = Some (Ok (qualified_name node ns m))"
proof -
  have e: "expandable env node ns Map.empty m"
    using env short rule_name_valid [OF _ m] by (auto simp: expandable_def remap_setting_def plain_values_def fits_def)
  note n = expandable_facts [OF e]
  obtain p t ts where p: "p \<in> {[], ''/'', ''~/''}" and t: "token_word t" "list_all token_word ts" and m': "m = p @ t @ slashed ts"
    using m unfolding rule_name_def by blast
  have "no_braces m" using p name_chars_plain [OF slash_chars [OF t]] by (auto simp: m')
  then have "CHR ''{'' \<notin> set (whole_name node ns m)" using whole_brace [OF e] by (auto simp: no_braces_def)
  then have "simultaneous (value_of node ns Map.empty) (whole_name node ns m) = Some (whole_name node ns m)"
    by (rule simultaneous_id)
  then show ?thesis using expand_result [OF e] n(1,3,4)
    by (simp add: expanded_name_def qualified_name_def join_namespace_def)
qed

section \<open>The result of remapping\<close>

text \<open>The rules that apply to a name, and the chain of rules of a call.\<close>

definition name_rule_applies :: "u32 \<Rightarrow> string \<Rightarrow> string \<Rightarrow> string \<Rightarrow> rcl_remap_impl_t \<Rightarrow> bool" where
  "name_rule_applies type_bitmask name node ns r \<longleftrightarrow>
     remap_type r AND type_bitmask \<noteq> 0 \<and> (node_name r = None \<or> node_name r = Some node) \<and>
     qualified_name node ns (the (match r)) = name"

definition node_rule_applies :: "u32 \<Rightarrow> string \<Rightarrow> rcl_remap_impl_t \<Rightarrow> bool" where
  "node_rule_applies type_bitmask node r \<longleftrightarrow> remap_type r = type_bitmask \<and> (node_name r = None \<or> node_name r = Some node)"

definition rules_of :: "rcl_arguments_impl_t option \<Rightarrow> rcl_remap_impl_t list" where
  "rules_of args = (case args of None \<Rightarrow> [] | Some a \<Rightarrow> remap_rules a)"

definition rules_ok :: "string \<Rightarrow> string \<Rightarrow> rcl_remap_impl_t list \<Rightarrow> bool" where
  "rules_ok node ns rules \<longleftrightarrow> list_all (\<lambda>r. rule_ok r \<and> fits node ns (match r) \<and> fits node ns (replacement r)) rules"

lemma name_rule_match:
  assumes "rule_ok r" "remap_type r AND bits \<noteq> 0" "bits \<in> {RCL_TOPIC_REMAP, RCL_SERVICE_REMAP}"
  shows "remap_type r AND (RCL_TOPIC_REMAP OR RCL_SERVICE_REMAP) \<noteq> 0 \<and>
    (\<exists>m p. match r = Some m \<and> replacement r = Some p \<and> rule_name m \<and> rule_name p)"
  using assms by (auto simp: rule_ok_def body_ok_def split: if_splits option.splits)

lemma node_rule_match:
  assumes "rule_ok r" "bits \<in> {RCL_NODENAME_REMAP, RCL_NAMESPACE_REMAP}"
  shows "remap_type r AND bits \<noteq> 0 \<longleftrightarrow> remap_type r = bits"
    and "remap_type r = bits \<Longrightarrow> remap_type r AND (RCL_TOPIC_REMAP OR RCL_SERVICE_REMAP) = 0 \<and> replacement r \<noteq> None"
  using assms by (auto simp: rule_ok_def body_ok_def split: if_splits option.splits)

lemma first_match_names:
  assumes env: "remap_setting env node ns" and b: "bits \<in> {RCL_TOPIC_REMAP, RCL_SERVICE_REMAP}"
  shows "rules_ok node ns rules \<Longrightarrow>
    rcl_remap_first_match env rules bits (Some name) node (Some ns) (Some Map.empty) =
      Some (Ok (find (name_rule_applies bits name node ns) rules))"
proof (induction rules)
  case (Cons r rules)
  have r: "rule_ok r" "fits node ns (match r)"
    and IH: "rcl_remap_first_match env rules bits (Some name) node (Some ns) (Some Map.empty) =
      Some (Ok (find (name_rule_applies bits name node ns) rules))"
    using Cons by (simp_all add: rules_ok_def)
  show ?case
  proof (cases "remap_type r AND bits = 0 \<or> node_name r \<noteq> None \<and> node_name r \<noteq> Some node")
    case True
    then have "\<not> name_rule_applies bits name node ns r" by (auto simp: name_rule_applies_def)
    with True IH show ?thesis by auto
  next
    case False
    then have "remap_type r AND bits \<noteq> 0" by blast
    from name_rule_match [OF r(1) this b] obtain m where m: "match r = Some m" "rule_name m"
      and t: "remap_type r AND (RCL_TOPIC_REMAP OR RCL_SERVICE_REMAP) \<noteq> 0" by blast
    have "expand_arguments env (match r) node (Some ns) (Some Map.empty) = Some (Ok (qualified_name node ns m))"
      using expand_rule_name [OF env m(2)] m(1) r(2) by (simp add: expand_arguments_def)
    moreover have "name_rule_applies bits name node ns r \<longleftrightarrow> qualified_name node ns m = name"
      using False m(1) by (auto simp: name_rule_applies_def)
    ultimately show ?thesis using False t IH by auto
  qed
qed simp

lemma first_match_nodes:
  assumes b: "bits \<in> {RCL_NODENAME_REMAP, RCL_NAMESPACE_REMAP}"
  shows "list_all rule_ok rules \<Longrightarrow>
    rcl_remap_first_match env rules bits None node None None = Some (Ok (find (node_rule_applies bits node) rules))"
proof (induction rules)
  case (Cons r rules)
  have "remap_type r = bits \<Longrightarrow> remap_type r AND (RCL_TOPIC_REMAP OR RCL_SERVICE_REMAP) = 0"
    using node_rule_match(2) [OF _ b, of r] Cons.prems by simp
  moreover have "remap_type r AND bits \<noteq> 0 \<longleftrightarrow> remap_type r = bits"
    using node_rule_match(1) [OF _ b, of r] Cons.prems by simp
  ultimately show ?case using Cons by (auto simp: node_rule_applies_def)
qed simp

lemma find_append: "find P (xs @ ys) = (case find P xs of None \<Rightarrow> find P ys | Some x \<Rightarrow> Some x)"
  by (induction xs) auto

lemma find_rule: "find P xs = Some x \<Longrightarrow> x \<in> set xs \<and> P x"
  by (auto simp: find_Some_iff)

lemma remap_name_chain:
  assumes "local_arguments \<noteq> None \<or> global_arguments \<noteq> None"
    and "\<And>a. a \<in> {local_arguments, global_arguments} \<Longrightarrow>
      chain_match env a bits name node ns substitutions = Some (Ok (find P (rules_of a)))"
    and "\<And>r. find P (rules_of local_arguments @ rules_of global_arguments) = Some r \<Longrightarrow>
      apply_rule env r node ns substitutions = Some (Ok (f r))"
  shows "rcl_remap_name env local_arguments global_arguments bits name node ns substitutions =
    Some (Ok (map_option f (find P (rules_of local_arguments @ rules_of global_arguments))))"
  using assms unfolding rcl_remap_name_def find_append by (auto split: option.splits)

lemma remap_name_result:
  assumes env: "remap_setting env node ns" and b: "bits \<in> {RCL_TOPIC_REMAP, RCL_SERVICE_REMAP}"
    and a: "local_arguments \<noteq> None \<or> global_arguments \<noteq> None"
    and ok: "rules_ok node ns (rules_of local_arguments @ rules_of global_arguments)"
  shows "rcl_remap_name env local_arguments global_arguments bits (Some name) node (Some ns) (Some Map.empty) =
    Some (Ok (map_option (\<lambda>r. qualified_name node ns (the (replacement r)))
      (find (name_rule_applies bits name node ns) (rules_of local_arguments @ rules_of global_arguments))))"
proof (rule remap_name_chain [OF a])
  fix args assume "args \<in> {local_arguments, global_arguments}"
  then have "rules_ok node ns (rules_of args)" using ok by (auto simp: rules_ok_def)
  then show "chain_match env args bits (Some name) node (Some ns) (Some Map.empty) =
      Some (Ok (find (name_rule_applies bits name node ns) (rules_of args)))"
    using first_match_names [OF env b] by (cases args) (auto simp: chain_match_def rules_of_def)
next
  fix r assume "find (name_rule_applies bits name node ns) (rules_of local_arguments @ rules_of global_arguments) = Some r"
  then have "r \<in> set (rules_of local_arguments @ rules_of global_arguments)" "name_rule_applies bits name node ns r"
    by (blast dest: find_rule)+
  then have r: "rule_ok r" "fits node ns (replacement r)" "remap_type r AND bits \<noteq> 0"
    using ok by (auto simp: rules_ok_def list_all_iff name_rule_applies_def)
  from name_rule_match [OF r(1,3) b] obtain p where p: "replacement r = Some p" "rule_name p"
    and t: "remap_type r AND (RCL_TOPIC_REMAP OR RCL_SERVICE_REMAP) \<noteq> 0" by blast
  then show "apply_rule env r node (Some ns) (Some Map.empty) = Some (Ok (qualified_name node ns (the (replacement r))))"
    using expand_rule_name [OF env p(2)] r(2) by (simp add: apply_rule_def expand_arguments_def)
qed

lemma remap_node_result:
  assumes strings: "documented_strings env" and b: "bits \<in> {RCL_NODENAME_REMAP, RCL_NAMESPACE_REMAP}"
    and a: "local_arguments \<noteq> None \<or> global_arguments \<noteq> None"
    and ok: "list_all rule_ok (rules_of local_arguments @ rules_of global_arguments)"
  shows "rcl_remap_name env local_arguments global_arguments bits None node None None =
    Some (Ok (map_option (\<lambda>r. the (replacement r))
      (find (node_rule_applies bits node) (rules_of local_arguments @ rules_of global_arguments))))"
proof (rule remap_name_chain [OF a])
  fix args assume "args \<in> {local_arguments, global_arguments}"
  then have "list_all rule_ok (rules_of args)" using ok by auto
  then show "chain_match env args bits None node None None = Some (Ok (find (node_rule_applies bits node) (rules_of args)))"
    using first_match_nodes [OF b] by (cases args) (auto simp: chain_match_def rules_of_def)
next
  fix r assume "find (node_rule_applies bits node) (rules_of local_arguments @ rules_of global_arguments) = Some r"
  then have "r \<in> set (rules_of local_arguments @ rules_of global_arguments)" "node_rule_applies bits node r"
    by (blast dest: find_rule)+
  then have r: "rule_ok r" "remap_type r = bits"
    using ok by (auto simp: list_all_iff node_rule_applies_def)
  from node_rule_match(2) [OF r(1) b r(2)] strings
  show "apply_rule env r node None None = Some (Ok (the (replacement r)))"
    by (auto simp: apply_rule_def strdup_def documented_strings_def)
qed

text \<open>C8.
  Remapping a topic name with parsed rules: the search, with its expansions of both sides of the
  rules, always returns, without an error; the name is replaced by the fully qualified
  replacement of the first rule, of the node before the process, that is for topics, is not
  restricted to another node, and whose fully qualified match is the name; without such a rule
  no name is returned.\<close>

theorem remap_topic_first_rule:
  assumes "remap_setting env node ns" "string_map_init_ok env" "string_map_fini_ok env"
    and "local_arguments \<noteq> None \<or> global_arguments \<noteq> None"
    and "rules_ok node ns (rules_of local_arguments @ rules_of global_arguments)"
  shows "rcl_remap_topic_name env local_arguments global_arguments name node ns =
    Some (Ok (map_option (\<lambda>r. qualified_name node ns (the (replacement r)))
      (find (\<lambda>r. remap_type r AND RCL_TOPIC_REMAP \<noteq> 0 \<and> (node_name r = None \<or> node_name r = Some node) \<and>
               qualified_name node ns (the (match r)) = name)
         (rules_of local_arguments @ rules_of global_arguments))))"
  using remap_name_result [OF assms(1) _ assms(4,5), of RCL_TOPIC_REMAP name] assms(2,3)
  by (simp add: rcl_remap_topic_name_def with_substitutions_def rcl_get_default_topic_name_substitutions_def
      name_rule_applies_def [abs_def])

definition plain_remap :: remap_env where
  "plain_remap = name_env.extend plain_names \<lparr> string_map_init_ok = True, string_map_fini_ok = True \<rparr>"

definition demo_arguments :: "rcl_remap_impl_t list \<Rightarrow> rcl_arguments_impl_t" where
  "demo_arguments rules = \<lparr> unparsed_args = [], parameter_files = [], remap_rules = rules, log_level = -1,
     external_log_config_file = None, log_stdout_disabled = False, log_rosout_disabled = False, log_ext_lib_disabled = False \<rparr>"

definition demo_rules :: "rcl_remap_impl_t list" where
  "demo_rules = [
     \<lparr> remap_type = 2, node_name = None, match = Some ''chatter'', replacement = Some ''a'' \<rparr>,
     \<lparr> remap_type = 3, node_name = Some ''talker'', match = Some ''chatter'', replacement = Some ''~/b'' \<rparr>,
     \<lparr> remap_type = 1, node_name = None, match = Some ''/robot/chatter'', replacement = Some ''/c'' \<rparr>]"

lemma demo_words: "token_word ''talker''" "token_word ''robot''" "token_word ''chatter''" "token_word ''a''" "token_word ''b''" "token_word ''c''"
  by (simp_all add: token_word_Cons letter_def in_range_def alnum_def)

lemma demo_setting: "remap_setting plain_remap ''talker'' ''/robot''"
proof -
  have "rule_namespace ''/robot''" unfolding rule_namespace_def
    using demo_words by (intro exI [of _ "[''robot'']"]) simp
  moreover have "documented_isalnum plain_remap" "documented_strings plain_remap" "documented_rmw plain_remap"
    using plain_isalnum plain_documented
    by (simp_all add: documented_isalnum_def documented_strings_def documented_rmw_def plain_remap_def plain_names_def name_env.defs)
  ultimately show ?thesis using demo_words
    by (simp add: remap_setting_def plain_remap_def plain_names_def name_env.defs)
qed

lemma demo_rules_ok: "rules_ok ''talker'' ''/robot'' demo_rules"
proof -
  have n: "rule_name (p @ t)" if "p \<in> {[], ''/'', ''~/''}" "token_word t" for p t
    unfolding rule_name_def using that by (intro exI [of _ p] exI [of _ t] exI [of _ "[]"]) simp
  have "rule_name ''/robot/chatter''"
    unfolding rule_name_def using demo_words by (intro exI [of _ "''/''"] exI [of _ "''robot''"] exI [of _ "[''chatter'']"]) simp
  moreover have "rule_name ''chatter''" "rule_name ''a''" "rule_name ''~/b''" "rule_name ''/c''"
    using n [of "[]" "''chatter''"] n [of "[]" "''a''"] n [of "''~/''" "''b''"] n [of "''/''" "''c''"] demo_words by simp_all
  ultimately show ?thesis using demo_words by (simp add: rules_ok_def demo_rules_def rule_ok_def body_ok_def fits_def)
qed

theorem remap_topic_first_rule_witness:
  "rcl_remap_topic_name plain_remap (Some (demo_arguments [])) (Some (demo_arguments demo_rules)) ''/robot/chatter'' ''talker'' ''/robot'' =
     Some (Ok (Some ''/robot/talker/b''))"
proof -
  have "rules_ok ''talker'' ''/robot'' (rules_of (Some (demo_arguments [])) @ rules_of (Some (demo_arguments demo_rules)))"
    using demo_rules_ok by (simp add: rules_of_def demo_arguments_def)
  from remap_topic_first_rule [OF demo_setting _ _ _ this, of "''/robot/chatter''"] show ?thesis
    by (simp add: plain_remap_def name_env.defs rules_of_def demo_arguments_def demo_rules_def qualified_name_def join_namespace_def)
qed

text \<open>
  Remapping of the name and the namespace of a node with parsed rules: the first rule of that
  kind, of the node before the process, that is not restricted to another node, gives the
  new name as it is written in the rule.\<close>

lemma remap_node_first_rule:
  assumes "documented_strings env" "local_arguments \<noteq> None \<or> global_arguments \<noteq> None"
    and "list_all rule_ok (rules_of local_arguments @ rules_of global_arguments)"
  shows "rcl_remap_node_name env local_arguments global_arguments node =
      Some (Ok (map_option (\<lambda>r. the (replacement r))
        (find (\<lambda>r. remap_type r = RCL_NODENAME_REMAP \<and> (node_name r = None \<or> node_name r = Some node))
           (rules_of local_arguments @ rules_of global_arguments))))"
    and "rcl_remap_node_namespace env local_arguments global_arguments node =
      Some (Ok (map_option (\<lambda>r. the (replacement r))
        (find (\<lambda>r. remap_type r = RCL_NAMESPACE_REMAP \<and> (node_name r = None \<or> node_name r = Some node))
           (rules_of local_arguments @ rules_of global_arguments))))"
  using remap_node_result [OF assms(1) _ assms(2,3), of _ node]
  by (simp_all add: rcl_remap_node_name_def rcl_remap_node_namespace_def node_rule_applies_def [abs_def])

end
