(* ===== verification/LifecycleMachine.thy ===== *)
theory LifecycleMachine
  imports Effects "HOL-Library.Word"
begin

text \<open>
  The state machine of managed nodes in C: the map of states and transitions
  (\<open>rcl_lifecycle/src/transition_map.c\<close>), the default machine (\<open>default_state_machine.c\<close>), the
  communication interface (\<open>com_interface.c\<close>) and the triggers (\<open>rcl_lifecycle.c\<close>). Pointers to
  states are positions in the array of states together with the allocation they point into, so a
  pointer that a reallocation has made invalid is not dereferenced by accident.
\<close>

section \<open>Constants of the message package\<close>

text \<open>The constants of \<open>lifecycle_msgs\<close>, which is another package: their names, and their values as a
  parameter.\<close>

datatype state_const =
    PRIMARY_STATE_UNKNOWN
  | PRIMARY_STATE_UNCONFIGURED
  | PRIMARY_STATE_INACTIVE
  | PRIMARY_STATE_ACTIVE
  | PRIMARY_STATE_FINALIZED
  | TRANSITION_STATE_CONFIGURING
  | TRANSITION_STATE_CLEANINGUP
  | TRANSITION_STATE_SHUTTINGDOWN
  | TRANSITION_STATE_ACTIVATING
  | TRANSITION_STATE_DEACTIVATING
  | TRANSITION_STATE_ERRORPROCESSING

datatype transition_const =
    TRANSITION_CONFIGURE
  | TRANSITION_CLEANUP
  | TRANSITION_ACTIVATE
  | TRANSITION_DEACTIVATE
  | TRANSITION_UNCONFIGURED_SHUTDOWN
  | TRANSITION_INACTIVE_SHUTDOWN
  | TRANSITION_ACTIVE_SHUTDOWN
  | TRANSITION_ON_CONFIGURE_SUCCESS
  | TRANSITION_ON_CONFIGURE_FAILURE
  | TRANSITION_ON_CONFIGURE_ERROR
  | TRANSITION_ON_CLEANUP_SUCCESS
  | TRANSITION_ON_CLEANUP_FAILURE
  | TRANSITION_ON_CLEANUP_ERROR
  | TRANSITION_ON_ACTIVATE_SUCCESS
  | TRANSITION_ON_ACTIVATE_FAILURE
  | TRANSITION_ON_ACTIVATE_ERROR
  | TRANSITION_ON_DEACTIVATE_SUCCESS
  | TRANSITION_ON_DEACTIVATE_FAILURE
  | TRANSITION_ON_DEACTIVATE_ERROR
  | TRANSITION_ON_SHUTDOWN_SUCCESS
  | TRANSITION_ON_SHUTDOWN_FAILURE
  | TRANSITION_ON_SHUTDOWN_ERROR
  | TRANSITION_ON_ERROR_SUCCESS
  | TRANSITION_ON_ERROR_FAILURE
  | TRANSITION_ON_ERROR_ERROR

text \<open>
  What the code uses of its surroundings: the values of the constants (\<open>uint8_t\<close>), whether the
  reallocation of an array to \<open>n\<close> elements succeeds, whether a handle of the communication
  interface is set up and released without an error, and the result of publishing after a number
  of notifications.
\<close>

record lifecycle_env =
  state_value :: "state_const \<Rightarrow> u8"
  transition_value :: "transition_const \<Rightarrow> u8"
  callback_success :: u8
  callback_failure :: u8
  callback_error :: u8
  realloc_ok :: "string \<Rightarrow> nat \<Rightarrow> bool"
  handle_init_ok :: "string \<Rightarrow> bool"
  handle_fini_ok :: "string \<Rightarrow> bool"
  publish_result :: "nat \<Rightarrow> rcl_ret"

section \<open>States, transitions and their map\<close>

type_synonym state_ptr = "nat \<times> nat"

record rcl_lifecycle_transition_t =
  t_label :: string
  t_id :: u32
  t_start :: "state_ptr option"
  t_goal :: "state_ptr option"

record rcl_lifecycle_state_t =
  s_label :: string
  s_id :: u32
  valid_transitions :: "rcl_lifecycle_transition_t list"
  valid_transition_size :: nat

record rcl_lifecycle_transition_map_t =
  states :: "rcl_lifecycle_state_t list option"
  states_size :: nat
  transitions :: "rcl_lifecycle_transition_t list option"
  transitions_size :: nat
  states_block :: nat

definition rcl_lifecycle_get_zero_initialized_transition_map :: rcl_lifecycle_transition_map_t where
  "rcl_lifecycle_get_zero_initialized_transition_map =
     \<lparr> states = None, states_size = 0, transitions = None, transitions_size = 0, states_block = 0 \<rparr>"

definition rcl_lifecycle_transition_map_is_initialized :: "rcl_lifecycle_transition_map_t \<Rightarrow> rcl_ret" where
  "rcl_lifecycle_transition_map_is_initialized m =
     (if states m = None \<and> transitions m = None then RCL_RET_ERROR else RCL_RET_OK)"

text \<open>The arrays are released, the sizes and the transitions of the states are not touched.\<close>

definition rcl_lifecycle_transition_map_fini :: "rcl_lifecycle_transition_map_t \<Rightarrow> rcl_lifecycle_transition_map_t" where
  "rcl_lifecycle_transition_map_fini m = m\<lparr> states := None, transitions := None \<rparr>"

text \<open>A loop over the first \<open>n\<close> elements of an array that looks for an element.\<close>

fun scan_array :: "('a \<Rightarrow> bool) \<Rightarrow> 'a list \<Rightarrow> nat \<Rightarrow> nat option res" where
  "scan_array p xs 0 = Ok None"
| "scan_array p [] (Suc n) = Err (Undefined_behaviour ''array index'')"
| "scan_array p (x # xs) (Suc n) =
     (if p x then Ok (Some 0) else bindR (scan_array p xs n) (\<lambda>i. Ok (map_option Suc i)))"

definition array_of :: "'a list option \<Rightarrow> 'a list" where
  "array_of xs = (case xs of None \<Rightarrow> [] | Some ys \<Rightarrow> ys)"

definition rcl_lifecycle_get_state :: "rcl_lifecycle_transition_map_t \<Rightarrow> u32 \<Rightarrow> state_ptr option res" where
  "rcl_lifecycle_get_state m state_id =
     bindR (scan_array (\<lambda>s. s_id s = state_id) (array_of (states m)) (states_size m)) (\<lambda>i.
       Ok (map_option (\<lambda>j. (states_block m, j)) i))"

definition rcl_lifecycle_get_transitions ::
  "rcl_lifecycle_transition_map_t \<Rightarrow> u32 \<Rightarrow> rcl_lifecycle_transition_t option res" where
  "rcl_lifecycle_get_transitions m transition_id =
     bindR (scan_array (\<lambda>t. t_id t = transition_id) (array_of (transitions m)) (transitions_size m)) (\<lambda>i.
       Ok (map_option (\<lambda>j. array_of (transitions m) ! j) i))"

definition deref_state :: "rcl_lifecycle_transition_map_t \<Rightarrow> state_ptr option \<Rightarrow> rcl_lifecycle_state_t res" where
  "deref_state m p =
     (case p of
        None \<Rightarrow> Err (Undefined_behaviour ''null pointer'')
      | Some (b, i) \<Rightarrow>
          if b = states_block m \<and> i < length (array_of (states m)) then Ok (array_of (states m) ! i)
          else Err (Undefined_behaviour ''dangling pointer to a state''))"

definition rcl_lifecycle_register_state ::
  "'a lifecycle_env_scheme \<Rightarrow> rcl_lifecycle_state_t \<Rightarrow> rcl_lifecycle_transition_map_t \<Rightarrow>
   (rcl_ret \<times> rcl_lifecycle_transition_map_t) res" where
  "rcl_lifecycle_register_state env state m =
     bindR (rcl_lifecycle_get_state m (s_id state)) (\<lambda>found.
       if found \<noteq> None then Ok (RCL_RET_ERROR, m)
       else
         let n = Suc (states_size m)
         in if \<not> realloc_ok env ''states'' n then Ok (RCL_RET_ERROR, m\<lparr> states_size := n \<rparr>)
            else Ok (RCL_RET_OK, m\<lparr> states := Some (array_of (states m) @ [state]), states_size := n,
                   states_block := Suc (states_block m) \<rparr>))"

definition add_valid_transition :: "rcl_lifecycle_transition_t \<Rightarrow> rcl_lifecycle_state_t \<Rightarrow> rcl_lifecycle_state_t" where
  "add_valid_transition t s =
     s\<lparr> valid_transitions := valid_transitions s @ [t], valid_transition_size := Suc (valid_transition_size s) \<rparr>"

definition rcl_lifecycle_register_transition ::
  "'a lifecycle_env_scheme \<Rightarrow> rcl_lifecycle_transition_t \<Rightarrow> rcl_lifecycle_transition_map_t \<Rightarrow>
   (rcl_ret \<times> rcl_lifecycle_transition_map_t) res" where
  "rcl_lifecycle_register_transition env transition m =
     bindR (deref_state m (t_start transition)) (\<lambda>start.
     bindR (rcl_lifecycle_get_state m (s_id start)) (\<lambda>found.
       case found of
         None \<Rightarrow> Ok (RCL_RET_ERROR, m)
       | Some (b, i) \<Rightarrow>
           let n = Suc (transitions_size m)
           in if \<not> realloc_ok env ''transitions'' n then Ok (RCL_RET_BAD_ALLOC, m\<lparr> transitions_size := n \<rparr>)
              else
                let m1 = m\<lparr> transitions := Some (array_of (transitions m) @ [transition]), transitions_size := n \<rparr>;
                    sts = array_of (states m);
                    k = Suc (valid_transition_size (sts ! i))
                in if \<not> realloc_ok env ''valid_transitions'' k
                   then Ok (RCL_RET_ERROR, m1\<lparr> states := Some (sts[i := (sts ! i)\<lparr> valid_transition_size := k \<rparr>]) \<rparr>)
                   else Ok (RCL_RET_OK, m1\<lparr> states := Some (sts[i := add_valid_transition transition (sts ! i)]) \<rparr>)))"

text \<open>Calls in a row that end at the first code other than \<open>RCL_RET_OK\<close>.\<close>

fun register_all ::
  "('b \<Rightarrow> rcl_lifecycle_transition_map_t \<Rightarrow> (rcl_ret \<times> rcl_lifecycle_transition_map_t) res) \<Rightarrow> 'b list \<Rightarrow>
   rcl_lifecycle_transition_map_t \<Rightarrow> (rcl_ret \<times> rcl_lifecycle_transition_map_t) res" where
  "register_all f [] m = Ok (RCL_RET_OK, m)"
| "register_all f (x # xs) m =
     bindR (f x m) (\<lambda>(ret, m'). if ret \<noteq> RCL_RET_OK then Ok (ret, m') else register_all f xs m')"

section \<open>The default machine\<close>

definition state_entry :: "'a lifecycle_env_scheme \<Rightarrow> string \<times> state_const \<Rightarrow> rcl_lifecycle_state_t" where
  "state_entry env = (\<lambda>(label, c). \<lparr> s_label = label, s_id = ucast (state_value env c), valid_transitions = [], valid_transition_size = 0 \<rparr>)"

definition primary_states :: "(string \<times> state_const) list" where
  "primary_states = [
     (''unknown'', PRIMARY_STATE_UNKNOWN),
     (''unconfigured'', PRIMARY_STATE_UNCONFIGURED),
     (''inactive'', PRIMARY_STATE_INACTIVE),
     (''active'', PRIMARY_STATE_ACTIVE),
     (''finalized'', PRIMARY_STATE_FINALIZED)]"

definition register_primary_states ::
  "'a lifecycle_env_scheme \<Rightarrow> rcl_lifecycle_transition_map_t \<Rightarrow> (rcl_ret \<times> rcl_lifecycle_transition_map_t) res" where
  "register_primary_states env = register_all (rcl_lifecycle_register_state env) (map (state_entry env) primary_states)"

definition transition_states :: "(string \<times> state_const) list" where
  "transition_states = [
     (''configuring'', TRANSITION_STATE_CONFIGURING),
     (''cleaningup'', TRANSITION_STATE_CLEANINGUP),
     (''shuttingdown'', TRANSITION_STATE_SHUTTINGDOWN),
     (''activating'', TRANSITION_STATE_ACTIVATING),
     (''deactivating'', TRANSITION_STATE_DEACTIVATING),
     (''errorprocessing'', TRANSITION_STATE_ERRORPROCESSING)]"

definition register_transition_states ::
  "'a lifecycle_env_scheme \<Rightarrow> rcl_lifecycle_transition_map_t \<Rightarrow> (rcl_ret \<times> rcl_lifecycle_transition_map_t) res" where
  "register_transition_states env = register_all (rcl_lifecycle_register_state env) (map (state_entry env) transition_states)"

definition rcl_lifecycle_configure_label :: string where "rcl_lifecycle_configure_label = ''configure''"
definition rcl_lifecycle_cleanup_label :: string where "rcl_lifecycle_cleanup_label = ''cleanup''"
definition rcl_lifecycle_activate_label :: string where "rcl_lifecycle_activate_label = ''activate''"
definition rcl_lifecycle_deactivate_label :: string where "rcl_lifecycle_deactivate_label = ''deactivate''"
definition rcl_lifecycle_shutdown_label :: string where "rcl_lifecycle_shutdown_label = ''shutdown''"
definition rcl_lifecycle_transition_success_label :: string where "rcl_lifecycle_transition_success_label = ''transition_success''"
definition rcl_lifecycle_transition_failure_label :: string where "rcl_lifecycle_transition_failure_label = ''transition_failure''"
definition rcl_lifecycle_transition_error_label :: string where "rcl_lifecycle_transition_error_label = ''transition_error''"

text \<open>The transitions in the order of their registration, in the groups of the source.\<close>

type_synonym transition_row = "string \<times> transition_const \<times> state_const \<times> state_const"

definition configure_rows :: "transition_row list" where
  "configure_rows = [
     (rcl_lifecycle_configure_label, TRANSITION_CONFIGURE, PRIMARY_STATE_UNCONFIGURED, TRANSITION_STATE_CONFIGURING),
     (rcl_lifecycle_transition_success_label, TRANSITION_ON_CONFIGURE_SUCCESS, TRANSITION_STATE_CONFIGURING, PRIMARY_STATE_INACTIVE),
     (rcl_lifecycle_transition_failure_label, TRANSITION_ON_CONFIGURE_FAILURE, TRANSITION_STATE_CONFIGURING, PRIMARY_STATE_UNCONFIGURED),
     (rcl_lifecycle_transition_error_label, TRANSITION_ON_CONFIGURE_ERROR, TRANSITION_STATE_CONFIGURING, TRANSITION_STATE_ERRORPROCESSING)]"

definition cleanup_rows :: "transition_row list" where
  "cleanup_rows = [
     (rcl_lifecycle_cleanup_label, TRANSITION_CLEANUP, PRIMARY_STATE_INACTIVE, TRANSITION_STATE_CLEANINGUP),
     (rcl_lifecycle_transition_success_label, TRANSITION_ON_CLEANUP_SUCCESS, TRANSITION_STATE_CLEANINGUP, PRIMARY_STATE_UNCONFIGURED),
     (rcl_lifecycle_transition_failure_label, TRANSITION_ON_CLEANUP_FAILURE, TRANSITION_STATE_CLEANINGUP, PRIMARY_STATE_INACTIVE),
     (rcl_lifecycle_transition_error_label, TRANSITION_ON_CLEANUP_ERROR, TRANSITION_STATE_CLEANINGUP, TRANSITION_STATE_ERRORPROCESSING)]"

definition activate_rows :: "transition_row list" where
  "activate_rows = [
     (rcl_lifecycle_activate_label, TRANSITION_ACTIVATE, PRIMARY_STATE_INACTIVE, TRANSITION_STATE_ACTIVATING),
     (rcl_lifecycle_transition_success_label, TRANSITION_ON_ACTIVATE_SUCCESS, TRANSITION_STATE_ACTIVATING, PRIMARY_STATE_ACTIVE),
     (rcl_lifecycle_transition_failure_label, TRANSITION_ON_ACTIVATE_FAILURE, TRANSITION_STATE_ACTIVATING, PRIMARY_STATE_INACTIVE),
     (rcl_lifecycle_transition_error_label, TRANSITION_ON_ACTIVATE_ERROR, TRANSITION_STATE_ACTIVATING, TRANSITION_STATE_ERRORPROCESSING)]"

definition deactivate_rows :: "transition_row list" where
  "deactivate_rows = [
     (rcl_lifecycle_deactivate_label, TRANSITION_DEACTIVATE, PRIMARY_STATE_ACTIVE, TRANSITION_STATE_DEACTIVATING),
     (rcl_lifecycle_transition_success_label, TRANSITION_ON_DEACTIVATE_SUCCESS, TRANSITION_STATE_DEACTIVATING, PRIMARY_STATE_INACTIVE),
     (rcl_lifecycle_transition_failure_label, TRANSITION_ON_DEACTIVATE_FAILURE, TRANSITION_STATE_DEACTIVATING, PRIMARY_STATE_ACTIVE),
     (rcl_lifecycle_transition_error_label, TRANSITION_ON_DEACTIVATE_ERROR, TRANSITION_STATE_DEACTIVATING, TRANSITION_STATE_ERRORPROCESSING)]"

definition shutdown_rows :: "transition_row list" where
  "shutdown_rows = [
     (rcl_lifecycle_shutdown_label, TRANSITION_UNCONFIGURED_SHUTDOWN, PRIMARY_STATE_UNCONFIGURED, TRANSITION_STATE_SHUTTINGDOWN),
     (rcl_lifecycle_shutdown_label, TRANSITION_INACTIVE_SHUTDOWN, PRIMARY_STATE_INACTIVE, TRANSITION_STATE_SHUTTINGDOWN),
     (rcl_lifecycle_shutdown_label, TRANSITION_ACTIVE_SHUTDOWN, PRIMARY_STATE_ACTIVE, TRANSITION_STATE_SHUTTINGDOWN),
     (rcl_lifecycle_transition_success_label, TRANSITION_ON_SHUTDOWN_SUCCESS, TRANSITION_STATE_SHUTTINGDOWN, PRIMARY_STATE_FINALIZED),
     (rcl_lifecycle_transition_failure_label, TRANSITION_ON_SHUTDOWN_FAILURE, TRANSITION_STATE_SHUTTINGDOWN, PRIMARY_STATE_FINALIZED),
     (rcl_lifecycle_transition_error_label, TRANSITION_ON_SHUTDOWN_ERROR, TRANSITION_STATE_SHUTTINGDOWN, TRANSITION_STATE_ERRORPROCESSING)]"

definition error_rows :: "transition_row list" where
  "error_rows = [
     (rcl_lifecycle_transition_success_label, TRANSITION_ON_ERROR_SUCCESS, TRANSITION_STATE_ERRORPROCESSING, PRIMARY_STATE_UNCONFIGURED),
     (rcl_lifecycle_transition_failure_label, TRANSITION_ON_ERROR_FAILURE, TRANSITION_STATE_ERRORPROCESSING, PRIMARY_STATE_FINALIZED),
     (rcl_lifecycle_transition_error_label, TRANSITION_ON_ERROR_ERROR, TRANSITION_STATE_ERRORPROCESSING, PRIMARY_STATE_FINALIZED)]"

definition default_rows :: "transition_row list" where
  "default_rows = configure_rows @ cleanup_rows @ activate_rows @ deactivate_rows @ shutdown_rows @ error_rows"

text \<open>
  The pointers to the states are looked up in the map before the transitions are registered:
  the lookups see the map at the start.
\<close>

definition row_transition ::
  "'a lifecycle_env_scheme \<Rightarrow> rcl_lifecycle_transition_map_t \<Rightarrow> transition_row \<Rightarrow> rcl_lifecycle_transition_t res" where
  "row_transition env m = (\<lambda>(label, c, start, goal).
     bindR (rcl_lifecycle_get_state m (ucast (state_value env start))) (\<lambda>s.
     bindR (rcl_lifecycle_get_state m (ucast (state_value env goal))) (\<lambda>g.
       Ok \<lparr> t_label = label, t_id = ucast (transition_value env c), t_start = s, t_goal = g \<rparr>)))"

definition register_transitions ::
  "'a lifecycle_env_scheme \<Rightarrow> rcl_lifecycle_transition_map_t \<Rightarrow> (rcl_ret \<times> rcl_lifecycle_transition_map_t) res" where
  "register_transitions env m =
     register_all (\<lambda>row m'. bindR (row_transition env m row) (\<lambda>t. rcl_lifecycle_register_transition env t m')) default_rows m"

section \<open>Communication interface\<close>

text \<open>A handle of rcl: not set up, set up, or released; the release of a service and of a publisher
  keeps the pointer to the released implementation.\<close>

datatype rcl_handle = Null_impl | Live_impl | Freed_impl

record rcl_lifecycle_com_interface_t =
  pub_transition_event :: rcl_handle
  srv_change_state :: rcl_handle
  srv_get_state :: rcl_handle
  srv_get_available_states :: rcl_handle
  srv_get_available_transitions :: rcl_handle
  srv_get_transition_graph :: rcl_handle

definition rcl_lifecycle_get_zero_initialized_com_interface :: rcl_lifecycle_com_interface_t where
  "rcl_lifecycle_get_zero_initialized_com_interface =
     \<lparr> pub_transition_event = Null_impl, srv_change_state = Null_impl, srv_get_state = Null_impl,
       srv_get_available_states = Null_impl, srv_get_available_transitions = Null_impl, srv_get_transition_graph = Null_impl \<rparr>"

text \<open>\<open>rcl_service_fini\<close> and \<open>rcl_publisher_fini\<close>: a handle that is set up is released, whatever the
  middleware answers; releasing a released handle reads freed memory.\<close>

definition fini_handle :: "'a lifecycle_env_scheme \<Rightarrow> string \<Rightarrow> rcl_handle \<Rightarrow> (rcl_ret \<times> rcl_handle) res" where
  "fini_handle env name h =
     (case h of
        Null_impl \<Rightarrow> Ok (RCL_RET_OK, Null_impl)
      | Live_impl \<Rightarrow> Ok (if handle_fini_ok env name then RCL_RET_OK else RCL_RET_ERROR, Freed_impl)
      | Freed_impl \<Rightarrow> Err (Undefined_behaviour ''use of a released handle''))"

definition rcl_lifecycle_com_interface_fini ::
  "'a lifecycle_env_scheme \<Rightarrow> rcl_lifecycle_com_interface_t \<Rightarrow> (rcl_ret \<times> rcl_lifecycle_com_interface_t) res" where
  "rcl_lifecycle_com_interface_fini env c =
     bindR (fini_handle env ''get_transition_graph'' (srv_get_transition_graph c)) (\<lambda>(r1, h1).
     bindR (fini_handle env ''get_available_transitions'' (srv_get_available_transitions c)) (\<lambda>(r2, h2).
     bindR (fini_handle env ''get_available_states'' (srv_get_available_states c)) (\<lambda>(r3, h3).
     bindR (fini_handle env ''get_state'' (srv_get_state c)) (\<lambda>(r4, h4).
     bindR (fini_handle env ''change_state'' (srv_change_state c)) (\<lambda>(r5, h5).
     bindR (fini_handle env ''transition_event'' (pub_transition_event c)) (\<lambda>(r6, h6).
       Ok (if list_all (\<lambda>r. r = RCL_RET_OK) [r1, r2, r3, r4, r5, r6] then RCL_RET_OK else RCL_RET_ERROR,
           \<lparr> pub_transition_event = h6, srv_change_state = h5, srv_get_state = h4, srv_get_available_states = h3,
             srv_get_available_transitions = h2, srv_get_transition_graph = h1 \<rparr>)))))))"

text \<open>The handles are set up in order; the first failure releases those before it.\<close>

definition rcl_lifecycle_com_interface_init ::
  "'a lifecycle_env_scheme \<Rightarrow> rcl_lifecycle_com_interface_t \<Rightarrow> (rcl_ret \<times> rcl_lifecycle_com_interface_t) res" where
  "rcl_lifecycle_com_interface_init env c =
     (let ok1 = handle_init_ok env ''transition_event'';
          ok2 = (ok1 \<and> handle_init_ok env ''change_state'');
          ok3 = (ok2 \<and> handle_init_ok env ''get_state'');
          ok4 = (ok3 \<and> handle_init_ok env ''get_available_states'');
          ok5 = (ok4 \<and> handle_init_ok env ''get_available_transitions'');
          ok6 = (ok5 \<and> handle_init_ok env ''get_transition_graph'');
          live = (\<lambda>ok h. if ok then Live_impl else h);
          c' = \<lparr> pub_transition_event = live ok1 (pub_transition_event c), srv_change_state = live ok2 (srv_change_state c),
                srv_get_state = live ok3 (srv_get_state c), srv_get_available_states = live ok4 (srv_get_available_states c),
                srv_get_available_transitions = live ok5 (srv_get_available_transitions c),
                srv_get_transition_graph = live ok6 (srv_get_transition_graph c) \<rparr>
      in if ok6 then Ok (RCL_RET_OK, c')
         else bindR (rcl_lifecycle_com_interface_fini env c') (\<lambda>(_, c''). Ok (RCL_RET_ERROR, c'')))"

section \<open>The state machine\<close>

text \<open>The notifications that have been passed to \<open>rcl_publish\<close> are kept: identifiers (\<open>uint8_t\<close> fields
  of the message) and labels of the two states.\<close>

record rcl_lifecycle_state_machine_t =
  current_state :: "state_ptr option"
  transition_map :: rcl_lifecycle_transition_map_t
  com_interface :: rcl_lifecycle_com_interface_t
  notifications :: "((u8 \<times> string) \<times> (u8 \<times> string)) list"

definition rcl_lifecycle_get_zero_initialized_state_machine :: rcl_lifecycle_state_machine_t where
  "rcl_lifecycle_get_zero_initialized_state_machine =
     \<lparr> current_state = None, transition_map = rcl_lifecycle_get_zero_initialized_transition_map,
       com_interface = rcl_lifecycle_get_zero_initialized_com_interface, notifications = [] \<rparr>"

definition rcl_lifecycle_init_default_state_machine ::
  "'a lifecycle_env_scheme \<Rightarrow> rcl_lifecycle_state_machine_t \<Rightarrow> (rcl_ret \<times> rcl_lifecycle_state_machine_t) res" where
  "rcl_lifecycle_init_default_state_machine env sm =
     bindR (register_all (\<lambda>f. f env) [register_primary_states, register_transition_states, register_transitions]
       (transition_map sm)) (\<lambda>(ret, m).
       if ret \<noteq> RCL_RET_OK then Ok (RCL_RET_ERROR, sm\<lparr> transition_map := rcl_lifecycle_transition_map_fini m \<rparr>)
       else bindR (rcl_lifecycle_get_state m (ucast (state_value env PRIMARY_STATE_UNCONFIGURED))) (\<lambda>p.
         Ok (RCL_RET_OK, sm\<lparr> transition_map := m, current_state := p \<rparr>)))"

definition rcl_lifecycle_state_machine_fini ::
  "'a lifecycle_env_scheme \<Rightarrow> rcl_lifecycle_state_machine_t \<Rightarrow> (rcl_ret \<times> rcl_lifecycle_state_machine_t) res" where
  "rcl_lifecycle_state_machine_fini env sm =
     bindR (rcl_lifecycle_com_interface_fini env (com_interface sm)) (\<lambda>(ret, c).
       Ok (ret, sm\<lparr> com_interface := c, transition_map := rcl_lifecycle_transition_map_fini (transition_map sm) \<rparr>))"

text \<open>A failed set-up of the default states is cleaned up and then reported as a success, unless
  the clean-up fails too.\<close>

definition rcl_lifecycle_state_machine_init ::
  "'a lifecycle_env_scheme \<Rightarrow> bool \<Rightarrow> rcl_lifecycle_state_machine_t \<Rightarrow> (rcl_ret \<times> rcl_lifecycle_state_machine_t) res" where
  "rcl_lifecycle_state_machine_init env default_states sm =
     bindR (rcl_lifecycle_com_interface_init env (com_interface sm)) (\<lambda>(ret, c).
       let sm1 = sm\<lparr> com_interface := c \<rparr>
       in if ret \<noteq> RCL_RET_OK then Ok (RCL_RET_ERROR, sm1)
          else if \<not> default_states then Ok (RCL_RET_OK, sm1)
          else bindR (rcl_lifecycle_init_default_state_machine env sm1) (\<lambda>(ret2, sm2).
            if ret2 \<noteq> RCL_RET_OK then
              bindR (rcl_lifecycle_state_machine_fini env sm2) (\<lambda>(ret3, sm3).
                Ok (if ret3 \<noteq> RCL_RET_OK then RCL_RET_ERROR else RCL_RET_OK, sm3))
            else Ok (RCL_RET_OK, sm2)))"

definition rcl_lifecycle_state_machine_is_initialized :: "rcl_lifecycle_state_machine_t \<Rightarrow> rcl_ret" where
  "rcl_lifecycle_state_machine_is_initialized sm =
     (if srv_get_state (com_interface sm) = Null_impl then RCL_RET_ERROR
      else if srv_change_state (com_interface sm) = Null_impl then RCL_RET_ERROR
      else if rcl_lifecycle_transition_map_is_initialized (transition_map sm) \<noteq> RCL_RET_OK then RCL_RET_ERROR
      else RCL_RET_OK)"

section \<open>Triggers\<close>

text \<open>The transition of a state with a property; a null pointer to the state has none.\<close>

definition transition_where ::
  "rcl_lifecycle_transition_map_t \<Rightarrow> (rcl_lifecycle_transition_t \<Rightarrow> bool) \<Rightarrow> state_ptr option \<Rightarrow>
   rcl_lifecycle_transition_t option res" where
  "transition_where m p state =
     (if state = None then Ok None
      else bindR (deref_state m state) (\<lambda>s.
        bindR (scan_array p (valid_transitions s) (valid_transition_size s)) (\<lambda>i.
          Ok (map_option (\<lambda>j. valid_transitions s ! j) i))))"

definition rcl_lifecycle_get_transition_by_id ::
  "rcl_lifecycle_transition_map_t \<Rightarrow> state_ptr option \<Rightarrow> u8 \<Rightarrow> rcl_lifecycle_transition_t option res" where
  "rcl_lifecycle_get_transition_by_id m state tid = transition_where m (\<lambda>t. t_id t = ucast tid) state"

definition rcl_lifecycle_get_transition_by_label ::
  "rcl_lifecycle_transition_map_t \<Rightarrow> state_ptr option \<Rightarrow> string \<Rightarrow> rcl_lifecycle_transition_t option res" where
  "rcl_lifecycle_get_transition_by_label m state label = transition_where m (\<lambda>t. t_label t = label) state"

text \<open>Operations on the machine as computations whose state survives an error.\<close>

type_synonym 'a machine_act = "(rcl_lifecycle_state_machine_t, 'a) act"

definition rcl_lifecycle_com_interface_publish_notification ::
  "'a lifecycle_env_scheme \<Rightarrow> state_ptr option \<Rightarrow> state_ptr option \<Rightarrow> rcl_ret machine_act" where
  "rcl_lifecycle_com_interface_publish_notification env start goal =
     bindA (getA transition_map) (\<lambda>m.
     bindA (liftA (deref_state m start)) (\<lambda>s.
     bindA (liftA (deref_state m goal)) (\<lambda>g.
     bindA (getA (\<lambda>sm. publish_result env (length (notifications sm)))) (\<lambda>ret.
     seqA (modA (\<lambda>sm. sm\<lparr> notifications := notifications sm @ [((ucast (s_id s), s_label s), (ucast (s_id g), s_label g))] \<rparr>))
       (retA ret)))))"

definition trigger_transition_ptr ::
  "'a lifecycle_env_scheme \<Rightarrow> rcl_lifecycle_transition_t option \<Rightarrow> bool \<Rightarrow> rcl_ret machine_act" where
  "trigger_transition_ptr env transition publish_notification =
     (case transition of
        None \<Rightarrow> retA RCL_RET_ERROR
      | Some t \<Rightarrow>
          if t_goal t = None then retA RCL_RET_ERROR
          else seqA (modA (\<lambda>sm. sm\<lparr> current_state := t_goal t \<rparr>))
            (if publish_notification then
               bindA (bindA (getA current_state) (rcl_lifecycle_com_interface_publish_notification env (t_start t))) (\<lambda>ret.
                 retA (if ret \<noteq> RCL_RET_OK then RCL_RET_ERROR else RCL_RET_OK))
             else retA RCL_RET_OK))"

definition rcl_lifecycle_trigger_transition_by_id :: "'a lifecycle_env_scheme \<Rightarrow> u8 \<Rightarrow> bool \<Rightarrow> rcl_ret machine_act" where
  "rcl_lifecycle_trigger_transition_by_id env tid publish_notification =
     bindA (getA (\<lambda>sm. rcl_lifecycle_get_transition_by_id (transition_map sm) (current_state sm) tid)) (\<lambda>r.
     bindA (liftA r) (\<lambda>transition. trigger_transition_ptr env transition publish_notification))"

definition rcl_lifecycle_trigger_transition_by_label ::
  "'a lifecycle_env_scheme \<Rightarrow> string \<Rightarrow> bool \<Rightarrow> rcl_ret machine_act" where
  "rcl_lifecycle_trigger_transition_by_label env label publish_notification =
     bindA (getA (\<lambda>sm. rcl_lifecycle_get_transition_by_label (transition_map sm) (current_state sm) label)) (\<lambda>r.
     bindA (liftA r) (\<lambda>transition. trigger_transition_ptr env transition publish_notification))"

section \<open>What the default machine is\<close>

text \<open>The message package gives different values to different constants; memory is available.\<close>

definition documented_constants :: "'a lifecycle_env_scheme \<Rightarrow> bool" where
  "documented_constants env \<longleftrightarrow> inj (state_value env) \<and> inj (transition_value env) \<and>
     distinct [callback_success env, callback_failure env, callback_error env]"

definition memory_available :: "'a lifecycle_env_scheme \<Rightarrow> bool" where
  "memory_available env \<longleftrightarrow> (\<forall>a n. realloc_ok env a n)"

definition default_states :: "(string \<times> state_const) list" where
  "default_states = primary_states @ transition_states"

fun state_index :: "state_const \<Rightarrow> nat" where
  "state_index PRIMARY_STATE_UNKNOWN = 0"
| "state_index PRIMARY_STATE_UNCONFIGURED = 1"
| "state_index PRIMARY_STATE_INACTIVE = 2"
| "state_index PRIMARY_STATE_ACTIVE = 3"
| "state_index PRIMARY_STATE_FINALIZED = 4"
| "state_index TRANSITION_STATE_CONFIGURING = 5"
| "state_index TRANSITION_STATE_CLEANINGUP = 6"
| "state_index TRANSITION_STATE_SHUTTINGDOWN = 7"
| "state_index TRANSITION_STATE_ACTIVATING = 8"
| "state_index TRANSITION_STATE_DEACTIVATING = 9"
| "state_index TRANSITION_STATE_ERRORPROCESSING = 10"

definition state_at :: "state_const \<Rightarrow> state_ptr option" where
  "state_at c = Some (11, state_index c)"

definition row_entry :: "'a lifecycle_env_scheme \<Rightarrow> transition_row \<Rightarrow> rcl_lifecycle_transition_t" where
  "row_entry env = (\<lambda>(label, c, start, goal).
     \<lparr> t_label = label, t_id = ucast (transition_value env c), t_start = state_at start, t_goal = state_at goal \<rparr>)"

definition rows_from :: "transition_row list \<Rightarrow> state_const \<Rightarrow> transition_row list" where
  "rows_from rows c = filter (\<lambda>(_, _, start, _). start = c) rows"

definition state_with :: "'a lifecycle_env_scheme \<Rightarrow> transition_row list \<Rightarrow> string \<times> state_const \<Rightarrow> rcl_lifecycle_state_t" where
  "state_with env rows = (\<lambda>(label, c).
     \<lparr> s_label = label, s_id = ucast (state_value env c), valid_transitions = map (row_entry env) (rows_from rows c),
       valid_transition_size = length (rows_from rows c) \<rparr>)"

definition map_with :: "'a lifecycle_env_scheme \<Rightarrow> transition_row list \<Rightarrow> rcl_lifecycle_transition_map_t" where
  "map_with env rows =
     \<lparr> states = Some (map (state_with env rows) default_states), states_size = 11,
       transitions = (if rows = [] then None else Some (map (row_entry env) rows)), transitions_size = length rows,
       states_block = 11 \<rparr>"

lemma ucast_down_up [simp]: "(ucast (ucast (x :: u8) :: u32) :: u8) = x"
  by (rule ucast_up_ucast_id) (simp add: is_up)

lemma ucast_up [simp]: "(ucast (x :: u8) :: u32) = ucast y \<longleftrightarrow> x = y"
  by (metis ucast_down_up)

lemma state_value_eq: "documented_constants env \<Longrightarrow> state_value env a = state_value env b \<longleftrightarrow> a = b"
  by (simp add: documented_constants_def inj_eq)

lemma transition_value_eq: "documented_constants env \<Longrightarrow> transition_value env a = transition_value env b \<longleftrightarrow> a = b"
  by (simp add: documented_constants_def inj_eq)

lemma find_state:
  assumes "documented_constants env"
  shows "rcl_lifecycle_get_state (map_with env rows) (ucast (state_value env c)) = Ok (state_at c)"
  by (cases c) (simp_all add: rcl_lifecycle_get_state_def map_with_def array_of_def default_states_def primary_states_def
      transition_states_def state_with_def state_at_def state_value_eq [OF assms] eval_nat_numeral)

definition label_of :: "state_const \<Rightarrow> string" where
  "label_of c = the (map_of (map prod.swap default_states) c)"

lemma state_nth: "state_index c < 11 \<and> default_states ! state_index c = (label_of c, c)"
  by (cases c) (simp_all add: label_of_def default_states_def primary_states_def transition_states_def)

lemma length_default [simp]: "length default_states = 11"
  by (simp add: default_states_def primary_states_def transition_states_def)

lemma deref_default:
  "deref_state (map_with env rows) (state_at c) = Ok (state_with env rows (label_of c, c))"
  using state_nth [of c] by (simp add: deref_state_def state_at_def map_with_def array_of_def)

lemma states_update:
  "(map (state_with env rows) default_states)[state_index c := add_valid_transition (row_entry env (l, t, c, g)) (state_with env rows (label_of c, c))] =
   map (state_with env (rows @ [(l, t, c, g)])) default_states"
proof (rule nth_equalityI)
  fix i assume "i < length ((map (state_with env rows) default_states)[state_index c := add_valid_transition (row_entry env (l, t, c, g)) (state_with env rows (label_of c, c))])"
  then have i: "i < 11" by simp
  obtain d where d: "i = state_index d"
    using i by (metis state_index.simps less_Suc_eq numeral_nat less_nat_zero_code)
  have "state_index d = state_index c \<longleftrightarrow> d = c" by (cases d; cases c) simp_all
  then show "(map (state_with env rows) default_states)[state_index c := add_valid_transition (row_entry env (l, t, c, g)) (state_with env rows (label_of c, c))] ! i =
      map (state_with env (rows @ [(l, t, c, g)])) default_states ! i"
    using i state_nth [of d] unfolding d
    by (auto simp: nth_list_update add_valid_transition_def state_with_def rows_from_def)
qed simp

lemma register_row:
  assumes "documented_constants env" "memory_available env"
  shows "rcl_lifecycle_register_transition env (row_entry env (l, t, c, g)) (map_with env rows) =
    Ok (RCL_RET_OK, map_with env (rows @ [(l, t, c, g)]))"
proof -
  let ?t = "row_entry env (l, t, c, g)"
  have start: "deref_state (map_with env rows) (t_start ?t) = Ok (state_with env rows (label_of c, c))"
    using deref_default by (simp add: row_entry_def)
  have id: "s_id (state_with env rows (label_of c, c)) = ucast (state_value env c)" by (simp add: state_with_def)
  have nth: "map (state_with env rows) default_states ! state_index c = state_with env rows (label_of c, c)"
    using state_nth [of c] by simp
  have found: "rcl_lifecycle_get_state (map_with env rows) (ucast (state_value env c)) = Ok (Some (11, state_index c))"
    using find_state [OF assms(1)] by (simp add: state_at_def)
  have sts: "array_of (states (map_with env rows)) = map (state_with env rows) default_states"
    and ts: "array_of (transitions (map_with env rows)) = map (row_entry env) rows"
    and sizes: "transitions_size (map_with env rows) = length rows"
    by (simp_all add: map_with_def array_of_def)
  have mem: "realloc_ok env a n" for a n using assms(2) by (simp add: memory_available_def)
  show ?thesis
    unfolding rcl_lifecycle_register_transition_def start bindR_simps id found option.case prod.case Let_def sts ts nth mem sizes
    by (simp add: states_update map_with_def mem)
qed

lemma register_rows:
  assumes "documented_constants env" "memory_available env"
  shows "register_all (\<lambda>row m'. bindR (row_transition env (map_with env []) row) (\<lambda>t. rcl_lifecycle_register_transition env t m')) rows (map_with env acc) =
    Ok (RCL_RET_OK, map_with env (acc @ rows))"
proof (induction rows arbitrary: acc)
  case (Cons row rows)
  obtain l t c g where row: "row = (l, t, c, g)" by (cases row) auto
  have "row_transition env (map_with env []) row = Ok (row_entry env row)"
    by (simp add: row row_transition_def row_entry_def find_state [OF assms(1)])
  then show ?case using register_row [OF assms, of l t c g acc] Cons.IH [of "acc @ [row]"] by (simp add: row)
qed simp

lemma register_states:
  assumes "documented_constants env" "memory_available env"
  shows "register_primary_states env rcl_lifecycle_get_zero_initialized_transition_map =
      Ok (RCL_RET_OK, \<lparr> states = Some (map (state_entry env) primary_states), states_size = 5, transitions = None,
        transitions_size = 0, states_block = 5 \<rparr>)" (is ?P)
    and "register_transition_states env \<lparr> states = Some (map (state_entry env) primary_states), states_size = 5, transitions = None,
        transitions_size = 0, states_block = 5 \<rparr> = Ok (RCL_RET_OK, map_with env [])" (is ?T)
proof -
  note defs = rcl_lifecycle_register_state_def rcl_lifecycle_get_state_def array_of_def state_entry_def
    state_value_eq [OF assms(1)] eval_nat_numeral Let_def
  have mem: "realloc_ok env a n" for a n using assms(2) by (simp add: memory_available_def)
  show ?P
    by (simp add: register_primary_states_def primary_states_def rcl_lifecycle_get_zero_initialized_transition_map_def defs mem)
  show ?T
    by (simp add: register_transition_states_def primary_states_def transition_states_def defs mem map_with_def
        default_states_def state_with_def rows_from_def)
qed

definition default_machine :: "'a lifecycle_env_scheme \<Rightarrow> rcl_lifecycle_com_interface_t \<Rightarrow> state_const \<Rightarrow>
    ((u8 \<times> string) \<times> (u8 \<times> string)) list \<Rightarrow> rcl_lifecycle_state_machine_t" where
  "default_machine env c state ns =
     \<lparr> current_state = state_at state, transition_map = map_with env default_rows, com_interface = c, notifications = ns \<rparr>"

lemma init_default:
  assumes "documented_constants env" "memory_available env"
  shows "rcl_lifecycle_init_default_state_machine env (rcl_lifecycle_get_zero_initialized_state_machine\<lparr> com_interface := c \<rparr>) =
    Ok (RCL_RET_OK, default_machine env c PRIMARY_STATE_UNCONFIGURED [])"
proof -
  have "register_transitions env (map_with env []) = Ok (RCL_RET_OK, map_with env default_rows)"
    using register_rows [OF assms, of default_rows "[]"] by (simp add: register_transitions_def)
  then show ?thesis
    by (simp add: rcl_lifecycle_init_default_state_machine_def rcl_lifecycle_get_zero_initialized_state_machine_def
        register_states [OF assms] find_state [OF assms(1)] default_machine_def)
qed

section \<open>Triggers on the default machine\<close>

lemma scan_array_find: "bindR (scan_array p xs (length xs)) (\<lambda>i. Ok (map_option (\<lambda>j. xs ! j) i)) = Ok (find p xs)"
proof (induction xs)
  case (Cons x xs)
  have "bindR (bindR (scan_array p xs (length xs)) (\<lambda>i. Ok (map_option Suc i))) (\<lambda>i. Ok (map_option (\<lambda>j. (x # xs) ! j) i)) =
      bindR (scan_array p xs (length xs)) (\<lambda>i. Ok (map_option (\<lambda>j. xs ! j) i))"
    by (simp add: bindR_def option.map_comp comp_def split: sum.split)
  with Cons show ?case by simp
qed simp

lemma find_map: "find p (map f xs) = map_option f (find (\<lambda>x. p (f x)) xs)"
  by (induction xs) auto

lemma state_at_null [simp]: "(state_at c = None) = False"
  by (simp add: state_at_def)

definition row_label :: "transition_row \<Rightarrow> string" where "row_label = (\<lambda>(l, _, _, _). l)"
definition row_const :: "transition_row \<Rightarrow> transition_const" where "row_const = (\<lambda>(_, t, _, _). t)"
definition row_goal :: "transition_row \<Rightarrow> state_const" where "row_goal = (\<lambda>(_, _, _, g). g)"

lemma default_by_label:
  "rcl_lifecycle_get_transition_by_label (map_with env rows) (state_at c) label =
   Ok (map_option (row_entry env) (find (\<lambda>r. row_label r = label) (rows_from rows c)))"
proof -
  have "t_label (row_entry env r) = row_label r" for r by (cases r) (simp add: row_entry_def row_label_def)
  then show ?thesis
    using scan_array_find [of "\<lambda>t. t_label t = label" "map (row_entry env) (rows_from rows c)"]
    by (simp add: rcl_lifecycle_get_transition_by_label_def transition_where_def deref_default state_with_def find_map)
qed

lemma default_by_id:
  assumes "documented_constants env"
  shows "rcl_lifecycle_get_transition_by_id (map_with env rows) (state_at c) tid =
   Ok (map_option (row_entry env) (find (\<lambda>r. transition_value env (row_const r) = tid) (rows_from rows c)))"
proof -
  have "t_id (row_entry env r) = ucast tid \<longleftrightarrow> transition_value env (row_const r) = tid" for r
    by (cases r) (simp add: row_entry_def row_const_def)
  then show ?thesis
    using scan_array_find [of "\<lambda>t. t_id t = ucast tid" "map (row_entry env) (rows_from rows c)"]
    by (simp add: rcl_lifecycle_get_transition_by_id_def transition_where_def deref_default state_with_def find_map)
qed

definition state_msg :: "'a lifecycle_env_scheme \<Rightarrow> state_const \<Rightarrow> u8 \<times> string" where
  "state_msg env c = (state_value env c, label_of c)"

text \<open>A transition that was found in the current state.\<close>

lemma trigger_row:
  assumes "r \<in> set (rows_from default_rows s)"
  shows "trigger_transition_ptr env (Some (row_entry env r)) True (default_machine env c s ns) =
    (Ok (if publish_result env (length ns) = RCL_RET_OK then RCL_RET_OK else RCL_RET_ERROR),
     default_machine env c (row_goal r) (ns @ [(state_msg env s, state_msg env (row_goal r))]))"
proof -
  obtain l t s' g where r': "r = (l, t, s', g)" by (cases r)
  with assms have r: "r = (l, t, s, g)" by (simp add: rows_from_def)
  have "deref_state (map_with env default_rows) (state_at a) = Ok (state_with env default_rows (label_of a, a))" for a
    by (rule deref_default)
  then show ?thesis
    by (simp add: r trigger_transition_ptr_def row_entry_def default_machine_def row_goal_def state_msg_def state_with_def
        rcl_lifecycle_com_interface_publish_notification_def act_simps state_at_def)
qed

end
