(* ===== verification/LifecycleNode.thy ===== *)
theory LifecycleNode
  imports LifecycleMachine
begin

text \<open>
  Managed nodes (\<open>rclcpp_lifecycle/src/lifecycle_node_interface_impl.hpp\<close>, \<open>lifecycle_node.cpp\<close>): the
  transitions requested through the services or by the node itself run the callbacks of the user
  and drive the state machine. The design of managed nodes, four resting states and what a
  command does to them, is stated as a function, and the code is shown to refine it.
\<close>

section \<open>Nodes and callbacks\<close>

text \<open>
  A callback returns a code, throws an exception of the standard library or another one. It is a
  function of the number of callbacks that have run before and of the state it is given, so it
  may behave differently at every call.
\<close>

datatype callback_outcome = Returns u8 | Throws string | Throws_other string

type_synonym callback = "nat \<Rightarrow> u8 \<times> string \<Rightarrow> callback_outcome"

record LifecycleNodeInterfaceImpl =
  state_machine :: rcl_lifecycle_state_machine_t
  cb_map :: "u8 \<Rightarrow> callback option"
  cb_calls :: "(u8 \<times> u8 \<times> string) list"

type_synonym 'a node_act = "(LifecycleNodeInterfaceImpl, 'a) act"

definition on_machine :: "'a machine_act \<Rightarrow> 'a node_act" where
  "on_machine f n = (case f (state_machine n) of (r, sm) \<Rightarrow> (r, n\<lparr> state_machine := sm \<rparr>))"

definition register_callback :: "u8 \<Rightarrow> callback \<Rightarrow> LifecycleNodeInterfaceImpl \<Rightarrow> bool \<times> LifecycleNodeInterfaceImpl" where
  "register_callback lifecycle_transition cb n = (True, n\<lparr> cb_map := (cb_map n)(lifecycle_transition \<mapsto> cb) \<rparr>)"

text \<open>\<open>init\<close> of the implementation as far as the state machine is concerned, and the callbacks the
  constructor of \<open>LifecycleNode\<close> registers.\<close>

definition init_node :: "'a lifecycle_env_scheme \<Rightarrow> LifecycleNodeInterfaceImpl res" where
  "init_node env =
     bindR (rcl_lifecycle_state_machine_init env True rcl_lifecycle_get_zero_initialized_state_machine) (\<lambda>(ret, sm).
       if ret \<noteq> RCL_RET_OK then Err (Runtime_error ''Couldn't initialize state machine for node'')
       else Ok \<lparr> state_machine = sm, cb_map = Map.empty, cb_calls = [] \<rparr>)"

record lifecycle_callbacks =
  on_configure :: callback
  on_cleanup :: callback
  on_shutdown :: callback
  on_activate :: callback
  on_deactivate :: callback
  on_error :: callback

definition LifecycleNode_new :: "'a lifecycle_env_scheme \<Rightarrow> lifecycle_callbacks \<Rightarrow> LifecycleNodeInterfaceImpl res" where
  "LifecycleNode_new env cbs =
     bindR (init_node env) (\<lambda>n.
       Ok (foldl (\<lambda>n (c, cb). snd (register_callback (state_value env c) cb n)) n
         [(TRANSITION_STATE_CONFIGURING, on_configure cbs), (TRANSITION_STATE_CLEANINGUP, on_cleanup cbs),
          (TRANSITION_STATE_SHUTTINGDOWN, on_shutdown cbs), (TRANSITION_STATE_ACTIVATING, on_activate cbs),
          (TRANSITION_STATE_DEACTIVATING, on_deactivate cbs), (TRANSITION_STATE_ERRORPROCESSING, on_error cbs)]))"

text \<open>The callbacks of a node that overrides none.\<close>

definition default_callbacks :: "'a lifecycle_env_scheme \<Rightarrow> lifecycle_callbacks" where
  "default_callbacks env =
     (let ok = (\<lambda>_ _. Returns (callback_success env))
      in \<lparr> on_configure = ok, on_cleanup = ok, on_shutdown = ok, on_activate = ok, on_deactivate = ok, on_error = ok \<rparr>)"

section \<open>Changing the state\<close>

text \<open>A \<open>State\<close> object that refers to a state of the machine; the constructor refuses a null
  pointer.\<close>

definition state_object :: "rcl_lifecycle_state_machine_t \<Rightarrow> state_ptr option \<Rightarrow> (u8 \<times> string) res" where
  "state_object sm p =
     (if p = None then Err (Runtime_error ''rcl_lifecycle_state_handle is null'')
      else bindR (deref_state (transition_map sm) p) (\<lambda>s. Ok (ucast (s_id s), s_label s)))"

definition execute_transition_callback :: "'a lifecycle_env_scheme \<Rightarrow> u32 \<Rightarrow> u8 \<times> string \<Rightarrow> u8 node_act" where
  "execute_transition_callback env cb_id previous_state =
     bindA (getA (\<lambda>n. (cb_map n (ucast cb_id), length (cb_calls n)))) (\<lambda>(cb, k).
       case cb of
         None \<Rightarrow> retA (callback_success env)
       | Some f \<Rightarrow>
           seqA (modA (\<lambda>n. n\<lparr> cb_calls := cb_calls n @ [(ucast cb_id, previous_state)] \<rparr>))
             (case f k previous_state of
                Returns code \<Rightarrow> retA code
              | Throws _ \<Rightarrow> retA (callback_error env)
              | Throws_other what \<Rightarrow> throwA (Other_exception what)))"

definition get_label_for_return_code :: "'a lifecycle_env_scheme \<Rightarrow> u8 \<Rightarrow> string" where
  "get_label_for_return_code env code =
     (if code = callback_success env then rcl_lifecycle_transition_success_label
      else if code = callback_failure env then rcl_lifecycle_transition_failure_label
      else rcl_lifecycle_transition_error_label)"

definition current_id :: "u32 node_act" where
  "current_id =
     bindA (getA (\<lambda>n. deref_state (transition_map (state_machine n)) (current_state (state_machine n)))) (\<lambda>r.
     bindA (liftA r) (\<lambda>s. retA (s_id s)))"

text \<open>The callback of the current state runs, and its code selects the transition that leaves the
  state.\<close>

definition run_callback :: "'a lifecycle_env_scheme \<Rightarrow> u8 \<times> string \<Rightarrow> (rcl_ret \<times> u8) node_act" where
  "run_callback env initial_state =
     bindA current_id (\<lambda>cid.
     bindA (execute_transition_callback env cid initial_state) (\<lambda>code.
     bindA (on_machine (rcl_lifecycle_trigger_transition_by_label env (get_label_for_return_code env code) True)) (\<lambda>ret.
       retA (ret, code))))"

text \<open>
  \<open>cb_return_code\<close> is a reference: the caller's value is returned unchanged when the function ends
  before a callback has run.
\<close>

definition change_state :: "'a lifecycle_env_scheme \<Rightarrow> u8 \<Rightarrow> u8 \<Rightarrow> (rcl_ret \<times> u8) node_act" where
  "change_state env tid cb_return_code =
     bindA (getA (\<lambda>n. rcl_lifecycle_state_machine_is_initialized (state_machine n))) (\<lambda>initialized.
     if initialized \<noteq> RCL_RET_OK then retA (RCL_RET_ERROR, cb_return_code)
     else
       bindA (getA (\<lambda>n. state_object (state_machine n) (current_state (state_machine n)))) (\<lambda>r.
       bindA (liftA r) (\<lambda>initial_state.
       bindA (on_machine (rcl_lifecycle_trigger_transition_by_id env tid True)) (\<lambda>started.
       if started \<noteq> RCL_RET_OK then retA (RCL_RET_ERROR, cb_return_code)
       else
         bindA (run_callback env initial_state) (\<lambda>(finished, code).
         if finished \<noteq> RCL_RET_OK then retA (RCL_RET_ERROR, code)
         else if code = callback_error env then
           bindA (run_callback env initial_state) (\<lambda>(handled, _).
             retA (if handled \<noteq> RCL_RET_OK then RCL_RET_ERROR else RCL_RET_OK, code))
         else retA (RCL_RET_OK, code))))))"

definition get_current_state :: "(u8 \<times> string) node_act" where
  "get_current_state = bindA (getA (\<lambda>n. state_object (state_machine n) (current_state (state_machine n)))) liftA"

definition trigger_transition_id :: "'a lifecycle_env_scheme \<Rightarrow> u8 \<Rightarrow> u8 \<Rightarrow> ((u8 \<times> string) \<times> u8) node_act" where
  "trigger_transition_id env tid cb_return_code =
     bindA (change_state env tid cb_return_code) (\<lambda>(_, code). bindA get_current_state (\<lambda>s. retA (s, code)))"

definition trigger_transition_label :: "'a lifecycle_env_scheme \<Rightarrow> string \<Rightarrow> u8 \<Rightarrow> ((u8 \<times> string) \<times> u8) node_act" where
  "trigger_transition_label env label cb_return_code =
     bindA (getA (\<lambda>n. rcl_lifecycle_get_transition_by_label (transition_map (state_machine n))
         (current_state (state_machine n)) label)) (\<lambda>r.
     bindA (liftA r) (\<lambda>transition.
       case transition of
         None \<Rightarrow> bindA get_current_state (\<lambda>s. retA (s, cb_return_code))
       | Some t \<Rightarrow> trigger_transition_id env (ucast (t_id t)) cb_return_code))"

text \<open>The named transitions of \<open>LifecycleNode\<close>.\<close>

definition configure :: "'a lifecycle_env_scheme \<Rightarrow> u8 \<Rightarrow> ((u8 \<times> string) \<times> u8) node_act" where
  "configure env = trigger_transition_id env (transition_value env TRANSITION_CONFIGURE)"
definition cleanup :: "'a lifecycle_env_scheme \<Rightarrow> u8 \<Rightarrow> ((u8 \<times> string) \<times> u8) node_act" where
  "cleanup env = trigger_transition_id env (transition_value env TRANSITION_CLEANUP)"
definition activate :: "'a lifecycle_env_scheme \<Rightarrow> u8 \<Rightarrow> ((u8 \<times> string) \<times> u8) node_act" where
  "activate env = trigger_transition_id env (transition_value env TRANSITION_ACTIVATE)"
definition deactivate :: "'a lifecycle_env_scheme \<Rightarrow> u8 \<Rightarrow> ((u8 \<times> string) \<times> u8) node_act" where
  "deactivate env = trigger_transition_id env (transition_value env TRANSITION_DEACTIVATE)"
definition shutdown :: "'a lifecycle_env_scheme \<Rightarrow> u8 \<Rightarrow> ((u8 \<times> string) \<times> u8) node_act" where
  "shutdown env = trigger_transition_label env rcl_lifecycle_shutdown_label"

section \<open>Services\<close>

text \<open>A request of a transition: identifier and label, of which a label takes precedence; \<open>junk\<close> is
  the indeterminate value of the local variable for the code of the callback.\<close>

definition check_initialized :: "string \<Rightarrow> unit node_act" where
  "check_initialized msg =
     bindA (getA (\<lambda>n. rcl_lifecycle_state_machine_is_initialized (state_machine n))) (\<lambda>ret.
       whenA (ret \<noteq> RCL_RET_OK) (throwA (Runtime_error msg)))"

definition on_change_state :: "'a lifecycle_env_scheme \<Rightarrow> u8 \<Rightarrow> u8 \<times> string \<Rightarrow> bool node_act" where
  "on_change_state env junk req =
     seqA (check_initialized ''Can't get state. State machine is not initialized.'')
       (let go = (\<lambda>tid. bindA (change_state env tid junk) (\<lambda>(_, code). retA (code = callback_success env)))
        in if snd req \<noteq> [] then
             bindA (getA (\<lambda>n. rcl_lifecycle_get_transition_by_label (transition_map (state_machine n))
                 (current_state (state_machine n)) (snd req))) (\<lambda>r.
             bindA (liftA r) (\<lambda>transition.
               case transition of None \<Rightarrow> retA False | Some t \<Rightarrow> go (ucast (t_id t))))
           else go (fst req))"

definition on_get_state :: "(u8 \<times> string) node_act" where
  "on_get_state =
     seqA (check_initialized ''Can't get state. State machine is not initialized.'')
       (bindA (getA (\<lambda>n. deref_state (transition_map (state_machine n)) (current_state (state_machine n)))) (\<lambda>r.
        bindA (liftA r) (\<lambda>s. retA (ucast (s_id s), s_label s))))"

text \<open>A loop with a counter of type \<open>uint8_t\<close> over \<open>n\<close> elements: it does not end if \<open>n\<close> exceeds the
  range of the counter.\<close>

definition byte_loop :: "nat \<Rightarrow> 'b list \<Rightarrow> ('b \<Rightarrow> 'c res) \<Rightarrow> 'c list res option" where
  "byte_loop n xs f =
     (if 256 \<le> n then None
      else Some (if n \<le> length xs then foldr (\<lambda>x r. bindR (f x) (\<lambda>y. bindR r (\<lambda>ys. Ok (y # ys)))) (take n xs) (Ok [])
                 else Err (Undefined_behaviour ''array index'')))"

definition transition_description ::
  "rcl_lifecycle_transition_map_t \<Rightarrow> rcl_lifecycle_transition_t \<Rightarrow> ((u8 \<times> string) \<times> (u8 \<times> string) \<times> (u8 \<times> string)) res" where
  "transition_description m t =
     bindR (deref_state m (t_start t)) (\<lambda>s. bindR (deref_state m (t_goal t)) (\<lambda>g.
       Ok ((ucast (t_id t), t_label t), (ucast (s_id s), s_label s), (ucast (s_id g), s_label g))))"

definition on_get_available_states :: "LifecycleNodeInterfaceImpl \<Rightarrow> (u8 \<times> string) list res option" where
  "on_get_available_states n =
     (if rcl_lifecycle_state_machine_is_initialized (state_machine n) \<noteq> RCL_RET_OK
      then Some (Err (Runtime_error ''Can't get available states. State machine is not initialized.''))
      else let m = transition_map (state_machine n)
           in byte_loop (states_size m) (array_of (states m)) (\<lambda>s. Ok (ucast (s_id s), s_label s)))"

definition on_get_available_transitions ::
  "LifecycleNodeInterfaceImpl \<Rightarrow> ((u8 \<times> string) \<times> (u8 \<times> string) \<times> (u8 \<times> string)) list res option" where
  "on_get_available_transitions n =
     (if rcl_lifecycle_state_machine_is_initialized (state_machine n) \<noteq> RCL_RET_OK
      then Some (Err (Runtime_error ''Can't get available transitions. State machine is not initialized.''))
      else let m = transition_map (state_machine n)
           in case deref_state m (current_state (state_machine n)) of
                Inl e \<Rightarrow> Some (Err e)
              | Inr s \<Rightarrow> byte_loop (valid_transition_size s) (valid_transitions s) (transition_description m))"

definition on_get_transition_graph ::
  "LifecycleNodeInterfaceImpl \<Rightarrow> ((u8 \<times> string) \<times> (u8 \<times> string) \<times> (u8 \<times> string)) list res option" where
  "on_get_transition_graph n =
     (if rcl_lifecycle_state_machine_is_initialized (state_machine n) \<noteq> RCL_RET_OK
      then Some (Err (Runtime_error ''Can't get available transitions. State machine is not initialized.''))
      else let m = transition_map (state_machine n)
           in byte_loop (transitions_size m) (array_of (transitions m)) (transition_description m))"

section \<open>The design of managed nodes\<close>

text \<open>
  Four resting states, five commands, and the outcome of a callback. A command that is allowed
  runs the callback of the command; after an error the error callback decides between a fresh
  start and the end of the node.
\<close>

datatype resting = Unconfigured | Inactive | Active | Finalized

datatype lifecycle_command = Configure | Cleanup | Activate | Deactivate | Shutdown

datatype cb_outcome = Cb_success | Cb_failure | Cb_error

fun allowed :: "resting \<Rightarrow> lifecycle_command \<Rightarrow> bool" where
  "allowed Unconfigured c \<longleftrightarrow> c \<in> {Configure, Shutdown}"
| "allowed Inactive c \<longleftrightarrow> c \<in> {Cleanup, Activate, Shutdown}"
| "allowed Active c \<longleftrightarrow> c \<in> {Deactivate, Shutdown}"
| "allowed Finalized c \<longleftrightarrow> False"

fun completed :: "lifecycle_command \<Rightarrow> cb_outcome \<Rightarrow> resting" where
  "completed Configure out = (if out = Cb_success then Inactive else Unconfigured)"
| "completed Cleanup out = (if out = Cb_success then Unconfigured else Inactive)"
| "completed Activate out = (if out = Cb_success then Active else Inactive)"
| "completed Deactivate out = (if out = Cb_success then Inactive else Active)"
| "completed Shutdown out = Finalized"

definition design :: "lifecycle_command \<Rightarrow> cb_outcome \<Rightarrow> cb_outcome \<Rightarrow> resting" where
  "design cmd out err =
     (if out = Cb_error then (if err = Cb_success then Unconfigured else Finalized) else completed cmd out)"

text \<open>How the code represents them.\<close>

fun resting_const :: "resting \<Rightarrow> state_const" where
  "resting_const Unconfigured = PRIMARY_STATE_UNCONFIGURED"
| "resting_const Inactive = PRIMARY_STATE_INACTIVE"
| "resting_const Active = PRIMARY_STATE_ACTIVE"
| "resting_const Finalized = PRIMARY_STATE_FINALIZED"

fun busy_const :: "lifecycle_command \<Rightarrow> state_const" where
  "busy_const Configure = TRANSITION_STATE_CONFIGURING"
| "busy_const Cleanup = TRANSITION_STATE_CLEANINGUP"
| "busy_const Activate = TRANSITION_STATE_ACTIVATING"
| "busy_const Deactivate = TRANSITION_STATE_DEACTIVATING"
| "busy_const Shutdown = TRANSITION_STATE_SHUTTINGDOWN"

fun command_const :: "resting \<Rightarrow> lifecycle_command \<Rightarrow> transition_const" where
  "command_const s Configure = TRANSITION_CONFIGURE"
| "command_const s Cleanup = TRANSITION_CLEANUP"
| "command_const s Activate = TRANSITION_ACTIVATE"
| "command_const s Deactivate = TRANSITION_DEACTIVATE"
| "command_const s Shutdown =
     (case s of Unconfigured \<Rightarrow> TRANSITION_UNCONFIGURED_SHUTDOWN | Inactive \<Rightarrow> TRANSITION_INACTIVE_SHUTDOWN | _ \<Rightarrow> TRANSITION_ACTIVE_SHUTDOWN)"

definition outcome_of :: "'a lifecycle_env_scheme \<Rightarrow> u8 \<Rightarrow> cb_outcome" where
  "outcome_of env code =
     (if code = callback_success env then Cb_success else if code = callback_failure env then Cb_failure else Cb_error)"

fun outcome_label :: "cb_outcome \<Rightarrow> string" where
  "outcome_label Cb_success = rcl_lifecycle_transition_success_label"
| "outcome_label Cb_failure = rcl_lifecycle_transition_failure_label"
| "outcome_label Cb_error = rcl_lifecycle_transition_error_label"

text \<open>Callbacks that keep to their interface: they return one of the three codes or throw an
  exception of the standard library.\<close>

definition well_behaved :: "'a lifecycle_env_scheme \<Rightarrow> (u8 \<Rightarrow> callback option) \<Rightarrow> bool" where
  "well_behaved env cbs \<longleftrightarrow>
     (\<forall>i f k p. cbs i = Some f \<longrightarrow>
        (case f k p of
           Returns code \<Rightarrow> code \<in> {callback_success env, callback_failure env, callback_error env}
         | Throws _ \<Rightarrow> True
         | Throws_other _ \<Rightarrow> False))"

definition code_of_callback :: "'a lifecycle_env_scheme \<Rightarrow> (u8 \<Rightarrow> callback option) \<Rightarrow> nat \<Rightarrow> u8 \<Rightarrow> u8 \<times> string \<Rightarrow> u8" where
  "code_of_callback env cbs k i p =
     (case cbs i of
        None \<Rightarrow> callback_success env
      | Some f \<Rightarrow> (case f k p of Returns code \<Rightarrow> code | _ \<Rightarrow> callback_error env))"

definition calls_after :: "(u8 \<Rightarrow> callback option) \<Rightarrow> u8 \<Rightarrow> u8 \<times> string \<Rightarrow> (u8 \<times> u8 \<times> string) list \<Rightarrow> (u8 \<times> u8 \<times> string) list" where
  "calls_after cbs i p calls = (if cbs i = None then calls else calls @ [(i, p)])"

lemma execute_eval:
  assumes "well_behaved env (cb_map n)"
  shows "execute_transition_callback env (ucast i) p n =
    (Ok (code_of_callback env (cb_map n) (length (cb_calls n)) i p), n\<lparr> cb_calls := calls_after (cb_map n) i p (cb_calls n) \<rparr>)"
proof (cases "cb_map n i")
  case None
  then show ?thesis by (simp add: execute_transition_callback_def act_simps code_of_callback_def calls_after_def)
next
  case (Some f)
  then show ?thesis using assms [unfolded well_behaved_def, rule_format, OF Some, of "length (cb_calls n)" p]
    by (simp add: execute_transition_callback_def act_simps code_of_callback_def calls_after_def split: callback_outcome.splits)
qed

lemma code_of_callback_known:
  assumes "well_behaved env cbs"
  shows "code_of_callback env cbs k i p \<in> {callback_success env, callback_failure env, callback_error env}"
proof (cases "cbs i")
  case (Some f)
  then show ?thesis using assms [unfolded well_behaved_def, rule_format, OF Some, of k p]
    by (simp add: code_of_callback_def split: callback_outcome.splits)
qed (simp add: code_of_callback_def)

lemma label_outcome: "get_label_for_return_code env code = outcome_label (outcome_of env code)"
  by (simp add: get_label_for_return_code_def outcome_of_def)

lemma error_code:
  "documented_constants env \<Longrightarrow> code \<in> {callback_success env, callback_failure env, callback_error env} \<Longrightarrow>
   code = callback_error env \<longleftrightarrow> outcome_of env code = Cb_error"
  by (auto simp: outcome_of_def documented_constants_def)

subsection \<open>Lookups in the default table\<close>

lemmas table_defs = rows_from_def default_rows_def configure_rows_def cleanup_rows_def activate_rows_def
  deactivate_rows_def shutdown_rows_def error_rows_def
lemmas label_defs = rcl_lifecycle_configure_label_def rcl_lifecycle_cleanup_label_def rcl_lifecycle_activate_label_def
  rcl_lifecycle_deactivate_label_def rcl_lifecycle_shutdown_label_def rcl_lifecycle_transition_success_label_def
  rcl_lifecycle_transition_failure_label_def rcl_lifecycle_transition_error_label_def

lemma find_command:
  assumes "allowed s cmd"
  shows "\<exists>l. find (\<lambda>r. row_const r = command_const s cmd) (rows_from default_rows (resting_const s)) =
    Some (l, command_const s cmd, resting_const s, busy_const cmd)"
  using assms by (cases s; cases cmd) (simp_all add: table_defs row_const_def)

lemma commands_of:
  "map row_const (rows_from default_rows (resting_const s)) = map (command_const s)
     (case s of Unconfigured \<Rightarrow> [Configure, Shutdown] | Inactive \<Rightarrow> [Cleanup, Activate, Shutdown] | Active \<Rightarrow> [Deactivate, Shutdown]
      | Finalized \<Rightarrow> [])"
  by (cases s) (simp_all add: table_defs row_const_def)

lemma find_command_only:
  assumes "r \<in> set (rows_from default_rows (resting_const s))"
  shows "\<exists>cmd. allowed s cmd \<and> row_const r = command_const s cmd"
proof -
  have "row_const r \<in> set (map row_const (rows_from default_rows (resting_const s)))" using assms by simp
  then have "\<exists>cmd \<in> set (case s of Unconfigured \<Rightarrow> [Configure, Shutdown] | Inactive \<Rightarrow> [Cleanup, Activate, Shutdown]
      | Active \<Rightarrow> [Deactivate, Shutdown] | Finalized \<Rightarrow> []). row_const r = command_const s cmd"
    unfolding commands_of by (simp only: set_map image_iff)
  then obtain cmd where "cmd \<in> set (case s of Unconfigured \<Rightarrow> [Configure, Shutdown] | Inactive \<Rightarrow> [Cleanup, Activate, Shutdown]
      | Active \<Rightarrow> [Deactivate, Shutdown] | Finalized \<Rightarrow> [])" "row_const r = command_const s cmd" by blast
  then show ?thesis by (intro exI [of _ cmd]) (cases s, simp_all)
qed

lemma find_outcome:
  "\<exists>t. find (\<lambda>r. row_label r = outcome_label out) (rows_from default_rows (busy_const cmd)) =
    Some (outcome_label out, t, busy_const cmd,
      if out = Cb_error then TRANSITION_STATE_ERRORPROCESSING else resting_const (completed cmd out))"
  by (cases cmd; cases out) (simp_all add: table_defs label_defs row_label_def)

lemma find_error_outcome:
  "\<exists>t. find (\<lambda>r. row_label r = outcome_label err) (rows_from default_rows TRANSITION_STATE_ERRORPROCESSING) =
    Some (outcome_label err, t, TRANSITION_STATE_ERRORPROCESSING, if err = Cb_success then PRIMARY_STATE_UNCONFIGURED else PRIMARY_STATE_FINALIZED)"
  by (cases err) (simp_all add: table_defs label_defs row_label_def)

subsection \<open>One change of state\<close>

text \<open>The notification of every transition can be published. What happens otherwise is the subject of
  \<open>failed_notification_strands\<close>.\<close>

definition notifies :: "'a lifecycle_env_scheme \<Rightarrow> bool" where
  "notifies env \<longleftrightarrow> (\<forall>k. publish_result env k = RCL_RET_OK)"

definition connected :: "rcl_lifecycle_com_interface_t \<Rightarrow> bool" where
  "connected c \<longleftrightarrow> srv_get_state c \<noteq> Null_impl \<and> srv_change_state c \<noteq> Null_impl"

lemma find_member: "find p xs = Some x \<Longrightarrow> x \<in> set xs \<and> p x"
  by (auto simp: find_Some_iff)

lemma trigger_label:
  assumes "find (\<lambda>r. row_label r = l) (rows_from default_rows s) = Some (l', t, s, g)" "notifies env"
  shows "rcl_lifecycle_trigger_transition_by_label env l True (default_machine env com s ns) =
    (Ok RCL_RET_OK, default_machine env com g (ns @ [(state_msg env s, state_msg env g)]))"
proof -
  have r: "(l', t, s, g) \<in> set (rows_from default_rows s)" using find_member [OF assms(1)] by blast
  have "rcl_lifecycle_get_transition_by_label (map_with env default_rows) (state_at s) l = Ok (Some (row_entry env (l', t, s, g)))"
    using default_by_label [of env default_rows s l] assms(1) by simp
  then show ?thesis using trigger_row [OF r, of env com ns] assms(2)
    by (simp add: rcl_lifecycle_trigger_transition_by_label_def act_simps default_machine_def row_goal_def notifies_def)
qed

lemma trigger_id:
  assumes "documented_constants env" "notifies env"
    and "find (\<lambda>r. row_const r = c) (rows_from default_rows s) = Some (l, t, s, g)"
  shows "rcl_lifecycle_trigger_transition_by_id env (transition_value env c) True (default_machine env com s ns) =
    (Ok RCL_RET_OK, default_machine env com g (ns @ [(state_msg env s, state_msg env g)]))"
proof -
  have r: "(l, t, s, g) \<in> set (rows_from default_rows s)" using find_member [OF assms(3)] by blast
  have "rcl_lifecycle_get_transition_by_id (map_with env default_rows) (state_at s) (transition_value env c) =
      Ok (Some (row_entry env (l, t, s, g)))"
    using default_by_id [OF assms(1), of default_rows s "transition_value env c"] assms(3)
    by (simp add: transition_value_eq [OF assms(1)])
  then show ?thesis using trigger_row [OF r, of env com ns] assms(2)
    by (simp add: rcl_lifecycle_trigger_transition_by_id_def act_simps default_machine_def row_goal_def notifies_def)
qed

definition node_at :: "'a lifecycle_env_scheme \<Rightarrow> rcl_lifecycle_com_interface_t \<Rightarrow> state_const \<Rightarrow> LifecycleNodeInterfaceImpl \<Rightarrow> bool" where
  "node_at env com c n \<longleftrightarrow> (\<exists>ns. state_machine n = default_machine env com c ns)"

lemma node_machine:
  "state_machine n = default_machine env com c ns \<Longrightarrow>
   on_machine f n = (fst (f (default_machine env com c ns)), n\<lparr> state_machine := snd (f (default_machine env com c ns)) \<rparr>)"
  by (simp add: on_machine_def split: prod.split)

lemma current_default:
  "state_object (default_machine env com c ns) (current_state (default_machine env com c ns)) = Ok (state_msg env c)"
  by (simp add: state_object_def default_machine_def deref_default state_with_def state_msg_def)

lemma current_id_default:
  "state_machine n = default_machine env com c ns \<Longrightarrow> current_id n = (Ok (ucast (state_value env c)), n)"
  by (simp add: current_id_def act_simps default_machine_def deref_default state_with_def)

lemma initialized_default:
  "connected com \<Longrightarrow> rcl_lifecycle_state_machine_is_initialized (default_machine env com c ns) = RCL_RET_OK"
  by (simp add: connected_def rcl_lifecycle_state_machine_is_initialized_def default_machine_def map_with_def
      rcl_lifecycle_transition_map_is_initialized_def)

text \<open>The codes the callbacks of a command return, and what they mean.\<close>

definition command_code :: "'a lifecycle_env_scheme \<Rightarrow> resting \<Rightarrow> lifecycle_command \<Rightarrow> LifecycleNodeInterfaceImpl \<Rightarrow> u8" where
  "command_code env s cmd n =
     code_of_callback env (cb_map n) (length (cb_calls n)) (state_value env (busy_const cmd)) (state_msg env (resting_const s))"

definition error_code_after :: "'a lifecycle_env_scheme \<Rightarrow> resting \<Rightarrow> lifecycle_command \<Rightarrow> LifecycleNodeInterfaceImpl \<Rightarrow> u8" where
  "error_code_after env s cmd n =
     code_of_callback env (cb_map n)
       (length (calls_after (cb_map n) (state_value env (busy_const cmd)) (state_msg env (resting_const s)) (cb_calls n)))
       (state_value env TRANSITION_STATE_ERRORPROCESSING) (state_msg env (resting_const s))"

lemma run_callback_default:
  assumes env: "notifies env" and cbs: "well_behaved env (cb_map n)" and n: "state_machine n = default_machine env com c ns"
    and row: "\<And>out. \<exists>t. find (\<lambda>r. row_label r = outcome_label out) (rows_from default_rows c) = Some (outcome_label out, t, c, g out)"
  shows "\<exists>ns'. run_callback env p n =
    (Ok (RCL_RET_OK, code_of_callback env (cb_map n) (length (cb_calls n)) (state_value env c) p),
     n\<lparr> cb_calls := calls_after (cb_map n) (state_value env c) p (cb_calls n),
        state_machine := default_machine env com (g (outcome_of env (code_of_callback env (cb_map n) (length (cb_calls n)) (state_value env c) p))) ns' \<rparr>)"
proof -
  let ?code = "code_of_callback env (cb_map n) (length (cb_calls n)) (state_value env c) p"
  let ?n1 = "n\<lparr> cb_calls := calls_after (cb_map n) (state_value env c) p (cb_calls n) \<rparr>"
  obtain t where r: "find (\<lambda>r. row_label r = outcome_label (outcome_of env ?code)) (rows_from default_rows c) =
      Some (outcome_label (outcome_of env ?code), t, c, g (outcome_of env ?code))" using row by blast
  have n1: "state_machine ?n1 = default_machine env com c ns" using n by simp
  show ?thesis
    by (simp add: run_callback_def bindA_eval act_eval current_id_default [OF n] execute_eval [OF cbs] label_outcome
        node_machine [OF n1] trigger_label [OF r env]) (rule exI, rule refl)
qed

lemma change_state_allowed:
  assumes env: "documented_constants env" "notifies env" and com: "connected com"
    and cbs: "well_behaved env (cb_map n)" and n: "state_machine n = default_machine env com (resting_const s) ns"
    and cmd: "allowed s cmd"
  shows "\<exists>n'. change_state env (transition_value env (command_const s cmd)) code n = (Ok (RCL_RET_OK, command_code env s cmd n), n') \<and>
    node_at env com (resting_const (design cmd (outcome_of env (command_code env s cmd n)) (outcome_of env (error_code_after env s cmd n)))) n' \<and>
    cb_map n' = cb_map n"
proof -
  let ?p = "state_msg env (resting_const s)"
  let ?c = "command_code env s cmd n" and ?e = "error_code_after env s cmd n"
  let ?out = "outcome_of env ?c"
  obtain l where row: "find (\<lambda>r. row_const r = command_const s cmd) (rows_from default_rows (resting_const s)) =
      Some (l, command_const s cmd, resting_const s, busy_const cmd)" using find_command [OF cmd] by blast
  define n1 where "n1 = n\<lparr> state_machine := default_machine env com (busy_const cmd) (ns @ [(?p, state_msg env (busy_const cmd))]) \<rparr>"
  have n1': "state_machine n1 = default_machine env com (busy_const cmd) (ns @ [(?p, state_msg env (busy_const cmd))])"
    "cb_map n1 = cb_map n" "cb_calls n1 = cb_calls n" by (simp_all add: n1_def)
  have start: "on_machine (rcl_lifecycle_trigger_transition_by_id env (transition_value env (command_const s cmd)) True) n = (Ok RCL_RET_OK, n1)"
    by (simp add: n1_def node_machine [OF n] trigger_id [OF env row])
  have "well_behaved env (cb_map n1)" using cbs n1' by simp
  then obtain ns2 where run: "run_callback env ?p n1 = (Ok (RCL_RET_OK, ?c),
     n1\<lparr> cb_calls := calls_after (cb_map n) (state_value env (busy_const cmd)) ?p (cb_calls n),
        state_machine := default_machine env com (if ?out = Cb_error then TRANSITION_STATE_ERRORPROCESSING else resting_const (completed cmd ?out)) ns2 \<rparr>)"
    (is "_ = (_, ?n2)")
    using run_callback_default [OF env(2) _ n1'(1) find_outcome, of ?p] n1' by (fastforce simp: command_code_def)
  have prefix: "change_state env (transition_value env (command_const s cmd)) code n =
    (if ?out = Cb_error then
       bindA (run_callback env ?p) (\<lambda>(handled, _). retA (if handled \<noteq> RCL_RET_OK then RCL_RET_ERROR else RCL_RET_OK, ?c)) ?n2
     else (Ok (RCL_RET_OK, ?c), ?n2))"
    using start run error_code [OF env(1) code_of_callback_known [OF cbs]]
    by (simp add: change_state_def bindA_eval act_eval n initialized_default [OF com] current_default command_code_def)
  show ?thesis
  proof (cases "?out = Cb_error")
    case False
    with prefix show ?thesis by (auto simp: design_def node_at_def n1_def)
  next
    case True
    have n2: "state_machine ?n2 = default_machine env com TRANSITION_STATE_ERRORPROCESSING ns2" "cb_map ?n2 = cb_map n"
      "cb_calls ?n2 = calls_after (cb_map n) (state_value env (busy_const cmd)) ?p (cb_calls n)"
      using True by (simp_all add: n1_def)
    then have "well_behaved env (cb_map ?n2)" using cbs by simp
    from run_callback_default [OF env(2) this n2(1) find_error_outcome, of ?p] obtain n3 where
      "run_callback env ?p ?n2 = (Ok (RCL_RET_OK, ?e), n3)" "cb_map n3 = cb_map n"
      "node_at env com (if outcome_of env ?e = Cb_success then PRIMARY_STATE_UNCONFIGURED else PRIMARY_STATE_FINALIZED) n3"
      using n2 by (fastforce simp: error_code_after_def node_at_def)
    with prefix True show ?thesis by (auto simp: bindA_eval act_eval design_def)
  qed
qed

text \<open>A request for a transition the state does not have changes nothing.\<close>

lemma change_state_refused:
  assumes env: "documented_constants env" and com: "connected com"
    and n: "state_machine n = default_machine env com (resting_const s) ns"
    and tid: "\<And>cmd. allowed s cmd \<Longrightarrow> tid \<noteq> transition_value env (command_const s cmd)"
  shows "change_state env tid code n = (Ok (RCL_RET_ERROR, code), n)"
proof -
  have "find (\<lambda>r. transition_value env (row_const r) = tid) (rows_from default_rows (resting_const s)) = None"
    using find_command_only tid unfolding find_None_iff by metis
  then have "rcl_lifecycle_get_transition_by_id (map_with env default_rows) (state_at (resting_const s)) tid = Ok None"
    using default_by_id [OF env] by simp
  then have "rcl_lifecycle_trigger_transition_by_id env tid True (default_machine env com (resting_const s) ns) =
      (Ok RCL_RET_ERROR, default_machine env com (resting_const s) ns)"
    by (simp add: rcl_lifecycle_trigger_transition_by_id_def trigger_transition_ptr_def act_simps default_machine_def)
  then show ?thesis
    using n by (simp add: change_state_def bindA_eval act_eval initialized_default [OF com] current_default node_machine [OF n])
qed

text \<open>
  A notification that cannot be published strands the node: the machine stays in the transition
  state of the command, the callback of the user never runs.\<close>

lemma failed_notification_strands:
  assumes "documented_constants env" "connected com" "state_machine n = default_machine env com (resting_const s) ns"
    and "allowed s cmd" "publish_result env (length ns) \<noteq> RCL_RET_OK"
  shows "\<exists>n'. change_state env (transition_value env (command_const s cmd)) code n = (Ok (RCL_RET_ERROR, code), n') \<and>
    node_at env com (busy_const cmd) n' \<and> cb_calls n' = cb_calls n"
proof -
  obtain l where row: "find (\<lambda>r. row_const r = command_const s cmd) (rows_from default_rows (resting_const s)) =
      Some (l, command_const s cmd, resting_const s, busy_const cmd)" using find_command [OF assms(4)] by blast
  have r: "(l, command_const s cmd, resting_const s, busy_const cmd) \<in> set (rows_from default_rows (resting_const s))"
    using find_member [OF row] by blast
  have look: "rcl_lifecycle_get_transition_by_id (map_with env default_rows) (state_at (resting_const s))
      (transition_value env (command_const s cmd)) = Ok (Some (row_entry env (l, command_const s cmd, resting_const s, busy_const cmd)))"
    using default_by_id [OF assms(1), of default_rows "resting_const s"] row by (simp add: transition_value_eq [OF assms(1)])
  have "rcl_lifecycle_trigger_transition_by_id env (transition_value env (command_const s cmd)) True
      (default_machine env com (resting_const s) ns) =
      (Ok RCL_RET_ERROR, default_machine env com (busy_const cmd) (ns @ [(state_msg env (resting_const s), state_msg env (busy_const cmd))]))"
    using trigger_row [OF r, of env com ns] assms(5) look
    by (simp add: rcl_lifecycle_trigger_transition_by_id_def act_simps default_machine_def row_goal_def)
  then show ?thesis
    by (simp add: change_state_def bindA_eval act_eval initialized_default [OF assms(2)] assms(3) current_default
        node_machine [OF assms(3)] node_at_def) blast
qed

section \<open>Properties\<close>

text \<open>C14.
  A change of state follows the design of managed nodes, provided that the notifications of the
  transitions can be published and that the callbacks keep to their interface (they return one of
  the three codes or throw an exception of the standard library, which counts as an error): from a
  resting state an allowed command runs the callback of the command, and after an error the error
  callback, and ends in the resting state that the design gives for their outcomes, with the code of
  the callback for the caller. Any other transition identifier is refused with nothing changed,
  whether or not notifications can be published. If the first notification of an allowed command
  cannot be published, the caller gets an error, no callback runs, and the node is left in the
  transition state of the command.\<close>

theorem change_state_refines_design:
  assumes "documented_constants env" "connected com" "well_behaved env (cb_map n)"
    and "state_machine n = default_machine env com (resting_const s) ns"
  shows "(\<forall>cmd. allowed s cmd \<and> notifies env \<longrightarrow>
      (\<exists>n'. change_state env (transition_value env (command_const s cmd)) code n = (Ok (RCL_RET_OK, command_code env s cmd n), n') \<and>
        node_at env com (resting_const (design cmd (outcome_of env (command_code env s cmd n)) (outcome_of env (error_code_after env s cmd n)))) n')) \<and>
    (\<forall>tid. (\<forall>cmd. allowed s cmd \<longrightarrow> tid \<noteq> transition_value env (command_const s cmd)) \<longrightarrow>
      change_state env tid code n = (Ok (RCL_RET_ERROR, code), n)) \<and>
    (\<forall>cmd. allowed s cmd \<and> publish_result env (length ns) \<noteq> RCL_RET_OK \<longrightarrow>
      (\<exists>n'. change_state env (transition_value env (command_const s cmd)) code n = (Ok (RCL_RET_ERROR, code), n') \<and>
        node_at env com (busy_const cmd) n' \<and> cb_calls n' = cb_calls n))"
  using change_state_allowed [OF assms(1) _ assms(2-4)] change_state_refused [OF assms(1,2,4)]
    failed_notification_strands [OF assms(1,2,4)] by blast

text \<open>A service request in a resting state is a request for one of the allowed commands or is refused.\<close>

lemma service_request:
  assumes env: "documented_constants env" "notifies env" and com: "connected com"
    and cbs: "well_behaved env (cb_map n)" and at: "node_at env com (resting_const s) n"
  shows "\<exists>b n' s'. on_change_state env junk req n = (Ok b, n') \<and> node_at env com (resting_const s') n' \<and> cb_map n' = cb_map n \<and>
    (s = Finalized \<longrightarrow> s' = Finalized)"
proof -
  obtain ns where n: "state_machine n = default_machine env com (resting_const s) ns" using at by (auto simp: node_at_def)
  have go: "\<exists>b n' s'. bindA (change_state env tid junk) (\<lambda>(_, code). retA (code = callback_success env)) n = (Ok b, n') \<and>
      node_at env com (resting_const s') n' \<and> cb_map n' = cb_map n \<and> (s = Finalized \<longrightarrow> s' = Finalized)" for tid
  proof (cases "\<exists>cmd. allowed s cmd \<and> tid = transition_value env (command_const s cmd)")
    case True
    then obtain cmd where cmd: "allowed s cmd" "tid = transition_value env (command_const s cmd)" by blast
    obtain code n' s' where "change_state env tid junk n = (Ok (RCL_RET_OK, code), n')" "node_at env com (resting_const s') n'"
      "cb_map n' = cb_map n" using change_state_allowed [OF env com cbs n cmd(1), of junk] unfolding cmd(2) by blast
    moreover have "s \<noteq> Finalized" using cmd(1) by auto
    ultimately show ?thesis by (auto simp: bindA_eval act_eval)
  next
    case False
    then have "change_state env tid junk n = (Ok (RCL_RET_ERROR, junk), n)"
      by (intro change_state_refused [OF env(1) com n]) blast
    then show ?thesis using at by (auto simp: bindA_eval act_eval)
  qed
  have init: "rcl_lifecycle_state_machine_is_initialized (state_machine n) = RCL_RET_OK"
    by (simp add: n initialized_default [OF com])
  have look: "rcl_lifecycle_get_transition_by_label (transition_map (state_machine n)) (current_state (state_machine n)) l =
      Ok (map_option (row_entry env) (find (\<lambda>r. row_label r = l) (rows_from default_rows (resting_const s))))" for l
    by (simp add: n default_machine_def default_by_label)
  show ?thesis
  proof (cases "snd req = []")
    case True
    then show ?thesis using go [of "fst req"] init by (simp add: on_change_state_def check_initialized_def seqA_eval bindA_eval act_eval)
  next
    case False
    then show ?thesis
      using go at init look [of "snd req"]
      by (cases "find (\<lambda>r. row_label r = snd req) (rows_from default_rows (resting_const s))")
        (auto simp: on_change_state_def check_initialized_def seqA_eval bindA_eval act_eval)
  qed
qed

fun serve_changes :: "'a lifecycle_env_scheme \<Rightarrow> (u8 \<times> u8 \<times> string) list \<Rightarrow> LifecycleNodeInterfaceImpl \<Rightarrow> bool list res \<times> LifecycleNodeInterfaceImpl" where
  "serve_changes env [] n = (Ok [], n)"
| "serve_changes env ((junk, req) # reqs) n =
     bindA (on_change_state env junk req) (\<lambda>b. bindA (serve_changes env reqs) (\<lambda>bs. retA (b # bs))) n"

lemma serve_changes_rest:
  assumes env: "documented_constants env" "notifies env" and com: "connected com"
  shows "well_behaved env (cb_map n) \<Longrightarrow> node_at env com (resting_const s) n \<Longrightarrow>
    \<exists>bs n' s'. serve_changes env reqs n = (Ok bs, n') \<and> length bs = length reqs \<and> node_at env com (resting_const s') n' \<and>
      cb_map n' = cb_map n \<and> (s = Finalized \<longrightarrow> s' = Finalized)"
proof (induction reqs arbitrary: n s)
  case Nil
  then show ?case by auto
next
  case (Cons r reqs)
  obtain junk req where r: "r = (junk, req)" by (cases r)
  obtain b n1 s1 where one: "on_change_state env junk req n = (Ok b, n1)" "node_at env com (resting_const s1) n1"
    "cb_map n1 = cb_map n" "s = Finalized \<longrightarrow> s1 = Finalized"
    using service_request [OF env com Cons.prems] by blast
  then have "well_behaved env (cb_map n1)" using Cons.prems by simp
  from Cons.IH [OF this one(2)] obtain bs n2 s2 where two: "serve_changes env reqs n1 = (Ok bs, n2)" "length bs = length reqs"
    "node_at env com (resting_const s2) n2" "cb_map n2 = cb_map n1" "s1 = Finalized \<longrightarrow> s2 = Finalized" by blast
  then have "serve_changes env (r # reqs) n = (Ok (b # bs), n2)" using one(1) by (simp add: r bindA_eval act_eval)
  with one two show ?case by auto
qed

lemma LifecycleNode_new_starts:
  assumes env: "documented_constants env" "memory_available env" and h: "\<And>x. handle_init_ok env x"
  shows "\<exists>n com. LifecycleNode_new env cbs = Ok n \<and> connected com \<and> node_at env com PRIMARY_STATE_UNCONFIGURED n \<and>
    (\<forall>i f. cb_map n i = Some f \<longrightarrow> f \<in> {on_configure cbs, on_cleanup cbs, on_shutdown cbs, on_activate cbs, on_deactivate cbs, on_error cbs})"
proof -
  define com where "com = \<lparr> pub_transition_event = Live_impl, srv_change_state = Live_impl, srv_get_state = Live_impl,
    srv_get_available_states = Live_impl, srv_get_available_transitions = Live_impl, srv_get_transition_graph = Live_impl \<rparr>"
  have "rcl_lifecycle_com_interface_init env rcl_lifecycle_get_zero_initialized_com_interface = Ok (RCL_RET_OK, com)"
    by (simp add: rcl_lifecycle_com_interface_init_def h com_def Let_def)
  then have "rcl_lifecycle_state_machine_init env True rcl_lifecycle_get_zero_initialized_state_machine =
      Ok (RCL_RET_OK, default_machine env com PRIMARY_STATE_UNCONFIGURED [])"
    using init_default [OF env, of com]
    by (simp add: rcl_lifecycle_state_machine_init_def rcl_lifecycle_get_zero_initialized_state_machine_def Let_def)
  then obtain n where n: "LifecycleNode_new env cbs = Ok n" "state_machine n = default_machine env com PRIMARY_STATE_UNCONFIGURED []"
    and map: "cb_map n = [state_value env TRANSITION_STATE_CONFIGURING \<mapsto> on_configure cbs,
      state_value env TRANSITION_STATE_CLEANINGUP \<mapsto> on_cleanup cbs, state_value env TRANSITION_STATE_SHUTTINGDOWN \<mapsto> on_shutdown cbs,
      state_value env TRANSITION_STATE_ACTIVATING \<mapsto> on_activate cbs, state_value env TRANSITION_STATE_DEACTIVATING \<mapsto> on_deactivate cbs,
      state_value env TRANSITION_STATE_ERRORPROCESSING \<mapsto> on_error cbs]"
    by (simp add: LifecycleNode_new_def init_node_def register_callback_def)
  have "\<forall>i f. cb_map n i = Some f \<longrightarrow> f \<in> {on_configure cbs, on_cleanup cbs, on_shutdown cbs, on_activate cbs, on_deactivate cbs, on_error cbs}"
    unfolding map by simp
  moreover have "connected com" by (simp add: connected_def com_def)
  ultimately show ?thesis unfolding node_at_def using n by blast
qed

text \<open>C16.
  A managed node whose transition notifications can always be published (and that gets its memory and
  its service handles) is at rest between requests: the node can be constructed, and whatever
  sequence of change requests its service gets (any identifiers and labels), with callbacks that
  return one of the three codes or throw an exception of the standard library, every request is
  answered without an exception, the machine is in one of the four resting states afterwards, and a
  finalized node stays finalized. A notification that fails strands the node
  (\<open>failed_notification_strands\<close>).\<close>

theorem lifecycle_node_rests:
  assumes "documented_constants env" "memory_available env" "\<And>x. handle_init_ok env x" "notifies env"
    and "\<forall>f \<in> {on_configure cbs, on_cleanup cbs, on_shutdown cbs, on_activate cbs, on_deactivate cbs, on_error cbs}.
      well_behaved env (\<lambda>_. Some f)"
  shows "\<exists>n com. LifecycleNode_new env cbs = Ok n \<and> node_at env com PRIMARY_STATE_UNCONFIGURED n \<and>
    (\<forall>reqs. \<exists>bs n' s. serve_changes env reqs n = (Ok bs, n') \<and> length bs = length reqs \<and> node_at env com (resting_const s) n' \<and>
      (s = Finalized \<longrightarrow> (\<forall>more. \<exists>bs' n''. serve_changes env more n' = (Ok bs', n'') \<and> node_at env com PRIMARY_STATE_FINALIZED n'')))"
proof -
  obtain n com where n: "LifecycleNode_new env cbs = Ok n" "connected com" "node_at env com PRIMARY_STATE_UNCONFIGURED n"
    and cbs: "\<forall>i f. cb_map n i = Some f \<longrightarrow> f \<in> {on_configure cbs, on_cleanup cbs, on_shutdown cbs, on_activate cbs, on_deactivate cbs, on_error cbs}"
    using LifecycleNode_new_starts [OF assms(1-3)] by blast
  have wb: "well_behaved env (cb_map n)"
    unfolding well_behaved_def
  proof (intro allI impI)
    fix i f k p assume "cb_map n i = Some f"
    then have "well_behaved env (\<lambda>_. Some f)" using cbs assms(5) by blast
    then show "case f k p of Returns code \<Rightarrow> code \<in> {callback_success env, callback_failure env, callback_error env}
        | Throws _ \<Rightarrow> True | Throws_other _ \<Rightarrow> False" unfolding well_behaved_def by blast
  qed
  note rests = serve_changes_rest [OF assms(1,4) n(2)]
  have "\<exists>bs n' s. serve_changes env reqs n = (Ok bs, n') \<and> length bs = length reqs \<and> node_at env com (resting_const s) n' \<and>
      (s = Finalized \<longrightarrow> (\<forall>more. \<exists>bs' n''. serve_changes env more n' = (Ok bs', n'') \<and> node_at env com PRIMARY_STATE_FINALIZED n''))" for reqs
  proof -
    obtain bs n' s where one: "serve_changes env reqs n = (Ok bs, n')" "length bs = length reqs" "node_at env com (resting_const s) n'"
      "cb_map n' = cb_map n" using rests [OF wb, of Unconfigured reqs] n(3) by auto
    then have wb': "well_behaved env (cb_map n')" using wb by simp
    have "s = Finalized \<longrightarrow> (\<forall>more. \<exists>bs' n''. serve_changes env more n' = (Ok bs', n'') \<and> node_at env com PRIMARY_STATE_FINALIZED n'')"
      using rests [OF wb' one(3)] by fastforce
    with one show ?thesis by blast
  qed
  with n show ?thesis by blast
qed

subsection \<open>Witnesses\<close>

fun demo_transition :: "transition_const \<Rightarrow> u8" where
  "demo_transition TRANSITION_CONFIGURE = 1"
| "demo_transition TRANSITION_CLEANUP = 2"
| "demo_transition TRANSITION_ACTIVATE = 3"
| "demo_transition TRANSITION_DEACTIVATE = 4"
| "demo_transition TRANSITION_UNCONFIGURED_SHUTDOWN = 5"
| "demo_transition TRANSITION_INACTIVE_SHUTDOWN = 6"
| "demo_transition TRANSITION_ACTIVE_SHUTDOWN = 7"
| "demo_transition TRANSITION_ON_CONFIGURE_SUCCESS = 10"
| "demo_transition TRANSITION_ON_CONFIGURE_FAILURE = 11"
| "demo_transition TRANSITION_ON_CONFIGURE_ERROR = 12"
| "demo_transition TRANSITION_ON_CLEANUP_SUCCESS = 20"
| "demo_transition TRANSITION_ON_CLEANUP_FAILURE = 21"
| "demo_transition TRANSITION_ON_CLEANUP_ERROR = 22"
| "demo_transition TRANSITION_ON_ACTIVATE_SUCCESS = 30"
| "demo_transition TRANSITION_ON_ACTIVATE_FAILURE = 31"
| "demo_transition TRANSITION_ON_ACTIVATE_ERROR = 32"
| "demo_transition TRANSITION_ON_DEACTIVATE_SUCCESS = 40"
| "demo_transition TRANSITION_ON_DEACTIVATE_FAILURE = 41"
| "demo_transition TRANSITION_ON_DEACTIVATE_ERROR = 42"
| "demo_transition TRANSITION_ON_SHUTDOWN_SUCCESS = 50"
| "demo_transition TRANSITION_ON_SHUTDOWN_FAILURE = 51"
| "demo_transition TRANSITION_ON_SHUTDOWN_ERROR = 52"
| "demo_transition TRANSITION_ON_ERROR_SUCCESS = 60"
| "demo_transition TRANSITION_ON_ERROR_FAILURE = 61"
| "demo_transition TRANSITION_ON_ERROR_ERROR = 62"

definition demo_state :: "state_const \<Rightarrow> u8" where
  "demo_state c = (if state_index c < 5 then of_nat (state_index c) else of_nat (state_index c + 5))"

definition demo_lifecycle :: lifecycle_env where
  "demo_lifecycle = \<lparr> state_value = demo_state, transition_value = demo_transition, callback_success = 97, callback_failure = 98,
     callback_error = 99, realloc_ok = (\<lambda>_ _. True), handle_init_ok = (\<lambda>_. True), handle_fini_ok = (\<lambda>_. True),
     publish_result = (\<lambda>_. RCL_RET_OK) \<rparr>"

lemma demo_transition_inj: "inj demo_transition"
proof (rule injI)
  fix x y assume "demo_transition x = demo_transition y"
  then show "x = y" by (cases x; cases y) simp_all
qed

lemma demo_state_inj: "inj demo_state"
proof (rule injI)
  fix x y assume "demo_state x = demo_state y"
  then show "x = y" by (cases x; cases y) (simp_all add: demo_state_def)
qed

lemma demo_lifecycle_ok: "documented_constants demo_lifecycle" "memory_available demo_lifecycle" "notifies demo_lifecycle"
  "\<And>x. handle_init_ok demo_lifecycle x"
  using demo_transition_inj demo_state_inj
  by (simp_all add: documented_constants_def memory_available_def notifies_def demo_lifecycle_def)

text \<open>A node whose activation throws and whose error callback succeeds.\<close>

definition demo_com :: rcl_lifecycle_com_interface_t where
  "demo_com = \<lparr> pub_transition_event = Live_impl, srv_change_state = Live_impl, srv_get_state = Live_impl,
    srv_get_available_states = Live_impl, srv_get_available_transitions = Live_impl, srv_get_transition_graph = Live_impl \<rparr>"

definition demo_lifecycle_node :: LifecycleNodeInterfaceImpl where
  "demo_lifecycle_node = \<lparr> state_machine = default_machine demo_lifecycle demo_com PRIMARY_STATE_INACTIVE [],
     cb_map = [13 \<mapsto> (\<lambda>_ _. Throws ''motor not found'')], cb_calls = [] \<rparr>"

theorem change_state_refines_design_witness:
  "\<exists>n'. change_state demo_lifecycle 3 0 demo_lifecycle_node = (Ok (RCL_RET_OK, 99), n') \<and>
     node_at demo_lifecycle demo_com PRIMARY_STATE_UNCONFIGURED n'"
proof -
  have "well_behaved demo_lifecycle (cb_map demo_lifecycle_node)" "connected demo_com"
    "state_machine demo_lifecycle_node = default_machine demo_lifecycle demo_com (resting_const Inactive) []"
    by (simp_all add: well_behaved_def demo_lifecycle_node_def connected_def demo_com_def)
  from change_state_refines_design [OF demo_lifecycle_ok(1) this(2,1,3), of 0] demo_lifecycle_ok(3)
  have "\<exists>n'. change_state demo_lifecycle (transition_value demo_lifecycle (command_const Inactive Activate)) 0 demo_lifecycle_node =
      (Ok (RCL_RET_OK, command_code demo_lifecycle Inactive Activate demo_lifecycle_node), n') \<and>
    node_at demo_lifecycle demo_com (resting_const (design Activate
      (outcome_of demo_lifecycle (command_code demo_lifecycle Inactive Activate demo_lifecycle_node))
      (outcome_of demo_lifecycle (error_code_after demo_lifecycle Inactive Activate demo_lifecycle_node)))) n'" by simp
  moreover have "command_code demo_lifecycle Inactive Activate demo_lifecycle_node = 99"
    "error_code_after demo_lifecycle Inactive Activate demo_lifecycle_node = 97"
    by (simp_all add: command_code_def error_code_after_def code_of_callback_def demo_lifecycle_node_def demo_lifecycle_def demo_state_def)
  ultimately show ?thesis by (simp add: outcome_of_def design_def demo_lifecycle_def)
qed

theorem lifecycle_node_rests_witness:
  "\<exists>n com. LifecycleNode_new demo_lifecycle (default_callbacks demo_lifecycle) = Ok n \<and> node_at demo_lifecycle com PRIMARY_STATE_UNCONFIGURED n \<and>
     (\<exists>bs n' s. serve_changes demo_lifecycle [(0, 1, []), (0, 0, ''activate''), (0, 200, []), (0, 0, ''shutdown'')] n = (Ok bs, n') \<and> length bs = 4 \<and>
       node_at demo_lifecycle com (resting_const s) n')"
proof -
  have "\<forall>f \<in> {on_configure (default_callbacks demo_lifecycle), on_cleanup (default_callbacks demo_lifecycle),
      on_shutdown (default_callbacks demo_lifecycle), on_activate (default_callbacks demo_lifecycle),
      on_deactivate (default_callbacks demo_lifecycle), on_error (default_callbacks demo_lifecycle)}.
      well_behaved demo_lifecycle (\<lambda>_. Some f)"
    by (simp add: default_callbacks_def well_behaved_def Let_def)
  from lifecycle_node_rests [OF demo_lifecycle_ok(1,2,4,3), of "default_callbacks demo_lifecycle", OF this]
  obtain n com where n: "LifecycleNode_new demo_lifecycle (default_callbacks demo_lifecycle) = Ok n" "node_at demo_lifecycle com PRIMARY_STATE_UNCONFIGURED n"
    and run: "\<forall>reqs. \<exists>bs n' s. serve_changes demo_lifecycle reqs n = (Ok bs, n') \<and> length bs = length reqs \<and> node_at demo_lifecycle com (resting_const s) n' \<and>
      (s = Finalized \<longrightarrow> (\<forall>more. \<exists>bs' n''. serve_changes demo_lifecycle more n' = (Ok bs', n'') \<and> node_at demo_lifecycle com PRIMARY_STATE_FINALIZED n''))"
    by (elim exE conjE) (rule that)
  let ?reqs = "[(0, 1, []), (0, 0, ''activate''), (0, 200, []), (0, 0, ''shutdown'')] :: (u8 \<times> u8 \<times> string) list"
  have "\<exists>bs n' s. serve_changes demo_lifecycle [(0, 1, []), (0, 0, ''activate''), (0, 200, []), (0, 0, ''shutdown'')] n = (Ok bs, n') \<and> length bs = 4 \<and>
       node_at demo_lifecycle com (resting_const s) n'"
    using spec [OF run, of ?reqs] by (elim exE conjE, intro exI conjI) (assumption, simp, assumption)
  with n show ?thesis by blast
qed

subsection \<open>Errors\<close>

text \<open>The answer to a refused change request is indeterminate: for an identifier that is no transition
  of the current state the service reports success exactly if the uninitialized variable for the
  code of the callback happens to hold the code of success, and the node is unchanged.\<close>

theorem refused_request_answer_indeterminate:
  assumes "documented_constants env" "connected com" "state_machine n = default_machine env com (resting_const s) ns"
    and "\<And>cmd. allowed s cmd \<Longrightarrow> tid \<noteq> transition_value env (command_const s cmd)"
  shows "on_change_state env junk (tid, []) n = (Ok (junk = callback_success env), n)"
  using change_state_refused [OF assms] initialized_default [OF assms(2)]
  by (simp add: on_change_state_def check_initialized_def seqA_eval bindA_eval act_eval assms(3))

theorem refused_request_answer_indeterminate_witness:
  "on_change_state demo_lifecycle 97 (1, []) demo_lifecycle_node = (Ok True, demo_lifecycle_node)"
proof -
  have c: "connected demo_com" "state_machine demo_lifecycle_node = default_machine demo_lifecycle demo_com (resting_const Inactive) []"
    by (simp_all add: connected_def demo_com_def demo_lifecycle_node_def)
  have t: "1 \<noteq> transition_value demo_lifecycle (command_const Inactive cmd)" if "allowed Inactive cmd" for cmd
    using that by (cases cmd) (simp_all add: demo_lifecycle_def)
  from refused_request_answer_indeterminate [OF demo_lifecycle_ok(1) c t, of 97] show ?thesis by (simp add: demo_lifecycle_def)
qed

text \<open>
  A set-up that fails for lack of memory is reported as a success: the machine has no current
  state, its map is released and so are the service handles that the node goes on to use.\<close>

lemma failed_set_up_reported_ok:
  assumes "\<And>x. handle_init_ok env x" "\<And>x. handle_fini_ok env x" "\<not> realloc_ok env ''states'' 1"
  shows "\<exists>sm. rcl_lifecycle_state_machine_init env True rcl_lifecycle_get_zero_initialized_state_machine = Ok (RCL_RET_OK, sm) \<and>
    current_state sm = None \<and> rcl_lifecycle_state_machine_is_initialized sm = RCL_RET_ERROR \<and>
    srv_change_state (com_interface sm) = Freed_impl"
  using assms
  by (simp add: rcl_lifecycle_state_machine_init_def rcl_lifecycle_com_interface_init_def Let_def
      rcl_lifecycle_get_zero_initialized_state_machine_def rcl_lifecycle_get_zero_initialized_com_interface_def
      rcl_lifecycle_init_default_state_machine_def register_primary_states_def primary_states_def rcl_lifecycle_register_state_def
      rcl_lifecycle_get_state_def rcl_lifecycle_get_zero_initialized_transition_map_def rcl_lifecycle_state_machine_fini_def
      rcl_lifecycle_com_interface_fini_def fini_handle_def rcl_lifecycle_transition_map_fini_def
      rcl_lifecycle_state_machine_is_initialized_def rcl_lifecycle_transition_map_is_initialized_def)

text \<open>
  The error callback of a node that overrides none succeeds, so after an error such a node starts
  afresh instead of being finalized.\<close>

lemma default_error_restarts:
  "documented_constants env \<Longrightarrow> on_error (default_callbacks env) k p = Returns (callback_success env) \<and>
    design cmd Cb_error (outcome_of env (callback_success env)) = Unconfigured"
  by (simp add: default_callbacks_def outcome_of_def design_def Let_def)

subsection \<open>What the services report\<close>

lemma byte_loop_map:
  "length xs < 256 \<Longrightarrow> (\<And>x. f (h x) = Ok (g x)) \<Longrightarrow> byte_loop (length xs) (map h xs) f = Some (Ok (map g xs))"
proof -
  assume "length xs < 256" and f: "\<And>x. f (h x) = Ok (g x)"
  moreover from f have "foldr (\<lambda>x r. bindR (f x) (\<lambda>y. bindR r (\<lambda>ys. Ok (y # ys)))) (map h xs) (Ok []) = Ok (map g xs)"
    by (induction xs) simp_all
  ultimately show ?thesis by (simp add: byte_loop_def)
qed

definition row_description :: "'a lifecycle_env_scheme \<Rightarrow> transition_row \<Rightarrow> (u8 \<times> string) \<times> (u8 \<times> string) \<times> (u8 \<times> string)" where
  "row_description env = (\<lambda>(l, t, s, g). ((transition_value env t, l), state_msg env s, state_msg env g))"

lemma describe_row: "transition_description (map_with env rows) (row_entry env r) = Ok (row_description env r)"
  by (cases r) (simp add: transition_description_def row_entry_def deref_default state_with_def row_description_def state_msg_def)

lemma length_rows_from: "length (rows_from default_rows c) < 256"
  using length_filter_le [of "\<lambda>(_, _, start, _). start = c" default_rows] by (simp add: table_defs)

text \<open>The services report the transitions of the current state and the whole table.\<close>

lemma services_report:
  assumes "connected com" "state_machine n = default_machine env com c ns"
  shows "on_get_available_transitions n = Some (Ok (map (row_description env) (rows_from default_rows c)))"
    and "on_get_transition_graph n = Some (Ok (map (row_description env) default_rows))"
    and "on_get_available_states n = Some (Ok (map (\<lambda>(l, d). (state_value env d, l)) default_states))"
    and "on_get_state n = (Ok (state_msg env c), n)"
proof -
  note init = initialized_default [OF assms(1), of env c ns]
  note loop = byte_loop_map [where f = "transition_description (map_with env default_rows)" and h = "row_entry env"
      and g = "row_description env", OF _ describe_row]
  show "on_get_available_transitions n = Some (Ok (map (row_description env) (rows_from default_rows c)))"
    using loop [OF length_rows_from] init
    by (simp add: on_get_available_transitions_def assms(2) Let_def default_machine_def deref_default state_with_def)
  show "on_get_transition_graph n = Some (Ok (map (row_description env) default_rows))"
    using loop [of default_rows] init
    by (simp add: on_get_transition_graph_def assms(2) Let_def default_machine_def map_with_def array_of_def table_defs)
  show "on_get_available_states n = Some (Ok (map (\<lambda>(l, d). (state_value env d, l)) default_states))"
    using byte_loop_map [of default_states "\<lambda>s. Ok (ucast (s_id s), s_label s)" "state_with env default_rows" "\<lambda>(l, d). (state_value env d, l)"] init
    by (auto simp: on_get_available_states_def assms(2) Let_def default_machine_def map_with_def array_of_def state_with_def)
  show "on_get_state n = (Ok (state_msg env c), n)"
    by (simp add: on_get_state_def check_initialized_def seqA_eval bindA_eval act_eval assms(2) initialized_default [OF assms(1)])
      (simp add: default_machine_def deref_default state_with_def state_msg_def act_eval)
qed

section \<open>Managed publishers\<close>

text \<open>
  \<open>LifecyclePublisher\<close>: the publisher of the base class behind a switch; \<open>publish\<close> is the operation
  of the base class, which receives the message.
\<close>

record 'p LifecyclePublisher =
  enabled :: bool
  base_publisher :: 'p

definition LifecyclePublisher_new :: "'p \<Rightarrow> 'p LifecyclePublisher" where
  "LifecyclePublisher_new b = \<lparr> enabled = False, base_publisher = b \<rparr>"

definition publisher_on_activate :: "'p LifecyclePublisher \<Rightarrow> 'p LifecyclePublisher" where
  "publisher_on_activate p = p\<lparr> enabled := True \<rparr>"

definition publisher_on_deactivate :: "'p LifecyclePublisher \<Rightarrow> 'p LifecyclePublisher" where
  "publisher_on_deactivate p = p\<lparr> enabled := False \<rparr>"

definition publish_message :: "('m \<Rightarrow> 'p \<Rightarrow> 'p res) \<Rightarrow> 'm \<Rightarrow> 'p LifecyclePublisher \<Rightarrow> 'p LifecyclePublisher res" where
  "publish_message publish msg p =
     (if \<not> enabled p then Ok p
      else bindR (publish msg (base_publisher p)) (\<lambda>b. Ok (p\<lparr> base_publisher := b \<rparr>)))"

definition publish_pointer :: "('m \<Rightarrow> 'p \<Rightarrow> 'p res) \<Rightarrow> 'm option \<Rightarrow> 'p LifecyclePublisher \<Rightarrow> 'p LifecyclePublisher res" where
  "publish_pointer publish msg p =
     (case msg of
        None \<Rightarrow> Err (Runtime_error ''msg argument is nullptr'')
      | Some m \<Rightarrow> publish_message publish m p)"

text \<open>What happens to a managed publisher, and that only messages published while it is active reach
  the base class.\<close>

datatype 'm publisher_event = Activate_publisher | Deactivate_publisher | Publish_message 'm

fun publisher_run :: "('m \<Rightarrow> 'p \<Rightarrow> 'p res) \<Rightarrow> 'm publisher_event list \<Rightarrow> 'p LifecyclePublisher \<Rightarrow> 'p LifecyclePublisher res" where
  "publisher_run publish [] p = Ok p"
| "publisher_run publish (Activate_publisher # es) p = publisher_run publish es (publisher_on_activate p)"
| "publisher_run publish (Deactivate_publisher # es) p = publisher_run publish es (publisher_on_deactivate p)"
| "publisher_run publish (Publish_message m # es) p = bindR (publish_message publish m p) (publisher_run publish es)"

fun active_messages :: "bool \<Rightarrow> 'm publisher_event list \<Rightarrow> 'm list" where
  "active_messages b [] = []"
| "active_messages b (Activate_publisher # es) = active_messages True es"
| "active_messages b (Deactivate_publisher # es) = active_messages False es"
| "active_messages b (Publish_message m # es) = (if b then m # active_messages b es else active_messages b es)"

lemma publisher_run_log:
  "publisher_run (\<lambda>m log. Ok (log @ [m])) es p =
   Ok \<lparr> enabled = foldl (\<lambda>b e. case e of Activate_publisher \<Rightarrow> True | Deactivate_publisher \<Rightarrow> False | _ \<Rightarrow> b) (enabled p) es,
        base_publisher = base_publisher p @ active_messages (enabled p) es \<rparr>"
proof (induction es arbitrary: p)
  case (Cons e es)
  then show ?case
    by (cases e) (simp_all add: publisher_on_activate_def publisher_on_deactivate_def publish_message_def)
qed simp

end
