(* ===== verification/NodeParameterProps.thy ===== *)
theory NodeParameterProps
  imports NodeParameters
begin

text \<open>
  Properties of the parameters of a node: what every stored parameter satisfies, that read-only
  parameters stay as they are, what setting parameters does, and where a failure leaves traces.
\<close>

section \<open>Stored parameters\<close>

definition in_range :: "'d double_ops \<Rightarrow> 'd ParameterDescriptor \<Rightarrow> 'd ParameterValue \<Rightarrow> bool" where
  "in_range ops desc v \<longleftrightarrow> (\<exists>r. check_parameter_value_in_range ops desc v = Ok r \<and> successful r)"

text \<open>A stored value is in the range of its descriptor, and if it is set, the descriptor has its
  type and the name of the parameter.\<close>

definition info_ok :: "'d double_ops \<Rightarrow> string \<Rightarrow> 'd ParameterInfo \<Rightarrow> bool" where
  "info_ok ops n info \<longleftrightarrow>
     in_range ops (descriptor info) (i_value info) \<and>
     (v_type (i_value info) \<noteq> PARAMETER_NOT_SET \<longrightarrow>
        d_type (descriptor info) = v_type (i_value info) \<and> d_name (descriptor info) = n)"

definition store_ok :: "'d double_ops \<Rightarrow> (string \<times> 'd ParameterInfo) list \<Rightarrow> bool" where
  "store_ok ops infos \<longleftrightarrow> (\<forall>(n, info) \<in> set infos. info_ok ops n info)"

text \<open>The descriptor a check uses, and what the check depends on.\<close>

definition desc_of :: "(string \<times> 'd ParameterInfo) list \<Rightarrow> string \<Rightarrow> 'd ParameterDescriptor" where
  "desc_of infos n = (case map_of infos n of None \<Rightarrow> default_descriptor | Some i \<Rightarrow> descriptor i)"

definition same_ranges :: "'d ParameterDescriptor \<Rightarrow> 'd ParameterDescriptor \<Rightarrow> bool" where
  "same_ranges d e \<longleftrightarrow> integer_range d = integer_range e \<and> floating_point_range d = floating_point_range e"

lemma accepted_simps [simp]: "successful accepted" "\<not> successful (format_reason n t)"
  by (simp_all add: accepted_def format_reason_def)

lemma integer_range_accepts: "check_integer_range n ir i = Ok res \<Longrightarrow> successful res \<Longrightarrow> res = accepted"
  unfolding check_integer_range_def by (cases "i64_result (i - i_from ir)") (auto split: if_split_asm)

lemma double_range_accepts: "successful (check_double_range ops n fr d) \<Longrightarrow> check_double_range ops n fr d = accepted"
  unfolding check_double_range_def Let_def by (auto split: if_split_asm)

lemma in_range_iff: "in_range ops desc v \<longleftrightarrow> check_parameter_value_in_range ops desc v = Ok accepted"
proof
  assume "in_range ops desc v"
  then obtain res where "check_parameter_value_in_range ops desc v = Ok res" "successful res" by (auto simp: in_range_def)
  moreover from this have "res = accepted"
    using integer_range_accepts double_range_accepts by (auto simp: check_parameter_value_in_range_def bindR_Inr_iff split: if_split_asm)
  ultimately show "check_parameter_value_in_range ops desc v = Ok accepted" by simp
qed (simp add: in_range_def)

lemma in_range_same: "same_ranges d e \<Longrightarrow> in_range ops d v \<longleftrightarrow> in_range ops e v"
proof -
  assume s: "same_ranges d e"
  have i: "(\<exists>r. check_integer_range a x w = Ok r \<and> successful r) \<longleftrightarrow> (\<exists>r. check_integer_range b x w = Ok r \<and> successful r)" for a b x w
    by (auto simp: check_integer_range_def i64_result_def split: if_splits)
  have f: "successful (check_double_range ops a x w) \<longleftrightarrow> successful (check_double_range ops b x w)" for a b x w
    by (simp add: check_double_range_def Let_def)
  show ?thesis using s i [of "d_name d" _ _ "d_name e"] f [of "d_name d" _ _ "d_name e"]
    by (auto simp: in_range_def same_ranges_def check_parameter_value_in_range_def as_int_def as_double_def get_as_def)
qed

lemma in_range_unset: "v_type v = PARAMETER_NOT_SET \<Longrightarrow> in_range ops d v"
  by (simp add: in_range_def check_parameter_value_in_range_def)

lemma in_range_default: "in_range ops default_descriptor v"
  by (simp add: in_range_def check_parameter_value_in_range_def default_descriptor_def)

lemma empty_value_type [simp]: "v_type (empty_value z) = PARAMETER_NOT_SET"
  by (simp add: empty_value_def)

lemma unset_info_ok: "info_ok ops n \<lparr> i_value = empty_value z, descriptor = d \<rparr>"
  by (simp add: info_ok_def in_range_unset)

lemma default_info_ok: "info_ok ops n (default_info ops)"
  by (simp add: default_info_def unset_info_ok)

lemma store_ok_simps: "store_ok ops []" "store_ok ops infos \<Longrightarrow> info_ok ops n info \<Longrightarrow> store_ok ops (map_put n info infos)"
  "store_ok ops infos \<Longrightarrow> store_ok ops (map_erase n infos)"
  using set_put [of n info infos] set_erase [of n infos] by (auto simp: store_ok_def)

lemma store_okD: "store_ok ops infos \<Longrightarrow> map_of infos n = Some info \<Longrightarrow> info_ok ops n info"
  by (auto simp: store_ok_def dest: map_of_SomeD)

lemma store_ok_at: "store_ok ops infos \<Longrightarrow> store_ok ops (fst (map_at (default_info ops) n infos))"
  by (simp add: map_at_def store_ok_simps default_info_ok split: option.split)

lemma at_ok: "store_ok ops infos \<Longrightarrow> info_ok ops n (snd (map_at (default_info ops) n infos))"
  by (cases "map_of infos n") (simp_all add: map_at_def default_info_ok store_okD)

lemma desc_at: "desc_of (fst (map_at (default_info ops) k infos)) n = desc_of infos n"
  "descriptor (snd (map_at (default_info ops) k infos)) = desc_of infos k"
  by (auto simp: map_at_def desc_of_def default_info_def split: option.split)

lemma check_parameters_ok:
  "store_ok ops infos \<Longrightarrow> check_parameters ops ps infos = (r, infos') \<Longrightarrow>
     store_ok ops infos' \<and> (\<forall>n. desc_of infos' n = desc_of infos n) \<and>
     (\<forall>result. r = Ok result \<and> successful result \<longrightarrow> (\<forall>p \<in> set ps. in_range ops (desc_of infos (p_name p)) (p_value p)))"
proof (induction ps arbitrary: infos)
  case (Cons p ps)
  obtain infos1 info where at: "map_at (default_info ops) (p_name p) infos = (infos1, info)" by (cases "map_at (default_info ops) (p_name p) infos")
  then have a: "store_ok ops infos1" "descriptor info = desc_of infos (p_name p)" "\<And>n. desc_of infos1 n = desc_of infos n"
    using store_ok_at [OF Cons.prems(1), of "p_name p"] desc_at [of ops "p_name p" infos] by simp_all
  show ?case
  proof (cases "\<exists>res. check_parameter_value_in_range ops (descriptor info) (p_value p) = Ok res \<and> successful res")
    case True
    then obtain res where res: "check_parameter_value_in_range ops (descriptor info) (p_value p) = Ok res" "successful res" by blast
    then have "check_parameters ops ps infos1 = (r, infos')" using Cons.prems(2) at by simp
    from Cons.IH [OF a(1) this] True a show ?thesis by (auto simp: in_range_def)
  next
    case False
    then show ?thesis using Cons.prems(2) at a by (auto split: sum.splits if_splits)
  qed
qed auto

lemma store_parameter_ok:
  assumes "store_ok ops infos" "in_range ops (desc_of infos (p_name p)) (p_value p)"
  shows "store_ok ops (store_parameter ops p infos) \<and> same_ranges (desc_of (store_parameter ops p infos) n) (desc_of infos n)"
proof -
  obtain infos1 info where at: "map_at (default_info ops) (p_name p) infos = (infos1, info)" by (cases "map_at (default_info ops) (p_name p) infos")
  then have a: "store_ok ops infos1" "descriptor info = desc_of infos (p_name p)" "\<And>n. desc_of infos1 n = desc_of infos n"
    using store_ok_at [OF assms(1), of "p_name p"] desc_at [of ops "p_name p" infos] by simp_all
  let ?info = "\<lparr> i_value = p_value p, descriptor = (descriptor info)\<lparr> d_name := p_name p, d_type := get_type p \<rparr> \<rparr>"
  have "same_ranges (descriptor ?info) (desc_of infos (p_name p))" using a(2) by (simp add: same_ranges_def)
  then have "in_range ops (descriptor ?info) (p_value p)" using assms(2) in_range_same by blast
  then have "info_ok ops (p_name p) ?info" by (simp add: info_ok_def get_type_def)
  moreover have "same_ranges (desc_of (map_put (p_name p) ?info infos1) n) (desc_of infos n)"
    using a by (auto simp: desc_of_def same_ranges_def)
  ultimately show ?thesis using a(1) by (simp add: store_parameter_def at store_ok_simps)
qed

lemma store_all_ok:
  "store_ok ops infos \<Longrightarrow> (\<forall>p \<in> set ps. in_range ops (desc_of infos (p_name p)) (p_value p)) \<Longrightarrow>
   store_ok ops (fold (store_parameter ops) ps infos)"
proof (induction ps arbitrary: infos)
  case (Cons p ps)
  then have s: "store_ok ops (store_parameter ops p infos)" "\<And>n. same_ranges (desc_of (store_parameter ops p infos) n) (desc_of infos n)"
    using store_parameter_ok by fastforce+
  have "\<forall>q \<in> set ps. in_range ops (desc_of (store_parameter ops p infos) (p_name q)) (p_value q)"
    using Cons.prems(2) in_range_same [OF s(2)] by simp
  from Cons.IH [OF s(1) this] show ?case by simp
qed simp

lemma common_ok:
  assumes "store_ok ops infos"
  shows "store_ok ops (snd (set_parameters_atomically_common ops ps verdict infos))"
proof (cases "successful verdict")
  case True
  obtain r infos' where c: "check_parameters ops ps infos = (r, infos')" by (cases "check_parameters ops ps infos")
  from check_parameters_ok [OF assms c] True c show ?thesis
    by (auto simp: set_parameters_atomically_common_def store_all_ok split: sum.split)
qed (use assms in \<open>simp add: set_parameters_atomically_common_def\<close>)

lemma declare_common_ok:
  assumes "store_ok ops out"
  shows "store_ok ops (snd (declare_parameter_common ops name v desc verdict out))"
proof -
  let ?one = "[(name, \<lparr> i_value = empty_value (d_zero ops), descriptor = desc \<rparr>)]"
  have "store_ok ops ?one" by (simp add: store_ok_def unset_info_ok)
  then have "store_ok ops (snd (set_parameters_atomically_common ops [\<lparr> p_name = name, p_value = v \<rparr>] verdict ?one))" by (rule common_ok)
  then show ?thesis using assms at_ok [of ops _ name]
    by (auto simp: declare_parameter_common_def store_ok_simps split: prod.split sum.split)
qed

lemma stage_ok: "store_ok ops staged \<Longrightarrow> stage_parameters ops ps staged = Ok (Inr staged') \<Longrightarrow> store_ok ops staged'"
proof (induction ps arbitrary: staged)
  case (Cons p ps)
  then show ?case using declare_common_ok [OF Cons.prems(1), of "p_name p" "p_value p" default_descriptor accepted]
    by (auto split: prod.splits sum.splits if_splits)
qed simp

lemma put_staged_ok: "store_ok ops infos \<Longrightarrow> store_ok ops staged \<Longrightarrow> store_ok ops (fold (\<lambda>(n, info). map_put n info) staged infos)"
proof (induction staged arbitrary: infos)
  case (Cons s staged)
  then have "store_ok ops (map_put (fst s) (snd s) infos)" "store_ok ops staged"
    using store_ok_simps(2) by (auto simp: store_ok_def [of ops "s # staged"] store_ok_def [of ops staged])
  from Cons.IH [OF this] show ?case by (simp add: split_beta)
qed simp

lemma erase_ok: "store_ok ops infos \<Longrightarrow> store_ok ops (fst (erase_parameters ps infos))"
proof (induction ps arbitrary: infos)
  case (Cons p ps)
  from Cons.IH [OF store_ok_simps(3) [OF Cons.prems]] Cons.IH [OF Cons.prems] show ?case
    by (auto simp: split_beta split: option.split)
qed simp

section \<open>The outcomes of setting\<close>

definition put_staged :: "(string \<times> 'd ParameterInfo) list \<Rightarrow> (string \<times> 'd ParameterInfo) list \<Rightarrow> (string \<times> 'd ParameterInfo) list" where
  "put_staged staged infos = fold (\<lambda>(n, info). map_put n info) staged infos"

lemma asked:
  assumes "ask_callback ps np = (r, np')"
  shows "parameters np' = parameters np" "events_publisher np' = events_publisher np" "publications np' = publications np"
    "allow_undeclared np' = allow_undeclared np"
  using assms by (auto simp: ask_callback_def split: option.splits)

lemma asked_silently:
  "ask_callback ps np = (r, np') \<Longrightarrow> ask_callback ps (np\<lparr> events_publisher := None \<rparr>) = (r, np'\<lparr> events_publisher := None \<rparr>)"
  by (auto simp: ask_callback_def split: option.splits)

text \<open>The exception with which the next publication of a node ends, if there is one.\<close>

definition publication_error :: "'d NodeParameters \<Rightarrow> cpp_error option" where
  "publication_error np = (case events_publisher np of None \<Rightarrow> None | Some publish \<Rightarrow> publish (publications np))"

definition published :: "'d NodeParameters \<Rightarrow> 'a \<Rightarrow> 'a res" where
  "published np x = (case publication_error np of None \<Rightarrow> Ok x | Some e \<Rightarrow> Err e)"

lemma publish_outcome: "fst (publish_event e np) = published np ()" "parameters (snd (publish_event e np)) = parameters np"
  by (simp_all add: publish_event_def published_def publication_error_def Let_def split: option.split)

lemma publish_silent [simp]: "events_publisher np = None \<Longrightarrow> publish_event e np = (Ok (), np)"
  by (simp add: publish_event_def)

lemma keep_iff: "(case r of Inl x \<Rightarrow> Inl x | Inr qs \<Rightarrow> Inr (f qs)) = Inl y \<longleftrightarrow> r = Inl y"
  "(case r of Inl x \<Rightarrow> Inl x | Inr qs \<Rightarrow> Inr (f qs)) = Inr z \<longleftrightarrow> (\<exists>qs. r = Inr qs \<and> z = f qs)"
  by (auto split: sum.split)

lemma screen_refused: "screen_parameters allow infos ps = Ok (Inl res) \<Longrightarrow> \<not> successful res"
  by (induction ps) (auto simp: bindR_Inr_iff keep_iff split: if_splits option.splits)

lemma stage_refused: "stage_parameters ops q staged = Ok (Inl res) \<Longrightarrow> \<not> successful res"
  by (induction q arbitrary: staged) (auto split: if_splits prod.splits sum.splits)

text \<open>Nothing changes, or the store is left to the common part and refused, or everything is
  stored, staged and erased; then only the publication of the event may fail, and the store is the
  one of a node that publishes nothing.\<close>

lemma set_parameters_atomically_cases:
  assumes "set_parameters_atomically ops ps np = (r, np')"
  obtains (unchanged) "parameters np' = parameters np" "\<forall>res. r = Ok res \<longrightarrow> \<not> successful res"
  | (refused) q staged verdict where
      "screen_parameters (allow_undeclared np) (parameters np) ps = Ok (Inr q)" "stage_parameters ops q [] = Ok (Inr staged)"
      "set_parameters_atomically_common ops (parameters_to_be_set ps staged) verdict (parameters np) = (r, parameters np')"
      "\<forall>res. r = Ok res \<longrightarrow> \<not> successful res"
  | (stored) q staged verdict res infos where
      "screen_parameters (allow_undeclared np) (parameters np) ps = Ok (Inr q)" "stage_parameters ops q [] = Ok (Inr staged)"
      "set_parameters_atomically_common ops (parameters_to_be_set ps staged) verdict (parameters np) = (Ok res, infos)"
      "successful res" "r = published np res"
      "parameters np' = fst (erase_parameters (parameters_to_be_undeclared (parameters np) (parameters_to_be_set ps staged)) (put_staged staged infos))"
      "\<exists>t. set_parameters_atomically ops ps (np\<lparr> events_publisher := None \<rparr>) = (Ok res, t) \<and> parameters t = parameters np'"
proof (cases "screen_parameters (allow_undeclared np) (parameters np) ps")
  case (Inl e)
  with assms show ?thesis by (intro unchanged) (auto simp: set_parameters_atomically_def)
next
  case screen: (Inr sc)
  show ?thesis
  proof (cases "\<exists>q staged. sc = Inr q \<and> stage_parameters ops q [] = Ok (Inr staged)")
    case False
    then consider res where "sc = Inl res" | q e where "sc = Inr q" "stage_parameters ops q [] = Err e"
      | q res where "sc = Inr q" "stage_parameters ops q [] = Ok (Inl res)"
      by (metis old.sum.exhaust)
    then show ?thesis
      by cases (use assms screen in \<open>auto intro!: unchanged simp: set_parameters_atomically_def act_eval dest: screen_refused stage_refused\<close>)
  next
    case True
    then obtain q staged where q: "sc = Inr q" "stage_parameters ops q [] = Ok (Inr staged)" by blast
    let ?to = "parameters_to_be_set ps staged"
    obtain v np1 where ask: "ask_callback ?to np = (v, np1)" by fastforce
    note kept = asked [OF ask]
    show ?thesis
    proof (cases v)
      case (Inl e)
      with assms screen q ask kept show ?thesis
        by (intro unchanged) (auto simp: set_parameters_atomically_def Let_def bindA_eval act_eval)
    next
      case v: (Inr verdict)
      obtain c infos where c: "set_parameters_atomically_common ops ?to verdict (parameters np) = (c, infos)" by fastforce
      show ?thesis
      proof (cases "\<exists>res. c = Ok res \<and> successful res")
        case False
        with assms screen q ask kept v c have "r = c" "parameters np' = infos"
          by (auto simp: set_parameters_atomically_def Let_def act_eval bindA_eval split: sum.splits if_splits)
        with refused [of q staged verdict] screen q c False show ?thesis by auto
      next
        case True
        then obtain res where res: "c = Ok res" "successful res" by blast
        obtain infos' deleted where e: "erase_parameters (parameters_to_be_undeclared (parameters np) ?to) (put_staged staged infos) = (infos', deleted)"
          by fastforce
        note here = screen q ask kept v c res e [unfolded put_staged_def]
        have "r = published np res \<and> parameters np' = infos'"
          using assms here by (auto simp: set_parameters_atomically_def Let_def act_eval bindA_eval seqA_eval publish_event_def published_def
              publication_error_def split: option.splits)
        moreover have "\<exists>t. set_parameters_atomically ops ps (np\<lparr> events_publisher := None \<rparr>) = (Ok res, t) \<and> parameters t = infos'"
          using here asked_silently [OF ask] by (simp add: set_parameters_atomically_def Let_def act_eval bindA_eval seqA_eval)
        ultimately show ?thesis using stored [of q staged verdict res infos] screen q c res e by simp
      qed
    qed
  qed
qed

section \<open>What every operation keeps\<close>

text \<open>The operations on the parameters of a node, which go on after an exception.\<close>

datatype 'd param_op =
    Declare string "'d ParameterValue" "'d ParameterDescriptor"
  | Undeclare string
  | Set_atomically "'d Parameter list"
  | Set_each "'d Parameter list"
  | Set_callback "'d set_callback option"
  | Serve_set "(string \<times> 'd ParameterValue) list"
  | Serve_set_atomically "(string \<times> 'd ParameterValue) list"

definition perform :: "'d double_ops \<Rightarrow> 'd param_op \<Rightarrow> 'd NodeParameters \<Rightarrow> 'd NodeParameters" where
  "perform ops p np =
     (case p of
        Declare n v desc \<Rightarrow> snd (declare_parameter ops n v desc np)
      | Undeclare n \<Rightarrow> snd (undeclare_parameter n np)
      | Set_atomically ps \<Rightarrow> snd (set_parameters_atomically ops ps np)
      | Set_each ps \<Rightarrow> snd (set_parameters ops ps np)
      | Set_callback cb \<Rightarrow> snd (set_on_parameters_set_callback cb np)
      | Serve_set reqs \<Rightarrow> snd (set_parameters_service ops reqs np)
      | Serve_set_atomically reqs \<Rightarrow> snd (set_parameters_atomically_service ops reqs np))"

text \<open>A relation that holds across declarations, removals, the change of the callback and one
  atomic setting holds across every operation.\<close>

locale parameter_relation = step_relation R for R :: "'d NodeParameters \<Rightarrow> 'd NodeParameters \<Rightarrow> bool" +
  fixes ops :: "'d double_ops"
  assumes declare_within: "within (declare_parameter ops n v desc)"
    and undeclare_within: "within (undeclare_parameter n)"
    and set_atomically_within: "within (set_parameters_atomically ops ps)"
    and callback_within: "R np (np\<lparr> on_parameters_set_callback := cb \<rparr>)"
begin

lemma handled_within:
  assumes "within m" and "\<And>r s. snd (h (r, s)) = s"
  shows "within (\<lambda>np. h (m np))"
  using assms by (metis (no_types, lifting) withinI within_def prod.collapse)

lemma service_within: "within (set_parameters_service ops reqs)"
proof (induction reqs)
  case (Cons req reqs)
  obtain name v where req: "req = (name, v)" by (cases req)
  have "within (bindA (liftA (Parameter_from_msg name v)) (\<lambda>p. set_parameters_atomically ops [p]))"
    by (intro within_rules set_atomically_within)
  then have "within (\<lambda>np. case bindA (liftA (Parameter_from_msg name v)) (\<lambda>p. set_parameters_atomically ops [p]) np of
         (Inl (ParameterNotDeclaredException msg), np') \<Rightarrow> (Ok \<lparr> successful = False, reason = msg \<rparr>, np')
       | r \<Rightarrow> r)"
    by (rule handled_within) (simp split: sum.split cpp_error.split)
  with Cons show ?case by (auto simp: req intro!: within_rules)
qed (simp add: within_rules)

lemma atomic_service_within: "within (set_parameters_atomically_service ops reqs)"
proof -
  have "within (\<lambda>np. case set_parameters_atomically ops ps np of
         (Inl (ParameterNotDeclaredException msg), np') \<Rightarrow>
           (Ok \<lparr> successful = False, reason = ''One or more parameters wer not declared before setting'' \<rparr>, np')
       | r \<Rightarrow> r)" for ps
    by (rule handled_within [OF set_atomically_within]) (simp split: sum.split cpp_error.split)
  then show ?thesis unfolding set_parameters_atomically_service_def
    by (intro within_rules) (auto simp: within_rules split: prod.split)
qed

lemma overrides_within: "within (declare_overrides ops)"
  unfolding declare_overrides_def by (auto intro!: within_rules declare_within split: prod.split)

lemma perform_related: "R np (perform ops p np)"
proof (cases p)
  case (Set_callback cb)
  then show ?thesis by (simp add: perform_def set_on_parameters_set_callback_def act_eval callback_within)
qed (use declare_within undeclare_within set_atomically_within service_within atomic_service_within
       within_mapA [of "\<lambda>p. set_parameters_atomically ops [p]"] in
     \<open>simp_all add: perform_def set_parameters_def within_def\<close>)

lemma run_related: "R np (fold (perform ops) script np)"
  by (induction script arbitrary: np) (auto intro: R_refl R_trans perform_related)

end

lemma declare_parameter_cases:
  assumes "declare_parameter ops n v desc np = (r, np')"
  obtains "parameters np' = parameters np"
  | verdict w where "map_of (parameters np) n = None"
      "parameters np' = snd (declare_parameter_common ops n w desc verdict (parameters np))"
proof (cases "n = [] \<or> map_of (parameters np) n \<noteq> None")
  case False
  let ?w = "initial_value v (parameter_overrides np) True n"
  obtain v' np1 where ask: "ask_callback [\<lparr> p_name = n, p_value = ?w \<rparr>] np = (v', np1)" by fastforce
  note kept = asked [OF ask]
  show ?thesis
  proof (cases v')
    case (Inl e)
    with False assms ask kept have "parameters np' = parameters np" by (auto simp: declare_parameter_def bindA_eval act_eval)
    then show ?thesis by (rule that(1))
  next
    case (Inr verdict)
    with False assms ask kept have "parameters np' = snd (declare_parameter_common ops n ?w desc verdict (parameters np))"
      by (auto simp: declare_parameter_def bindA_eval seqA_eval act_eval publish_event_def Let_def split: prod.splits sum.splits if_splits option.splits)
    with that(2) False show ?thesis by blast
  qed
next
  case True
  then have "parameters np' = parameters np" using assms by (auto simp: declare_parameter_def act_eval split: if_splits)
  then show ?thesis by (rule that(1))
qed

text \<open>Stored parameters stay well formed.\<close>

lemma set_atomically_ok:
  assumes "store_ok ops (parameters np)" "set_parameters_atomically ops ps np = (r, np')"
  shows "store_ok ops (parameters np')"
  using assms(2)
proof (cases rule: set_parameters_atomically_cases)
  case (refused q staged verdict)
  with common_ok [OF assms(1), of "parameters_to_be_set ps staged" verdict] show ?thesis by simp
next
  case (stored q staged verdict res infos)
  then have "store_ok ops staged" using stage_ok [of ops "[]" q] store_ok_simps(1) by blast
  moreover have "store_ok ops infos" using common_ok [OF assms(1), of "parameters_to_be_set ps staged" verdict] stored by simp
  ultimately show ?thesis using stored erase_ok put_staged_ok by (metis put_staged_def)
qed (simp add: assms(1))

definition keeps_store :: "'d double_ops \<Rightarrow> 'd NodeParameters \<Rightarrow> 'd NodeParameters \<Rightarrow> bool" where
  "keeps_store ops s t \<longleftrightarrow> (store_ok ops (parameters s) \<longrightarrow> store_ok ops (parameters t))"

interpretation store_step: step_relation "keeps_store ops" for ops
  by unfold_locales (simp_all add: keeps_store_def)

interpretation store: parameter_relation "keeps_store ops" ops for ops
proof unfold_locales
  have "store_ok ops (parameters (snd (declare_parameter ops n v desc s)))" if "store_ok ops (parameters s)" for n v desc s
    by (rule declare_parameter_cases [OF prod.collapse [symmetric], of ops n v desc s]) (simp_all add: declare_common_ok that)
  then show "store_step.within ops (declare_parameter ops n v desc)" for n v desc
    by (intro store_step.withinI) (simp add: keeps_store_def)
  show "store_step.within ops (undeclare_parameter n)" for n
    by (rule store_step.withinI) (simp add: keeps_store_def undeclare_parameter_def act_eval store_ok_simps split: option.split)
  show "store_step.within ops (set_parameters_atomically ops ps)" for ps
    by (rule store_step.withinI) (metis keeps_store_def prod.collapse set_atomically_ok)
qed (simp add: keeps_store_def)

text \<open>Parameters that are not named stay as they are.\<close>

lemma check_frame: "n \<notin> p_name ` set ps \<Longrightarrow> check_parameters ops ps infos = (r, infos') \<Longrightarrow> map_of infos' n = map_of infos n"
  by (induction ps arbitrary: infos) (auto simp: map_at_def split: option.splits sum.splits if_splits)

lemma store_frame: "n \<notin> p_name ` set ps \<Longrightarrow> map_of (fold (store_parameter ops) ps infos) n = map_of infos n"
  by (induction ps arbitrary: infos) (auto simp: store_parameter_def map_at_def split: option.splits)

lemma common_frame:
  assumes "n \<notin> p_name ` set ps" "set_parameters_atomically_common ops ps verdict infos = (r, infos')"
  shows "map_of infos' n = map_of infos n"
proof (cases "successful verdict")
  case True
  obtain c infos1 where c: "check_parameters ops ps infos = (c, infos1)" by fastforce
  with check_frame [OF assms(1) c] store_frame [OF assms(1), of ops infos1] True assms(2) show ?thesis
    by (auto simp: set_parameters_atomically_common_def split: sum.splits if_splits)
qed (use assms(2) in \<open>simp add: set_parameters_atomically_common_def\<close>)

lemma replace_first_names [simp]: "map p_name (replace_first n v ps) = map p_name ps"
  by (induction ps) auto

lemma to_be_set_names: "p_name ` set (parameters_to_be_set ps staged) = p_name ` set ps"
proof -
  have "map p_name (fold (\<lambda>(n, info). replace_first n (i_value info)) staged ps) = map p_name ps"
    by (induction staged arbitrary: ps) (simp_all add: split_beta)
  from arg_cong [OF this, of set] show ?thesis by (simp add: parameters_to_be_set_def)
qed

lemma stage_frame:
  "n \<notin> p_name ` set q \<Longrightarrow> stage_parameters ops q staged = Ok (Inr staged') \<Longrightarrow> map_of staged' n = map_of staged n"
  by (induction q arbitrary: staged) (fastforce simp: declare_parameter_common_def split: prod.splits sum.splits if_splits)+

lemma put_staged_frame: "map_of staged n = None \<Longrightarrow> map_of (put_staged staged infos) n = map_of infos n"
  unfolding put_staged_def by (induction staged arbitrary: infos) (auto split: if_splits)

lemma erase_frame: "n \<notin> p_name ` set ps \<Longrightarrow> map_of (fst (erase_parameters ps infos)) n = map_of infos n"
  by (induction ps arbitrary: infos) (auto simp: split_beta split: option.split)

lemma screened:
  "screen_parameters allow infos ps = Ok (Inr q) \<Longrightarrow>
     q = filter (\<lambda>p. map_of infos (p_name p) = None) ps \<and>
     (\<forall>p \<in> set ps. p_name p \<noteq> [] \<and> (\<forall>info. map_of infos (p_name p) = Some info \<longrightarrow> \<not> read_only (descriptor info)))"
  by (induction ps arbitrary: q) (auto simp: bindR_Inr_iff keep_iff split: if_splits option.splits)

lemma set_atomically_frame:
  assumes "set_parameters_atomically ops ps np = (r, np')" "n \<notin> p_name ` set ps"
  shows "map_of (parameters np') n = map_of (parameters np) n"
  using assms(1)
proof (cases rule: set_parameters_atomically_cases)
  case (refused q staged verdict)
  then show ?thesis using common_frame [OF _ refused(3), of n] assms(2) by (simp add: to_be_set_names)
next
  case (stored q staged verdict res infos)
  have "map_of infos n = map_of (parameters np) n"
    using common_frame [OF _ stored(3), of n] assms(2) by (simp add: to_be_set_names)
  moreover have "map_of staged n = None"
    using stage_frame [OF _ stored(2), of n] screened [OF stored(1)] assms(2) by auto
  moreover have "n \<notin> p_name ` set (parameters_to_be_undeclared (parameters np) (parameters_to_be_set ps staged))"
    using assms(2) to_be_set_names [of ps staged] by (auto simp: parameters_to_be_undeclared_def)
  ultimately show ?thesis using stored by (simp add: erase_frame put_staged_frame)
qed simp

text \<open>Read-only parameters stay as they are.\<close>

definition keeps_read_only :: "'d NodeParameters \<Rightarrow> 'd NodeParameters \<Rightarrow> bool" where
  "keeps_read_only s t \<longleftrightarrow>
     (\<forall>n info. map_of (parameters s) n = Some info \<and> read_only (descriptor info) \<longrightarrow> map_of (parameters t) n = Some info)"

lemma declare_common_frame: "m \<noteq> n \<Longrightarrow> map_of (snd (declare_parameter_common ops n w desc verdict out)) m = map_of out m"
  by (simp add: declare_parameter_common_def split: prod.split sum.split)

interpretation frozen_step: step_relation "keeps_read_only :: 'd NodeParameters \<Rightarrow> _"
  by unfold_locales (auto simp: keeps_read_only_def)

interpretation frozen: parameter_relation keeps_read_only ops for ops :: "'d double_ops"
proof unfold_locales
  have "keeps_read_only s (snd (declare_parameter ops n v desc s))" for n v desc and s :: "'d NodeParameters"
    by (rule declare_parameter_cases [OF prod.collapse [symmetric], of ops n v desc s])
      (auto simp: keeps_read_only_def, metis declare_common_frame option.distinct(1))
  then show "frozen_step.within (declare_parameter ops n v desc)" for n v desc by (rule frozen_step.withinI)
  show "frozen_step.within (undeclare_parameter n)" for n
    by (rule frozen_step.withinI) (auto simp: keeps_read_only_def undeclare_parameter_def act_eval split: option.split)
  have "keeps_read_only s (snd (set_parameters_atomically ops ps s))" for ps s
  proof -
    obtain r t where t: "set_parameters_atomically ops ps s = (r, t)" by fastforce
    have "map_of (parameters t) n = Some info" if "map_of (parameters s) n = Some info" "read_only (descriptor info)" for n info
      using t
    proof (cases rule: set_parameters_atomically_cases)
      case (refused q staged verdict)
      then have "n \<notin> p_name ` set ps" using that screened by fastforce
      then show ?thesis using set_atomically_frame [OF t] that(1) by simp
    next
      case (stored q staged verdict res infos)
      then have "n \<notin> p_name ` set ps" using that screened by fastforce
      then show ?thesis using set_atomically_frame [OF t] that(1) by simp
    qed (use that in simp)
    then show ?thesis by (simp add: keeps_read_only_def t)
  qed
  then show "frozen_step.within (set_parameters_atomically ops ps)" for ps by (rule frozen_step.withinI)
qed (simp add: keeps_read_only_def)

section \<open>The values after setting\<close>

lemma store_value:
  "distinct (map p_name ps) \<Longrightarrow> p \<in> set ps \<Longrightarrow>
     map_option i_value (map_of (fold (store_parameter ops) ps infos) (p_name p)) = Some (p_value p)"
proof (induction ps arbitrary: infos)
  case (Cons q ps)
  show ?case
  proof (cases "p = q")
    case True
    with Cons.prems have "p_name p \<notin> p_name ` set ps" by simp
    with True show ?thesis by (simp add: store_frame) (simp add: store_parameter_def split: prod.split)
  next
    case False
    with Cons show ?thesis by simp
  qed
qed simp

lemma common_value:
  assumes "set_parameters_atomically_common ops ps verdict infos = (Ok res, infos')" "successful res"
    and "distinct (map p_name ps)" "p \<in> set ps"
  shows "map_option i_value (map_of infos' (p_name p)) = Some (p_value p)"
proof -
  obtain infos1 where "infos' = fold (store_parameter ops) ps infos1"
    using assms(1,2) by (auto simp: set_parameters_atomically_common_def split: if_splits prod.splits sum.splits)
  with store_value [OF assms(3,4)] show ?thesis by simp
qed

lemma declared_entry:
  assumes "declare_parameter_common ops m v desc verdict out = (Ok res, out')" "successful res" "(n, info) \<in> set out'"
  shows "(n, info) \<in> set out \<or> n = m \<and> i_value info = v"
proof -
  obtain infos where c: "set_parameters_atomically_common ops [\<lparr> p_name = m, p_value = v \<rparr>] verdict
        [(m, \<lparr> i_value = empty_value (d_zero ops), descriptor = desc \<rparr>)] = (Ok res, infos)"
    and out: "out' = map_put m (snd (map_at (default_info ops) m infos)) out"
    using assms(1) by (auto simp: declare_parameter_common_def split: prod.splits sum.splits)
  obtain i where i: "map_of infos m = Some i" "i_value i = v"
    using common_value [OF c assms(2)] by auto
  with out assms(3) set_put [of m i out] show ?thesis by (auto simp: map_at_def)
qed

lemma staged_entry:
  "stage_parameters ops q staged = Ok (Inr staged') \<Longrightarrow> (n, info) \<in> set staged' \<Longrightarrow>
     (n, info) \<in> set staged \<or> (\<exists>p \<in> set q. p_name p = n \<and> p_value p = i_value info)"
proof (induction q arbitrary: staged)
  case (Cons p q)
  then obtain res staged1 where d: "declare_parameter_common ops (p_name p) (p_value p) default_descriptor accepted staged = (Ok res, staged1)"
    "successful res" "stage_parameters ops q staged1 = Ok (Inr staged')"
    by (auto split: prod.splits sum.splits if_splits)
  from Cons.IH [OF d(3) Cons.prems(2)] declared_entry [OF d(1,2), of n info] show ?case by auto
qed simp

lemma put_staged_value:
  assumes "\<And>info. (n, info) \<in> set staged \<Longrightarrow> i_value info = v" "map_option i_value (map_of infos n) = Some v"
  shows "map_option i_value (map_of (put_staged staged infos) n) = Some v"
  using assms unfolding put_staged_def
proof (induction staged arbitrary: infos)
  case (Cons s staged)
  have "map_option i_value (map_of (map_put (fst s) (snd s) infos) n) = Some v"
    using Cons.prems(1) [of "snd s"] Cons.prems(2) by (cases s) auto
  from Cons.IH [OF Cons.prems(1) this] show ?case by (simp add: split_beta)
qed simp

lemma erase_value: "map_of (fst (erase_parameters ps infos)) n = (if n \<in> p_name ` set ps then None else map_of infos n)"
  by (induction ps arbitrary: infos) (auto simp: split_beta split: option.split)

lemma find_name: "distinct (map p_name ps) \<Longrightarrow> p \<in> set ps \<Longrightarrow> find (\<lambda>q. p_name q = p_name p) ps = Some p"
  by (induction ps) auto

lemma name_filtered:
  assumes "distinct (map p_name ps)" "p \<in> set ps"
  shows "p_name p \<in> p_name ` set (filter P ps) \<longleftrightarrow> P p"
proof
  assume "p_name p \<in> p_name ` set (filter P ps)"
  then obtain q where q: "q \<in> set ps" "P q" "p_name q = p_name p" by auto
  have "Some q = Some p" using find_name [OF assms(1) q(1)] find_name [OF assms] unfolding q(3) by (rule trans [OF sym])
  with q(2) show "P p" by simp
qed (use assms(2) in simp)

lemma nothing_replaced:
  assumes "distinct (map p_name ps)" "\<And>n info. (n, info) \<in> set staged \<Longrightarrow> \<exists>p \<in> set ps. p_name p = n \<and> p_value p = i_value info"
  shows "parameters_to_be_set ps staged = ps"
proof -
  have "\<not> (case find (\<lambda>p. p_name p = n) ps of None \<Rightarrow> False | Some p \<Rightarrow> p_value p \<noteq> i_value info)" if "(n, info) \<in> set staged" for n info
    using assms(2) [OF that] find_name [OF assms(1)] by fastforce
  then show ?thesis by (auto simp: parameters_to_be_set_def list_ex_iff)
qed

lemma check_keeps: "check_parameters ops ps infos = (r, infos') \<Longrightarrow> map_of infos n = Some info \<Longrightarrow> map_of infos' n = Some info"
proof (induction ps arbitrary: infos)
  case (Cons p ps)
  have "map_of (fst (map_at (default_info ops) (p_name p) infos)) n = Some info"
    using Cons.prems(2) by (auto simp: map_of_at split: option.split)
  with Cons show ?case by (auto split: prod.splits sum.splits if_splits)
qed simp

lemma common_failed:
  assumes "set_parameters_atomically_common ops ps verdict infos = (r, infos')" "\<forall>res. r = Ok res \<longrightarrow> \<not> successful res"
    and "map_of infos n = Some info"
  shows "map_of infos' n = Some info"
proof (cases "successful verdict")
  case True
  obtain c infos1 where c: "check_parameters ops ps infos = (c, infos1)" by fastforce
  with check_keeps [OF c assms(3)] True assms(1,2) show ?thesis
    by (auto simp: set_parameters_atomically_common_def split: sum.splits if_splits)
qed (use assms in \<open>simp add: set_parameters_atomically_common_def\<close>)

lemma range_error: "check_parameter_value_in_range ops desc v = Err e \<Longrightarrow> ub e"
  by (auto simp: check_parameter_value_in_range_def check_integer_range_def as_int_def as_double_def get_as_def
      i64_result_def split: if_split_asm)

lemma check_error: "check_parameters ops ps infos = (Err e, infos') \<Longrightarrow> ub e"
  by (induction ps arbitrary: infos) (auto dest: range_error split: prod.splits sum.splits if_splits)

lemma common_error: "set_parameters_atomically_common ops ps verdict infos = (Err e, infos') \<Longrightarrow> ub e"
  by (auto dest: check_error simp: set_parameters_atomically_common_def split: prod.splits sum.splits if_splits)

lemma bind_throws: "(\<And>x t. \<exists>e u. f x t = (Err e, u)) \<Longrightarrow> \<exists>e u. bindA m f s = (Err e, u)"
  by (cases "m s"; cases "fst (m s)") (auto simp: bindA_eval)

lemma first_throws: "\<exists>e u. m s = (Err e, u) \<Longrightarrow> \<exists>e u. bindA m f s = (Err e, u)"
  by (auto simp: bindA_eval)

section \<open>Properties\<close>

text \<open>Floating-point operations, files and publishers of examples: numbers are integers, there are no
  files, and publications do not fail.\<close>

definition int_ops :: "int double_ops" where
  "int_ops = \<lparr> d_zero = 0, d_epsilon = 0, d_hundred = 100, d_add = (+), d_sub = (-), d_mul = (*), d_div = (div), d_abs = abs,
     d_round = (\<lambda>x. x), d_eq = (=), d_le = (\<le>), d_less = (<) \<rparr>"

definition no_files :: "int yaml_files" where
  "no_files = \<lparr> parse_yaml_file = (\<lambda>_. None), yaml_error = (\<lambda>_. []), hash_order = (\<lambda>m. m) \<rparr>"

definition reliable :: "event_publisher option" where
  "reliable = Some (\<lambda>_. None)"

definition speed_range :: "int ParameterDescriptor" where
  "speed_range = default_descriptor\<lparr> integer_range := [\<lparr> i_from = 0, i_to = 10, i_step = 2 \<rparr>] \<rparr>"

lemma new_store_ok:
  assumes "NodeParameters_new ops fs node use_global gs ls overrides publish allow automatic = Ok np"
  shows "store_ok ops (parameters np)"
proof -
  obtain ov where ov: "np = initial_parameters node publish allow ov \<or> np = snd (declare_overrides ops (initial_parameters node publish allow ov))"
  proof -
    obtain ov0 where "(if automatic then (case declare_overrides ops (initial_parameters node publish allow (put_overrides overrides ov0)) of
        (Inl e, _) \<Rightarrow> Err e | (Inr _, np') \<Rightarrow> Ok np') else Ok (initial_parameters node publish allow (put_overrides overrides ov0))) = Ok np"
      using assms by (auto simp only: NodeParameters_new_def bindR_Inr_iff Let_def)
    then show ?thesis by (intro that [of "put_overrides overrides ov0"]) (auto split: if_splits prod.splits sum.splits)
  qed
  have "store_ok ops (parameters (initial_parameters node publish allow ov))" by (simp add: initial_parameters_def store_ok_simps)
  with ov show ?thesis using store.overrides_within [of ops] by (auto simp: store_step.within_def keeps_store_def)
qed

text \<open>
  C15. Whatever operations are performed on the parameters of a new node, and whichever of them fail,
  a stored value is always in the range of its descriptor; if it is set, then the descriptor has the
  type of the value and the name of the parameter.
\<close>

theorem stored_parameters_typed:
  assumes "NodeParameters_new ops fs node use_global global_files local_files overrides publish allow automatic = Ok np"
    and "map_of (parameters (fold (perform ops) script np)) n = Some info"
  shows "check_parameter_value_in_range ops (descriptor info) (i_value info) = Ok accepted \<and>
    (v_type (i_value info) \<noteq> PARAMETER_NOT_SET \<longrightarrow> d_type (descriptor info) = v_type (i_value info) \<and> d_name (descriptor info) = n)"
proof -
  have "store_ok ops (parameters (fold (perform ops) script np))"
    using store.run_related [of ops np script] new_store_ok [OF assms(1)] by (simp add: keeps_store_def)
  then have "info_ok ops n info" using assms(2) by (rule store_okD)
  then show ?thesis by (auto simp: info_ok_def in_range_iff)
qed

lemma stored_parameters_typed_witness:
  "let np = initial_parameters ''/n'' reliable False [];
       script = [Declare ''speed'' (value_of_int 0 4) speed_range, Set_atomically [\<lparr> p_name = ''speed'', p_value = value_of_int 0 5 \<rparr>],
                 Set_atomically [\<lparr> p_name = ''speed'', p_value = value_of_int 0 8 \<rparr>]]
   in NodeParameters_new int_ops no_files ''/n'' False [] [] [] reliable False True = Ok np \<and>
      (\<exists>info. map_of (parameters (fold (perform int_ops) script np)) ''speed'' = Some info \<and>
        integer_value (i_value info) = 8 \<and> d_type (descriptor info) = PARAMETER_INTEGER \<and>
        check_parameter_value_in_range int_ops (descriptor info) (i_value info) = Ok accepted)"
proof -
  let ?np = "initial_parameters ''/n'' reliable False [] :: int NodeParameters"
  let ?script = "[Declare ''speed'' (value_of_int 0 4) speed_range, Set_atomically [\<lparr> p_name = ''speed'', p_value = value_of_int 0 5 \<rparr>],
                 Set_atomically [\<lparr> p_name = ''speed'', p_value = value_of_int 0 8 \<rparr>]]"
  have new: "NodeParameters_new int_ops no_files ''/n'' False [] [] [] reliable False True = Ok ?np"
    by (simp add: NodeParameters_new_def put_overrides_def declare_overrides_def initial_parameters_def act_eval)
  have "map_of (parameters (fold (perform int_ops) ?script ?np)) ''speed'' =
      Some \<lparr> i_value = value_of_int 0 8, descriptor = speed_range\<lparr> d_name := ''speed'', d_type := PARAMETER_INTEGER \<rparr> \<rparr>"
    by code_simp
  with stored_parameters_typed [OF new this] new show ?thesis by (simp add: value_of_int_def)
qed

text \<open>
  C19. A read-only parameter keeps its value and its descriptor whatever is declared, undeclared or
  set afterwards, through the node or through its services.
\<close>

theorem read_only_parameters_stay:
  assumes "map_of (parameters np) n = Some info" "read_only (descriptor info)"
  shows "map_of (parameters (fold (perform ops) script np)) n = Some info"
  using frozen.run_related [of np ops script] assms by (simp add: keeps_read_only_def)

definition fixed_speed :: "int NodeParameters" where
  "fixed_speed = (initial_parameters ''/n'' reliable True [])\<lparr> parameters :=
     [(''speed'', \<lparr> i_value = value_of_int 0 4, descriptor = speed_range\<lparr> read_only := True, d_name := ''speed'', d_type := PARAMETER_INTEGER \<rparr> \<rparr>)] \<rparr>"

lemma read_only_parameters_stay_witness:
  "\<exists>info. map_of (parameters fixed_speed) ''speed'' = Some info \<and> read_only (descriptor info) \<and>
     map_of (parameters (fold (perform int_ops) [Undeclare ''speed'', Set_each [\<lparr> p_name = ''speed'', p_value = value_of_int 0 8 \<rparr>]] fixed_speed)) ''speed'' = Some info"
proof -
  obtain info where info: "map_of (parameters fixed_speed) ''speed'' = Some info" "read_only (descriptor info)"
    by (simp add: fixed_speed_def)
  from read_only_parameters_stay [OF info] info show ?thesis by blast
qed

text \<open>
  C17. Parameters set together with success have the given values afterwards, or are gone if a value
  was taken away from them; every other parameter keeps its value.
\<close>

theorem set_parameters_values:
  assumes "set_parameters_atomically ops ps np = (Ok res, np')" "successful res" "distinct (map p_name ps)"
  shows "map_option i_value (map_of (parameters np') n) =
    (case find (\<lambda>p. p_name p = n) ps of
       None \<Rightarrow> map_option i_value (map_of (parameters np) n)
     | Some p \<Rightarrow>
         if get_type p = PARAMETER_NOT_SET \<and> try_get_parameter np n \<noteq> None then None else Some (p_value p))"
proof (cases "find (\<lambda>p. p_name p = n) ps")
  case None
  then have "n \<notin> p_name ` set ps" by (auto simp: find_None_iff)
  with set_atomically_frame [OF assms(1)] None show ?thesis by simp
next
  case (Some p)
  then have p: "p \<in> set ps" "p_name p = n" by (auto simp: find_Some_iff)
  from assms(1) show ?thesis
  proof (cases rule: set_parameters_atomically_cases)
    case (stored q staged verdict res' infos)
    have entry: "\<exists>p \<in> set ps. p_name p = m \<and> p_value p = i_value info" if "(m, info) \<in> set staged" for m info
      using staged_entry [OF stored(2) that] screened [OF stored(1)] by auto
    have to_set: "parameters_to_be_set ps staged = ps" using assms(3) entry by (rule nothing_replaced)
    have "map_option i_value (map_of infos n) = Some (p_value p)"
      using common_value [OF stored(3,4), of p] to_set assms(3) p by simp
    moreover have "i_value info = p_value p" if "(n, info) \<in> set staged" for info
      using entry [OF that] find_name [OF assms(3)] Some by fastforce
    ultimately have "map_option i_value (map_of (put_staged staged infos) n) = Some (p_value p)" by (rule put_staged_value [rotated])
    moreover have "n \<in> p_name ` set (parameters_to_be_undeclared (parameters np) ps) \<longleftrightarrow> get_type p = PARAMETER_NOT_SET \<and> try_get_parameter np n \<noteq> None"
      using name_filtered [OF assms(3) p(1)] p(2)
      by (simp add: parameters_to_be_undeclared_def try_get_parameter_def split: option.split)
    ultimately show ?thesis using stored(6) Some by (simp add: to_set erase_value)
  qed (use assms(2) in auto)
qed

lemma set_parameters_values_witness:
  "let np = (initial_parameters ''/n'' reliable True [] :: int NodeParameters);
       ps = [\<lparr> p_name = ''a'', p_value = value_of_int 0 1 \<rparr>, \<lparr> p_name = ''b'', p_value = value_of_bool 0 True \<rparr>];
       np' = snd (set_parameters_atomically int_ops ps np)
   in fst (set_parameters_atomically int_ops ps np) = Ok accepted \<and> map_option i_value (map_of (parameters np') ''b'') = Some (value_of_bool 0 True)"
proof -
  let ?np = "initial_parameters ''/n'' reliable True [] :: int NodeParameters"
  let ?ps = "[\<lparr> p_name = ''a'', p_value = value_of_int 0 1 \<rparr>, \<lparr> p_name = ''b'', p_value = value_of_bool 0 True \<rparr>]"
  have ok: "fst (set_parameters_atomically int_ops ?ps ?np) = Ok accepted" by code_simp
  then have "set_parameters_atomically int_ops ?ps ?np = (Ok accepted, snd (set_parameters_atomically int_ops ?ps ?np))"
    by (simp add: prod_eq_iff)
  from set_parameters_values [OF this, of "''b''"] ok show ?thesis by (simp add: get_type_def value_of_bool_def)
qed

text \<open>
  C18. A joint setting that is refused, or that throws in any way other than by publishing its event
  (in the checks, in the callback), leaves every parameter that was declared as it was, its
  descriptor included. If it throws because the publication of the event fails, the values have
  been set all the same: the store is the one that the setting leaves in a node without a publisher,
  where it succeeds.
\<close>

theorem failed_set_keeps_declared:
  assumes "set_parameters_atomically ops ps np = (r, np')" "\<forall>res. r = Ok res \<longrightarrow> \<not> successful res"
    and "map_of (parameters np) n = Some info"
  shows "map_of (parameters np') n = Some info \<or>
    (\<exists>publish e res t. events_publisher np = Some publish \<and> publish (publications np) = Some e \<and> r = Err e \<and>
       set_parameters_atomically ops ps (np\<lparr> events_publisher := None \<rparr>) = (Ok res, t) \<and> successful res \<and>
       parameters np' = parameters t)"
  using assms(1)
proof (cases rule: set_parameters_atomically_cases)
  case (refused q staged verdict)
  from common_failed [OF refused(3,4) assms(3)] show ?thesis by blast
next
  case (stored q staged verdict res infos)
  with assms(2) obtain publish e where "events_publisher np = Some publish" "publish (publications np) = Some e" "r = Err e"
    by (auto simp: published_def publication_error_def split: option.splits)
  with stored(4,7) show ?thesis by auto
qed (use assms(3) in auto)

text \<open>A node whose event publisher never works, with a parameter in a range.\<close>

definition mute_node :: "int NodeParameters" where
  "mute_node = (initial_parameters ''/n'' (Some (\<lambda>_. Some (Runtime_error ''publish''))) True [])\<lparr> parameters :=
     [(''speed'', \<lparr> i_value = value_of_int 0 4, descriptor = speed_range\<lparr> d_name := ''speed'', d_type := PARAMETER_INTEGER \<rparr> \<rparr>)] \<rparr>"

lemma failed_set_keeps_declared_witness:
  "let bad = [\<lparr> p_name = ''a'', p_value = value_of_int 0 1 \<rparr>, \<lparr> p_name = ''speed'', p_value = value_of_int 0 5 \<rparr>];
       good = [\<lparr> p_name = ''speed'', p_value = value_of_int 0 6 \<rparr>];
       speed = (\<lambda>np. map_option (\<lambda>i. integer_value (i_value i)) (map_of (parameters np) ''speed''))
   in \<not> (\<exists>res. fst (set_parameters_atomically int_ops bad mute_node) = Ok res \<and> successful res) \<and>
      speed (snd (set_parameters_atomically int_ops bad mute_node)) = Some 4 \<and>
      fst (set_parameters_atomically int_ops good mute_node) = Err (Runtime_error ''publish'') \<and>
      speed (snd (set_parameters_atomically int_ops good mute_node)) = Some 6"
proof -
  let ?bad = "[\<lparr> p_name = ''a'', p_value = value_of_int 0 1 \<rparr>, \<lparr> p_name = ''speed'', p_value = value_of_int 0 5 \<rparr>]"
  let ?good = "[\<lparr> p_name = ''speed'', p_value = value_of_int 0 6 \<rparr>]"
  let ?info = "\<lparr> i_value = value_of_int 0 4, descriptor = speed_range\<lparr> d_name := ''speed'', d_type := PARAMETER_INTEGER \<rparr> \<rparr>"
  have r: "fst (set_parameters_atomically int_ops ?bad mute_node) = Ok (format_reason ''speed'' ''integer'')" by code_simp
  have here: "map_of (parameters mute_node) ''speed'' = Some ?info" by code_simp
  from failed_set_keeps_declared [OF prod.collapse [symmetric] _ here, of int_ops ?bad] r
  have "map_of (parameters (snd (set_parameters_atomically int_ops ?bad mute_node))) ''speed'' = Some ?info" by simp
  moreover have "fst (set_parameters_atomically int_ops ?good mute_node) = Err (Runtime_error ''publish'')" by code_simp
  moreover have "map_option (\<lambda>i. integer_value (i_value i)) (map_of (parameters (snd (set_parameters_atomically int_ops ?good mute_node))) ''speed'') = Some 6"
    by code_simp
  ultimately show ?thesis using r by (simp add: value_of_int_def)
qed

text \<open>
  A refused setting is not without traces where undeclared parameters are allowed: an undeclared
  parameter before one whose value is out of range gets an entry, so that it counts as declared and
  can no longer be declared.
\<close>

theorem refused_set_declares:
  assumes "allow_undeclared np" "on_parameters_set_callback np = None"
    and "p_name a \<noteq> []" "map_of (parameters np) (p_name a) = None" "p_name b \<noteq> []"
    and "map_of (parameters np) (p_name b) = Some info" "\<not> read_only (descriptor info)"
    and "check_parameter_value_in_range ops (descriptor info) (p_value b) = Ok res" "\<not> successful res"
  shows "\<exists>np'. set_parameters_atomically ops [a, b] np = (Ok res, np') \<and> \<not> has_parameter np (p_name a) \<and> has_parameter np' (p_name a) \<and>
    fst (declare_parameter ops (p_name a) v desc np') =
      Err (ParameterAlreadyDeclaredException (''parameter '' @ in_quotes (p_name a) @ '' has already been declared''))"
proof -
  have ab: "p_name a \<noteq> p_name b" using assms(4,6) by auto
  have in_def: "check_parameter_value_in_range ops default_descriptor w = Ok accepted" for w
    using in_range_default in_range_iff by blast
  let ?staged = "[(p_name a, \<lparr> i_value = p_value a, descriptor = default_descriptor\<lparr> d_name := p_name a, d_type := get_type a \<rparr> \<rparr>)]"
  have "stage_parameters ops [a] [] = Ok (Inr ?staged)"
    by (simp add: declare_parameter_common_def set_parameters_atomically_common_def map_at_def in_def store_parameter_def get_type_def)
  moreover have "screen_parameters True (parameters np) [a, b] = Ok (Inr [a])" using assms by simp
  moreover have "parameters_to_be_set [a, b] ?staged = [a, b]" by (simp add: parameters_to_be_set_def)
  moreover have "set_parameters_atomically_common ops [a, b] accepted (parameters np) =
      (Ok res, map_put (p_name a) (default_info ops) (parameters np))"
    using assms ab in_def by (simp add: set_parameters_atomically_common_def map_at_def default_info_def)
  ultimately have "set_parameters_atomically ops [a, b] np =
      (Ok res, np\<lparr> parameters := map_put (p_name a) (default_info ops) (parameters np) \<rparr>)"
    using assms by (simp add: set_parameters_atomically_def ask_callback_def act_eval bindA_eval Let_def)
  then show ?thesis using assms(3,4) by (simp add: has_parameter_def declare_parameter_def act_eval)
qed

lemma refused_set_declares_witness:
  "let a = \<lparr> p_name = ''a'', p_value = value_of_int 0 1 \<rparr>; b = \<lparr> p_name = ''speed'', p_value = value_of_int 0 5 \<rparr>;
       np = fixed_speed\<lparr> parameters := [(''speed'', \<lparr> i_value = value_of_int 0 4, descriptor = speed_range \<rparr>)] \<rparr>
   in \<exists>res np'. set_parameters_atomically int_ops [a, b] np = (Ok res, np') \<and> \<not> successful res \<and> \<not> has_parameter np ''a'' \<and> has_parameter np' ''a''"
proof -
  let ?a = "\<lparr> p_name = ''a'', p_value = value_of_int 0 1 \<rparr>" and ?b = "\<lparr> p_name = ''speed'', p_value = value_of_int 0 5 \<rparr>"
  let ?np = "fixed_speed\<lparr> parameters := [(''speed'', \<lparr> i_value = value_of_int 0 4, descriptor = speed_range \<rparr>)] \<rparr>"
  have "check_parameter_value_in_range int_ops speed_range (value_of_int 0 5) = Ok (format_reason [] ''integer'')" by code_simp
  then show ?thesis
    using refused_set_declares [of ?np ?a ?b "\<lparr> i_value = value_of_int 0 4, descriptor = speed_range \<rparr>" int_ops "format_reason [] ''integer''" "value_of_int 0 1" default_descriptor]
    by (simp add: fixed_speed_def initial_parameters_def speed_range_def default_descriptor_def Let_def) (metis accepted_simps(2))
qed

text \<open>
  C37. A declaration that is refused, by the answer of the callback or because the value is out of
  range, throws and yet leaves the parameter declared: declaring it again, even with a proper value,
  throws that it has already been declared. (A callback that throws instead of answering, the
  excluded case, leaves nothing behind.)
\<close>

theorem refused_declaration_declares:
  assumes "declare_parameter ops n v desc np = (Err (InvalidParameterValueException msg), np')"
    and "fst (ask_callback [\<lparr> p_name = n, p_value = initial_value v (parameter_overrides np) True n \<rparr>] np) = Ok verdict"
  shows "\<not> has_parameter np n \<and> has_parameter np' n \<and>
    fst (declare_parameter ops n w desc' np') =
      Err (ParameterAlreadyDeclaredException (''parameter '' @ in_quotes n @ '' has already been declared''))"
proof -
  have n: "n \<noteq> []" "map_of (parameters np) n = None"
    using assms by (auto simp: declare_parameter_def act_eval split: if_splits)
  let ?v = "initial_value v (parameter_overrides np) True n"
  obtain np1 where ask: "ask_callback [\<lparr> p_name = n, p_value = ?v \<rparr>] np = (Ok verdict, np1)"
    using assms(2) by (metis prod.collapse)
  note kept = asked [OF ask]
  obtain r infos where c: "declare_parameter_common ops n ?v desc verdict (parameters np) = (r, infos)" by fastforce
  have bad: "ub e" if "r = Err e" for e
    using c that by (auto dest!: common_error simp: declare_parameter_common_def split: prod.splits sum.splits)
  obtain res where r: "r = Ok res" "parameters np' = infos"
  proof (cases r)
    case (Inl e)
    with assms n ask kept c bad show ?thesis by (auto simp: declare_parameter_def bindA_eval act_eval)
  next
    case (Inr res)
    with assms n ask kept c that show ?thesis
      by (auto simp: declare_parameter_def bindA_eval seqA_eval act_eval publish_event_def Let_def split: if_splits option.splits)
  qed
  obtain i where "infos = map_put n i (parameters np)"
    using c r(1) by (auto simp: declare_parameter_common_def split: prod.splits sum.splits)
  then have "map_of infos n \<noteq> None" by simp
  with n r show ?thesis by (auto simp: has_parameter_def declare_parameter_def act_eval)
qed

lemma refused_declaration_declares_witness:
  "let np = initial_parameters ''/n'' reliable True []; np' = snd (declare_parameter int_ops ''speed'' (value_of_int 0 5) speed_range np)
   in (\<exists>msg. fst (declare_parameter int_ops ''speed'' (value_of_int 0 5) speed_range np) = Err (InvalidParameterValueException msg)) \<and>
      (\<exists>msg. fst (declare_parameter int_ops ''speed'' (value_of_int 0 4) speed_range np') = Err (ParameterAlreadyDeclaredException msg))"
proof -
  let ?np = "initial_parameters ''/n'' reliable True [] :: int NodeParameters"
  have "fst (declare_parameter int_ops ''speed'' (value_of_int 0 5) speed_range ?np) =
      Err (InvalidParameterValueException (''parameter '' @ in_quotes ''speed'' @ '' could not be set: '' @ reason (format_reason [] ''integer'')))"
    by code_simp
  then obtain msg where e: "fst (declare_parameter int_ops ''speed'' (value_of_int 0 5) speed_range ?np) = Err (InvalidParameterValueException msg)" by blast
  then have "declare_parameter int_ops ''speed'' (value_of_int 0 5) speed_range ?np =
      (Err (InvalidParameterValueException msg), snd (declare_parameter int_ops ''speed'' (value_of_int 0 5) speed_range ?np))"
    by (simp add: prod_eq_iff)
  from refused_declaration_declares [OF this, of accepted] e show ?thesis
    by (simp add: Let_def ask_callback_def initial_parameters_def)
qed

text \<open>
  One malformed entry in a request to set parameters, without a name or with an unknown type, ends
  the handler with an exception, whatever the other entries are: nobody is answered, although the
  entries before it may have been set.
\<close>

theorem malformed_request_unanswered:
  assumes "name = [] \<or> (\<exists>k. v_type v = Unknown_type k)"
  shows "\<exists>e np'. set_parameters_service ops (reqs @ (name, v) # others) np = (Err e, np')"
proof (induction reqs arbitrary: np)
  case Nil
  have "\<exists>e np'. bindA (liftA (Parameter_from_msg name v)) (\<lambda>p. set_parameters_atomically ops [p]) np = (Err e, np') \<and>
      (\<forall>msg. e \<noteq> ParameterNotDeclaredException msg)"
    using assms by (auto simp: Parameter_from_msg_def value_from_msg_def set_parameters_atomically_def act_eval split: ParameterType.split)
  then show ?case by (auto simp: bindA_eval split: cpp_error.split)
next
  case (Cons req reqs)
  show ?case by (cases req) (simp, intro bind_throws first_throws Cons.IH)
qed

lemma malformed_request_unanswered_witness:
  "\<exists>e np'. set_parameters_service int_ops [(''speed'', value_of_int 0 4), ([], value_of_int 0 4)] (initial_parameters ''/n'' reliable True []) = (Err e, np')"
  using malformed_request_unanswered [of "[]" "value_of_int 0 4" int_ops "[(''speed'', value_of_int 0 4)]" "[]" "initial_parameters ''/n'' reliable True []"]
  by simp

end
