(* ===== verification/Spec2Isabelle.thy ===== *)
theory Spec2Isabelle
  imports Mmh3 RosTime Measuring_Base Influx InfluxHttp Writers Trackers Timer WaitSet
    Executor ExecutorProps MultiThreaded Clock TimeSource MappedRingBuffer
    IntraProcessManager PubSub ActionGoal ActionServer ActionServerSafety ActionServerProps
    Lexer Lookahead RemapRule RemapGrammar RclArguments TopicNames NameRemap
    LifecycleMachine LifecycleNode Parameters NodeParameters NodeParameterProps
begin

text \<open>
  PMROS2 is a fork of the ROS 2 client libraries that measures performance: every message
  carries hidden variables (send time, identifier, hash of the publishing node), message
  trackers of publishers and subscriptions fill and evaluate them, jitter trackers of timers
  record how late activations are, and measurement writers bring the results to a file, to
  standard output or to InfluxDB. This library models that measuring path and the parts of
  rclcpp and rcl it runs on: publishers, subscriptions and timers, the names and the command line of
  a node, its parameters, actions, the lifecycle of nodes, and the executors that run all callbacks.

  \<^bold>\<open>Theories and the code they model.\<close>
  \<^item> \<open>Prelude\<close>: fixed-width integers, exceptions and undefined behaviour as values.
  \<^item> \<open>Effects\<close>: computations that change a state and may throw; the locale \<open>step_relation\<close> carries
    a relation between states through them.
  \<^item> \<open>Mmh3\<close>: the hash functions of \<open>rclcpp/src/rclcpp/hashing/mmh3.cpp\<close> on byte lists and words.
  \<^item> \<open>RosTime\<close>: \<open>duration.cpp\<close>, \<open>time.cpp\<close>, the overflow predicates of \<open>utilities.hpp\<close>, \<open>rate.hpp\<close>.
  \<^item> \<open>Measuring_Base\<close>: hidden variables, options, hexadecimal names, node hash
    (\<open>rclcpp/include/rclcpp/measuring\<close>).
  \<^item> \<open>Influx\<close>, \<open>InfluxHttp\<close>: the InfluxDB client \<open>influxdb.hpp\<close>: line protocol, URL encoding, HTTP.
  \<^item> \<open>Writers\<close>: the file, print, InfluxDB and dummy writers; the interface
    \<open>IMeasurementWriter\<close> is the locale \<open>measurement_writer\<close>.
  \<^item> \<open>Trackers\<close>: message trackers, jitter trackers and their factories.
  \<^item> \<open>Timer\<close>: \<open>rcl/src/rcl/timer.c\<close> and \<open>rclcpp/src/rclcpp/timer.cpp\<close>, \<open>timer.hpp\<close>.
  \<^item> \<open>WaitSet\<close>: \<open>rcl/src/rcl/wait.c\<close>, arrays with null and dangling pointers.
  \<^item> \<open>Executor\<close>, \<open>ExecutorProps\<close>: \<open>callback_group.cpp\<close>, \<open>executor.cpp\<close>, \<open>memory_strategy.cpp\<close>,
    \<open>allocator_memory_strategy.hpp\<close>, \<open>any_executable.cpp\<close>, \<open>executors.cpp\<close> and the single-threaded
    executor; weak pointers are identifiers looked up in a record of what exists.
  \<^item> \<open>MultiThreaded\<close>: \<open>multi_threaded_executor.cpp\<close>, the threads as an inductive step relation.
  \<^item> \<open>Clock\<close>, \<open>TimeSource\<close>: \<open>rcl/src/rcl/time.c\<close>, \<open>clock.cpp\<close>, \<open>parameter_events_filter.cpp\<close> and
    \<open>time_source.cpp\<close>; the timers and handlers that a clock calls are part of its record.
  \<^item> \<open>MappedRingBuffer\<close>: \<open>mapped_ring_buffer.hpp\<close>; what its clients rely on is the locale
    \<open>keyed_store\<close>.
  \<^item> \<open>IntraProcessManager\<close>: \<open>intra_process_manager.cpp\<close>, \<open>intra_process_manager.hpp\<close> and
    \<open>intra_process_manager_impl.hpp\<close>.
  \<^item> \<open>PubSub\<close>: \<open>publisher.hpp\<close>, \<open>subscription.hpp\<close>, \<open>any_subscription_callback.hpp\<close> and the
    subscription counts of \<open>publisher_base.cpp\<close>, with messages in a heap.
  \<^item> \<open>ActionGoal\<close>, \<open>ActionServer\<close>, \<open>ActionServerSafety\<close>, \<open>ActionServerProps\<close>: goals and the action
    server, \<open>rcl_action/src/rcl_action\<close> and \<open>rclcpp_action/src/server.cpp\<close> with the handles of
    the user; the second holds the operations, the others what is proved of them.
  \<^item> \<open>Lexer\<close>, \<open>Lookahead\<close>: \<open>rcl/src/rcl/lexer.c\<close>, \<open>lexer_lookahead.c\<close>; a text is a list of characters
    and reading behind its terminator is undefined behaviour.
  \<^item> \<open>RemapRule\<close>, \<open>RemapGrammar\<close>, \<open>RclArguments\<close>: the parser of remap rules and of the command
    line, \<open>rcl/src/rcl/arguments.c\<close>, and the grammar it accepts.
  \<^item> \<open>TopicNames\<close>, \<open>NameRemap\<close>: \<open>validate_topic_name.c\<close>, \<open>expand_topic_name.c\<close>, \<open>remap.c\<close>.
  \<^item> \<open>LifecycleMachine\<close>, \<open>LifecycleNode\<close>: the state machine of \<open>rcl_lifecycle\<close>, with its arrays and
    the pointers into them, and the node of \<open>rclcpp_lifecycle\<close>.
  \<^item> \<open>Parameters\<close>, \<open>NodeParameters\<close>, \<open>NodeParameterProps\<close>: \<open>parameter_value.cpp\<close>, \<open>parameter.cpp\<close>,
    \<open>parameter_map.cpp\<close>, \<open>node_parameters.cpp\<close>, \<open>parameter_service.cpp\<close>; the locale
    \<open>parameter_relation\<close> reduces what every operation keeps to four of them.

  \<^bold>\<open>Conventions.\<close> A class is a record, an enumeration a datatype, a method a function from the
  state to the new state; exceptions and undefined behaviour are left values of the sum type
  \<open>'a res\<close>. Unsigned integers that wrap are words, signed ones are integers whose operations
  check the range of their type. Containers keyed by ids are association lists. What comes
  from outside (clock readings, \<open>writev\<close> and \<open>recv\<close>, the return codes of the middleware, copy
  construction of messages, weak pointers, user callbacks, the parser of parameter files,
  floating-point arithmetic) is an argument of the operations that use it.
  Operations are atomic steps, except in the multi-threaded executor, where a step is what a thread
  does under one lock; where the order of operations matters, a step relation (timers, the
  intra-process manager, the time source) gives the reachable states.

  \<^bold>\<open>What is shown.\<close> Hashing: the implementation on words equals the published algorithm written
  down independently on natural numbers, names that differ in one block do not collide. Time: arithmetic
  is exact or throws, with the one undefined case named. Writing: the lines of the line protocol read
  back, batching conserves them, the buffer is bounded, a post sends exactly the request. Tracking:
  identifiers are gapless or preserved, trackers fail only when the database cannot be reached and
  never misuse their writer, latency measurements are correct from the publisher's stamps to the lines
  in the database for every order of delivery. Timers: phase and readiness in all reachable states,
  the lateness of every activation recorded correctly. Waiting: what is left in a wait set is what is ready, and no timer is
  slept through. Executors: the choice of the next callback, the work left by waiting, groups that are
  always given back by a single thread, mutual exclusion of threads and how it is lost. Clocks: they follow the parameter
  \<open>use_sim_time\<close> and the topic \<open>/clock\<close>, simulated time wakes the timers that are due. Intra-process communication: the ring buffer
  refines a bounded queue, messages are delivered exactly once, dispatch is total. Actions: goals
  follow their state machine, results reach every requester, no operation but the expiry check
  touches freed memory while the clock can be read. Names: the lexer finds the longest match, the parser accepts the grammar
  and returns what was written, the command line is split completely, validation and expansion are
  characterized, remapping applies the first matching rule. Lifecycle: a change of state refines
  the documented design and the node comes to rest, while its notifications can be published. Parameters:
  stored values are typed and in range, read-only ones never change, setting is atomic for declared
  parameters up to the publication of the event. Where the code
  does something else than it means to, a property of kind error states what happens.

  \<^bold>\<open>Bounds and fuel.\<close> The write loop takes one unit of fuel per byte, which is proved to be
  enough; the reader of HTTP responses takes fuel because it need not end, and one
  lemma shows an input on which it does not. The loops of the rule parser take one unit of fuel
  per remaining character and one more, proved to be enough; the substitution loop of the topic
  names is a partial function, proved to return for valid names. Hypotheses of the form \<open>x + p \<le> INT64_MAX\<close> keep clock
  readings away from the end of the range of \<open>int64_t\<close> (the year 2262).

  \<^bold>\<open>Not modelled.\<close> The middleware below \<open>rmw\<close>, which is not part of the repository, and the wrappers of
  \<open>rcl\<close> whose functions check arguments and call it; the set-up of sockets beyond its success or failure,
  and floating-point fields, which are calls of the operating system and of the floating-point unit; the parser of YAML files, which is driven
  by the events of libyaml; thread interleavings inside an operation, except for the threads of the
  multi-threaded executor; the remaining node interfaces, the context and the graph
  listener, action and parameter clients, which forward to services or register callbacks; and
  components, which load shared libraries.
\<close>

end
